(* ===== verification/Prelude.thy ===== *)
theory Prelude
  imports Main
begin

text \<open>
  The substrate the component theories share: SQL transactions as state transformers with
  errors as values, tables as lists of rows with the UPDATE / SELECT / DELETE statements the
  store issues, and the generic lemmas about them.

  A database operation is a function from the database to its outcome and the database it
  leaves behind. The outcome is \<open>Inl e\<close> for a returned Go error and \<open>Inr x\<close> for a
  result; the database component is what the connection holds at that moment, also after an
  error, so that what is kept depends on how the Go code finishes the transaction:
  \<open>atomically\<close> models \<open>defer completeTransaction(finish, &err)\<close> on the function's named
  result (an error rolls back), \<open>committing\<close> models the same \<open>defer\<close> on a shadowed local
  \<open>err\<close> (the deferred call sees nil and commits whatever was done), and a statement executed
  directly on \<open>s.db\<close> is its own transaction.
\<close>

named_theorems tx_simps \<open>evaluation of transactions\<close>
named_theorems tx_inv \<open>inversion of a successful transaction\<close>
named_theorems table_simps \<open>statements on tables\<close>

section \<open>Transactions\<close>

type_synonym ('e, 's, 'a) tx = "'s \<Rightarrow> ('e + 'a) \<times> 's"

definition ret :: "'a \<Rightarrow> ('e, 's, 'a) tx" where
  "ret x = (\<lambda>s. (Inr x, s))"

definition raise :: "'e \<Rightarrow> ('e, 's, 'a) tx" where
  "raise e = (\<lambda>s. (Inl e, s))"

definition and_then :: "('e, 's, 'a) tx \<Rightarrow> ('a \<Rightarrow> ('e, 's, 'b) tx) \<Rightarrow> ('e, 's, 'b) tx" where
  "and_then m k = (\<lambda>s. case m s of (Inl e, s') \<Rightarrow> (Inl e, s') | (Inr x, s') \<Rightarrow> k x s')"

definition gets :: "('s \<Rightarrow> 'a) \<Rightarrow> ('e, 's, 'a) tx" where
  "gets f = (\<lambda>s. (Inr (f s), s))"

definition modify :: "('s \<Rightarrow> 's) \<Rightarrow> ('e, 's, unit) tx" where
  "modify f = (\<lambda>s. (Inr (), f s))"

definition ensure :: "bool \<Rightarrow> 'e \<Rightarrow> ('e, 's, unit) tx" where
  "ensure b e = (if b then ret () else raise e)"

definition ensuring :: "('s \<Rightarrow> bool) \<Rightarrow> 'e \<Rightarrow> ('e, 's, unit) tx" where
  "ensuring p e = (\<lambda>s. (if p s then Inr () else Inl e, s))"

definition atomically :: "('e, 's, 'a) tx \<Rightarrow> ('e, 's, 'a) tx" where
  "atomically m = (\<lambda>s. case m s of (Inl e, _) \<Rightarrow> (Inl e, s) | (Inr x, s') \<Rightarrow> (Inr x, s'))"

definition committing :: "('e, 's, 'a) tx \<Rightarrow> ('e, 's, 'a) tx" where
  "committing m = m"

fun for_each :: "('x \<Rightarrow> ('e, 's, unit) tx) \<Rightarrow> 'x list \<Rightarrow> ('e, 's, unit) tx" where
  "for_each f [] = ret ()"
| "for_each f (x # xs) = and_then (f x) (\<lambda>_. for_each f xs)"

definition succeeds :: "('e + 'a) \<times> 's \<Rightarrow> bool" where
  "succeeds r = (case fst r of Inl _ \<Rightarrow> False | Inr _ \<Rightarrow> True)"

lemma if_Inr_eq [simp]: "((if b then Inr x else Inl e) = Inr y) = (b \<and> x = y)"
  by simp

lemma if_Inl_eq [simp]: "((if b then Inr x else Inl e) = Inl e') = (\<not> b \<and> e = e')"
  by simp

lemma ret_apply [simp, tx_simps]: "ret x s = (Inr x, s)"
  by (simp add: ret_def)

lemma raise_apply [simp, tx_simps]: "raise e s = (Inl e, s)"
  by (simp add: raise_def)

lemma gets_apply [simp, tx_simps]: "gets f s = (Inr (f s), s)"
  by (simp add: gets_def)

lemma modify_apply [simp, tx_simps]: "modify f s = (Inr (), f s)"
  by (simp add: modify_def)

lemma ensure_apply [simp, tx_simps]: "ensure b e s = (if b then Inr () else Inl e, s)"
  by (simp add: ensure_def)

lemma ensuring_apply [simp, tx_simps]: "ensuring p e s = (if p s then Inr () else Inl e, s)"
  by (simp add: ensuring_def)

lemma and_then_Inr [simp, tx_simps]: "m s = (Inr x, s') \<Longrightarrow> and_then m k s = k x s'"
  by (simp add: and_then_def)

lemma and_then_Inl [simp, tx_simps]: "m s = (Inl e, s') \<Longrightarrow> and_then m k s = (Inl e, s')"
  by (simp add: and_then_def)

lemma and_then_success_iff [tx_inv]:
  "and_then m k s = (Inr y, s') \<longleftrightarrow> (\<exists>x s1. m s = (Inr x, s1) \<and> k x s1 = (Inr y, s'))"
  by (auto simp: and_then_def split: prod.splits sum.splits)

lemma and_then_ret [simp]: "and_then (ret x) k = k x"
  by (rule ext) simp

lemma and_then_raise [simp]: "and_then (raise e) k = raise e"
  by (rule ext) simp

lemma and_then_gets [simp, tx_simps]: "and_then (gets f) k s = k (f s) s"
  by simp

lemma and_then_modify [simp, tx_simps]: "and_then (modify f) k s = k () (f s)"
  by simp

lemma and_then_ensure [tx_simps]:
  "and_then (ensure b e) k s = (if b then k () s else (Inl e, s))"
  by (simp add: and_then_def)

lemma and_then_ensuring [tx_simps]:
  "and_then (ensuring p e) k s = (if p s then k () s else (Inl e, s))"
  by (simp add: and_then_def)

lemma atomically_success_iff [simp, tx_inv]:
  "atomically m s = (Inr x, s') \<longleftrightarrow> m s = (Inr x, s')"
  by (auto simp: atomically_def split: prod.splits sum.splits)

lemma atomically_failure: "atomically m s = (Inl e, s') \<Longrightarrow> s' = s"
  by (auto simp: atomically_def split: prod.splits sum.splits)

lemma atomically_failure_iff:
  "atomically m s = (Inl e, s') \<longleftrightarrow> s' = s \<and> (\<exists>s1. m s = (Inl e, s1))"
  by (auto simp: atomically_def split: prod.splits sum.splits)

lemma atomically_apply: "m s = (Inl e, s1) \<Longrightarrow> atomically m s = (Inl e, s)"
  by (simp add: atomically_def)

lemma committing_apply [simp]: "committing m s = m s"
  by (simp add: committing_def)

lemma raise_not_success [simp]: "(raise e s = (Inr x, s')) = False"
  by simp

lemma ensure_success_iff [tx_inv]: "ensure b e s = (Inr u, s') \<longleftrightarrow> b \<and> s' = s"
  by auto

lemma ensuring_success_iff [tx_inv]: "ensuring p e s = (Inr u, s') \<longleftrightarrow> p s \<and> s' = s"
  by auto

text \<open>
  Invariants of transactions: a predicate kept by every step of a sequence is kept by the
  sequence, and by the transaction around it. The relational form says how the state before
  relates to the state after, also when the operation fails.
\<close>

definition keeps :: "('s \<Rightarrow> 's \<Rightarrow> bool) \<Rightarrow> ('e, 's, 'a) tx \<Rightarrow> bool" where
  "keeps R m \<longleftrightarrow> (\<forall>s. R s (snd (m s)))"

lemma keepsI: "(\<And>s r s'. m s = (r, s') \<Longrightarrow> R s s') \<Longrightarrow> keeps R m"
  by (auto simp: keeps_def) (metis prod.collapse)

lemma keepsD: "keeps R m \<Longrightarrow> m s = (r, s') \<Longrightarrow> R s s'"
  by (auto simp: keeps_def dest: spec [where x = s])

lemma and_then_cases:
  assumes "and_then m k s = (r, s')"
  obtains (stopped) e where "m s = (Inl e, s')" "r = Inl e" | (went) x s1 where "m s = (Inr x, s1)" "k x s1 = (r, s')"
  using assms by (auto simp: and_then_def split: prod.splits sum.splits)

lemma keeps_sum: "(\<And>x. keeps R (f x)) \<Longrightarrow> (\<And>y. keeps R (g y)) \<Longrightarrow> keeps R (case v of Inl x \<Rightarrow> f x | Inr y \<Rightarrow> g y)"
  by (cases v) auto

text \<open>
  A state relation that composes (the contract every operation of the store offers its
  callers: what may change between two points of an execution). The lemmas of the locale lift
  it over sequencing, loops and transactions.
\<close>

locale step_contract =
  fixes R :: "'s \<Rightarrow> 's \<Rightarrow> bool"
  assumes refl: "R s s"
    and trans: "R s t \<Longrightarrow> R t u \<Longrightarrow> R s u"
begin

lemma keeps_ret: "keeps R (ret x)"
  by (simp add: keeps_def refl)

lemma keeps_raise: "keeps R (raise e)"
  by (simp add: keeps_def refl)

lemma keeps_gets: "keeps R (gets f)"
  by (simp add: keeps_def refl)

lemma keeps_ensure: "keeps R (ensure b e)"
  by (simp add: keeps_def refl)

lemma keeps_ensuring: "keeps R (ensuring p e)"
  by (simp add: keeps_def refl)

lemma keeps_and_then:
  assumes "keeps R m" and "\<And>x. keeps R (k x)"
  shows "keeps R (and_then m k)"
proof (rule keepsI)
  fix s r s' assume run: "and_then m k s = (r, s')"
  obtain q s1 where m: "m s = (q, s1)" by (cases "m s")
  from keepsD [OF assms(1) m] have 1: "R s s1" .
  show "R s s'"
  proof (cases q)
    case (Inl e)
    with m run 1 show ?thesis by simp
  next
    case (Inr x)
    with m run have "k x s1 = (r, s')" by simp
    with assms(2) have "R s1 s'" by (rule keepsD)
    with 1 show ?thesis by (rule trans)
  qed
qed

lemma keeps_for_each: "(\<And>x. keeps R (f x)) \<Longrightarrow> keeps R (for_each f xs)"
  by (induction xs) (auto intro: keeps_ret keeps_and_then)

lemma keeps_atomically: "keeps R m \<Longrightarrow> keeps R (atomically m)"
  by (auto simp: keeps_def atomically_def refl split: prod.splits sum.splits)
    (metis snd_conv)

lemma keeps_committing: "keeps R m \<Longrightarrow> keeps R (committing m)"
  by (simp add: committing_def)

lemma keeps_if: "keeps R m \<Longrightarrow> keeps R m' \<Longrightarrow> keeps R (if b then m else m')"
  by simp

lemma keeps_option:
  "keeps R m \<Longrightarrow> (\<And>x. keeps R (k x)) \<Longrightarrow> keeps R (case v of None \<Rightarrow> m | Some x \<Rightarrow> k x)"
  by (cases v) auto

lemma reachable:
  assumes "\<And>s s'. step s s' \<Longrightarrow> R s s'" and "step\<^sup>*\<^sup>* s s'"
  shows "R s s'"
  using assms(2) by (induction rule: rtranclp_induct) (rule refl, metis assms(1) trans)

lemmas keeps_intros = keeps_ret keeps_raise keeps_gets keeps_ensure keeps_ensuring
  keeps_and_then keeps_for_each keeps_atomically keeps_committing keeps_if keeps_option

end

text \<open>
  The contract of an operation that a lease guards: it succeeds only for the token that holds the
  lease at that moment. \<open>good\<close> is what the operation assumes of the state (unique keys). A client
  whose lease was taken over gets an error; where the operation is one transaction or one
  statement, it also changes nothing.
\<close>

locale leased_op =
  fixes good :: "'s \<Rightarrow> bool"
    and holder :: "'s \<Rightarrow> 't option"
    and op :: "'t \<Rightarrow> ('e, 's, 'a) tx"
  assumes only_holder: "good s \<Longrightarrow> op tok s = (Inr x, s') \<Longrightarrow> holder s = Some tok"
begin

lemma stale_rejected: "good s \<Longrightarrow> holder s \<noteq> Some tok \<Longrightarrow> \<exists>e s'. op tok s = (Inl e, s')"
  by (metis only_holder old.sum.exhaust surj_pair)

end

locale atomic_leased_op = leased_op +
  assumes failure_keeps: "good s \<Longrightarrow> op tok s = (Inl e, s') \<Longrightarrow> s' = s"
begin

lemma stale_harmless: "good s \<Longrightarrow> holder s \<noteq> Some tok \<Longrightarrow> \<exists>e. op tok s = (Inl e, s)"
  using stale_rejected failure_keeps by blast

end

section \<open>Tables\<close>

text \<open>
  A table is the list of its rows in insertion order. \<open>update_where p f\<close> is
  \<open>UPDATE \<dots> SET f WHERE p\<close>; \<open>affected p\<close> is the statement's RowsAffected.
\<close>

definition update_where :: "('r \<Rightarrow> bool) \<Rightarrow> ('r \<Rightarrow> 'r) \<Rightarrow> 'r list \<Rightarrow> 'r list" where
  "update_where p f rows = map (\<lambda>r. if p r then f r else r) rows"

definition delete_where :: "('r \<Rightarrow> bool) \<Rightarrow> 'r list \<Rightarrow> 'r list" where
  "delete_where p rows = filter (\<lambda>r. \<not> p r) rows"

definition affected :: "('r \<Rightarrow> bool) \<Rightarrow> 'r list \<Rightarrow> nat" where
  "affected p rows = length (filter p rows)"

definition select_where :: "('r \<Rightarrow> bool) \<Rightarrow> 'r list \<Rightarrow> 'r option" where
  "select_where p rows = find p rows"

definition exists_where :: "('r \<Rightarrow> bool) \<Rightarrow> 'r list \<Rightarrow> bool" where
  "exists_where p rows = list_ex p rows"

lemma update_where_Nil [simp, table_simps]: "update_where p f [] = []"
  by (simp add: update_where_def)

lemma update_where_Cons [simp, table_simps]:
  "update_where p f (r # rows) = (if p r then f r else r) # update_where p f rows"
  by (simp add: update_where_def)

lemma length_update_where [simp]: "length (update_where p f rows) = length rows"
  by (simp add: update_where_def)

lemma set_update_where:
  "set (update_where p f rows) = {r \<in> set rows. \<not> p r} \<union> f ` {r \<in> set rows. p r}"
  by (auto simp: update_where_def)

lemma update_where_id: "(\<And>r. r \<in> set rows \<Longrightarrow> \<not> p r) \<Longrightarrow> update_where p f rows = rows"
  by (induction rows) auto

lemma map_update_where:
  "(\<And>r. r \<in> set rows \<Longrightarrow> p r \<Longrightarrow> g (f r) = g r) \<Longrightarrow> map g (update_where p f rows) = map g rows"
  by (induction rows) auto

lemma nth_update_where [simp]:
  "i < length rows \<Longrightarrow> update_where p f rows ! i = (if p (rows ! i) then f (rows ! i) else rows ! i)"
  by (simp add: update_where_def)

lemma affected_Nil [simp, table_simps]: "affected p [] = 0"
  by (simp add: affected_def)

lemma affected_Cons [simp, table_simps]:
  "affected p (r # rows) = (if p r then Suc (affected p rows) else affected p rows)"
  by (simp add: affected_def)

lemma affected_append [simp]: "affected p (xs @ ys) = affected p xs + affected p ys"
  by (simp add: affected_def)

lemma affected_zero: "affected p rows = 0 \<longleftrightarrow> (\<forall>r \<in> set rows. \<not> p r)"
  by (induction rows) auto

lemma affected_mono:
  "(\<And>r. r \<in> set rows \<Longrightarrow> p r \<Longrightarrow> q r) \<Longrightarrow> affected p rows \<le> affected q rows"
  by (induction rows) (auto simp: le_SucI)

lemma affected_strict:
  assumes "\<And>r. r \<in> set rows \<Longrightarrow> p r \<Longrightarrow> q r" and "x \<in> set rows" and "q x" and "\<not> p x"
  shows "affected p rows < affected q rows"
proof -
  from assms(2) obtain us vs where rows: "rows = us @ x # vs" by (auto simp: in_set_conv_decomp)
  have "affected p us \<le> affected q us" and "affected p vs \<le> affected q vs"
    by (rule affected_mono; use assms(1) rows in auto)+
  with assms(3,4) show ?thesis by (simp add: rows)
qed

lemma affected_update_same:
  "(\<And>r. r \<in> set rows \<Longrightarrow> q r \<Longrightarrow> p (f r) = p r) \<Longrightarrow> affected p (update_where q f rows) = affected p rows"
  by (induction rows) auto

lemma select_where_Nil [simp, table_simps]: "select_where p [] = None"
  by (simp add: select_where_def)

lemma select_where_Cons [simp, table_simps]:
  "select_where p (r # rows) = (if p r then Some r else select_where p rows)"
  by (simp add: select_where_def)

lemma select_where_Some: "select_where p rows = Some r \<Longrightarrow> r \<in> set rows \<and> p r"
  by (auto simp: select_where_def find_Some_iff in_set_conv_nth)

lemma select_where_None: "select_where p rows = None \<longleftrightarrow> (\<forall>r \<in> set rows. \<not> p r)"
  by (auto simp: select_where_def find_None_iff)

lemma exists_where_iff [simp, table_simps]: "exists_where p rows \<longleftrightarrow> (\<exists>r \<in> set rows. p r)"
  by (simp add: exists_where_def list_ex_iff)

lemma set_delete_where [simp]: "set (delete_where p rows) = {r \<in> set rows. \<not> p r}"
  by (auto simp: delete_where_def)

lemma delete_where_Nil [simp, table_simps]: "delete_where p [] = []"
  by (simp add: delete_where_def)

lemma delete_where_Cons [simp, table_simps]:
  "delete_where p (r # rows) = (if p r then delete_where p rows else r # delete_where p rows)"
  by (simp add: delete_where_def)

subsection \<open>Statements on a table of the database\<close>

text \<open>
  A table is a field of the database record: \<open>get\<close> reads it and \<open>upd\<close> updates it. The
  statements below are generic in the table; the locale states the law of the field access
  and derives how a statement that must hit one row behaves.
\<close>

definition exec_update ::
  "('s \<Rightarrow> 'r list) \<Rightarrow> (('r list \<Rightarrow> 'r list) \<Rightarrow> 's \<Rightarrow> 's) \<Rightarrow> ('r \<Rightarrow> bool) \<Rightarrow> ('r \<Rightarrow> 'r) \<Rightarrow> ('e, 's, nat) tx" where
  "exec_update get upd p f = (\<lambda>s. (Inr (affected p (get s)), upd (update_where p f) s))"

definition one_row :: "'e \<Rightarrow> nat \<Rightarrow> ('e, 's, unit) tx" where
  "one_row e n = ensure (n = 1) e"

definition exec_one ::
  "('s \<Rightarrow> 'r list) \<Rightarrow> (('r list \<Rightarrow> 'r list) \<Rightarrow> 's \<Rightarrow> 's) \<Rightarrow> 'e \<Rightarrow> ('r \<Rightarrow> bool) \<Rightarrow> ('r \<Rightarrow> 'r) \<Rightarrow> ('e, 's, unit) tx" where
  "exec_one get upd e p f = and_then (exec_update get upd p f) (one_row e)"

definition exec_insert ::
  "(('r list \<Rightarrow> 'r list) \<Rightarrow> 's \<Rightarrow> 's) \<Rightarrow> 'r \<Rightarrow> ('e, 's, unit) tx" where
  "exec_insert upd r = modify (upd (\<lambda>rows. rows @ [r]))"

definition exec_delete ::
  "(('r list \<Rightarrow> 'r list) \<Rightarrow> 's \<Rightarrow> 's) \<Rightarrow> ('r \<Rightarrow> bool) \<Rightarrow> ('e, 's, unit) tx" where
  "exec_delete upd p = modify (upd (delete_where p))"

text \<open>\<open>INSERT \<dots> ON CONFLICT DO UPDATE\<close>, and the upsert of one row of a list.\<close>

definition upsert :: "('r \<Rightarrow> bool) \<Rightarrow> ('r \<Rightarrow> 'r) \<Rightarrow> 'r \<Rightarrow> 'r list \<Rightarrow> 'r list" where
  "upsert p f r rows = (if exists_where p rows then update_where p f rows else rows @ [r])"

lemma exec_update_apply [simp, tx_simps]:
  "exec_update get upd p f s = (Inr (affected p (get s)), upd (update_where p f) s)"
  by (simp add: exec_update_def)

lemma exec_one_apply [tx_simps]:
  "exec_one get upd e p f s =
     (if affected p (get s) = 1 then Inr () else Inl e, upd (update_where p f) s)"
  by (simp add: exec_one_def one_row_def and_then_def)

lemma exec_one_success_iff [tx_inv]:
  "exec_one get upd e p f s = (Inr u, s') \<longleftrightarrow>
     affected p (get s) = 1 \<and> s' = upd (update_where p f) s"
  by (auto simp: exec_one_apply)

lemma exec_insert_apply [simp, tx_simps]:
  "exec_insert upd r s = (Inr (), upd (\<lambda>rows. rows @ [r]) s)"
  by (simp add: exec_insert_def)

lemma exec_delete_apply [simp, tx_simps]:
  "exec_delete upd p s = (Inr (), upd (delete_where p) s)"
  by (simp add: exec_delete_def)

lemma affected_one_ex: "affected p rows = 1 \<Longrightarrow> \<exists>r \<in> set rows. p r"
  by (metis affected_zero zero_neq_one)

subsection \<open>Tables with a key\<close>

lemma affected_key_le_one:
  assumes "distinct (map k rows)" and "\<And>r. p r \<Longrightarrow> k r = v"
  shows "affected p rows \<le> 1"
  using assms
proof (induction rows)
  case (Cons r rows)
  show ?case
  proof (cases "p r")
    case True
    have "affected p rows = 0"
      unfolding affected_zero using Cons.prems True by (auto simp: image_iff)
    with True show ?thesis by simp
  qed (use Cons in auto)
qed simp

lemma affected_key_one:
  assumes "distinct (map k rows)" and "r \<in> set rows" and "p r" and "\<And>r. p r \<Longrightarrow> k r = v"
  shows "affected p rows = 1"
proof -
  have "affected p rows \<le> 1" by (rule affected_key_le_one [OF assms(1)]) (rule assms(4))
  moreover have "affected p rows \<noteq> 0" using assms(2,3) by (auto simp: affected_zero)
  ultimately show ?thesis by simp
qed

lemma key_unique:
  "distinct (map k rows) \<Longrightarrow> r \<in> set rows \<Longrightarrow> r' \<in> set rows \<Longrightarrow> k r = k r' \<Longrightarrow> r = r'"
  by (auto simp: distinct_map inj_on_def)

lemma distinct_update_where:
  "(\<And>r. r \<in> set rows \<Longrightarrow> p r \<Longrightarrow> k (f r) = k r) \<Longrightarrow>
     distinct (map k (update_where p f rows)) = distinct (map k rows)"
  by (simp add: map_update_where)

lemma distinct_delete_where:
  "distinct (map k rows) \<Longrightarrow> distinct (map k (delete_where p rows))"
  by (simp add: delete_where_def distinct_map_filter)

lemma select_where_key:
  assumes "distinct (map k rows)" and "r \<in> set rows" and "p r" and "\<And>r'. p r' \<Longrightarrow> k r' = k r"
  shows "select_where p rows = Some r"
proof (cases "select_where p rows")
  case None
  with assms(2,3) show ?thesis by (auto simp: select_where_None)
next
  case (Some r')
  then have "r' \<in> set rows" and "p r'" by (auto dest: select_where_Some)
  with assms have "r' = r" by (metis key_unique)
  with Some show ?thesis by simp
qed

end
