(* ===== verification/GoText.thy ===== *)
theory GoText
  imports Prelude
begin

text \<open>
  The parts of Go's \<open>strings\<close>, \<open>unicode\<close> and \<open>unicode/utf8\<close> packages the proxy
  uses. A Go string is a sequence of bytes, a HOL \<^typ>\<open>string\<close> too; ranging over it,
  counting its runes and trimming it decode UTF-8 as the Go runtime does, an invalid byte being
  one replacement rune of width one.
\<close>

type_synonym rune = nat

definition rune_error :: rune where
  "rune_error = 65533"

definition cont_byte :: "nat \<Rightarrow> bool" where
  "cont_byte b \<longleftrightarrow> 128 \<le> b \<and> b \<le> 191"

text \<open>
  The first rune of a non-empty byte sequence: its value, whether the encoding is valid, and
  how many bytes follow the first one.
\<close>

definition first_rune :: "nat \<Rightarrow> nat list \<Rightarrow> rune \<times> bool \<times> nat" where
  "first_rune b bs =
     (if b < 128 then (b, True, 0)
      else if 194 \<le> b \<and> b \<le> 223 then
        (case bs of c1 # _ \<Rightarrow>
            if cont_byte c1 then ((b - 192) * 64 + (c1 - 128), True, 1) else (rune_error, False, 0)
          | [] \<Rightarrow> (rune_error, False, 0))
      else if 224 \<le> b \<and> b \<le> 239 then
        (case bs of c1 # c2 # _ \<Rightarrow>
            if (if b = 224 then 160 \<le> c1 \<and> c1 \<le> 191
                else if b = 237 then 128 \<le> c1 \<and> c1 \<le> 159 else cont_byte c1) \<and> cont_byte c2
            then ((b - 224) * 4096 + (c1 - 128) * 64 + (c2 - 128), True, 2)
            else (rune_error, False, 0)
          | _ \<Rightarrow> (rune_error, False, 0))
      else if 240 \<le> b \<and> b \<le> 244 then
        (case bs of c1 # c2 # c3 # _ \<Rightarrow>
            if (if b = 240 then 144 \<le> c1 \<and> c1 \<le> 191
                else if b = 244 then 128 \<le> c1 \<and> c1 \<le> 143 else cont_byte c1)
               \<and> cont_byte c2 \<and> cont_byte c3
            then ((b - 240) * 262144 + (c1 - 128) * 4096 + (c2 - 128) * 64 + (c3 - 128), True, 3)
            else (rune_error, False, 0)
          | _ \<Rightarrow> (rune_error, False, 0))
      else (rune_error, False, 0))"

type_synonym segment = "rune \<times> bool \<times> string"

definition byte :: "char \<Rightarrow> nat" where
  "byte c = of_char c"

text \<open>A string as the sequence of its runes, each with the bytes it was decoded from.\<close>

fun segs :: "string \<Rightarrow> segment list" where
  "segs [] = []"
| "segs (c # cs) =
     (let (r, ok, n) = first_rune (byte c) (map byte (take 3 cs))
      in (r, ok, c # take n cs) # segs (drop n cs))"

definition seg_bytes :: "segment list \<Rightarrow> string" where
  "seg_bytes xs = concat (map (\<lambda>(_, _, bs). bs) xs)"

definition runes :: "string \<Rightarrow> rune list" where
  "runes s = map fst (segs s)"

definition rune_count :: "string \<Rightarrow> nat" where
  "rune_count s = length (segs s)"

definition valid_utf8 :: "string \<Rightarrow> bool" where
  "valid_utf8 s = list_all (\<lambda>(_, ok, _). ok) (segs s)"

definition encode_rune :: "rune \<Rightarrow> string" where
  "encode_rune r =
     (if r < 128 then [char_of r]
      else if r < 2048 then [char_of (192 + r div 64), char_of (128 + r mod 64)]
      else if r < 65536 then
        [char_of (224 + r div 4096), char_of (128 + (r div 64) mod 64), char_of (128 + r mod 64)]
      else [char_of (240 + r div 262144), char_of (128 + (r div 4096) mod 64),
            char_of (128 + (r div 64) mod 64), char_of (128 + r mod 64)])"

definition is_space_rune :: "rune \<Rightarrow> bool" where
  "is_space_rune r \<longleftrightarrow>
     (9 \<le> r \<and> r \<le> 13) \<or> r = 32 \<or> r = 133 \<or> r = 160 \<or> r = 5760 \<or> (8192 \<le> r \<and> r \<le> 8202)
     \<or> r = 8232 \<or> r = 8233 \<or> r = 8239 \<or> r = 8287 \<or> r = 12288"

definition is_control_rune :: "rune \<Rightarrow> bool" where
  "is_control_rune r \<longleftrightarrow> r \<le> 31 \<or> (127 \<le> r \<and> r \<le> 159)"

text \<open>The script table \<open>unicode.Han\<close> of Unicode 15.\<close>

definition han_ranges :: "(nat \<times> nat) list" where
  "han_ranges =
     [(11904, 11929), (11931, 12019), (12032, 12245), (12293, 12293), (12295, 12295),
      (12321, 12329), (12344, 12347), (13312, 19903), (19968, 40959), (63744, 64109),
      (64112, 64217), (94178, 94179), (94192, 94193), (131072, 173791), (173824, 177977),
      (177984, 178205), (178208, 183969), (183984, 191456), (194560, 195101),
      (196608, 201546), (201552, 205743)]"

definition is_han :: "rune \<Rightarrow> bool" where
  "is_han r = list_ex (\<lambda>(lo, hi). lo \<le> r \<and> r \<le> hi) han_ranges"

definition trim_space :: "string \<Rightarrow> string" where
  "trim_space s =
     seg_bytes (rev (dropWhile (\<lambda>(r, _, _). is_space_rune r)
       (rev (dropWhile (\<lambda>(r, _, _). is_space_rune r) (segs s)))))"

text \<open>
  \<open>strings.ToLower\<close> and \<open>strings.EqualFold\<close>, exact for comparisons with ASCII text: the only
  other runes whose lower case or case folding is ASCII are U+0130, U+017F and U+212A.
\<close>

definition lower_rune :: "rune \<Rightarrow> rune" where
  "lower_rune r =
     (if 65 \<le> r \<and> r \<le> 90 then r + 32 else if r = 304 then 105 else if r = 8490 then 107 else r)"

definition to_lower :: "string \<Rightarrow> rune list" where
  "to_lower s = map lower_rune (runes s)"

definition fold_rune :: "rune \<Rightarrow> rune" where
  "fold_rune r =
     (if 65 \<le> r \<and> r \<le> 90 then r + 32 else if r = 383 then 115 else if r = 8490 then 107 else r)"

definition equal_fold :: "string \<Rightarrow> string \<Rightarrow> bool" where
  "equal_fold s t \<longleftrightarrow> map fold_rune (runes s) = map fold_rune (runes t)"

fun has_prefix :: "string \<Rightarrow> string \<Rightarrow> bool" where
  "has_prefix s [] = True"
| "has_prefix [] (p # ps) = False"
| "has_prefix (c # s) (p # ps) = (c = p \<and> has_prefix s ps)"

definition trim_prefix :: "string \<Rightarrow> string \<Rightarrow> string" where
  "trim_prefix s p = (if has_prefix s p then drop (length p) s else s)"

definition has_suffix :: "string \<Rightarrow> string \<Rightarrow> bool" where
  "has_suffix s p = has_prefix (rev s) (rev p)"

definition trim_suffix :: "string \<Rightarrow> string \<Rightarrow> string" where
  "trim_suffix s p = (if has_suffix s p then take (length s - length p) s else s)"

text \<open>\<open>strings.Cut\<close> at a one-byte separator: before, after, found.\<close>

fun cut :: "string \<Rightarrow> char \<Rightarrow> string \<times> string \<times> bool" where
  "cut [] sep = ([], [], False)"
| "cut (c # cs) sep =
     (if c = sep then ([], cs, True)
      else (let (before, after, found) = cut cs sep in (c # before, after, found)))"

definition contains_char :: "string \<Rightarrow> char \<Rightarrow> bool" where
  "contains_char s c \<longleftrightarrow> c \<in> set s"

text \<open>\<open>strings.LastIndexByte\<close>, None for -1.\<close>

fun last_index_byte :: "string \<Rightarrow> char \<Rightarrow> nat option" where
  "last_index_byte [] c = None"
| "last_index_byte (x # xs) c =
     (case last_index_byte xs c of
        Some i \<Rightarrow> Some (Suc i)
      | None \<Rightarrow> if x = c then Some 0 else None)"

text \<open>A JSON string literal as \<open>encoding/json\<close> writes it (with its HTML escaping).\<close>

definition hex_digit :: "nat \<Rightarrow> char" where
  "hex_digit n = (if n < 10 then char_of (48 + n) else char_of (87 + n))"

fun json_segment :: "segment \<Rightarrow> string" where
  "json_segment (r, ok, bs) =
     (if \<not> ok then CHR 0x5C # ''ufffd''
      else if r = 34 \<or> r = 92 then [CHR 0x5C, char_of r]
      else if r = 8 then [CHR 0x5C, CHR ''b''] else if r = 12 then [CHR 0x5C, CHR ''f'']
      else if r = 10 then [CHR 0x5C, CHR ''n''] else if r = 13 then [CHR 0x5C, CHR ''r'']
      else if r = 9 then [CHR 0x5C, CHR ''t'']
      else if r < 32 \<or> r = 60 \<or> r = 62 \<or> r = 38 then
        CHR 0x5C # ''u00'' @ [hex_digit (r div 16), hex_digit (r mod 16)]
      else if r = 8232 \<or> r = 8233 then CHR 0x5C # ''u202'' @ [hex_digit (r - 8224)]
      else bs)"

definition json_string :: "string \<Rightarrow> string" where
  "json_string s = CHR 0x22 # concat (map json_segment (segs s)) @ [CHR 0x22]"

text \<open>
  The fields of \<open>url.URL\<close> the code reads. \<open>url.Parse\<close> itself is an argument of the
  definitions that call it (None for an error), as its grammar is that of the Go release.
\<close>

record ParsedURL =
  u_scheme :: string
  u_host :: string
  u_has_user :: bool
  u_fragment :: string
  u_opaque :: string
  u_path :: string
  u_raw_path :: string
  u_raw_query :: string

type_synonym url_parser = "string \<Rightarrow> ParsedURL option"

text \<open>
  \<open>base64.StdEncoding.Strict().DecodeString\<close>: line breaks are skipped, the rest is groups of
  four symbols, the last one padded, with zero trailing bits.
\<close>

definition b64_value :: "char \<Rightarrow> nat option" where
  "b64_value c =
     (let b = byte c in
      if 65 \<le> b \<and> b \<le> 90 then Some (b - 65)
      else if 97 \<le> b \<and> b \<le> 122 then Some (b - 71)
      else if 48 \<le> b \<and> b \<le> 57 then Some (b + 4)
      else if b = 43 then Some 62 else if b = 47 then Some 63 else None)"

fun b64_groups :: "string \<Rightarrow> nat list option" where
  "b64_groups [] = Some []"
| "b64_groups (a # b # c # d # rest) =
     (case (b64_value a, b64_value b, b64_value c, b64_value d) of
        (Some w, Some x, Some y, Some z) \<Rightarrow>
          (case b64_groups rest of None \<Rightarrow> None
           | Some bs \<Rightarrow> Some ([w * 4 + x div 16, (x mod 16) * 16 + y div 4, (y mod 4) * 64 + z] @ bs))
      | (Some w, Some x, Some y, None) \<Rightarrow>
          if d = CHR ''='' \<and> rest = [] \<and> y mod 4 = 0
          then Some [w * 4 + x div 16, (x mod 16) * 16 + y div 4] else None
      | (Some w, Some x, None, None) \<Rightarrow>
          if c = CHR ''='' \<and> d = CHR ''='' \<and> rest = [] \<and> x mod 16 = 0
          then Some [w * 4 + x div 16] else None
      | _ \<Rightarrow> None)"
| "b64_groups _ = None"

definition b64_decode_strict :: "string \<Rightarrow> nat list option" where
  "b64_decode_strict s = b64_groups (filter (\<lambda>c. byte c \<noteq> 10 \<and> byte c \<noteq> 13) s)"

definition b64_encoded_len :: "nat \<Rightarrow> nat" where
  "b64_encoded_len n = (n + 2) div 3 * 4"

section \<open>Lemmas\<close>

lemma first_rune_width: "first_rune b bs = (r, ok, n) \<Longrightarrow> n \<le> 3"
  by (auto simp: first_rune_def split: if_splits list.splits)

lemma seg_bytes_segs [simp]: "seg_bytes (segs s) = s"
  by (induction s rule: segs.induct) (auto simp: seg_bytes_def split: prod.splits)

lemma seg_bytes_append [simp]: "seg_bytes (xs @ ys) = seg_bytes xs @ seg_bytes ys"
  by (simp add: seg_bytes_def)

lemma has_prefix_append: "has_prefix s p \<longleftrightarrow> (\<exists>t. s = p @ t)"
  by (induction s p rule: has_prefix.induct) auto

lemma trim_prefix_append [simp]: "trim_prefix (p @ t) p = t"
  by (simp add: trim_prefix_def has_prefix_append)

lemma cut_found: "cut s sep = (x, y, True) \<Longrightarrow> s = x @ sep # y \<and> sep \<notin> set x"
  by (induction s arbitrary: x) (auto split: if_splits prod.splits)

lemma cut_not_found: "cut s sep = (x, y, False) \<Longrightarrow> x = s \<and> y = [] \<and> sep \<notin> set s"
  by (induction s arbitrary: x) (auto split: if_splits prod.splits)

lemma cut_append: "sep \<notin> set x \<Longrightarrow> cut (x @ sep # y) sep = (x, y, True)"
  by (induction x) auto

lemma b64_groups_length:
  "b64_groups s = Some bs \<Longrightarrow> length s = b64_encoded_len (length bs)"
  by (induction s arbitrary: bs rule: b64_groups.induct)
    (auto simp: b64_encoded_len_def split: option.splits if_splits, presburger)

lemma last_index_byte_None: "last_index_byte s c = None \<longleftrightarrow> c \<notin> set s"
  by (induction s) (auto split: option.splits)

lemma last_index_byte_Some:
  "last_index_byte s c = Some i \<Longrightarrow>
     i < length s \<and> s ! i = c \<and> c \<notin> set (drop (Suc i) s)"
proof (induction s arbitrary: i)
  case (Cons x xs)
  then show ?case
    by (auto split: option.splits if_splits simp: last_index_byte_None)
qed simp

text \<open>\<open>fmt.Sprintf("%d", n)\<close>, and the digits \<open>hex.DecodeString\<close> accepts.\<close>

fun decimal_digits :: "nat \<Rightarrow> string" where
  "decimal_digits n = (if n < 10 then [char_of (48 + n)] else decimal_digits (n div 10) @ [char_of (48 + n mod 10)])"

declare decimal_digits.simps [simp del]

definition format_int :: "int \<Rightarrow> string" where
  "format_int v = (if v < 0 then CHR ''-'' # decimal_digits (nat (- v)) else decimal_digits (nat v))"

definition is_hex :: "char \<Rightarrow> bool" where
  "is_hex c \<longleftrightarrow> (let b = byte c in 48 \<le> b \<and> b \<le> 57 \<or> 65 \<le> b \<and> b \<le> 70 \<or> 97 \<le> b \<and> b \<le> 102)"

definition lower_hex :: "string \<Rightarrow> string" where
  "lower_hex s = map (\<lambda>c. if 65 \<le> byte c \<and> byte c \<le> 70 then char_of (byte c + 32) else c) s"

text \<open>The value an int64 keeps of a sum or product.\<close>

definition wrap64 :: "int \<Rightarrow> int" where
  "wrap64 x = (x + 2 ^ 63) mod 2 ^ 64 - 2 ^ 63"

text \<open>Evaluation of the text functions on concrete strings.\<close>

lemmas text_eval = first_rune_def byte_def rune_count_def runes_def valid_utf8_def seg_bytes_def
  trim_space_def is_space_rune_def is_control_rune_def contains_char_def trim_prefix_def
  has_suffix_def trim_suffix_def

end
