(* ===== verification/Domain.thy ===== *)
theory Domain
  imports GoText
begin

text \<open>
  The package \<^verbatim>\<open>internal/domain\<close>: task states and their public view, errors, requests,
  model capabilities and what a capability accepts, route snapshots, remote runs, upstream
  error codes and logical resolution names. Go's typed string constants become datatypes with
  one constructor per constant; protocol identifiers stay strings, as the code compares them
  with values read from the database.
\<close>

section \<open>Errors\<close>

text \<open>
  The sentinel errors the packages return. \<open>ErrSQL\<close> stands for an error SQLite raises by
  itself (a violated constraint or an aborting trigger), \<open>ErrText\<close> for an error built by
  \<open>fmt.Errorf\<close>, tagged with where it comes from.
\<close>

datatype err =
    ErrTaskNotFound | ErrTaskNotOperable | ErrIdempotencyConflict | ErrPerKeyLimit | ErrGlobalLimit
  | ErrUpstreamBusy | ErrQueueEmpty | ErrStateConflict | ErrResourceUnavailable
  | ErrCancelReconcilePending | ErrOfficialRunningNotCancellable
  | ErrNodeNotFound | ErrNodeIDConflict | ErrNodeVersionConflict | ErrNodeHasActiveTask | ErrNodeMustBeDisabled
  | ErrNodeConfigStale | ErrNodeDisabled
  | ErrUnsupportedModel | ErrRouteAmbiguous | ErrRouteUnavailable | ErrRouteChanged
  | ErrCatalogConflict | ErrModelInput
  | ErrRemotePending | ErrRemoteReconciliation | ErrRemoteNotCancellable | ErrResultRefreshUnavailable
  | ErrResultUploadNotFound | ErrResultUploadNotRetryable
  | ErrObjectStorageNotFound | ErrObjectStorageVersionConflict | ErrArtifactNotFound
  | ErrCleanupPreviewStale | ErrCleanupNotFound | ErrCleanupNotRetryable
  | ErrProfileNotFound | ErrProfileVersionConflict | ErrProfileKeyConflict
  | ErrAPIKeyNotFound | ErrAPIKeyNameConflict | ErrAPIKeyDigestConflict | ErrAPIKeyVersionConflict | ErrAPIKeyInUse | ErrCacheRefresh
  | ErrNoClaimableStage | ErrNodeDispatchBarrierNotFound | ErrNodeDispatchBarrierConflict
  | ErrNoCallbackDelivery | ErrDeletionNotFound | ErrNoClaimableDeletion
  | ErrInvalidProfileConfig | ErrInvalidResponse
  | ErrSQL string | ErrText string

section \<open>Task states\<close>

datatype InternalStatus =
    StatusQueuedOpen | StatusQueuedLocked | StatusDispatching | StatusRunning
  | StatusReconciling | StatusCancelling | StatusSucceeded | StatusFailed | StatusCancelled

datatype V2Status = V2Queued | V2Running | V2Succeeded | V2Failed | V2Cancelled

fun V2 :: "InternalStatus \<Rightarrow> V2Status" where
  "V2 StatusQueuedOpen = V2Queued"
| "V2 StatusQueuedLocked = V2Queued"
| "V2 StatusDispatching = V2Running"
| "V2 StatusRunning = V2Running"
| "V2 StatusReconciling = V2Running"
| "V2 StatusCancelling = V2Running"
| "V2 StatusSucceeded = V2Succeeded"
| "V2 StatusFailed = V2Failed"
| "V2 _ = V2Cancelled"

definition CanCancel :: "InternalStatus \<Rightarrow> bool" where
  "CanCancel s \<longleftrightarrow> s = StatusQueuedOpen"

definition AdminCanCancel :: "InternalStatus \<Rightarrow> bool" where
  "AdminCanCancel s \<longleftrightarrow>
     s \<in> {StatusQueuedOpen, StatusQueuedLocked, StatusDispatching, StatusRunning, StatusReconciling}"

definition AdminCanDelete :: "InternalStatus \<Rightarrow> bool" where
  "AdminCanDelete s \<longleftrightarrow> s = StatusSucceeded \<or> s = StatusFailed \<or> s = StatusCancelled"

definition AllInternalStatuses :: "InternalStatus list" where
  "AllInternalStatuses =
     [StatusQueuedOpen, StatusQueuedLocked, StatusDispatching, StatusRunning, StatusReconciling,
      StatusCancelling, StatusSucceeded, StatusFailed, StatusCancelled]"

datatype Action = ActionCancelled | ActionDeleted

text \<open>
  The status sets the SQL statements list in their IN clauses: queued, active (dispatched and
  not terminal) and unfinished.
\<close>

abbreviation queued :: "InternalStatus \<Rightarrow> bool" where
  "queued s \<equiv> s = StatusQueuedOpen \<or> s = StatusQueuedLocked"

definition active :: "InternalStatus \<Rightarrow> bool" where
  "active s \<longleftrightarrow> s \<in> {StatusDispatching, StatusRunning, StatusReconciling, StatusCancelling}"

definition unfinished :: "InternalStatus \<Rightarrow> bool" where
  "unfinished s \<longleftrightarrow>
     s \<in> {StatusQueuedOpen, StatusQueuedLocked, StatusDispatching, StatusRunning, StatusReconciling,
          StatusCancelling}"

datatype RouteState = RouteReady | RouteAwaiting | RouteMigrationBlocked | RouteLegacyUnknown

datatype RemotePhase = RemotePreparing | RemotePrepared | RemoteSubmitIntent | RemoteSubmitted | RemoteTerminal

datatype CancelState = CancelNone | CancelRequested | CancelConfirmed | CancelRejected

datatype UpStatus = UpQueued | UpRunning | UpSucceeded | UpFailed | UpCancelled

datatype UploadStatus = UploadPending | UploadUploading | UploadRetryWait | UploadSucceeded | UploadFailed

definition ProtocolH3 :: string where "ProtocolH3 = ''h3-node-v1''"

definition ProtocolOfficial :: string where "ProtocolOfficial = ''minimax-v2''"

definition ProtocolTK2SD :: string where "ProtocolTK2SD = ''tk2sd-v1''"

definition ProtocolLegacy :: string where "ProtocolLegacy = ''legacy-gradio-v1''"

lemmas protocol_defs = ProtocolH3_def ProtocolOfficial_def ProtocolTK2SD_def ProtocolLegacy_def

section \<open>Requests and normalised requests\<close>

record GenerationContent =
  gc_type :: string
  gc_text :: string
  gc_image_url :: "string option"
  gc_video_url :: "string option"
  gc_audio_url :: "string option"
  gc_role :: string

definition Media :: "GenerationContent \<Rightarrow> string option" where
  "Media c =
     (if gc_type c = ''image_url'' then gc_image_url c
      else if gc_type c = ''video_url'' then gc_video_url c
      else if gc_type c = ''audio_url'' then gc_audio_url c
      else None)"

record GenerationRequest =
  gr_model :: string
  gr_content :: "GenerationContent list"
  gr_resolution :: string
  gr_duration :: int
  gr_ratio :: string
  gr_callback_url :: "string option"
  gr_aigc_watermark :: "bool option"
  gr_duration_present :: bool

record TaskRequirements =
  rq_scenario :: string
  rq_duration :: int
  rq_resolution :: string
  rq_roles :: "string list"
  rq_input_sources :: "string list"
  rq_media_count :: int

record NormalizedRequest =
  nr_request :: GenerationRequest
  nr_scenario :: string
  nr_prompt :: string
  nr_normalizer_version :: string
  nr_input_image_count :: int
  nr_requirements :: TaskRequirements

section \<open>Model capabilities\<close>

definition ValidModelID :: "string \<Rightarrow> bool" where
  "ValidModelID i \<longleftrightarrow>
     valid_utf8 i \<and> rune_count i \<ge> 1 \<and> rune_count i \<le> 128 \<and> \<not> contains_char i (CHR ''*'')
     \<and> list_all (\<lambda>r. \<not> (is_control_rune r \<or> is_space_rune r)) (runes i)"

record ModeCapability =
  mo_scenario :: string
  mo_durations :: "int list"
  mo_roles :: "string list"

record ModelCapability =
  ca_schema_version :: int
  ca_modes :: "ModeCapability list"
  ca_input_sources :: "string list"
  ca_resolution_policy :: string
  ca_resolutions :: "string list"
  ca_max_media :: int

definition Supports :: "ModelCapability \<Rightarrow> string \<Rightarrow> int \<Rightarrow> bool" where
  "Supports c scenario duration =
     list_ex (\<lambda>m. mo_scenario m = scenario \<and> duration \<in> set (mo_durations m)) (ca_modes c)"

definition HasMode :: "ModelCapability \<Rightarrow> string \<Rightarrow> bool" where
  "HasMode c scenario = list_ex (\<lambda>m. mo_scenario m = scenario) (ca_modes c)"

text \<open>The final loop of \<open>Accepts\<close>: the first mode with the scenario and duration decides.\<close>

fun mode_accepts :: "TaskRequirements \<Rightarrow> ModeCapability list \<Rightarrow> bool" where
  "mode_accepts r [] = False"
| "mode_accepts r (m # ms) =
     (if mo_scenario m \<noteq> rq_scenario r \<or> rq_duration r \<notin> set (mo_durations m)
      then mode_accepts r ms
      else list_all (\<lambda>role. mo_roles m = [] \<or> role \<in> set (mo_roles m)) (rq_roles r))"

definition Accepts :: "ModelCapability \<Rightarrow> TaskRequirements \<Rightarrow> bool" where
  "Accepts c r =
     (if \<not> Supports c (rq_scenario r) (rq_duration r)
         \<or> (ca_max_media c > 0 \<and> rq_media_count r > ca_max_media c) then False
      else if ca_resolutions c \<noteq> [] \<and> rq_resolution r \<notin> set (ca_resolutions c) then False
      else if \<not> list_all (\<lambda>s. ca_input_sources c = [] \<or> s \<in> set (ca_input_sources c))
                 (rq_input_sources r) then False
      else mode_accepts r (ca_modes c))"

record NodeModel =
  md_model_id :: string
  md_enabled :: bool
  md_present :: bool
  md_verified :: bool
  md_capabilities :: ModelCapability

record ModelCatalog =
  cg_node_id :: string
  cg_source :: string
  cg_revision :: int
  cg_status :: string
  cg_fingerprint :: string
  cg_last_attempt_at :: int
  cg_last_success_at :: int
  cg_valid_until :: int
  cg_last_error_code :: string
  cg_items :: "NodeModel list"

record RouteCandidate =
  rc_protocol_version :: string
  rc_node_ids :: "string list"

record ModelRoute =
  ro_model :: string
  ro_protocol_version :: string
  ro_selection_mode :: string
  ro_version :: int
  ro_state :: string
  ro_wait_reason :: string
  ro_candidates :: "RouteCandidate list"
  ro_legacy_awaiting_tasks :: int

record RouteSnapshot =
  sn_schema_version :: int
  sn_model :: string
  sn_protocol_version :: string
  sn_route_version :: int
  sn_routing_revision :: int
  sn_selection_mode :: string
  sn_parameter_plan :: string
  sn_normalizer_version :: string
  sn_requirements :: TaskRequirements

lemma Accepts_supports: "Accepts c r \<Longrightarrow> Supports c (rq_scenario r) (rq_duration r)"
  by (simp add: Accepts_def split: if_splits)

lemma mode_accepts_iff:
  "mode_accepts r ms \<longleftrightarrow>
     (case find (\<lambda>m. mo_scenario m = rq_scenario r \<and> rq_duration r \<in> set (mo_durations m)) ms of
        None \<Rightarrow> False
      | Some m \<Rightarrow> mo_roles m = [] \<or> set (rq_roles r) \<subseteq> set (mo_roles m))"
  by (induction ms) (auto simp: list_all_iff)

section \<open>Upstream errors\<close>

record UpstreamFeedback =
  uf_http_status :: int
  uf_code :: string
  uf_type :: string
  uf_message :: string
  uf_resource_type :: string
  uf_request_id :: string

text \<open>The codes of the table \<open>officialErrorMessages\<close>; a message is named by its code.\<close>

definition official_codes :: "string list" where
  "official_codes =
     [''1000'', ''1001'', ''1002'', ''1004'', ''1008'', ''1024'', ''1026'', ''1027'', ''1033'',
      ''1039'', ''1041'', ''1042'', ''1043'', ''1044'', ''2013'', ''20132'', ''2037'', ''2039'',
      ''2042'', ''2045'', ''2048'', ''2049'', ''2056'']"

datatype message = TableMessage string | MediaDownloadMessage | FallbackMessage string

definition is_digit_char :: "char \<Rightarrow> bool" where
  "is_digit_char c \<longleftrightarrow> 48 \<le> byte c \<and> byte c \<le> 57"

definition OfficialErrorCode :: "UpstreamFeedback option \<Rightarrow> string" where
  "OfficialErrorCode feedback =
     (case feedback of None \<Rightarrow> []
      | Some fb \<Rightarrow>
         (let code = trim_space (uf_code fb) in
          if code \<noteq> [] then code
          else
            (let message = trim_space (uf_message fb) in
             if length message < 3 \<or> last message \<noteq> CHR '')'' then []
             else
               (case last_index_byte message (CHR ''('') of
                  None \<Rightarrow> []
                | Some opening \<Rightarrow>
                    if opening = length message - 2 then []
                    else
                      (let candidate = drop (opening + 1) (take (length message - 1) message) in
                       if \<not> list_all is_digit_char candidate then []
                       else if candidate \<notin> set official_codes then []
                       else candidate)))))"

definition media_download_error_message :: string where
  "media_download_error_message = ''cannot download media URL (2013)''"

definition LocalizeOfficialError ::
  "string \<Rightarrow> string \<Rightarrow> UpstreamFeedback option \<Rightarrow> string \<times> message" where
  "LocalizeOfficialError fallbackCode fallbackMessage feedback =
     (let code = OfficialErrorCode feedback in
      if code \<notin> set official_codes then (fallbackCode, FallbackMessage fallbackMessage)
      else if code = ''2013'' \<and>
              (case feedback of None \<Rightarrow> False
               | Some fb \<Rightarrow> equal_fold (trim_space (uf_message fb)) media_download_error_message)
      then (code, MediaDownloadMessage)
      else (code, TableMessage code))"

section \<open>Logical resolution names\<close>

fun resolution_key :: "rune list \<Rightarrow> string option" where
  "resolution_key [] = Some []"
| "resolution_key (r # rs) =
     (let piece =
        (if 65 \<le> r \<and> r \<le> 90 then Some (encode_rune (r + 32))
         else if (97 \<le> r \<and> r \<le> 122) \<or> (48 \<le> r \<and> r \<le> 57) \<or> r = 32 \<or> r = 45 \<or> r = 95 \<or> is_han r
         then Some (encode_rune r) else None)
      in case piece of None \<Rightarrow> None
         | Some p \<Rightarrow> (case resolution_key rs of None \<Rightarrow> None | Some q \<Rightarrow> Some (p @ q)))"

definition NormalizeResolutionName :: "string \<Rightarrow> err + string \<times> string" where
  "NormalizeResolutionName v =
     (let display = trim_space v; count = rune_count display in
      if count < 1 \<or> count > 32 then Inl ErrInvalidProfileConfig
      else (case resolution_key (runes display) of
              None \<Rightarrow> Inl ErrInvalidProfileConfig
            | Some key \<Rightarrow> Inr (display, key)))"

section \<open>Remote runs\<close>

record TK2SDAdmission =
  ad_capacity :: int
  ad_occupied :: int
  ad_cooling :: int
  ad_queued :: int
  ad_can_dispatch :: bool
  ad_leased_task_ids :: "string list"

record ResultUploadJobRef =
  uj_id :: string
  uj_task_id :: string
  uj_object_key :: string

record RemoteCompletion =
  co_status :: UpStatus
  co_result_url :: string
  co_result_expires_at :: int
  co_metadata_json :: string
  co_metadata_status :: string
  co_ratio :: string
  co_error_code :: string
  co_error_message :: string
  co_feedback :: "UpstreamFeedback option"
  co_upload_job :: "ResultUploadJobRef option"

record RemoteResultUpdate =
  up_url :: string
  up_expires_at :: int
  up_metadata_json :: string
  up_metadata_status :: string

section \<open>Facts about the status sets\<close>

lemma active_simps [simp]:
  "active StatusDispatching" "active StatusRunning" "active StatusReconciling" "active StatusCancelling"
  "\<not> active StatusQueuedOpen" "\<not> active StatusQueuedLocked" "\<not> active StatusSucceeded"
  "\<not> active StatusFailed" "\<not> active StatusCancelled"
  by (simp_all add: active_def)

lemma unfinished_simps [simp]:
  "unfinished StatusDispatching" "unfinished StatusRunning" "unfinished StatusReconciling"
  "unfinished StatusCancelling" "unfinished StatusQueuedOpen" "unfinished StatusQueuedLocked"
  "\<not> unfinished StatusSucceeded" "\<not> unfinished StatusFailed" "\<not> unfinished StatusCancelled"
  by (simp_all add: unfinished_def)

lemma AdminCanDelete_simps [simp]:
  "AdminCanDelete StatusSucceeded" "AdminCanDelete StatusFailed" "AdminCanDelete StatusCancelled"
  "\<not> AdminCanDelete StatusQueuedOpen" "\<not> AdminCanDelete StatusQueuedLocked"
  "\<not> AdminCanDelete StatusDispatching" "\<not> AdminCanDelete StatusRunning"
  "\<not> AdminCanDelete StatusReconciling" "\<not> AdminCanDelete StatusCancelling"
  by (simp_all add: AdminCanDelete_def)

lemma unfinished_iff: "unfinished s \<longleftrightarrow> queued s \<or> active s"
  by (cases s) auto

lemma unfinished_not_deletable: "unfinished s \<longleftrightarrow> \<not> AdminCanDelete s"
  by (cases s) auto

lemma AllInternalStatuses_complete: "s \<in> set AllInternalStatuses"
  by (cases s) (simp_all add: AllInternalStatuses_def)

end
