(* ===== verification/Schema.thy ===== *)
theory Schema
  imports Domain "HOL-Library.Char_ord" "HOL-Library.List_Lexorder"
begin

text \<open>
  The SQLite schema (\<^verbatim>\<open>migrations/*.sql\<close>) as one record per row type and one record
  for the database, the tables being lists of rows in insertion order. A nullable column is an
  \<^typ>\<open>'a option\<close>, an INTEGER flag a \<^typ>\<open>bool\<close>, a status column a datatype. A JSON
  text column holds the value it decodes to, \<^term>\<open>None\<close> where decoding into the Go
  type fails (\<open>request_json\<close>, \<open>routing_snapshot_json\<close>, \<open>capabilities_json\<close>, \<open>upstream_jobs_before_json\<close>).
  \<open>StoreEnv\<close> is the receiver \<open>s *Store\<close>: its options, its clock (the reading of one
  call, in milliseconds), and the libraries its code calls, \<open>uuid\<close> (the successive values one
  call draws), SHA-256 and \<open>url.Parse\<close>.
\<close>

text \<open>A JSON text argument that is then decoded: empty, malformed, or the value it decodes to.\<close>

datatype 'a json_text = NoText | Malformed | Decoded 'a

section \<open>Rows\<close>

record DispatchSnapshot =
  ds_node_id :: string
  ds_node_version :: int
  ds_protocol_version :: string
  ds_service_url :: string
  ds_upstream_model :: string

record video_task =
  vt_queue_seq :: int
  vt_task_id :: string
  vt_api_key_id :: string
  vt_model :: string
  vt_scenario :: string
  vt_request :: "GenerationRequest option"
  vt_request_hash :: string
  vt_status :: InternalStatus
  vt_cancel_locked :: bool
  vt_upstream_id :: "string option"
  vt_gradio_event_id :: "string option"
  vt_upstream_job_id :: "string option"
  vt_upstream_slot_active :: bool
  vt_upstream_node_version :: int
  vt_delivery_required :: bool
  vt_upstream_jobs_before :: "string list option"
  vt_official_submission_baseline_saved :: bool
  vt_retry_count :: int
  vt_attempt_started_at :: "int option"
  vt_cancel_requested_at :: "int option"
  vt_gallery_before :: "string list option"
  vt_result_internal_url :: "string option"
  vt_result_public_url :: "string option"
  vt_resolution :: string
  vt_duration :: int
  vt_ratio_requested :: string
  vt_ratio_actual :: "string option"
  vt_usage_total_seconds :: int
  vt_usage_output_seconds :: int
  vt_usage_input_image_count :: int
  vt_error_code :: "string option"
  vt_error_message :: "string option"
  vt_upstream_feedback :: "UpstreamFeedback option"
  vt_created_at :: int
  vt_updated_at :: int
  vt_started_at :: "int option"
  vt_finished_at :: "int option"
  vt_expires_at :: int
  vt_deleted_at :: "int option"
  vt_deletion_state :: string
  vt_version :: int
  vt_callback_url_ciphertext :: "string option"
  vt_callback_url_nonce :: "string option"
  vt_profile_id :: "string option"
  vt_profile_version :: "int option"
  vt_config_snapshot_json :: "string option"
  vt_config_hash :: "string option"
  vt_active_stage_id :: "string option"
  vt_result_artifact_id :: "string option"
  vt_protocol_version :: "string option"
  vt_route_state :: RouteState
  vt_routing_snapshot :: "RouteSnapshot option"
  vt_dispatch_snapshot :: "DispatchSnapshot option"
  vt_request_normalizer :: string
  vt_routing_wait_reason :: string
  vt_latest_result_url :: "string option"
  vt_latest_result_expires_at :: "int option"
  vt_result_metadata_json :: "string option"
  vt_metadata_status :: string

record idempotency_key =
  ik_api_key_id :: string
  ik_key_hash :: string
  ik_request_hash :: string
  ik_task_id :: string
  ik_created_at :: int
  ik_expires_at :: int

record remote_run =
  rr_task_id :: string
  rr_node_id :: string
  rr_phase :: RemotePhase
  rr_submission_key :: string
  rr_request_body :: "string option"
  rr_request_body_hash :: "string option"
  rr_upstream_task_id :: "string option"
  rr_upstream_status :: "UpStatus option"
  rr_cancel_state :: CancelState
  rr_reconciliation_required :: bool
  rr_submit_attempts :: int
  rr_lease_token :: "string option"
  rr_lease_expires_at :: "int option"
  rr_next_poll_at :: "int option"
  rr_last_error_code :: string
  rr_created_at :: int
  rr_updated_at :: int

record node_asset =
  na_task_id :: string
  na_node_id :: string
  na_content_index :: int
  na_asset_id :: string
  na_content_type :: string
  na_role :: string
  na_source_sha256 :: string
  na_size_bytes :: int
  na_metadata_json :: string
  na_created_at :: int
  na_updated_at :: int

datatype StageStatus =
    StagePending | StageLeased | StageDispatching | StageRunning | StageValidating | StageUnknown
  | StageSucceeded | StageFailed | StageCancelled | StageSkipped

datatype AttemptStatus =
    AttemptDispatching | AttemptRunning | AttemptValidating | AttemptSucceeded | AttemptFailed
  | AttemptUnknown

record task_stage =
  ts_id :: string
  ts_task_id :: string
  ts_stage_order :: int
  ts_stage_type :: string
  ts_required :: bool
  ts_status :: StageStatus
  ts_attempt_count :: int
  ts_max_attempts :: int
  ts_preferred_node_id :: "string option"
  ts_current_node_id :: "string option"
  ts_input_artifact_id :: "string option"
  ts_output_artifact_id :: "string option"
  ts_config_snapshot_json :: string
  ts_lease_token :: "string option"
  ts_lease_expires_at :: "int option"
  ts_next_attempt_at :: "int option"
  ts_error_code :: "string option"
  ts_error_message :: "string option"
  ts_created_at :: int
  ts_updated_at :: int
  ts_started_at :: "int option"
  ts_finished_at :: "int option"
  ts_row_version :: int

record stage_attempt =
  sa_id :: string
  sa_stage_id :: string
  sa_attempt_no :: int
  sa_operation_id :: string
  sa_node_id :: string
  sa_execution_id :: "string option"
  sa_status :: AttemptStatus
  sa_input_artifact_id :: "string option"
  sa_output_artifact_id :: "string option"
  sa_media_before_json :: "string option"
  sa_media_after_json :: "string option"
  sa_request_snapshot_json :: "string option"
  sa_error_code :: "string option"
  sa_error_message :: "string option"
  sa_started_at :: int
  sa_heartbeat_at :: "int option"
  sa_finished_at :: "int option"

record dispatch_barrier =
  nb_node_id :: string
  nb_task_id :: string
  nb_stage_id :: string
  nb_attempt_id :: string
  nb_operation_id :: string
  nb_execution_id :: "string option"
  nb_cancel_operation_id :: string
  nb_last_error_code :: "string option"
  nb_retry_count :: int
  nb_next_retry_at :: int
  nb_created_at :: int
  nb_updated_at :: int
  nb_row_version :: int

datatype CallbackStatus = CallbackPending | CallbackSending | CallbackRetryWait | CallbackSucceeded | CallbackFailed

record callback_delivery =
  cd_id :: string
  cd_task_id :: string
  cd_external_status :: string
  cd_state_version :: int
  cd_status :: CallbackStatus
  cd_attempt_count :: int
  cd_next_attempt_at :: "int option"
  cd_request_body_hash :: string
  cd_request_body :: string
  cd_http_status :: "int option"
  cd_last_error :: "string option"
  cd_lease_expires_at :: "int option"
  cd_created_at :: int
  cd_updated_at :: int
  cd_delivered_at :: "int option"

record upload_job =
  ru_id :: string
  ru_task_id :: string
  ru_object_key :: string
  ru_status :: UploadStatus
  ru_round_no :: int
  ru_attempt_no :: int
  ru_max_attempts :: int
  ru_next_attempt_at :: "int option"
  ru_lease_token :: "string option"
  ru_lease_expires_at :: "int option"
  ru_public_url :: string
  ru_last_error_code :: string
  ru_last_error_message :: string
  ru_bytes_uploaded :: int
  ru_started_at :: "int option"
  ru_finished_at :: "int option"
  ru_created_at :: int
  ru_updated_at :: int
  ru_version :: int

record input_spool_file =
  sp_id :: string
  sp_task_id :: string
  sp_content_index :: int
  sp_content_type :: string
  sp_role :: string
  sp_source_kind :: string
  sp_declared_mime :: "string option"
  sp_detected_mime :: "string option"
  sp_media_type :: string
  sp_extension :: string
  sp_relative_path :: string
  sp_object_url :: "string option"
  sp_size_bytes :: int
  sp_sha256 :: string

record model_node =
  mn_id :: string
  mn_service_url :: string
  mn_protocol_version :: string
  mn_api_key_ciphertext :: "string option"
  mn_api_key_nonce :: "string option"
  mn_api_key_fingerprint :: "string option"
  mn_api_key_id :: "string option"
  mn_base_url :: string
  mn_jobs_base_url :: string
  mn_public_base_url :: string
  mn_health_path :: string
  mn_submit_api_name :: string
  mn_check_api_name :: string
  mn_poll_interval_ms :: int
  mn_request_timeout_ms :: int
  mn_enabled :: bool
  mn_upstream_model :: string
  mn_max_concurrency :: int
  mn_replace_result_url :: bool
  mn_legacy_model_compat :: bool
  mn_version :: int
  mn_created_at :: int
  mn_updated_at :: int
  mn_deleted_at :: "int option"

record node_catalog =
  mc_node_id :: string
  mc_source :: string
  mc_revision :: int
  mc_connection_fingerprint :: string
  mc_last_status :: string
  mc_last_attempt_at :: "int option"
  mc_last_success_at :: "int option"
  mc_valid_until :: "int option"
  mc_last_error_code :: string

record node_model =
  nm_node_id :: string
  nm_model_id :: string
  nm_enabled :: bool
  nm_present :: bool
  nm_capabilities :: "ModelCapability option"
  nm_verified :: bool

record model_route =
  mr_model_id :: string
  mr_protocol_version :: "string option"
  mr_selection_mode :: string
  mr_version :: int
  mr_updated_by :: string

datatype ArtifactState =
    AsImporting | AsActive | AsDeletePending | AsDeleting | AsDeleted | AsDeleteFailed | AsMissing

record task_artifact =
  ar_id :: string
  ar_task_id :: string
  ar_stage_id :: "string option"
  ar_kind :: string
  ar_size_bytes :: int
  ar_sha256 :: "string option"
  ar_media_json :: "string option"
  ar_state :: ArtifactState
  ar_created_at :: int
  ar_expires_at :: int
  ar_deleted_at :: "int option"

record artifact_location =
  al_id :: string
  al_artifact_id :: string
  al_node_id :: string
  al_node_artifact_id :: string
  al_storage_key_fingerprint :: "string option"
  al_state :: ArtifactState
  al_is_primary :: bool
  al_size_bytes :: int
  al_sha256 :: string
  al_created_at :: int
  al_verified_at :: "int option"
  al_deleted_at :: "int option"

datatype DeletionJobStatus = JobPreview | JobPending | JobRunning | JobPartialFailed | JobSucceeded | JobFailed

record deletion_job =
  dj_id :: string
  dj_reason :: string
  dj_status :: DeletionJobStatus
  dj_older_than_days :: "int option"
  dj_cutoff_at :: "int option"
  dj_preview_token_hash :: "string option"
  dj_dry_run :: bool
  dj_requested_by :: string
  dj_total_count :: int
  dj_succeeded_count :: int
  dj_failed_count :: int
  dj_skipped_count :: int
  dj_candidate_bytes :: int
  dj_deleted_bytes :: int
  dj_created_at :: int
  dj_started_at :: "int option"
  dj_finished_at :: "int option"
  dj_updated_at :: int
  dj_error_summary :: "string option"

datatype DeletionItemStatus =
    ItemPending | ItemDeleting | ItemRetryWait | ItemDeleted | ItemAlreadyAbsent | ItemSkipped | ItemFailed

record deletion_item =
  di_id :: string
  di_job_id :: string
  di_artifact_id :: string
  di_location_id :: string
  di_node_id :: string
  di_status :: DeletionItemStatus
  di_operation_id :: string
  di_attempt_count :: int
  di_next_attempt_at :: "int option"
  di_lease_token :: "string option"
  di_lease_expires_at :: "int option"
  di_last_error_code :: "string option"
  di_last_error_message :: "string option"
  di_deleted_bytes :: int
  di_created_at :: int
  di_updated_at :: int
  di_deleted_at :: "int option"

record storage_config =
  sc_provider :: string
  sc_bucket_name :: string
  sc_file_host :: string
  sc_public_base_url :: string
  sc_upload_base64_inputs :: bool
  sc_public_key_ciphertext :: string
  sc_public_key_nonce :: string
  sc_public_key_fingerprint :: string
  sc_private_key_ciphertext :: string
  sc_private_key_nonce :: string
  sc_private_key_fingerprint :: string
  sc_request_timeout_ms :: int
  sc_last_test_status :: string
  sc_last_tested_at :: "int option"
  sc_version :: int
  sc_created_at :: int
  sc_updated_at :: int

record request_profile =
  pf_id :: string
  pf_resolution :: string
  pf_resolution_key :: string
  pf_config_json :: string
  pf_config_hash :: string
  pf_created_by :: string
  pf_updated_by :: string
  pf_created_at :: int
  pf_updated_at :: int
  pf_row_version :: int

record external_api_key =
  ek_id :: string
  ek_name :: string
  ek_key_plaintext :: "string option"
  ek_key_digest :: string
  ek_key_prefix :: string
  ek_key_suffix :: string
  ek_enabled :: bool
  ek_version :: int
  ek_created_at :: int
  ek_updated_at :: int

section \<open>The database\<close>

record db =
  video_tasks :: "video_task list"
  idempotency_keys :: "idempotency_key list"
  task_remote_runs :: "remote_run list"
  task_node_assets :: "node_asset list"
  task_stages :: "task_stage list"
  stage_attempts :: "stage_attempt list"
  node_dispatch_barriers :: "dispatch_barrier list"
  callback_deliveries :: "callback_delivery list"
  result_upload_jobs :: "upload_job list"
  task_input_spool_files :: "input_spool_file list"
  model_service_nodes :: "model_node list"
  node_config_bootstrap :: "int option"
  node_model_catalogs :: "node_catalog list"
  node_models :: "node_model list"
  model_routes :: "model_route list"
  routing_revision :: int
  routing_instance_id :: string
  task_artifacts :: "task_artifact list"
  artifact_locations :: "artifact_location list"
  artifact_deletion_jobs :: "deletion_job list"
  artifact_deletion_items :: "deletion_item list"
  profile_test_artifact_ids :: "string list"
  object_storage_configs :: "storage_config list"
  request_profiles :: "request_profile list"
  external_api_keys :: "external_api_key list"
  api_key_config_bootstrap :: "int option"
  next_queue_seq :: int

record StoreEnv =
  ProtectedSlots :: int
  PerKeyLimit :: int
  GlobalLimit :: int
  Retention :: int
  IdempotencyTTL :: int
  nowMillis :: int
  uuid :: "nat \<Rightarrow> string"
  sha256_hex :: "string \<Rightarrow> string"
  url_parse :: url_parser

definition nowUnix :: "StoreEnv \<Rightarrow> int" where
  "nowUnix e = nowMillis e div 1000"

type_synonym 'a op = "(err, db, 'a) tx"

abbreviation update_tasks where "update_tasks \<equiv> exec_update video_tasks video_tasks_update"

abbreviation update_one_task where
  "update_one_task \<equiv> exec_one video_tasks video_tasks_update ErrStateConflict"

abbreviation update_runs where "update_runs \<equiv> exec_update task_remote_runs task_remote_runs_update"

abbreviation update_one_run where
  "update_one_run \<equiv> exec_one task_remote_runs task_remote_runs_update ErrStateConflict"

abbreviation update_stages where "update_stages \<equiv> exec_update task_stages task_stages_update"

abbreviation update_one_stage where
  "update_one_stage \<equiv> exec_one task_stages task_stages_update ErrStateConflict"

abbreviation update_attempts where "update_attempts \<equiv> exec_update stage_attempts stage_attempts_update"

abbreviation update_one_attempt where
  "update_one_attempt \<equiv> exec_one stage_attempts stage_attempts_update ErrStateConflict"

section \<open>NULL handling\<close>

definition coalesce :: "'a option \<Rightarrow> 'a \<Rightarrow> 'a" where
  "coalesce v d = (case v of None \<Rightarrow> d | Some x \<Rightarrow> x)"

definition nullif_empty :: "string \<Rightarrow> string option" where
  "nullif_empty s = (if s = [] then None else Some s)"

definition nullif_zero :: "int \<Rightarrow> int option" where
  "nullif_zero n = (if n = 0 then None else Some n)"

definition keep_or :: "'a option \<Rightarrow> 'a \<Rightarrow> 'a option" where
  "keep_or v d = (case v of None \<Rightarrow> Some d | Some x \<Rightarrow> Some x)"

lemma coalesce_simps [simp]: "coalesce None d = d" "coalesce (Some x) d = x"
  by (simp_all add: coalesce_def)

lemma keep_or_simps [simp]: "keep_or None d = Some d" "keep_or (Some x) d = Some x"
  by (simp_all add: keep_or_def)

lemma nullif_empty_simps [simp]: "nullif_empty [] = None" "nullif_empty (c # s) = Some (c # s)"
  by (simp_all add: nullif_empty_def)

section \<open>The table contract\<close>

text \<open>
  What the store relies on for every table: a statement on the table changes that field of the
  database and reads it back. The locale is interpreted for each table with its key column; a
  statement whose WHERE clause fixes the key changes at most one row.
\<close>

locale keyed_table =
  fixes get :: "'s \<Rightarrow> 'r list"
    and upd :: "('r list \<Rightarrow> 'r list) \<Rightarrow> 's \<Rightarrow> 's"
    and key :: "'r \<Rightarrow> 'k"
  assumes get_upd: "get (upd g s) = g (get s)"
    and upd_id: "upd (\<lambda>x. x) s = s"
    and upd_cong: "g (get s) = h (get s) \<Longrightarrow> upd g s = upd h s"
begin

definition keyed :: "'s \<Rightarrow> bool" where
  "keyed s \<longleftrightarrow> distinct (map key (get s))"

lemma upd_noop: "g (get s) = get s \<Longrightarrow> upd g s = s"
  using upd_cong [of g s "\<lambda>x. x"] upd_id by simp

lemma exec_one_rows:
  assumes "exec_one get upd e p f s = (Inr u, s')"
  shows "get s' = update_where p f (get s)"
  using assms by (auto simp: exec_one_success_iff get_upd)

lemma exec_one_rejected:
  assumes "keyed s" and "\<And>r. p r \<Longrightarrow> key r = v" and "exec_one get upd e p f s = (Inl e', s')"
  shows "s' = s" and "e' = e" and "\<forall>r \<in> set (get s). \<not> p r"
proof -
  from assms(3) have n: "affected p (get s) \<noteq> 1" and s': "s' = upd (update_where p f) s" and "e' = e"
    by (auto simp: exec_one_apply split: if_splits)
  have "affected p (get s) \<le> 1"
    by (rule affected_key_le_one [of key, where v = v]) (use assms in \<open>auto simp: keyed_def\<close>)
  with n have none: "affected p (get s) = 0" by simp
  then show "\<forall>r \<in> set (get s). \<not> p r" by (simp add: affected_zero)
  then have "update_where p f (get s) = get s" by (intro update_where_id) auto
  with s' show "s' = s" by (simp add: upd_noop)
  show "e' = e" by fact
qed

lemma exec_update_keyed:
  assumes "keyed s" and "\<And>r. r \<in> set (get s) \<Longrightarrow> p r \<Longrightarrow> key (f r) = key r"
  shows "keyed (upd (update_where p f) s)"
  using assms by (simp add: keyed_def get_upd distinct_update_where)

lemma exec_insert_keyed:
  "keyed s \<Longrightarrow> key r \<notin> key ` set (get s) \<Longrightarrow> keyed (upd (\<lambda>rows. rows @ [r]) s)"
  by (auto simp: keyed_def get_upd)

end

interpretation task_table: keyed_table video_tasks video_tasks_update vt_task_id
  by unfold_locales auto

interpretation run_table: keyed_table task_remote_runs task_remote_runs_update rr_task_id
  by unfold_locales auto

interpretation stage_table: keyed_table task_stages task_stages_update ts_id
  by unfold_locales auto

interpretation attempt_table: keyed_table stage_attempts stage_attempts_update sa_id
  by unfold_locales auto

interpretation barrier_table: keyed_table node_dispatch_barriers node_dispatch_barriers_update nb_node_id
  by unfold_locales auto

interpretation delivery_table: keyed_table callback_deliveries callback_deliveries_update cd_id
  by unfold_locales auto

interpretation upload_table: keyed_table result_upload_jobs result_upload_jobs_update ru_id
  by unfold_locales auto

interpretation node_table: keyed_table model_service_nodes model_service_nodes_update mn_id
  by unfold_locales auto

interpretation job_table: keyed_table artifact_deletion_jobs artifact_deletion_jobs_update dj_id
  by unfold_locales auto

interpretation artifact_table: keyed_table task_artifacts task_artifacts_update ar_id
  by unfold_locales auto

interpretation location_table: keyed_table artifact_locations artifact_locations_update al_id
  by unfold_locales auto

interpretation profile_table: keyed_table request_profiles request_profiles_update pf_id
  by unfold_locales auto

interpretation item_table: keyed_table artifact_deletion_items artifact_deletion_items_update di_id
  by unfold_locales auto

text \<open>An empty database and a store for concrete runs.\<close>

definition empty_db :: db where
  "empty_db =
     \<lparr>video_tasks = [], idempotency_keys = [], task_remote_runs = [], task_node_assets = [], task_stages = [],
      stage_attempts = [], node_dispatch_barriers = [], callback_deliveries = [], result_upload_jobs = [],
      task_input_spool_files = [], model_service_nodes = [], node_config_bootstrap = None,
      node_model_catalogs = [], node_models = [], model_routes = [], routing_revision = 1,
      routing_instance_id = ''instance'', task_artifacts = [], artifact_locations = [],
      artifact_deletion_jobs = [], artifact_deletion_items = [], profile_test_artifact_ids = [],
      object_storage_configs = [], request_profiles = [], external_api_keys = [], api_key_config_bootstrap = None,
      next_queue_seq = 1\<rparr>"

definition sample_env :: StoreEnv where
  "sample_env =
     \<lparr>ProtectedSlots = 1, PerKeyLimit = 2, GlobalLimit = 3, Retention = 3600, IdempotencyTTL = 600,
      nowMillis = 1000000, uuid = (\<lambda>k. ''uuid-'' @ replicate k (CHR ''x'')), sha256_hex = (\<lambda>s. ''sha-'' @ s),
      url_parse = (\<lambda>_. None)\<rparr>"

text \<open>A task row with the defaults of the table.\<close>

definition blank_task :: "string \<Rightarrow> int \<Rightarrow> video_task" where
  "blank_task i q =
     \<lparr>vt_queue_seq = q, vt_task_id = i, vt_api_key_id = [], vt_model = [], vt_scenario = [], vt_request = None,
      vt_request_hash = [], vt_status = StatusQueuedOpen, vt_cancel_locked = False, vt_upstream_id = None,
      vt_gradio_event_id = None, vt_upstream_job_id = None, vt_upstream_slot_active = False,
      vt_upstream_node_version = 0, vt_delivery_required = False, vt_upstream_jobs_before = Some [],
      vt_official_submission_baseline_saved = False, vt_retry_count = 0, vt_attempt_started_at = None,
      vt_cancel_requested_at = None, vt_gallery_before = None, vt_result_internal_url = None,
      vt_result_public_url = None, vt_resolution = [], vt_duration = 0, vt_ratio_requested = [],
      vt_ratio_actual = None, vt_usage_total_seconds = 0, vt_usage_output_seconds = 0,
      vt_usage_input_image_count = 0, vt_error_code = None, vt_error_message = None,
      vt_upstream_feedback = None, vt_created_at = 0, vt_updated_at = 0, vt_started_at = None,
      vt_finished_at = None, vt_expires_at = 0, vt_deleted_at = None, vt_deletion_state = ''not_requested'',
      vt_version = 0, vt_callback_url_ciphertext = None, vt_callback_url_nonce = None, vt_profile_id = None,
      vt_profile_version = None, vt_config_snapshot_json = None, vt_config_hash = None,
      vt_active_stage_id = None, vt_result_artifact_id = None, vt_protocol_version = None,
      vt_route_state = RouteAwaiting, vt_routing_snapshot = None, vt_dispatch_snapshot = None,
      vt_request_normalizer = ''legacy-h3-v1'', vt_routing_wait_reason = [], vt_latest_result_url = None,
      vt_latest_result_expires_at = None, vt_result_metadata_json = None, vt_metadata_status = ''none''\<rparr>"

end
