(* ===== verification/Protocols.thy ===== *)
theory Protocols
  imports Domain
begin

text \<open>
  The package \<^verbatim>\<open>internal/protocol\<close>: the protocol registry, the built-in capability,
  the media source checks, the H3 validation (\<open>ValidateCreate\<close>), the tk2sd normalisation and
  \<open>Normalize\<close>, which turns a client request into the request, scenario and requirements a
  node is matched against. An error built by \<open>fmt.Errorf\<close> is \<open>ErrText\<close> with a tag for the
  message. The lemmas show what an accepted request satisfies.
\<close>

section \<open>Registry\<close>

record Definition =
  de_ID :: string
  de_ModelSource :: string
  de_ParameterPlan :: string
  de_Creatable :: bool

definition Definitions :: "Definition list" where
  "Definitions =
     [\<lparr>de_ID = ProtocolH3, de_ModelSource = ''builtin'', de_ParameterPlan = ''h3_profile'', de_Creatable = True\<rparr>,
      \<lparr>de_ID = ProtocolOfficial, de_ModelSource = ''manual'', de_ParameterPlan = ''direct'', de_Creatable = True\<rparr>,
      \<lparr>de_ID = ProtocolTK2SD, de_ModelSource = ''discovered'', de_ParameterPlan = ''direct'', de_Creatable = True\<rparr>,
      \<lparr>de_ID = ProtocolLegacy, de_ModelSource = ''builtin'', de_ParameterPlan = ''h3_profile'', de_Creatable = False\<rparr>]"

definition Lookup :: "string \<Rightarrow> Definition option" where
  "Lookup i = find (\<lambda>d. de_ID d = i) Definitions"

definition builtin_durations :: "int list" where
  "builtin_durations = [4, 5, 6, 7, 8, 9, 10, 11, 12, 13, 14, 15]"

definition BuiltinCapability :: "string \<Rightarrow> ModelCapability" where
  "BuiltinCapability i =
     (let c = \<lparr>ca_schema_version = 1,
               ca_modes =
                 [\<lparr>mo_scenario = ''t2va'', mo_durations = builtin_durations, mo_roles = []\<rparr>,
                  \<lparr>mo_scenario = ''i2va'', mo_durations = builtin_durations,
                   mo_roles = [''first_frame'', ''last_frame'']\<rparr>,
                  \<lparr>mo_scenario = ''r2va'', mo_durations = builtin_durations,
                   mo_roles = [''reference_image'', ''reference_video'', ''reference_audio'']\<rparr>],
               ca_input_sources = [''http'', ''https'', ''data''],
               ca_resolution_policy = ''required'', ca_resolutions = [], ca_max_media = 15\<rparr>
      in if i = ProtocolOfficial
         then c\<lparr>ca_resolutions := [''768P'', ''2K''], ca_input_sources := ca_input_sources c @ [''mm_file'']\<rparr>
         else c)"

section \<open>Media sources\<close>

definition MaxDecodedImageBytes :: nat where "MaxDecodedImageBytes = 30 * 1048576"

definition MaxDecodedVideoBytes :: nat where "MaxDecodedVideoBytes = 50 * 1048576"

definition MaxDecodedAudioBytes :: nat where "MaxDecodedAudioBytes = 15 * 1048576"

definition ascii_runes :: "string \<Rightarrow> rune list" where
  "ascii_runes s = map byte s"

definition lookup_media_type :: "(string \<times> string) list \<Rightarrow> string \<Rightarrow> string option" where
  "lookup_media_type supported mediaType =
     map_option snd (find (\<lambda>(k, _). ascii_runes k = to_lower mediaType) supported)"

definition parseDataURI ::
  "string \<Rightarrow> nat \<Rightarrow> (string \<times> string) list \<Rightarrow> (string \<times> nat list) option \<times> bool \<times> err option" where
  "parseDataURI v maxBytes supported =
     (if \<not> has_prefix v ''data:'' then (None, False, None)
      else
        (let (header, encoded, ok) = cut v (CHR '','') in
         if \<not> ok \<or> encoded = [] then (None, True, Some (ErrText ''base64 format''))
         else
           (let (mediaType, encoding, ok2) = cut (trim_prefix header ''data:'') (CHR '';'') in
            if \<not> ok2 \<or> \<not> equal_fold encoding ''base64'' then (None, True, Some (ErrText ''base64 format''))
            else
              (case lookup_media_type supported mediaType of
                 None \<Rightarrow> (None, True, Some (ErrText ''base64 type''))
               | Some normalized \<Rightarrow>
                   if length encoded > b64_encoded_len maxBytes then (None, True, Some (ErrText ''base64 size''))
                   else
                     (case b64_decode_strict encoded of
                        None \<Rightarrow> (None, True, Some (ErrText ''base64 format''))
                      | Some decoded \<Rightarrow>
                          if length decoded > maxBytes then (None, True, Some (ErrText ''base64 size''))
                          else (Some (normalized, decoded), True, None))))))"

definition mm_file_error :: "string \<Rightarrow> err option" where
  "mm_file_error v =
     (if trim_space (trim_prefix v ''mm_file://'') = [] then Some (ErrText ''mm_file id'') else None)"

definition plain_http_url :: "url_parser \<Rightarrow> string \<Rightarrow> bool" where
  "plain_http_url up v =
     (case up v of None \<Rightarrow> False
      | Some u \<Rightarrow> u_host u \<noteq> [] \<and> (u_scheme u = ''http'' \<or> u_scheme u = ''https'') \<and> \<not> u_has_user u)"

definition image_types :: "(string \<times> string) list" where
  "image_types =
     [(''image/jpeg'', ''image/jpeg''), (''image/jpg'', ''image/jpeg''), (''image/png'', ''image/png''),
      (''image/webp'', ''image/webp'')]"

definition validateImageSource :: "url_parser \<Rightarrow> string \<Rightarrow> err option" where
  "validateImageSource up v =
     (if has_prefix v ''data:'' then snd (snd (parseDataURI v MaxDecodedImageBytes image_types))
      else if has_prefix v ''mm_file://'' then mm_file_error v
      else if plain_http_url up v then None else Some (ErrText ''media url''))"

definition validateAccessibleMediaURL :: "url_parser \<Rightarrow> string \<Rightarrow> err option" where
  "validateAccessibleMediaURL up v =
     (if has_prefix v ''mm_file://'' then mm_file_error v
      else if plain_http_url up v then None else Some (ErrText ''accessible url''))"

definition validateVideoSource :: "url_parser \<Rightarrow> string \<Rightarrow> err option" where
  "validateVideoSource up v =
     (if has_prefix v ''data:'' then
        (case snd (snd (parseDataURI v MaxDecodedVideoBytes [(''video/mp4'', ''video/mp4'')])) of
           Some e \<Rightarrow> if e = ErrText ''base64 type'' then Some (ErrText ''video type'') else Some e
         | None \<Rightarrow> None)
      else validateAccessibleMediaURL up v)"

definition ParseAudioDataURI :: "string \<Rightarrow> (string \<times> nat list) option \<times> bool \<times> err option" where
  "ParseAudioDataURI v =
     (let (got, isDataURI, e) = parseDataURI v MaxDecodedAudioBytes
        [(''audio/wav'', ''audio/wav''), (''audio/mpeg'', ''audio/mpeg''), (''audio/mp3'', ''audio/mp3'')]
      in if e = Some (ErrText ''base64 type'') then (None, isDataURI, Some (ErrText ''audio type''))
         else (got, isDataURI, e))"

definition validateAudioSource :: "url_parser \<Rightarrow> string \<Rightarrow> err option" where
  "validateAudioSource up v =
     (let (_, isDataURI, e) = ParseAudioDataURI v
      in if isDataURI then e else validateAccessibleMediaURL up v)"

definition validRatio :: "string \<Rightarrow> bool" where
  "validRatio v \<longleftrightarrow> v \<in> {''adaptive'', ''21:9'', ''16:9'', ''4:3'', ''1:1'', ''3:4'', ''9:16''}"

section \<open>H3 validation\<close>

text \<open>The counters and the prompt the loop over the content keeps.\<close>

record ContentCount =
  n_text :: nat
  n_first :: nat
  n_last :: nat
  n_images :: nat
  n_videos :: nat
  n_audios :: nat
  n_prompt :: string

definition no_content :: ContentCount where
  "no_content = \<lparr>n_text = 0, n_first = 0, n_last = 0, n_images = 0, n_videos = 0, n_audios = 0, n_prompt = []\<rparr>"

definition h3_text :: "GenerationContent \<Rightarrow> ContentCount \<Rightarrow> err + GenerationContent \<times> ContentCount" where
  "h3_text item n =
     (if gc_text item = [] \<or> trim_space (gc_text item) = [] \<or> rune_count (gc_text item) > 14000
      then Inl (ErrText ''text length'')
      else if gc_image_url item \<noteq> None \<or> gc_video_url item \<noteq> None \<or> gc_audio_url item \<noteq> None
              \<or> gc_role item \<noteq> []
      then Inl (ErrText ''text fields'')
      else Inr (item, n\<lparr>n_text := n_text n + 1, n_prompt := gc_text item\<rparr>))"

definition h3_image_role :: "GenerationContent \<Rightarrow> ContentCount \<Rightarrow> err + GenerationContent \<times> ContentCount" where
  "h3_image_role item n =
     (if gc_role item = ''first_frame'' then Inr (item, n\<lparr>n_first := n_first n + 1\<rparr>)
      else if gc_role item = ''last_frame'' then Inr (item, n\<lparr>n_last := n_last n + 1\<rparr>)
      else if gc_role item = ''reference_image'' then Inr (item, n\<lparr>n_images := n_images n + 1\<rparr>)
      else Inl (ErrText ''image role''))"

definition h3_image ::
  "url_parser \<Rightarrow> GenerationContent \<Rightarrow> ContentCount \<Rightarrow> err + GenerationContent \<times> ContentCount" where
  "h3_image up item n =
     (case gc_image_url item of
        None \<Rightarrow> Inl (ErrText ''image_url'')
      | Some u \<Rightarrow>
          if gc_video_url item \<noteq> None \<or> gc_audio_url item \<noteq> None \<or> gc_text item \<noteq> []
          then Inl (ErrText ''image_url'')
          else
            (case validateImageSource up u of
               Some e \<Rightarrow> Inl e
             | None \<Rightarrow>
                 h3_image_role (if gc_role item = [] then item\<lparr>gc_role := ''first_frame''\<rparr> else item) n))"

definition h3_video ::
  "url_parser \<Rightarrow> GenerationContent \<Rightarrow> ContentCount \<Rightarrow> err + GenerationContent \<times> ContentCount" where
  "h3_video up item n =
     (case gc_video_url item of
        None \<Rightarrow> Inl (ErrText ''video_url'')
      | Some u \<Rightarrow>
          if gc_image_url item \<noteq> None \<or> gc_audio_url item \<noteq> None \<or> gc_text item \<noteq> []
             \<or> gc_role item \<noteq> ''reference_video''
          then Inl (ErrText ''video_url'')
          else
            (case validateVideoSource up u of
               Some e \<Rightarrow> Inl e
             | None \<Rightarrow> Inr (item, n\<lparr>n_videos := n_videos n + 1\<rparr>)))"

definition h3_audio ::
  "url_parser \<Rightarrow> GenerationContent \<Rightarrow> ContentCount \<Rightarrow> err + GenerationContent \<times> ContentCount" where
  "h3_audio up item n =
     (case gc_audio_url item of
        None \<Rightarrow> Inl (ErrText ''audio_url'')
      | Some u \<Rightarrow>
          if gc_image_url item \<noteq> None \<or> gc_video_url item \<noteq> None \<or> gc_text item \<noteq> []
             \<or> gc_role item \<noteq> ''reference_audio''
          then Inl (ErrText ''audio_url'')
          else
            (case validateAudioSource up u of
               Some e \<Rightarrow> Inl e
             | None \<Rightarrow> Inr (item, n\<lparr>n_audios := n_audios n + 1\<rparr>)))"

definition h3_item ::
  "url_parser \<Rightarrow> GenerationContent \<Rightarrow> ContentCount \<Rightarrow> err + GenerationContent \<times> ContentCount" where
  "h3_item up item n =
     (if gc_type item = ''text'' then h3_text item n
      else if gc_type item = ''image_url'' then h3_image up item n
      else if gc_type item = ''video_url'' then h3_video up item n
      else if gc_type item = ''audio_url'' then h3_audio up item n
      else Inl (ErrText ''content.type''))"

text \<open>A loop over the content that may stop with an error and rewrites the items.\<close>

fun scan_content ::
  "(GenerationContent \<Rightarrow> ContentCount \<Rightarrow> err + GenerationContent \<times> ContentCount)
   \<Rightarrow> GenerationContent list \<Rightarrow> ContentCount \<Rightarrow> err + GenerationContent list \<times> ContentCount" where
  "scan_content f [] n = Inr ([], n)"
| "scan_content f (x # xs) n =
     (case f x n of
        Inl e \<Rightarrow> Inl e
      | Inr (y, n') \<Rightarrow>
          (case scan_content f xs n' of
             Inl e \<Rightarrow> Inl e
           | Inr (ys, n'') \<Rightarrow> Inr (y # ys, n'')))"

record ValidatedRequest =
  va_request :: GenerationRequest
  va_scenario :: string
  va_prompt :: string
  va_width :: int
  va_height :: int
  va_input_image_count :: nat

definition blank_callback :: "GenerationRequest \<Rightarrow> bool" where
  "blank_callback r = (case gr_callback_url r of None \<Rightarrow> False | Some u \<Rightarrow> trim_space u = [])"

type_synonym profiles = "string \<Rightarrow> (string \<Rightarrow> (int \<times> int) option) option"

text \<open>The part of \<open>ValidateCreate\<close> after the loop: counts, scenario, ratio and dimensions.\<close>

definition h3_scenario :: "ContentCount \<Rightarrow> string" where
  "h3_scenario n =
     (if n_first n + n_last n > 0 then ''i2va''
      else if n_images n + n_videos n + n_audios n > 0 then ''r2va'' else ''t2va'')"

definition h3_ratio :: "ContentCount \<Rightarrow> string \<Rightarrow> string" where
  "h3_ratio n ratio =
     (if h3_scenario n = ''i2va'' then ''adaptive''
      else if h3_scenario n = ''r2va'' \<and> ratio = [] then ''adaptive'' else ratio)"

definition h3_count_error :: "ContentCount \<Rightarrow> string \<Rightarrow> err option" where
  "h3_count_error n ratio =
     (if n_text n \<noteq> 1 then Some (ErrText ''text count'')
      else if n_first n > 1 \<or> n_last n > 1 then Some (ErrText ''frame count'')
      else if n_images n > 9 \<or> n_videos n > 3 \<or> n_audios n > 3 then Some (ErrText ''reference count'')
      else if n_first n + n_last n > 0 \<and> n_images n + n_videos n + n_audios n > 0
      then Some (ErrText ''mixed roles'')
      else if h3_scenario n = ''t2va'' \<and> (ratio = [] \<or> ratio = ''adaptive'') then Some (ErrText ''t2va ratio'')
      else if \<not> validRatio (h3_ratio n ratio) then Some (ErrText ''ratio'')
      else None)"

definition h3_dimensions ::
  "profiles option \<Rightarrow> string \<Rightarrow> string \<Rightarrow> err + int \<times> int" where
  "h3_dimensions profiles resolution ratio =
     (case profiles of
        None \<Rightarrow> Inr (0, 0)
      | Some ps \<Rightarrow>
          (case ps resolution of
             None \<Rightarrow> Inl (ErrText ''resolution'')
           | Some dims \<Rightarrow> (case dims ratio of None \<Rightarrow> Inl (ErrText ''dimensions'') | Some d \<Rightarrow> Inr d)))"

definition h3_finish ::
  "GenerationRequest \<Rightarrow> profiles option \<Rightarrow> GenerationContent list \<Rightarrow> ContentCount \<Rightarrow> err + ValidatedRequest" where
  "h3_finish r profiles content n =
     (case h3_count_error n (gr_ratio r) of
        Some e \<Rightarrow> Inl e
      | None \<Rightarrow>
          (case h3_dimensions profiles (gr_resolution r) (h3_ratio n (gr_ratio r)) of
             Inl e \<Rightarrow> Inl e
           | Inr (w, h) \<Rightarrow>
               Inr \<lparr>va_request = r\<lparr>gr_content := content, gr_ratio := h3_ratio n (gr_ratio r)\<rparr>,
                    va_scenario = h3_scenario n, va_prompt = n_prompt n, va_width = w, va_height = h,
                    va_input_image_count = n_first n + n_last n + n_images n\<rparr>))"

definition h3_request_error :: "GenerationRequest \<Rightarrow> err option" where
  "h3_request_error r =
     (if gr_model r \<noteq> ''MiniMax-H3'' then Some (ErrText ''model'')
      else if length (gr_content r) < 1 \<or> length (gr_content r) > 16 then Some (ErrText ''content count'')
      else if gr_duration r < 4 \<or> gr_duration r > 15 then Some (ErrText ''duration'')
      else if blank_callback r then Some (ErrText ''callback_url'')
      else None)"

definition ValidateCreate ::
  "url_parser \<Rightarrow> GenerationRequest \<Rightarrow> profiles option \<Rightarrow> err + ValidatedRequest" where
  "ValidateCreate up r profiles =
     (case h3_request_error r of
        Some e \<Rightarrow> Inl e
      | None \<Rightarrow>
          (case scan_content (h3_item up) (gr_content r) no_content of
             Inl e \<Rightarrow> Inl e
           | Inr (content, n) \<Rightarrow> h3_finish r profiles content n))"

section \<open>Requirements\<close>

definition media_source :: "string \<Rightarrow> string" where
  "media_source u = fst (cut u (CHR '':''))"

definition normalized ::
  "GenerationRequest \<Rightarrow> string \<Rightarrow> string \<Rightarrow> nat \<Rightarrow> string \<Rightarrow> NormalizedRequest" where
  "normalized r scenario prompt images version =
     (let media = filter (\<lambda>i. gc_type i \<noteq> ''text'') (gr_content r)
      in \<lparr>nr_request = r, nr_scenario = scenario, nr_prompt = prompt, nr_normalizer_version = version,
          nr_input_image_count = int images,
          nr_requirements =
            \<lparr>rq_scenario = scenario, rq_duration = gr_duration r, rq_resolution = gr_resolution r,
             rq_roles = map gc_role media,
             rq_input_sources = map media_source (List.map_filter Media media),
             rq_media_count = int (length media)\<rparr>\<rparr>)"

section \<open>tk2sd normalisation\<close>

definition node_specific_ref :: "string \<Rightarrow> bool" where
  "node_specific_ref u \<longleftrightarrow>
     has_prefix u ''mm_file:'' \<or> has_prefix u ''asset:'' \<or> has_prefix u ''proxy-input:''"

text \<open>
  One iteration of the loop of \<open>normalizeTK2SD\<close>; \<open>n_images\<close> counts all images here,
  \<open>n_first\<close> those used as first frame.
\<close>

definition tk2sd_text :: "GenerationContent \<Rightarrow> ContentCount \<Rightarrow> err + GenerationContent \<times> ContentCount" where
  "tk2sd_text item n =
     (if trim_space (gc_text item) = [] \<or> rune_count (gc_text item) > 14000 \<or> gc_role item \<noteq> []
         \<or> gc_image_url item \<noteq> None \<or> gc_video_url item \<noteq> None \<or> gc_audio_url item \<noteq> None
      then Inl (ErrText ''text'')
      else Inr (item, n\<lparr>n_text := n_text n + 1, n_prompt := gc_text item\<rparr>))"

definition tk2sd_role :: "ModelCapability \<Rightarrow> nat \<Rightarrow> GenerationContent \<Rightarrow> GenerationContent" where
  "tk2sd_role c mediaCount item =
     (if gc_role item \<noteq> [] then item
      else if gc_type item = ''image_url'' \<and> mediaCount = 1 \<and> HasMode c ''i2va''
      then item\<lparr>gc_role := ''first_frame''\<rparr>
      else item\<lparr>gc_role := ''reference_'' @ trim_suffix (gc_type item) ''_url''\<rparr>)"

definition tk2sd_kind ::
  "url_parser \<Rightarrow> string \<Rightarrow> GenerationContent \<Rightarrow> ContentCount \<Rightarrow> err + GenerationContent \<times> ContentCount" where
  "tk2sd_kind up u item n =
     (if gc_type item = ''image_url'' then
        (if gc_video_url item \<noteq> None \<or> gc_audio_url item \<noteq> None then Inl (ErrText ''image_url'')
         else if gc_role item \<noteq> ''first_frame'' \<and> gc_role item \<noteq> ''reference_image''
         then Inl (ErrText ''image role'')
         else
           (case validateImageSource up u of
              Some e \<Rightarrow> Inl e
            | None \<Rightarrow>
                Inr (item, n\<lparr>n_images := n_images n + 1,
                             n_first := (if gc_role item = ''first_frame'' then n_first n + 1 else n_first n)\<rparr>)))
      else if gc_type item = ''video_url'' then
        (if gc_image_url item \<noteq> None \<or> gc_audio_url item \<noteq> None \<or> gc_role item \<noteq> ''reference_video''
         then Inl (ErrText ''video_url'')
         else
           (case validateVideoSource up u of
              Some e \<Rightarrow> Inl e
            | None \<Rightarrow> Inr (item, n\<lparr>n_videos := n_videos n + 1\<rparr>)))
      else if gc_type item = ''audio_url'' then
        (if gc_image_url item \<noteq> None \<or> gc_video_url item \<noteq> None \<or> gc_role item \<noteq> ''reference_audio''
         then Inl (ErrText ''audio_url'')
         else
           (case validateAudioSource up u of
              Some e \<Rightarrow> Inl e
            | None \<Rightarrow> Inr (item, n\<lparr>n_audios := n_audios n + 1\<rparr>)))
      else Inl (ErrText ''content.type''))"

definition tk2sd_item ::
  "url_parser \<Rightarrow> ModelCapability \<Rightarrow> nat \<Rightarrow> GenerationContent \<Rightarrow> ContentCount
   \<Rightarrow> err + GenerationContent \<times> ContentCount" where
  "tk2sd_item up c mediaCount item n =
     (if gc_type item = ''text'' then tk2sd_text item n
      else
        (case Media item of
           None \<Rightarrow> Inl (ErrText ''media'')
         | Some u \<Rightarrow>
             if gc_text item \<noteq> [] then Inl (ErrText ''media'')
             else if node_specific_ref u then Inl (ErrText ''node reference'')
             else tk2sd_kind up u (tk2sd_role c mediaCount item) n))"

definition media_items :: "GenerationContent list \<Rightarrow> nat" where
  "media_items xs = length (filter (\<lambda>i. gc_type i \<noteq> ''text'') xs)"

definition tk2sd_duration :: "GenerationRequest \<Rightarrow> GenerationRequest" where
  "tk2sd_duration r = (if gr_duration r = 0 \<and> \<not> gr_duration_present r then r\<lparr>gr_duration := 5\<rparr> else r)"

definition tk2sd_request_error :: "GenerationRequest \<Rightarrow> err option" where
  "tk2sd_request_error r =
     (if gr_duration r \<le> 0 then Some (ErrText ''duration'')
      else if length (gr_content r) < 1 \<or> length (gr_content r) > 13 then Some (ErrText ''content count'')
      else if rune_count (gr_resolution r) > 32 \<or> rune_count (gr_ratio r) > 32
      then Some (ErrText ''resolution or ratio'')
      else if blank_callback r then Some (ErrText ''callback_url'')
      else None)"

definition tk2sd_count_error :: "nat \<Rightarrow> ContentCount \<Rightarrow> err option" where
  "tk2sd_count_error mediaCount n =
     (if n_text n \<noteq> 1 \<or> n_images n > 9 \<or> n_videos n > 3 \<or> n_audios n > 3 \<or> mediaCount > 12
      then Some (ErrText ''counts'')
      else if n_first n > 0 \<and> (n_first n \<noteq> 1 \<or> mediaCount \<noteq> 1) then Some (ErrText ''first frame'')
      else None)"

definition tk2sd_scenario :: "nat \<Rightarrow> ContentCount \<Rightarrow> string" where
  "tk2sd_scenario mediaCount n =
     (if n_first n > 0 then ''i2va'' else if mediaCount > 0 then ''r2va'' else ''t2va'')"

definition normalizeTK2SD ::
  "url_parser \<Rightarrow> GenerationRequest \<Rightarrow> ModelCapability \<Rightarrow> err + NormalizedRequest" where
  "normalizeTK2SD up request c =
     (let r = tk2sd_duration request; mediaCount = media_items (gr_content r) in
      case tk2sd_request_error r of
        Some e \<Rightarrow> Inl e
      | None \<Rightarrow>
          (case scan_content (tk2sd_item up c mediaCount) (gr_content r) no_content of
             Inl e \<Rightarrow> Inl e
           | Inr (content, n) \<Rightarrow>
               (case tk2sd_count_error mediaCount n of
                  Some e \<Rightarrow> Inl e
                | None \<Rightarrow>
                    (let got = normalized (r\<lparr>gr_content := content\<rparr>) (tk2sd_scenario mediaCount n) (n_prompt n)
                                 (n_images n) ProtocolTK2SD
                     in if \<not> Accepts c (nr_requirements got) then Inl ErrModelInput else Inr got))))"

definition Normalize ::
  "url_parser \<Rightarrow> string \<Rightarrow> GenerationRequest \<Rightarrow> ModelCapability \<Rightarrow> err + NormalizedRequest" where
  "Normalize up i r c =
     (if Lookup i = None then Inl (ErrText ''protocol'')
      else if \<not> ValidModelID (gr_model r) then Inl (ErrText ''model id'')
      else if i = ProtocolTK2SD then normalizeTK2SD up r c
      else if gr_resolution r = [] then Inl (ErrText ''resolution'')
      else if i \<noteq> ProtocolOfficial \<and> gr_model r \<noteq> ''MiniMax-H3'' then Inl ErrUnsupportedModel
      else
        (case ValidateCreate up (r\<lparr>gr_model := ''MiniMax-H3''\<rparr>) None of
           Inl e \<Rightarrow> Inl e
         | Inr v \<Rightarrow>
             (let got = normalized ((va_request v)\<lparr>gr_model := gr_model r\<rparr>) (va_scenario v) (va_prompt v)
                          (va_input_image_count v) i
              in if \<not> Accepts c (nr_requirements got) then Inl ErrModelInput else Inr got)))"

section \<open>Lemmas\<close>

lemma Lookup_Some_iff:
  "(\<exists>d. Lookup i = Some d) \<longleftrightarrow> i \<in> {ProtocolH3, ProtocolOfficial, ProtocolTK2SD, ProtocolLegacy}"
  by (auto simp: Lookup_def Definitions_def)

lemma Lookup_ID: "Lookup i = Some d \<Longrightarrow> de_ID d = i"
  by (auto simp: Lookup_def find_Some_iff)

text \<open>
  An invariant of the content loop: \<open>P\<close> relates the items read to the items written and the
  counters. The rule is instantiated once per loop.
\<close>

lemma scan_content_invariant:
  assumes "scan_content f xs n = Inr (ys, n')"
    and "P [] [] n"
    and "\<And>us vs m x y m'. P us vs m \<Longrightarrow> f x m = Inr (y, m') \<Longrightarrow> P (us @ [x]) (vs @ [y]) m'"
  shows "P xs ys n'"
proof -
  have "P us vs n \<Longrightarrow> scan_content f xs n = Inr (ys, n') \<Longrightarrow> P (us @ xs) (vs @ ys) n'" for us vs
  proof (induction xs arbitrary: us vs n ys)
    case (Cons x xs)
    from Cons.prems(2) obtain y m zs where x: "f x n = Inr (y, m)"
      and rest: "scan_content f xs m = Inr (zs, n')" and ys: "ys = y # zs"
      by (auto split: sum.splits prod.splits)
    from Cons.IH [OF assms(3) [OF Cons.prems(1) x] rest] show ?case by (simp add: ys)
  qed simp
  from this [of "[]" "[]"] assms(1,2) show ?thesis by simp
qed

lemma media_items_append [simp]: "media_items (xs @ ys) = media_items xs + media_items ys"
  by (simp add: media_items_def)

lemma media_items_single [simp]: "media_items [x] = (if gc_type x = ''text'' then 0 else 1)"
  by (simp add: media_items_def)

lemma media_items_Nil [simp]: "media_items [] = 0"
  by (simp add: media_items_def)

lemma normalized_simps [simp]:
  "nr_request (normalized r s p k v) = r" "nr_scenario (normalized r s p k v) = s"
  "nr_prompt (normalized r s p k v) = p" "nr_normalizer_version (normalized r s p k v) = v"
  "nr_input_image_count (normalized r s p k v) = int k"
  "rq_scenario (nr_requirements (normalized r s p k v)) = s"
  "rq_duration (nr_requirements (normalized r s p k v)) = gr_duration r"
  "rq_resolution (nr_requirements (normalized r s p k v)) = gr_resolution r"
  "rq_media_count (nr_requirements (normalized r s p k v)) = int (media_items (gr_content r))"
  by (simp_all add: normalized_def media_items_def Let_def)

lemma scan_content_fixpoint:
  assumes "\<And>x m y m'. f x m = Inr (y, m') \<Longrightarrow> g y m = Inr (y, m')"
    and "scan_content f xs n = Inr (ys, n')"
  shows "scan_content g ys n = Inr (ys, n')"
  using assms(2) by (induction xs arbitrary: n ys) (auto dest: assms(1) split: sum.splits prod.splits)

lemma h3_text_out: "h3_text x n = Inr (y, n') \<Longrightarrow> y = x"
  by (simp add: h3_text_def split: if_splits)

lemma h3_image_role_out: "h3_image_role x n = Inr (y, n') \<Longrightarrow> y = x \<and> gc_role x \<noteq> []"
  by (auto simp: h3_image_role_def split: if_splits)

lemma h3_video_out: "h3_video up x n = Inr (y, n') \<Longrightarrow> y = x"
  by (simp add: h3_video_def split: if_splits option.splits)

lemma h3_audio_out: "h3_audio up x n = Inr (y, n') \<Longrightarrow> y = x"
  by (simp add: h3_audio_def split: if_splits option.splits)

lemma h3_image_out:
  "h3_image up x n = Inr (y, n') \<Longrightarrow>
     y = (if gc_role x = [] then x\<lparr>gc_role := ''first_frame''\<rparr> else x) \<and> h3_image up y n = Inr (y, n')"
  by (auto simp: h3_image_def split: option.splits if_splits) (auto dest: h3_image_role_out)

lemma h3_item_out:
  assumes "h3_item up x n = Inr (y, n')"
  shows "gc_type y = gc_type x \<and> h3_item up y n = Inr (y, n')"
proof (cases "gc_type x = ''image_url''")
  case True
  with assms have h: "h3_image up x n = Inr (y, n')" by (simp add: h3_item_def)
  from h3_image_out [OF h] have "gc_type y = gc_type x" and "h3_image up y n = Inr (y, n')" by auto
  with True show ?thesis by (simp add: h3_item_def)
next
  case False
  with assms have "y = x"
    by (simp add: h3_item_def h3_text_out h3_video_out h3_audio_out split: if_splits)
  with assms show ?thesis by simp
qed

lemma tk2sd_role_simps [simp]:
  "gc_type (tk2sd_role c k x) = gc_type x" "gc_text (tk2sd_role c k x) = gc_text x"
  "gc_image_url (tk2sd_role c k x) = gc_image_url x" "gc_video_url (tk2sd_role c k x) = gc_video_url x"
  "gc_audio_url (tk2sd_role c k x) = gc_audio_url x"
  "Media (tk2sd_role c k x) = Media x"
  "tk2sd_role c k (tk2sd_role c k x) = tk2sd_role c k x"
  by (simp_all add: tk2sd_role_def Media_def)

lemma tk2sd_kind_out: "tk2sd_kind up u x n = Inr (y, n') \<Longrightarrow> y = x"
  by (simp add: tk2sd_kind_def split: if_splits option.splits)

lemma tk2sd_item_out:
  assumes "tk2sd_item up c k x n = Inr (y, n')"
  shows "gc_type y = gc_type x \<and> tk2sd_item up c k y n = Inr (y, n')"
proof (cases "gc_type x = ''text''")
  case True
  with assms show ?thesis by (auto simp: tk2sd_item_def tk2sd_text_def split: if_splits)
next
  case False
  then obtain u where u: "Media x = Some u" "gc_text x = []" "\<not> node_specific_ref u"
    and k: "tk2sd_kind up u (tk2sd_role c k x) n = Inr (y, n')"
    using assms by (auto simp: tk2sd_item_def split: option.splits if_splits)
  from tk2sd_kind_out [OF k] False u k show ?thesis by (simp add: tk2sd_item_def)
qed

text \<open>An item as the client sent it, except that an absent role may have been filled in.\<close>

definition role_filled :: "GenerationContent \<Rightarrow> GenerationContent \<Rightarrow> bool" where
  "role_filled x y \<longleftrightarrow> y = x\<lparr>gc_role := gc_role y\<rparr> \<and> (gc_role x \<noteq> [] \<or> gc_type x = ''text'' \<longrightarrow> y = x)"

lemma tk2sd_item_filled:
  assumes "tk2sd_item up c k x n = Inr (y, n')"
  shows "role_filled x y"
proof (cases "gc_type x = ''text''")
  case True
  with assms show ?thesis by (auto simp: tk2sd_item_def tk2sd_text_def role_filled_def split: if_splits)
next
  case False
  then obtain u where "tk2sd_kind up u (tk2sd_role c k x) n = Inr (y, n')"
    using assms by (auto simp: tk2sd_item_def split: option.splits if_splits)
  from tk2sd_kind_out [OF this] False show ?thesis by (simp add: role_filled_def tk2sd_role_def)
qed

lemma scan_content_all2:
  assumes "\<And>x m y m'. f x m = Inr (y, m') \<Longrightarrow> P x y" and "scan_content f xs n = Inr (ys, n')"
  shows "list_all2 P xs ys"
  using assms(2) by (induction xs arbitrary: n ys) (auto dest: assms(1) split: sum.splits prod.splits)

lemma scan_content_types:
  assumes "\<And>x m y m'. f x m = Inr (y, m') \<Longrightarrow> gc_type y = gc_type x"
    and "scan_content f xs n = Inr (ys, n')"
  shows "map gc_type ys = map gc_type xs"
  using assms(2) by (induction xs arbitrary: n ys) (auto dest: assms(1) split: sum.splits prod.splits)

lemma media_items_types: "map gc_type ys = map gc_type xs \<Longrightarrow> media_items ys = media_items xs"
proof (induction ys arbitrary: xs)
  case (Cons y ys)
  then show ?case by (cases xs) (auto simp: media_items_def)
qed simp

lemma normalizeTK2SD_success:
  "normalizeTK2SD up r c = Inr got \<longleftrightarrow>
     (\<exists>content n. let r' = tk2sd_duration r; k = media_items (gr_content r') in
        tk2sd_request_error r' = None
        \<and> scan_content (tk2sd_item up c k) (gr_content r') no_content = Inr (content, n)
        \<and> tk2sd_count_error k n = None
        \<and> got = normalized (r'\<lparr>gr_content := content\<rparr>) (tk2sd_scenario k n) (n_prompt n) (n_images n) ProtocolTK2SD
        \<and> Accepts c (nr_requirements got))"
  by (auto simp: normalizeTK2SD_def Let_def split: option.splits sum.splits if_splits)

lemma normalizeTK2SD_idempotent:
  assumes "normalizeTK2SD up r c = Inr got"
  shows "normalizeTK2SD up (nr_request got) c = Inr got"
proof -
  define r' where "r' = tk2sd_duration r"
  define k where "k = media_items (gr_content r')"
  from assms obtain content n where ok: "tk2sd_request_error r' = None" "tk2sd_count_error k n = None"
    and scan: "scan_content (tk2sd_item up c k) (gr_content r') no_content = Inr (content, n)"
    and got: "got = normalized (r'\<lparr>gr_content := content\<rparr>) (tk2sd_scenario k n) (n_prompt n) (n_images n) ProtocolTK2SD"
    and acc: "Accepts c (nr_requirements got)"
    unfolding normalizeTK2SD_success Let_def r'_def [symmetric] k_def [symmetric] by blast
  have types: "map gc_type content = map gc_type (gr_content r')"
    by (rule scan_content_types [OF _ scan]) (simp add: tk2sd_item_out)
  then have k: "media_items content = k" unfolding k_def by (rule media_items_types)
  from types have len: "length content = length (gr_content r')" by (rule map_eq_imp_length_eq)
  have again: "scan_content (tk2sd_item up c k) content no_content = Inr (content, n)"
    by (rule scan_content_fixpoint [OF _ scan]) (simp add: tk2sd_item_out)
  define q where "q = r'\<lparr>gr_content := content\<rparr>"
  have q: "nr_request got = q" "gr_content q = content" by (simp_all add: got q_def)
  have e: "tk2sd_request_error q = None"
    using ok(1) len by (simp add: tk2sd_request_error_def q_def blank_callback_def split: if_splits)
  then have d: "tk2sd_duration q = q" by (simp add: tk2sd_request_error_def tk2sd_duration_def split: if_splits)
  have same: "q\<lparr>gr_content := content\<rparr> = q" by (simp add: q_def)
  have got': "got = normalized q (tk2sd_scenario k n) (n_prompt n) (n_images n) ProtocolTK2SD"
    by (simp only: got q_def)
  show ?thesis unfolding normalizeTK2SD_success Let_def q(1) d q(2) k
    using e again ok(2) acc got' by (intro exI [of _ content] exI [of _ n]) (simp only: same)
qed

lemma ValidateCreate_success:
  "ValidateCreate up r None = Inr v \<longleftrightarrow>
     (\<exists>content n. h3_request_error r = None
        \<and> scan_content (h3_item up) (gr_content r) no_content = Inr (content, n)
        \<and> h3_count_error n (gr_ratio r) = None
        \<and> v = \<lparr>va_request = r\<lparr>gr_content := content, gr_ratio := h3_ratio n (gr_ratio r)\<rparr>,
               va_scenario = h3_scenario n, va_prompt = n_prompt n, va_width = 0, va_height = 0,
               va_input_image_count = n_first n + n_last n + n_images n\<rparr>)"
  by (auto simp: ValidateCreate_def h3_finish_def h3_dimensions_def split: option.splits sum.splits)

lemma h3_ratio_idem: "h3_ratio n (h3_ratio n q) = h3_ratio n q"
  by (simp add: h3_ratio_def)

lemma h3_count_error_ratio: "h3_count_error n q = None \<Longrightarrow> h3_count_error n (h3_ratio n q) = None"
  by (auto simp: h3_count_error_def h3_ratio_idem split: if_splits) (simp_all add: h3_ratio_def split: if_splits)

lemma ValidateCreate_idempotent:
  assumes "ValidateCreate up r None = Inr v"
  shows "ValidateCreate up (va_request v) None = Inr v"
proof -
  obtain content n where ok: "h3_request_error r = None" "h3_count_error n (gr_ratio r) = None"
    and scan: "scan_content (h3_item up) (gr_content r) no_content = Inr (content, n)"
    and v: "v = \<lparr>va_request = r\<lparr>gr_content := content, gr_ratio := h3_ratio n (gr_ratio r)\<rparr>,
               va_scenario = h3_scenario n, va_prompt = n_prompt n, va_width = 0, va_height = 0,
               va_input_image_count = n_first n + n_last n + n_images n\<rparr>"
    using assms unfolding ValidateCreate_success by blast
  have "map gc_type content = map gc_type (gr_content r)"
    by (rule scan_content_types [OF _ scan]) (simp add: h3_item_out)
  then have len: "length content = length (gr_content r)" by (rule map_eq_imp_length_eq)
  have again: "scan_content (h3_item up) content no_content = Inr (content, n)"
    by (rule scan_content_fixpoint [OF _ scan]) (simp add: h3_item_out)
  have "h3_request_error (va_request v) = None"
    using ok(1) len by (simp add: v h3_request_error_def blank_callback_def split: if_splits)
  with again ok(2) show ?thesis unfolding ValidateCreate_success
    by (intro exI [of _ content] exI [of _ n]) (simp add: v h3_ratio_idem h3_count_error_ratio)
qed

lemma Normalize_direct_success:
  assumes "i \<noteq> ProtocolTK2SD"
  shows "Normalize up i r c = Inr got \<longleftrightarrow>
     Lookup i \<noteq> None \<and> ValidModelID (gr_model r) \<and> gr_resolution r \<noteq> []
     \<and> (i = ProtocolOfficial \<or> gr_model r = ''MiniMax-H3'')
     \<and> (\<exists>v. ValidateCreate up (r\<lparr>gr_model := ''MiniMax-H3''\<rparr>) None = Inr v
            \<and> got = normalized ((va_request v)\<lparr>gr_model := gr_model r\<rparr>) (va_scenario v) (va_prompt v)
                      (va_input_image_count v) i
            \<and> Accepts c (nr_requirements got))"
  using assms by (auto simp: Normalize_def Let_def split: sum.splits if_splits)

lemma Normalize_tk2sd_success:
  "Normalize up ProtocolTK2SD r c = Inr got \<longleftrightarrow>
     ValidModelID (gr_model r) \<and> normalizeTK2SD up r c = Inr got"
  using Lookup_Some_iff [of ProtocolTK2SD] by (auto simp: Normalize_def)

definition with_role :: "string \<Rightarrow> GenerationContent list \<Rightarrow> nat" where
  "with_role role xs = length (filter (\<lambda>i. gc_role i = role) xs)"

definition with_type :: "string \<Rightarrow> GenerationContent list \<Rightarrow> nat" where
  "with_type ty xs = length (filter (\<lambda>i. gc_type i = ty) xs)"

lemma with_role_simps [simp]:
  "with_role p [] = 0" "with_role p (xs @ ys) = with_role p xs + with_role p ys"
  "with_role p [x] = (if gc_role x = p then 1 else 0)"
  by (simp_all add: with_role_def)

lemma with_type_simps [simp]:
  "with_type p [] = 0" "with_type p (xs @ ys) = with_type p xs + with_type p ys"
  "with_type p [x] = (if gc_type x = p then 1 else 0)"
  by (simp_all add: with_type_def)

text \<open>What one accepted item looks like, and what it adds to the counters.\<close>

definition well_formed_item :: "GenerationContent \<Rightarrow> bool" where
  "well_formed_item x \<longleftrightarrow>
     (gc_type x = ''text'' \<and> gc_role x = [] \<and> trim_space (gc_text x) \<noteq> [] \<and> rune_count (gc_text x) \<le> 14000)
     \<or> (gc_type x = ''image_url'' \<and> gc_role x \<in> {''first_frame'', ''last_frame'', ''reference_image''} \<and> Media x \<noteq> None)
     \<or> (gc_type x = ''video_url'' \<and> gc_role x = ''reference_video'' \<and> Media x \<noteq> None)
     \<or> (gc_type x = ''audio_url'' \<and> gc_role x = ''reference_audio'' \<and> Media x \<noteq> None)"

definition counts :: "GenerationContent list \<Rightarrow> ContentCount \<Rightarrow> bool" where
  "counts xs n \<longleftrightarrow>
     n_text n = with_type ''text'' xs \<and> n_first n = with_role ''first_frame'' xs
     \<and> n_last n = with_role ''last_frame'' xs \<and> n_images n = with_role ''reference_image'' xs
     \<and> n_videos n = with_role ''reference_video'' xs \<and> n_audios n = with_role ''reference_audio'' xs"

lemma h3_text_counts:
  "h3_text x n = Inr (y, n') \<Longrightarrow> gc_type x = ''text'' \<Longrightarrow> counts xs n \<Longrightarrow> counts (xs @ [y]) n' \<and> well_formed_item y"
  by (clarsimp simp: h3_text_def counts_def well_formed_item_def split: if_splits)

lemma h3_image_role_counts:
  "h3_image_role x n = Inr (y, n') \<Longrightarrow> gc_type x = ''image_url'' \<Longrightarrow> gc_image_url x \<noteq> None \<Longrightarrow> counts xs n \<Longrightarrow>
     counts (xs @ [y]) n' \<and> well_formed_item y"
  by (auto simp: h3_image_role_def counts_def well_formed_item_def Media_def split: if_splits)

lemma h3_image_counts:
  "h3_image up x n = Inr (y, n') \<Longrightarrow> gc_type x = ''image_url'' \<Longrightarrow> counts xs n \<Longrightarrow>
     counts (xs @ [y]) n' \<and> well_formed_item y"
  by (simp add: h3_image_def split: option.splits if_splits)
    (simp_all add: h3_image_role_counts [where x = "x\<lparr>gc_role := ''first_frame''\<rparr>"] h3_image_role_counts [where x = x])

lemma h3_video_counts:
  "h3_video up x n = Inr (y, n') \<Longrightarrow> gc_type x = ''video_url'' \<Longrightarrow> counts xs n \<Longrightarrow>
     counts (xs @ [y]) n' \<and> well_formed_item y"
  by (clarsimp simp: h3_video_def counts_def well_formed_item_def Media_def split: if_splits option.splits)

lemma h3_audio_counts:
  "h3_audio up x n = Inr (y, n') \<Longrightarrow> gc_type x = ''audio_url'' \<Longrightarrow> counts xs n \<Longrightarrow>
     counts (xs @ [y]) n' \<and> well_formed_item y"
  by (clarsimp simp: h3_audio_def counts_def well_formed_item_def Media_def split: if_splits option.splits)

lemma h3_scan_counts:
  assumes "scan_content (h3_item up) xs no_content = Inr (ys, n)"
  shows "counts ys n \<and> list_all well_formed_item ys"
proof (rule scan_content_invariant [OF assms, where P = "\<lambda>_ ys n. counts ys n \<and> list_all well_formed_item ys"])
  show "counts [] no_content \<and> list_all well_formed_item []" by (simp add: counts_def no_content_def)
next
  fix us vs m x y m'
  assume "counts vs m \<and> list_all well_formed_item vs" and "h3_item up x m = Inr (y, m')"
  then show "counts (vs @ [y]) m' \<and> list_all well_formed_item (vs @ [y])"
    using h3_text_counts h3_image_counts h3_video_counts h3_audio_counts
    by (simp add: h3_item_def split: if_splits)
qed

definition tk2sd_counts :: "GenerationContent list \<Rightarrow> ContentCount \<Rightarrow> bool" where
  "tk2sd_counts xs n \<longleftrightarrow>
     n_text n = with_type ''text'' xs \<and> n_first n = with_role ''first_frame'' xs
     \<and> n_images n = with_type ''image_url'' xs
     \<and> n_videos n = with_type ''video_url'' xs \<and> n_audios n = with_type ''audio_url'' xs"

definition portable_item :: "GenerationContent \<Rightarrow> bool" where
  "portable_item x \<longleftrightarrow>
     well_formed_item x \<and> gc_role x \<noteq> ''last_frame''
     \<and> (case Media x of None \<Rightarrow> True | Some u \<Rightarrow> \<not> node_specific_ref u)"

lemma tk2sd_text_counts:
  "tk2sd_text x n = Inr (y, n') \<Longrightarrow> gc_type x = ''text'' \<Longrightarrow> tk2sd_counts xs n \<Longrightarrow>
     tk2sd_counts (xs @ [y]) n' \<and> portable_item y"
  by (clarsimp simp: tk2sd_text_def tk2sd_counts_def portable_item_def well_formed_item_def Media_def split: if_splits)

lemma tk2sd_kind_counts:
  "tk2sd_kind up u x n = Inr (y, n') \<Longrightarrow> Media x = Some u \<Longrightarrow> \<not> node_specific_ref u \<Longrightarrow> tk2sd_counts xs n \<Longrightarrow>
     tk2sd_counts (xs @ [y]) n' \<and> portable_item y"
  by (simp add: tk2sd_kind_def split: if_splits option.splits)
    (auto simp: tk2sd_counts_def portable_item_def well_formed_item_def)

lemma tk2sd_scan_counts:
  assumes "scan_content (tk2sd_item up c k) xs no_content = Inr (ys, n)"
  shows "tk2sd_counts ys n \<and> list_all portable_item ys"
proof (rule scan_content_invariant [OF assms, where P = "\<lambda>_ ys n. tk2sd_counts ys n \<and> list_all portable_item ys"])
  show "tk2sd_counts [] no_content \<and> list_all portable_item []" by (simp add: tk2sd_counts_def no_content_def)
next
  fix us vs m x y m'
  assume c: "tk2sd_counts vs m \<and> list_all portable_item vs" and i: "tk2sd_item up c k x m = Inr (y, m')"
  show "tk2sd_counts (vs @ [y]) m' \<and> list_all portable_item (vs @ [y])"
  proof (cases "gc_type x = ''text''")
    case True
    with i c tk2sd_text_counts show ?thesis by (simp add: tk2sd_item_def) blast
  next
    case False
    with i c tk2sd_kind_counts [where x = "tk2sd_role c k x"] show ?thesis
      by (simp add: tk2sd_item_def split: option.splits if_splits)
  qed
qed

text \<open>Evaluation on concrete requests.\<close>

lemmas protocol_eval = Normalize_def normalizeTK2SD_def ValidateCreate_def h3_request_error_def
  h3_finish_def h3_count_error_def h3_scenario_def h3_ratio_def h3_dimensions_def h3_item_def h3_text_def
  h3_image_def h3_image_role_def h3_video_def h3_audio_def validateImageSource_def plain_http_url_def
  validRatio_def no_content_def blank_callback_def tk2sd_duration_def tk2sd_request_error_def
  tk2sd_count_error_def tk2sd_scenario_def tk2sd_item_def tk2sd_text_def tk2sd_role_def tk2sd_kind_def
  node_specific_ref_def media_items_def Lookup_def Definitions_def Media_def HasMode_def
  BuiltinCapability_def builtin_durations_def Accepts_def Supports_def normalized_def media_source_def
  ValidModelID_def map_filter_simps protocol_defs

section \<open>Properties\<close>

definition sample_url_parse :: url_parser where
  "sample_url_parse v =
     (if has_prefix v ''https://'' then
        Some \<lparr>u_scheme = ''https'', u_host = fst (cut (trim_prefix v ''https://'') (CHR ''/'')),
              u_has_user = False, u_fragment = [], u_opaque = [], u_path = CHR ''/'' # fst (snd (cut (trim_prefix v ''https://'') (CHR ''/''))), u_raw_path = [], u_raw_query = []\<rparr>
      else None)"

definition sample_content :: "GenerationContent list" where
  "sample_content =
     [\<lparr>gc_type = ''text'', gc_text = ''a cat'', gc_image_url = None, gc_video_url = None,
       gc_audio_url = None, gc_role = []\<rparr>,
      \<lparr>gc_type = ''image_url'', gc_text = [], gc_image_url = Some ''https://a.example/x.png'',
       gc_video_url = None, gc_audio_url = None, gc_role = []\<rparr>]"

definition sample_request :: GenerationRequest where
  "sample_request =
     \<lparr>gr_model = ''MiniMax-H3'', gr_content = sample_content, gr_resolution = ''768P'', gr_duration = 5,
      gr_ratio = ''16:9'', gr_callback_url = None, gr_aigc_watermark = None, gr_duration_present = True\<rparr>"

definition sample_normalized :: GenerationRequest where
  "sample_normalized =
     sample_request\<lparr>gr_content :=
       [sample_content ! 0, (sample_content ! 1)\<lparr>gc_role := ''first_frame''\<rparr>]\<rparr>"

definition sample_outcome_tk2sd :: NormalizedRequest where
  "sample_outcome_tk2sd = normalized sample_normalized ''i2va'' ''a cat'' 1 ProtocolTK2SD"

definition sample_outcome_h3 :: NormalizedRequest where
  "sample_outcome_h3 =
     normalized (sample_normalized\<lparr>gr_ratio := ''adaptive''\<rparr>) ''i2va'' ''a cat'' 1 ProtocolH3"

lemmas sample_defs = sample_request_def sample_content_def sample_normalized_def sample_url_parse_def
  sample_outcome_tk2sd_def sample_outcome_h3_def

lemma sample_tk2sd:
  "Normalize sample_url_parse ProtocolTK2SD sample_request (BuiltinCapability ProtocolTK2SD)
     = Inr sample_outcome_tk2sd"
  by (simp add: protocol_eval text_eval sample_defs)

lemma sample_h3:
  "Normalize sample_url_parse ProtocolH3 sample_request (BuiltinCapability ProtocolH3)
     = Inr sample_outcome_h3"
  by (simp add: protocol_eval text_eval sample_defs)

text \<open>C22: A request the tk2sd normaliser accepts differs from the client's only in the duration
  (an absent one becomes 5) and in the roles of media sent without one: every other field of every item, and every given role, is the client's;
  it has one text and at most 9 images, 3 videos and 3
  audios, every item is well formed and no media is a reference only one node could resolve; the
  scenario is image-to-video exactly when a first frame is used, which is then the only media; and the
  capability accepts the requirements computed from it.\<close>

theorem Normalize_tk2sd_sound:
  assumes "Normalize up ProtocolTK2SD r c = Inr got"
  shows "let q = nr_request got; xs = gr_content q in
      q = r\<lparr>gr_content := xs, gr_duration := gr_duration q\<rparr>
    \<and> list_all2 role_filled (gr_content r) xs
    \<and> gr_duration q = (if gr_duration r = 0 \<and> \<not> gr_duration_present r then 5 else gr_duration r)
    \<and> gr_duration q > 0
    \<and> list_all portable_item xs
    \<and> with_type ''text'' xs = 1 \<and> with_type ''image_url'' xs \<le> 9
    \<and> with_type ''video_url'' xs \<le> 3 \<and> with_type ''audio_url'' xs \<le> 3
    \<and> (with_role ''first_frame'' xs > 0 \<longrightarrow> media_items xs = 1)
    \<and> nr_scenario got = (if with_role ''first_frame'' xs > 0 then ''i2va''
                          else if media_items xs > 0 then ''r2va'' else ''t2va'')
    \<and> Accepts c (nr_requirements got)"
proof -
  define r' where "r' = tk2sd_duration r"
  define k where "k = media_items (gr_content r')"
  from assms have "normalizeTK2SD up r c = Inr got" by (simp add: Normalize_tk2sd_success)
  then obtain content n where ok: "tk2sd_request_error r' = None" "tk2sd_count_error k n = None"
    and scan: "scan_content (tk2sd_item up c k) (gr_content r') no_content = Inr (content, n)"
    and got: "got = normalized (r'\<lparr>gr_content := content\<rparr>) (tk2sd_scenario k n) (n_prompt n) (n_images n) ProtocolTK2SD"
    and acc: "Accepts c (nr_requirements got)"
    unfolding normalizeTK2SD_success Let_def r'_def [symmetric] k_def [symmetric] by blast
  have types: "map gc_type content = map gc_type (gr_content r')"
    by (rule scan_content_types [OF _ scan]) (simp add: tk2sd_item_out)
  then have k: "media_items content = k" unfolding k_def by (rule media_items_types)
  have filled: "list_all2 role_filled (gr_content r') content"
    by (rule scan_content_all2 [OF tk2sd_item_filled scan])
  have n: "tk2sd_counts content n" "list_all portable_item content"
    using tk2sd_scan_counts [OF scan] by auto
  have q: "gr_content (nr_request got) = content" "nr_request got = r'\<lparr>gr_content := content\<rparr>" by (simp_all add: got)
  have d: "gr_duration r' > 0" using ok(1) by (simp add: tk2sd_request_error_def split: if_splits)
  show ?thesis unfolding Let_def q(1)
    using filled n ok(2) acc d k
    by (simp add: q(2) tk2sd_counts_def tk2sd_count_error_def got tk2sd_scenario_def split: if_splits)
      (auto simp: r'_def tk2sd_duration_def)
qed

text \<open>C23: A request accepted for H3, official or legacy nodes has one text, at most one first and one
  last frame, at most 9, 3 and 3 reference images, videos and audios, never frames and references
  together; scenario and ratio follow from the roles (frames force the adaptive ratio, text-only
  generation needs an explicit one); the image count covers every image.\<close>

theorem Normalize_direct_sound:
  assumes "Normalize up i r c = Inr got" and "i \<noteq> ProtocolTK2SD"
  shows "let q = nr_request got; xs = gr_content q;
             frames = with_role ''first_frame'' xs + with_role ''last_frame'' xs;
             references = with_role ''reference_image'' xs + with_role ''reference_video'' xs
                          + with_role ''reference_audio'' xs in
      q = r\<lparr>gr_content := xs, gr_ratio := gr_ratio q\<rparr>
    \<and> map gc_type xs = map gc_type (gr_content r)
    \<and> 4 \<le> gr_duration q \<and> gr_duration q \<le> 15
    \<and> list_all well_formed_item xs
    \<and> with_type ''text'' xs = 1
    \<and> with_role ''first_frame'' xs \<le> 1 \<and> with_role ''last_frame'' xs \<le> 1
    \<and> with_role ''reference_image'' xs \<le> 9 \<and> with_role ''reference_video'' xs \<le> 3
    \<and> with_role ''reference_audio'' xs \<le> 3
    \<and> (frames = 0 \<or> references = 0)
    \<and> nr_scenario got = (if frames > 0 then ''i2va'' else if references > 0 then ''r2va'' else ''t2va'')
    \<and> validRatio (gr_ratio q)
    \<and> (gr_ratio q = ''adaptive'' \<or> gr_ratio q = gr_ratio r)
    \<and> (nr_scenario got = ''i2va'' \<longrightarrow> gr_ratio q = ''adaptive'')
    \<and> (nr_scenario got = ''t2va'' \<longrightarrow> gr_ratio q \<noteq> ''adaptive'')
    \<and> nr_input_image_count got = int (with_role ''first_frame'' xs + with_role ''last_frame'' xs
                                      + with_role ''reference_image'' xs)
    \<and> Accepts c (nr_requirements got)"
proof -
  define r' where "r' = r\<lparr>gr_model := ''MiniMax-H3''\<rparr>"
  obtain v where v: "ValidateCreate up r' None = Inr v"
    and got: "got = normalized ((va_request v)\<lparr>gr_model := gr_model r\<rparr>) (va_scenario v) (va_prompt v)
                (va_input_image_count v) i"
    and acc: "Accepts c (nr_requirements got)"
    using assms by (auto simp: Normalize_direct_success r'_def)
  obtain content n where ok: "h3_request_error r' = None" "h3_count_error n (gr_ratio r) = None"
    and scan: "scan_content (h3_item up) (gr_content r) no_content = Inr (content, n)"
    and v': "v = \<lparr>va_request = r'\<lparr>gr_content := content, gr_ratio := h3_ratio n (gr_ratio r)\<rparr>,
               va_scenario = h3_scenario n, va_prompt = n_prompt n, va_width = 0, va_height = 0,
               va_input_image_count = n_first n + n_last n + n_images n\<rparr>"
    using v unfolding ValidateCreate_success by (auto simp: r'_def)
  have types: "map gc_type content = map gc_type (gr_content r)"
    by (rule scan_content_types [OF _ scan]) (simp add: h3_item_out)
  have n: "counts content n" "list_all well_formed_item content" using h3_scan_counts [OF scan] by auto
  have w: "with_type ''text'' content = n_text n" "with_role ''first_frame'' content = n_first n"
    "with_role ''last_frame'' content = n_last n" "with_role ''reference_image'' content = n_images n"
    "with_role ''reference_video'' content = n_videos n" "with_role ''reference_audio'' content = n_audios n"
    using n(1) by (simp_all add: counts_def)
  have q: "nr_request got = r\<lparr>gr_content := content, gr_ratio := h3_ratio n (gr_ratio r)\<rparr>"
    by (simp add: got v' r'_def)
  have d: "4 \<le> gr_duration r" "gr_duration r \<le> 15"
    using ok(1) by (simp_all add: h3_request_error_def r'_def split: if_splits)
  have s: "nr_scenario got = h3_scenario n" "nr_input_image_count got = int (n_first n + n_last n + n_images n)"
    by (simp_all add: got v')
  have c: "n_text n = 1" "n_first n \<le> 1" "n_last n \<le> 1" "n_images n \<le> 9" "n_videos n \<le> 3" "n_audios n \<le> 3"
    "n_first n + n_last n = 0 \<or> n_images n + n_videos n + n_audios n = 0"
    "h3_scenario n = ''t2va'' \<longrightarrow> gr_ratio r \<noteq> ''adaptive''" "validRatio (h3_ratio n (gr_ratio r))"
    using ok(2) by (auto simp: h3_count_error_def split: if_splits)
  show ?thesis unfolding Let_def q
    using types n(2) c acc d
    by (simp add: s w) (simp add: h3_scenario_def h3_ratio_def split: if_splits)
qed

text \<open>C24: Normalising an already normalised request changes nothing: a stored request can be put
  through the normaliser again (as binding a legacy task to a route does).\<close>

theorem Normalize_idempotent:
  assumes "Normalize up i r c = Inr got"
  shows "Normalize up i (nr_request got) c = Inr got"
proof (cases "i = ProtocolTK2SD")
  case True
  with assms have n: "ValidModelID (gr_model r)" "normalizeTK2SD up r c = Inr got"
    by (simp_all add: Normalize_tk2sd_success)
  have "gr_model (nr_request got) = gr_model r"
    using n(2) by (auto simp: normalizeTK2SD_success tk2sd_duration_def Let_def)
  with n True show ?thesis by (simp add: Normalize_tk2sd_success normalizeTK2SD_idempotent)
next
  case False
  note [simp] = Normalize_direct_success [OF False]
  from assms obtain v where v: "ValidateCreate up (r\<lparr>gr_model := ''MiniMax-H3''\<rparr>) None = Inr v"
    and req: "nr_request got = (va_request v)\<lparr>gr_model := gr_model r\<rparr>"
    by auto
  have m: "gr_model (va_request v) = ''MiniMax-H3''" "gr_resolution (va_request v) = gr_resolution r"
    using v by (auto simp: ValidateCreate_success h3_request_error_def split: if_splits)
  have restored: "(nr_request got)\<lparr>gr_model := ''MiniMax-H3''\<rparr> = va_request v"
    using m(1) by (simp add: req)
  have "(va_request v)\<lparr>gr_model := gr_model (nr_request got)\<rparr> = nr_request got" by (simp add: req)
  with assms v m have "got = normalized (nr_request got) (va_scenario v) (va_prompt v) (va_input_image_count v) i
      \<and> Accepts c (nr_requirements got)" by (auto simp: req)
  with assms ValidateCreate_idempotent [OF v] m show ?thesis
    by (simp add: restored) (auto simp: req)
qed



theorem Normalize_tk2sd_sound_witness:
  "nr_scenario sample_outcome_tk2sd = ''i2va'' \<and> media_items (gr_content (nr_request sample_outcome_tk2sd)) = 1"
proof -
  have "with_role ''first_frame'' (gr_content (nr_request sample_outcome_tk2sd)) = 1"
    by (simp add: sample_defs with_role_def)
  with Normalize_tk2sd_sound [OF sample_tk2sd] show ?thesis by (simp add: Let_def)
qed

theorem Normalize_direct_sound_witness:
  "gr_ratio (nr_request sample_outcome_h3) = ''adaptive''"
proof -
  have "with_role ''first_frame'' (gr_content (nr_request sample_outcome_h3)) = 1"
    by (simp add: sample_defs with_role_def)
  with Normalize_direct_sound [OF sample_h3] show ?thesis by (simp add: Let_def protocol_defs)
qed

theorem Normalize_idempotent_witness:
  "Normalize sample_url_parse ProtocolTK2SD (nr_request sample_outcome_tk2sd)
     (BuiltinCapability ProtocolTK2SD) = Inr sample_outcome_tk2sd"
  by (rule Normalize_idempotent [OF sample_tk2sd])

end
