(* ===== verification/NodeStore.thy ===== *)
theory NodeStore
  imports Schema Protocols
begin

text \<open>
  \<^verbatim>\<open>model_catalog_store.go\<close>, \<^verbatim>\<open>model_route_store.go\<close> and \<^verbatim>\<open>model_node.go\<close>: the
  model catalogs of the nodes, the protocol each model is routed to, and the node
  configuration with the guards that protect nodes in use. Every change of what can be routed
  bumps the routing revision, which optimistic clients compare.
\<close>

section \<open>Catalogs\<close>

definition node_models_of :: "db \<Rightarrow> string \<Rightarrow> node_model list" where
  "node_models_of d nodeID = sort_key nm_model_id (filter (\<lambda>m. nm_node_id m = nodeID) (node_models d))"

fun scan_models :: "node_model list \<Rightarrow> err + NodeModel list" where
  "scan_models [] = Inr []"
| "scan_models (m # ms) =
     (case nm_capabilities m of
        None \<Rightarrow> Inl (ErrText ''capabilities_json'')
      | Some c \<Rightarrow>
          (case scan_models ms of
             Inl e \<Rightarrow> Inl e
           | Inr rest \<Rightarrow>
               Inr (\<lparr>md_model_id = nm_model_id m, md_enabled = nm_enabled m, md_present = nm_present m,
                     md_verified = nm_verified m, md_capabilities = c\<rparr> # rest)))"

definition catalogWith :: "string \<Rightarrow> db \<Rightarrow> err + ModelCatalog" where
  "catalogWith nodeID d =
     (case select_where (\<lambda>c. mc_node_id c = nodeID) (node_model_catalogs d) of
        None \<Rightarrow> Inl ErrNodeNotFound
      | Some c \<Rightarrow>
          (case scan_models (node_models_of d nodeID) of
             Inl e \<Rightarrow> Inl e
           | Inr items \<Rightarrow>
               Inr \<lparr>cg_node_id = nodeID, cg_source = mc_source c, cg_revision = mc_revision c,
                    cg_status = mc_last_status c, cg_fingerprint = mc_connection_fingerprint c,
                    cg_last_attempt_at = coalesce (mc_last_attempt_at c) 0,
                    cg_last_success_at = coalesce (mc_last_success_at c) 0,
                    cg_valid_until = coalesce (mc_valid_until c) 0,
                    cg_last_error_code = mc_last_error_code c, cg_items = items\<rparr>))"

text \<open>A read that may fail, as a step of a transaction.\<close>

definition reading :: "(db \<Rightarrow> err + 'a) \<Rightarrow> 'a op" where
  "reading f = (\<lambda>d. (f d, d))"

lemma reading_apply [simp, tx_simps]: "reading f d = (f d, d)"
  by (simp add: reading_def)

definition GetModelCatalog :: "string \<Rightarrow> ModelCatalog op" where
  "GetModelCatalog nodeID = reading (catalogWith nodeID)"

record ModelNodeInput =
  in_ServiceURL :: string
  in_ProtocolVersion :: string
  in_APIKeyCiphertext :: string
  in_APIKeyNonce :: string
  in_APIKeyFingerprint :: string
  in_UpstreamModel :: string
  in_MaxConcurrency :: int
  in_ReplaceResultURL :: bool
  in_LegacyModelCompat :: bool
  in_ModelCatalog :: "ModelCatalog option"
  in_ID :: string
  in_BaseURL :: string
  in_JobsBaseURL :: string
  in_PublicBaseURL :: string
  in_HealthPath :: string
  in_SubmitAPIName :: string
  in_CheckAPIName :: string
  in_PollInterval :: int
  in_RequestTimeout :: int
  in_Enabled :: bool

record ModelNode = ModelNodeInput +
  no_Version :: int
  no_CreatedAt :: int
  no_UpdatedAt :: int

definition UsesNodeAPI :: "'a ModelNodeInput_scheme \<Rightarrow> bool" where
  "UsesNodeAPI n \<longleftrightarrow> in_ProtocolVersion n = ''h3-node-v1''"

definition UsesOfficialV2 :: "'a ModelNodeInput_scheme \<Rightarrow> bool" where
  "UsesOfficialV2 n \<longleftrightarrow> in_ProtocolVersion n = ''minimax-v2''"

definition CatalogFingerprint :: "StoreEnv \<Rightarrow> 'a ModelNodeInput_scheme \<Rightarrow> string" where
  "CatalogFingerprint e n =
     sha256_hex e (in_ProtocolVersion n @ [CHR 0x00] @ in_ServiceURL n @ [CHR 0x00] @ in_APIKeyFingerprint n)"

definition catalogHasEnabled :: "ModelCatalog \<Rightarrow> int \<Rightarrow> bool" where
  "catalogHasEnabled c now =
     (if cg_source c = ''discovered'' \<and> (cg_last_success_at c = 0 \<or> cg_valid_until c \<le> now) then False
      else list_ex (\<lambda>m. md_enabled m \<and> md_present m) (cg_items c))"

fun validate_items :: "string list \<Rightarrow> NodeModel list \<Rightarrow> err option" where
  "validate_items seen [] = None"
| "validate_items seen (m # ms) =
     (if \<not> ValidModelID (md_model_id m) \<or> md_model_id m \<in> set seen then Some (ErrText ''model id'')
      else if ca_modes (md_capabilities m) = [] then Some (ErrText ''capability'')
      else validate_items (md_model_id m # seen) ms)"

definition validateCatalogItems :: "NodeModel list \<Rightarrow> err option" where
  "validateCatalogItems items = validate_items [] items"

definition node_model_row :: "string \<Rightarrow> NodeModel \<Rightarrow> node_model" where
  "node_model_row nodeID m =
     \<lparr>nm_node_id = nodeID, nm_model_id = md_model_id m, nm_enabled = md_enabled m, nm_present = md_present m,
      nm_capabilities = Some (md_capabilities m), nm_verified = md_verified m\<rparr>"

definition writeNodeModel :: "string \<Rightarrow> NodeModel \<Rightarrow> unit op" where
  "writeNodeModel nodeID m =
     modify (node_models_update
       (upsert (\<lambda>r. nm_node_id r = nodeID \<and> nm_model_id r = md_model_id m)
          (\<lambda>r. r\<lparr>nm_enabled := md_enabled m, nm_present := md_present m,
                 nm_capabilities := Some (md_capabilities m), nm_verified := md_verified m\<rparr>)
          (node_model_row nodeID m)))"

definition bumpRouting :: "unit op" where
  "bumpRouting = modify (routing_revision_update (\<lambda>n. n + 1))"

text \<open>The enabled nodes that offer a model: the join the route queries use.\<close>

definition offers :: "db \<Rightarrow> string \<Rightarrow> model_node \<Rightarrow> bool" where
  "offers d model n \<longleftrightarrow>
     mn_enabled n \<and> mn_deleted_at n = None
     \<and> list_ex (\<lambda>m. nm_node_id m = mn_id n \<and> nm_model_id m = model \<and> nm_enabled m \<and> nm_present m) (node_models d)"

definition offering_nodes :: "db \<Rightarrow> string \<Rightarrow> model_node list" where
  "offering_nodes d model = filter (offers d model) (model_service_nodes d)"

definition model_protocols :: "db \<Rightarrow> string \<Rightarrow> string list" where
  "model_protocols d model = remdups (map mn_protocol_version (offering_nodes d model))"

definition new_route :: "db \<Rightarrow> string \<Rightarrow> model_route" where
  "new_route d model =
     (let ps = model_protocols d model
      in \<lparr>mr_model_id = model, mr_protocol_version = (if length ps = 1 then Some (hd ps) else None),
          mr_selection_mode = (if length ps = 1 then ''auto'' else ''unresolved''), mr_version = 1,
          mr_updated_by = ''system''\<rparr>)"

definition routable_models :: "db \<Rightarrow> string list" where
  "routable_models d =
     remdups (sort (map nm_model_id (filter (\<lambda>m. offering_nodes d (nm_model_id m) \<noteq> []) (node_models d))))"

definition syncModelRoutes :: "unit op" where
  "syncModelRoutes =
     modify (\<lambda>d. model_routes_update
       (\<lambda>rows. rows @ map (new_route d)
          (filter (\<lambda>m. \<not> exists_where (\<lambda>r. mr_model_id r = m) rows) (routable_models d))) d)"

text \<open>
  The catalog \<open>writeNodeCatalog\<close> stores: the submitted one, with the newer of the two success
  and attempt records when the connection is unchanged, or the protocol's default.
\<close>

definition merged_catalog :: "ModelCatalog option \<Rightarrow> string \<Rightarrow> ModelCatalog \<Rightarrow> err + ModelCatalog" where
  "merged_catalog old fingerprint c =
     (case old of
        None \<Rightarrow> Inr c
      | Some o' \<Rightarrow>
          if cg_revision c \<noteq> cg_revision o' then Inl ErrCatalogConflict
          else if cg_source c = ''discovered'' \<and> cg_fingerprint o' = fingerprint then
            (let c1 = (if cg_last_success_at o' > cg_last_success_at c
                       then c\<lparr>cg_last_success_at := cg_last_success_at o', cg_valid_until := cg_valid_until o'\<rparr>
                       else c)
             in Inr (if cg_last_attempt_at o' > cg_last_attempt_at c1
                     then c1\<lparr>cg_last_attempt_at := cg_last_attempt_at o', cg_status := cg_status o',
                             cg_last_error_code := cg_last_error_code o'\<rparr>
                     else c1))
          else Inr c)"

definition default_catalog :: "string \<Rightarrow> int \<Rightarrow> err + ModelCatalog" where
  "default_catalog protocol now =
     (case Lookup protocol of
        None \<Rightarrow> Inl (ErrText ''protocol'')
      | Some def \<Rightarrow>
          (let c = \<lparr>cg_node_id = [], cg_source = de_ModelSource def, cg_revision = 0, cg_status = ''ready'',
                    cg_fingerprint = [], cg_last_attempt_at = 0, cg_last_success_at = now, cg_valid_until = 0,
                    cg_last_error_code = [], cg_items = []\<rparr>
           in Inr (if de_ModelSource def = ''discovered''
                   then c\<lparr>cg_status := ''uninitialized'', cg_last_success_at := 0\<rparr>
                   else c\<lparr>cg_items :=
                     [\<lparr>md_model_id = ''MiniMax-H3'', md_enabled = True, md_present = True,
                       md_verified = (de_ModelSource def = ''builtin''),
                       md_capabilities = BuiltinCapability protocol\<rparr>]\<rparr>)))"

definition catalog_row :: "string \<Rightarrow> int \<Rightarrow> string \<Rightarrow> ModelCatalog \<Rightarrow> node_catalog" where
  "catalog_row nodeID revision fingerprint c =
     \<lparr>mc_node_id = nodeID, mc_source = cg_source c, mc_revision = revision,
      mc_connection_fingerprint = fingerprint, mc_last_status = cg_status c,
      mc_last_attempt_at = nullif_zero (cg_last_attempt_at c),
      mc_last_success_at = nullif_zero (cg_last_success_at c),
      mc_valid_until = nullif_zero (cg_valid_until c), mc_last_error_code = cg_last_error_code c\<rparr>"

definition optional_catalog :: "string \<Rightarrow> db \<Rightarrow> err + ModelCatalog option" where
  "optional_catalog nodeID d =
     (case catalogWith nodeID d of
        Inr c \<Rightarrow> Inr (Some c)
      | Inl ErrNodeNotFound \<Rightarrow> Inr None
      | Inl e \<Rightarrow> Inl e)"

definition replace_models :: "string \<Rightarrow> NodeModel list \<Rightarrow> unit op" where
  "replace_models nodeID items =
     and_then (exec_update node_models node_models_update (\<lambda>m. nm_node_id m = nodeID) (\<lambda>m. m\<lparr>nm_present := False\<rparr>))
       (\<lambda>_. for_each (writeNodeModel nodeID) items)"

definition store_catalog :: "StoreEnv \<Rightarrow> 'a ModelNodeInput_scheme \<Rightarrow> int \<Rightarrow> ModelCatalog option \<Rightarrow> ModelCatalog \<Rightarrow> unit op" where
  "store_catalog e n now old c =
     (if length (cg_items c) > 256 then raise (ErrText ''too many models'')
      else case validateCatalogItems (cg_items c) of
        Some err \<Rightarrow> raise err
      | None \<Rightarrow>
          if in_Enabled n \<and> \<not> catalogHasEnabled c now then raise ErrRouteUnavailable
          else
            (let revision = (case old of None \<Rightarrow> 1 | Some o' \<Rightarrow> cg_revision o' + 1);
                 row = catalog_row (in_ID n) revision (CatalogFingerprint e n) c
             in and_then (modify (node_model_catalogs_update
                   (upsert (\<lambda>r. mc_node_id r = in_ID n) (\<lambda>_. row) row)))
                (\<lambda>_. and_then (replace_models (in_ID n) (cg_items c))
                (\<lambda>_. and_then syncModelRoutes (\<lambda>_. bumpRouting)))))"

definition writeNodeCatalog :: "StoreEnv \<Rightarrow> 'a ModelNodeInput_scheme \<Rightarrow> int \<Rightarrow> unit op" where
  "writeNodeCatalog e n now =
     and_then (reading (optional_catalog (in_ID n))) (\<lambda>old.
       case (in_ModelCatalog n, old) of
         (None, Some o') \<Rightarrow>
           if cg_fingerprint o' = CatalogFingerprint e n then
             (if in_Enabled n \<and> \<not> catalogHasEnabled o' now then raise ErrRouteUnavailable
              else and_then syncModelRoutes (\<lambda>_. bumpRouting))
           else
             (case default_catalog (in_ProtocolVersion n) now of
                Inl err \<Rightarrow> raise err | Inr c \<Rightarrow> store_catalog e n now old c)
       | (None, None) \<Rightarrow>
           (case default_catalog (in_ProtocolVersion n) now of
              Inl err \<Rightarrow> raise err | Inr c \<Rightarrow> store_catalog e n now old c)
       | (Some c0, _) \<Rightarrow>
           (case merged_catalog old (CatalogFingerprint e n) c0 of
              Inl err \<Rightarrow> raise err | Inr c \<Rightarrow> store_catalog e n now old c))"

section \<open>Routes\<close>

text \<open>
  Consecutive rows with one protocol form one candidate; the query is ordered by protocol and
  node.
\<close>

fun group_candidates :: "(string \<times> string) list \<Rightarrow> RouteCandidate list \<Rightarrow> RouteCandidate list" where
  "group_candidates [] acc = acc"
| "group_candidates ((p, i) # rest) acc =
     (let acc' = (if acc = [] \<or> rc_protocol_version (last acc) \<noteq> p
                  then acc @ [\<lparr>rc_protocol_version = p, rc_node_ids = []\<rparr>] else acc);
          l = last acc'
      in group_candidates rest (butlast acc' @ [l\<lparr>rc_node_ids := rc_node_ids l @ [i]\<rparr>]))"

definition candidate_rows :: "db \<Rightarrow> string \<Rightarrow> (string \<times> string) list" where
  "candidate_rows d model =
     map (\<lambda>n. (mn_protocol_version n, mn_id n))
       (sort_key mn_protocol_version (sort_key mn_id (offering_nodes d model)))"

fun route_state :: "string \<Rightarrow> string \<Rightarrow> RouteCandidate list \<Rightarrow> string \<Rightarrow> string" where
  "route_state protocol mode [] st = st"
| "route_state protocol mode (c # cs) st =
     (let st1 = (if rc_protocol_version c = protocol \<and> st \<noteq> ''ambiguous'' then ''ready'' else st);
          st2 = (if mode \<noteq> ''manual'' \<and> rc_protocol_version c \<noteq> protocol then ''ambiguous'' else st1)
      in route_state protocol mode cs st2)"

definition routeWith :: "string \<Rightarrow> db \<Rightarrow> err + ModelRoute \<times> int" where
  "routeWith model d =
     (case select_where (\<lambda>r. mr_model_id r = model) (model_routes d) of
        None \<Rightarrow> Inl ErrUnsupportedModel
      | Some r \<Rightarrow>
          (let protocol = coalesce (mr_protocol_version r) [];
               cands = group_candidates (candidate_rows d model) [];
               st = route_state protocol (mr_selection_mode r) cands
                      (if protocol = [] then ''ambiguous'' else ''unavailable'')
           in Inr (\<lparr>ro_model = model, ro_protocol_version = protocol, ro_selection_mode = mr_selection_mode r,
                    ro_version = mr_version r, ro_state = st,
                    ro_wait_reason = (if st = ''ambiguous'' then ''multiple_protocols''
                                      else if st = ''unavailable'' then ''no_protocol_nodes'' else []),
                    ro_candidates = cands,
                    ro_legacy_awaiting_tasks =
                      int (affected (\<lambda>t. vt_model t = model \<and> vt_route_state t = RouteAwaiting
                             \<and> vt_deleted_at t = None \<and> queued (vt_status t)) (video_tasks d))\<rparr>,
                   routing_revision d)))"

definition GetModelRoute :: "string \<Rightarrow> (ModelRoute \<times> int) op" where
  "GetModelRoute model = reading (routeWith model)"

fun routes_of :: "db \<Rightarrow> string list \<Rightarrow> err + ModelRoute list" where
  "routes_of d [] = Inr []"
| "routes_of d (m # ms) =
     (case routeWith m d of
        Inl e \<Rightarrow> Inl e
      | Inr (r, _) \<Rightarrow> (case routes_of d ms of Inl e \<Rightarrow> Inl e | Inr rs \<Rightarrow> Inr (r # rs)))"

definition ListModelRoutes :: "(ModelRoute list \<times> int) op" where
  "ListModelRoutes =
     reading (\<lambda>d. case routes_of d (sort (map mr_model_id (model_routes d))) of
        Inl e \<Rightarrow> Inl e | Inr rs \<Rightarrow> Inr (rs, routing_revision d))"

definition has_candidate :: "string \<Rightarrow> ModelRoute \<Rightarrow> bool" where
  "has_candidate protocol r = list_ex (\<lambda>c. rc_protocol_version c = protocol) (ro_candidates r)"

definition BindModelRoute ::
  "StoreEnv \<Rightarrow> string \<Rightarrow> string \<Rightarrow> string \<Rightarrow> int \<Rightarrow> int \<Rightarrow> (ModelRoute \<times> int) op" where
  "BindModelRoute e model protocol admin version revision = atomically
     (and_then (reading (routeWith model)) (\<lambda>(r, current).
      and_then (ensure (ro_version r = version \<and> current = revision) ErrRouteChanged) (\<lambda>_.
      and_then (ensure (has_candidate protocol r) ErrRouteUnavailable) (\<lambda>_.
      and_then (exec_update model_routes model_routes_update (\<lambda>x. mr_model_id x = model)
                  (\<lambda>x. x\<lparr>mr_protocol_version := Some protocol, mr_selection_mode := ''manual'',
                         mr_version := mr_version x + 1, mr_updated_by := admin\<rparr>)) (\<lambda>_.
      and_then bumpRouting (\<lambda>_. reading (routeWith model)))))))"

section \<open>Catalog refresh\<close>

definition duration_ms :: "int \<Rightarrow> int" where
  "duration_ms ns = ns div 1000000"

definition scanModelNode :: "model_node \<Rightarrow> ModelNode" where
  "scanModelNode r =
     \<lparr>in_ServiceURL = mn_service_url r, in_ProtocolVersion = mn_protocol_version r,
      in_APIKeyCiphertext = coalesce (mn_api_key_ciphertext r) [],
      in_APIKeyNonce = coalesce (mn_api_key_nonce r) [],
      in_APIKeyFingerprint = coalesce (mn_api_key_fingerprint r) [],
      in_UpstreamModel = mn_upstream_model r, in_MaxConcurrency = mn_max_concurrency r,
      in_ReplaceResultURL = mn_replace_result_url r, in_LegacyModelCompat = mn_legacy_model_compat r,
      in_ModelCatalog = None, in_ID = mn_id r, in_BaseURL = mn_base_url r,
      in_JobsBaseURL = mn_jobs_base_url r, in_PublicBaseURL = mn_public_base_url r,
      in_HealthPath = mn_health_path r, in_SubmitAPIName = mn_submit_api_name r,
      in_CheckAPIName = mn_check_api_name r, in_PollInterval = mn_poll_interval_ms r * 1000000,
      in_RequestTimeout = mn_request_timeout_ms r * 1000000, in_Enabled = mn_enabled r,
      no_Version = mn_version r, no_CreatedAt = mn_created_at r, no_UpdatedAt = mn_updated_at r\<rparr>"

definition node_with :: "string \<Rightarrow> db \<Rightarrow> model_node option" where
  "node_with i d = select_where (\<lambda>n. mn_id n = i \<and> mn_deleted_at n = None) (model_service_nodes d)"

definition find_node :: "err \<Rightarrow> string \<Rightarrow> db \<Rightarrow> err + ModelNode" where
  "find_node missing i d = (case node_with i d of None \<Rightarrow> Inl missing | Some n \<Rightarrow> Inr (scanModelNode n))"

definition refreshed_item :: "NodeModel list \<Rightarrow> NodeModel \<Rightarrow> NodeModel" where
  "refreshed_item previous m =
     m\<lparr>md_present := True, md_verified := True,
       md_enabled := (case find (\<lambda>p. md_model_id p = md_model_id m) previous of None \<Rightarrow> False | Some p \<Rightarrow> md_enabled p)\<rparr>"

text \<open>The comparison of the two JSON texts is the comparison of the values.\<close>

definition catalog_changed :: "NodeModel list \<Rightarrow> NodeModel list \<Rightarrow> bool" where
  "catalog_changed previous items \<longleftrightarrow>
     list_ex (\<lambda>m. find (\<lambda>p. md_model_id p = md_model_id m) previous \<noteq> Some m) items
     \<or> list_ex (\<lambda>p. md_present p \<and> \<not> list_ex (\<lambda>m. md_model_id m = md_model_id p) items) previous"

abbreviation update_catalog where
  "update_catalog nodeID f \<equiv>
     exec_update node_model_catalogs node_model_catalogs_update (\<lambda>c. mc_node_id c = nodeID) f"

definition RefreshModelCatalog ::
  "StoreEnv \<Rightarrow> string \<Rightarrow> int \<Rightarrow> int \<Rightarrow> NodeModel list \<Rightarrow> string \<Rightarrow> ModelCatalog op" where
  "RefreshModelCatalog e nodeID nodeVersion catalogRevision given errorCode =
     (if length given > 256 then raise (ErrText ''catalog too large'')
      else case (if errorCode = [] then validateCatalogItems given else None) of
        Some err \<Rightarrow> raise err
      | None \<Rightarrow> atomically
          (and_then (reading (find_node (ErrSQL ''no rows'') nodeID)) (\<lambda>node.
           and_then (ensure (no_Version node = nodeVersion) ErrNodeVersionConflict) (\<lambda>_.
           and_then (reading (catalogWith nodeID)) (\<lambda>old.
           and_then (ensure (cg_revision old = catalogRevision \<and> cg_fingerprint old = CatalogFingerprint e node)
                       ErrCatalogConflict) (\<lambda>_.
           and_then (ensure (cg_source old = ''discovered'') (ErrText ''no discovery'')) (\<lambda>_.
           if errorCode \<noteq> [] then
             and_then (update_catalog nodeID (\<lambda>c. c\<lparr>mc_last_status := ''error'',
                         mc_last_attempt_at := Some (nowUnix e), mc_last_error_code := errorCode\<rparr>))
               (\<lambda>_. reading (catalogWith nodeID))
           else
             (let items = map (refreshed_item (cg_items old)) given;
                  changed = catalog_changed (cg_items old) items;
                  revision = (if changed then cg_revision old + 1 else cg_revision old)
              in and_then (update_catalog nodeID (\<lambda>c. c\<lparr>mc_revision := revision,
                    mc_last_status := (if items = [] then ''empty'' else ''ready''),
                    mc_last_attempt_at := Some (nowUnix e), mc_last_success_at := Some (nowUnix e),
                    mc_valid_until := Some (nowUnix e + 1800), mc_last_error_code := []\<rparr>)) (\<lambda>_.
                 and_then (replace_models nodeID items) (\<lambda>_.
                 and_then (if changed then and_then syncModelRoutes (\<lambda>_. bumpRouting) else ret ()) (\<lambda>_.
                 reading (catalogWith nodeID))))))))))))"

section \<open>Nodes\<close>

definition ListModelNodes :: "ModelNode list op" where
  "ListModelNodes =
     gets (\<lambda>d. map scanModelNode
       (sort_key mn_id (filter (\<lambda>n. mn_deleted_at n = None) (model_service_nodes d))))"

definition GetModelNode :: "string \<Rightarrow> ModelNode op" where
  "GetModelNode i = reading (find_node ErrNodeNotFound i)"

definition nodePersistenceValues :: "'a ModelNodeInput_scheme \<Rightarrow> model_node \<Rightarrow> model_node" where
  "nodePersistenceValues n r =
     (if UsesNodeAPI n \<or> UsesOfficialV2 n \<or> in_ProtocolVersion n = ProtocolTK2SD then
        (let healthPath = (if UsesOfficialV2 n then ''/v2/query/video_generation'' else ''/internal/v1/health'');
             apiName = (if UsesOfficialV2 n then ''minimax_v2'' else ''node_v1'')
         in r\<lparr>mn_service_url := in_ServiceURL n, mn_protocol_version := in_ProtocolVersion n,
              mn_api_key_ciphertext := Some (in_APIKeyCiphertext n), mn_api_key_nonce := Some (in_APIKeyNonce n),
              mn_api_key_fingerprint := Some (in_APIKeyFingerprint n), mn_api_key_id := Some [],
              mn_base_url := in_ServiceURL n, mn_jobs_base_url := in_ServiceURL n,
              mn_public_base_url := in_ServiceURL n, mn_health_path := healthPath,
              mn_submit_api_name := apiName, mn_check_api_name := apiName,
              mn_upstream_model := in_UpstreamModel n,
              mn_max_concurrency := (if UsesNodeAPI n \<or> in_MaxConcurrency n = 0 then 1 else in_MaxConcurrency n),
              mn_replace_result_url := in_ReplaceResultURL n\<rparr>)
      else
        r\<lparr>mn_service_url := in_BaseURL n, mn_protocol_version := ''legacy-gradio-v1'',
          mn_api_key_ciphertext := None, mn_api_key_nonce := None, mn_api_key_fingerprint := None,
          mn_api_key_id := None, mn_base_url := in_BaseURL n, mn_jobs_base_url := in_JobsBaseURL n,
          mn_public_base_url := in_PublicBaseURL n, mn_health_path := in_HealthPath n,
          mn_submit_api_name := in_SubmitAPIName n, mn_check_api_name := in_CheckAPIName n,
          mn_upstream_model := [], mn_max_concurrency := 1, mn_replace_result_url := False\<rparr>)"

definition configured_row :: "'a ModelNodeInput_scheme \<Rightarrow> int \<Rightarrow> model_node \<Rightarrow> model_node" where
  "configured_row n now r =
     (nodePersistenceValues n r)\<lparr>mn_poll_interval_ms := duration_ms (in_PollInterval n),
        mn_request_timeout_ms := duration_ms (in_RequestTimeout n), mn_enabled := in_Enabled n,
        mn_updated_at := now\<rparr>"

text \<open>The CHECK constraints of the table and its partial unique index on the service URL.\<close>

definition node_row_ok :: "model_node \<Rightarrow> bool" where
  "node_row_ok r \<longleftrightarrow>
     1 \<le> rune_count (mn_id r) \<and> rune_count (mn_id r) \<le> 64 \<and> mn_service_url r \<noteq> []
     \<and> 1 \<le> rune_count (mn_health_path r) \<and> rune_count (mn_health_path r) \<le> 256
     \<and> 1000 \<le> mn_poll_interval_ms r \<and> mn_poll_interval_ms r \<le> 300000
     \<and> 1000 \<le> mn_request_timeout_ms r \<and> mn_request_timeout_ms r \<le> 300000
     \<and> 1 \<le> mn_max_concurrency r \<and> mn_max_concurrency r \<le> 100"

definition url_taken :: "model_node \<Rightarrow> model_node list \<Rightarrow> bool" where
  "url_taken r rows \<longleftrightarrow>
     mn_deleted_at r = None \<and> mn_protocol_version r \<noteq> ProtocolLegacy
     \<and> list_ex (\<lambda>x. mn_id x \<noteq> mn_id r \<and> mn_deleted_at x = None \<and> mn_protocol_version x \<noteq> ProtocolLegacy
                    \<and> mn_service_url x = mn_service_url r) rows"

definition blank_node :: "string \<Rightarrow> int \<Rightarrow> model_node" where
  "blank_node i now =
     \<lparr>mn_id = i, mn_service_url = [], mn_protocol_version = [], mn_api_key_ciphertext = None,
      mn_api_key_nonce = None, mn_api_key_fingerprint = None, mn_api_key_id = None, mn_base_url = [],
      mn_jobs_base_url = [], mn_public_base_url = [], mn_health_path = [], mn_submit_api_name = [],
      mn_check_api_name = [], mn_poll_interval_ms = 0, mn_request_timeout_ms = 0, mn_enabled = False,
      mn_upstream_model = [], mn_max_concurrency = 1, mn_replace_result_url = False,
      mn_legacy_model_compat = False, mn_version = 1, mn_created_at = now, mn_updated_at = now,
      mn_deleted_at = None\<rparr>"

definition insert_node :: "StoreEnv \<Rightarrow> 'a ModelNodeInput_scheme \<Rightarrow> int \<Rightarrow> unit op" where
  "insert_node e n now =
     (let r = configured_row n now (blank_node (in_ID n) now)
      in and_then (ensuring (\<lambda>d. node_row_ok r \<and> \<not> url_taken r (model_service_nodes d)
                       \<and> \<not> exists_where (\<lambda>x. mn_id x = mn_id r) (model_service_nodes d)) (ErrSQL ''constraint''))
         (\<lambda>_. and_then (exec_insert model_service_nodes_update r)
         (\<lambda>_. writeNodeCatalog e (n\<lparr>in_ProtocolVersion := mn_protocol_version r, in_ServiceURL := mn_service_url r\<rparr>) now)))"

definition CreateModelNode :: "StoreEnv \<Rightarrow> ModelNodeInput \<Rightarrow> ModelNode op" where
  "CreateModelNode e n = atomically
     (and_then (ensuring (\<lambda>d. \<not> exists_where (\<lambda>x. mn_id x = in_ID n) (model_service_nodes d)) ErrNodeIDConflict) (\<lambda>_.
      and_then (insert_node e n (nowUnix e)) (\<lambda>_.
      reading (find_node (ErrSQL ''no rows'') (in_ID n)))))"

definition activeTaskCount :: "string \<Rightarrow> db \<Rightarrow> nat" where
  "activeTaskCount nodeID d =
     affected (\<lambda>t. vt_upstream_id t = Some nodeID \<and> active (vt_status t) \<and> vt_deleted_at t = None) (video_tasks d)
     + affected (\<lambda>b. nb_node_id b = nodeID) (node_dispatch_barriers d)"

definition retainedRemoteResults :: "string \<Rightarrow> int \<Rightarrow> db \<Rightarrow> nat" where
  "retainedRemoteResults nodeID now d =
     affected (\<lambda>t. vt_upstream_id t = Some nodeID \<and> vt_protocol_version t = Some ProtocolTK2SD
        \<and> vt_deleted_at t = None \<and> vt_expires_at t > now \<and> vt_status t = StatusSucceeded
        \<and> (\<not> vt_delivery_required t \<or> coalesce (vt_result_public_url t) [] = [])) (video_tasks d)"

definition sameNodeConnection :: "'a ModelNodeInput_scheme \<Rightarrow> 'b ModelNodeInput_scheme \<Rightarrow> bool" where
  "sameNodeConnection left right =
     (if \<not> UsesNodeAPI left \<and> \<not> UsesNodeAPI right \<and> \<not> UsesOfficialV2 left \<and> \<not> UsesOfficialV2 right
         \<and> in_ProtocolVersion left \<noteq> ProtocolTK2SD \<and> in_ProtocolVersion right \<noteq> ProtocolTK2SD
      then in_BaseURL left = in_BaseURL right \<and> in_JobsBaseURL left = in_JobsBaseURL right
           \<and> in_PublicBaseURL left = in_PublicBaseURL right \<and> in_HealthPath left = in_HealthPath right
           \<and> in_SubmitAPIName left = in_SubmitAPIName right \<and> in_CheckAPIName left = in_CheckAPIName right
           \<and> in_PollInterval left = in_PollInterval right \<and> in_RequestTimeout left = in_RequestTimeout right
      else if in_ServiceURL left \<noteq> in_ServiceURL right \<or> in_ProtocolVersion left \<noteq> in_ProtocolVersion right
           \<or> in_APIKeyFingerprint left \<noteq> in_APIKeyFingerprint right \<or> in_PollInterval left \<noteq> in_PollInterval right
           \<or> in_RequestTimeout left \<noteq> in_RequestTimeout right
      then False
      else if UsesOfficialV2 left \<or> UsesOfficialV2 right \<or> in_ProtocolVersion left = ProtocolTK2SD
           \<or> in_ProtocolVersion right = ProtocolTK2SD
      then in_UpstreamModel left = in_UpstreamModel right \<and> in_MaxConcurrency left = in_MaxConcurrency right
           \<and> in_ReplaceResultURL left = in_ReplaceResultURL right
      else True)"

definition sameDirectConnectionExceptCapacity ::
  "'a ModelNodeInput_scheme \<Rightarrow> 'b ModelNodeInput_scheme \<Rightarrow> bool" where
  "sameDirectConnectionExceptCapacity left right \<longleftrightarrow>
     in_ServiceURL left = in_ServiceURL right \<and> in_ProtocolVersion left = in_ProtocolVersion right
     \<and> in_APIKeyFingerprint left = in_APIKeyFingerprint right \<and> in_PollInterval left = in_PollInterval right
     \<and> in_RequestTimeout left = in_RequestTimeout right \<and> in_UpstreamModel left = in_UpstreamModel right
     \<and> in_ReplaceResultURL left = in_ReplaceResultURL right"

text \<open>The changes \<open>UpdateModelNode\<close> lets through while the node has active tasks.\<close>

definition allowedWhileActive :: "ModelNode \<Rightarrow> ModelNodeInput \<Rightarrow> bool" where
  "allowedWhileActive current n \<longleftrightarrow>
     (in_Enabled current \<and> \<not> in_Enabled n \<and> sameNodeConnection current n)
     \<or> (sameNodeConnection current n \<and> in_Enabled current = in_Enabled n
        \<and> in_LegacyModelCompat current = in_LegacyModelCompat n)
     \<or> (in_ProtocolVersion current = ProtocolTK2SD \<and> in_ProtocolVersion n = in_ProtocolVersion current
        \<and> in_ServiceURL n = in_ServiceURL current \<and> in_LegacyModelCompat n = in_LegacyModelCompat current
        \<and> in_APIKeyFingerprint n \<noteq> in_APIKeyFingerprint current)
     \<or> (in_Enabled current \<and> in_Enabled n
        \<and> (UsesOfficialV2 current \<or> in_ProtocolVersion current = ProtocolTK2SD)
        \<and> in_ProtocolVersion n = in_ProtocolVersion current
        \<and> sameDirectConnectionExceptCapacity current n \<and> in_MaxConcurrency n > in_MaxConcurrency current)"

definition UpdateModelNode :: "StoreEnv \<Rightarrow> string \<Rightarrow> int \<Rightarrow> ModelNodeInput \<Rightarrow> ModelNode op" where
  "UpdateModelNode e i expectedVersion n = atomically
     (and_then (reading (find_node ErrNodeNotFound i)) (\<lambda>current.
      and_then (ensure (no_Version current = expectedVersion) ErrNodeVersionConflict) (\<lambda>_.
      and_then (ensuring (\<lambda>d. \<not> (in_ProtocolVersion current = ProtocolTK2SD
                   \<and> (in_ProtocolVersion current \<noteq> in_ProtocolVersion n \<or> in_ServiceURL current \<noteq> in_ServiceURL n)
                   \<and> retainedRemoteResults i (nowUnix e) d > 0)) ErrNodeHasActiveTask) (\<lambda>_.
      and_then (gets (activeTaskCount i)) (\<lambda>active_tasks.
      and_then (ensure (active_tasks = 0 \<or> allowedWhileActive current n) ErrNodeHasActiveTask) (\<lambda>_.
      let now = nowUnix e;
          upd = (\<lambda>r. (configured_row n now r)\<lparr>mn_version := mn_version r + 1\<rparr>);
          sel = (\<lambda>r. mn_id r = i \<and> mn_version r = expectedVersion \<and> mn_deleted_at r = None) in
      and_then (ensuring (\<lambda>d. list_all (\<lambda>r. sel r \<longrightarrow> node_row_ok (upd r) \<and> \<not> url_taken (upd r) (model_service_nodes d))
                   (model_service_nodes d)) (ErrSQL ''constraint'')) (\<lambda>_.
      and_then (exec_one model_service_nodes model_service_nodes_update ErrNodeVersionConflict sel upd) (\<lambda>_.
      and_then (ensure (\<not> (in_LegacyModelCompat current \<and> \<not> in_LegacyModelCompat n \<and> active_tasks > 0))
                  ErrNodeHasActiveTask) (\<lambda>_.
      and_then (ensure (\<not> (\<not> in_LegacyModelCompat current \<and> in_LegacyModelCompat n)) ErrStateConflict) (\<lambda>_.
      and_then (exec_update model_service_nodes model_service_nodes_update (\<lambda>r. mn_id r = i)
                  (\<lambda>r. r\<lparr>mn_legacy_model_compat := in_LegacyModelCompat n\<rparr>)) (\<lambda>_.
      and_then (let v = nodePersistenceValues n (blank_node i now) in
                writeNodeCatalog e (n\<lparr>in_ID := i, in_ProtocolVersion := mn_protocol_version v,
                                      in_ServiceURL := mn_service_url v\<rparr>) now) (\<lambda>_.
      reading (find_node (ErrSQL ''no rows'') i)))))))))))))"

definition DeleteModelNode :: "StoreEnv \<Rightarrow> string \<Rightarrow> int \<Rightarrow> unit op" where
  "DeleteModelNode e i expectedVersion = atomically
     (and_then (reading (find_node ErrNodeNotFound i)) (\<lambda>current.
      and_then (ensure (no_Version current = expectedVersion) ErrNodeVersionConflict) (\<lambda>_.
      and_then (ensure (\<not> in_Enabled current) ErrNodeMustBeDisabled) (\<lambda>_.
      and_then (ensuring (\<lambda>d. activeTaskCount i d = 0) ErrNodeHasActiveTask) (\<lambda>_.
      and_then (ensuring (\<lambda>d. retainedRemoteResults i (nowUnix e) d = 0) ErrNodeHasActiveTask) (\<lambda>_.
      and_then (exec_one model_service_nodes model_service_nodes_update ErrNodeVersionConflict
                  (\<lambda>r. mn_id r = i \<and> mn_version r = expectedVersion \<and> mn_deleted_at r = None)
                  (\<lambda>r. r\<lparr>mn_deleted_at := Some (nowUnix e), mn_updated_at := nowUnix e,
                         mn_version := mn_version r + 1\<rparr>)) (\<lambda>_.
      bumpRouting)))))))"

definition LegacyNodeImportPending :: "bool op" where
  "LegacyNodeImportPending = gets (\<lambda>d. node_config_bootstrap d = None)"

definition ImportLegacyNodes :: "StoreEnv \<Rightarrow> ModelNodeInput list \<Rightarrow> (int \<times> bool) op" where
  "ImportLegacyNodes e inputs = atomically
     (and_then (gets node_config_bootstrap) (\<lambda>b.
      case b of
        Some n \<Rightarrow> ret (n, False)
      | None \<Rightarrow>
          and_then (gets (\<lambda>d. length (model_service_nodes d))) (\<lambda>existing.
          and_then (if existing = 0
                    then for_each (\<lambda>n. insert_node e n (nowUnix e)) (sort_key in_ID inputs) else ret ()) (\<lambda>_.
          let imported = (if existing = 0 then int (length inputs) else 0) in
          and_then (modify (node_config_bootstrap_update (\<lambda>_. Some imported))) (\<lambda>_.
          ret (imported, existing = 0))))))"

section \<open>Lemmas\<close>

lemma reading_success_iff [tx_inv]: "reading f d = (Inr x, d') \<longleftrightarrow> f d = Inr x \<and> d' = d"
  by auto

lemma and_then_reading [tx_simps]:
  "and_then (reading f) k d = (case f d of Inl e \<Rightarrow> (Inl e, d) | Inr x \<Rightarrow> k x d)"
  by (simp add: and_then_def split: sum.splits)

text \<open>
  What the catalog operations may change: catalogs, node models, routes (never removing one) and
  the revision, which only grows.
\<close>

definition catalog_frame :: "db \<Rightarrow> db" where
  "catalog_frame d =
     d\<lparr>node_model_catalogs := [], node_models := [], model_routes := [], routing_revision := 0\<rparr>"

definition catalog_step :: "db \<Rightarrow> db \<Rightarrow> bool" where
  "catalog_step d d' \<longleftrightarrow>
     catalog_frame d' = catalog_frame d \<and> set (model_routes d) \<subseteq> set (model_routes d')
     \<and> routing_revision d \<le> routing_revision d'"

interpretation catalog_steps: step_contract catalog_step
  by unfold_locales (auto simp: catalog_step_def)

lemma keeps_catalog_step_basic:
  "keeps catalog_step (writeNodeModel nodeID m)" "keeps catalog_step bumpRouting"
  "keeps catalog_step syncModelRoutes" "keeps catalog_step (reading f)"
  "keeps catalog_step (exec_update node_models node_models_update p g)"
  "keeps catalog_step (modify (node_model_catalogs_update h))"
  "keeps catalog_step (exec_update node_model_catalogs node_model_catalogs_update p' g')"
  by (auto simp: keeps_def catalog_step_def catalog_frame_def writeNodeModel_def bumpRouting_def syncModelRoutes_def)

lemmas catalog_intros = catalog_steps.keeps_intros keeps_catalog_step_basic

lemma keeps_store_catalog: "keeps catalog_step (store_catalog e n now old c)"
  unfolding store_catalog_def replace_models_def Let_def
  by (intro catalog_intros impI)

lemma keeps_writeNodeCatalog: "keeps catalog_step (writeNodeCatalog e n now)"
  unfolding writeNodeCatalog_def
  by (intro catalog_intros) (auto intro!: catalog_intros keeps_store_catalog split: option.splits sum.splits)

text \<open>A successful write of a catalog bumps the revision once.\<close>

lemma for_each_revision:
  "for_each (writeNodeModel nodeID) ms d = (Inr u, d') \<Longrightarrow> routing_revision d' = routing_revision d"
  by (induction ms arbitrary: d) (auto simp: writeNodeModel_def)

lemma store_catalog_revision:
  "store_catalog e n now old c d = (Inr u, d') \<Longrightarrow> routing_revision d' = routing_revision d + 1"
  by (auto simp: store_catalog_def replace_models_def syncModelRoutes_def bumpRouting_def Let_def and_then_success_iff
      dest!: for_each_revision split: if_splits option.splits)

lemma writeNodeCatalog_revision:
  assumes "writeNodeCatalog e n now d = (Inr u, d')"
  shows "routing_revision d' = routing_revision d + 1"
proof -
  from assms obtain old where o: "optional_catalog (in_ID n) d = Inr old"
    by (auto simp: writeNodeCatalog_def and_then_success_iff)
  note run = assms [unfolded writeNodeCatalog_def and_then_reading o, simplified]
  show ?thesis
  proof (cases "in_ModelCatalog n")
    case (Some c)
    with run show ?thesis by (simp split: sum.splits) (rule store_catalog_revision)
  next
    case None
    with run show ?thesis
      by (cases old) (auto simp: syncModelRoutes_def bumpRouting_def
          dest!: store_catalog_revision split: sum.splits if_splits)
  qed
qed

lemma catalog_frame_nodes: "catalog_frame d' = catalog_frame d \<Longrightarrow> model_service_nodes d' = model_service_nodes d"
  by (drule arg_cong [where f = model_service_nodes]) (simp add: catalog_frame_def)

lemma writeNodeCatalog_nodes:
  "writeNodeCatalog e n now d = (r, d') \<Longrightarrow> model_service_nodes d' = model_service_nodes d"
  by (drule keepsD [OF keeps_writeNodeCatalog]) (auto simp: catalog_step_def intro: catalog_frame_nodes)

definition direct :: "'a ModelNodeInput_scheme \<Rightarrow> bool" where
  "direct n \<longleftrightarrow> UsesNodeAPI n \<or> UsesOfficialV2 n \<or> in_ProtocolVersion n = ProtocolTK2SD"

lemma configured_row_endpoint:
  "direct n \<Longrightarrow> mn_service_url (configured_row n now r) = in_ServiceURL n"
  "direct n \<Longrightarrow> mn_protocol_version (configured_row n now r) = in_ProtocolVersion n"
  "\<not> direct n \<Longrightarrow> mn_service_url (configured_row n now r) = in_BaseURL n"
  "\<not> direct n \<Longrightarrow> mn_protocol_version (configured_row n now r) = ProtocolLegacy"
  by (simp_all add: configured_row_def nodePersistenceValues_def direct_def Let_def protocol_defs)

lemma configured_row_key [simp]:
  "mn_id (configured_row n now r) = mn_id r" "mn_version (configured_row n now r) = mn_version r"
  "mn_deleted_at (configured_row n now r) = mn_deleted_at r"
  by (simp_all add: configured_row_def nodePersistenceValues_def Let_def)

lemma sameNodeConnection_cases:
  assumes "sameNodeConnection l r"
  obtains "\<not> direct l" "\<not> direct r" "in_BaseURL l = in_BaseURL r"
  | "direct l" "direct r" "in_ServiceURL l = in_ServiceURL r" "in_ProtocolVersion l = in_ProtocolVersion r"
proof (cases "direct l \<or> direct r")
  case False
  with assms that(1) show ?thesis by (simp add: sameNodeConnection_def direct_def)
next
  case True
  with assms have "in_ServiceURL l = in_ServiceURL r" "in_ProtocolVersion l = in_ProtocolVersion r"
    by (simp_all add: sameNodeConnection_def direct_def split: if_splits)
  moreover from this True have "direct l" "direct r" by (simp_all add: direct_def UsesNodeAPI_def UsesOfficialV2_def)
  ultimately show ?thesis using that(2) by blast
qed

lemma allowedWhileActive_cases:
  assumes "allowedWhileActive current n"
  obtains "sameNodeConnection current n"
  | "direct current" "direct n" "in_ServiceURL current = in_ServiceURL n" "in_ProtocolVersion current = in_ProtocolVersion n"
  using assms unfolding allowedWhileActive_def sameDirectConnectionExceptCapacity_def direct_def
    UsesNodeAPI_def UsesOfficialV2_def
  by (elim disjE conjE) metis+

lemma allowedWhileActive_endpoint:
  assumes "allowedWhileActive current n"
    and "direct current \<or> in_ProtocolVersion current = ProtocolLegacy \<and> in_ServiceURL current = in_BaseURL current"
  shows "mn_service_url (configured_row n now r) = in_ServiceURL current
    \<and> mn_protocol_version (configured_row n now r) = in_ProtocolVersion current"
proof -
  have *: ?thesis if "direct current" "direct n" "in_ServiceURL current = in_ServiceURL n"
    "in_ProtocolVersion current = in_ProtocolVersion n"
    using that by (simp add: configured_row_endpoint)
  from assms(1) show ?thesis
  proof (cases rule: allowedWhileActive_cases)
    case 1
    then show ?thesis
      by (cases rule: sameNodeConnection_cases) (use assms(2) * in \<open>auto simp: configured_row_endpoint\<close>)
  qed (rule *)
qed

lemma scanModelNode_simps [simp]:
  "no_Version (scanModelNode r) = mn_version r" "in_ServiceURL (scanModelNode r) = mn_service_url r"
  "in_ProtocolVersion (scanModelNode r) = mn_protocol_version r" "in_BaseURL (scanModelNode r) = mn_base_url r"
  "in_Enabled (scanModelNode r) = mn_enabled r"
  by (simp_all add: scanModelNode_def)

lemma find_node_Inr: "find_node x i d = Inr node \<longleftrightarrow> (\<exists>r. node_with i d = Some r \<and> node = scanModelNode r)"
  by (auto simp: find_node_def split: option.splits)

lemma node_with_update:
  assumes "distinct (map mn_id rows)" and "select_where (\<lambda>n. mn_id n = i \<and> mn_deleted_at n = None) rows = Some r"
    and "\<And>r. mn_id (f r) = mn_id r \<and> mn_deleted_at (f r) = mn_deleted_at r" and "p r"
  shows "select_where (\<lambda>n. mn_id n = i \<and> mn_deleted_at n = None) (update_where p f rows) = Some (f r)"
proof (rule select_where_key [where k = mn_id])
  show "distinct (map mn_id (update_where p f rows))" using assms by (simp add: distinct_update_where)
  from select_where_Some [OF assms(2)] assms(3,4) show "f r \<in> set (update_where p f rows)"
    and "mn_id (f r) = i \<and> mn_deleted_at (f r) = None" by (auto simp: set_update_where)
  show "mn_id r' = mn_id (f r)" if "mn_id r' = i \<and> mn_deleted_at r' = None" for r'
    using that select_where_Some [OF assms(2)] assms(3) by auto
qed

text \<open>Grouping the ordered rows loses nothing and makes one candidate per protocol.\<close>

definition flat_candidates :: "RouteCandidate list \<Rightarrow> (string \<times> string) list" where
  "flat_candidates cs = concat (map (\<lambda>c. map (Pair (rc_protocol_version c)) (rc_node_ids c)) cs)"

lemma flat_candidates_simps [simp]:
  "flat_candidates [] = []" "flat_candidates (xs @ ys) = flat_candidates xs @ flat_candidates ys"
  "flat_candidates [c] = map (Pair (rc_protocol_version c)) (rc_node_ids c)"
  by (simp_all add: flat_candidates_def)

lemma group_candidates_flat: "flat_candidates (group_candidates rows acc) = flat_candidates acc @ rows"
proof (induction rows acc rule: group_candidates.induct)
  case (2 p i rest acc)
  show ?case
  proof (cases "acc = [] \<or> rc_protocol_version (last acc) \<noteq> p")
    case True
    with 2 show ?thesis by (simp add: Let_def)
  next
    case False
    then have "acc = butlast acc @ [last acc]" by simp
    then have "flat_candidates acc = flat_candidates (butlast acc) @ flat_candidates [last acc]"
      by (metis flat_candidates_simps(2))
    with 2 False show ?thesis by (simp add: Let_def)
  qed
qed simp

definition grouped :: "RouteCandidate list \<Rightarrow> bool" where
  "grouped cs \<longleftrightarrow> sorted_wrt (<) (map rc_protocol_version cs) \<and> (\<forall>c \<in> set cs. rc_node_ids c \<noteq> [])"

lemma group_candidates_grouped:
  assumes "sorted (map fst rows)" and "grouped acc"
    and "\<forall>c \<in> set acc. \<forall>(p, _) \<in> set rows. rc_protocol_version c \<le> p"
  shows "grouped (group_candidates rows acc)"
  using assms
proof (induction rows acc rule: group_candidates.induct)
  case (2 p i rest acc)
  let ?acc = "if acc = [] \<or> rc_protocol_version (last acc) \<noteq> p
              then acc @ [\<lparr>rc_protocol_version = p, rc_node_ids = []\<rparr>] else acc"
  let ?next = "butlast ?acc @ [(last ?acc)\<lparr>rc_node_ids := rc_node_ids (last ?acc) @ [i]\<rparr>]"
  have le: "\<forall>c \<in> set acc. rc_protocol_version c \<le> p" using "2.prems"(3) by auto
  have last_p: "rc_protocol_version (last ?acc) = p" by auto
  have "grouped ?next"
  proof (cases "acc = [] \<or> rc_protocol_version (last acc) \<noteq> p")
    case True
    have "\<forall>c \<in> set acc. rc_protocol_version c < p"
    proof (cases acc rule: rev_cases)
      case (snoc init l)
      with True le "2.prems"(2) show ?thesis
        by (auto simp: grouped_def sorted_wrt_append)
    qed simp
    with True "2.prems"(2) show ?thesis by (auto simp: grouped_def sorted_wrt_append)
  next
    case False
    then obtain init l where "acc = init @ [l]" by (cases acc rule: rev_cases) auto
    with False "2.prems"(2) show ?thesis by (simp add: grouped_def sorted_wrt_append)
  qed
  moreover have "\<forall>c \<in> set ?next. \<forall>(q, _) \<in> set rest. rc_protocol_version c \<le> q"
    using "2.prems"(1,3) last_p by (auto dest: in_set_butlastD)
  ultimately show ?case using 2 by (simp add: Let_def)
qed simp

lemma route_state_eq:
  "route_state p mode cs st =
     (if st = ''ambiguous'' \<or> (mode \<noteq> ''manual'' \<and> (\<exists>c \<in> set cs. rc_protocol_version c \<noteq> p)) then ''ambiguous''
      else if st = ''ready'' \<or> (\<exists>c \<in> set cs. rc_protocol_version c = p) then ''ready'' else st)"
  by (induction cs arbitrary: st) (auto simp: Let_def)


lemma pair_image: "{i. (p, i) \<in> (\<lambda>n. (f n, g n)) ` S} = g ` {n \<in> S. f n = p}"
  by blast

lemma candidate_rows_sorted: "sorted (map fst (candidate_rows d model))"
  by (simp add: candidate_rows_def comp_def)

lemma set_candidate_rows:
  "set (candidate_rows d model) = (\<lambda>n. (mn_protocol_version n, mn_id n)) ` set (offering_nodes d model)"
  by (simp add: candidate_rows_def)

lemma routeWith_success:
  assumes "routeWith model d = Inr (r, ver)"
  obtains x where "select_where (\<lambda>x. mr_model_id x = model) (model_routes d) = Some x"
    "ver = routing_revision d" "ro_version r = mr_version x"
    "ro_protocol_version r = coalesce (mr_protocol_version x) []" "ro_selection_mode r = mr_selection_mode x"
    "ro_candidates r = group_candidates (candidate_rows d model) []"
    "ro_state r = route_state (ro_protocol_version r) (ro_selection_mode r) (ro_candidates r)
       (if ro_protocol_version r = [] then ''ambiguous'' else ''unavailable'')"
  using assms by (auto simp: routeWith_def Let_def split: option.splits)

lemma candidates_of_route:
  assumes "routeWith model d = Inr (r, ver)"
  shows "grouped (ro_candidates r)" and "flat_candidates (ro_candidates r) = candidate_rows d model"
  using assms group_candidates_grouped [OF candidate_rows_sorted, of "[]" d model]
  by (auto elim!: routeWith_success simp: group_candidates_flat grouped_def)

lemma flat_candidates_protocols:
  "grouped cs \<Longrightarrow> fst ` set (flat_candidates cs) = rc_protocol_version ` set cs"
proof (intro equalityI subsetI)
  fix p assume "grouped cs" and "p \<in> rc_protocol_version ` set cs"
  then obtain c where c: "c \<in> set cs" "p = rc_protocol_version c" "hd (rc_node_ids c) \<in> set (rc_node_ids c)"
    by (auto simp: grouped_def)
  then have "(p, hd (rc_node_ids c)) \<in> set (flat_candidates cs)" by (auto simp: flat_candidates_def)
  then show "p \<in> fst ` set (flat_candidates cs)" by force
qed (auto simp: flat_candidates_def)

lemma flat_candidates_ids:
  assumes "grouped cs" and "c \<in> set cs"
  shows "set (rc_node_ids c) = {i. (rc_protocol_version c, i) \<in> set (flat_candidates cs)}"
proof -
  have "distinct (map rc_protocol_version cs)"
    using assms(1) by (simp add: grouped_def strict_sorted_iff)
  with assms(2) show ?thesis by (auto simp: flat_candidates_def dest: key_unique)
qed

section \<open>Properties\<close>

definition sample_node :: model_node where
  "sample_node =
     (blank_node ''n1'' 0)\<lparr>mn_service_url := ''https://n1'', mn_base_url := ''https://n1'',
        mn_protocol_version := ProtocolTK2SD, mn_enabled := True, mn_health_path := ''/internal/v1/health'',
        mn_poll_interval_ms := 3000, mn_request_timeout_ms := 30000, mn_max_concurrency := 2\<rparr>"

definition sample_model :: NodeModel where
  "sample_model =
     \<lparr>md_model_id = ''m'', md_enabled = True, md_present = True, md_verified = True,
      md_capabilities = BuiltinCapability ProtocolTK2SD\<rparr>"

definition sample_catalog_db :: db where
  "sample_catalog_db =
     empty_db\<lparr>model_service_nodes := [sample_node], node_models := [node_model_row ''n1'' sample_model],
       model_routes := [\<lparr>mr_model_id = ''m'', mr_protocol_version = Some ProtocolTK2SD, mr_selection_mode = ''auto'',
                         mr_version = 1, mr_updated_by = ''system''\<rparr>],
       node_model_catalogs := [\<lparr>mc_node_id = ''n1'', mc_source = ''discovered'', mc_revision = 1,
         mc_connection_fingerprint = CatalogFingerprint sample_env (scanModelNode sample_node),
         mc_last_status = ''ready'', mc_last_attempt_at = Some 900, mc_last_success_at = Some 900,
         mc_valid_until = Some 2700, mc_last_error_code = []\<rparr>],
       video_tasks := [(blank_task ''t1'' 1)\<lparr>vt_status := StatusRunning, vt_upstream_id := Some ''n1''\<rparr>]\<rparr>"

definition sample_disable :: ModelNodeInput where
  "sample_disable = (ModelNodeInput.truncate (scanModelNode sample_node))\<lparr>in_Enabled := False\<rparr>"

lemmas sample_node_defs = sample_node_def sample_model_def sample_catalog_db_def sample_disable_def blank_node_def
  empty_db_def sample_env_def blank_task_def

lemmas node_eval = offering_nodes_def offers_def node_model_row_def candidate_rows_def has_candidate_def
  node_with_def find_node_def scanModelNode_def ModelNodeInput.truncate_def activeTaskCount_def
  retainedRemoteResults_def configured_row_def nodePersistenceValues_def node_row_ok_def url_taken_def
  UsesNodeAPI_def UsesOfficialV2_def allowedWhileActive_def sameNodeConnection_def
  sameDirectConnectionExceptCapacity_def duration_ms_def writeNodeCatalog_def optional_catalog_def catalogWith_def
  node_models_of_def CatalogFingerprint_def syncModelRoutes_def bumpRouting_def routable_models_def
  exec_one_apply and_then_def Let_def protocol_defs nowUnix_def



text \<open>Reconfiguring a node that has active tasks or a pending cancellation barrier never changes
  the endpoint or the protocol those tasks were dispatched to; the accepted update increments the
  node's version and the routing revision by one.\<close>

theorem UpdateModelNode_in_use_keeps_endpoint:
  assumes "UpdateModelNode e i v n d = (Inr node, d')" and "activeTaskCount i d > 0"
    and "node_with i d = Some r" and "distinct (map mn_id (model_service_nodes d))"
    and "mn_protocol_version r \<in> {ProtocolH3, ProtocolOfficial, ProtocolTK2SD}
         \<or> mn_protocol_version r = ProtocolLegacy \<and> mn_service_url r = mn_base_url r"
  shows "\<exists>r'. node_with i d' = Some r' \<and> mn_service_url r' = mn_service_url r
           \<and> mn_protocol_version r' = mn_protocol_version r \<and> mn_version r' = mn_version r + 1
           \<and> routing_revision d' = routing_revision d + 1"
proof -
  define upd where "upd = (\<lambda>x. (configured_row n (nowUnix e) x)\<lparr>mn_version := mn_version x + 1\<rparr>)"
  define sel where "sel = (\<lambda>x::model_node. mn_id x = i \<and> mn_version x = v \<and> mn_deleted_at x = None)"
  define d1 where "d1 = model_service_nodes_update (update_where sel upd) d"
  define compat where "compat = (\<lambda>x::model_node. x\<lparr>mn_legacy_model_compat := in_LegacyModelCompat n\<rparr>)"
  define d2 where "d2 = model_service_nodes_update (update_where (\<lambda>x. mn_id x = i) compat) d1"
  from assms(1-3) obtain n' :: ModelNodeInput where v: "mn_version r = v" and ok: "allowedWhileActive (scanModelNode r) n"
    and w: "writeNodeCatalog e n' (nowUnix e) d2 = (Inr (), d')"
    unfolding UpdateModelNode_def atomically_success_iff Let_def and_then_reading find_node_def
    by (auto simp: and_then_success_iff ensure_success_iff ensuring_success_iff exec_one_success_iff
        reading_success_iff d1_def d2_def upd_def sel_def compat_def split: option.splits)
  note r = select_where_Some [OF assms(3) [unfolded node_with_def]]
  have dir: "direct (scanModelNode r) \<or> in_ProtocolVersion (scanModelNode r) = ProtocolLegacy
      \<and> in_ServiceURL (scanModelNode r) = in_BaseURL (scanModelNode r)"
    using assms(5) by (auto simp: direct_def UsesNodeAPI_def UsesOfficialV2_def protocol_defs)
  have "node_with i d1 = Some (upd r)" unfolding d1_def node_with_def
    using node_with_update [OF assms(4) assms(3) [unfolded node_with_def], of upd sel] v r
    by (simp add: upd_def sel_def)
  then have "node_with i d2 = Some (compat (upd r))" unfolding d2_def node_with_def
    using node_with_update [of "model_service_nodes d1" i "upd r" compat "\<lambda>x. mn_id x = i"] assms(4) r
    by (simp add: d1_def compat_def upd_def distinct_update_where)
  with writeNodeCatalog_nodes [OF w] have "node_with i d' = Some (compat (upd r))" by (simp add: node_with_def)
  with allowedWhileActive_endpoint [OF ok dir] writeNodeCatalog_revision [OF w] show ?thesis
    by (simp add: compat_def upd_def d2_def d1_def)
qed

text \<open>The candidates of a route are exactly the enabled nodes that offer the model, one candidate
  per protocol; the route is ready exactly when its protocol has such a node and no other protocol
  competes with an automatically chosen one.\<close>

theorem routeWith_candidates:
  assumes "routeWith model d = Inr (r, ver)"
  shows "distinct (map rc_protocol_version (ro_candidates r))
    \<and> rc_protocol_version ` set (ro_candidates r) = mn_protocol_version ` set (offering_nodes d model)
    \<and> (\<forall>c \<in> set (ro_candidates r). set (rc_node_ids c) =
          mn_id ` {n \<in> set (offering_nodes d model). mn_protocol_version n = rc_protocol_version c})
    \<and> (ro_state r = ''ready'' \<longleftrightarrow>
         ro_protocol_version r \<noteq> [] \<and> ro_protocol_version r \<in> mn_protocol_version ` set (offering_nodes d model)
         \<and> (ro_selection_mode r = ''manual''
            \<or> mn_protocol_version ` set (offering_nodes d model) \<subseteq> {ro_protocol_version r}))"
proof -
  note g = candidates_of_route [OF assms]
  have p: "rc_protocol_version ` set (ro_candidates r) = mn_protocol_version ` set (offering_nodes d model)"
    using flat_candidates_protocols [OF g(1)] by (simp add: g(2) set_candidate_rows image_image)
  have "distinct (map rc_protocol_version (ro_candidates r))"
    using g(1) by (auto simp: grouped_def strict_sorted_iff)
  moreover have "set (rc_node_ids c) =
      mn_id ` {n \<in> set (offering_nodes d model). mn_protocol_version n = rc_protocol_version c}"
    if "c \<in> set (ro_candidates r)" for c
    using flat_candidates_ids [OF g(1) that] by (simp add: g(2) set_candidate_rows pair_image)
  moreover have "ro_state r = route_state (ro_protocol_version r) (ro_selection_mode r) (ro_candidates r)
      (if ro_protocol_version r = [] then ''ambiguous'' else ''unavailable'')"
    using assms by (rule routeWith_success)
  then have "ro_state r = ''ready'' \<longleftrightarrow> ro_protocol_version r \<noteq> []
      \<and> ro_protocol_version r \<in> rc_protocol_version ` set (ro_candidates r)
      \<and> (ro_selection_mode r = ''manual'' \<or> rc_protocol_version ` set (ro_candidates r) \<subseteq> {ro_protocol_version r})"
    by (auto simp: route_state_eq image_iff split: if_splits) metis
  ultimately show ?thesis by (simp add: p)
qed

text \<open>Binding a model's route succeeds only against the version and revision the administrator saw
  and for a protocol some enabled node offers the model with; it makes the route manual, increments
  both counters by one, leaves the candidates and every other route alone, and the route is then
  ready.\<close>

theorem BindModelRoute_sound:
  assumes "BindModelRoute e model protocol admin version revision d = (Inr (r, ver), d')"
    and "protocol \<noteq> []"
  shows "(\<exists>r0. routeWith model d = Inr (r0, revision) \<and> ro_version r0 = version
             \<and> ro_version r = version + 1 \<and> ro_candidates r = ro_candidates r0)
    \<and> ver = revision + 1 \<and> routing_revision d' = revision + 1
    \<and> (\<exists>n \<in> set (model_service_nodes d). offers d model n \<and> mn_protocol_version n = protocol)
    \<and> ro_protocol_version r = protocol \<and> ro_selection_mode r = ''manual'' \<and> ro_state r = ''ready''
    \<and> filter (\<lambda>x. mr_model_id x \<noteq> model) (model_routes d') = filter (\<lambda>x. mr_model_id x \<noteq> model) (model_routes d)"
proof -
  define f where "f = (\<lambda>x::model_route. x\<lparr>mr_protocol_version := Some protocol, mr_selection_mode := ''manual'',
      mr_version := mr_version x + 1, mr_updated_by := admin\<rparr>)"
  define d1 where "d1 = model_routes_update (update_where (\<lambda>x. mr_model_id x = model) f) d"
  from assms(1) obtain r0 where r0: "routeWith model d = Inr (r0, revision)" "ro_version r0 = version"
    and c: "has_candidate protocol r0" and d': "d' = routing_revision_update (\<lambda>n. n + 1) d1"
    and r: "routeWith model d' = Inr (r, ver)"
    by (auto simp: BindModelRoute_def and_then_success_iff bumpRouting_def d1_def f_def)
  from r0(1) obtain x where x: "select_where (\<lambda>x. mr_model_id x = model) (model_routes d) = Some x"
    and v: "ro_version r0 = mr_version x" and rv: "routing_revision d = revision"
    and c0: "ro_candidates r0 = group_candidates (candidate_rows d model) []" by (auto elim!: routeWith_success)
  have "select_where (\<lambda>x. mr_model_id x = model) (update_where (\<lambda>x. mr_model_id x = model) f rows) =
      map_option f (select_where (\<lambda>x. mr_model_id x = model) rows)" for rows
    by (induction rows) (auto simp: f_def)
  then have x': "select_where (\<lambda>x. mr_model_id x = model) (model_routes d') = Some (f x)"
    using x by (simp add: d' d1_def)
  have same: "candidate_rows d' model = candidate_rows d model"
    by (simp add: d' d1_def candidate_rows_def offering_nodes_def offers_def [abs_def])
  from r obtain y where y: "select_where (\<lambda>x. mr_model_id x = model) (model_routes d') = Some y"
    and out: "ver = routing_revision d'" "ro_version r = mr_version y"
      "ro_protocol_version r = coalesce (mr_protocol_version y) []" "ro_selection_mode r = mr_selection_mode y"
      "ro_candidates r = group_candidates (candidate_rows d' model) []"
    and st: "ro_state r = route_state (ro_protocol_version r) (ro_selection_mode r) (ro_candidates r)
       (if ro_protocol_version r = [] then ''ambiguous'' else ''unavailable'')" by (rule routeWith_success)
  have y': "y = f x" using y x' by simp
  have cand: "ro_candidates r = ro_candidates r0" using out(5) c0 same by simp
  have in0: "protocol \<in> rc_protocol_version ` set (ro_candidates r0)" using c by (auto simp: has_candidate_def list_ex_iff)
  from in0 have "protocol \<in> mn_protocol_version ` set (offering_nodes d model)"
    using flat_candidates_protocols [OF candidates_of_route(1) [OF r0(1)]]
    by (simp add: candidates_of_route(2) [OF r0(1)] set_candidate_rows image_image)
  then have o: "\<exists>n \<in> set (model_service_nodes d). offers d model n \<and> mn_protocol_version n = protocol"
    by (auto simp: offering_nodes_def)
  have "ro_state r = ''ready''"
    using st assms(2) in0 out(3,4) cand by (auto simp: y' f_def route_state_eq)
  moreover have "filter (\<lambda>x. mr_model_id x \<noteq> model) (update_where (\<lambda>x. mr_model_id x = model) f rows) =
      filter (\<lambda>x. mr_model_id x \<noteq> model) rows" for rows
    by (induction rows) (auto simp: f_def)
  ultimately show ?thesis using r0 out o rv v cand by (simp add: d' d1_def y' f_def)
qed


theorem routeWith_candidates_witness:
  "\<exists>r ver. routeWith ''m'' sample_catalog_db = Inr (r, ver) \<and> ro_state r = ''ready''"
proof -
  have "\<exists>r ver. routeWith ''m'' sample_catalog_db = Inr (r, ver) \<and> ro_protocol_version r = ProtocolTK2SD"
    by (simp add: routeWith_def sample_catalog_db_def Let_def)
  then obtain r ver where r: "routeWith ''m'' sample_catalog_db = Inr (r, ver)" "ro_protocol_version r = ProtocolTK2SD"
    by blast
  moreover have "mn_protocol_version ` set (offering_nodes sample_catalog_db ''m'') = {ProtocolTK2SD}"
    by (simp add: node_eval sample_node_defs)
  ultimately have "ro_state r = ''ready''" using routeWith_candidates [OF r(1)] by (simp add: protocol_defs)
  with r show ?thesis by blast
qed

theorem BindModelRoute_sound_witness:
  "\<exists>r d'. BindModelRoute sample_env ''m'' ProtocolTK2SD ''root'' 1 1 sample_catalog_db = (Inr (r, 2), d')
     \<and> ro_state r = ''ready''"
proof -
  have "\<exists>r ver d'. BindModelRoute sample_env ''m'' ProtocolTK2SD ''root'' 1 1 sample_catalog_db = (Inr (r, ver), d')"
    by (simp add: BindModelRoute_def routeWith_def node_eval sample_node_defs)
  then obtain r ver d' where
    b: "BindModelRoute sample_env ''m'' ProtocolTK2SD ''root'' 1 1 sample_catalog_db = (Inr (r, ver), d')" by blast
  from BindModelRoute_sound [OF b] have "ver = 2" and "ro_state r = ''ready''" by (simp_all add: protocol_defs)
  with b show ?thesis by auto
qed

theorem UpdateModelNode_in_use_keeps_endpoint_witness:
  "\<exists>node d' r'. UpdateModelNode sample_env ''n1'' 1 sample_disable sample_catalog_db = (Inr node, d')
     \<and> node_with ''n1'' d' = Some r' \<and> mn_service_url r' = ''https://n1''"
proof -
  have "\<exists>node d'. UpdateModelNode sample_env ''n1'' 1 sample_disable sample_catalog_db = (Inr node, d')"
    by (simp add: UpdateModelNode_def node_eval text_eval sample_node_defs)
  then obtain node d' where
    u: "UpdateModelNode sample_env ''n1'' 1 sample_disable sample_catalog_db = (Inr node, d')" by blast
  have "activeTaskCount ''n1'' sample_catalog_db > 0" "node_with ''n1'' sample_catalog_db = Some sample_node"
    "distinct (map mn_id (model_service_nodes sample_catalog_db))"
    "mn_protocol_version sample_node \<in> {ProtocolH3, ProtocolOfficial, ProtocolTK2SD}"
    "mn_service_url sample_node = ''https://n1''"
    by (simp_all add: node_eval sample_node_defs)
  with UpdateModelNode_in_use_keeps_endpoint [OF u] u show ?thesis by auto
qed

end
