(* ===== verification/TaskQueue.thy ===== *)
theory TaskQueue
  imports NodeStore
begin

text \<open>
  Reading tasks (\<open>scanTask\<close>, \<open>getWith\<close>, public status), the queue (\<open>rebalance\<close>,
  \<open>taskEligibleForNode\<close>, \<open>nextEligibleTask\<close>), route preparation and callback deliveries:
  the helpers of \<^verbatim>\<open>store.go\<close>, \<^verbatim>\<open>task_routing_store.go\<close>, \<^verbatim>\<open>task_status.go\<close> and
  \<^verbatim>\<open>callback_store.go\<close> that every task operation shares.
\<close>

section \<open>Tasks as read\<close>

text \<open>\<open>domain.Task\<close>: the row with the three columns of its remote run.\<close>

record Task =
  tk_row :: video_task
  tk_RemotePhase :: "RemotePhase option"
  tk_RemoteUpstreamStatus :: "UpStatus option"
  tk_RemoteCancelState :: "CancelState option"

definition run_of :: "db \<Rightarrow> string \<Rightarrow> remote_run option" where
  "run_of d i = select_where (\<lambda>r. rr_task_id r = i) (task_remote_runs d)"

definition scanTask :: "db \<Rightarrow> video_task \<Rightarrow> Task" where
  "scanTask d t =
     (let r = run_of d (vt_task_id t)
      in \<lparr>tk_row = t, tk_RemotePhase = map_option rr_phase r,
          tk_RemoteUpstreamStatus = Option.bind r rr_upstream_status,
          tk_RemoteCancelState = map_option rr_cancel_state r\<rparr>)"

definition PublicStatus :: "Task \<Rightarrow> V2Status" where
  "PublicStatus t =
     (let s = vt_status (tk_row t) in
      if coalesce (vt_protocol_version (tk_row t)) [] \<noteq> ProtocolTK2SD
         \<or> s = StatusSucceeded \<or> s = StatusFailed \<or> s = StatusCancelled then V2 s
      else if tk_RemoteCancelState t = Some CancelRequested then V2Running
      else if tk_RemotePhase t = Some RemotePreparing \<or> tk_RemotePhase t = Some RemotePrepared
              \<or> (tk_RemotePhase t = Some RemoteSubmitted \<and> tk_RemoteUpstreamStatus t = Some UpQueued) then V2Queued
      else V2 s)"

text \<open>The CASE expression the list queries filter on.\<close>

definition taskPublicStatusSQL :: "db \<Rightarrow> video_task \<Rightarrow> V2Status" where
  "taskPublicStatusSQL d t =
     (if vt_status t = StatusSucceeded then V2Succeeded
      else if vt_status t = StatusFailed then V2Failed
      else if vt_status t = StatusCancelled then V2Cancelled
      else if vt_protocol_version t = Some ''tk2sd-v1''
              \<and> map_option rr_cancel_state (run_of d (vt_task_id t)) = Some CancelRequested then V2Running
      else if vt_protocol_version t = Some ''tk2sd-v1''
              \<and> exists_where (\<lambda>r. rr_task_id r = vt_task_id t
                   \<and> (rr_phase r = RemotePreparing \<or> rr_phase r = RemotePrepared
                      \<or> (rr_phase r = RemoteSubmitted \<and> rr_upstream_status r = Some UpQueued))) (task_remote_runs d)
      then V2Queued
      else if queued (vt_status t) then V2Queued
      else V2Running)"

fun internalStatuses :: "V2Status \<Rightarrow> InternalStatus list" where
  "internalStatuses V2Queued = [StatusQueuedOpen, StatusQueuedLocked]"
| "internalStatuses V2Running = [StatusDispatching, StatusRunning, StatusReconciling, StatusCancelling]"
| "internalStatuses V2Succeeded = [StatusSucceeded]"
| "internalStatuses V2Failed = [StatusFailed]"
| "internalStatuses V2Cancelled = [StatusCancelled]"

definition getWith :: "string \<Rightarrow> string \<Rightarrow> int \<Rightarrow> db \<Rightarrow> err + Task" where
  "getWith owner i now d =
     (case select_where (\<lambda>t. vt_task_id t = i \<and> vt_api_key_id t = owner \<and> vt_deleted_at t = None
                             \<and> vt_expires_at t > now) (video_tasks d) of
        None \<Rightarrow> Inl ErrTaskNotFound
      | Some t \<Rightarrow> Inr (scanTask d t))"

definition task_by :: "(video_task \<Rightarrow> bool) \<Rightarrow> err \<Rightarrow> db \<Rightarrow> err + Task" where
  "task_by p missing d =
     (case select_where p (video_tasks d) of None \<Rightarrow> Inl missing | Some t \<Rightarrow> Inr (scanTask d t))"

definition Get :: "StoreEnv \<Rightarrow> string \<Rightarrow> string \<Rightarrow> Task op" where
  "Get e owner i = reading (getWith owner i (nowUnix e))"

definition GetTaskForExecution :: "string \<Rightarrow> Task op" where
  "GetTaskForExecution i = reading (task_by (\<lambda>t. vt_task_id t = i \<and> vt_deleted_at t = None) ErrTaskNotFound)"

definition ActiveForUpstream :: "string \<Rightarrow> Task op" where
  "ActiveForUpstream upstreamID =
     reading (task_by (\<lambda>t. vt_upstream_id t = Some upstreamID \<and> active (vt_status t) \<and> vt_deleted_at t = None)
       ErrTaskNotFound)"

section \<open>The protected window of the queue\<close>

definition ready_queued :: "video_task \<Rightarrow> bool" where
  "ready_queued t \<longleftrightarrow> vt_deleted_at t = None \<and> vt_route_state t = RouteReady \<and> queued (vt_status t)"

definition ranked :: "db \<Rightarrow> video_task list" where
  "ranked d = sort_key vt_queue_seq (filter ready_queued (video_tasks d))"

definition protected_seqs :: "StoreEnv \<Rightarrow> db \<Rightarrow> int list" where
  "protected_seqs e d = map vt_queue_seq (take (nat (ProtectedSlots e)) (ranked d))"

definition rebalance_row :: "int list \<Rightarrow> int \<Rightarrow> video_task \<Rightarrow> video_task" where
  "rebalance_row seqs now t =
     t\<lparr>vt_status := (if vt_queue_seq t \<in> set seqs then StatusQueuedLocked else StatusQueuedOpen),
       vt_cancel_locked := (vt_queue_seq t \<in> set seqs), vt_updated_at := now, vt_version := vt_version t + 1\<rparr>"

definition rebalance :: "StoreEnv \<Rightarrow> int \<Rightarrow> unit op" where
  "rebalance e now =
     and_then (gets (protected_seqs e)) (\<lambda>seqs.
     and_then (update_tasks (\<lambda>t. vt_deleted_at t = None \<and> queued (vt_status t)) (rebalance_row seqs now)) (\<lambda>_.
     ret ()))"

section \<open>Callback deliveries\<close>

definition callback_body :: "string \<Rightarrow> string \<Rightarrow> string" where
  "callback_body i status =
     CHR 0x7B # json_string ''task_id'' @ '':'' @ json_string i @ '','' @ json_string ''status'' @ '':''
     @ json_string status @ [CHR 0x7D]"

definition new_delivery ::
  "string \<Rightarrow> string \<Rightarrow> string \<Rightarrow> int \<Rightarrow> string \<Rightarrow> string \<Rightarrow> int \<Rightarrow> callback_delivery" where
  "new_delivery i task status version digest body now =
     \<lparr>cd_id = i, cd_task_id = task, cd_external_status = status, cd_state_version = version,
      cd_status = CallbackPending, cd_attempt_count = 0, cd_next_attempt_at = None,
      cd_request_body_hash = digest, cd_request_body = body, cd_http_status = None, cd_last_error = None,
      cd_lease_expires_at = None, cd_created_at = now, cd_updated_at = now, cd_delivered_at = None\<rparr>"

definition insert_delivery :: "callback_delivery \<Rightarrow> unit op" where
  "insert_delivery c =
     (\<lambda>d. if exists_where (\<lambda>x. cd_task_id x = cd_task_id c \<and> cd_state_version x = cd_state_version c)
               (callback_deliveries d) then (Inr (), d)
          else if exists_where (\<lambda>x. cd_id x = cd_id c) (callback_deliveries d) then (Inl (ErrSQL ''unique''), d)
          else exec_insert callback_deliveries_update c d)"

definition createCallbackDeliveryWithConn :: "StoreEnv \<Rightarrow> string \<Rightarrow> string \<Rightarrow> int \<Rightarrow> unit op" where
  "createCallbackDeliveryWithConn e i status now =
     and_then (gets (\<lambda>d. select_where (\<lambda>t. vt_task_id t = i) (video_tasks d))) (\<lambda>row.
     case row of
       None \<Rightarrow> raise (ErrSQL ''no rows'')
     | Some t \<Rightarrow>
         if vt_callback_url_ciphertext t = None then ret ()
         else insert_delivery (new_delivery (uuid e 0) i status (vt_version t)
                (sha256_hex e (callback_body i status)) (callback_body i status) now))"

section \<open>Which node may run a task\<close>

definition model_accepts :: "string \<Rightarrow> TaskRequirements \<Rightarrow> NodeModel \<Rightarrow> bool" where
  "model_accepts model req m \<longleftrightarrow>
     md_model_id m = model \<and> md_enabled m \<and> md_present m \<and> Accepts (md_capabilities m) req"

definition taskEligibleForNode :: "db \<Rightarrow> Task \<Rightarrow> string \<Rightarrow> int \<Rightarrow> err + bool" where
  "taskEligibleForNode d task nodeID now =
     (let t = tk_row task; protocol = coalesce (vt_protocol_version t) [] in
      if vt_route_state t \<noteq> RouteReady \<or> protocol = [] then Inr False
      else
        (case node_with nodeID d of
           None \<Rightarrow> Inr (protocol = ProtocolLegacy)
         | Some n \<Rightarrow>
             if \<not> mn_enabled n \<or> mn_protocol_version n \<noteq> protocol then Inr False
             else
               (case catalogWith nodeID d of
                  Inl e \<Rightarrow> Inl e
                | Inr cat \<Rightarrow>
                    if cg_source cat = ''discovered'' \<and> cg_valid_until cat \<le> now then Inr False
                    else
                      (case vt_routing_snapshot t of
                         None \<Rightarrow> Inl (ErrText ''routing snapshot'')
                       | Some snap \<Rightarrow>
                           Inr (list_ex (model_accepts (vt_model t) (sn_requirements snap)) (cg_items cat))))))"

definition proxy_input_ref :: "string \<Rightarrow> string \<Rightarrow> string" where
  "proxy_input_ref task i = ''proxy-input://'' @ task @ ''/'' @ i"

definition owned_spool :: "db \<Rightarrow> string \<Rightarrow> int \<Rightarrow> GenerationContent \<Rightarrow> string \<Rightarrow> nat" where
  "owned_spool d task index item u =
     affected (\<lambda>f. sp_task_id f = task \<and> sp_content_index f = index \<and> sp_content_type f = gc_type item
                   \<and> sp_role f = gc_role item \<and> proxy_input_ref (sp_task_id f) (sp_id f) = u)
       (task_input_spool_files d)"

text \<open>The source check of \<open>nextEligibleTask\<close> for one media URL.\<close>

definition source_valid :: "db \<Rightarrow> video_task \<Rightarrow> int \<Rightarrow> GenerationContent \<Rightarrow> string \<Rightarrow> bool" where
  "source_valid d t index item u =
     (let (source, tail, _) = cut u (CHR '':''); s = to_lower source in
      if s = ascii_runes ''http'' \<or> s = ascii_runes ''https'' \<or> s = ascii_runes ''data'' then True
      else if s = ascii_runes ''mm_file'' then
        coalesce (vt_protocol_version t) [] = ProtocolOfficial \<and> has_prefix tail ''//'' \<and> length tail > 2
      else if s = ascii_runes ''proxy-input'' then owned_spool d (vt_task_id t) index item u = 1
      else False)"

fun content_valid :: "db \<Rightarrow> video_task \<Rightarrow> int \<Rightarrow> GenerationContent list \<Rightarrow> bool" where
  "content_valid d t index [] = True"
| "content_valid d t index (item # items) =
     (case Media item of
        None \<Rightarrow> content_valid d t (index + 1) items
      | Some u \<Rightarrow> if source_valid d t index item u then content_valid d t (index + 1) items else False)"

text \<open>
  The verdict on one queued task: an error ends the search, \<open>Some\<close> selects the task, \<open>None\<close> skips
  it.
\<close>

definition consider_task :: "db \<Rightarrow> string \<Rightarrow> int \<Rightarrow> Task \<Rightarrow> err + Task option" where
  "consider_task d nodeID now task =
     (case taskEligibleForNode d task nodeID now of
        Inl e \<Rightarrow> Inl e
      | Inr eligible \<Rightarrow>
          if \<not> eligible then Inr None
          else
            (case vt_request (tk_row task) of
               None \<Rightarrow> Inr None
             | Some r \<Rightarrow> if content_valid d (tk_row task) 0 (gr_content r) then Inr (Some task) else Inr None))"

fun first_hit :: "('x \<Rightarrow> err + 'y option) \<Rightarrow> 'x list \<Rightarrow> err + 'y option" where
  "first_hit f [] = Inr None"
| "first_hit f (x # xs) =
     (case f x of Inl e \<Rightarrow> Inl e | Inr (Some y) \<Rightarrow> Inr (Some y) | Inr None \<Rightarrow> first_hit f xs)"

section \<open>Keyset pagination\<close>

text \<open>
  The loops that read 100 rows after the last key seen until one is chosen or a short page ends the
  table. \<open>page after rows\<close> is one query; \<open>paged_scan\<close> is the loop. \<open>key\<close> orders the rows.
\<close>

definition page :: "('x \<Rightarrow> 'k::linorder) \<Rightarrow> 'x list \<Rightarrow> 'k \<Rightarrow> 'x list" where
  "page key rows after = take 100 (filter (\<lambda>x. after < key x) rows)"

lemma page_measure:
  assumes "\<not> length (page key rows after) < 100"
  shows "affected (\<lambda>x. key (last (page key rows after)) < key x) rows < affected (\<lambda>x. after < key x) rows"
proof -
  let ?l = "last (page key rows after)"
  have "page key rows after \<noteq> []" using assms by auto
  then have "?l \<in> set (page key rows after)" by simp
  then have "?l \<in> set rows" "after < key ?l" by (auto simp: page_def dest: in_set_takeD)
  then show ?thesis by (intro affected_strict [where x = ?l]) auto
qed

function paged_scan ::
  "('x \<Rightarrow> 'k::linorder) \<Rightarrow> ('x \<Rightarrow> err + 'y option) \<Rightarrow> 'x list \<Rightarrow> 'k \<Rightarrow> err + 'y option" where
  "paged_scan key f rows after =
     (let batch = page key rows after in
      case first_hit f batch of
        Inl e \<Rightarrow> Inl e
      | Inr (Some y) \<Rightarrow> Inr (Some y)
      | Inr None \<Rightarrow>
          if length batch < 100 then Inr None else paged_scan key f rows (key (last batch)))"
  by pat_completeness auto
termination
  by (relation "measure (\<lambda>(key, f, rows, after). affected (\<lambda>x. after < key x) rows)")
    (simp_all add: page_measure)

declare paged_scan.simps [simp del]

definition nextEligibleTask :: "string \<Rightarrow> int \<Rightarrow> db \<Rightarrow> err + Task" where
  "nextEligibleTask nodeID now d =
     (case paged_scan (\<lambda>task. vt_queue_seq (tk_row task)) (consider_task d nodeID now)
             (map (scanTask d) (ranked d)) 0 of
        Inl e \<Rightarrow> Inl e
      | Inr None \<Rightarrow> Inl ErrQueueEmpty
      | Inr (Some task) \<Rightarrow> Inr task)"

section \<open>Lemmas\<close>

lemma first_hit_append:
  "first_hit f (xs @ ys) =
     (case first_hit f xs of Inl e \<Rightarrow> Inl e | Inr (Some y) \<Rightarrow> Inr (Some y) | Inr None \<Rightarrow> first_hit f ys)"
  by (induction xs) (auto split: sum.splits option.splits)

lemma first_hit_Some:
  "first_hit f xs = Inr (Some y) \<longleftrightarrow>
     (\<exists>us x vs. xs = us @ x # vs \<and> (\<forall>u \<in> set us. f u = Inr None) \<and> f x = Inr (Some y))"
proof (induction xs)
  case (Cons x xs)
  show ?case
  proof (cases "f x = Inr None")
    case True
    with Cons show ?thesis
      by (auto simp: Cons_eq_append_conv) (metis append_Cons list.set_intros(1) set_ConsD)+
  next
    case False
    then show ?thesis by (force simp: Cons_eq_append_conv split: sum.splits option.splits)
  qed
qed simp

lemma first_hit_None: "first_hit f xs = Inr None \<longleftrightarrow> (\<forall>x \<in> set xs. f x = Inr None)"
  by (induction xs) (auto split: sum.splits option.splits)

text \<open>The loop over pages is the search of the whole ordered result.\<close>

lemma filter_after_last:
  assumes "sorted_wrt (\<lambda>x y. key x < key y) (b @ c)" and "b \<noteq> []"
  shows "filter (\<lambda>x. (key (last b) :: 'k::linorder) < key x) (b @ c) = c"
proof -
  obtain init l where b: "b = init @ [l]" using assms(2) by (cases b rule: rev_cases) auto
  with assms(1) have "filter (\<lambda>x. key l < key x) b = []" and "filter (\<lambda>x. key l < key x) c = c"
    by (auto simp: sorted_wrt_append filter_empty_conv filter_id_conv dest: less_asym)
  with b show ?thesis by simp
qed

lemma paged_scan_eq:
  "sorted_wrt (\<lambda>x y. key x < key y) rows \<Longrightarrow>
     paged_scan key f rows after = first_hit f (filter (\<lambda>x. after < key x) rows)"
proof (induction key f rows after rule: paged_scan.induct)
  case (1 key f rows after)
  let ?F = "filter (\<lambda>x. after < key x) rows"
  let ?b = "page key rows after"
  have split: "?F = ?b @ drop 100 ?F" by (simp add: page_def)
  then have F: "first_hit f ?F = (case first_hit f ?b of Inl e \<Rightarrow> Inl e | Inr (Some y) \<Rightarrow> Inr (Some y)
      | Inr None \<Rightarrow> first_hit f (drop 100 ?F))" by (metis first_hit_append)
  show ?case
  proof (cases "first_hit f ?b = Inr None \<and> \<not> length ?b < 100")
    case True
    then have ne: "?b \<noteq> []" by auto
    then have "last ?b \<in> set ?F" by (metis last_in_set page_def in_set_takeD)
    then have "after < key (last ?b)" by simp
    then have "filter (\<lambda>x. key (last ?b) < key x) rows = filter (\<lambda>x. key (last ?b) < key x) ?F"
      by (auto intro!: filter_cong)
    also have "\<dots> = drop 100 ?F"
      using filter_after_last [of key ?b "drop 100 ?F"] sorted_wrt_filter [OF "1.prems"] ne split by metis
    finally have rest: "filter (\<lambda>x. key (last ?b) < key x) rows = drop 100 ?F" .
    have "paged_scan key f rows after = paged_scan key f rows (key (last ?b))"
      using True by (subst paged_scan.simps) (simp add: Let_def)
    also have "\<dots> = first_hit f (drop 100 ?F)" using "1.IH" [OF refl] True "1.prems" by (simp add: rest)
    also have "\<dots> = first_hit f ?F" using True by (simp add: F)
    finally show ?thesis .
  next
    case False
    have "paged_scan key f rows after = first_hit f ?b"
      using False by (subst paged_scan.simps) (auto simp: Let_def split: sum.splits option.splits)
    also have "\<dots> = first_hit f ?F"
      using False unfolding F by (auto simp: page_def split: sum.splits option.splits)
    finally show ?thesis .
  qed
qed

lemma sorted_key_strict:
  "distinct (map k xs) \<Longrightarrow> sorted_wrt (\<lambda>x y. k x < k y) (sort_key (k :: 'a \<Rightarrow> 'b::linorder) xs)"
proof -
  assume "distinct (map k xs)"
  then have "distinct (map k (sort_key k xs))"
    by (metis distinct_map distinct_sort inj_on_def set_sort)
  then have "sorted_wrt (<) (map k (sort_key k xs))" by (simp add: strict_sorted_iff)
  then show ?thesis by (simp add: sorted_wrt_map)
qed

text \<open>An element is among the first \<open>n\<close> of a strictly ordered list when fewer than \<open>n\<close> precede it.\<close>

lemma in_take_iff_rank:
  assumes "sorted_wrt (\<lambda>x y. (k x :: 'b::linorder) < k y) xs" and "x \<in> set xs"
  shows "k x \<in> k ` set (take n xs) \<longleftrightarrow> card {y \<in> set xs. k y < k x} < n"
proof -
  obtain i where i: "i < length xs" "xs ! i = x" using assms(2) by (auto simp: in_set_conv_nth)
  have less: "k (xs ! a) < k (xs ! b) \<longleftrightarrow> a < b" if "a < length xs" "b < length xs" for a b
    using assms(1) that by (metis sorted_wrt_nth_less less_asym' linorder_neqE_nat less_irrefl)
  have "{y \<in> set xs. k y < k x} = (!) xs ` {..<i}"
    using i less by (auto simp: in_set_conv_nth) (metis order.strict_trans)
  moreover have "inj_on ((!) xs) {..<i}"
    using i less by (auto simp: inj_on_def) (metis less_irrefl linorder_neqE_nat order.strict_trans)
  ultimately have "card {y \<in> set xs. k y < k x} = i" by (simp add: card_image)
  moreover have "k x \<in> k ` set (take n xs) \<longleftrightarrow> i < n"
  proof
    assume "k x \<in> k ` set (take n xs)"
    then obtain j where "j < n" "j < length xs" "k (xs ! j) = k x" by (auto simp: in_set_conv_nth)
    with i less show "i < n" by (metis less_irrefl linorder_neqE_nat)
  next
    assume "i < n"
    with i have "x \<in> set (take n xs)" by (auto simp: in_set_conv_nth)
    then show "k x \<in> k ` set (take n xs)" by simp
  qed
  ultimately show ?thesis by simp
qed

lemma set_ranked [simp]: "set (ranked d) = {t \<in> set (video_tasks d). ready_queued t}"
  by (auto simp: ranked_def)

lemma ranked_strict:
  "distinct (map vt_queue_seq (video_tasks d)) \<Longrightarrow> sorted_wrt (\<lambda>x y. vt_queue_seq x < vt_queue_seq y) (ranked d)"
  unfolding ranked_def by (rule sorted_key_strict) (simp add: distinct_map_filter)

definition ahead :: "db \<Rightarrow> video_task \<Rightarrow> nat" where
  "ahead d t = card {u \<in> set (video_tasks d). ready_queued u \<and> vt_queue_seq u < vt_queue_seq t}"

lemma protected_iff:
  assumes "distinct (map vt_queue_seq (video_tasks d))" and "t \<in> set (video_tasks d)" and "ready_queued t"
  shows "vt_queue_seq t \<in> set (protected_seqs e d) \<longleftrightarrow> int (ahead d t) < ProtectedSlots e"
proof -
  have "vt_queue_seq t \<in> vt_queue_seq ` set (take (nat (ProtectedSlots e)) (ranked d)) \<longleftrightarrow>
      card {u \<in> set (ranked d). vt_queue_seq u < vt_queue_seq t} < nat (ProtectedSlots e)"
    using in_take_iff_rank [OF ranked_strict [OF assms(1)], of t] assms(2,3) by simp
  moreover have "{u \<in> set (ranked d). vt_queue_seq u < vt_queue_seq t}
      = {u \<in> set (video_tasks d). ready_queued u \<and> vt_queue_seq u < vt_queue_seq t}" by auto
  ultimately show ?thesis by (simp add: protected_seqs_def ahead_def zless_nat_eq_int_zless) linarith?
qed

lemma protected_ready:
  assumes "distinct (map vt_queue_seq (video_tasks d))" and "t \<in> set (video_tasks d)"
    and "vt_queue_seq t \<in> set (protected_seqs e d)"
  shows "ready_queued t"
proof -
  from assms(3) obtain u where "u \<in> set (ranked d)" "vt_queue_seq u = vt_queue_seq t"
    by (auto simp: protected_seqs_def dest: in_set_takeD)
  with assms(1,2) show ?thesis by (metis (mono_tags, lifting) key_unique mem_Collect_eq set_ranked)
qed

lemma rebalance_apply:
  "rebalance e now d = (Inr (), video_tasks_update
     (update_where (\<lambda>t. vt_deleted_at t = None \<and> queued (vt_status t)) (rebalance_row (protected_seqs e d) now)) d)"
  by (simp add: rebalance_def)

text \<open>C26: After rebalancing, a live queued task is locked against cancellation exactly when its route is
  ready and fewer than \<open>ProtectedSlots\<close> ready tasks wait ahead of it; no other task changes.\<close>

theorem rebalance_protects_front:
  assumes "distinct (map vt_queue_seq (video_tasks d))"
    and "rebalance e now d = (r, d')"
    and "i < length (video_tasks d)"
  shows "let t = video_tasks d ! i; t' = video_tasks d' ! i in
      r = Inr () \<and> length (video_tasks d') = length (video_tasks d) \<and>
      (if vt_deleted_at t = None \<and> queued (vt_status t)
       then t' = t\<lparr>vt_status := vt_status t', vt_cancel_locked := (vt_status t' = StatusQueuedLocked),
                   vt_updated_at := now, vt_version := vt_version t + 1\<rparr>
            \<and> queued (vt_status t')
            \<and> (vt_status t' = StatusQueuedLocked \<longleftrightarrow>
                 vt_route_state t = RouteReady \<and> int (ahead d t) < ProtectedSlots e)
       else t' = t)"
proof -
  have t: "video_tasks d ! i \<in> set (video_tasks d)" using assms(3) by simp
  have "vt_queue_seq (video_tasks d ! i) \<in> set (protected_seqs e d) \<longleftrightarrow>
      ready_queued (video_tasks d ! i) \<and> int (ahead d (video_tasks d ! i)) < ProtectedSlots e"
    using protected_iff [OF assms(1) t] protected_ready [OF assms(1) t] by blast
  with assms(2,3) show ?thesis
    by (auto simp: rebalance_apply rebalance_row_def ready_queued_def Let_def)
qed

text \<open>The status filter of the list queries agrees with the status a client reads.\<close>

theorem taskPublicStatusSQL_refines:
  assumes "distinct (map rr_task_id (task_remote_runs d))"
  shows "taskPublicStatusSQL d t = PublicStatus (scanTask d t)"
proof (cases "run_of d (vt_task_id t)")
  case None
  then have "\<not> exists_where (\<lambda>r. rr_task_id r = vt_task_id t \<and> P r) (task_remote_runs d)" for P
    by (auto simp: run_of_def select_where_None)
  with None show ?thesis
    by (cases "vt_status t") (auto simp: taskPublicStatusSQL_def PublicStatus_def scanTask_def protocol_defs)
next
  case (Some r)
  then have r: "r \<in> set (task_remote_runs d)" "rr_task_id r = vt_task_id t"
    by (auto simp: run_of_def dest: select_where_Some)
  then have "exists_where (\<lambda>r. rr_task_id r = vt_task_id t \<and> P r) (task_remote_runs d) \<longleftrightarrow> P r" for P
    using assms by (auto dest: key_unique)
  with Some show ?thesis
    by (cases "vt_status t") (auto simp: taskPublicStatusSQL_def PublicStatus_def scanTask_def protocol_defs
        coalesce_def split: option.splits)
qed

lemma internalStatuses_V2: "s \<in> set (internalStatuses v) \<longleftrightarrow> V2 s = v"
  by (cases s; cases v) auto

lemma nextEligibleTask_eq:
  assumes "distinct (map vt_queue_seq (video_tasks d))" and "\<forall>t \<in> set (video_tasks d). 0 < vt_queue_seq t"
  shows "nextEligibleTask nodeID now d =
     (case first_hit (consider_task d nodeID now) (map (scanTask d) (ranked d)) of
        Inl e \<Rightarrow> Inl e | Inr None \<Rightarrow> Inl ErrQueueEmpty | Inr (Some task) \<Rightarrow> Inr task)"
proof -
  have s: "sorted_wrt (\<lambda>x y. vt_queue_seq (tk_row x) < vt_queue_seq (tk_row y)) (map (scanTask d) (ranked d))"
    using ranked_strict [OF assms(1)] by (simp add: sorted_wrt_map scanTask_def Let_def)
  have "filter (\<lambda>x. 0 < vt_queue_seq (tk_row x)) (map (scanTask d) (ranked d)) = map (scanTask d) (ranked d)"
    using assms(2) by (auto simp: filter_id_conv scanTask_def Let_def)
  with paged_scan_eq [OF s, of "consider_task d nodeID now" 0] show ?thesis
    by (simp add: nextEligibleTask_def)
qed


lemma consider_task_hit: "consider_task d nodeID now x = Inr (Some y) \<Longrightarrow> y = x"
  by (auto simp: consider_task_def split: sum.splits option.splits if_splits)

lemma first_hit_Inl: "first_hit f xs = Inl e \<Longrightarrow> \<exists>x. f x = Inl e"
  by (induction xs) (auto split: sum.splits option.splits)

lemma scan_models_error: "scan_models ms = Inl e \<Longrightarrow> e = ErrText ''capabilities_json''"
  by (induction ms) (auto split: option.splits sum.splits)

lemma catalogWith_error: "catalogWith n d = Inl e \<Longrightarrow> e = ErrNodeNotFound \<or> e = ErrText ''capabilities_json''"
  by (auto simp: catalogWith_def dest: scan_models_error split: option.splits sum.splits)

lemma consider_task_error: "consider_task d nodeID now x = Inl ErrQueueEmpty \<Longrightarrow> False"
  by (auto simp: consider_task_def taskEligibleForNode_def Let_def dest: catalogWith_error
      split: sum.splits option.splits if_splits)

lemma nextEligibleTask_first:
  assumes "distinct (map vt_queue_seq (video_tasks d))" and "\<forall>t \<in> set (video_tasks d). 0 < vt_queue_seq t"
    and "nextEligibleTask nodeID now d = Inr task"
  shows "\<exists>t \<in> set (video_tasks d). ready_queued t \<and> task = scanTask d t
      \<and> consider_task d nodeID now task = Inr (Some task)
      \<and> (\<forall>u \<in> set (video_tasks d). ready_queued u \<and> vt_queue_seq u < vt_queue_seq t \<longrightarrow>
           consider_task d nodeID now (scanTask d u) = Inr None)"
proof -
  from assms(3) have "first_hit (consider_task d nodeID now) (map (scanTask d) (ranked d)) = Inr (Some task)"
    by (simp add: nextEligibleTask_eq [OF assms(1,2)] split: sum.splits option.splits)
  then obtain us t vs where r: "ranked d = us @ t # vs"
    and us: "\<forall>u \<in> set us. consider_task d nodeID now (scanTask d u) = Inr None"
    and t: "consider_task d nodeID now (scanTask d t) = Inr (Some task)"
    by (auto simp: first_hit_Some map_eq_append_conv)
  from consider_task_hit [OF t] have task: "task = scanTask d t" .
  have in_r: "t \<in> set (ranked d)" by (simp add: r)
  have "consider_task d nodeID now (scanTask d u) = Inr None"
    if "u \<in> set (video_tasks d)" "ready_queued u" "vt_queue_seq u < vt_queue_seq t" for u
  proof -
    have "u \<in> set (us @ t # vs)" using that(1,2) r by (metis (mono_tags, lifting) mem_Collect_eq set_ranked)
    moreover have "\<forall>v \<in> set (t # vs). \<not> vt_queue_seq v < vt_queue_seq t"
      using ranked_strict [OF assms(1)] by (auto simp: r sorted_wrt_append)
    ultimately show ?thesis using us that(3) by auto
  qed
  with in_r t task show ?thesis
    by (intro bexI [of _ t]) auto
qed

text \<open>C25: The page-by-page search for work returns the longest-waiting ready task the node may run, however
  many pages the queue has: every ready task ahead of it was found unsuitable, and an empty answer
  means that none is suitable.\<close>

theorem nextEligibleTask_fifo:
  assumes "distinct (map vt_queue_seq (video_tasks d))" and "\<forall>t \<in> set (video_tasks d). 0 < vt_queue_seq t"
  shows "(nextEligibleTask nodeID now d = Inr task \<longrightarrow>
            (\<exists>t \<in> set (video_tasks d). ready_queued t \<and> task = scanTask d t
               \<and> consider_task d nodeID now task = Inr (Some task)
               \<and> (\<forall>u \<in> set (video_tasks d). ready_queued u \<and> vt_queue_seq u < vt_queue_seq t \<longrightarrow>
                    consider_task d nodeID now (scanTask d u) = Inr None)))
    \<and> (nextEligibleTask nodeID now d = Inl ErrQueueEmpty \<longrightarrow>
         (\<forall>u \<in> set (video_tasks d). ready_queued u \<longrightarrow> consider_task d nodeID now (scanTask d u) \<noteq> Inr (Some (scanTask d u))))"
proof (intro conjI impI)
  assume "nextEligibleTask nodeID now d = Inr task"
  then show "\<exists>t \<in> set (video_tasks d). ready_queued t \<and> task = scanTask d t
      \<and> consider_task d nodeID now task = Inr (Some task)
      \<and> (\<forall>u \<in> set (video_tasks d). ready_queued u \<and> vt_queue_seq u < vt_queue_seq t \<longrightarrow>
           consider_task d nodeID now (scanTask d u) = Inr None)"
    by (rule nextEligibleTask_first [OF assms])
next
  assume empty: "nextEligibleTask nodeID now d = Inl ErrQueueEmpty"
  show "\<forall>u \<in> set (video_tasks d). ready_queued u \<longrightarrow> consider_task d nodeID now (scanTask d u) \<noteq> Inr (Some (scanTask d u))"
  proof (intro ballI impI notI)
    fix u assume u: "u \<in> set (video_tasks d)" "ready_queued u"
      and hit: "consider_task d nodeID now (scanTask d u) = Inr (Some (scanTask d u))"
    have "first_hit (consider_task d nodeID now) (map (scanTask d) (ranked d)) \<noteq> Inr None"
      using u hit unfolding first_hit_None by force
    then obtain e where e: "first_hit (consider_task d nodeID now) (map (scanTask d) (ranked d)) = Inl e" "e = ErrQueueEmpty"
      using empty by (auto simp: nextEligibleTask_eq [OF assms] split: sum.splits option.splits)
    then obtain x where "consider_task d nodeID now x = Inl ErrQueueEmpty" using first_hit_Inl by metis
    then show False by (rule consider_task_error)
  qed
qed


definition sample_snapshot :: RouteSnapshot where
  "sample_snapshot =
     \<lparr>sn_schema_version = 1, sn_model = ''m'', sn_protocol_version = ProtocolTK2SD, sn_route_version = 1,
      sn_routing_revision = 1, sn_selection_mode = ''auto'', sn_parameter_plan = ''direct'',
      sn_normalizer_version = ProtocolTK2SD,
      sn_requirements = \<lparr>rq_scenario = ''t2va'', rq_duration = 5, rq_resolution = ''768P'', rq_roles = [],
                         rq_input_sources = [], rq_media_count = 0\<rparr>\<rparr>"

definition sample_task :: "string \<Rightarrow> int \<Rightarrow> video_task" where
  "sample_task i q =
     (blank_task i q)\<lparr>vt_api_key_id := ''k'', vt_model := ''m'', vt_protocol_version := Some ProtocolTK2SD,
        vt_route_state := RouteReady, vt_routing_snapshot := Some sample_snapshot, vt_expires_at := 5000,
        vt_request := Some (sample_request\<lparr>gr_content := [hd sample_content]\<rparr>)\<rparr>"

definition sample_queue_db :: db where
  "sample_queue_db = sample_catalog_db\<lparr>video_tasks := [sample_task ''a'' 1, sample_task ''b'' 2]\<rparr>"

lemmas sample_queue_defs = sample_snapshot_def sample_task_def sample_queue_db_def sample_request_def sample_content_def
  sample_node_defs

lemmas queue_eval = nextEligibleTask_eq ranked_def ready_queued_def consider_task_def taskEligibleForNode_def
  model_accepts_def scanTask_def run_of_def Accepts_def Supports_def BuiltinCapability_def builtin_durations_def
  Media_def node_eval

theorem rebalance_protects_front_witness:
  "vt_status (video_tasks (snd (rebalance sample_env 7 sample_queue_db)) ! 0) = StatusQueuedLocked"
proof -
  obtain r d' where r: "rebalance sample_env 7 sample_queue_db = (r, d')" by (cases "rebalance sample_env 7 sample_queue_db")
  have h: "distinct (map vt_queue_seq (video_tasks sample_queue_db))" "0 < length (video_tasks sample_queue_db)"
    "video_tasks sample_queue_db ! 0 = sample_task ''a'' 1"
    by (simp_all add: sample_queue_defs)
  have "{u \<in> set (video_tasks sample_queue_db). ready_queued u \<and> vt_queue_seq u < vt_queue_seq (sample_task ''a'' 1)} = {}"
    by (auto simp: sample_queue_db_def sample_task_def blank_task_def)
  then have "ahead sample_queue_db (sample_task ''a'' 1) = 0" unfolding ahead_def by (simp only: card.empty)
  then show ?thesis
    using rebalance_protects_front [OF h(1) r h(2)]
    by (simp add: r h(3) Let_def) (simp add: sample_queue_defs)
qed

theorem taskPublicStatusSQL_refines_witness:
  "taskPublicStatusSQL sample_queue_db (sample_task ''a'' 1) = V2Queued"
proof -
  have "distinct (map rr_task_id (task_remote_runs sample_queue_db))" by (simp add: sample_queue_defs)
  then have "taskPublicStatusSQL sample_queue_db (sample_task ''a'' 1) = PublicStatus (scanTask sample_queue_db (sample_task ''a'' 1))"
    by (rule taskPublicStatusSQL_refines)
  also have "\<dots> = V2Queued" by (simp add: PublicStatus_def scanTask_def run_of_def sample_queue_defs)
  finally show ?thesis .
qed

theorem nextEligibleTask_fifo_witness:
  "\<exists>t \<in> set (video_tasks sample_queue_db). ready_queued t \<and> vt_task_id t = ''a''"
proof -
  have h: "distinct (map vt_queue_seq (video_tasks sample_queue_db))"
    "\<forall>t \<in> set (video_tasks sample_queue_db). 0 < vt_queue_seq t" by (simp_all add: sample_queue_defs)
  have "nextEligibleTask ''n1'' 1000 sample_queue_db = Inr (scanTask sample_queue_db (sample_task ''a'' 1))"
    unfolding nextEligibleTask_eq [OF h] by (simp add: queue_eval sample_queue_defs)
  with nextEligibleTask_fifo [OF h, of "''n1''" 1000] obtain t where
    "t \<in> set (video_tasks sample_queue_db)" "ready_queued t"
    "scanTask sample_queue_db (sample_task ''a'' 1) = scanTask sample_queue_db t" by blast
  then show ?thesis by (intro bexI [of _ t]) (auto simp: scanTask_def Let_def sample_task_def blank_task_def)
qed

end
