(* ===== verification/TaskStore.thy ===== *)
theory TaskStore
  imports TaskQueue "HOL-Library.Multiset"
begin

text \<open>
  The task operations of \<^verbatim>\<open>store.go\<close> and \<^verbatim>\<open>task_routing_store.go\<close>: creation with
  idempotency, quotas and route preparation, claiming, the legacy worker's transitions,
  cancellation, administration, queries.
\<close>

section \<open>New tasks\<close>

record NewTaskStage =
  ns_ID :: string
  ns_StageType :: string
  ns_ConfigSnapshotJSON :: string
  ns_StageOrder :: int
  ns_MaxAttempts :: int

record InputSpoolFile =
  sf_ID :: string
  sf_TaskID :: string
  sf_ContentIndex :: int
  sf_ContentType :: string
  sf_Role :: string
  sf_SourceKind :: string
  sf_DeclaredMIME :: string
  sf_DetectedMIME :: string
  sf_MediaType :: string
  sf_Extension :: string
  sf_RelativePath :: string
  sf_ObjectURL :: string
  sf_SizeBytes :: int
  sf_SHA256 :: string

record NewTask =
  nt_ProtocolVersion :: string
  nt_RouteState :: RouteState
  nt_RoutingSnapshot :: "RouteSnapshot json_text"
  nt_RequestNormalizer :: string
  nt_RoutingRevision :: int
  nt_TaskID :: string
  nt_APIKeyID :: string
  nt_Model :: string
  nt_Scenario :: string
  nt_Request :: "GenerationRequest option"
  nt_RequestHash :: string
  nt_Resolution :: string
  nt_Ratio :: string
  nt_Duration :: int
  nt_InputImageCount :: int
  nt_CallbackURLCiphertext :: string
  nt_CallbackURLNonce :: string
  nt_CallbackDeliveryID :: string
  nt_CallbackRequestBody :: string
  nt_CallbackRequestBodyHash :: string
  nt_ProfileID :: string
  nt_ConfigSnapshotJSON :: string
  nt_ConfigHash :: string
  nt_ProfileVersion :: int
  nt_Stages :: "NewTaskStage list"
  nt_InputSpoolFiles :: "InputSpoolFile list"

section \<open>Route preparation\<close>

definition inferred_protocol :: "NewTask \<Rightarrow> db \<Rightarrow> err + string" where
  "inferred_protocol t d =
     (if nt_ProtocolVersion t \<noteq> [] then Inr (nt_ProtocolVersion t)
      else
        (let protocols = model_protocols d (nt_Model t) in
         if length protocols > 1 then Inl ErrRouteAmbiguous
         else if length protocols = 1 then Inr (hd protocols)
         else if nt_Stages t \<noteq> [] then Inr ProtocolH3
         else Inr ProtocolLegacy))"

definition default_snapshot :: "NewTask \<Rightarrow> RouteSnapshot" where
  "default_snapshot t =
     \<lparr>sn_schema_version = 1, sn_model = nt_Model t, sn_protocol_version = nt_ProtocolVersion t,
      sn_route_version = 0, sn_routing_revision = 0, sn_selection_mode = [], sn_parameter_plan = [],
      sn_normalizer_version = nt_RequestNormalizer t,
      sn_requirements = \<lparr>rq_scenario = nt_Scenario t, rq_duration = nt_Duration t,
                         rq_resolution = nt_Resolution t, rq_roles = [], rq_input_sources = [],
                         rq_media_count = 0\<rparr>\<rparr>"

definition serving_nodes :: "db \<Rightarrow> string \<Rightarrow> string \<Rightarrow> int \<Rightarrow> string list" where
  "serving_nodes d protocol model now =
     map mn_id (filter (\<lambda>n. offers d model n \<and> mn_protocol_version n = protocol
       \<and> list_ex (\<lambda>c. mc_node_id c = mn_id n
            \<and> (mc_source c \<noteq> ''discovered'' \<or> (case mc_valid_until c of None \<Rightarrow> False | Some v \<Rightarrow> v > now)))
           (node_model_catalogs d)) (model_service_nodes d))"

fun any_accepts :: "db \<Rightarrow> string \<Rightarrow> TaskRequirements \<Rightarrow> string list \<Rightarrow> err + bool" where
  "any_accepts d model req [] = Inr False"
| "any_accepts d model req (i # is) =
     (case catalogWith i d of
        Inl e \<Rightarrow> Inl e
      | Inr cat \<Rightarrow>
          (case any_accepts d model req is of
             Inl e \<Rightarrow> Inl e
           | Inr b \<Rightarrow> Inr (list_ex (model_accepts model req) (cg_items cat) \<or> b)))"

definition check_revision :: "StoreEnv \<Rightarrow> NewTask \<Rightarrow> RouteSnapshot \<Rightarrow> db \<Rightarrow> err + unit" where
  "check_revision e t snap d =
     (if nt_RoutingRevision t \<le> 0 then Inr ()
      else if routing_revision d \<noteq> nt_RoutingRevision t then Inl ErrRouteChanged
      else
        (let ids = serving_nodes d (nt_ProtocolVersion t) (nt_Model t) (nowUnix e) in
         if ids = [] then Inl ErrRouteUnavailable
         else
           (case any_accepts d (nt_Model t) (sn_requirements snap) ids of
              Inl er \<Rightarrow> Inl er
            | Inr b \<Rightarrow> if b then Inr () else Inl ErrModelInput)))"

definition prepareTaskRouting :: "StoreEnv \<Rightarrow> NewTask \<Rightarrow> db \<Rightarrow> err + NewTask \<times> RouteSnapshot" where
  "prepareTaskRouting e t0 d =
     (case inferred_protocol t0 d of
        Inl er \<Rightarrow> Inl er
      | Inr protocol \<Rightarrow>
          if Lookup protocol = None then Inl ErrRouteUnavailable
          else
            (let t1 = t0\<lparr>nt_ProtocolVersion := protocol,
                         nt_RequestNormalizer := (if nt_RequestNormalizer t0 = [] then ''legacy-h3-v1''
                                                  else nt_RequestNormalizer t0)\<rparr>;
                 text = (if nt_RoutingSnapshot t1 = NoText then Decoded (default_snapshot t1)
                         else nt_RoutingSnapshot t1)
             in case text of
                  Decoded snap \<Rightarrow>
                    if sn_protocol_version snap \<noteq> protocol \<or> sn_model snap \<noteq> nt_Model t1 then Inl ErrRouteChanged
                    else
                      (case check_revision e t1 snap d of
                         Inl er \<Rightarrow> Inl er
                       | Inr _ \<Rightarrow> Inr (t1\<lparr>nt_RoutingSnapshot := text, nt_RouteState := RouteReady\<rparr>, snap))
                | _ \<Rightarrow> Inl (ErrText ''routing snapshot'')))"

section \<open>Create\<close>

definition live_key :: "db \<Rightarrow> string \<Rightarrow> string \<Rightarrow> int \<Rightarrow> idempotency_key option" where
  "live_key d owner keyHash now =
     select_where (\<lambda>k. ik_api_key_id k = owner \<and> ik_key_hash k = keyHash \<and> ik_expires_at k > now
       \<and> exists_where (\<lambda>t. vt_task_id t = ik_task_id k \<and> vt_deleted_at t = None) (video_tasks d)) (idempotency_keys d)"

definition unfinished_of :: "string \<Rightarrow> db \<Rightarrow> nat" where
  "unfinished_of owner d =
     affected (\<lambda>t. vt_api_key_id t = owner \<and> vt_deleted_at t = None \<and> unfinished (vt_status t)) (video_tasks d)"

definition unfinished_all :: "db \<Rightarrow> nat" where
  "unfinished_all d = affected (\<lambda>t. vt_deleted_at t = None \<and> unfinished (vt_status t)) (video_tasks d)"

definition new_task_row :: "StoreEnv \<Rightarrow> NewTask \<Rightarrow> int \<Rightarrow> video_task" where
  "new_task_row e t seq =
     (let now = nowUnix e in
      (blank_task (nt_TaskID t) seq)\<lparr>vt_api_key_id := nt_APIKeyID t, vt_model := nt_Model t,
        vt_scenario := nt_Scenario t, vt_request := nt_Request t, vt_request_hash := nt_RequestHash t,
        vt_status := StatusQueuedOpen, vt_resolution := nt_Resolution t, vt_duration := nt_Duration t,
        vt_ratio_requested := nt_Ratio t, vt_usage_input_image_count := nt_InputImageCount t,
        vt_callback_url_ciphertext := nullif_empty (nt_CallbackURLCiphertext t),
        vt_callback_url_nonce := nullif_empty (nt_CallbackURLNonce t),
        vt_profile_id := nullif_empty (nt_ProfileID t), vt_profile_version := nullif_zero (nt_ProfileVersion t),
        vt_config_snapshot_json := nullif_empty (nt_ConfigSnapshotJSON t),
        vt_config_hash := nullif_empty (nt_ConfigHash t), vt_created_at := now, vt_updated_at := now,
        vt_expires_at := now + Retention e\<rparr>)"

text \<open>The CHECK and UNIQUE constraints an INSERT into the task table can violate.\<close>

definition task_insert_ok :: "video_task \<Rightarrow> db \<Rightarrow> bool" where
  "task_insert_ok r d \<longleftrightarrow>
     \<not> exists_where (\<lambda>t. vt_task_id t = vt_task_id r) (video_tasks d)
     \<and> vt_scenario r \<in> {''t2va'', ''i2va'', ''r2va''} \<and> rune_count (vt_resolution r) \<le> 32 \<and> vt_duration r > 0"

definition insert_task :: "StoreEnv \<Rightarrow> NewTask \<Rightarrow> unit op" where
  "insert_task e t =
     and_then (gets next_queue_seq) (\<lambda>seq.
     and_then (ensuring (task_insert_ok (new_task_row e t seq)) (ErrSQL ''video_tasks'')) (\<lambda>_.
     and_then (modify (next_queue_seq_update (\<lambda>n. n + 1))) (\<lambda>_.
     exec_insert video_tasks_update (new_task_row e t seq))))"

definition insert_first_delivery :: "StoreEnv \<Rightarrow> NewTask \<Rightarrow> unit op" where
  "insert_first_delivery e t =
     (if nt_CallbackURLCiphertext t = [] then ret ()
      else if nt_CallbackDeliveryID t = [] \<or> nt_CallbackRequestBody t = [] \<or> nt_CallbackRequestBodyHash t = []
      then raise (ErrText ''callback snapshot'')
      else
        and_then (ensuring (\<lambda>d. \<not> exists_where (\<lambda>x. cd_id x = nt_CallbackDeliveryID t
                     \<or> (cd_task_id x = nt_TaskID t \<and> cd_state_version x = 1)) (callback_deliveries d))
                   (ErrSQL ''callback_deliveries'')) (\<lambda>_.
        exec_insert callback_deliveries_update
          (new_delivery (nt_CallbackDeliveryID t) (nt_TaskID t) ''queued'' 1 (nt_CallbackRequestBodyHash t)
             (nt_CallbackRequestBody t) (nowUnix e * 1000))))"

definition new_stage_row ::
  "string \<Rightarrow> string \<Rightarrow> int \<Rightarrow> string \<Rightarrow> int \<Rightarrow> string option \<Rightarrow> string option \<Rightarrow> string \<Rightarrow> int \<Rightarrow> task_stage" where
  "new_stage_row i task order type maxAttempts preferred input config now =
     \<lparr>ts_id = i, ts_task_id = task, ts_stage_order = order, ts_stage_type = type, ts_required = True,
      ts_status = StagePending, ts_attempt_count = 0, ts_max_attempts = maxAttempts,
      ts_preferred_node_id = preferred, ts_current_node_id = None, ts_input_artifact_id = input,
      ts_output_artifact_id = None, ts_config_snapshot_json = config, ts_lease_token = None,
      ts_lease_expires_at = None, ts_next_attempt_at = None, ts_error_code = None, ts_error_message = None,
      ts_created_at = now, ts_updated_at = now, ts_started_at = None, ts_finished_at = None, ts_row_version = 1\<rparr>"

definition insert_stage_row :: "task_stage \<Rightarrow> unit op" where
  "insert_stage_row r =
     and_then (ensuring (\<lambda>d. \<not> exists_where (\<lambda>x. ts_id x = ts_id r
                  \<or> (ts_task_id x = ts_task_id r \<and> ts_stage_order x = ts_stage_order r)) (task_stages d)
                \<and> exists_where (\<lambda>t. vt_task_id t = ts_task_id r) (video_tasks d)
                \<and> ts_stage_order r \<ge> 0 \<and> ts_max_attempts r \<ge> 1
                \<and> ts_stage_type r \<in> {''generation'', ''interpolation'', ''restoration'', ''watermark'', ''final_validation''})
               (ErrSQL ''task_stages'')) (\<lambda>_.
     exec_insert task_stages_update r)"

definition insert_stage :: "StoreEnv \<Rightarrow> string \<Rightarrow> NewTaskStage \<Rightarrow> unit op" where
  "insert_stage e task s =
     (if ns_ID s = [] \<or> ns_StageType s = [] \<or> ns_ConfigSnapshotJSON s = [] \<or> ns_MaxAttempts s < 1
      then raise (ErrText ''stage snapshot'')
      else insert_stage_row (new_stage_row (ns_ID s) task (ns_StageOrder s) (ns_StageType s) (ns_MaxAttempts s)
             None None (ns_ConfigSnapshotJSON s) (nowUnix e * 1000)))"

definition is_hex_char :: "char \<Rightarrow> bool" where
  "is_hex_char c \<longleftrightarrow> is_digit_char c \<or> (65 \<le> byte c \<and> byte c \<le> 70) \<or> (97 \<le> byte c \<and> byte c \<le> 102)"

definition validateInputSpoolFile :: "url_parser \<Rightarrow> InputSpoolFile \<Rightarrow> err option" where
  "validateInputSpoolFile up f =
     (if sf_ID f = [] \<or> sf_TaskID f = [] \<or> sf_ContentIndex f < 0 \<or> sf_Role f = [] \<or> sf_MediaType f = []
         \<or> sf_Extension f = [] \<or> sf_RelativePath f = [] \<or> sf_SizeBytes f \<le> 0 \<or> length (sf_SHA256 f) \<noteq> 64
      then Some (ErrText ''spool metadata'')
      else if \<not> list_all is_hex_char (sf_SHA256 f) then Some (ErrText ''spool sha256'')
      else if sf_ContentType f \<notin> {''image_url'', ''video_url'', ''audio_url''} then Some (ErrText ''spool type'')
      else if sf_SourceKind f \<noteq> [] \<and> sf_SourceKind f \<noteq> ''data_uri'' then Some (ErrText ''spool source'')
      else if sf_ObjectURL f \<noteq> [] \<and>
              (case up (sf_ObjectURL f) of None \<Rightarrow> True
               | Some u \<Rightarrow> u_scheme u \<noteq> ''https'' \<or> u_host u = [] \<or> u_has_user u \<or> u_fragment u \<noteq> [])
      then Some (ErrText ''object url'')
      else None)"

definition insert_spool :: "StoreEnv \<Rightarrow> string \<Rightarrow> InputSpoolFile \<Rightarrow> unit op" where
  "insert_spool e task f0 =
     (let f = f0\<lparr>sf_TaskID := (if sf_TaskID f0 = [] then task else sf_TaskID f0),
                 sf_SourceKind := (if sf_SourceKind f0 = [] then ''data_uri'' else sf_SourceKind f0)\<rparr>
      in case validateInputSpoolFile (url_parse e) f of
           Some er \<Rightarrow> raise er
         | None \<Rightarrow>
             and_then (ensuring (\<lambda>d. \<not> exists_where (\<lambda>x. sp_id x = sf_ID f
                          \<or> (sp_task_id x = sf_TaskID f \<and> sp_content_index x = sf_ContentIndex f)) (task_input_spool_files d)
                        \<and> exists_where (\<lambda>t. vt_task_id t = sf_TaskID f) (video_tasks d))
                       (ErrSQL ''task_input_spool_files'')) (\<lambda>_.
             exec_insert task_input_spool_files_update
               \<lparr>sp_id = sf_ID f, sp_task_id = sf_TaskID f, sp_content_index = sf_ContentIndex f,
                sp_content_type = sf_ContentType f, sp_role = sf_Role f, sp_source_kind = sf_SourceKind f,
                sp_declared_mime = nullif_empty (sf_DeclaredMIME f), sp_detected_mime = nullif_empty (sf_DetectedMIME f),
                sp_media_type = sf_MediaType f, sp_extension = sf_Extension f, sp_relative_path = sf_RelativePath f,
                sp_object_url = nullif_empty (sf_ObjectURL f),
                sp_size_bytes = sf_SizeBytes f, sp_sha256 = sf_SHA256 f\<rparr>))"

definition replay :: "NewTask \<Rightarrow> int \<Rightarrow> idempotency_key \<Rightarrow> Task op" where
  "replay t now k =
     (if ik_request_hash k \<noteq> nt_RequestHash t then raise ErrIdempotencyConflict
      else reading (getWith (nt_APIKeyID t) (ik_task_id k) now))"

definition forget_key :: "string \<Rightarrow> string \<Rightarrow> unit op" where
  "forget_key owner keyHash =
     (if keyHash = [] then ret ()
      else exec_delete idempotency_keys_update (\<lambda>k. ik_api_key_id k = owner \<and> ik_key_hash k = keyHash))"

definition remember_key :: "StoreEnv \<Rightarrow> NewTask \<Rightarrow> string \<Rightarrow> unit op" where
  "remember_key e t keyHash =
     (if keyHash = [] then ret ()
      else exec_insert idempotency_keys_update
        \<lparr>ik_api_key_id = nt_APIKeyID t, ik_key_hash = keyHash, ik_request_hash = nt_RequestHash t,
         ik_task_id = nt_TaskID t, ik_created_at = nowUnix e, ik_expires_at = nowUnix e + IdempotencyTTL e\<rparr>)"

definition create_new :: "StoreEnv \<Rightarrow> NewTask \<Rightarrow> string \<Rightarrow> Task op" where
  "create_new e t0 keyHash =
     (let now = nowUnix e; owner = nt_APIKeyID t0 in
      and_then (forget_key owner keyHash) (\<lambda>_.
      and_then (ensuring (\<lambda>d. int (unfinished_of owner d) < PerKeyLimit e) ErrPerKeyLimit) (\<lambda>_.
      and_then (ensuring (\<lambda>d. int (unfinished_all d) < GlobalLimit e) ErrGlobalLimit) (\<lambda>_.
      and_then (reading (prepareTaskRouting e t0)) (\<lambda>(t, snap).
      and_then (insert_task e t) (\<lambda>_.
      and_then (update_tasks (\<lambda>r. vt_task_id r = nt_TaskID t)
                  (\<lambda>r. r\<lparr>vt_protocol_version := Some (nt_ProtocolVersion t), vt_route_state := nt_RouteState t,
                         vt_routing_snapshot := Some snap, vt_request_normalizer := nt_RequestNormalizer t\<rparr>)) (\<lambda>_.
      and_then (insert_first_delivery e t) (\<lambda>_.
      and_then (for_each (insert_stage e (nt_TaskID t)) (nt_Stages t)) (\<lambda>_.
      and_then (for_each (insert_spool e (nt_TaskID t)) (nt_InputSpoolFiles t)) (\<lambda>_.
      and_then (remember_key e t keyHash) (\<lambda>_.
      and_then (rebalance e now) (\<lambda>_.
      reading (getWith owner (nt_TaskID t) now)))))))))))))"

definition Create :: "StoreEnv \<Rightarrow> NewTask \<Rightarrow> string \<Rightarrow> bool \<Rightarrow> Task op" where
  "Create e t keyHash available = atomically
     (and_then (gets (\<lambda>d. if keyHash = [] then None else live_key d (nt_APIKeyID t) keyHash (nowUnix e))) (\<lambda>found.
      case found of
        Some k \<Rightarrow> replay t (nowUnix e) k
      | None \<Rightarrow> and_then (ensure available ErrResourceUnavailable) (\<lambda>_. create_new e t keyHash)))"

section \<open>Claiming for a single-slot upstream\<close>

definition node_current :: "string \<Rightarrow> int \<Rightarrow> db \<Rightarrow> bool" where
  "node_current i version d \<longleftrightarrow>
     affected (\<lambda>n. mn_id n = i \<and> mn_version n = version \<and> mn_enabled n \<and> mn_deleted_at n = None)
       (model_service_nodes d) = 1"

definition active_on :: "string \<Rightarrow> db \<Rightarrow> nat" where
  "active_on upstreamID d =
     affected (\<lambda>t. vt_upstream_id t = Some upstreamID \<and> active (vt_status t)) (video_tasks d)"

definition ClaimNext :: "StoreEnv \<Rightarrow> string \<Rightarrow> int option \<Rightarrow> Task op" where
  "ClaimNext e upstreamID expectedVersion = atomically
     (let now = nowUnix e in
      and_then (ensuring (\<lambda>d. case expectedVersion of None \<Rightarrow> True | Some v \<Rightarrow> node_current upstreamID v d)
                  ErrNodeConfigStale) (\<lambda>_.
      and_then (ensuring (\<lambda>d. active_on upstreamID d = 0) ErrUpstreamBusy) (\<lambda>_.
      and_then (reading (nextEligibleTask upstreamID now)) (\<lambda>selected.
      and_then (update_one_task (\<lambda>t. vt_task_id t = vt_task_id (tk_row selected)
                                     \<and> vt_status t = vt_status (tk_row selected))
                  (\<lambda>t. t\<lparr>vt_status := StatusDispatching, vt_cancel_locked := True, vt_upstream_id := Some upstreamID,
                         vt_started_at := keep_or (vt_started_at t) now, vt_updated_at := now,
                         vt_version := vt_version t + 1\<rparr>)) (\<lambda>_.
      and_then (rebalance e now) (\<lambda>_.
      reading (getWith (vt_api_key_id (tk_row selected)) (vt_task_id (tk_row selected)) now)))))))"

section \<open>Transitions of a dispatched task\<close>

abbreviation held :: "string \<Rightarrow> string \<Rightarrow> InternalStatus set \<Rightarrow> video_task \<Rightarrow> bool" where
  "held i upstreamID sts t \<equiv> vt_task_id t = i \<and> vt_upstream_id t = Some upstreamID \<and> vt_status t \<in> sts"

definition touched :: "int \<Rightarrow> video_task \<Rightarrow> video_task" where
  "touched now t = t\<lparr>vt_updated_at := now, vt_version := vt_version t + 1\<rparr>"

text \<open>
  The trigger \<open>protect_video_tasks_original_result_url\<close> aborts an UPDATE that would change a
  stored original result URL.
\<close>

definition result_url_kept :: "(video_task \<Rightarrow> bool) \<Rightarrow> string \<Rightarrow> db \<Rightarrow> bool" where
  "result_url_kept p u d \<longleftrightarrow>
     list_all (\<lambda>t. p t \<longrightarrow> vt_result_internal_url t = None \<or> vt_result_internal_url t = Some u) (video_tasks d)"

definition MarkSucceeded :: "StoreEnv \<Rightarrow> string \<Rightarrow> string \<Rightarrow> string \<Rightarrow> string \<Rightarrow> string \<Rightarrow> unit op" where
  "MarkSucceeded e i upstreamID internalURL publicURL ratio = committing
     (let now = nowUnix e;
          sel = held i upstreamID {StatusDispatching, StatusRunning, StatusReconciling} in
      and_then (ensuring (result_url_kept sel internalURL) (ErrSQL ''result_internal_url is immutable'')) (\<lambda>_.
      and_then (update_one_task sel
                  (\<lambda>t. (touched now t)\<lparr>vt_status := StatusSucceeded, vt_result_internal_url := Some internalURL,
                         vt_result_public_url := Some publicURL, vt_ratio_actual := Some ratio,
                         vt_usage_total_seconds := vt_duration t, vt_usage_output_seconds := vt_duration t,
                         vt_finished_at := Some now\<rparr>)) (\<lambda>_.
      createCallbackDeliveryWithConn e i ''succeeded'' (now * 1000))))"

definition SaveBaseline :: "StoreEnv \<Rightarrow> string \<Rightarrow> string \<Rightarrow> string list \<Rightarrow> unit op" where
  "SaveBaseline e i upstreamID urls =
     update_one_task (held i upstreamID {StatusDispatching})
       (\<lambda>t. (touched (nowUnix e) t)\<lparr>vt_gallery_before := Some urls\<rparr>)"

definition SaveSubmissionContext :: "StoreEnv \<Rightarrow> string \<Rightarrow> string \<Rightarrow> string list \<Rightarrow> unit op" where
  "SaveSubmissionContext e i upstreamID jobIDs =
     update_one_task (held i upstreamID {StatusDispatching})
       (\<lambda>t. (touched (nowUnix e) t)\<lparr>vt_upstream_jobs_before := Some jobIDs, vt_attempt_started_at := Some (nowUnix e)\<rparr>)"

definition BindUpstreamJob :: "StoreEnv \<Rightarrow> string \<Rightarrow> string \<Rightarrow> string \<Rightarrow> unit op" where
  "BindUpstreamJob e i upstreamID jobID =
     update_one_task (held i upstreamID {StatusDispatching, StatusReconciling})
       (\<lambda>t. (touched (nowUnix e) t)\<lparr>vt_upstream_job_id := Some jobID, vt_status := StatusRunning\<rparr>)"

definition BeginRetry :: "StoreEnv \<Rightarrow> string \<Rightarrow> string \<Rightarrow> string list \<Rightarrow> string list \<Rightarrow> unit op" where
  "BeginRetry e i upstreamID jobIDsBefore galleryBefore =
     update_one_task (\<lambda>t. held i upstreamID {StatusRunning, StatusReconciling} t \<and> vt_retry_count t = 0)
       (\<lambda>t. (touched (nowUnix e) t)\<lparr>vt_status := StatusDispatching, vt_retry_count := 1, vt_upstream_job_id := None,
              vt_upstream_jobs_before := Some jobIDsBefore, vt_gallery_before := Some galleryBefore,
              vt_attempt_started_at := Some (nowUnix e), vt_error_code := None, vt_error_message := None\<rparr>)"

definition FinishCancelled :: "StoreEnv \<Rightarrow> string \<Rightarrow> string \<Rightarrow> unit op" where
  "FinishCancelled e i upstreamID = committing
     (let now = nowUnix e in
      and_then (update_one_task (held i upstreamID {StatusCancelling})
                  (\<lambda>t. (touched now t)\<lparr>vt_status := StatusCancelled, vt_cancel_locked := False,
                         vt_finished_at := Some now\<rparr>)) (\<lambda>_.
      createCallbackDeliveryWithConn e i ''cancelled'' (now * 1000)))"

definition MarkRunning :: "StoreEnv \<Rightarrow> string \<Rightarrow> string \<Rightarrow> unit op" where
  "MarkRunning e i upstreamID =
     update_one_task (held i upstreamID {StatusDispatching})
       (\<lambda>t. (touched (nowUnix e) t)\<lparr>vt_status := StatusRunning\<rparr>)"

definition MarkReconciling :: "StoreEnv \<Rightarrow> string \<Rightarrow> string \<Rightarrow> unit op" where
  "MarkReconciling e i upstreamID =
     update_one_task (held i upstreamID {StatusDispatching, StatusRunning, StatusReconciling})
       (\<lambda>t. (touched (nowUnix e) t)\<lparr>vt_status := StatusReconciling\<rparr>)"

definition MarkFailed :: "StoreEnv \<Rightarrow> string \<Rightarrow> string \<Rightarrow> string \<Rightarrow> string \<Rightarrow> unit op" where
  "MarkFailed e i upstreamID code message = committing
     (let now = nowUnix e in
      and_then (update_one_task (held i upstreamID {StatusDispatching, StatusRunning, StatusReconciling})
                  (\<lambda>t. (touched now t)\<lparr>vt_status := StatusFailed, vt_error_code := Some code,
                         vt_error_message := Some message, vt_finished_at := Some now\<rparr>)) (\<lambda>_.
      createCallbackDeliveryWithConn e i ''failed'' (now * 1000)))"

definition Requeue :: "StoreEnv \<Rightarrow> string \<Rightarrow> string \<Rightarrow> unit op" where
  "Requeue e i upstreamID = atomically
     (and_then (update_one_task (held i upstreamID {StatusDispatching})
        (\<lambda>t. (touched (nowUnix e) t)\<lparr>vt_status := StatusQueuedOpen, vt_cancel_locked := False, vt_upstream_id := None,
               vt_gradio_event_id := None, vt_upstream_job_id := None, vt_upstream_jobs_before := Some [],
               vt_official_submission_baseline_saved := False, vt_upstream_feedback := None, vt_retry_count := 0,
               vt_attempt_started_at := None, vt_cancel_requested_at := None, vt_gallery_before := None,
               vt_started_at := None\<rparr>)) (\<lambda>_.
      rebalance e (nowUnix e)))"

section \<open>Queries\<close>

record TaskFilter =
  fi_Model :: string
  fi_Status :: "V2Status option"
  fi_TaskIDs :: "string list"
  fi_PageNum :: int
  fi_PageSize :: int

definition visible_to :: "StoreEnv \<Rightarrow> string \<Rightarrow> TaskFilter \<Rightarrow> db \<Rightarrow> video_task \<Rightarrow> bool" where
  "visible_to e owner f d t \<longleftrightarrow>
     vt_api_key_id t = owner \<and> vt_deleted_at t = None \<and> vt_expires_at t > nowUnix e
     \<and> (fi_Model f \<noteq> [] \<longrightarrow> vt_model t = fi_Model f)
     \<and> (case fi_Status f of None \<Rightarrow> True | Some s \<Rightarrow> taskPublicStatusSQL d t = s)
     \<and> (fi_TaskIDs f \<noteq> [] \<longrightarrow> vt_task_id t \<in> set (fi_TaskIDs f))"

definition newest_first :: "video_task list \<Rightarrow> video_task list" where
  "newest_first ts = rev (sort_key (\<lambda>t. vt_created_at t) (sort_key (\<lambda>t. vt_queue_seq t) ts))"

definition limit_offset :: "int \<Rightarrow> int \<Rightarrow> 'a list \<Rightarrow> 'a list" where
  "limit_offset limit offset xs = take (nat limit) (drop (nat offset) xs)"

text \<open>The offset is a product of two Go ints, which may wrap; SQLite reads a negative OFFSET as 0.\<close>

definition List :: "StoreEnv \<Rightarrow> string \<Rightarrow> TaskFilter \<Rightarrow> (Task list \<times> nat) op" where
  "List e owner f =
     gets (\<lambda>d. let rows = filter (visible_to e owner f d) (video_tasks d);
                   pageNum = (if fi_PageNum f \<le> 0 then 1 else fi_PageNum f);
                   pageSize = (if fi_PageSize f \<le> 0 then 20 else fi_PageSize f)
               in (map (scanTask d) (limit_offset pageSize (wrap64 ((pageNum - 1) * pageSize)) (newest_first rows)),
                   length rows))"

record AdminTaskFilter =
  af_Model :: string
  af_ProtocolVersion :: string
  af_RouteState :: "RouteState option"
  af_Status :: "V2Status option"
  af_UpstreamID :: string
  af_Search :: string
  af_PageNum :: int
  af_PageSize :: int

fun contains :: "string \<Rightarrow> string \<Rightarrow> bool" where
  "contains [] p = (p = [])"
| "contains (c # s) p = (has_prefix (c # s) p \<or> contains s p)"

definition visible_to_admin :: "StoreEnv \<Rightarrow> AdminTaskFilter \<Rightarrow> db \<Rightarrow> video_task \<Rightarrow> bool" where
  "visible_to_admin e f d t \<longleftrightarrow>
     vt_deleted_at t = None \<and> vt_expires_at t > nowUnix e
     \<and> (af_Model f \<noteq> [] \<longrightarrow> vt_model t = af_Model f)
     \<and> (af_ProtocolVersion f \<noteq> [] \<longrightarrow> vt_protocol_version t = Some (af_ProtocolVersion f))
     \<and> (case af_RouteState f of None \<Rightarrow> True | Some s \<Rightarrow> vt_route_state t = s)
     \<and> (case af_Status f of None \<Rightarrow> True | Some s \<Rightarrow> taskPublicStatusSQL d t = s)
     \<and> (af_UpstreamID f \<noteq> [] \<longrightarrow> vt_upstream_id t = Some (af_UpstreamID f))
     \<and> (af_Search f \<noteq> [] \<longrightarrow> has_prefix (vt_task_id t) (af_Search f) \<or> has_prefix (vt_api_key_id t) (af_Search f)
                            \<or> contains (vt_model t) (af_Search f))"

definition max_int64 :: int where
  "max_int64 = 2 ^ 63 - 1"

text \<open>
  \<open>ListAdminTasks\<close> with the summary as the row and its public status; a page number whose offset
  would overflow an int64 gives an empty page.
\<close>

definition ListAdminTasks :: "StoreEnv \<Rightarrow> AdminTaskFilter \<Rightarrow> ((video_task \<times> V2Status) list \<times> nat) op" where
  "ListAdminTasks e f =
     gets (\<lambda>d. let rows = filter (visible_to_admin e f d) (video_tasks d);
                   pageNum = (if af_PageNum f \<le> 0 then 1 else af_PageNum f);
                   pageSize = (if af_PageSize f \<le> 0 then 10 else af_PageSize f)
               in if pageNum - 1 > max_int64 div pageSize then ([], length rows)
                  else (map (\<lambda>t. (t, taskPublicStatusSQL d t))
                          (limit_offset pageSize ((pageNum - 1) * pageSize) (newest_first rows)),
                        length rows))"

definition LatestFinishedForUpstream :: "StoreEnv \<Rightarrow> string \<Rightarrow> (video_task \<times> V2Status) op" where
  "LatestFinishedForUpstream e upstreamID =
     reading (\<lambda>d. case rev (sort_key (\<lambda>t. coalesce (vt_finished_at t) (- 1)) (sort_key vt_queue_seq
         (filter (\<lambda>t. vt_upstream_id t = Some upstreamID \<and> AdminCanDelete (vt_status t) \<and> vt_deleted_at t = None
                      \<and> vt_expires_at t > nowUnix e) (video_tasks d)))) of
        [] \<Rightarrow> Inl ErrTaskNotFound
      | t # _ \<Rightarrow> Inr (t, taskPublicStatusSQL d t))"

definition FindIdempotentRecord :: "StoreEnv \<Rightarrow> string \<Rightarrow> string \<Rightarrow> Task op" where
  "FindIdempotentRecord e owner keyHash =
     reading (\<lambda>d. case live_key d owner keyHash (nowUnix e) of
        None \<Rightarrow> Inl ErrTaskNotFound
      | Some k \<Rightarrow> getWith owner (ik_task_id k) (nowUnix e) d)"

section \<open>Binding a legacy task to a route\<close>

definition untouched_by_upstream :: "video_task \<Rightarrow> bool" where
  "untouched_by_upstream t \<longleftrightarrow>
     coalesce (vt_upstream_job_id t) [] = [] \<and> coalesce (vt_gradio_event_id t) [] = []
     \<and> \<not> vt_official_submission_baseline_saved t \<and> coalesce (vt_attempt_started_at t) 0 \<le> 0"

definition dispatch_evidence :: "string \<Rightarrow> db \<Rightarrow> nat" where
  "dispatch_evidence i d =
     affected (\<lambda>a. exists_where (\<lambda>s. ts_id s = sa_stage_id a \<and> ts_task_id s = i) (task_stages d)) (stage_attempts d)
     + affected (\<lambda>b. nb_task_id b = i) (node_dispatch_barriers d)
     + affected (\<lambda>r. rr_task_id r = i) (task_remote_runs d)"

definition set_media :: "GenerationContent \<Rightarrow> string \<Rightarrow> GenerationContent" where
  "set_media c u =
     (if gc_type c = ''image_url'' then c\<lparr>gc_image_url := Some u\<rparr>
      else if gc_type c = ''video_url'' then c\<lparr>gc_video_url := Some u\<rparr>
      else if gc_type c = ''audio_url'' then c\<lparr>gc_audio_url := Some u\<rparr> else c)"

text \<open>Internal references count as an HTTPS input once the metadata proves them to be the task's own.\<close>

fun migrated_content ::
  "db \<Rightarrow> string \<Rightarrow> int \<Rightarrow> GenerationContent list \<Rightarrow> err + GenerationContent list" where
  "migrated_content d i index [] = Inr []"
| "migrated_content d i index (item # items) =
     (let rest = migrated_content d i (index + 1) items in
      case Media item of
        None \<Rightarrow> (case rest of Inl e \<Rightarrow> Inl e | Inr xs \<Rightarrow> Inr (item # xs))
      | Some u \<Rightarrow>
          if length u > 14 \<and> has_prefix u ''proxy-input://'' then
            (if owned_spool d i index item u \<noteq> 1 then Inl ErrModelInput
             else (case rest of Inl e \<Rightarrow> Inl e
                   | Inr xs \<Rightarrow> Inr (set_media item ''https://migration.invalid/input'' # xs)))
          else (case rest of Inl e \<Rightarrow> Inl e | Inr xs \<Rightarrow> Inr (item # xs)))"

fun first_normalized ::
  "url_parser \<Rightarrow> string \<Rightarrow> GenerationRequest \<Rightarrow> string \<Rightarrow> NodeModel list \<Rightarrow> NormalizedRequest option" where
  "first_normalized up protocol r model [] = None"
| "first_normalized up protocol r model (m # ms) =
     (if md_model_id m \<noteq> model \<or> \<not> md_enabled m \<or> \<not> md_present m then first_normalized up protocol r model ms
      else (case Normalize up protocol r (md_capabilities m) of
              Inr n \<Rightarrow> Some n
            | Inl _ \<Rightarrow> first_normalized up protocol r model ms))"

text \<open>The loop over the protocol's nodes: the last node that accepts decides.\<close>

fun choose_normalized ::
  "StoreEnv \<Rightarrow> db \<Rightarrow> string \<Rightarrow> GenerationRequest \<Rightarrow> string \<Rightarrow> string list \<Rightarrow> NormalizedRequest option
   \<Rightarrow> err + NormalizedRequest option" where
  "choose_normalized e d protocol r model [] chosen = Inr chosen"
| "choose_normalized e d protocol r model (i # is) chosen =
     (case catalogWith i d of
        Inl er \<Rightarrow> Inl er
      | Inr cat \<Rightarrow>
          choose_normalized e d protocol r model is
            (case first_normalized (url_parse e) protocol r model (cg_items cat) of
               None \<Rightarrow> chosen | Some n \<Rightarrow> Some n))"

definition protocol_nodes :: "string \<Rightarrow> ModelRoute \<Rightarrow> string list" where
  "protocol_nodes protocol r =
     concat (map rc_node_ids (filter (\<lambda>c. rc_protocol_version c = protocol) (ro_candidates r)))"

definition legacy_choice ::
  "StoreEnv \<Rightarrow> string \<Rightarrow> string \<Rightarrow> ModelRoute \<Rightarrow> video_task \<Rightarrow> db \<Rightarrow> err + NormalizedRequest" where
  "legacy_choice e i protocol r t d =
     (case vt_request t of
        None \<Rightarrow> Inl (ErrText ''request_json'')
      | Some req \<Rightarrow>
          (case migrated_content d i 0 (gr_content req) of
             Inl er \<Rightarrow> Inl er
           | Inr content \<Rightarrow>
               (case choose_normalized e d protocol (req\<lparr>gr_content := content\<rparr>) (vt_model t)
                       (protocol_nodes protocol r) None of
                  Inl er \<Rightarrow> Inl er
                | Inr None \<Rightarrow> Inl ErrModelInput
                | Inr (Some n) \<Rightarrow>
                    if map_option de_ParameterPlan (Lookup protocol) = Some ''h3_profile''
                       \<and> coalesce (vt_config_snapshot_json t) [] = []
                    then Inl ErrModelInput else Inr n)))"

definition manual_snapshot ::
  "string \<Rightarrow> ModelRoute \<Rightarrow> int \<Rightarrow> video_task \<Rightarrow> NormalizedRequest \<Rightarrow> RouteSnapshot" where
  "manual_snapshot protocol r revision t n =
     \<lparr>sn_schema_version = 1, sn_model = vt_model t, sn_protocol_version = protocol,
      sn_route_version = ro_version r, sn_routing_revision = revision, sn_selection_mode = ''manual'',
      sn_parameter_plan = (case Lookup protocol of None \<Rightarrow> [] | Some def \<Rightarrow> de_ParameterPlan def),
      sn_normalizer_version = vt_request_normalizer t, sn_requirements = nr_requirements n\<rparr>"

definition BindLegacyTaskRoute :: "StoreEnv \<Rightarrow> string \<Rightarrow> string \<Rightarrow> int \<Rightarrow> int \<Rightarrow> Task op" where
  "BindLegacyTaskRoute e i protocol version revision = atomically
     (and_then (reading (task_by (\<lambda>t. vt_task_id t = i \<and> vt_deleted_at t = None) ErrTaskNotFound)) (\<lambda>task.
      let t = tk_row task in
      and_then (ensure (vt_version t = version \<and> vt_route_state t = RouteAwaiting \<and> queued (vt_status t)
                  \<and> untouched_by_upstream t) ErrStateConflict) (\<lambda>_.
      and_then (ensuring (\<lambda>d. dispatch_evidence i d = 0) ErrStateConflict) (\<lambda>_.
      and_then (reading (routeWith (vt_model t))) (\<lambda>(r, current).
      and_then (ensure (revision = current) ErrRouteChanged) (\<lambda>_.
      and_then (ensure (has_candidate protocol r) ErrRouteUnavailable) (\<lambda>_.
      and_then (reading (legacy_choice e i protocol r t)) (\<lambda>n.
      and_then (update_tasks (\<lambda>x. vt_task_id x = i \<and> vt_version x = version)
                  (\<lambda>x. (touched (nowUnix e) x)\<lparr>vt_protocol_version := Some protocol, vt_route_state := RouteReady,
                         vt_routing_snapshot := Some (manual_snapshot protocol r revision t n),
                         vt_routing_wait_reason := []\<rparr>)) (\<lambda>_.
      and_then (rebalance e (nowUnix e)) (\<lambda>_.
      reading (task_by (\<lambda>t. vt_task_id t = i) (ErrSQL ''no rows''))))))))))))"

section \<open>Lemmas\<close>

lemmas tx_success = and_then_success_iff ensure_success_iff ensuring_success_iff exec_one_success_iff
  reading_success_iff

text \<open>The steps of \<open>Create\<close> that only fill the side tables.\<close>

definition side_frame :: "db \<Rightarrow> db" where
  "side_frame d = d\<lparr>callback_deliveries := [], task_stages := [], task_input_spool_files := []\<rparr>"

definition side_step :: "db \<Rightarrow> db \<Rightarrow> bool" where
  "side_step d d' \<longleftrightarrow> side_frame d' = side_frame d"

interpretation side_steps: step_contract side_step
  by unfold_locales (auto simp: side_step_def)

lemma keeps_side_inserts:
  "keeps side_step (exec_insert callback_deliveries_update c)"
  "keeps side_step (exec_insert task_stages_update s)"
  "keeps side_step (exec_insert task_input_spool_files_update f)"
  by (simp_all add: keeps_def side_step_def side_frame_def)

lemma keeps_side:
  "keeps side_step (insert_first_delivery e t)" "keeps side_step (insert_stage e i s)"
  "keeps side_step (insert_spool e i f)"
  by (auto simp: insert_first_delivery_def insert_stage_def insert_stage_row_def insert_spool_def Let_def
      intro!: side_steps.keeps_intros keeps_side_inserts)

lemma side_frame_fields:
  assumes "side_frame d' = side_frame d"
  shows "video_tasks d' = video_tasks d" "idempotency_keys d' = idempotency_keys d"
    "next_queue_seq d' = next_queue_seq d" "task_remote_runs d' = task_remote_runs d"
  using arg_cong [OF assms, of video_tasks] arg_cong [OF assms, of idempotency_keys]
    arg_cong [OF assms, of next_queue_seq] arg_cong [OF assms, of task_remote_runs]
  by (simp_all add: side_frame_def)

lemma prepareTaskRouting_ok:
  assumes "prepareTaskRouting e t0 d = Inr (t, snap)"
  shows "nt_TaskID t = nt_TaskID t0" "nt_APIKeyID t = nt_APIKeyID t0" "nt_RouteState t = RouteReady"
    "sn_protocol_version snap = nt_ProtocolVersion t" "Lookup (nt_ProtocolVersion t) \<noteq> None"
    "nt_RequestHash t = nt_RequestHash t0" "nt_Model t = nt_Model t0" "sn_model snap = nt_Model t0"
  using assms by (auto simp: prepareTaskRouting_def Let_def split: sum.splits if_splits json_text.splits)

text \<open>The task row \<open>Create\<close> adds, before the queue is rebalanced.\<close>

definition routed_row :: "StoreEnv \<Rightarrow> NewTask \<Rightarrow> RouteSnapshot \<Rightarrow> int \<Rightarrow> video_task" where
  "routed_row e t snap seq =
     (new_task_row e t seq)\<lparr>vt_protocol_version := Some (nt_ProtocolVersion t), vt_route_state := nt_RouteState t,
        vt_routing_snapshot := Some snap, vt_request_normalizer := nt_RequestNormalizer t\<rparr>"

definition rebalanced :: "int list \<Rightarrow> int \<Rightarrow> video_task list \<Rightarrow> video_task list" where
  "rebalanced seqs now =
     update_where (\<lambda>t. vt_deleted_at t = None \<and> queued (vt_status t)) (rebalance_row seqs now)"

lemma update_where_absent:
  "\<not> exists_where p rows \<Longrightarrow> update_where p f (rows @ [r]) = rows @ [if p r then f r else r]"
  by (induction rows) auto

lemma forget_key_apply:
  "forget_key owner keyHash d = (Inr (), idempotency_keys_update (if keyHash = [] then id else
     delete_where (\<lambda>k. ik_api_key_id k = owner \<and> ik_key_hash k = keyHash)) d)"
  by (simp add: forget_key_def)

lemma remember_key_apply:
  "remember_key e t keyHash d = (Inr (), idempotency_keys_update (if keyHash = [] then id else
     (\<lambda>rows. rows @ [\<lparr>ik_api_key_id = nt_APIKeyID t, ik_key_hash = keyHash, ik_request_hash = nt_RequestHash t,
        ik_task_id = nt_TaskID t, ik_created_at = nowUnix e, ik_expires_at = nowUnix e + IdempotencyTTL e\<rparr>])) d)"
  by (simp add: remember_key_def)

lemma create_new_success:
  assumes "create_new e t0 keyHash d = (Inr task, d')"
  obtains t snap seqs where
    "prepareTaskRouting e t0 (idempotency_keys_update (if keyHash = [] then id else
        delete_where (\<lambda>k. ik_api_key_id k = nt_APIKeyID t0 \<and> ik_key_hash k = keyHash)) d) = Inr (t, snap)"
    "int (unfinished_of (nt_APIKeyID t0) d) < PerKeyLimit e" "int (unfinished_all d) < GlobalLimit e"
    "task_insert_ok (new_task_row e t (next_queue_seq d)) d"
    "video_tasks d' = rebalanced seqs (nowUnix e) (video_tasks d @ [routed_row e t snap (next_queue_seq d)])"
    "idempotency_keys d' = (if keyHash = [] then idempotency_keys d
       else delete_where (\<lambda>k. ik_api_key_id k = nt_APIKeyID t0 \<and> ik_key_hash k = keyHash) (idempotency_keys d)
            @ [\<lparr>ik_api_key_id = nt_APIKeyID t0, ik_key_hash = keyHash, ik_request_hash = nt_RequestHash t0,
                ik_task_id = nt_TaskID t0, ik_created_at = nowUnix e,
                ik_expires_at = nowUnix e + IdempotencyTTL e\<rparr>])"
    "getWith (nt_APIKeyID t0) (nt_TaskID t0) (nowUnix e) d' = Inr task"
    "next_queue_seq d' = next_queue_seq d + 1"
proof -
  define dk :: "idempotency_key list \<Rightarrow> idempotency_key list" where "dk = (if keyHash = [] then id else
      delete_where (\<lambda>k. ik_api_key_id k = nt_APIKeyID t0 \<and> ik_key_hash k = keyHash))"
  define d1 where "d1 = idempotency_keys_update dk d"
  have same: "unfinished_of owner d1 = unfinished_of owner d" "unfinished_all d1 = unfinished_all d"
    "next_queue_seq d1 = next_queue_seq d" "video_tasks d1 = video_tasks d" for owner
    by (simp_all add: unfinished_of_def unfinished_all_def d1_def)
  have "forget_key (nt_APIKeyID t0) keyHash d = (Inr (), d1)" by (simp add: forget_key_apply d1_def dk_def)
  note run = assms [unfolded create_new_def Let_def and_then_Inr [of "forget_key _ _", OF this]]
  from run obtain t snap where prep: "prepareTaskRouting e t0 d1 = Inr (t, snap)"
    and lim: "int (unfinished_of (nt_APIKeyID t0) d) < PerKeyLimit e" "int (unfinished_all d) < GlobalLimit e"
    by (auto simp: tx_success same)
  note p = prepareTaskRouting_ok [OF prep]
  define row where "row = new_task_row e t (next_queue_seq d)"
  define f where "f = (\<lambda>r::video_task. r\<lparr>vt_protocol_version := Some (nt_ProtocolVersion t),
      vt_route_state := nt_RouteState t, vt_routing_snapshot := Some snap, vt_request_normalizer := nt_RequestNormalizer t\<rparr>)"
  define d2 where "d2 = video_tasks_update (update_where (\<lambda>r. vt_task_id r = nt_TaskID t) f)
      (video_tasks_update (\<lambda>rows. rows @ [row]) (next_queue_seq_update (\<lambda>n. n + 1) d1))"
  from run prep obtain d3 d4 d5 d6 where ins: "task_insert_ok row d1"
    and d3: "insert_first_delivery e t d2 = (Inr (), d3)"
    and d4: "for_each (insert_stage e (nt_TaskID t)) (nt_Stages t) d3 = (Inr (), d4)"
    and d5: "for_each (insert_spool e (nt_TaskID t)) (nt_InputSpoolFiles t) d4 = (Inr (), d5)"
    and d6: "remember_key e t keyHash d5 = (Inr (), d6)"
    and d': "d' = snd (rebalance e (nowUnix e) d6)"
    and got: "getWith (nt_APIKeyID t0) (nt_TaskID t) (nowUnix e) d' = Inr task"
    by (auto simp: tx_success insert_task_def row_def f_def d2_def same rebalance_apply)
  have "side_step d2 d3" by (rule keepsD [OF keeps_side(1) d3])
  moreover have "side_step d3 d4" by (rule keepsD [OF side_steps.keeps_for_each [OF keeps_side(2)] d4])
  moreover have "side_step d4 d5" by (rule keepsD [OF side_steps.keeps_for_each [OF keeps_side(3)] d5])
  ultimately have side: "side_frame d5 = side_frame d2" by (simp add: side_step_def)
  note flds = side_frame_fields [OF side]
  have "vt_task_id row = nt_TaskID t" by (simp add: row_def new_task_row_def blank_task_def Let_def)
  moreover have "\<not> exists_where (\<lambda>r. vt_task_id r = nt_TaskID t) (video_tasks d)"
    using ins calculation by (simp add: task_insert_ok_def same)
  ultimately have d2t: "video_tasks d2 = video_tasks d @ [routed_row e t snap (next_queue_seq d)]"
    using update_where_absent [of "\<lambda>r. vt_task_id r = nt_TaskID t" "video_tasks d" f row]
    by (simp add: d2_def same routed_row_def row_def f_def)
  show thesis
  proof (rule that [of t snap "protected_seqs e d6"])
    show "prepareTaskRouting e t0 (idempotency_keys_update (if keyHash = [] then id else
        delete_where (\<lambda>k. ik_api_key_id k = nt_APIKeyID t0 \<and> ik_key_hash k = keyHash)) d) = Inr (t, snap)"
      using prep by (simp add: d1_def dk_def)
    show "task_insert_ok (new_task_row e t (next_queue_seq d)) d"
      using ins by (simp add: row_def task_insert_ok_def same)
    show "getWith (nt_APIKeyID t0) (nt_TaskID t0) (nowUnix e) d' = Inr task" using got p(1) by simp
  qed (use lim flds d2t d6 in \<open>auto simp: d' p rebalance_apply remember_key_apply rebalanced_def d2_def d1_def dk_def\<close>)
qed

lemma Create_cases:
  assumes "Create e t keyHash available d = (Inr task, d')"
  obtains (replayed) k where "keyHash \<noteq> []" "live_key d (nt_APIKeyID t) keyHash (nowUnix e) = Some k"
      "ik_request_hash k = nt_RequestHash t" "getWith (nt_APIKeyID t) (ik_task_id k) (nowUnix e) d = Inr task" "d' = d"
    | (created) "available" "keyHash = [] \<or> live_key d (nt_APIKeyID t) keyHash (nowUnix e) = None"
      "create_new e t keyHash d = (Inr task, d')"
proof (cases "if keyHash = [] then None else live_key d (nt_APIKeyID t) keyHash (nowUnix e)")
  case None
  with assms have "available \<and> create_new e t keyHash d = (Inr task, d')"
    by (simp add: Create_def and_then_ensure split: if_splits)
  with None created show thesis by (simp split: if_splits)
next
  case (Some k)
  with assms have "ik_request_hash k = nt_RequestHash t \<and> getWith (nt_APIKeyID t) (ik_task_id k) (nowUnix e) d = Inr task \<and> d' = d"
    by (simp add: Create_def replay_def split: if_splits)
  with Some replayed show thesis by (simp split: if_splits)
qed

lemma rebalanced_append: "rebalanced seqs now (xs @ ys) = rebalanced seqs now xs @ rebalanced seqs now ys"
  by (simp add: rebalanced_def update_where_def)

lemma rebalance_row_simps [simp]:
  "vt_api_key_id (rebalance_row seqs now t) = vt_api_key_id t" "vt_task_id (rebalance_row seqs now t) = vt_task_id t"
  "vt_deleted_at (rebalance_row seqs now t) = vt_deleted_at t" "vt_queue_seq (rebalance_row seqs now t) = vt_queue_seq t"
  "vt_expires_at (rebalance_row seqs now t) = vt_expires_at t" "vt_upstream_id (rebalance_row seqs now t) = vt_upstream_id t"
  "vt_route_state (rebalance_row seqs now t) = vt_route_state t"
  "vt_protocol_version (rebalance_row seqs now t) = vt_protocol_version t"
  "vt_routing_snapshot (rebalance_row seqs now t) = vt_routing_snapshot t"
  "vt_request_hash (rebalance_row seqs now t) = vt_request_hash t"
  "queued (vt_status (rebalance_row seqs now t))" "unfinished (vt_status (rebalance_row seqs now t))"
  "\<not> active (vt_status (rebalance_row seqs now t))" "\<not> AdminCanDelete (vt_status (rebalance_row seqs now t))"
  by (simp_all add: rebalance_row_def)

lemma queued_sets: "queued s \<Longrightarrow> unfinished s \<and> \<not> active s \<and> \<not> AdminCanDelete s"
  by auto

lemma rebalanced_unfinished:
  "affected (\<lambda>t. P t \<and> vt_deleted_at t = None \<and> unfinished (vt_status t)) (rebalanced seqs now rows)
     = affected (\<lambda>t. P t \<and> vt_deleted_at t = None \<and> unfinished (vt_status t)) rows"
  if "\<And>t. P (rebalance_row seqs now t) = P t"
  unfolding rebalanced_def
  by (rule affected_update_same) (auto simp: that)

lemma rebalanced_active:
  "affected (\<lambda>t. P t \<and> active (vt_status t)) (rebalanced seqs now rows) = affected (\<lambda>t. P t \<and> active (vt_status t)) rows"
  unfolding rebalanced_def
  by (rule affected_update_same) auto

lemma routed_row_simps [simp]:
  "vt_task_id (routed_row e t snap q) = nt_TaskID t" "vt_api_key_id (routed_row e t snap q) = nt_APIKeyID t"
  "vt_status (routed_row e t snap q) = StatusQueuedOpen" "vt_deleted_at (routed_row e t snap q) = None"
  "vt_queue_seq (routed_row e t snap q) = q" "vt_expires_at (routed_row e t snap q) = nowUnix e + Retention e"
  "vt_route_state (routed_row e t snap q) = nt_RouteState t"
  "vt_protocol_version (routed_row e t snap q) = Some (nt_ProtocolVersion t)"
  "vt_routing_snapshot (routed_row e t snap q) = Some snap"
  "vt_request_hash (routed_row e t snap q) = nt_RequestHash t"
  by (simp_all add: routed_row_def new_task_row_def blank_task_def Let_def)

lemma created_counts:
  assumes "video_tasks d' = rebalanced seqs now (video_tasks d @ [routed_row e t snap q])"
  shows "unfinished_of (nt_APIKeyID t) d' = unfinished_of (nt_APIKeyID t) d + 1" "unfinished_all d' = unfinished_all d + 1"
  using rebalanced_unfinished [of "\<lambda>x. vt_api_key_id x = nt_APIKeyID t"] rebalanced_unfinished [of "\<lambda>_. True"]
  by (simp_all add: unfinished_of_def unfinished_all_def assms)

lemma getWith_Inr:
  "getWith owner i now d = Inr task \<Longrightarrow>
     \<exists>t \<in> set (video_tasks d). task = scanTask d t \<and> vt_task_id t = i \<and> vt_api_key_id t = owner
        \<and> vt_deleted_at t = None \<and> vt_expires_at t > now"
  by (auto simp: getWith_def split: option.splits dest!: select_where_Some)

lemma tk_row_scanTask [simp]: "tk_row (scanTask d t) = t"
  by (simp add: scanTask_def Let_def)

lemma created_row:
  assumes "video_tasks d' = rebalanced seqs now (video_tasks d @ [routed_row e t snap q])"
    and "\<not> exists_where (\<lambda>x. vt_task_id x = nt_TaskID t) (video_tasks d)"
    and "getWith owner (nt_TaskID t) now' d' = Inr task"
  shows "tk_row task = rebalance_row seqs now (routed_row e t snap q)"
proof -
  from getWith_Inr [OF assms(3)] obtain r where r: "r \<in> set (video_tasks d')" "tk_row task = r"
    "vt_task_id r = nt_TaskID t" by auto
  have "r \<in> set (rebalanced seqs now (video_tasks d)) \<or> r = rebalance_row seqs now (routed_row e t snap q)"
    using r(1) assms(1) by (auto simp: rebalanced_append) (auto simp: rebalanced_def)
  moreover have "r \<notin> set (rebalanced seqs now (video_tasks d))"
    using r(3) assms(2) by (auto simp: rebalanced_def set_update_where)
  ultimately show ?thesis using r(2) by simp
qed

text \<open>C7: A task is only created within its key's and the global quota, and the count of unfinished tasks
  grows by exactly one; the new task is queued with a ready route whose snapshot is for a known
  protocol and the requested model.\<close>

theorem Create_within_limits:
  assumes "Create e t keyHash available d = (Inr task, d')" and "d' \<noteq> d"
  shows "available
    \<and> unfinished_of (nt_APIKeyID t) d' = unfinished_of (nt_APIKeyID t) d + 1
    \<and> int (unfinished_of (nt_APIKeyID t) d') \<le> PerKeyLimit e
    \<and> unfinished_all d' = unfinished_all d + 1 \<and> int (unfinished_all d') \<le> GlobalLimit e
    \<and> vt_task_id (tk_row task) = nt_TaskID t \<and> vt_api_key_id (tk_row task) = nt_APIKeyID t
    \<and> queued (vt_status (tk_row task)) \<and> vt_route_state (tk_row task) = RouteReady
    \<and> (\<exists>snap protocol. vt_routing_snapshot (tk_row task) = Some snap
          \<and> vt_protocol_version (tk_row task) = Some protocol \<and> Lookup protocol \<noteq> None
          \<and> sn_protocol_version snap = protocol \<and> sn_model snap = nt_Model t)"
  using assms(1)
proof (cases rule: Create_cases)
  case (replayed k)
  with assms(2) show ?thesis by simp
next
  case created
  from created(3) obtain t' snap seqs where
    prep: "prepareTaskRouting e t (idempotency_keys_update (if keyHash = [] then id else
        delete_where (\<lambda>k. ik_api_key_id k = nt_APIKeyID t \<and> ik_key_hash k = keyHash)) d) = Inr (t', snap)"
    and lim: "int (unfinished_of (nt_APIKeyID t) d) < PerKeyLimit e" "int (unfinished_all d) < GlobalLimit e"
    and ins: "task_insert_ok (new_task_row e t' (next_queue_seq d)) d"
    and rows: "video_tasks d' = rebalanced seqs (nowUnix e) (video_tasks d @ [routed_row e t' snap (next_queue_seq d)])"
    and got: "getWith (nt_APIKeyID t) (nt_TaskID t) (nowUnix e) d' = Inr task"
    by (rule create_new_success)
  note p = prepareTaskRouting_ok [OF prep]
  have "\<not> exists_where (\<lambda>x. vt_task_id x = nt_TaskID t') (video_tasks d)"
    using ins by (simp add: task_insert_ok_def new_task_row_def blank_task_def Let_def)
  then have row: "tk_row task = rebalance_row seqs (nowUnix e) (routed_row e t' snap (next_queue_seq d))"
    using created_row [OF rows] got p(1) by metis
  show ?thesis using created_counts [OF rows] lim created(1) p by (simp add: row)
qed

lemma select_where_append:
  "select_where p (xs @ ys) = (case select_where p xs of None \<Rightarrow> select_where p ys | Some x \<Rightarrow> Some x)"
  by (induction xs) auto

lemma created_lookup:
  assumes "video_tasks d' = rebalanced seqs now (video_tasks d @ [routed_row e t snap q])"
    and "\<not> exists_where (\<lambda>x. vt_task_id x = nt_TaskID t) (video_tasks d)"
    and "now' < nowUnix e + Retention e"
  shows "getWith (nt_APIKeyID t) (nt_TaskID t) now' d'
      = Inr (scanTask d' (rebalance_row seqs now (routed_row e t snap q)))"
proof -
  let ?p = "\<lambda>x. vt_task_id x = nt_TaskID t \<and> vt_api_key_id x = nt_APIKeyID t \<and> vt_deleted_at x = None \<and> vt_expires_at x > now'"
  have "select_where ?p (rebalanced seqs now (video_tasks d)) = None"
    using assms(2) by (auto simp: select_where_None rebalanced_def set_update_where)
  moreover have "rebalanced seqs now [routed_row e t snap q] = [rebalance_row seqs now (routed_row e t snap q)]"
    by (simp add: rebalanced_def)
  ultimately have "select_where ?p (video_tasks d') = Some (rebalance_row seqs now (routed_row e t snap q))"
    using assms(3) by (simp add: assms(1) rebalanced_append select_where_append)
  then show ?thesis by (simp add: getWith_def)
qed

text \<open>C6: Creation is exactly-once per idempotency key: until the key (or the task) expires, repeating the
  request returns the same task and changes nothing, and a different request under the same key is
  refused.\<close>

theorem Create_idempotent:
  assumes "Create e t keyHash available d = (Inr task, d')" and "d' \<noteq> d" and "keyHash \<noteq> []"
    and "nt_APIKeyID t2 = nt_APIKeyID t"
    and "nowUnix e2 < nowUnix e + IdempotencyTTL e" and "nowUnix e2 < nowUnix e + Retention e"
  shows "Create e2 t2 keyHash available2 d'
     = (if nt_RequestHash t2 = nt_RequestHash t then Inr task else Inl ErrIdempotencyConflict, d')"
  using assms(1)
proof (cases rule: Create_cases)
  case (replayed k)
  with assms(2) show ?thesis by simp
next
  case created
  from created(3) obtain t' snap seqs where
    prep: "prepareTaskRouting e t (idempotency_keys_update (if keyHash = [] then id else
        delete_where (\<lambda>k. ik_api_key_id k = nt_APIKeyID t \<and> ik_key_hash k = keyHash)) d) = Inr (t', snap)"
    and ins: "task_insert_ok (new_task_row e t' (next_queue_seq d)) d"
    and rows: "video_tasks d' = rebalanced seqs (nowUnix e) (video_tasks d @ [routed_row e t' snap (next_queue_seq d)])"
    and keys: "idempotency_keys d' = (if keyHash = [] then idempotency_keys d
       else delete_where (\<lambda>k. ik_api_key_id k = nt_APIKeyID t \<and> ik_key_hash k = keyHash) (idempotency_keys d)
            @ [\<lparr>ik_api_key_id = nt_APIKeyID t, ik_key_hash = keyHash, ik_request_hash = nt_RequestHash t,
                ik_task_id = nt_TaskID t, ik_created_at = nowUnix e, ik_expires_at = nowUnix e + IdempotencyTTL e\<rparr>])"
    and got: "getWith (nt_APIKeyID t) (nt_TaskID t) (nowUnix e) d' = Inr task"
    by (rule create_new_success)
  note p = prepareTaskRouting_ok [OF prep]
  let ?row = "rebalance_row seqs (nowUnix e) (routed_row e t' snap (next_queue_seq d))"
  have fresh: "\<not> exists_where (\<lambda>x. vt_task_id x = nt_TaskID t') (video_tasks d)"
    using ins by (simp add: task_insert_ok_def new_task_row_def blank_task_def Let_def)
  have task: "tk_row task = ?row" using created_row [OF rows fresh] got p(1) by simp
  from getWith_Inr [OF got] have "task = scanTask d' ?row" using task by auto
  then have again: "getWith (nt_APIKeyID t) (nt_TaskID t) (nowUnix e2) d' = Inr task"
    using created_lookup [OF rows fresh assms(6)] p by simp
  have "?row \<in> set (video_tasks d')" by (simp add: rows rebalanced_append) (simp add: rebalanced_def)
  then have live: "\<exists>x \<in> set (video_tasks d'). vt_task_id x = nt_TaskID t \<and> vt_deleted_at x = None"
    using p by (intro bexI [of _ ?row]) simp_all
  have "select_where (\<lambda>k. ik_api_key_id k = nt_APIKeyID t \<and> ik_key_hash k = keyHash \<and> P k)
      (delete_where (\<lambda>k. ik_api_key_id k = nt_APIKeyID t \<and> ik_key_hash k = keyHash) (idempotency_keys d)) = None" for P
    by (auto simp: select_where_None)
  with live assms(3,5) have "live_key d' (nt_APIKeyID t) keyHash (nowUnix e2)
      = Some \<lparr>ik_api_key_id = nt_APIKeyID t, ik_key_hash = keyHash, ik_request_hash = nt_RequestHash t,
              ik_task_id = nt_TaskID t, ik_created_at = nowUnix e, ik_expires_at = nowUnix e + IdempotencyTTL e\<rparr>"
    by (simp add: live_key_def keys select_where_append)
  with again assms(3,4) show ?thesis
    by (simp add: Create_def replay_def atomically_def)
qed

lemma affected_update_into:
  "(\<And>r. r \<in> set rows \<Longrightarrow> p r \<Longrightarrow> q (f r)) \<Longrightarrow> (\<And>r. r \<in> set rows \<Longrightarrow> \<not> p r \<Longrightarrow> \<not> q r) \<Longrightarrow>
     affected q (update_where p f rows) = affected p rows"
  by (induction rows) auto

lemma and_then_exec_one [tx_simps]:
  "and_then (exec_one get upd e p f) k s =
     (if affected p (get s) = 1 then k () (upd (update_where p f) s) else (Inl e, upd (update_where p f) s))"
  by (simp add: and_then_def exec_one_apply)

lemma getWith_expired:
  assumes "\<And>x. x \<in> set (video_tasks d) \<Longrightarrow> \<not> (vt_task_id x = i \<and> vt_expires_at x > now)"
  shows "getWith owner i now d = Inl ErrTaskNotFound"
proof -
  have "select_where (\<lambda>t. vt_task_id t = i \<and> vt_api_key_id t = owner \<and> vt_deleted_at t = None \<and> now < vt_expires_at t)
      (video_tasks d) = None"
    using assms by (auto simp: select_where_None)
  then show ?thesis by (simp add: getWith_def)
qed

definition claimed_row :: "StoreEnv \<Rightarrow> string \<Rightarrow> video_task \<Rightarrow> video_task" where
  "claimed_row e upstreamID t =
     t\<lparr>vt_status := StatusDispatching, vt_cancel_locked := True, vt_upstream_id := Some upstreamID,
       vt_started_at := keep_or (vt_started_at t) (nowUnix e), vt_updated_at := nowUnix e,
       vt_version := vt_version t + 1\<rparr>"

lemma claimed_row_simps [simp]:
  "vt_task_id (claimed_row e u t) = vt_task_id t" "vt_api_key_id (claimed_row e u t) = vt_api_key_id t"
  "vt_status (claimed_row e u t) = StatusDispatching" "vt_upstream_id (claimed_row e u t) = Some u"
  "vt_cancel_locked (claimed_row e u t)" "vt_expires_at (claimed_row e u t) = vt_expires_at t"
  "vt_deleted_at (claimed_row e u t) = vt_deleted_at t" "vt_queue_seq (claimed_row e u t) = vt_queue_seq t"
  by (simp_all add: claimed_row_def)

lemma rebalanced_other:
  "\<not> queued (vt_status t) \<Longrightarrow> t \<in> set rows \<Longrightarrow> t \<in> set (rebalanced seqs now rows)"
  by (auto simp: rebalanced_def set_update_where)

lemma update_where_origin:
  "z \<in> set (update_where p f rows) \<Longrightarrow> (\<And>y. g (f y) = g y) \<Longrightarrow> \<exists>y \<in> set rows. g z = g y"
  by (auto simp: set_update_where)

lemma ClaimNext_success:
  assumes "ClaimNext e u v d = (Inr task, d')"
  obtains selected seqs where "active_on u d = 0" "nextEligibleTask u (nowUnix e) d = Inr selected"
    "affected (\<lambda>t. vt_task_id t = vt_task_id (tk_row selected) \<and> vt_status t = vt_status (tk_row selected)) (video_tasks d) = 1"
    "video_tasks d' = rebalanced seqs (nowUnix e) (update_where
       (\<lambda>t. vt_task_id t = vt_task_id (tk_row selected) \<and> vt_status t = vt_status (tk_row selected)) (claimed_row e u) (video_tasks d))"
    "getWith (vt_api_key_id (tk_row selected)) (vt_task_id (tk_row selected)) (nowUnix e) d' = Inr task"
  using assms unfolding ClaimNext_def Let_def atomically_success_iff
  by (auto simp: tx_success rebalance_apply rebalanced_def claimed_row_def [abs_def])

text \<open>Claiming work for a single-slot upstream is exclusive: it succeeds only when the upstream holds no
  active task, and afterwards it holds exactly one, the task returned, which is locked against
  cancellation.\<close>

theorem ClaimNext_exclusive:
  assumes "ClaimNext e u v d = (Inr task, d')" and "distinct (map vt_task_id (video_tasks d))"
  shows "active_on u d = 0 \<and> active_on u d' = 1
    \<and> tk_row task \<in> set (video_tasks d') \<and> vt_upstream_id (tk_row task) = Some u
    \<and> vt_status (tk_row task) = StatusDispatching \<and> vt_cancel_locked (tk_row task)"
proof -
  from assms(1) obtain selected seqs where idle: "active_on u d = 0"
    and "nextEligibleTask u (nowUnix e) d = Inr selected"
    and one: "affected (\<lambda>t. vt_task_id t = vt_task_id (tk_row selected) \<and> vt_status t = vt_status (tk_row selected)) (video_tasks d) = 1"
    and rows: "video_tasks d' = rebalanced seqs (nowUnix e) (update_where
       (\<lambda>t. vt_task_id t = vt_task_id (tk_row selected) \<and> vt_status t = vt_status (tk_row selected)) (claimed_row e u) (video_tasks d))"
    and got: "getWith (vt_api_key_id (tk_row selected)) (vt_task_id (tk_row selected)) (nowUnix e) d' = Inr task"
    by (rule ClaimNext_success)
  let ?p = "\<lambda>t. vt_task_id t = vt_task_id (tk_row selected) \<and> vt_status t = vt_status (tk_row selected)"
  have "affected (\<lambda>t. vt_upstream_id t = Some u \<and> active (vt_status t)) (update_where ?p (claimed_row e u) (video_tasks d))
      = affected ?p (video_tasks d)"
    using idle by (intro affected_update_into) (auto simp: claimed_row_def active_on_def affected_zero)
  then have "active_on u d' = 1"
    using rebalanced_active [of "\<lambda>t. vt_upstream_id t = Some u"] one by (simp add: active_on_def rows)
  moreover have row: "vt_upstream_id (tk_row task) = Some u \<and> vt_status (tk_row task) = StatusDispatching
      \<and> vt_cancel_locked (tk_row task)"
  proof -
    from one obtain x where x: "x \<in> set (video_tasks d)" "?p x" using affected_one_ex by blast
    from getWith_Inr [OF got] obtain y where y: "tk_row task = y" "y \<in> set (video_tasks d')"
      "vt_task_id y = vt_task_id (tk_row selected)" by auto
    have "claimed_row e u x \<in> set (video_tasks d')"
      unfolding rows by (rule rebalanced_other) (use x in \<open>auto simp: set_update_where\<close>)
    moreover have "distinct (map vt_task_id (video_tasks d'))"
      unfolding rows rebalanced_def using assms(2) by (simp add: distinct_update_where claimed_row_def)
    moreover have "vt_task_id (claimed_row e u x) = vt_task_id y" using x y by (simp add: claimed_row_def)
    ultimately have "y = claimed_row e u x" using y(2) by (metis key_unique)
    with y(1) show ?thesis by (simp add: claimed_row_def)
  qed
  moreover have "tk_row task \<in> set (video_tasks d')" using getWith_Inr [OF got] by auto
  ultimately show ?thesis using idle by simp
qed

text \<open>
  An expired task that the search selects cannot be claimed: the claim reads it back through a query that
  skips expired tasks.
\<close>

lemma expired_claim:
  assumes "nextEligibleTask u (nowUnix e) d = Inr selected" and "vt_expires_at (tk_row selected) \<le> nowUnix e"
    and "distinct (map vt_task_id (video_tasks d))"
    and "\<forall>t \<in> set (video_tasks d). 0 < vt_queue_seq t" and "distinct (map vt_queue_seq (video_tasks d))"
    and f: "\<And>t. vt_task_id (f t) = vt_task_id t \<and> vt_expires_at (f t) = vt_expires_at t"
  shows "\<exists>d'. and_then (update_one_task (\<lambda>x. vt_task_id x = vt_task_id (tk_row selected) \<and> vt_status x = vt_status (tk_row selected)) f)
     (\<lambda>_. and_then (rebalance e (nowUnix e)) (\<lambda>_.
        reading (getWith (vt_api_key_id (tk_row selected)) (vt_task_id (tk_row selected)) (nowUnix e)))) d = (Inl ErrTaskNotFound, d')"
proof -
  obtain t where t: "t \<in> set (video_tasks d)" "selected = scanTask d t"
    using nextEligibleTask_first [OF assms(5,4,1)] by auto
  let ?p = "\<lambda>x. vt_task_id x = vt_task_id (tk_row selected) \<and> vt_status x = vt_status (tk_row selected)"
  have one: "affected ?p (video_tasks d) = 1"
    by (rule affected_key_one [OF assms(3) t(1), where v = "vt_task_id t"]) (simp_all add: t(2))
  define d2 where "d2 = video_tasks_update (update_where ?p f) d"
  define d3 where "d3 = snd (rebalance e (nowUnix e) d2)"
  have "\<not> (vt_task_id x = vt_task_id t \<and> vt_expires_at x > nowUnix e)" if "x \<in> set (video_tasks d3)" for x
  proof -
    from that have "x \<in> set (rebalanced (protected_seqs e d2) (nowUnix e) (update_where ?p f (video_tasks d)))"
      by (simp add: d3_def d2_def rebalance_apply rebalanced_def)
    then obtain z where z: "z \<in> set (update_where ?p f (video_tasks d))"
        "vt_task_id x = vt_task_id z \<and> vt_expires_at x = vt_expires_at z"
      using update_where_origin [of x _ _ _ "\<lambda>t. (vt_task_id t, vt_expires_at t)"]
      unfolding rebalanced_def by fastforce
    then obtain y where y: "y \<in> set (video_tasks d)" "vt_task_id x = vt_task_id y" "vt_expires_at x = vt_expires_at y"
      using update_where_origin [OF z(1), of "\<lambda>t. (vt_task_id t, vt_expires_at t)"] f by auto
    have "vt_expires_at t \<le> nowUnix e" using assms(2) t(2) by simp
    moreover have "y = t" if "vt_task_id y = vt_task_id t" using key_unique [OF assms(3) y(1) t(1) that] .
    ultimately show ?thesis using y(2,3) by auto
  qed
  then have "getWith (vt_api_key_id t) (vt_task_id t) (nowUnix e) d3 = Inl ErrTaskNotFound"
    by (intro getWith_expired) blast
  then have "and_then (rebalance e (nowUnix e)) (\<lambda>_. reading (getWith (vt_api_key_id t) (vt_task_id t) (nowUnix e))) d2
      = (Inl ErrTaskNotFound, d3)"
    by (simp add: d3_def rebalance_apply)
  then show ?thesis using one t(2) by (intro exI [of _ d3]) (simp add: and_then_exec_one d2_def)
qed

lemma ClaimNext_expired:
  assumes "nextEligibleTask u (nowUnix e) d = Inr selected" and "vt_expires_at (tk_row selected) \<le> nowUnix e"
    and "distinct (map vt_task_id (video_tasks d))"
    and "\<forall>t \<in> set (video_tasks d). 0 < vt_queue_seq t" and "distinct (map vt_queue_seq (video_tasks d))"
  shows "ClaimNext e u v d =
    (Inl (if \<not> (case v of None \<Rightarrow> True | Some n \<Rightarrow> node_current u n d) then ErrNodeConfigStale
          else if active_on u d \<noteq> 0 then ErrUpstreamBusy else ErrTaskNotFound), d)"
proof -
  from expired_claim [OF assms, of "claimed_row e u"] obtain d' where
    "and_then (update_one_task (\<lambda>x. vt_task_id x = vt_task_id (tk_row selected) \<and> vt_status x = vt_status (tk_row selected)) (claimed_row e u))
     (\<lambda>_. and_then (rebalance e (nowUnix e)) (\<lambda>_.
        reading (getWith (vt_api_key_id (tk_row selected)) (vt_task_id (tk_row selected)) (nowUnix e)))) d = (Inl ErrTaskNotFound, d')"
    by auto
  then show ?thesis unfolding ClaimNext_def Let_def claimed_row_def [symmetric]
    by (simp add: atomically_def and_then_ensuring and_then_reading assms(1))
qed

lemma limit_offset_pages:
  assumes "0 < s"
  shows "concat (map (\<lambda>n. limit_offset s ((int n - 1) * s) xs) [1 ..< Suc k]) = take (k * nat s) xs"
proof (induction k)
  case 0 show ?case by simp
next
  case (Suc k)
  have "nat (int k * s) = k * nat s" by (simp add: nat_mult_distrib)
  then have "limit_offset s ((int (Suc k) - 1) * s) xs = take (nat s) (drop (k * nat s) xs)"
    by (simp add: limit_offset_def)
  moreover have "take (k * nat s) xs @ take (nat s) (drop (k * nat s) xs) = take (k * nat s + nat s) xs"
    by (rule take_add [symmetric])
  ultimately show ?case using Suc by (simp add: add.commute)
qed

lemma length_newest_first [simp]: "length (newest_first xs) = length xs"
  by (simp add: newest_first_def)

lemma newest_first_sorted: "sorted_wrt (\<lambda>x y. vt_created_at y \<le> vt_created_at x) (newest_first xs)"
proof -
  have "sorted (map vt_created_at (sort_key vt_created_at (sort_key vt_queue_seq xs)))" by simp
  then show ?thesis by (simp add: newest_first_def sorted_wrt_rev sorted_wrt_map)
qed

lemma less_mult_of_div_less: "m div s < n \<Longrightarrow> 0 < s \<Longrightarrow> m < n * s" for m n s :: int
proof -
  assume h: "m div s < n" "0 < s"
  have "m = m div s * s + m mod s" by simp
  moreover have "m mod s < s" using h by simp
  ultimately have "m < (m div s + 1) * s" unfolding distrib_right by linarith
  also have "\<dots> \<le> n * s" using h by (intro mult_right_mono) simp_all
  finally show ?thesis .
qed

lemma ListAdminTasks_page:
  assumes "0 < af_PageSize f" and "0 < af_PageNum f" and "int (length (video_tasks d)) \<le> max_int64"
  shows "ListAdminTasks e f d =
    (Inr (map (\<lambda>t. (t, taskPublicStatusSQL d t)) (limit_offset (af_PageSize f) ((af_PageNum f - 1) * af_PageSize f)
            (newest_first (filter (visible_to_admin e f d) (video_tasks d)))),
          length (filter (visible_to_admin e f d) (video_tasks d))), d)"
proof (cases "af_PageNum f - 1 > max_int64 div af_PageSize f")
  case True
  let ?rows = "newest_first (filter (visible_to_admin e f d) (video_tasks d))"
  from True assms(1) have "max_int64 < (af_PageNum f - 1) * af_PageSize f"
    by (intro less_mult_of_div_less)
  moreover have "int (length ?rows) \<le> int (length (video_tasks d))" by simp
  ultimately have "length ?rows \<le> nat ((af_PageNum f - 1) * af_PageSize f)" using assms(3) by linarith
  then have "limit_offset (af_PageSize f) ((af_PageNum f - 1) * af_PageSize f) ?rows = []"
    by (simp add: limit_offset_def)
  with True assms(1,2) show ?thesis by (simp add: ListAdminTasks_def Let_def)
next
  case False
  with assms show ?thesis by (simp add: ListAdminTasks_def Let_def)
qed

text \<open>The pages of the administrator's task list partition the matching tasks: the first \<open>k\<close> pages,
  put together, are the first \<open>k * size\<close> matching tasks, newest first, with nothing skipped or
  repeated, for any number of pages.\<close>

theorem ListAdminTasks_pages:
  assumes "0 < af_PageSize f" and "int (length (video_tasks d)) \<le> max_int64"
  shows "\<exists>items. concat (map (\<lambda>n. case fst (ListAdminTasks e (f\<lparr>af_PageNum := int n\<rparr>) d) of
                              Inr (rows, matching) \<Rightarrow> map fst rows | Inl _ \<Rightarrow> []) [1 ..< Suc k])
           = take (k * nat (af_PageSize f)) items
         \<and> sorted_wrt (\<lambda>x y. vt_created_at y \<le> vt_created_at x) items
         \<and> mset items = mset (filter (visible_to_admin e f d) (video_tasks d))"
proof (intro exI conjI)
  let ?items = "newest_first (filter (visible_to_admin e f d) (video_tasks d))"
  have same: "visible_to_admin e (f\<lparr>af_PageNum := n\<rparr>) d = visible_to_admin e f d" for n
    by (simp add: visible_to_admin_def fun_eq_iff)
  have "(case fst (ListAdminTasks e (f\<lparr>af_PageNum := int n\<rparr>) d) of Inr (rows, matching) \<Rightarrow> map fst rows | Inl _ \<Rightarrow> [])
      = limit_offset (af_PageSize f) ((int n - 1) * af_PageSize f) ?items" if "n \<in> set [1 ..< Suc k]" for n
  proof -
    from that have "0 < n" by auto
    with same assms show ?thesis
      using ListAdminTasks_page [of "f\<lparr>af_PageNum := int n\<rparr>" d e] by (simp add: comp_def)
  qed
  then show "concat (map (\<lambda>n. case fst (ListAdminTasks e (f\<lparr>af_PageNum := int n\<rparr>) d) of
        Inr (rows, matching) \<Rightarrow> map fst rows | Inl _ \<Rightarrow> []) [1 ..< Suc k]) = take (k * nat (af_PageSize f)) ?items"
    unfolding limit_offset_pages [OF assms(1), symmetric] by (intro arg_cong [where f = concat] map_cong refl)
  show "sorted_wrt (\<lambda>x y. vt_created_at y \<le> vt_created_at x) ?items" by (rule newest_first_sorted)
  show "mset ?items = mset (filter (visible_to_admin e f d) (video_tasks d))" by (simp add: newest_first_def)
qed

text \<open>The client's task list computes its offset in 64 bits without a guard: page 2^62 + 1 of pages of two
  returns the first page again.\<close>

theorem List_page_overflow:
  "List e owner (f\<lparr>fi_PageNum := 2 ^ 62 + 1, fi_PageSize := 2\<rparr>) d
     = List e owner (f\<lparr>fi_PageNum := 1, fi_PageSize := 2\<rparr>) d"
proof -
  have "visible_to e owner (f\<lparr>fi_PageNum := n, fi_PageSize := s\<rparr>) d = visible_to e owner f d" for n s
    by (simp add: visible_to_def fun_eq_iff)
  moreover have "nat (wrap64 (2 ^ 62 * 2)) = 0" "wrap64 0 = 0" by (simp_all add: wrap64_def)
  ultimately show ?thesis by (simp add: List_def limit_offset_def Let_def)
qed

definition sample_new_task :: "string \<Rightarrow> NewTask" where
  "sample_new_task i =
     \<lparr>nt_ProtocolVersion = [], nt_RouteState = RouteAwaiting, nt_RoutingSnapshot = NoText, nt_RequestNormalizer = [],
      nt_RoutingRevision = 0, nt_TaskID = i, nt_APIKeyID = ''k'', nt_Model = ''m'', nt_Scenario = ''t2va'',
      nt_Request = Some sample_request, nt_RequestHash = ''h'', nt_Resolution = ''768P'', nt_Ratio = ''16:9'',
      nt_Duration = 5, nt_InputImageCount = 0, nt_CallbackURLCiphertext = [], nt_CallbackURLNonce = [],
      nt_CallbackDeliveryID = [], nt_CallbackRequestBody = [], nt_CallbackRequestBodyHash = [], nt_ProfileID = [],
      nt_ConfigSnapshotJSON = [], nt_ConfigHash = [], nt_ProfileVersion = 0, nt_Stages = [], nt_InputSpoolFiles = []\<rparr>"

lemmas store_eval = Create_def create_new_def replay_def live_key_def forget_key_def remember_key_def
  unfinished_of_def unfinished_all_def prepareTaskRouting_def inferred_protocol_def default_snapshot_def
  check_revision_def Lookup_def Definitions_def insert_task_def new_task_row_def task_insert_ok_def insert_first_delivery_def
  getWith_def rebalance_def protected_seqs_def rebalance_row_def atomically_def model_protocols_def
  nullif_empty_def nullif_zero_def active_on_def ClaimNext_def touched_def keep_or_def queue_eval text_eval

lemma sample_create:
  "\<exists>task d'. Create sample_env (sample_new_task ''a'') ''key'' True sample_catalog_db = (Inr task, d') \<and> d' \<noteq> sample_catalog_db"
  by (simp add: store_eval sample_new_task_def sample_queue_defs)

theorem Create_within_limits_witness:
  "\<exists>task d'. Create sample_env (sample_new_task ''a'') ''key'' True sample_catalog_db = (Inr task, d')
     \<and> vt_task_id (tk_row task) = ''a'' \<and> unfinished_all d' = unfinished_all sample_catalog_db + 1"
proof -
  from sample_create obtain task d' where
    run: "Create sample_env (sample_new_task ''a'') ''key'' True sample_catalog_db = (Inr task, d')" "d' \<noteq> sample_catalog_db"
    by blast
  from Create_within_limits [OF this] run(1) show ?thesis by (auto simp: sample_new_task_def)
qed

theorem Create_idempotent_witness:
  "\<exists>task d'. Create sample_env (sample_new_task ''a'') ''key'' True sample_catalog_db = (Inr task, d')
     \<and> Create sample_env (sample_new_task ''b'') ''key'' False d' = (Inr task, d')"
proof -
  from sample_create obtain task d' where
    run: "Create sample_env (sample_new_task ''a'') ''key'' True sample_catalog_db = (Inr task, d')" "d' \<noteq> sample_catalog_db"
    by blast
  have "Create sample_env (sample_new_task ''b'') ''key'' False d' = (Inr task, d')"
    by (subst Create_idempotent [OF run, where ?e2.0 = sample_env and ?t2.0 = "sample_new_task ''b''"])
      (simp_all add: sample_new_task_def sample_env_def)
  with run(1) show ?thesis by blast
qed

lemma sample_claim:
  "\<exists>task d'. ClaimNext sample_env ''n1'' None sample_queue_db = (Inr task, d')"
proof -
  have h: "distinct (map vt_queue_seq (video_tasks sample_queue_db))"
    "\<forall>t \<in> set (video_tasks sample_queue_db). 0 < vt_queue_seq t" by (simp_all add: sample_queue_defs)
  have "nextEligibleTask ''n1'' 1000 sample_queue_db = Inr (scanTask sample_queue_db (sample_task ''a'' 1))"
    unfolding nextEligibleTask_eq [OF h] by (simp add: queue_eval sample_queue_defs)
  then show ?thesis by (simp add: store_eval sample_queue_defs)
qed

theorem ClaimNext_exclusive_witness:
  "\<exists>task d'. ClaimNext sample_env ''n1'' None sample_queue_db = (Inr task, d') \<and> active_on ''n1'' d' = 1"
proof -
  from sample_claim obtain task d' where run: "ClaimNext sample_env ''n1'' None sample_queue_db = (Inr task, d')" by blast
  moreover have "distinct (map vt_task_id (video_tasks sample_queue_db))" by (simp add: sample_queue_defs)
  ultimately show ?thesis using ClaimNext_exclusive by blast
qed

theorem ListAdminTasks_pages_witness:
  "\<exists>items. concat (map (\<lambda>n. case fst (ListAdminTasks sample_env
        \<lparr>af_Model = [], af_ProtocolVersion = [], af_RouteState = None, af_Status = None, af_UpstreamID = [],
         af_Search = [], af_PageNum = int n, af_PageSize = 1\<rparr> sample_queue_db) of
          Inr (rows, matching) \<Rightarrow> map fst rows | Inl _ \<Rightarrow> []) [1 ..< Suc 2]) = take 2 items \<and> length items = 2"
proof -
  let ?f = "\<lparr>af_Model = [], af_ProtocolVersion = [], af_RouteState = None, af_Status = None, af_UpstreamID = [],
         af_Search = [], af_PageNum = 1, af_PageSize = 1\<rparr>"
  have "0 < af_PageSize ?f" "int (length (video_tasks sample_queue_db)) \<le> max_int64"
    by (simp_all add: sample_queue_defs max_int64_def)
  from ListAdminTasks_pages [OF this, of sample_env 2] obtain items where
    "concat (map (\<lambda>n. case fst (ListAdminTasks sample_env (?f\<lparr>af_PageNum := int n\<rparr>) sample_queue_db) of
          Inr (rows, matching) \<Rightarrow> map fst rows | Inl _ \<Rightarrow> []) [1 ..< Suc 2]) = take (2 * nat (af_PageSize ?f)) items"
    and "mset items = mset (filter (visible_to_admin sample_env ?f sample_queue_db) (video_tasks sample_queue_db))" by blast
  moreover from this(2) have "length items = 2"
    by (subst size_mset [symmetric]) (simp add: visible_to_admin_def sample_queue_defs nowUnix_def)
  ultimately show ?thesis by (intro exI [of _ items]) simp
qed

end
