(* ===== verification/Barriers.thy ===== *)
theory Barriers
  imports TaskStore
begin

text \<open>
  \<^verbatim>\<open>dispatch_barrier.go\<close>: a node whose attempt was cancelled receives no further stage until the
  cancellation is confirmed. A barrier is created from the latest unfinished attempt of the task,
  and its row version guards every later change.
\<close>

section \<open>Operations\<close>

definition attempt_active :: "AttemptStatus \<Rightarrow> bool" where
  "attempt_active s \<longleftrightarrow> s \<in> {AttemptDispatching, AttemptRunning, AttemptValidating, AttemptUnknown}"

definition GetNodeDispatchBarrier :: "string \<Rightarrow> (dispatch_barrier \<times> string) op" where
  "GetNodeDispatchBarrier nodeID =
     reading (\<lambda>d. case select_where (\<lambda>b. nb_node_id b = nodeID) (node_dispatch_barriers d) of
        None \<Rightarrow> Inl ErrNodeDispatchBarrierNotFound
      | Some b \<Rightarrow>
          (case select_where (\<lambda>a. sa_id a = nb_attempt_id b) (stage_attempts d) of
             None \<Rightarrow> Inl ErrNodeDispatchBarrierNotFound
           | Some a \<Rightarrow> Inr (b, coalesce (sa_request_snapshot_json a) [])))"

abbreviation update_one_barrier where
  "update_one_barrier \<equiv> exec_one node_dispatch_barriers node_dispatch_barriers_update ErrNodeDispatchBarrierConflict"

definition BindBarrierExecution :: "StoreEnv \<Rightarrow> string \<Rightarrow> int \<Rightarrow> string \<Rightarrow> unit op" where
  "BindBarrierExecution e nodeID rowVersion executionID =
     update_one_barrier
       (\<lambda>b. nb_node_id b = nodeID \<and> nb_row_version b = rowVersion \<and> nb_execution_id b = None)
       (\<lambda>b. b\<lparr>nb_execution_id := Some executionID, nb_last_error_code := None, nb_next_retry_at := 0,
              nb_updated_at := nowMillis e, nb_row_version := nb_row_version b + 1\<rparr>)"

definition DeferNodeDispatchBarrier :: "StoreEnv \<Rightarrow> string \<Rightarrow> int \<Rightarrow> string \<Rightarrow> int \<Rightarrow> unit op" where
  "DeferNodeDispatchBarrier e nodeID rowVersion errorCode retryAt =
     update_one_barrier (\<lambda>b. nb_node_id b = nodeID \<and> nb_row_version b = rowVersion)
       (\<lambda>b. b\<lparr>nb_last_error_code := nullif_empty errorCode, nb_retry_count := nb_retry_count b + 1,
              nb_next_retry_at := retryAt, nb_updated_at := nowMillis e, nb_row_version := nb_row_version b + 1\<rparr>)"

definition ResolveNodeDispatchBarrier :: "string \<Rightarrow> int \<Rightarrow> unit op" where
  "ResolveNodeDispatchBarrier nodeID rowVersion =
     and_then (gets (\<lambda>d. affected (\<lambda>b. nb_node_id b = nodeID \<and> nb_row_version b = rowVersion)
                 (node_dispatch_barriers d))) (\<lambda>n.
     and_then (exec_delete node_dispatch_barriers_update
                 (\<lambda>b. nb_node_id b = nodeID \<and> nb_row_version b = rowVersion)) (\<lambda>_.
     ensure (n = 1) ErrNodeDispatchBarrierConflict))"

definition HasNodeDispatchBarrier :: "string \<Rightarrow> bool op" where
  "HasNodeDispatchBarrier nodeID =
     gets (\<lambda>d. affected (\<lambda>b. nb_node_id b = nodeID) (node_dispatch_barriers d) > 0)"

text \<open>The unfinished attempts of a task with their stages, in the order of the query, last first.\<close>

definition open_attempts :: "string \<Rightarrow> db \<Rightarrow> (task_stage \<times> stage_attempt) list" where
  "open_attempts i d =
     concat (map (\<lambda>s. map (Pair s) (filter (\<lambda>a. sa_stage_id a = ts_id s \<and> attempt_active (sa_status a)) (stage_attempts d)))
       (filter (\<lambda>s. ts_task_id s = i) (task_stages d)))"

definition latest_attempt :: "string \<Rightarrow> db \<Rightarrow> (task_stage \<times> stage_attempt) option" where
  "latest_attempt i d =
     (let rows = sort_key (\<lambda>(s, a). ts_stage_order s) (sort_key (\<lambda>(s, a). sa_attempt_no a) (open_attempts i d))
      in if rows = [] then None else Some (last rows))"

definition new_barrier :: "task_stage \<Rightarrow> stage_attempt \<Rightarrow> int \<Rightarrow> dispatch_barrier" where
  "new_barrier s a now =
     \<lparr>nb_node_id = sa_node_id a, nb_task_id = ts_task_id s, nb_stage_id = ts_id s, nb_attempt_id = sa_id a,
      nb_operation_id = sa_operation_id a, nb_execution_id = nullif_empty (coalesce (sa_execution_id a) []),
      nb_cancel_operation_id = ''stage-cancel-'' @ sa_id a, nb_last_error_code = None, nb_retry_count = 0,
      nb_next_retry_at = 0, nb_created_at = now, nb_updated_at = now, nb_row_version = 1\<rparr>"

definition createNodeDispatchBarrierForTask :: "string \<Rightarrow> int \<Rightarrow> bool op" where
  "createNodeDispatchBarrierForTask i now =
     and_then (gets (latest_attempt i)) (\<lambda>found.
     case found of
       None \<Rightarrow> ret False
     | Some (s, a) \<Rightarrow>
         and_then (ensuring (\<lambda>d. \<not> exists_where (\<lambda>b. nb_node_id b = sa_node_id a
                       \<or> nb_cancel_operation_id b = ''stage-cancel-'' @ sa_id a) (node_dispatch_barriers d)
                     \<and> sa_operation_id a \<noteq> [])
                    (ErrSQL ''node_dispatch_barriers'')) (\<lambda>_.
         and_then (exec_insert node_dispatch_barriers_update (new_barrier s a now)) (\<lambda>_.
         ret True)))"

end
