(* ===== verification/StageStore.thy ===== *)
theory StageStore
  imports Barriers "HOL-Library.Product_Lexorder"
begin

text \<open>
  \<^verbatim>\<open>stage_store.go\<close>: the stages of a task and their attempts. A node claims the next stage under a
  lease, records an attempt before it submits, binds the execution, and completes or fails the
  stage; the task's own status follows. A \<open>TaskStage\<close> is the row, NULL read as the zero value.
\<close>

section \<open>Choosing a stage\<close>

definition stage_done :: "StageStatus \<Rightarrow> bool" where
  "stage_done s \<longleftrightarrow> s \<in> {StageSucceeded, StageSkipped}"

definition stage_dispatched :: "StageStatus \<Rightarrow> bool" where
  "stage_dispatched s \<longleftrightarrow> s \<in> {StageDispatching, StageRunning, StageValidating, StageUnknown}"

text \<open>The media check of the candidate query: the first URL of a media item starts with \<open>mm_file://\<close>.\<close>

definition content_url :: "GenerationContent \<Rightarrow> string" where
  "content_url c =
     (case gc_image_url c of Some u \<Rightarrow> u | None \<Rightarrow>
        (case gc_video_url c of Some u \<Rightarrow> u | None \<Rightarrow> coalesce (gc_audio_url c) []))"

definition sql_lower :: "char \<Rightarrow> char" where
  "sql_lower c = (if 65 \<le> byte c \<and> byte c \<le> 90 then char_of (byte c + 32) else c)"

definition mm_file_input :: "video_task \<Rightarrow> bool" where
  "mm_file_input t \<longleftrightarrow>
     (case vt_request t of
        None \<Rightarrow> False
      | Some r \<Rightarrow> list_ex (\<lambda>c. gc_type c \<in> {''image_url'', ''video_url'', ''audio_url''}
           \<and> map sql_lower (take 10 (content_url c)) = ''mm_file://'') (gr_content r))"

definition lease_free :: "int \<Rightarrow> task_stage \<Rightarrow> bool" where
  "lease_free now s \<longleftrightarrow> (case ts_lease_expires_at s of None \<Rightarrow> True | Some x \<Rightarrow> x \<le> now)"

definition claim_candidate :: "db \<Rightarrow> string \<Rightarrow> int \<Rightarrow> video_task \<times> task_stage \<Rightarrow> bool" where
  "claim_candidate d nodeID now = (\<lambda>(t, s).
     vt_deleted_at t = None \<and> vt_route_state t = RouteReady \<and> vt_protocol_version t = Some ProtocolH3
     \<and> exists_where (\<lambda>n. mn_id n = nodeID \<and> mn_protocol_version n = ProtocolH3) (model_service_nodes d)
     \<and> vt_status t \<in> {StatusQueuedOpen, StatusQueuedLocked, StatusDispatching, StatusRunning, StatusReconciling}
     \<and> (ts_status s = StagePending \<and> ts_attempt_count s < ts_max_attempts s
        \<or> ts_status s = StageLeased \<and> ts_attempt_count s \<le> ts_max_attempts s
        \<or> stage_dispatched (ts_status s))
     \<and> (case ts_next_attempt_at s of None \<Rightarrow> True | Some x \<Rightarrow> x \<le> now)
     \<and> lease_free now s
     \<and> (ts_preferred_node_id s = None \<or> ts_preferred_node_id s = Some nodeID)
     \<and> (stage_dispatched (ts_status s) \<longrightarrow> ts_current_node_id s = Some nodeID)
     \<and> \<not> exists_where (\<lambda>a. sa_stage_id a = ts_id s \<and> attempt_active (sa_status a) \<and> sa_node_id a \<noteq> nodeID) (stage_attempts d)
     \<and> \<not> exists_where (\<lambda>x. ts_task_id x = ts_task_id s \<and> ts_stage_order x < ts_stage_order s \<and> \<not> stage_done (ts_status x))
         (task_stages d)
     \<and> \<not> mm_file_input t)"

text \<open>
  The candidate rows in the order of the query. (task_id, stage_order) is UNIQUE, so that the
  cursor (queue_seq, stage_order) identifies a row and the id never breaks a tie.
\<close>

definition stage_cursor :: "video_task \<times> task_stage \<Rightarrow> int \<times> int" where
  "stage_cursor = (\<lambda>(t, s). (vt_queue_seq t, ts_stage_order s))"

definition task_stage_rows :: "db \<Rightarrow> (video_task \<times> task_stage) list" where
  "task_stage_rows d =
     concat (map (\<lambda>t. map (Pair t) (filter (\<lambda>s. ts_task_id s = vt_task_id t) (task_stages d))) (video_tasks d))"

definition claim_rows :: "db \<Rightarrow> string \<Rightarrow> int \<Rightarrow> (video_task \<times> task_stage) list" where
  "claim_rows d nodeID now = sort_key stage_cursor (filter (claim_candidate d nodeID now) (task_stage_rows d))"

definition consider_stage :: "db \<Rightarrow> string \<Rightarrow> int \<Rightarrow> video_task \<times> task_stage \<Rightarrow> err + task_stage option" where
  "consider_stage d nodeID now = (\<lambda>(t, s).
     if affected (\<lambda>a. sa_stage_id a = ts_id s \<and> sa_node_id a = nodeID \<and> attempt_active (sa_status a)) (stage_attempts d) > 0
        \<or> coalesce (ts_current_node_id s) [] = nodeID \<and> stage_dispatched (ts_status s)
     then Inr (Some s)
     else
       (case taskEligibleForNode d (scanTask d t) nodeID (now div 1000) of
          Inl er \<Rightarrow> Inl er
        | Inr eligible \<Rightarrow> Inr (if eligible then Some s else None)))"

definition nextEligibleStage :: "string \<Rightarrow> int \<Rightarrow> db \<Rightarrow> err + task_stage" where
  "nextEligibleStage nodeID now d =
     (case paged_scan stage_cursor (consider_stage d nodeID now) (claim_rows d nodeID now) (0, - 1) of
        Inl er \<Rightarrow> Inl er
      | Inr None \<Rightarrow> Inl ErrNoClaimableStage
      | Inr (Some s) \<Rightarrow> Inr s)"

section \<open>Operations\<close>

definition CreateStages :: "StoreEnv \<Rightarrow> task_stage list \<Rightarrow> unit op" where
  "CreateStages e stages = atomically
     (for_each (\<lambda>s. insert_stage_row (new_stage_row (ts_id s) (ts_task_id s) (ts_stage_order s) (ts_stage_type s)
        (ts_max_attempts s) (nullif_empty (coalesce (ts_preferred_node_id s) []))
        (nullif_empty (coalesce (ts_input_artifact_id s) [])) (ts_config_snapshot_json s) (nowMillis e))) stages)"

definition read_stage :: "string \<Rightarrow> task_stage op" where
  "read_stage i =
     reading (\<lambda>d. case select_where (\<lambda>s. ts_id s = i) (task_stages d) of
        None \<Rightarrow> Inl (ErrSQL ''no rows'') | Some s \<Rightarrow> Inr s)"

definition ClaimStage :: "StoreEnv \<Rightarrow> string \<Rightarrow> string \<Rightarrow> int \<Rightarrow> task_stage op" where
  "ClaimStage e nodeID leaseToken leaseMillis = atomically
     (let now = nowMillis e in
      and_then (ensuring (\<lambda>d. affected (\<lambda>b. nb_node_id b = nodeID) (node_dispatch_barriers d) = 0)
                  ErrNoClaimableStage) (\<lambda>_.
      and_then (reading (nextEligibleStage nodeID now)) (\<lambda>stage.
      and_then (exec_one task_stages task_stages_update ErrNoClaimableStage
                  (\<lambda>s. ts_id s = ts_id stage \<and> ts_row_version s = ts_row_version stage
                       \<and> (ts_status s \<in> {StagePending, StageLeased} \<or> stage_dispatched (ts_status s))
                       \<and> lease_free now s)
                  (\<lambda>s. s\<lparr>ts_status := StageLeased, ts_current_node_id := Some nodeID, ts_lease_token := Some leaseToken,
                         ts_lease_expires_at := Some (now + leaseMillis), ts_updated_at := now,
                         ts_row_version := ts_row_version s + 1\<rparr>)) (\<lambda>_.
      read_stage (ts_id stage)))))"

definition RenewStageLease :: "StoreEnv \<Rightarrow> string \<Rightarrow> string \<Rightarrow> int \<Rightarrow> unit op" where
  "RenewStageLease e stageID leaseToken leaseMillis =
     update_one_stage
       (\<lambda>s. ts_id s = stageID \<and> ts_lease_token s = Some leaseToken
            \<and> ts_status s \<in> {StageLeased, StageDispatching, StageRunning, StageValidating}
            \<and> (case ts_lease_expires_at s of None \<Rightarrow> False | Some x \<Rightarrow> x > nowMillis e))
       (\<lambda>s. s\<lparr>ts_lease_expires_at := Some (nowMillis e + leaseMillis), ts_updated_at := nowMillis e,
              ts_row_version := ts_row_version s + 1\<rparr>)"

record StageAttempt =
  at_ID :: string
  at_StageID :: string
  at_AttemptNo :: int
  at_OperationID :: string
  at_NodeID :: string
  at_LeaseToken :: string
  at_ExecutionID :: string
  at_Status :: AttemptStatus
  at_InputArtifactID :: string
  at_OutputArtifactID :: string
  at_MediaBeforeJSON :: string
  at_MediaAfterJSON :: string
  at_RequestSnapshotJSON :: string
  at_ErrorCode :: string
  at_ErrorMessage :: string
  at_StartedAt :: int
  at_HeartbeatAt :: int
  at_FinishedAt :: int

definition attempt_row :: "StageAttempt \<Rightarrow> stage_attempt" where
  "attempt_row a =
     \<lparr>sa_id = at_ID a, sa_stage_id = at_StageID a, sa_attempt_no = at_AttemptNo a, sa_operation_id = at_OperationID a,
      sa_node_id = at_NodeID a, sa_execution_id = nullif_empty (at_ExecutionID a), sa_status = at_Status a,
      sa_input_artifact_id = nullif_empty (at_InputArtifactID a), sa_output_artifact_id = nullif_empty (at_OutputArtifactID a),
      sa_media_before_json = nullif_empty (at_MediaBeforeJSON a), sa_media_after_json = nullif_empty (at_MediaAfterJSON a),
      sa_request_snapshot_json = nullif_empty (at_RequestSnapshotJSON a), sa_error_code = nullif_empty (at_ErrorCode a),
      sa_error_message = nullif_empty (at_ErrorMessage a), sa_started_at = at_StartedAt a,
      sa_heartbeat_at = nullif_zero (at_HeartbeatAt a), sa_finished_at = nullif_zero (at_FinishedAt a)\<rparr>"

definition artifact_known :: "string option \<Rightarrow> db \<Rightarrow> bool" where
  "artifact_known v d = (case v of None \<Rightarrow> True | Some i \<Rightarrow> exists_where (\<lambda>x. ar_id x = i) (task_artifacts d))"

text \<open>The UNIQUE, CHECK and REFERENCES constraints of the attempt table.\<close>

definition attempt_insert_ok :: "stage_attempt \<Rightarrow> db \<Rightarrow> bool" where
  "attempt_insert_ok r d \<longleftrightarrow>
     \<not> exists_where (\<lambda>a. sa_id a = sa_id r \<or> sa_operation_id a = sa_operation_id r
          \<or> (sa_stage_id a = sa_stage_id r \<and> sa_attempt_no a = sa_attempt_no r)
          \<or> (sa_node_id a = sa_node_id r \<and> sa_execution_id r \<noteq> None \<and> sa_execution_id a = sa_execution_id r))
        (stage_attempts d)
     \<and> sa_attempt_no r \<ge> 1 \<and> exists_where (\<lambda>n. mn_id n = sa_node_id r) (model_service_nodes d)
     \<and> artifact_known (sa_input_artifact_id r) d \<and> artifact_known (sa_output_artifact_id r) d"

definition node_version :: "db \<Rightarrow> string \<Rightarrow> int" where
  "node_version d i = (case select_where (\<lambda>n. mn_id n = i) (model_service_nodes d) of None \<Rightarrow> 0 | Some n \<Rightarrow> mn_version n)"

definition h3_dispatch_snapshot :: "db \<Rightarrow> string \<Rightarrow> string \<Rightarrow> DispatchSnapshot option" where
  "h3_dispatch_snapshot d i model =
     map_option (\<lambda>n. \<lparr>ds_node_id = mn_id n, ds_node_version = mn_version n, ds_protocol_version = mn_protocol_version n,
                       ds_service_url = mn_service_url n, ds_upstream_model = model\<rparr>)
       (select_where (\<lambda>n. mn_id n = i) (model_service_nodes d))"

text \<open>The stage and its live task, as the first query of \<open>CreateStageAttempt\<close> joins them.\<close>

definition stage_with_task :: "string \<Rightarrow> db \<Rightarrow> err + task_stage \<times> video_task" where
  "stage_with_task i d =
     (case select_where (\<lambda>s. ts_id s = i) (task_stages d) of
        None \<Rightarrow> Inl (ErrSQL ''no rows'')
      | Some s \<Rightarrow>
          (case select_where (\<lambda>t. vt_task_id t = ts_task_id s \<and> vt_deleted_at t = None) (video_tasks d) of
             None \<Rightarrow> Inl (ErrSQL ''no rows'')
           | Some t \<Rightarrow> Inr (s, t)))"

definition attempt_allowed :: "StoreEnv \<Rightarrow> StageAttempt \<Rightarrow> task_stage \<Rightarrow> video_task \<Rightarrow> bool" where
  "attempt_allowed e a s t \<longleftrightarrow>
     ts_status s = StageLeased \<and> at_LeaseToken a \<noteq> [] \<and> at_LeaseToken a = coalesce (ts_lease_token s) []
     \<and> at_NodeID a = coalesce (ts_current_node_id s) [] \<and> AdminCanCancel (vt_status t)
     \<and> coalesce (ts_lease_expires_at s) 0 > nowMillis e"

definition started :: "StoreEnv \<Rightarrow> StageAttempt \<Rightarrow> StageAttempt" where
  "started e a = a\<lparr>at_StartedAt := (if at_StartedAt a = 0 then nowMillis e else at_StartedAt a)\<rparr>"

definition counted_stage :: "StageAttempt \<Rightarrow> task_stage \<Rightarrow> task_stage" where
  "counted_stage a s =
     s\<lparr>ts_attempt_count := ts_attempt_count s + 1, ts_updated_at := at_StartedAt a,
       ts_row_version := ts_row_version s + 1\<rparr>"

definition dispatched_row :: "StoreEnv \<Rightarrow> db \<Rightarrow> StageAttempt \<Rightarrow> video_task \<Rightarrow> video_task" where
  "dispatched_row e d a t =
     (touched (nowUnix e) t)\<lparr>vt_status := StatusDispatching, vt_cancel_locked := True,
       vt_upstream_id := Some (at_NodeID a), vt_active_stage_id := Some (at_StageID a),
       vt_attempt_started_at := Some (at_StartedAt a div 1000),
       vt_started_at := keep_or (vt_started_at t) (at_StartedAt a div 1000),
       vt_upstream_node_version := node_version d (at_NodeID a),
       vt_dispatch_snapshot := h3_dispatch_snapshot d (at_NodeID a) (vt_model t)\<rparr>"

definition CreateStageAttempt :: "StoreEnv \<Rightarrow> StageAttempt \<Rightarrow> unit op" where
  "CreateStageAttempt e a0 = atomically
     (and_then (reading (stage_with_task (at_StageID a0))) (\<lambda>(s, t).
      and_then (ensure (attempt_allowed e a0 s t) ErrStateConflict) (\<lambda>_.
      and_then (ensure (coalesce (vt_protocol_version t) [] = ProtocolH3) ErrStateConflict) (\<lambda>_.
      and_then (reading (\<lambda>d. taskEligibleForNode d (scanTask d t) (at_NodeID a0) (nowUnix e))) (\<lambda>eligible.
      and_then (ensure eligible ErrStateConflict) (\<lambda>_.
      and_then (ensure (at_AttemptNo a0 = ts_attempt_count s + 1 \<and> at_AttemptNo a0 \<le> ts_max_attempts s)
                  (ErrText ''attempt number'')) (\<lambda>_.
      and_then (ensuring (attempt_insert_ok (attempt_row (started e a0))) (ErrSQL ''stage_attempts'')) (\<lambda>_.
      and_then (exec_insert stage_attempts_update (attempt_row (started e a0))) (\<lambda>_.
      and_then (update_one_stage (\<lambda>x. ts_id x = at_StageID a0 \<and> ts_attempt_count x = ts_attempt_count s)
                  (counted_stage (started e a0))) (\<lambda>_.
      and_then (gets (\<lambda>d. d)) (\<lambda>d.
      and_then (update_one_task (\<lambda>x. vt_task_id x = vt_task_id t \<and> vt_route_state x = RouteReady
                    \<and> vt_protocol_version x = Some ProtocolH3 \<and> vt_deleted_at x = None)
                  (dispatched_row e d (started e a0))) (\<lambda>_.
      rebalance e (nowUnix e)))))))))))))"

definition bindable :: "string \<Rightarrow> string \<Rightarrow> string \<Rightarrow> stage_attempt \<Rightarrow> bool" where
  "bindable stageID attemptID executionID a \<longleftrightarrow>
     sa_id a = attemptID \<and> sa_stage_id a = stageID \<and> attempt_active (sa_status a)
     \<and> (sa_execution_id a = None \<or> sa_execution_id a = Some executionID)"

text \<open>The unique index on (node_id, execution_id), which the UPDATE of an attempt can violate.\<close>

definition execution_unique :: "string \<Rightarrow> string \<Rightarrow> string \<Rightarrow> db \<Rightarrow> bool" where
  "execution_unique stageID attemptID executionID d \<longleftrightarrow>
     list_all (\<lambda>a. bindable stageID attemptID executionID a \<longrightarrow>
        \<not> exists_where (\<lambda>b. sa_id b \<noteq> sa_id a \<and> sa_node_id b = sa_node_id a \<and> sa_execution_id b = Some executionID)
           (stage_attempts d)) (stage_attempts d)"

definition attempt_node :: "string \<Rightarrow> string \<Rightarrow> db \<Rightarrow> err + string \<times> string" where
  "attempt_node stageID attemptID d =
     (case select_where (\<lambda>s. ts_id s = stageID) (task_stages d) of
        None \<Rightarrow> Inl (ErrSQL ''no rows'')
      | Some s \<Rightarrow>
          (case select_where (\<lambda>a. sa_id a = attemptID \<and> sa_stage_id a = stageID) (stage_attempts d) of
             None \<Rightarrow> Inl (ErrSQL ''no rows'')
           | Some a \<Rightarrow> Inr (ts_task_id s, sa_node_id a)))"

definition BindStageExecution :: "StoreEnv \<Rightarrow> string \<Rightarrow> string \<Rightarrow> string \<Rightarrow> string \<Rightarrow> unit op" where
  "BindStageExecution e stageID leaseToken attemptID executionID = committing
     (let now = nowMillis e in
      and_then (ensuring (execution_unique stageID attemptID executionID) (ErrSQL ''uq_stage_attempt_execution'')) (\<lambda>_.
      and_then (update_one_attempt (bindable stageID attemptID executionID)
                  (\<lambda>a. a\<lparr>sa_execution_id := Some executionID, sa_status := AttemptRunning,
                         sa_heartbeat_at := Some now\<rparr>)) (\<lambda>_.
      and_then (update_one_stage (\<lambda>s. ts_id s = stageID \<and> ts_lease_token s = Some leaseToken \<and> ts_status s = StageLeased)
                  (\<lambda>s. s\<lparr>ts_status := StageRunning, ts_updated_at := now, ts_started_at := keep_or (ts_started_at s) now,
                         ts_row_version := ts_row_version s + 1\<rparr>)) (\<lambda>_.
      and_then (reading (attempt_node stageID attemptID)) (\<lambda>(taskID, nodeID).
      and_then (update_one_task (\<lambda>t. vt_task_id t = taskID \<and> vt_deleted_at t = None
                    \<and> vt_status t \<in> {StatusQueuedOpen, StatusQueuedLocked, StatusDispatching, StatusRunning, StatusReconciling})
                  (\<lambda>t. (touched (now div 1000) t)\<lparr>vt_status := StatusRunning, vt_upstream_id := Some nodeID,
                         vt_active_stage_id := Some stageID, vt_started_at := keep_or (vt_started_at t) (now div 1000)\<rparr>)) (\<lambda>_.
      createCallbackDeliveryWithConn e taskID ''running'' now))))))"

definition GetRunningStageAttempt :: "string \<Rightarrow> string \<Rightarrow> stage_attempt op" where
  "GetRunningStageAttempt stageID leaseToken =
     reading (\<lambda>d.
       if \<not> exists_where (\<lambda>s. ts_id s = stageID \<and> ts_lease_token s = Some leaseToken) (task_stages d)
       then Inl ErrNoClaimableStage
       else (let rows = sort_key sa_attempt_no (filter (\<lambda>a. sa_stage_id a = stageID) (stage_attempts d))
             in if rows = [] then Inl ErrNoClaimableStage else Inr (last rows)))"

definition next_order :: "string \<Rightarrow> int \<Rightarrow> db \<Rightarrow> int option" where
  "next_order i order d =
     (let later = filter (\<lambda>x. x > order) (map ts_stage_order (filter (\<lambda>s. ts_task_id s = i) (task_stages d)))
      in if later = [] then None else Some (Min (set later)))"

definition remaining_stages :: "string \<Rightarrow> db \<Rightarrow> nat" where
  "remaining_stages i d = affected (\<lambda>s. ts_task_id s = i \<and> \<not> stage_done (ts_status s)) (task_stages d)"

definition finished_row :: "StoreEnv \<Rightarrow> string \<Rightarrow> bool \<Rightarrow> video_task \<Rightarrow> video_task" where
  "finished_row e outputArtifactID finished t =
     (let now = nowMillis e div 1000 in
      if finished
      then (touched now t)\<lparr>vt_status := StatusSucceeded, vt_result_artifact_id := nullif_empty outputArtifactID,
             vt_active_stage_id := None, vt_usage_total_seconds := vt_duration t,
             vt_usage_output_seconds := vt_duration t, vt_finished_at := Some now\<rparr>
      else (touched now t)\<lparr>vt_status := StatusRunning, vt_upstream_id := None, vt_active_stage_id := None\<rparr>)"

definition finish_stage_task :: "StoreEnv \<Rightarrow> string \<Rightarrow> string \<Rightarrow> bool \<Rightarrow> nat op" where
  "finish_stage_task e taskID outputArtifactID finished =
     update_tasks (\<lambda>t. vt_task_id t = taskID \<and> vt_deleted_at t = None) (finished_row e outputArtifactID finished)"

definition completed_stage :: "StoreEnv \<Rightarrow> string \<Rightarrow> task_stage \<Rightarrow> task_stage" where
  "completed_stage e outputArtifactID s =
     s\<lparr>ts_status := StageSucceeded, ts_output_artifact_id := nullif_empty outputArtifactID,
       ts_lease_token := None, ts_lease_expires_at := None, ts_updated_at := nowMillis e,
       ts_finished_at := Some (nowMillis e), ts_row_version := ts_row_version s + 1\<rparr>"

definition completeStageWithConn :: "StoreEnv \<Rightarrow> string \<Rightarrow> string \<Rightarrow> string \<Rightarrow> string \<Rightarrow> unit op" where
  "completeStageWithConn e stageID leaseToken attemptID outputArtifactID =
     (let now = nowMillis e in
      and_then (update_one_attempt (\<lambda>a. sa_id a = attemptID \<and> sa_stage_id a = stageID
                    \<and> sa_status a \<in> {AttemptRunning, AttemptValidating, AttemptUnknown})
                  (\<lambda>a. a\<lparr>sa_status := AttemptSucceeded, sa_output_artifact_id := nullif_empty outputArtifactID,
                         sa_heartbeat_at := Some now, sa_finished_at := Some now\<rparr>)) (\<lambda>_.
      and_then (ensuring (artifact_known (nullif_empty outputArtifactID)) (ErrSQL ''task_artifacts'')) (\<lambda>_.
      and_then (update_one_stage (\<lambda>s. ts_id s = stageID \<and> ts_lease_token s = Some leaseToken
                    \<and> ts_status s \<in> {StageRunning, StageValidating, StageDispatching})
                  (completed_stage e outputArtifactID)) (\<lambda>_.
      and_then (read_stage stageID) (\<lambda>stage.
      let taskID = ts_task_id stage in
      and_then (gets (next_order taskID (ts_stage_order stage))) (\<lambda>next.
      and_then (update_stages (\<lambda>s. outputArtifactID \<noteq> [] \<and> ts_task_id s = taskID \<and> next = Some (ts_stage_order s)
                    \<and> ts_status s = StagePending)
                  (\<lambda>s. s\<lparr>ts_input_artifact_id := Some outputArtifactID\<rparr>)) (\<lambda>_.
      and_then (gets (remaining_stages taskID)) (\<lambda>remaining.
      and_then (finish_stage_task e taskID outputArtifactID (remaining = 0)) (\<lambda>_.
      createCallbackDeliveryWithConn e taskID (if remaining = 0 then ''succeeded'' else ''running'') now)))))))))"

definition CompleteStage :: "StoreEnv \<Rightarrow> string \<Rightarrow> string \<Rightarrow> string \<Rightarrow> string \<Rightarrow> unit op" where
  "CompleteStage e stageID leaseToken attemptID outputArtifactID = atomically
     (completeStageWithConn e stageID leaseToken attemptID outputArtifactID)"

definition failed_row :: "StoreEnv \<Rightarrow> string \<Rightarrow> string \<Rightarrow> video_task \<Rightarrow> video_task" where
  "failed_row e code message t =
     (let now = nowMillis e div 1000 in
      (touched now t)\<lparr>vt_status := StatusFailed, vt_error_code := Some code, vt_error_message := Some message,
        vt_active_stage_id := None, vt_finished_at := Some now\<rparr>)"

definition failed_task :: "StoreEnv \<Rightarrow> string \<Rightarrow> string \<Rightarrow> string \<Rightarrow> unit op" where
  "failed_task e taskID code message =
     and_then (update_tasks (\<lambda>t. vt_task_id t = taskID \<and> vt_deleted_at t = None) (failed_row e code message)) (\<lambda>_.
     createCallbackDeliveryWithConn e taskID ''failed'' (nowMillis e))"

definition waiting_task :: "StoreEnv \<Rightarrow> string \<Rightarrow> unit op" where
  "waiting_task e taskID =
     and_then (update_tasks (\<lambda>t. vt_task_id t = taskID \<and> vt_deleted_at t = None)
       (\<lambda>t. (touched (nowMillis e div 1000) t)\<lparr>vt_status := StatusRunning, vt_upstream_id := None,
              vt_active_stage_id := None\<rparr>)) (\<lambda>_. ret ())"

definition FailStage ::
  "StoreEnv \<Rightarrow> string \<Rightarrow> string \<Rightarrow> string \<Rightarrow> string \<Rightarrow> string \<Rightarrow> int \<Rightarrow> bool \<Rightarrow> unit op" where
  "FailStage e stageID leaseToken attemptID code message retryAt terminal = atomically
     (let now = nowMillis e in
      and_then (update_attempts (\<lambda>a. sa_id a = attemptID \<and> sa_stage_id a = stageID)
                  (\<lambda>a. a\<lparr>sa_status := AttemptFailed, sa_error_code := Some code, sa_error_message := Some message,
                         sa_heartbeat_at := Some now, sa_finished_at := Some now\<rparr>)) (\<lambda>_.
      and_then (update_one_stage (\<lambda>s. ts_id s = stageID \<and> ts_lease_token s = Some leaseToken)
                  (\<lambda>s. s\<lparr>ts_status := (if terminal then StageFailed else StagePending), ts_error_code := Some code,
                         ts_error_message := Some message,
                         ts_next_attempt_at := (if terminal then None else Some retryAt),
                         ts_lease_token := None, ts_lease_expires_at := None, ts_updated_at := now,
                         ts_finished_at := (if terminal then Some now else None),
                         ts_row_version := ts_row_version s + 1\<rparr>)) (\<lambda>_.
      and_then (read_stage stageID) (\<lambda>stage.
      if terminal then failed_task e (ts_task_id stage) code message
      else waiting_task e (ts_task_id stage)))))"

section \<open>Lemmas\<close>

lemma first_hit_in: "first_hit f xs = Inr (Some y) \<Longrightarrow> \<exists>x \<in> set xs. f x = Inr (Some y)"
  by (induction xs) (auto split: sum.splits option.splits)

lemma paged_scan_hit: "paged_scan key f rows after = Inr (Some y) \<Longrightarrow> \<exists>x \<in> set rows. f x = Inr (Some y)"
proof (induction key f rows after rule: paged_scan.induct)
  case (1 key f rows after)
  show ?case
  proof (cases "first_hit f (page key rows after) = Inr (Some y)")
    case True
    from first_hit_in [OF this] obtain x where "x \<in> set (page key rows after)" "f x = Inr (Some y)" by blast
    then show ?thesis unfolding page_def by (meson filter_is_subset in_set_takeD subsetD)
  next
    case False
    with "1.prems" have none: "first_hit f (page key rows after) = Inr None"
      and long: "\<not> length (page key rows after) < 100"
      and rest: "paged_scan key f rows (key (last (page key rows after))) = Inr (Some y)"
      by (auto simp: paged_scan.simps [of key f rows after] Let_def split: sum.splits option.splits if_splits)
    show ?thesis by (rule "1.IH" [OF refl none refl long rest])
  qed
qed

lemma set_task_stage_rows:
  "(t, s) \<in> set (task_stage_rows d) \<longleftrightarrow> t \<in> set (video_tasks d) \<and> s \<in> set (task_stages d) \<and> ts_task_id s = vt_task_id t"
  by (auto simp: task_stage_rows_def)

lemma consider_stage_hit: "consider_stage d n now (t, s) = Inr (Some y) \<Longrightarrow> y = s"
  by (auto simp: consider_stage_def split: if_splits sum.splits)

lemma nextEligibleStage_sound:
  assumes "nextEligibleStage n now d = Inr s"
  obtains t where "t \<in> set (video_tasks d)" "s \<in> set (task_stages d)" "ts_task_id s = vt_task_id t"
    "claim_candidate d n now (t, s)" "consider_stage d n now (t, s) = Inr (Some s)"
proof -
  from assms have "paged_scan stage_cursor (consider_stage d n now) (claim_rows d n now) (0, - 1) = Inr (Some s)"
    by (simp add: nextEligibleStage_def split: sum.splits option.splits)
  from paged_scan_hit [OF this] obtain t s' where
    "(t, s') \<in> set (claim_rows d n now)" "consider_stage d n now (t, s') = Inr (Some s)" by auto
  with consider_stage_hit that show thesis by (force simp: claim_rows_def set_task_stage_rows)
qed

lemma claim_candidateD:
  assumes "claim_candidate d n now (t, s)"
  shows "vt_deleted_at t = None" "AdminCanCancel (vt_status t)" "lease_free now s"
    "\<forall>x \<in> set (task_stages d). ts_task_id x = ts_task_id s \<and> ts_stage_order x < ts_stage_order s \<longrightarrow> stage_done (ts_status x)"
    "\<forall>a \<in> set (stage_attempts d). sa_stage_id a = ts_id s \<and> attempt_active (sa_status a) \<longrightarrow> sa_node_id a = n"
    "ts_status s \<in> {StagePending, StageLeased} \<or> stage_dispatched (ts_status s)"
  using assms unfolding claim_candidate_def prod.case by (simp, force simp: AdminCanCancel_def, simp, fastforce, fastforce, blast)

definition leased_stage :: "StoreEnv \<Rightarrow> string \<Rightarrow> string \<Rightarrow> int \<Rightarrow> task_stage \<Rightarrow> task_stage" where
  "leased_stage e nodeID leaseToken leaseMillis s =
     s\<lparr>ts_status := StageLeased, ts_current_node_id := Some nodeID, ts_lease_token := Some leaseToken,
       ts_lease_expires_at := Some (nowMillis e + leaseMillis), ts_updated_at := nowMillis e,
       ts_row_version := ts_row_version s + 1\<rparr>"

lemma leased_stage_simps [simp]:
  "ts_id (leased_stage e n tok ms s) = ts_id s" "ts_task_id (leased_stage e n tok ms s) = ts_task_id s"
  "ts_stage_order (leased_stage e n tok ms s) = ts_stage_order s" "ts_status (leased_stage e n tok ms s) = StageLeased"
  "ts_lease_token (leased_stage e n tok ms s) = Some tok" "ts_current_node_id (leased_stage e n tok ms s) = Some n"
  "ts_lease_expires_at (leased_stage e n tok ms s) = Some (nowMillis e + ms)"
  by (simp_all add: leased_stage_def)

definition stages_keyed :: "db \<Rightarrow> bool" where
  "stages_keyed d \<longleftrightarrow> distinct (map ts_id (task_stages d))"

lemma update_key_only:
  assumes "distinct (map k rows)" and "s \<in> set rows" and "p s" and "\<And>r. p r \<Longrightarrow> k r = k s"
  shows "update_where p f rows = update_where (\<lambda>r. k r = k s) f rows"
proof -
  have "p r \<longleftrightarrow> k r = k s" if "r \<in> set rows" for r
    using assms(3,4) key_unique [OF assms(1) that assms(2)] by metis
  then show ?thesis unfolding update_where_def by (intro map_cong refl) auto
qed

lemma select_key_update:
  assumes "distinct (map k rows)" and "s \<in> set rows" and "\<And>r. k (f r) = k r"
  shows "select_where (\<lambda>r. k r = k s) (update_where (\<lambda>r. k r = k s) f rows) = Some (f s)"
  by (rule select_where_key [where k = k]) (use assms in \<open>auto simp: distinct_update_where set_update_where\<close>)

lemma ClaimStage_success:
  assumes "ClaimStage e n tok ms d = (Inr s', d')" and "stages_keyed d"
  obtains t s where "t \<in> set (video_tasks d)" "s \<in> set (task_stages d)" "ts_task_id s = vt_task_id t"
    "claim_candidate d n (nowMillis e) (t, s)" "\<forall>b \<in> set (node_dispatch_barriers d). nb_node_id b \<noteq> n"
    "s' = leased_stage e n tok ms s"
    "d' = task_stages_update (update_where (\<lambda>x. ts_id x = ts_id s) (leased_stage e n tok ms)) d"
proof -
  from assms(1) obtain s where sel: "nextEligibleStage n (nowMillis e) d = Inr s"
    and free: "\<forall>b \<in> set (node_dispatch_barriers d). nb_node_id b \<noteq> n"
    and one: "affected (\<lambda>x. ts_id x = ts_id s \<and> ts_row_version x = ts_row_version s
           \<and> (ts_status x \<in> {StagePending, StageLeased} \<or> stage_dispatched (ts_status x)) \<and> lease_free (nowMillis e) x)
          (task_stages d) = 1"
    and d': "d' = task_stages_update (update_where (\<lambda>x. ts_id x = ts_id s \<and> ts_row_version x = ts_row_version s
           \<and> (ts_status x \<in> {StagePending, StageLeased} \<or> stage_dispatched (ts_status x)) \<and> lease_free (nowMillis e) x)
          (leased_stage e n tok ms)) d"
    and got: "read_stage (ts_id s) d' = (Inr s', d')"
    unfolding ClaimStage_def Let_def atomically_success_iff
    by (auto simp: tx_success affected_zero leased_stage_def [abs_def] read_stage_def)
  from sel obtain t where t: "t \<in> set (video_tasks d)" "s \<in> set (task_stages d)" "ts_task_id s = vt_task_id t"
    "claim_candidate d n (nowMillis e) (t, s)" by (rule nextEligibleStage_sound)
  have keyed: "distinct (map ts_id (task_stages d))" using assms(2) by (simp add: stages_keyed_def)
  from affected_one_ex [OF one] obtain x where x: "x \<in> set (task_stages d)" "ts_id x = ts_id s"
    "ts_row_version x = ts_row_version s"
    "ts_status x \<in> {StagePending, StageLeased} \<or> stage_dispatched (ts_status x)" "lease_free (nowMillis e) x" by blast
  have "x = s" by (rule key_unique [OF keyed x(1) t(2) x(2)])
  then have d'': "d' = task_stages_update (update_where (\<lambda>x. ts_id x = ts_id s) (leased_stage e n tok ms)) d"
    unfolding d' using x t(2)
    by (intro stage_table.upd_cong update_key_only [OF keyed t(2)]) auto
  then have "s' = leased_stage e n tok ms s"
    using got select_key_update [OF keyed t(2), of "leased_stage e n tok ms"] by (simp add: read_stage_def)
  with t free d'' that show thesis by blast
qed

text \<open>A stage is claimed only when it is its turn and nobody else works on it: its task is live and unfinished,
  every earlier stage is done, no other node has an unfinished attempt, a previous lease has run out,
  and the node has no pending cancellation. Exactly this stage changes, and it is leased to the node.\<close>

theorem ClaimStage_sound:
  assumes "ClaimStage e n tok ms d = (Inr s', d')" and "distinct (map ts_id (task_stages d))"
  shows "\<exists>t \<in> set (video_tasks d). \<exists>s \<in> set (task_stages d). ts_task_id s = vt_task_id t
     \<and> vt_deleted_at t = None \<and> AdminCanCancel (vt_status t)
     \<and> (\<forall>x \<in> set (task_stages d). ts_task_id x = ts_task_id s \<and> ts_stage_order x < ts_stage_order s \<longrightarrow> stage_done (ts_status x))
     \<and> (\<forall>a \<in> set (stage_attempts d). sa_stage_id a = ts_id s \<and> attempt_active (sa_status a) \<longrightarrow> sa_node_id a = n)
     \<and> (\<forall>x. ts_lease_expires_at s = Some x \<longrightarrow> x \<le> nowMillis e)
     \<and> (\<forall>b \<in> set (node_dispatch_barriers d). nb_node_id b \<noteq> n)
     \<and> s' = leased_stage e n tok ms s
     \<and> d' = task_stages_update (update_where (\<lambda>x. ts_id x = ts_id s) (\<lambda>_. s')) d"
proof -
  have keyed: "stages_keyed d" using assms(2) by (simp add: stages_keyed_def)
  from assms(1) keyed obtain t s where t: "t \<in> set (video_tasks d)" "s \<in> set (task_stages d)" "ts_task_id s = vt_task_id t"
    and cand: "claim_candidate d n (nowMillis e) (t, s)" and free: "\<forall>b \<in> set (node_dispatch_barriers d). nb_node_id b \<noteq> n"
    and s': "s' = leased_stage e n tok ms s"
    and d': "d' = task_stages_update (update_where (\<lambda>x. ts_id x = ts_id s) (leased_stage e n tok ms)) d"
    by (rule ClaimStage_success)
  have "update_where (\<lambda>x. ts_id x = ts_id s) (leased_stage e n tok ms) (task_stages d)
      = update_where (\<lambda>x. ts_id x = ts_id s) (\<lambda>_. s') (task_stages d)"
    unfolding update_where_def s' using key_unique [OF assms(2) _ t(2)] by auto
  then have "d' = task_stages_update (update_where (\<lambda>x. ts_id x = ts_id s) (\<lambda>_. s')) d"
    unfolding d' by (rule stage_table.upd_cong)
  moreover have "\<forall>x. ts_lease_expires_at s = Some x \<longrightarrow> x \<le> nowMillis e"
    using claim_candidateD(3) [OF cand] by (auto simp: lease_free_def)
  ultimately show ?thesis using t(3) claim_candidateD(1,2,4,5) [OF cand] free s'
    by (intro bexI [OF _ t(1)] bexI [OF _ t(2)]) simp
qed

text \<open>Who holds the lease of a stage, and that the guarded operations honour it.\<close>

definition stage_holder :: "string \<Rightarrow> db \<Rightarrow> string option" where
  "stage_holder i d = (case select_where (\<lambda>s. ts_id s = i) (task_stages d) of None \<Rightarrow> None | Some s \<Rightarrow> ts_lease_token s)"

lemma stage_holderI:
  assumes "stages_keyed d" and "affected (\<lambda>s. ts_id s = i \<and> ts_lease_token s = Some tok \<and> P s) (task_stages d) = 1"
  shows "stage_holder i d = Some tok"
proof -
  from affected_one_ex [OF assms(2)] obtain s where s: "s \<in> set (task_stages d)" "ts_id s = i" "ts_lease_token s = Some tok"
    by blast
  have "select_where (\<lambda>s. ts_id s = i) (task_stages d) = Some s"
    by (rule select_where_key [where k = ts_id]) (use assms(1) s in \<open>auto simp: stages_keyed_def\<close>)
  with s(3) show ?thesis by (simp add: stage_holder_def)
qed

lemma stage_holder_frame [simp]:
  "stage_holder i (stage_attempts_update f d) = stage_holder i d"
  "stages_keyed (stage_attempts_update f d) = stages_keyed d"
  by (simp_all add: stage_holder_def stages_keyed_def)

interpretation renew: atomic_leased_op stages_keyed "stage_holder i" "\<lambda>tok. RenewStageLease e i tok ms" for e i ms
proof unfold_locales
  fix s tok x s' assume "stages_keyed s" "RenewStageLease e i tok ms s = (Inr x, s')"
  then show "stage_holder i s = Some tok"
    unfolding RenewStageLease_def by (auto simp: exec_one_success_iff intro: stage_holderI)
next
  fix s tok er s' assume "stages_keyed s" "RenewStageLease e i tok ms s = (Inl er, s')"
  then show "s' = s" unfolding RenewStageLease_def
    by (intro stage_table.exec_one_rejected(1)) (auto simp: stage_table.keyed_def stages_keyed_def)
qed

interpretation complete: atomic_leased_op stages_keyed "stage_holder i" "\<lambda>tok. CompleteStage e i tok a out" for e i a out
proof unfold_locales
  fix s tok x s' assume "stages_keyed s" "CompleteStage e i tok a out s = (Inr x, s')"
  then show "stage_holder i s = Some tok"
    unfolding CompleteStage_def atomically_success_iff completeStageWithConn_def Let_def
    by (auto simp: tx_success dest: stage_holderI)
qed (auto simp: CompleteStage_def dest: atomically_failure)

interpretation failing: atomic_leased_op stages_keyed "stage_holder i"
  "\<lambda>tok. FailStage e i tok a code msg retryAt terminal" for e i a code msg retryAt terminal
proof unfold_locales
  fix s tok x s' assume *: "stages_keyed s" "FailStage e i tok a code msg retryAt terminal s = (Inr x, s')"
  then have "affected (\<lambda>s. ts_id s = i \<and> ts_lease_token s = Some tok \<and> True) (task_stages s) = 1"
    unfolding FailStage_def atomically_success_iff Let_def by (auto simp: tx_success)
  with *(1) show "stage_holder i s = Some tok" by (rule stage_holderI)
qed (auto simp: FailStage_def dest: atomically_failure)

interpretation attempting: atomic_leased_op stages_keyed "stage_holder (at_StageID a)"
  "\<lambda>tok. CreateStageAttempt e (a\<lparr>at_LeaseToken := tok\<rparr>)" for e a
proof unfold_locales
  fix s tok x s' assume "stages_keyed s" "CreateStageAttempt e (a\<lparr>at_LeaseToken := tok\<rparr>) s = (Inr x, s')"
  then have "\<exists>st. select_where (\<lambda>s. ts_id s = at_StageID a) (task_stages s) = Some st
      \<and> tok \<noteq> [] \<and> tok = coalesce (ts_lease_token st) []"
    unfolding CreateStageAttempt_def atomically_success_iff
    by (auto simp: tx_success stage_with_task_def attempt_allowed_def split: option.splits)
  then show "stage_holder (at_StageID a) s = Some tok"
    by (auto simp: stage_holder_def coalesce_def split: option.splits)
qed (auto simp: CreateStageAttempt_def dest: atomically_failure)

interpretation binding: leased_op stages_keyed "stage_holder i" "\<lambda>tok. BindStageExecution e i tok a x" for e i a x
proof unfold_locales
  fix s tok y s' assume "stages_keyed s" "BindStageExecution e i tok a x s = (Inr y, s')"
  then show "stage_holder i s = Some tok"
    unfolding BindStageExecution_def committing_def Let_def
    by (auto simp: tx_success dest: stage_holderI)
qed

lemma claimed_holder:
  assumes "ClaimStage e n tok ms d = (Inr s, d')" and "stages_keyed d"
  shows "stages_keyed d'" and "stage_holder (ts_id s) d' = Some tok"
proof -
  from assms obtain t s0 where s0: "s0 \<in> set (task_stages d)" and s: "s = leased_stage e n tok ms s0"
    and d': "d' = task_stages_update (update_where (\<lambda>x. ts_id x = ts_id s0) (leased_stage e n tok ms)) d"
    by (rule ClaimStage_success)
  show "stages_keyed d'" using assms(2) by (simp add: stages_keyed_def d' distinct_update_where)
  show "stage_holder (ts_id s) d' = Some tok"
    using select_key_update [of ts_id "task_stages d" s0 "leased_stage e n tok ms"] assms(2) s0
    by (simp add: stage_holder_def d' s stages_keyed_def)
qed

text \<open>C10: Once a stage is claimed, a worker that still holds an older lease is fenced off: its renewal, its
  completion, its failure report and its new attempts are refused and change nothing.\<close>

theorem ClaimStage_fences_old_lease:
  assumes "ClaimStage e n tok ms d = (Inr s, d')" and "distinct (map ts_id (task_stages d))" and "old \<noteq> tok"
  shows "(\<exists>er. RenewStageLease e' (ts_id s) old ms' d' = (Inl er, d'))
    \<and> (\<exists>er. CompleteStage e' (ts_id s) old a out d' = (Inl er, d'))
    \<and> (\<exists>er. FailStage e' (ts_id s) old a code msg retryAt terminal d' = (Inl er, d'))
    \<and> (at_StageID attempt = ts_id s \<and> at_LeaseToken attempt = old \<longrightarrow>
         (\<exists>er. CreateStageAttempt e' attempt d' = (Inl er, d')))"
proof -
  have keyed: "stages_keyed d" using assms(2) by (simp add: stages_keyed_def)
  note held = claimed_holder [OF assms(1) keyed]
  have stale: "stage_holder (ts_id s) d' \<noteq> Some old" using held(2) assms(3) by simp
  show ?thesis
    using renew.stale_harmless [OF held(1) stale] complete.stale_harmless [OF held(1) stale]
      failing.stale_harmless [OF held(1) stale] attempting.stale_harmless [OF held(1), of attempt old e'] stale
    by auto
qed

text \<open>C29: A stale worker's attempt to bind its execution is refused, but the attempt row it touched first stays
  changed: the transaction is committed although the operation returns an error.\<close>

theorem BindStageExecution_stale_leaks:
  assumes "distinct (map ts_id (task_stages d))" and "stage_holder i d \<noteq> Some tok"
    and "a \<in> set (stage_attempts d)" and "distinct (map sa_id (stage_attempts d))"
    and "bindable i (sa_id a) x a" and "execution_unique i (sa_id a) x d"
  shows "\<exists>d'. BindStageExecution e i tok (sa_id a) x d = (Inl ErrStateConflict, d')
     \<and> a\<lparr>sa_execution_id := Some x, sa_status := AttemptRunning, sa_heartbeat_at := Some (nowMillis e)\<rparr> \<in> set (stage_attempts d')"
proof -
  have keyed: "stages_keyed d" using assms(1) by (simp add: stages_keyed_def)
  have one: "affected (bindable i (sa_id a) x) (stage_attempts d) = 1"
    by (rule affected_key_one [OF assms(4,3), where v = "sa_id a"]) (use assms(5) in \<open>simp_all add: bindable_def\<close>)
  have none: "affected (\<lambda>s. ts_id s = i \<and> ts_lease_token s = Some tok \<and> ts_status s = StageLeased) (task_stages d) \<noteq> 1"
    using stage_holderI [OF keyed, of i tok "\<lambda>s. ts_status s = StageLeased"] assms(2) by blast
  show ?thesis using assms(3,5,6) one none
    by (simp add: BindStageExecution_def Let_def and_then_ensuring and_then_exec_one set_update_where)
qed

section \<open>The stage machine\<close>

text \<open>
  The invariant of the stages: keys are unique; a leased stage is unfinished and every earlier stage
  of its task is done; a finished task has no leased stage.
\<close>

definition stage_open :: "StageStatus \<Rightarrow> bool" where
  "stage_open s \<longleftrightarrow> s \<in> {StagePending, StageLeased} \<or> stage_dispatched s"

definition turn :: "task_stage list \<Rightarrow> task_stage \<Rightarrow> bool" where
  "turn stages s \<longleftrightarrow> stage_open (ts_status s) \<and>
     (\<forall>x \<in> set stages. ts_task_id x = ts_task_id s \<and> ts_stage_order x < ts_stage_order s \<longrightarrow> stage_done (ts_status x))"

definition leased_rows_ok :: "video_task list \<Rightarrow> task_stage list \<Rightarrow> bool" where
  "leased_rows_ok tasks stages \<longleftrightarrow>
     (\<forall>s \<in> set stages. ts_lease_token s \<noteq> None \<longrightarrow> turn stages s \<and>
        (\<forall>t \<in> set tasks. vt_task_id t = ts_task_id s \<longrightarrow> \<not> AdminCanDelete (vt_status t)))"

definition stage_inv :: "db \<Rightarrow> bool" where
  "stage_inv d \<longleftrightarrow> distinct (map vt_task_id (video_tasks d)) \<and> stages_keyed d
     \<and> distinct (map (\<lambda>s. (ts_task_id s, ts_stage_order s)) (task_stages d))
     \<and> leased_rows_ok (video_tasks d) (task_stages d)"

text \<open>What a step promises: every finished task keeps its status.\<close>

definition finished_kept :: "db \<Rightarrow> db \<Rightarrow> bool" where
  "finished_kept d d' \<longleftrightarrow>
     (\<forall>t \<in> set (video_tasks d). AdminCanDelete (vt_status t) \<longrightarrow>
        (\<exists>t' \<in> set (video_tasks d'). vt_task_id t' = vt_task_id t \<and> vt_status t' = vt_status t))"

definition stage_safe :: "db \<Rightarrow> db \<Rightarrow> bool" where
  "stage_safe d d' \<longleftrightarrow> (stage_inv d \<longrightarrow> stage_inv d' \<and> finished_kept d d')"

lemma stage_open_done: "stage_open s \<Longrightarrow> stage_done s \<Longrightarrow> False"
  by (auto simp: stage_open_def stage_done_def stage_dispatched_def)

interpretation stage_safety: step_contract stage_safe
proof
  show "stage_safe d d" for d by (auto simp: stage_safe_def finished_kept_def)
  show "stage_safe d d''" if "stage_safe d d'" "stage_safe d' d''" for d d' d''
    using that unfolding stage_safe_def finished_kept_def by metis
qed

text \<open>At most one stage of a task is leased.\<close>

lemma one_leased:
  assumes "stage_inv d" and "s \<in> set (task_stages d)" and "x \<in> set (task_stages d)"
    and "ts_lease_token s \<noteq> None" and "turn (task_stages d) x" and "ts_task_id x = ts_task_id s"
  shows "x = s"
proof -
  have s: "turn (task_stages d) s" using assms by (simp add: stage_inv_def leased_rows_ok_def)
  have "\<not> ts_stage_order x < ts_stage_order s" "\<not> ts_stage_order s < ts_stage_order x"
    using s assms unfolding turn_def by (metis stage_open_done)+
  then have "ts_stage_order x = ts_stage_order s" by simp
  moreover have "distinct (map (\<lambda>s. (ts_task_id s, ts_stage_order s)) (task_stages d))"
    using assms(1) by (simp add: stage_inv_def)
  ultimately show ?thesis using key_unique [OF _ assms(3,2)] assms(6) by auto
qed

text \<open>
  A statement on the tasks is safe when it keeps the ids and the status of finished tasks, and
  finishes a task only when it has no leased stage.
\<close>

lemma safe_task_update:
  assumes "\<And>t. vt_task_id (f t) = vt_task_id t"
    and "stage_inv d \<Longrightarrow> (\<And>t. t \<in> set (video_tasks d) \<Longrightarrow> p t \<Longrightarrow> AdminCanDelete (vt_status t) \<Longrightarrow> vt_status (f t) = vt_status t)"
    and "stage_inv d \<Longrightarrow> (\<And>t s. t \<in> set (video_tasks d) \<Longrightarrow> p t \<Longrightarrow> AdminCanDelete (vt_status (f t)) \<Longrightarrow> \<not> AdminCanDelete (vt_status t) \<Longrightarrow>
           s \<in> set (task_stages d) \<Longrightarrow> ts_task_id s = vt_task_id t \<Longrightarrow> ts_lease_token s = None)"
  shows "stage_safe d (video_tasks_update (update_where p f) d)"
  unfolding stage_safe_def
proof
  assume inv: "stage_inv d"
  have ids: "distinct (map vt_task_id (update_where p f (video_tasks d)))"
    using inv assms(1) by (simp add: stage_inv_def distinct_update_where)
  have "leased_rows_ok (update_where p f (video_tasks d)) (task_stages d)"
    unfolding leased_rows_ok_def
  proof (intro ballI impI conjI)
    fix s assume s: "s \<in> set (task_stages d)" "ts_lease_token s \<noteq> None"
    then show "turn (task_stages d) s" using inv by (simp add: stage_inv_def leased_rows_ok_def)
    fix t assume t: "t \<in> set (update_where p f (video_tasks d))" "vt_task_id t = ts_task_id s"
    have old: "\<not> AdminCanDelete (vt_status u)" if "u \<in> set (video_tasks d)" "vt_task_id u = ts_task_id s" for u
      using inv s that by (simp add: stage_inv_def leased_rows_ok_def)
    from t(1) consider "t \<in> set (video_tasks d)" | u where "u \<in> set (video_tasks d)" "p u" "t = f u"
      by (auto simp: set_update_where)
    then show "\<not> AdminCanDelete (vt_status t)"
    proof cases
      case 1 from old [OF 1 t(2)] show ?thesis .
    next
      case 2
      then have "\<not> AdminCanDelete (vt_status u)" "ts_task_id s = vt_task_id u"
        using old [of u] t(2) assms(1) by simp_all
      with 2 s assms(3) [OF inv, of u s] show ?thesis by auto
    qed
  qed
  with inv ids have "stage_inv (video_tasks_update (update_where p f) d)"
    by (simp add: stage_inv_def stages_keyed_def)
  moreover have "finished_kept d (video_tasks_update (update_where p f) d)"
    unfolding finished_kept_def
  proof (intro ballI impI)
    fix t assume "t \<in> set (video_tasks d)" "AdminCanDelete (vt_status t)"
    then show "\<exists>t' \<in> set (video_tasks (video_tasks_update (update_where p f) d)).
        vt_task_id t' = vt_task_id t \<and> vt_status t' = vt_status t"
      using assms(1) assms(2) [OF inv] by (cases "p t") (auto simp: set_update_where)
  qed
  ultimately show "stage_inv (video_tasks_update (update_where p f) d) \<and> finished_kept d (video_tasks_update (update_where p f) d)" ..
qed

text \<open>A statement on the stages is safe when it keeps ids, tasks, orders, and done stages, and leases a stage only in its turn.\<close>

lemma safe_stage_update:
  assumes "\<And>s. ts_id (f s) = ts_id s \<and> ts_task_id (f s) = ts_task_id s \<and> ts_stage_order (f s) = ts_stage_order s"
    and "stage_inv d \<Longrightarrow> (\<And>s. s \<in> set (task_stages d) \<Longrightarrow> p s \<Longrightarrow> stage_done (ts_status s) \<Longrightarrow> stage_done (ts_status (f s)))"
    and "stage_inv d \<Longrightarrow> (\<And>s. s \<in> set (task_stages d) \<Longrightarrow> p s \<Longrightarrow> ts_lease_token (f s) \<noteq> None \<Longrightarrow>
           turn (task_stages d) s \<and> stage_open (ts_status (f s)) \<and>
           (\<forall>t \<in> set (video_tasks d). vt_task_id t = ts_task_id s \<longrightarrow> \<not> AdminCanDelete (vt_status t)))"
  shows "stage_safe d (task_stages_update (update_where p f) d)"
  unfolding stage_safe_def
proof
  assume inv: "stage_inv d"
  let ?rows = "update_where p f (task_stages d)"
  have keys: "distinct (map ts_id ?rows)" "distinct (map (\<lambda>s. (ts_task_id s, ts_stage_order s)) ?rows)"
    using inv assms(1) by (simp_all add: stage_inv_def stages_keyed_def distinct_update_where)
  have before: "\<exists>y \<in> set (task_stages d). ts_task_id y = ts_task_id x \<and> ts_stage_order y = ts_stage_order x
      \<and> (stage_done (ts_status y) \<longrightarrow> stage_done (ts_status x))" if "x \<in> set ?rows" for x
    using that assms(1) assms(2) [OF inv] by (auto simp: set_update_where)
  have kept: "turn ?rows (f s)" if "turn (task_stages d) s" "stage_open (ts_status (f s))" for s
    unfolding turn_def using that before assms(1) by (metis turn_def)
  have same: "turn ?rows s" if "turn (task_stages d) s" for s
    unfolding turn_def using that before by (metis turn_def)
  have "leased_rows_ok (video_tasks d) ?rows"
    unfolding leased_rows_ok_def
  proof (intro ballI impI)
    fix s assume s: "s \<in> set ?rows" "ts_lease_token s \<noteq> None"
    from s(1) consider "s \<in> set (task_stages d)" | y where "y \<in> set (task_stages d)" "p y" "s = f y"
      by (auto simp: set_update_where)
    then show "turn ?rows s \<and> (\<forall>t \<in> set (video_tasks d). vt_task_id t = ts_task_id s \<longrightarrow> \<not> AdminCanDelete (vt_status t))"
    proof cases
      case 1
      with inv s(2) same show ?thesis by (simp add: stage_inv_def leased_rows_ok_def)
    next
      case 2
      with assms(3) [OF inv 2(1,2)] s(2) kept assms(1) show ?thesis by simp
    qed
  qed
  with inv keys show "stage_inv (task_stages_update (update_where p f) d) \<and> finished_kept d (task_stages_update (update_where p f) d)"
    by (auto simp: stage_inv_def stages_keyed_def finished_kept_def)
qed

lemma safe_frame: "video_tasks d' = video_tasks d \<Longrightarrow> task_stages d' = task_stages d \<Longrightarrow> stage_safe d d'"
  by (auto simp: stage_safe_def stage_inv_def stages_keyed_def finished_kept_def)

lemma safe_attempts: "stage_safe d (stage_attempts_update f d)"
  by (rule safe_frame) simp_all

lemma callback_frame:
  assumes "createCallbackDeliveryWithConn e i st now d = (r, d')"
  shows "\<exists>f. d' = callback_deliveries_update f d"
proof -
  have same: "\<exists>f. d = callback_deliveries_update f d" by (rule exI [of _ "\<lambda>x. x"]) simp
  show ?thesis
    using assms same unfolding createCallbackDeliveryWithConn_def insert_delivery_def
    by (auto split: option.splits if_splits)
qed

lemma safe_callback: "keeps stage_safe (createCallbackDeliveryWithConn e i st now)"
  by (rule keepsI) (auto dest!: callback_frame intro: safe_frame)

lemma safe_rebalance: "stage_safe d (snd (rebalance e now d))"
  unfolding rebalance_apply snd_conv by (rule safe_task_update) auto

lemma leased_turn:
  assumes "stage_inv d" and "s \<in> set (task_stages d)" and "ts_lease_token s = Some tok"
  shows "turn (task_stages d) s"
    and "\<And>t. t \<in> set (video_tasks d) \<Longrightarrow> vt_task_id t = ts_task_id s \<Longrightarrow> \<not> AdminCanDelete (vt_status t)"
  using assms by (auto simp: stage_inv_def leased_rows_ok_def)

text \<open>A statement that keeps the lease of the stage it selects by its token is safe.\<close>

lemma safe_held_update:
  assumes "\<And>s. ts_id (f s) = ts_id s \<and> ts_task_id (f s) = ts_task_id s \<and> ts_stage_order (f s) = ts_stage_order s"
    and "\<And>s. p s \<Longrightarrow> ts_lease_token s \<noteq> None \<and> (stage_open (ts_status s) \<longrightarrow> stage_open (ts_status (f s)) \<or> ts_lease_token (f s) = None)"
  shows "stage_safe d (task_stages_update (update_where p f) d)"
proof (rule safe_stage_update [OF assms(1)])
  fix s assume inv: "stage_inv d" and s: "s \<in> set (task_stages d)" "p s"
  from assms(2) [OF s(2)] obtain tok where tok: "ts_lease_token s = Some tok" by blast
  note lease = leased_turn [OF inv s(1) tok]
  then have op: "stage_open (ts_status s)" by (simp add: turn_def)
  show "stage_done (ts_status (f s))" if "stage_done (ts_status s)"
    using that op stage_open_done by blast
  show "turn (task_stages d) s \<and> stage_open (ts_status (f s)) \<and>
      (\<forall>t \<in> set (video_tasks d). vt_task_id t = ts_task_id s \<longrightarrow> \<not> AdminCanDelete (vt_status t))"
    if "ts_lease_token (f s) \<noteq> None"
    using that op lease assms(2) [OF s(2)] by auto
qed

lemma safe_ClaimStage: "ClaimStage e n tok ms d = (r, d') \<Longrightarrow> stage_safe d d'"
proof (cases r)
  case (Inl er)
  assume "ClaimStage e n tok ms d = (r, d')"
  with Inl have "d' = d" by (auto simp: ClaimStage_def dest: atomically_failure)
  then show ?thesis by (simp add: stage_safety.refl)
next
  case (Inr s')
  assume run: "ClaimStage e n tok ms d = (r, d')"
  show ?thesis
  proof (cases "stage_inv d")
    case False then show ?thesis by (simp add: stage_safe_def)
  next
    case inv: True
    then have keyed: "stages_keyed d" and tasks: "distinct (map vt_task_id (video_tasks d))" by (simp_all add: stage_inv_def)
    from run Inr keyed obtain t s where t: "t \<in> set (video_tasks d)" "s \<in> set (task_stages d)" "ts_task_id s = vt_task_id t"
      and cand: "claim_candidate d n (nowMillis e) (t, s)"
      and d': "d' = task_stages_update (update_where (\<lambda>x. ts_id x = ts_id s) (leased_stage e n tok ms)) d"
      by (auto elim: ClaimStage_success)
    have only: "x = s" if "x \<in> set (task_stages d)" "ts_id x = ts_id s" for x
      using keyed that t(2) by (auto simp: stages_keyed_def intro: key_unique)
    have turn: "turn (task_stages d) s"
      using claim_candidateD(4,6) [OF cand] by (simp add: turn_def stage_open_def)
    have live: "\<not> AdminCanDelete (vt_status u)" if "u \<in> set (video_tasks d)" "vt_task_id u = ts_task_id s" for u
    proof -
      have "u = t" using key_unique [OF tasks that(1) t(1)] that(2) t(3) by simp
      then show ?thesis using claim_candidateD(2) [OF cand] by (auto simp: AdminCanCancel_def)
    qed
    show ?thesis unfolding d'
    proof (rule safe_stage_update)
      fix x assume "x \<in> set (task_stages d)" "ts_id x = ts_id s"
      then have x: "x = s" by (rule only)
      show "stage_done (ts_status (leased_stage e n tok ms x))" if "stage_done (ts_status x)"
        using that turn stage_open_done by (auto simp: x turn_def)
      show "turn (task_stages d) x \<and> stage_open (ts_status (leased_stage e n tok ms x))
         \<and> (\<forall>t \<in> set (video_tasks d). vt_task_id t = ts_task_id x \<longrightarrow> \<not> AdminCanDelete (vt_status t))"
        using turn live by (simp add: x stage_open_def)
    qed simp
  qed
qed

lemma safe_RenewStageLease: "RenewStageLease e i tok ms d = (r, d') \<Longrightarrow> stage_safe d d'"
  unfolding RenewStageLease_def exec_one_apply
  by (auto intro!: safe_held_update)

lemma keeps_exec_one:
  "(\<And>d. R d (upd (update_where p f) d)) \<Longrightarrow> keeps R (exec_one get upd e p f)"
  by (simp add: keeps_def exec_one_apply)

lemma keeps_split: "(\<And>x y. keeps R (f x y)) \<Longrightarrow> keeps R (case v of (x, y) \<Rightarrow> f x y)"
  by (cases v) simp

lemma safe_reading: "keeps stage_safe (reading f)"
  by (simp add: keeps_def stage_safety.refl)

lemma safe_BindStageExecution: "BindStageExecution e i tok a x d = (r, d') \<Longrightarrow> stage_safe d d'"
proof (rule keepsD [where R = stage_safe])
  show "keeps stage_safe (BindStageExecution e i tok a x)"
    unfolding BindStageExecution_def Let_def
    by (intro stage_safety.keeps_intros keeps_exec_one keeps_split safe_reading safe_attempts safe_callback
        safe_held_update safe_task_update)
      (auto simp: stage_open_def stage_dispatched_def touched_def)
qed

lemma safe_lease_kept:
  assumes "\<And>s. ts_id (f s) = ts_id s \<and> ts_task_id (f s) = ts_task_id s \<and> ts_stage_order (f s) = ts_stage_order s
      \<and> ts_status (f s) = ts_status s \<and> ts_lease_token (f s) = ts_lease_token s"
  shows "stage_safe d (task_stages_update (update_where p f) d)"
  by (rule safe_stage_update) (use assms leased_turn in \<open>auto simp: turn_def\<close>)

text \<open>The last steps of an operation on a held stage: the statement on its task is safe when the task was unfinished.\<close>

lemma safe_held_task:
  assumes "stage_safe d d2" and "video_tasks d2 = video_tasks d" and "s \<in> set (task_stages d)" and "ts_lease_token s = Some tok"
    and "\<And>t. vt_task_id (f t) = vt_task_id t" and "\<And>t. p t \<Longrightarrow> vt_task_id t = ts_task_id s"
    and "stage_inv d \<Longrightarrow> stage_inv d2 \<Longrightarrow> (\<And>t x. p t \<Longrightarrow> AdminCanDelete (vt_status (f t)) \<Longrightarrow> x \<in> set (task_stages d2) \<Longrightarrow>
           ts_task_id x = ts_task_id s \<Longrightarrow> ts_lease_token x = None)"
  shows "stage_safe d (video_tasks_update (update_where p f) d2)"
proof (cases "stage_inv d")
  case True
  with assms(1) have inv2: "stage_inv d2" by (simp add: stage_safe_def)
  note live = leased_turn(2) [OF True assms(3,4)]
  have "stage_safe d2 (video_tasks_update (update_where p f) d2)"
    by (rule safe_task_update [OF assms(5)]) (use live assms(2,6,7) True inv2 in auto)
  with assms(1) show ?thesis by (rule stage_safety.trans)
qed (simp add: stage_safe_def)

lemma stage_with_id:
  assumes "stages_keyed d" and "s \<in> set (task_stages d)"
  shows "select_where (\<lambda>x. ts_id x = ts_id s) (task_stages d) = Some s"
  using assms by (auto simp: stages_keyed_def intro: select_where_key [where k = ts_id])

lemma selected_task:
  assumes "stages_keyed d" and "s \<in> set (task_stages d)" and "\<And>x. ts_id (f x) = ts_id x \<and> ts_task_id (f x) = ts_task_id x"
    and "select_where (\<lambda>x. ts_id x = ts_id s) (update_where p f (task_stages d)) = Some s'"
  shows "ts_task_id s' = ts_task_id s"
proof -
  from select_where_Some [OF assms(4)] obtain y where "y \<in> set (task_stages d)" "ts_id y = ts_id s" "ts_task_id s' = ts_task_id y"
    using assms(3) by (auto simp: set_update_where)
  with assms(1,2) show ?thesis by (auto simp: stages_keyed_def dest: key_unique)
qed

lemma finished_row_simps [simp]:
  "vt_task_id (finished_row e out fin t) = vt_task_id t"
  "vt_status (finished_row e out fin t) = (if fin then StatusSucceeded else StatusRunning)"
  by (simp_all add: finished_row_def touched_def Let_def)

lemma failed_row_simps [simp]:
  "vt_task_id (failed_row e code msg t) = vt_task_id t" "vt_status (failed_row e code msg t) = StatusFailed"
  by (simp_all add: failed_row_def touched_def Let_def)

lemma completed_stage_simps [simp]:
  "ts_id (completed_stage e out s) = ts_id s" "ts_task_id (completed_stage e out s) = ts_task_id s"
  "ts_stage_order (completed_stage e out s) = ts_stage_order s" "ts_status (completed_stage e out s) = StageSucceeded"
  "ts_lease_token (completed_stage e out s) = None" "ts_attempt_count (completed_stage e out s) = ts_attempt_count s"
  "ts_max_attempts (completed_stage e out s) = ts_max_attempts s"
  by (simp_all add: completed_stage_def)

lemma CompleteStage_success:
  assumes "CompleteStage e i tok a out d = (Inr (), d')" and "stages_keyed d"
  obtains s g q d2 st where "s \<in> set (task_stages d)" "ts_id s = i" "ts_lease_token s = Some tok"
    "\<And>x. q x \<longleftrightarrow> out \<noteq> [] \<and> ts_task_id x = ts_task_id s \<and> ts_status x = StagePending
        \<and> next_order (ts_task_id s) (ts_stage_order s) d = Some (ts_stage_order x)"
    "d2 = task_stages_update (update_where q (\<lambda>x. x\<lparr>ts_input_artifact_id := Some out\<rparr>))
       (task_stages_update (update_where (\<lambda>x. ts_id x = i) (completed_stage e out)) (stage_attempts_update g d))"
    "createCallbackDeliveryWithConn e (ts_task_id s) st (nowMillis e)
       (snd (finish_stage_task e (ts_task_id s) out (remaining_stages (ts_task_id s) d2 = 0) d2)) = (Inr (), d')"
proof -
  define p where "p = (\<lambda>s::task_stage. ts_id s = i \<and> ts_lease_token s = Some tok
      \<and> ts_status s \<in> {StageRunning, StageValidating, StageDispatching})"
  from assms(1) obtain g d1 stage d2 st where one: "affected p (task_stages d) = 1"
    and d1: "d1 = task_stages_update (update_where p (completed_stage e out)) (stage_attempts_update g d)"
    and stage: "select_where (\<lambda>x. ts_id x = i) (task_stages d1) = Some stage"
    and d2: "d2 = task_stages_update (update_where (\<lambda>x. out \<noteq> [] \<and> ts_task_id x = ts_task_id stage
        \<and> next_order (ts_task_id stage) (ts_stage_order stage) d1 = Some (ts_stage_order x) \<and> ts_status x = StagePending)
        (\<lambda>x. x\<lparr>ts_input_artifact_id := Some out\<rparr>)) d1"
    and cb: "createCallbackDeliveryWithConn e (ts_task_id stage) st (nowMillis e)
       (snd (finish_stage_task e (ts_task_id stage) out (remaining_stages (ts_task_id stage) d2 = 0) d2)) = (Inr (), d')"
    unfolding CompleteStage_def atomically_success_iff completeStageWithConn_def Let_def read_stage_def p_def finish_stage_task_def
    by (auto simp: tx_success split: option.splits)
  define q where "q = (\<lambda>x::task_stage. out \<noteq> [] \<and> ts_task_id x = ts_task_id stage
        \<and> next_order (ts_task_id stage) (ts_stage_order stage) d1 = Some (ts_stage_order x) \<and> ts_status x = StagePending)"
  have keyed: "distinct (map ts_id (task_stages d))" using assms(2) by (simp add: stages_keyed_def)
  from affected_one_ex [OF one] obtain s where s: "s \<in> set (task_stages d)" "p s" by blast
  then have tok: "ts_lease_token s = Some tok" and id: "ts_id s = i" by (simp_all add: p_def)
  have rows: "update_where p (completed_stage e out) (task_stages d)
      = update_where (\<lambda>x. ts_id x = ts_id s) (completed_stage e out) (task_stages d)"
    by (rule update_key_only [OF keyed s(1)]) (use s(2) in \<open>simp_all add: p_def id\<close>)
  then have d1': "d1 = task_stages_update (update_where (\<lambda>x. ts_id x = i) (completed_stage e out)) (stage_attempts_update g d)"
    unfolding d1 by (intro stage_table.upd_cong) (simp add: id)
  have "stage = completed_stage e out s"
    using stage select_key_update [OF keyed s(1), of "completed_stage e out"] by (simp add: d1' id)
  moreover have "map ts_stage_order (filter (\<lambda>x. ts_task_id x = j) (task_stages d1))
      = map ts_stage_order (filter (\<lambda>x. ts_task_id x = j) (task_stages d))" for j
    unfolding d1 by (induction "task_stages d") (auto simp: update_where_def filter_map comp_def)
  then have "next_order j k d1 = next_order j k d" for j k by (simp add: next_order_def)
  ultimately have qq: "q x \<longleftrightarrow> out \<noteq> [] \<and> ts_task_id x = ts_task_id s \<and> ts_status x = StagePending
      \<and> next_order (ts_task_id s) (ts_stage_order s) d = Some (ts_stage_order x)" for x
    by (auto simp: q_def)
  have task: "ts_task_id stage = ts_task_id s" using \<open>stage = completed_stage e out s\<close> by simp
  show thesis by (rule that [OF s(1) id tok qq d2 [folded q_def, unfolded d1'] cb [unfolded task]])
qed

lemma safe_CompleteStage: "CompleteStage e i tok a out d = (r, d') \<Longrightarrow> stage_safe d d'"
proof (cases "r = Inr () \<and> stage_inv d")
  case False
  assume "CompleteStage e i tok a out d = (r, d')"
  with False show ?thesis
    by (cases r) (auto simp: CompleteStage_def stage_safe_def finished_kept_def dest: atomically_failure)
next
  case True
  then have inv: "stage_inv d" and keyed: "stages_keyed d" by (simp_all add: stage_inv_def)
  assume "CompleteStage e i tok a out d = (r, d')"
  with True have "CompleteStage e i tok a out d = (Inr (), d')" by simp
  then obtain s g q d2 st where s: "s \<in> set (task_stages d)" "ts_id s = i" "ts_lease_token s = Some tok"
    and d2: "d2 = task_stages_update (update_where q (\<lambda>x. x\<lparr>ts_input_artifact_id := Some out\<rparr>))
       (task_stages_update (update_where (\<lambda>x. ts_id x = i) (completed_stage e out)) (stage_attempts_update g d))"
    and cb: "createCallbackDeliveryWithConn e (ts_task_id s) st (nowMillis e)
       (snd (finish_stage_task e (ts_task_id s) out (remaining_stages (ts_task_id s) d2 = 0) d2)) = (Inr (), d')"
    using keyed by (rule CompleteStage_success)
  have "stage_safe (stage_attempts_update g d)
      (task_stages_update (update_where (\<lambda>x. ts_id x = i) (completed_stage e out)) (stage_attempts_update g d))"
    by (rule safe_stage_update) (auto simp: stage_done_def)
  from stage_safety.trans [OF safe_attempts this] have safe: "stage_safe d d2" unfolding d2
    by (rule stage_safety.trans [OF _ safe_lease_kept]) simp
  have "stage_safe d (snd (finish_stage_task e (ts_task_id s) out (remaining_stages (ts_task_id s) d2 = 0) d2))"
    unfolding finish_stage_task_def exec_update_apply snd_conv
  proof (rule safe_held_task [OF safe _ s(1,3)])
    fix t x assume "stage_inv d2" and fin: "AdminCanDelete (vt_status (finished_row e out (remaining_stages (ts_task_id s) d2 = 0) t))"
      and x: "x \<in> set (task_stages d2)" "ts_task_id x = ts_task_id s"
    from fin have "remaining_stages (ts_task_id s) d2 = 0" by (simp split: if_splits)
    with x have "stage_done (ts_status x)" by (auto simp: remaining_stages_def affected_zero)
    with \<open>stage_inv d2\<close> x(1) show "ts_lease_token x = None"
      using stage_open_done by (fastforce simp: stage_inv_def leased_rows_ok_def turn_def)
  qed (auto simp: d2)
  then show ?thesis using keepsD [OF safe_callback cb] stage_safety.trans by blast
qed

text \<open>Releasing the lease of a stage leaves its task without any leased stage.\<close>

lemma released_unleased:
  assumes inv: "stage_inv d" and s: "s \<in> set (task_stages d)" "ts_lease_token s = Some tok"
    and p: "\<And>x. p x \<longleftrightarrow> ts_id x = ts_id s \<and> ts_lease_token x = Some tok"
    and f: "\<And>x. ts_task_id (f x) = ts_task_id x \<and> ts_lease_token (f x) = None"
    and x: "x \<in> set (update_where p f (task_stages d))" "ts_task_id x = ts_task_id s"
  shows "ts_lease_token x = None"
proof (rule ccontr)
  assume leased: "ts_lease_token x \<noteq> None"
  with x(1) f have x': "x \<in> set (task_stages d)" "\<not> p x" by (auto simp: set_update_where)
  from leased obtain tok' where "ts_lease_token x = Some tok'" by blast
  from leased_turn(1) [OF inv x'(1) this] have "x = s"
    using one_leased [OF inv s(1) x'(1)] s(2) x(2) by simp
  with x'(2) s(2) p show False by simp
qed

lemma safe_FailStage: "FailStage e i tok a code msg retryAt terminal d = (r, d') \<Longrightarrow> stage_safe d d'"
proof (cases "r = Inr () \<and> stage_inv d")
  case False
  assume "FailStage e i tok a code msg retryAt terminal d = (r, d')"
  with False show ?thesis
    by (cases r) (auto simp: FailStage_def stage_safe_def finished_kept_def dest: atomically_failure)
next
  case True
  then have inv: "stage_inv d" and keyed: "stages_keyed d" by (simp_all add: stage_inv_def)
  define p where "p = (\<lambda>s::task_stage. ts_id s = i \<and> ts_lease_token s = Some tok)"
  define f where "f = (\<lambda>s::task_stage. s\<lparr>ts_status := (if terminal then StageFailed else StagePending), ts_error_code := Some code,
      ts_error_message := Some msg, ts_next_attempt_at := (if terminal then None else Some retryAt),
      ts_lease_token := None, ts_lease_expires_at := None, ts_updated_at := nowMillis e,
      ts_finished_at := (if terminal then Some (nowMillis e) else None), ts_row_version := ts_row_version s + 1\<rparr>)"
  assume "FailStage e i tok a code msg retryAt terminal d = (r, d')"
  with True obtain g d1 stage where one: "affected p (task_stages d) = 1"
    and d1: "d1 = task_stages_update (update_where p f) (stage_attempts_update g d)"
    and stage: "select_where (\<lambda>x. ts_id x = i) (task_stages d1) = Some stage"
    and fin: "(if terminal then failed_task e (ts_task_id stage) code msg else waiting_task e (ts_task_id stage)) d1 = (Inr (), d')"
    unfolding FailStage_def Let_def read_stage_def p_def f_def atomically_success_iff
    by (auto simp: tx_success split: option.splits)
  from affected_one_ex [OF one] obtain s where s: "s \<in> set (task_stages d)" "p s" by blast
  then have tok: "ts_lease_token s = Some tok" and id: "ts_id s = i" by (simp_all add: p_def)
  have "stage_safe (stage_attempts_update g d) d1" unfolding d1 by (rule safe_held_update) (auto simp: f_def p_def)
  then have safe: "stage_safe d d1" using safe_attempts stage_safety.trans by blast
  have task: "ts_task_id stage = ts_task_id s"
    using selected_task [OF keyed s(1), of f p stage] stage by (simp add: d1 id f_def)
  have free: "ts_lease_token x = None" if "x \<in> set (task_stages d1)" "ts_task_id x = ts_task_id s" for x
    by (rule released_unleased [OF inv s(1) tok, where p = p and f = f and x = x])
      (use that in \<open>auto simp: d1 p_def f_def id\<close>)
  show ?thesis
  proof (cases terminal)
    case True
    let ?d2 = "video_tasks_update (update_where (\<lambda>t. vt_task_id t = ts_task_id stage \<and> vt_deleted_at t = None) (failed_row e code msg)) d1"
    have "stage_safe d ?d2"
      by (rule safe_held_task [OF safe _ s(1) tok]) (use free in \<open>auto simp: d1 task\<close>)
    moreover from fin True have "createCallbackDeliveryWithConn e (ts_task_id stage) ''failed'' (nowMillis e) ?d2 = (Inr (), d')"
      by (simp add: failed_task_def)
    ultimately show ?thesis using keepsD [OF safe_callback] stage_safety.trans by blast
  next
    case False
    with fin have "d' = video_tasks_update (update_where (\<lambda>t. vt_task_id t = ts_task_id stage \<and> vt_deleted_at t = None)
        (\<lambda>t. (touched (nowMillis e div 1000) t)\<lparr>vt_status := StatusRunning, vt_upstream_id := None, vt_active_stage_id := None\<rparr>)) d1"
      by (simp add: waiting_task_def)
    then show ?thesis
      by (simp only:) (rule safe_held_task [OF safe _ s(1) tok], use free in \<open>auto simp: d1 task touched_def\<close>)
  qed
qed

lemma safe_CreateStageAttempt: "CreateStageAttempt e a d = (r, d') \<Longrightarrow> stage_safe d d'"
proof (cases "r = Inr () \<and> stage_inv d")
  case False
  assume "CreateStageAttempt e a d = (r, d')"
  with False show ?thesis
    by (cases r) (auto simp: CreateStageAttempt_def stage_safe_def finished_kept_def dest: atomically_failure)
next
  case True
  assume "CreateStageAttempt e a d = (r, d')"
  with True obtain st t g p d1 where
    st: "stage_with_task (at_StageID a) d = Inr (st, t)" and ok: "attempt_allowed e a st t"
    and d1: "d1 = task_stages_update (update_where p (counted_stage (started e a))) (stage_attempts_update g d)"
    and d': "d' = snd (rebalance e (nowUnix e) (video_tasks_update (update_where (\<lambda>x. vt_task_id x = vt_task_id t
        \<and> vt_route_state x = RouteReady \<and> vt_protocol_version x = Some ProtocolH3 \<and> vt_deleted_at x = None)
        (dispatched_row e d1 (started e a))) d1))"
    unfolding CreateStageAttempt_def atomically_success_iff
    by (auto simp: tx_success rebalance_apply)
  let ?q = "\<lambda>x::video_task. vt_task_id x = vt_task_id t \<and> vt_route_state x = RouteReady \<and> vt_protocol_version x = Some ProtocolH3
      \<and> vt_deleted_at x = None"
  have t: "t \<in> set (video_tasks d)" using st by (auto simp: stage_with_task_def dest: select_where_Some split: option.splits)
  have "stage_safe (stage_attempts_update g d) d1"
    unfolding d1 by (rule safe_lease_kept) (simp add: counted_stage_def)
  then have safe: "stage_safe d d1" using safe_attempts stage_safety.trans by blast
  have "\<not> AdminCanDelete (vt_status x)" if "x \<in> set (video_tasks d1)" "?q x" for x
  proof -
    have "x = t" using True key_unique [OF _ _ t, of vt_task_id x] that by (auto simp: stage_inv_def d1)
    with ok show ?thesis by (auto simp: attempt_allowed_def AdminCanCancel_def)
  qed
  then have "stage_safe d1 (video_tasks_update (update_where ?q (dispatched_row e d1 (started e a))) d1)"
    by (intro safe_task_update) (auto simp: dispatched_row_def touched_def)
  with safe show ?thesis unfolding d' using safe_rebalance stage_safety.trans by blast
qed

text \<open>The steps the workers take on stages, each with whatever outcome it has.\<close>

inductive stage_step :: "db \<Rightarrow> db \<Rightarrow> bool" where
  claim: "ClaimStage e n tok ms d = (r, d') \<Longrightarrow> stage_step d d'"
| renew: "RenewStageLease e i tok ms d = (r, d') \<Longrightarrow> stage_step d d'"
| attempt: "CreateStageAttempt e a d = (r, d') \<Longrightarrow> stage_step d d'"
| bind: "BindStageExecution e i tok aid x d = (r, d') \<Longrightarrow> stage_step d d'"
| complete: "CompleteStage e i tok aid out d = (r, d') \<Longrightarrow> stage_step d d'"
| fail: "FailStage e i tok aid code msg retryAt terminal d = (r, d') \<Longrightarrow> stage_step d d'"

lemmas stage_step_safe = safe_ClaimStage safe_RenewStageLease safe_CreateStageAttempt safe_BindStageExecution
  safe_CompleteStage safe_FailStage

lemma stage_steps_safe: "stage_step\<^sup>*\<^sup>* d d' \<Longrightarrow> stage_safe d d'"
proof (induction rule: rtranclp_induct)
  case base show ?case by (rule stage_safety.refl)
next
  case (step d1 d2)
  from step.hyps(2) have "stage_safe d1 d2" by cases (auto intro: stage_step_safe)
  with step.IH show ?case by (rule stage_safety.trans)
qed

text \<open>C5: However the workers' claims, renewals, attempts, completions and failures interleave, and whether they
  succeed or not, the stage invariant holds and a finished task never changes its status: at most one stage of a
  task is leased, in order, and a task finishes only when no lease on it is left.\<close>

theorem stage_machine_safe:
  assumes "stage_step\<^sup>*\<^sup>* d d'" and "stage_inv d"
  shows "stage_inv d'
    \<and> (\<forall>t \<in> set (video_tasks d). AdminCanDelete (vt_status t) \<longrightarrow>
         (\<exists>t' \<in> set (video_tasks d'). vt_task_id t' = vt_task_id t \<and> vt_status t' = vt_status t))
    \<and> (\<forall>s \<in> set (task_stages d'). \<forall>x \<in> set (task_stages d').
         ts_task_id x = ts_task_id s \<and> ts_lease_token s \<noteq> None \<and> ts_lease_token x \<noteq> None \<longrightarrow> x = s)"
proof -
  from stage_steps_safe [OF assms(1)] assms(2) have inv: "stage_inv d'" and kept: "finished_kept d d'"
    by (simp_all add: stage_safe_def)
  have "x = s" if "s \<in> set (task_stages d')" "x \<in> set (task_stages d')" "ts_task_id x = ts_task_id s"
      "ts_lease_token s \<noteq> None" "ts_lease_token x \<noteq> None" for s x
  proof -
    from that(5) obtain tok where "ts_lease_token x = Some tok" by blast
    from leased_turn(1) [OF inv that(2) this] show ?thesis using one_leased [OF inv that(1,2,4)] that(3) by simp
  qed
  with inv kept show ?thesis by (simp add: finished_kept_def)
qed

section \<open>Attempts are counted and bounded\<close>

definition attempts_of :: "db \<Rightarrow> string \<Rightarrow> nat" where
  "attempts_of d i = affected (\<lambda>a. sa_stage_id a = i) (stage_attempts d)"

definition attempts_ok :: "db \<Rightarrow> bool" where
  "attempts_ok d \<longleftrightarrow> stages_keyed d \<and>
     (\<forall>s \<in> set (task_stages d). int (attempts_of d (ts_id s)) = ts_attempt_count s \<and> ts_attempt_count s \<le> ts_max_attempts s)"

definition attempts_step :: "db \<Rightarrow> db \<Rightarrow> bool" where
  "attempts_step d d' \<longleftrightarrow> (attempts_ok d \<longrightarrow> attempts_ok d')"

interpretation attempts_steps: step_contract attempts_step
  by unfold_locales (auto simp: attempts_step_def)

lemma attempts_frame:
  "task_stages d' = task_stages d \<Longrightarrow> stage_attempts d' = stage_attempts d \<Longrightarrow> attempts_step d d'"
  by (simp add: attempts_step_def attempts_ok_def attempts_of_def stages_keyed_def)

lemma attempts_stage_update:
  assumes "\<And>s. ts_id (f s) = ts_id s \<and> ts_attempt_count (f s) = ts_attempt_count s \<and> ts_max_attempts (f s) = ts_max_attempts s"
  shows "attempts_step d (task_stages_update (update_where p f) d)"
  using assms by (auto simp: attempts_step_def attempts_ok_def attempts_of_def stages_keyed_def distinct_update_where set_update_where)

lemma attempts_attempt_update:
  assumes "\<And>a. sa_stage_id (f a) = sa_stage_id a"
  shows "attempts_step d (stage_attempts_update (update_where p f) d)"
  using assms by (simp add: attempts_step_def attempts_ok_def attempts_of_def stages_keyed_def affected_update_same)

lemma attempts_task_update: "attempts_step d (video_tasks_update f d)"
  by (rule attempts_frame) simp_all

lemma attempts_callback: "keeps attempts_step (createCallbackDeliveryWithConn e i st now)"
  by (rule keepsI) (auto dest!: callback_frame intro: attempts_frame)

lemma attempts_reading: "keeps attempts_step (reading f)"
  by (simp add: keeps_def attempts_steps.refl)

lemma keeps_exec_update: "(\<And>d. R d (upd (update_where p f) d)) \<Longrightarrow> keeps R (exec_update get upd p f)"
  by (simp add: keeps_def)

lemmas attempts_intros = attempts_steps.keeps_intros keeps_exec_one keeps_exec_update keeps_split attempts_reading
  attempts_callback attempts_task_update attempts_stage_update attempts_attempt_update

lemma attempts_plain:
  "keeps attempts_step (ClaimStage e n tok ms)" "keeps attempts_step (RenewStageLease e i tok ms)"
  "keeps attempts_step (BindStageExecution e i tok aid x)" "keeps attempts_step (CompleteStage e i tok aid out)"
  "keeps attempts_step (FailStage e i tok aid code msg retryAt terminal)"
  unfolding ClaimStage_def RenewStageLease_def BindStageExecution_def CompleteStage_def completeStageWithConn_def
    FailStage_def failed_task_def waiting_task_def finish_stage_task_def read_stage_def Let_def
  by (intro attempts_intros; simp)+

lemma attempts_CreateStageAttempt: "CreateStageAttempt e a d = (r, d') \<Longrightarrow> attempts_step d d'"
proof (cases "r = Inr () \<and> attempts_ok d")
  case False
  assume "CreateStageAttempt e a d = (r, d')"
  with False show ?thesis
    by (cases r) (auto simp: CreateStageAttempt_def attempts_step_def dest: atomically_failure)
next
  case True
  then have ok: "attempts_ok d" and keyed: "stages_keyed d" by (simp_all add: attempts_ok_def)
  assume "CreateStageAttempt e a d = (r, d')"
  with True obtain st t where st: "stage_with_task (at_StageID a) d = Inr (st, t)"
    and no: "at_AttemptNo a = ts_attempt_count st + 1" "at_AttemptNo a \<le> ts_max_attempts st"
    and stages: "task_stages d' = update_where (\<lambda>x. ts_id x = at_StageID a \<and> ts_attempt_count x = ts_attempt_count st)
        (counted_stage (started e a)) (task_stages d)"
    and attempts: "stage_attempts d' = stage_attempts d @ [attempt_row (started e a)]"
    unfolding CreateStageAttempt_def atomically_success_iff
    by (auto simp: tx_success rebalance_apply)
  have s: "st \<in> set (task_stages d)" "ts_id st = at_StageID a"
    using st by (auto simp: stage_with_task_def dest: select_where_Some split: option.splits)
  have other: "x = st" if "x \<in> set (task_stages d)" "ts_id x = at_StageID a" for x
    using keyed key_unique [OF _ that(1) s(1), of ts_id] that(2) s(2) by (auto simp: stages_keyed_def)
  have row: "sa_stage_id (attempt_row (started e a)) = at_StageID a" by (simp add: attempt_row_def started_def)
  have "attempts_ok d'"
    unfolding attempts_ok_def
  proof (intro conjI ballI)
    show "stages_keyed d'" using keyed by (simp add: stages_keyed_def stages distinct_update_where counted_stage_def)
    fix x assume "x \<in> set (task_stages d')"
    then obtain y where y: "y \<in> set (task_stages d)"
      and x: "x = (if ts_id y = at_StageID a then counted_stage (started e a) y else y)"
      using other by (fastforce simp: stages set_update_where)
    have "int (attempts_of d (ts_id y)) = ts_attempt_count y \<and> ts_attempt_count y \<le> ts_max_attempts y"
      using ok y by (simp add: attempts_ok_def)
    then show "int (attempts_of d' (ts_id x)) = ts_attempt_count x" "ts_attempt_count x \<le> ts_max_attempts x"
      using other [OF y] no by (auto simp: x attempts_of_def attempts row counted_stage_def)
  qed
  then show ?thesis by (simp add: attempts_step_def)
qed

text \<open>No stage is ever attempted more often than its limit: in every execution of the workers the number of
  recorded attempts of a stage equals its counter, which stays within \<open>max_attempts\<close>.\<close>

theorem stage_attempts_bounded:
  assumes "stage_step\<^sup>*\<^sup>* d d'" and "attempts_ok d"
  shows "\<forall>s \<in> set (task_stages d'). int (attempts_of d' (ts_id s)) = ts_attempt_count s \<and> ts_attempt_count s \<le> ts_max_attempts s"
proof -
  from assms(1) have "attempts_step d d'"
  proof (induction rule: rtranclp_induct)
    case base show ?case by (rule attempts_steps.refl)
  next
    case (step d1 d2)
    from step.hyps(2) have "attempts_step d1 d2"
      by cases (auto intro: keepsD attempts_plain attempts_CreateStageAttempt)
    with step.IH show ?case by (rule attempts_steps.trans)
  qed
  with assms(2) show ?thesis by (simp add: attempts_step_def attempts_ok_def)
qed

lemma in_update_where: "x \<in> set (update_where p f rows) \<longleftrightarrow> (\<exists>y \<in> set rows. x = (if p y then f y else y))"
  by (auto simp: update_where_def)

lemma remaining_completed:
  assumes "stages_keyed d" and "s \<in> set (task_stages d)"
    and "d2 = task_stages_update (update_where q (\<lambda>x. x\<lparr>ts_input_artifact_id := v\<rparr>))
       (task_stages_update (update_where (\<lambda>x. ts_id x = ts_id s) (completed_stage e out)) d1)" and "task_stages d1 = task_stages d"
  shows "remaining_stages (ts_task_id s) d2 = 0 \<longleftrightarrow>
     (\<forall>x \<in> set (task_stages d). ts_task_id x = ts_task_id s \<and> x \<noteq> s \<longrightarrow> stage_done (ts_status x))"
proof -
  have done_same: "remaining_stages j d2 = remaining_stages j
      (task_stages_update (update_where (\<lambda>x. ts_id x = ts_id s) (completed_stage e out)) d1)" for j
    unfolding assms(3) remaining_stages_def by (simp add: affected_update_same)
  have only: "ts_id x = ts_id s \<longleftrightarrow> x = s" if "x \<in> set (task_stages d)" for x
    using key_unique [OF _ that assms(2), of ts_id] assms(1) by (auto simp: stages_keyed_def)
  show ?thesis unfolding done_same unfolding remaining_stages_def affected_zero
    using assms(2,4) only by (auto simp: set_update_where stage_done_def)
qed

text \<open>C28: Completing a stage moves the task on: when every other stage is done the task succeeds, otherwise it
  stays running and the next stage, if it is waiting, receives the artifact as its input.\<close>

theorem CompleteStage_advances:
  assumes "CompleteStage e i tok a out d = (Inr (), d')" and "distinct (map ts_id (task_stages d))"
  shows "\<exists>s \<in> set (task_stages d). ts_id s = i \<and> ts_lease_token s = Some tok
    \<and> (\<forall>t \<in> set (video_tasks d). vt_task_id t = ts_task_id s \<and> vt_deleted_at t = None \<longrightarrow>
         (\<exists>t' \<in> set (video_tasks d'). vt_task_id t' = vt_task_id t \<and> vt_status t' =
            (if \<forall>x \<in> set (task_stages d). ts_task_id x = ts_task_id s \<and> x \<noteq> s \<longrightarrow> stage_done (ts_status x)
             then StatusSucceeded else StatusRunning)))
    \<and> (\<forall>x \<in> set (task_stages d'). ts_id x = i \<longrightarrow> ts_status x = StageSucceeded \<and> ts_lease_token x = None)
    \<and> (\<forall>x \<in> set (task_stages d'). out \<noteq> [] \<and> ts_task_id x = ts_task_id s \<and> ts_status x = StagePending
          \<and> next_order (ts_task_id s) (ts_stage_order s) d = Some (ts_stage_order x) \<longrightarrow> ts_input_artifact_id x = Some out)"
proof -
  have keyed: "stages_keyed d" using assms(2) by (simp add: stages_keyed_def)
  from assms(1) keyed obtain s g q d2 st where s: "s \<in> set (task_stages d)" "ts_id s = i" "ts_lease_token s = Some tok"
    and q: "\<And>x. q x \<longleftrightarrow> out \<noteq> [] \<and> ts_task_id x = ts_task_id s \<and> ts_status x = StagePending
        \<and> next_order (ts_task_id s) (ts_stage_order s) d = Some (ts_stage_order x)"
    and d2: "d2 = task_stages_update (update_where q (\<lambda>x. x\<lparr>ts_input_artifact_id := Some out\<rparr>))
       (task_stages_update (update_where (\<lambda>x. ts_id x = i) (completed_stage e out)) (stage_attempts_update g d))"
    and cb: "createCallbackDeliveryWithConn e (ts_task_id s) st (nowMillis e)
       (snd (finish_stage_task e (ts_task_id s) out (remaining_stages (ts_task_id s) d2 = 0) d2)) = (Inr (), d')"
    by (rule CompleteStage_success) blast
  let ?all = "\<forall>x \<in> set (task_stages d). ts_task_id x = ts_task_id s \<and> x \<noteq> s \<longrightarrow> stage_done (ts_status x)"
  have fin: "(remaining_stages (ts_task_id s) d2 = 0) = ?all"
    by (rule remaining_completed [OF keyed s(1), where ?d1.0 = "stage_attempts_update g d"]) (simp_all add: d2 s(2))
  from callback_frame [OF cb] obtain h where
    "d' = callback_deliveries_update h (snd (finish_stage_task e (ts_task_id s) out (remaining_stages (ts_task_id s) d2 = 0) d2))" by blast
  then have rows: "video_tasks d' = update_where (\<lambda>t. vt_task_id t = ts_task_id s \<and> vt_deleted_at t = None)
        (finished_row e out ?all) (video_tasks d)" "task_stages d' = task_stages d2"
    by (simp_all add: finish_stage_task_def fin) (simp_all add: d2)
  have handed: "\<exists>y z. x = (if q y then y\<lparr>ts_input_artifact_id := Some out\<rparr> else y)
      \<and> y = (if ts_id z = i then completed_stage e out z else z)" if "x \<in> set (task_stages d')" for x
  proof -
    have "x \<in> set (update_where q (\<lambda>x. x\<lparr>ts_input_artifact_id := Some out\<rparr>)
        (update_where (\<lambda>x. ts_id x = i) (completed_stage e out) (task_stages d)))"
      using that by (simp add: rows(2) d2)
    then obtain y where y: "y \<in> set (update_where (\<lambda>x. ts_id x = i) (completed_stage e out) (task_stages d))"
        "x = (if q y then y\<lparr>ts_input_artifact_id := Some out\<rparr> else y)" unfolding in_update_where [of x] by blast
    from y(1) obtain z where "y = (if ts_id z = i then completed_stage e out z else z)" unfolding in_update_where by blast
    with y(2) show ?thesis by blast
  qed
  show ?thesis
  proof (intro bexI [OF _ s(1)] conjI ballI impI)
    fix t assume "t \<in> set (video_tasks d)" "vt_task_id t = ts_task_id s \<and> vt_deleted_at t = None"
    then show "\<exists>t' \<in> set (video_tasks d'). vt_task_id t' = vt_task_id t \<and> vt_status t' = (if ?all then StatusSucceeded else StatusRunning)"
      by (intro bexI [of _ "finished_row e out ?all t"]) (auto simp: rows(1) set_update_where)
  next
    fix x assume x: "x \<in> set (task_stages d')" "ts_id x = i"
    from handed [OF x(1)] obtain y z where "x = (if q y then y\<lparr>ts_input_artifact_id := Some out\<rparr> else y)"
      "y = (if ts_id z = i then completed_stage e out z else z)" by blast
    then show "ts_status x = StageSucceeded" "ts_lease_token x = None" using x(2) by (simp_all split: if_splits)
  next
    fix x assume x: "x \<in> set (task_stages d')" "out \<noteq> [] \<and> ts_task_id x = ts_task_id s \<and> ts_status x = StagePending
        \<and> next_order (ts_task_id s) (ts_stage_order s) d = Some (ts_stage_order x)"
    from handed [OF x(1)] obtain y where "x = (if q y then y\<lparr>ts_input_artifact_id := Some out\<rparr> else y)" by blast
    then show "ts_input_artifact_id x = Some out" using x(2) q [of y] by (auto split: if_splits)
  qed (use s in simp_all)
qed

text \<open>A node with an unconfirmed cancellation gets no work: from the moment the barrier of a cancelled task is
  created until it is resolved, whatever is recorded on it meanwhile, every claim for the node fails.\<close>

theorem barrier_blocks_claims:
  assumes "createNodeDispatchBarrierForTask i now d = (Inr True, d1)"
  shows "\<exists>n. (\<exists>b \<in> set (node_dispatch_barriers d1). nb_node_id b = n \<and> nb_task_id b = i)
    \<and> (\<forall>d2::db. affected (\<lambda>b. nb_node_id b = n) (node_dispatch_barriers d2) = affected (\<lambda>b. nb_node_id b = n) (node_dispatch_barriers d1) \<longrightarrow>
         ClaimStage e n tok ms d2 = (Inl ErrNoClaimableStage, d2)
         \<and> affected (\<lambda>b. nb_node_id b = n) (node_dispatch_barriers (snd (BindBarrierExecution e n v x d2))) =
             affected (\<lambda>b. nb_node_id b = n) (node_dispatch_barriers d2)
         \<and> affected (\<lambda>b. nb_node_id b = n) (node_dispatch_barriers (snd (DeferNodeDispatchBarrier e n v code at d2))) =
             affected (\<lambda>b. nb_node_id b = n) (node_dispatch_barriers d2))"
proof -
  from assms obtain s a where la: "latest_attempt i d = Some (s, a)"
    and d1: "d1 = node_dispatch_barriers_update (\<lambda>rows. rows @ [new_barrier s a now]) d"
    unfolding createNodeDispatchBarrierForTask_def by (auto simp: tx_success split: option.splits)
  have "(s, a) \<in> set (open_attempts i d)"
    using la last_in_set [of "sort_key (\<lambda>(s, a). ts_stage_order s) (sort_key (\<lambda>(s, a). sa_attempt_no a) (open_attempts i d))"]
    by (auto simp: latest_attempt_def Let_def split: if_splits)
  then have task: "ts_task_id s = i" by (auto simp: open_attempts_def)
  let ?n = "sa_node_id a"
  have blocked: "affected (\<lambda>b. nb_node_id b = ?n) (node_dispatch_barriers d1) \<noteq> 0"
    by (simp add: d1 new_barrier_def)
  show ?thesis
  proof (intro exI [of _ ?n] conjI allI impI)
    show "\<exists>b \<in> set (node_dispatch_barriers d1). nb_node_id b = ?n \<and> nb_task_id b = i"
      by (simp add: d1 new_barrier_def task)
    fix d2 :: db assume "affected (\<lambda>b. nb_node_id b = ?n) (node_dispatch_barriers d2) = affected (\<lambda>b. nb_node_id b = ?n) (node_dispatch_barriers d1)"
    with blocked have "affected (\<lambda>b. nb_node_id b = ?n) (node_dispatch_barriers d2) \<noteq> 0" by simp
    then show "ClaimStage e ?n tok ms d2 = (Inl ErrNoClaimableStage, d2)"
      unfolding ClaimStage_def Let_def by (intro atomically_apply) (simp add: and_then_ensuring)
  qed (simp_all add: BindBarrierExecution_def DeferNodeDispatchBarrier_def exec_one_apply affected_update_same)
qed

section \<open>Concrete runs\<close>

definition sample_stage :: "string \<Rightarrow> int \<Rightarrow> task_stage" where
  "sample_stage i order = new_stage_row i ''a'' order ''generation'' 2 None None ''cfg'' 0"

definition sample_attempt :: stage_attempt where
  "sample_attempt =
     \<lparr>sa_id = ''a1'', sa_stage_id = ''s1'', sa_attempt_no = 1, sa_operation_id = ''op'', sa_node_id = ''n1'',
      sa_execution_id = None, sa_status = AttemptRunning, sa_input_artifact_id = None, sa_output_artifact_id = None,
      sa_media_before_json = None, sa_media_after_json = None, sa_request_snapshot_json = None, sa_error_code = None,
      sa_error_message = None, sa_started_at = 0, sa_heartbeat_at = None, sa_finished_at = None\<rparr>"

text \<open>A task with two stages; the first runs on a node whose lease has expired.\<close>

definition sample_stage_db :: db where
  "sample_stage_db =
     empty_db\<lparr>model_service_nodes := [sample_node\<lparr>mn_protocol_version := ProtocolH3\<rparr>],
       video_tasks := [(sample_task ''a'' 1)\<lparr>vt_status := StatusRunning, vt_protocol_version := Some ProtocolH3\<rparr>],
       task_stages := [(sample_stage ''s1'' 0)\<lparr>ts_status := StageRunning, ts_attempt_count := 1, ts_current_node_id := Some ''n1'',
                          ts_lease_token := Some ''old'', ts_lease_expires_at := Some 500\<rparr>,
                       sample_stage ''s2'' 1],
       stage_attempts := [sample_attempt]\<rparr>"

lemmas sample_stage_defs = sample_stage_def sample_attempt_def sample_stage_db_def new_stage_row_def sample_queue_defs

lemmas stage_eval = stage_done_def stage_dispatched_def content_url_def mm_file_input_def lease_free_def claim_candidate_def
  stage_cursor_def task_stage_rows_def claim_rows_def consider_stage_def attempt_active_def stage_open_def turn_def
  stages_keyed_def

lemma sample_next_stage:
  "nextEligibleStage ''n1'' 1000000 sample_stage_db = Inr ((sample_stage ''s1'' 0)\<lparr>ts_status := StageRunning,
     ts_attempt_count := 1, ts_current_node_id := Some ''n1'', ts_lease_token := Some ''old'', ts_lease_expires_at := Some 500\<rparr>)"
proof -
  have rows: "claim_rows sample_stage_db ''n1'' 1000000 = [(hd (video_tasks sample_stage_db), hd (task_stages sample_stage_db))]"
    by (simp add: stage_eval sample_stage_defs protocol_defs)
  show ?thesis unfolding nextEligibleStage_def rows
    by (subst paged_scan_eq) (simp_all add: stage_eval sample_stage_defs)
qed

lemma sample_claim_stage:
  "\<exists>s d'. ClaimStage sample_env ''n1'' ''new'' 60000 sample_stage_db = (Inr s, d') \<and> ts_id s = ''s1''"
  using sample_next_stage
  by (simp add: ClaimStage_def read_stage_def and_then_ensuring and_then_exec_one atomically_def stage_eval sample_stage_defs)

lemma sample_stage_inv: "stage_inv sample_stage_db"
  by (simp add: stage_inv_def leased_rows_ok_def stage_eval sample_stage_defs)

lemma sample_stages_distinct: "distinct (map ts_id (task_stages sample_stage_db))"
  by (simp add: sample_stage_defs)

theorem ClaimStage_sound_witness:
  "\<exists>s d'. ClaimStage sample_env ''n1'' ''new'' 60000 sample_stage_db = (Inr s, d')
     \<and> (\<exists>s0 \<in> set (task_stages sample_stage_db). s = leased_stage sample_env ''n1'' ''new'' 60000 s0)"
proof -
  from sample_claim_stage obtain s d' where run: "ClaimStage sample_env ''n1'' ''new'' 60000 sample_stage_db = (Inr s, d')" by blast
  from ClaimStage_sound [OF run sample_stages_distinct] run show ?thesis by blast
qed

theorem ClaimStage_fences_old_lease_witness:
  "\<exists>d'. \<exists>er. FailStage sample_env ''s1'' ''old'' ''a1'' ''code'' ''msg'' 0 True d' = (Inl er, d')"
proof -
  from sample_claim_stage obtain s d' where run: "ClaimStage sample_env ''n1'' ''new'' 60000 sample_stage_db = (Inr s, d')"
    and id: "ts_id s = ''s1''" by blast
  have "''old'' \<noteq> ''new''" by simp
  from ClaimStage_fences_old_lease [OF run sample_stages_distinct this] id show ?thesis by metis
qed

theorem BindStageExecution_stale_leaks_witness:
  "\<exists>d'. BindStageExecution sample_env ''s1'' ''stale'' ''a1'' ''x'' sample_stage_db = (Inl ErrStateConflict, d')
     \<and> (\<exists>a \<in> set (stage_attempts d'). sa_execution_id a = Some ''x'')"
proof -
  have h: "stage_holder ''s1'' sample_stage_db \<noteq> Some ''stale''" "sample_attempt \<in> set (stage_attempts sample_stage_db)"
    "distinct (map sa_id (stage_attempts sample_stage_db))" "bindable ''s1'' (sa_id sample_attempt) ''x'' sample_attempt"
    "execution_unique ''s1'' (sa_id sample_attempt) ''x'' sample_stage_db"
    by (simp_all add: stage_holder_def bindable_def execution_unique_def attempt_active_def sample_stage_defs)
  have "sa_id sample_attempt = ''a1''" by (simp add: sample_attempt_def)
  with BindStageExecution_stale_leaks [OF sample_stages_distinct h, of sample_env] obtain d' where
    "BindStageExecution sample_env ''s1'' ''stale'' ''a1'' ''x'' sample_stage_db = (Inl ErrStateConflict, d')"
    and row: "sample_attempt\<lparr>sa_execution_id := Some ''x'', sa_status := AttemptRunning,
        sa_heartbeat_at := Some (nowMillis sample_env)\<rparr> \<in> set (stage_attempts d')" by auto
  moreover from row have "\<exists>a \<in> set (stage_attempts d'). sa_execution_id a = Some ''x''" by (rule bexI [rotated]) simp
  ultimately show ?thesis by blast
qed

theorem stage_machine_safe_witness:
  "\<exists>d'. stage_step\<^sup>*\<^sup>* sample_stage_db d' \<and> stage_inv d' \<and> d' \<noteq> sample_stage_db"
proof -
  from sample_claim_stage obtain s d' where run: "ClaimStage sample_env ''n1'' ''new'' 60000 sample_stage_db = (Inr s, d')"
    and id: "ts_id s = ''s1''" by blast
  have steps: "stage_step\<^sup>*\<^sup>* sample_stage_db d'" by (rule r_into_rtranclp) (rule stage_step.claim [OF run])
  have "stages_keyed sample_stage_db" using sample_stages_distinct by (simp add: stages_keyed_def)
  then have "stage_holder ''s1'' d' = Some ''new''" using claimed_holder(2) [OF run] id by simp
  moreover have "stage_holder ''s1'' sample_stage_db = Some ''old''" by (simp add: stage_holder_def sample_stage_defs)
  ultimately have "d' \<noteq> sample_stage_db" by auto
  with steps stage_machine_safe [OF steps sample_stage_inv] show ?thesis by blast
qed

theorem stage_attempts_bounded_witness:
  "\<exists>d'. stage_step\<^sup>*\<^sup>* sample_stage_db d' \<and> (\<forall>s \<in> set (task_stages d'). int (attempts_of d' (ts_id s)) \<le> ts_max_attempts s)"
proof -
  from sample_claim_stage obtain s d' where run: "ClaimStage sample_env ''n1'' ''new'' 60000 sample_stage_db = (Inr s, d')" by blast
  have steps: "stage_step\<^sup>*\<^sup>* sample_stage_db d'" by (rule r_into_rtranclp) (rule stage_step.claim [OF run])
  have "attempts_ok sample_stage_db" by (simp add: attempts_ok_def attempts_of_def stages_keyed_def sample_stage_defs)
  from steps stage_attempts_bounded [OF steps this] show ?thesis by force
qed

theorem CompleteStage_advances_witness:
  "\<exists>d'. CompleteStage sample_env ''s1'' ''old'' ''a1'' [] sample_stage_db = (Inr (), d')
     \<and> (\<exists>t \<in> set (video_tasks d'). vt_status t = StatusRunning)"
proof -
  have "\<exists>d'. CompleteStage sample_env ''s1'' ''old'' ''a1'' [] sample_stage_db = (Inr (), d')"
    by (simp add: CompleteStage_def completeStageWithConn_def read_stage_def finish_stage_task_def createCallbackDeliveryWithConn_def
        artifact_known_def remaining_stages_def completed_stage_def finished_row_def touched_def next_order_def
        exec_one_apply atomically_def and_then_def Let_def stage_eval sample_stage_defs)
  then obtain d' where run: "CompleteStage sample_env ''s1'' ''old'' ''a1'' [] sample_stage_db = (Inr (), d')" by blast
  let ?t = "(sample_task ''a'' 1)\<lparr>vt_status := StatusRunning, vt_protocol_version := Some ProtocolH3\<rparr>"
  from CompleteStage_advances [OF run sample_stages_distinct] obtain s where s: "s \<in> set (task_stages sample_stage_db)" "ts_id s = ''s1''"
    and t: "\<forall>t \<in> set (video_tasks sample_stage_db). vt_task_id t = ts_task_id s \<and> vt_deleted_at t = None \<longrightarrow>
         (\<exists>t' \<in> set (video_tasks d'). vt_task_id t' = vt_task_id t \<and> vt_status t' =
            (if \<forall>x \<in> set (task_stages sample_stage_db). ts_task_id x = ts_task_id s \<and> x \<noteq> s \<longrightarrow> stage_done (ts_status x)
             then StatusSucceeded else StatusRunning))" by blast
  have rows: "video_tasks sample_stage_db = [?t]" "vt_task_id ?t = ''a''" "vt_deleted_at ?t = None" "ts_task_id s = ''a''"
    using s(1) by (auto simp: sample_stage_defs)
  have x: "sample_stage ''s2'' 1 \<in> set (task_stages sample_stage_db)" "sample_stage ''s2'' 1 \<noteq> s"
      "ts_task_id (sample_stage ''s2'' 1) = ''a''" "\<not> stage_done (ts_status (sample_stage ''s2'' 1))"
    using s(2) by (auto simp: sample_stage_db_def sample_stage_def new_stage_row_def stage_done_def)
  have open_left: "\<not> (\<forall>x \<in> set (task_stages sample_stage_db). ts_task_id x = ts_task_id s \<and> x \<noteq> s \<longrightarrow> stage_done (ts_status x))"
    using rows(4) by (intro notI) (drule bspec [OF _ x(1)], simp add: x(2-4))
  have "?t \<in> set (video_tasks sample_stage_db)" unfolding rows(1) by simp
  moreover have "vt_task_id ?t = ts_task_id s \<and> vt_deleted_at ?t = None" unfolding rows(2-4) by simp
  ultimately have "\<exists>t' \<in> set (video_tasks d'). vt_status t' = StatusRunning"
    using t [unfolded if_not_P [OF open_left]] by blast
  with run show ?thesis by blast
qed

theorem barrier_blocks_claims_witness:
  "\<exists>d1. createNodeDispatchBarrierForTask ''a'' 0 sample_stage_db = (Inr True, d1)
     \<and> (\<exists>n. ClaimStage sample_env n ''new'' 60000 d1 = (Inl ErrNoClaimableStage, d1))"
proof -
  have "\<exists>d1. createNodeDispatchBarrierForTask ''a'' 0 sample_stage_db = (Inr True, d1)"
    by (simp add: createNodeDispatchBarrierForTask_def latest_attempt_def open_attempts_def attempt_active_def
        and_then_ensuring Let_def sample_stage_defs)
  then obtain d1 where run: "createNodeDispatchBarrierForTask ''a'' 0 sample_stage_db = (Inr True, d1)" by blast
  with barrier_blocks_claims [OF run, of sample_env "''new''" 60000] show ?thesis by blast
qed

end
