(* ===== verification/GoJSON.thy ===== *)
theory GoJSON
  imports GoText
begin

text \<open>
  \<open>json.Valid\<close> of \<^verbatim>\<open>encoding/json\<close>: the grammar its scanner accepts, as a recognizer that returns the
  input left after one value. Every recursive call consumes a byte of the input, so the length of
  the text is enough fuel. The scanner's nesting limit of 10000 is the second argument.
\<close>

definition is_json_space :: "char \<Rightarrow> bool" where
  "is_json_space c \<longleftrightarrow> byte c = 32 \<or> byte c = 9 \<or> byte c = 10 \<or> byte c = 13"

definition json_skip :: "string \<Rightarrow> string" where
  "json_skip s = dropWhile is_json_space s"

definition is_json_digit :: "char \<Rightarrow> bool" where
  "is_json_digit c \<longleftrightarrow> 48 \<le> byte c \<and> byte c \<le> 57"

definition is_json_hex :: "char \<Rightarrow> bool" where
  "is_json_hex c \<longleftrightarrow> is_json_digit c \<or> (65 \<le> byte c \<and> byte c \<le> 70) \<or> (97 \<le> byte c \<and> byte c \<le> 102)"

text \<open>The rest of a string after its opening quote: up to the closing quote.\<close>

fun json_string_tail :: "string \<Rightarrow> string option" where
  "json_string_tail [] = None"
| "json_string_tail (c # s) =
     (if c = CHR 0x22 then Some s
      else if byte c < 32 then None
      else if c = CHR 0x5C then
        (case s of
           [] \<Rightarrow> None
         | k # s' \<Rightarrow>
             if k \<in> set [CHR 0x22, CHR 0x5C, CHR 0x2F, CHR ''b'', CHR ''f'', CHR ''n'', CHR ''r'', CHR ''t'']
             then json_string_tail s'
             else if k = CHR ''u'' then
               (if length s' \<ge> 4 \<and> list_all is_json_hex (take 4 s') then json_string_tail (drop 4 s') else None)
             else None)
      else json_string_tail s)"

definition json_digits :: "string \<Rightarrow> string option" where
  "json_digits s = (if s \<noteq> [] \<and> is_json_digit (hd s) then Some (dropWhile is_json_digit s) else None)"

definition json_fraction :: "string \<Rightarrow> string option" where
  "json_fraction s = (if s \<noteq> [] \<and> hd s = CHR 0x2E then json_digits (tl s) else Some s)"

definition json_exponent :: "string \<Rightarrow> string option" where
  "json_exponent s =
     (if s \<noteq> [] \<and> (hd s = CHR ''e'' \<or> hd s = CHR ''E'') then
        (let r = tl s in
         json_digits (if r \<noteq> [] \<and> (hd r = CHR 0x2B \<or> hd r = CHR 0x2D) then tl r else r))
      else Some s)"

definition json_number :: "string \<Rightarrow> string option" where
  "json_number s =
     (let u = (if s \<noteq> [] \<and> hd s = CHR 0x2D then tl s else s) in
      Option.bind (if u \<noteq> [] \<and> hd u = CHR 0x30 then Some (tl u) else json_digits u) (\<lambda>r.
      Option.bind (json_fraction r) json_exponent))"

datatype json_mode = JValue | JElements | JMembers

text \<open>
  \<open>JValue\<close> recognizes a value, \<open>JElements\<close> what follows the first position inside an array,
  \<open>JMembers\<close> what follows the first position inside an object.
\<close>

fun json_scan :: "nat \<Rightarrow> nat \<Rightarrow> json_mode \<Rightarrow> string \<Rightarrow> string option" where
  "json_scan 0 depth m s = None"
| "json_scan (Suc n) depth JValue s =
     (case json_skip s of
        [] \<Rightarrow> None
      | c # r \<Rightarrow>
          if c = CHR 0x7B then
            (if depth = 0 then None
             else (case json_skip r of
                     [] \<Rightarrow> None
                   | k # r' \<Rightarrow> if k = CHR 0x7D then Some r' else json_scan n (depth - 1) JMembers r))
          else if c = CHR 0x5B then
            (if depth = 0 then None
             else (case json_skip r of
                     [] \<Rightarrow> None
                   | k # r' \<Rightarrow> if k = CHR 0x5D then Some r' else json_scan n (depth - 1) JElements r))
          else if c = CHR 0x22 then json_string_tail r
          else if has_prefix (c # r) ''true'' then Some (drop 4 (c # r))
          else if has_prefix (c # r) ''false'' then Some (drop 5 (c # r))
          else if has_prefix (c # r) ''null'' then Some (drop 4 (c # r))
          else json_number (c # r))"
| "json_scan (Suc n) depth JElements s =
     Option.bind (json_scan n depth JValue s) (\<lambda>r.
       case json_skip r of
         [] \<Rightarrow> None
       | c # r' \<Rightarrow>
           if c = CHR 0x5D then Some r'
           else if c = CHR 0x2C then json_scan n depth JElements r'
           else None)"
| "json_scan (Suc n) depth JMembers s =
     (case json_skip s of
        [] \<Rightarrow> None
      | q # s' \<Rightarrow>
          if q \<noteq> CHR 0x22 then None
          else Option.bind (json_string_tail s') (\<lambda>k.
            case json_skip k of
              [] \<Rightarrow> None
            | c # v \<Rightarrow>
                if c \<noteq> CHR 0x3A then None
                else Option.bind (json_scan n depth JValue v) (\<lambda>r.
                  case json_skip r of
                    [] \<Rightarrow> None
                  | c # r' \<Rightarrow>
                      if c = CHR 0x7D then Some r'
                      else if c = CHR 0x2C then json_scan n depth JMembers r'
                      else None)))"

definition json_valid :: "string \<Rightarrow> bool" where
  "json_valid s = (case json_scan (2 * length s + 2) 10000 JValue s of None \<Rightarrow> False | Some r \<Rightarrow> json_skip r = [])"

section \<open>Encoded strings are read back whole\<close>

definition plain_char :: "char \<Rightarrow> bool" where
  "plain_char c \<longleftrightarrow> c \<noteq> CHR 0x22 \<and> c \<noteq> CHR 0x5C \<and> 32 \<le> byte c"

lemma json_string_tail_plain: "list_all plain_char bs \<Longrightarrow> json_string_tail (bs @ t) = json_string_tail t"
  by (induction bs) (simp_all add: plain_char_def)

lemma high_plain: "128 \<le> byte c \<Longrightarrow> plain_char c"
  by (auto simp: plain_char_def byte_def)

lemma low_plain: "byte c \<noteq> 34 \<Longrightarrow> byte c \<noteq> 92 \<Longrightarrow> 32 \<le> byte c \<Longrightarrow> plain_char c"
  by (auto simp: plain_char_def byte_def)

text \<open>A valid rune is a single ASCII byte or a sequence of bytes above 127.\<close>

lemma first_rune_valid:
  assumes "first_rune (byte c) (map byte (take 3 cs)) = (r, True, n)"
  shows "(byte c < 128 \<and> r = byte c \<and> n = 0) \<or> (list_all (\<lambda>c. 128 \<le> byte c) (c # take n cs) \<and> 128 \<le> r)"
proof (cases "byte c < 128")
  case True
  with assms show ?thesis by (simp add: first_rune_def)
next
  case False
  note high = this
  show ?thesis
  proof (cases cs)
    case Nil
    with assms high show ?thesis by (simp add: first_rune_def split: if_splits)
  next
    case (Cons c1 cs1)
    note cs = this
    show ?thesis
    proof (cases cs1)
      case Nil
      with cs assms high show ?thesis by (auto simp: first_rune_def cont_byte_def split: if_splits)
    next
      case (Cons c2 cs2)
      with cs assms high show ?thesis
        by (cases cs2) (auto simp: first_rune_def cont_byte_def numeral_2_eq_2 numeral_3_eq_3 split: if_splits)
    qed
  qed
qed

lemma segs_ok:
  "(r, True, bs) \<in> set (segs s) \<Longrightarrow> (r < 128 \<and> bs = [char_of r]) \<or> (list_all (\<lambda>c. 128 \<le> byte c) bs \<and> 128 \<le> r)"
proof (induction s rule: segs.induct)
  case (2 c cs)
  obtain r' ok' n where f: "first_rune (byte c) (map byte (take 3 cs)) = (r', ok', n)" by (metis prod_cases3)
  from "2.prems" consider "r = r'" "ok'" "bs = c # take n cs" | "(r, True, bs) \<in> set (segs (drop n cs))"
    by (auto simp: f)
  then show ?case
  proof cases
    case 1
    with first_rune_valid [of c cs r n] f show ?thesis by (auto simp: byte_def)
  next
    case 2
    from "2.IH" [OF f [symmetric] refl refl this] show ?thesis .
  qed
qed simp

lemma hex_digit_hex: "n < 16 \<Longrightarrow> is_json_hex (hex_digit n)"
  by (auto simp: hex_digit_def is_json_hex_def is_json_digit_def byte_def)

lemma json_string_tail_segment:
  assumes "(r, ok, bs) \<in> set (segs s)"
  shows "json_string_tail (json_segment (r, ok, bs) @ t) = json_string_tail t"
proof (cases ok)
  case False
  then show ?thesis by (simp add: is_json_hex_def is_json_digit_def byte_def)
next
  case True
  with assms have ok: "(r, True, bs) \<in> set (segs s)" by simp
  show ?thesis
  proof (cases "128 \<le> r")
    case True
    with segs_ok [OF ok] have bs: "list_all plain_char bs"
      by (auto simp: list_all_iff intro: high_plain)
    show ?thesis
    proof (cases "r = 8232 \<or> r = 8233")
      case True
      then have seg: "json_segment (r, ok, bs) = [CHR 0x5C, CHR ''u'', CHR ''2'', CHR ''0'', CHR ''2'', hex_digit (r - 8224)]"
        using \<open>ok\<close> by (elim disjE) simp_all
      have "is_json_hex (hex_digit (r - 8224))" using True by (intro hex_digit_hex) auto
      moreover have "is_json_hex (CHR ''2'')" "is_json_hex (CHR ''0'')"
        by (simp_all add: is_json_hex_def is_json_digit_def byte_def)
      ultimately show ?thesis unfolding seg by (simp add: byte_def)
    next
      case False
      with \<open>ok\<close> True have "json_segment (r, ok, bs) = bs" by simp
      with bs show ?thesis by (simp add: json_string_tail_plain)
    qed
  next
    case False
    with segs_ok [OF ok] have bs: "bs = [char_of r]" "r < 128" by auto
    then have b: "byte (char_of r) = r" by (simp add: byte_def)
    show ?thesis
    proof (cases "r < 32 \<or> r = 60 \<or> r = 62 \<or> r = 38 \<or> r = 34 \<or> r = 92")
      case True
      have "r div 16 < 16" "r mod 16 < 16" using bs(2) by auto
      note hex = hex_digit_hex [OF this(1)] hex_digit_hex [OF this(2)]
      have z: "is_json_hex (CHR ''0'')" by (simp add: is_json_hex_def is_json_digit_def byte_def)
      show ?thesis
      proof (cases "r = 34 \<or> r = 92 \<or> r = 8 \<or> r = 12 \<or> r = 10 \<or> r = 13 \<or> r = 9")
        case True
        have "char_of (34::nat) = CHR 0x22" "char_of (92::nat) = CHR 0x5C"
          using char_of_char [of "CHR 0x22", where 'a = nat] char_of_char [of "CHR 0x5C", where 'a = nat] by simp_all
        with True \<open>ok\<close> show ?thesis by (elim disjE) (simp_all add: byte_def)
      next
        case False
        with \<open>ok\<close> \<open>r < 32 \<or> r = 60 \<or> r = 62 \<or> r = 38 \<or> r = 34 \<or> r = 92\<close>
        have "json_segment (r, ok, bs) = [CHR 0x5C, CHR ''u'', CHR ''0'', CHR ''0'', hex_digit (r div 16), hex_digit (r mod 16)]"
          by simp
        then show ?thesis using hex z by (simp add: byte_def)
      qed
    next
      case False
      with \<open>ok\<close> bs have "json_segment (r, ok, bs) = [char_of r]" by auto
      moreover have "plain_char (char_of r)" using False b by (intro low_plain) auto
      ultimately show ?thesis using json_string_tail_plain [of "[char_of r]" t] by simp
    qed
  qed
qed

lemma json_string_tail_json_string:
  "json_string_tail (tl (json_string s) @ t) = Some t"
proof -
  have "set xs \<subseteq> set (segs s) \<Longrightarrow> json_string_tail (concat (map json_segment xs) @ u) = json_string_tail u" for xs u
    by (induction xs) (auto simp del: json_segment.simps simp: json_string_tail_segment)
  from this [of "segs s" "CHR 0x22 # t"] show ?thesis by (simp add: json_string_def)
qed

section \<open>The fuel is enough\<close>

lemma length_json_skip: "length (json_skip s) \<le> length s"
  by (simp add: json_skip_def length_dropWhile_le)

lemma length_json_string_tail: "json_string_tail s = Some r \<Longrightarrow> length r < length s"
proof (induction s rule: length_induct)
  case (1 s)
  then obtain c u where s: "s = c # u" by (cases s) auto
  have IH: "length r < length v" if "json_string_tail v = Some r" "length v < length s" for v
    using "1.IH" that by blast
  from "1.prems" consider "u = r" | "json_string_tail u = Some r"
    | k v where "u = k # v" "json_string_tail v = Some r" | k v where "u = k # v" "json_string_tail (drop 4 v) = Some r"
    unfolding s json_string_tail.simps(2) by (auto simp del: json_string_tail.simps split: if_splits list.splits)
  then show ?case
  proof cases
    case 4
    have "length r < length (drop 4 v)" by (rule IH [OF 4(2)]) (simp add: s 4(1))
    then show ?thesis by (simp add: s 4(1))
  qed (use IH in \<open>force simp: s\<close>)+
qed

lemma length_json_digits: "json_digits s = Some r \<Longrightarrow> length r < length s"
  by (cases s) (auto simp: json_digits_def le_imp_less_Suc length_dropWhile_le split: if_splits)

lemma length_json_fraction: "json_fraction s = Some r \<Longrightarrow> length r \<le> length s"
  by (cases s) (auto simp: json_fraction_def dest: length_json_digits split: if_splits)

lemma length_json_exponent: "json_exponent s = Some r \<Longrightarrow> length r \<le> length s"
proof (cases s)
  case (Cons c s')
  assume "json_exponent s = Some r"
  with Cons show ?thesis
    by (cases s') (auto simp: json_exponent_def Let_def dest!: length_json_digits split: if_splits)
qed (simp add: json_exponent_def)

lemma length_json_number: "json_number s = Some r \<Longrightarrow> length r < length s"
proof -
  assume "json_number s = Some r"
  then obtain u a b where u: "u = (if s \<noteq> [] \<and> hd s = CHR 0x2D then tl s else s)"
    and a: "(if u \<noteq> [] \<and> hd u = CHR 0x30 then Some (tl u) else json_digits u) = Some a"
    and b: "json_fraction a = Some b" "json_exponent b = Some r"
    by (auto simp: json_number_def Let_def bind_eq_Some_conv)
  have "length u \<le> length s" using u by simp
  moreover have "length a < length u" using a by (cases u) (auto dest: length_json_digits split: if_splits)
  ultimately show ?thesis using length_json_fraction [OF b(1)] length_json_exponent [OF b(2)] by linarith
qed

lemma skip_less: "json_skip s = c # r \<Longrightarrow> length r < length s"
  using length_json_skip [of s] by simp

lemma json_scan_progress: "json_scan n depth m s = Some r \<Longrightarrow> length r < length s"
proof (induction n arbitrary: depth m s r)
  case (Suc n)
  note IH = Suc.IH
  show ?case
  proof (cases m)
    case JValue
    obtain c u where cu: "json_skip s = c # u" using Suc.prems JValue by (cases "json_skip s") auto
    note lt = skip_less [OF cu] length_json_skip [of s]
    from Suc.prems JValue cu consider k where "json_skip u = k # r" | m where "json_scan n (depth - 1) m u = Some r"
      | "json_string_tail u = Some r" | "r = drop 4 (c # u)" | "r = drop 5 (c # u)" | "json_number (c # u) = Some r"
      by (auto split: if_splits list.splits)
    then show ?thesis
    proof cases
      case 1 with lt skip_less [OF 1] show ?thesis by simp
    next
      case 2 with lt IH [OF 2] show ?thesis by simp
    next
      case 3 with lt length_json_string_tail [OF 3] show ?thesis by simp
    next
      case 6 with lt length_json_number [OF 6] cu show ?thesis by simp
    qed (use lt cu in auto)
  next
    case JElements
    note run = Suc.prems [unfolded JElements json_scan.simps(3)]
    from run obtain q where q: "json_scan n depth JValue s = Some q" by (cases "json_scan n depth JValue s") auto
    from run have
      r: "json_skip q = CHR 0x5D # r \<or> (\<exists>v. json_skip q = CHR 0x2C # v \<and> json_scan n depth JElements v = Some r)"
      by (cases "json_skip q") (simp_all add: q split: if_splits)
    from r show ?thesis
    proof (elim disjE exE conjE)
      assume "json_skip q = CHR 0x5D # r"
      from skip_less [OF this] IH [OF q] show ?thesis by linarith
    next
      fix v assume "json_skip q = CHR 0x2C # v" "json_scan n depth JElements v = Some r"
      from skip_less [OF this(1)] IH [OF this(2)] IH [OF q] show ?thesis by linarith
    qed
  next
    case JMembers
    note run = Suc.prems [unfolded JMembers json_scan.simps(4)]
    from run obtain u where u: "json_skip s = CHR 0x22 # u"
      by (cases "json_skip s") (simp_all split: if_splits)
    from run obtain k where k: "json_string_tail u = Some k"
      by (cases "json_string_tail u") (simp_all add: u)
    from run obtain v where v: "json_skip k = CHR 0x3A # v"
      by (cases "json_skip k") (simp_all add: u k split: if_splits)
    from run obtain q where q: "json_scan n depth JValue v = Some q"
      by (cases "json_scan n depth JValue v") (simp_all add: u k v)
    from run have r: "json_skip q = CHR 0x7D # r \<or> (\<exists>w. json_skip q = CHR 0x2C # w \<and> json_scan n depth JMembers w = Some r)"
      by (cases "json_skip q") (simp_all add: u k v q split: if_splits)
    have "length q < length s"
      using skip_less [OF u] length_json_string_tail [OF k] skip_less [OF v] IH [OF q] by linarith
    from r show ?thesis
    proof (elim disjE exE conjE)
      assume "json_skip q = CHR 0x7D # r"
      from skip_less [OF this] \<open>length q < length s\<close> show ?thesis by linarith
    next
      fix w assume "json_skip q = CHR 0x2C # w" "json_scan n depth JMembers w = Some r"
      from skip_less [OF this(1)] IH [OF this(2)] \<open>length q < length s\<close> show ?thesis by linarith
    qed
  qed
qed simp

text \<open>What one value, or what the rest of a container, may need.\<close>

definition json_need :: "json_mode \<Rightarrow> string \<Rightarrow> nat" where
  "json_need m s = 2 * length s + (if m = JValue then 1 else 2)"

lemma json_scan_fuel: "json_need m s \<le> n \<Longrightarrow> json_need m s \<le> n' \<Longrightarrow> json_scan n depth m s = json_scan n' depth m s"
proof (induction n arbitrary: n' depth m s)
  case (Suc n)
  then obtain k where n': "n' = Suc k" by (cases n') (auto simp: json_need_def split: if_splits)
  note IH = Suc.IH
  have room: "2 * length s + (if m = JValue then 1 else 2) \<le> Suc n" "2 * length s + (if m = JValue then 1 else 2) \<le> Suc k"
    using Suc.prems by (simp_all add: json_need_def n')
  show ?case
  proof (cases m)
    case JValue
    have "json_scan n (depth - 1) m' u = json_scan k (depth - 1) m' u" if "json_skip s = c # u" for c u m'
      by (rule IH) (use skip_less [OF that] room JValue in \<open>auto simp: json_need_def\<close>)
    then show ?thesis using JValue by (auto simp: n' split: list.splits)
  next
    case JElements
    have v: "json_scan n depth JValue s = json_scan k depth JValue s"
      by (rule IH) (use room JElements in \<open>auto simp: json_need_def\<close>)
    have "json_scan n depth JElements w = json_scan k depth JElements w"
      if "json_scan k depth JValue s = Some q" "json_skip q = c # w" for q c w
      by (rule IH) (use json_scan_progress [OF that(1)] skip_less [OF that(2)] room JElements in \<open>auto simp: json_need_def\<close>)
    then show ?thesis unfolding JElements n' json_scan.simps(3) v
      by (intro Option.bind_cong refl) (simp split: list.split)
  next
    case JMembers
    have step: "json_scan n depth m' w = json_scan k depth m' w" if "length w < length s" for m' w
      by (rule IH) (use that room JMembers in \<open>auto simp: json_need_def\<close>)
    have v: "json_scan n depth JValue v = json_scan k depth JValue v"
      if "json_skip s = q # u" "json_string_tail u = Some x" "json_skip x = c # v" for q u x c v
      using skip_less [OF that(1)] length_json_string_tail [OF that(2)] skip_less [OF that(3)] by (intro step) linarith
    have "json_scan n depth JMembers w = json_scan k depth JMembers w"
      if "json_skip s = q # u" "json_string_tail u = Some x" "json_skip x = c # v" "json_scan k depth JValue v = Some y"
        "json_skip y = c' # w" for q u x c v y c' w
      using skip_less [OF that(1)] length_json_string_tail [OF that(2)] skip_less [OF that(3)]
        json_scan_progress [OF that(4)] skip_less [OF that(5)] by (intro step) linarith
    with v show ?thesis unfolding JMembers n' json_scan.simps(4)
      by (auto split: list.split intro!: Option.bind_cong)
  qed
qed (simp add: json_need_def split: if_splits)

end
