(* ===== verification/RemoteStore.thy ===== *)
theory RemoteStore
  imports StageStore GoJSON
begin

text \<open>
  \<^verbatim>\<open>remote_task_store.go\<close>: tasks that run on a remote queue (protocol tk2sd-v1). Claiming a task takes a
  slot of the node and creates the run; the run is then prepared, submitted, observed and finished
  under a lease, and the task's row follows.
\<close>

section \<open>Claiming\<close>

definition GetRemoteRun :: "string \<Rightarrow> remote_run op" where
  "GetRemoteRun i = reading (\<lambda>d. case run_of d i of None \<Rightarrow> Inl ErrTaskNotFound | Some r \<Rightarrow> Inr r)"

definition slots_used :: "string \<Rightarrow> db \<Rightarrow> nat" where
  "slots_used nodeID d = affected (\<lambda>t. vt_upstream_id t = Some nodeID \<and> vt_upstream_slot_active t) (video_tasks d)"

definition claimable_node :: "string \<Rightarrow> int \<Rightarrow> string \<Rightarrow> db \<Rightarrow> model_node option" where
  "claimable_node nodeID nodeVersion protocol d =
     select_where (\<lambda>n. mn_id n = nodeID \<and> mn_version n = nodeVersion \<and> mn_enabled n \<and> mn_deleted_at n = None
       \<and> mn_protocol_version n = protocol) (model_service_nodes d)"

definition require_node :: "string \<Rightarrow> int \<Rightarrow> string \<Rightarrow> model_node op" where
  "require_node nodeID nodeVersion protocol =
     reading (\<lambda>d. case claimable_node nodeID nodeVersion protocol d of None \<Rightarrow> Inl ErrNodeConfigStale | Some n \<Rightarrow> Inr n)"

text \<open>The node's own report: the tasks it counts that this proxy also counts are not counted twice.\<close>

definition overlap :: "string \<Rightarrow> TK2SDAdmission \<Rightarrow> db \<Rightarrow> nat" where
  "overlap nodeID status d =
     affected (\<lambda>t. vt_upstream_id t = Some nodeID \<and> vt_upstream_slot_active t
       \<and> (let i = coalesce (Option.bind (run_of d (vt_task_id t)) rr_upstream_task_id) []
          in i \<noteq> [] \<and> i \<in> set (ad_leased_task_ids status))) (video_tasks d)"

definition admission_closed :: "TK2SDAdmission \<Rightarrow> bool" where
  "admission_closed s \<longleftrightarrow>
     \<not> ad_can_dispatch s \<or> ad_queued s > 0 \<or> ad_capacity s < 1 \<or> ad_occupied s < 0 \<or> ad_cooling s < 0
     \<or> ad_occupied s > ad_capacity s \<or> ad_cooling s > ad_capacity s - ad_occupied s"

fun admitted_capacity :: "string \<Rightarrow> int \<Rightarrow> TK2SDAdmission list \<Rightarrow> db \<Rightarrow> err + int" where
  "admitted_capacity nodeID capacity [] d = Inr capacity"
| "admitted_capacity nodeID capacity [s] d =
     (if admission_closed s then Inl ErrUpstreamBusy
      else if int (overlap nodeID s d) > ad_occupied s then Inl ErrUpstreamBusy
      else Inr (min capacity (ad_capacity s - ad_occupied s - ad_cooling s + int (overlap nodeID s d))))"
| "admitted_capacity nodeID capacity (_ # _ # _) d = Inl ErrStateConflict"

definition remote_fingerprint :: "StoreEnv \<Rightarrow> model_node \<Rightarrow> string" where
  "remote_fingerprint e n =
     sha256_hex e (ProtocolTK2SD @ [CHR 0x00] @ mn_service_url n @ [CHR 0x00] @ coalesce (mn_api_key_fingerprint n) [])"

text \<open>The rows of the queue query, and the check the loop makes on each.\<close>

definition served_model :: "db \<Rightarrow> string \<Rightarrow> string \<Rightarrow> node_model option" where
  "served_model d nodeID model =
     select_where (\<lambda>m. nm_node_id m = nodeID \<and> nm_model_id m = model \<and> nm_enabled m \<and> nm_present m) (node_models d)"

definition remote_waiting :: "db \<Rightarrow> string \<Rightarrow> string \<Rightarrow> int \<Rightarrow> video_task \<Rightarrow> bool" where
  "remote_waiting d nodeID fingerprint now t \<longleftrightarrow>
     vt_protocol_version t = Some ProtocolTK2SD \<and> vt_route_state t = RouteReady \<and> queued (vt_status t)
     \<and> vt_deleted_at t = None \<and> \<not> vt_upstream_slot_active t \<and> served_model d nodeID (vt_model t) \<noteq> None
     \<and> exists_where (\<lambda>c. mc_node_id c = nodeID \<and> mc_last_success_at c \<noteq> None \<and> mc_connection_fingerprint c = fingerprint
          \<and> (mc_source c \<noteq> ''discovered'' \<or> (case mc_valid_until c of None \<Rightarrow> False | Some v \<Rightarrow> v > now)))
         (node_model_catalogs d)
     \<and> vt_expires_at t > now \<and> run_of d (vt_task_id t) = None"

definition remote_accepted :: "db \<Rightarrow> string \<Rightarrow> video_task \<Rightarrow> bool" where
  "remote_accepted d nodeID t \<longleftrightarrow>
     (case (vt_routing_snapshot t, Option.bind (served_model d nodeID (vt_model t)) nm_capabilities) of
        (Some route, Some caps) \<Rightarrow>
          sn_model route = vt_model t \<and> sn_protocol_version route = ProtocolTK2SD \<and> Accepts caps (sn_requirements route)
      | _ \<Rightarrow> False)"

definition next_remote :: "StoreEnv \<Rightarrow> model_node \<Rightarrow> db \<Rightarrow> err + video_task" where
  "next_remote e n d =
     (case find (remote_accepted d (mn_id n)) (sort_key vt_queue_seq
              (filter (remote_waiting d (mn_id n) (remote_fingerprint e n) (nowUnix e)) (video_tasks d))) of
        None \<Rightarrow> Inl ErrQueueEmpty
      | Some t \<Rightarrow> if vt_task_id t = [] then Inl ErrQueueEmpty else Inr t)"

definition submission_key :: "db \<Rightarrow> string \<Rightarrow> string" where
  "submission_key d i = ''proxy:'' @ routing_instance_id d @ '':'' @ i"

definition key_ok :: "db \<Rightarrow> string \<Rightarrow> bool" where
  "key_ok d key \<longleftrightarrow> routing_instance_id d \<noteq> [] \<and> length key \<le> 200
     \<and> \<not> contains_char key (CHR 0x0D) \<and> \<not> contains_char key (CHR 0x0A)"

definition dispatch_of :: "model_node \<Rightarrow> string \<Rightarrow> string \<Rightarrow> DispatchSnapshot" where
  "dispatch_of n protocol model =
     \<lparr>ds_node_id = mn_id n, ds_node_version = mn_version n, ds_protocol_version = protocol,
      ds_service_url = mn_service_url n, ds_upstream_model = model\<rparr>"

definition slot_taken :: "int \<Rightarrow> model_node \<Rightarrow> string \<Rightarrow> string \<Rightarrow> video_task \<Rightarrow> video_task" where
  "slot_taken now n protocol model t =
     (touched now t)\<lparr>vt_status := StatusDispatching, vt_cancel_locked := True, vt_upstream_id := Some (mn_id n),
       vt_upstream_slot_active := True, vt_upstream_node_version := mn_version n,
       vt_delivery_required := mn_replace_result_url n, vt_dispatch_snapshot := Some (dispatch_of n protocol model),
       vt_started_at := keep_or (vt_started_at t) now, vt_attempt_started_at := Some now\<rparr>"

definition new_run :: "string \<Rightarrow> string \<Rightarrow> string \<Rightarrow> int \<Rightarrow> remote_run" where
  "new_run i nodeID key now =
     \<lparr>rr_task_id = i, rr_node_id = nodeID, rr_phase = RemotePreparing, rr_submission_key = key, rr_request_body = None,
      rr_request_body_hash = None, rr_upstream_task_id = None, rr_upstream_status = None, rr_cancel_state = CancelNone,
      rr_reconciliation_required = False, rr_submit_attempts = 0, rr_lease_token = None, rr_lease_expires_at = None,
      rr_next_poll_at = None, rr_last_error_code = [], rr_created_at = now, rr_updated_at = now\<rparr>"

definition insert_run :: "remote_run \<Rightarrow> unit op" where
  "insert_run r =
     and_then (ensuring (\<lambda>d. \<not> exists_where (\<lambda>x. rr_task_id x = rr_task_id r \<or> rr_submission_key x = rr_submission_key r)
                  (task_remote_runs d)) (ErrSQL ''task_remote_runs'')) (\<lambda>_.
     exec_insert task_remote_runs_update r)"

definition ClaimNextRemote :: "StoreEnv \<Rightarrow> string \<Rightarrow> int \<Rightarrow> int \<Rightarrow> TK2SDAdmission list \<Rightarrow> Task op" where
  "ClaimNextRemote e nodeID nodeVersion capacity admission = atomically
     (let now = nowUnix e in
      and_then (ensure (capacity \<ge> 1) ErrUpstreamBusy) (\<lambda>_.
      and_then (require_node nodeID nodeVersion ProtocolTK2SD) (\<lambda>n.
      and_then (reading (admitted_capacity nodeID (min capacity (mn_max_concurrency n)) admission)) (\<lambda>limit.
      and_then (ensuring (\<lambda>d. int (slots_used nodeID d) < limit) ErrUpstreamBusy) (\<lambda>_.
      and_then (reading (next_remote e n)) (\<lambda>t.
      and_then (gets (\<lambda>d. submission_key d (vt_task_id t))) (\<lambda>key.
      and_then (ensuring (\<lambda>d. key_ok d key) ErrStateConflict) (\<lambda>_.
      and_then (update_one_task (\<lambda>x. vt_task_id x = vt_task_id t \<and> queued (vt_status x))
                  (slot_taken now n ProtocolTK2SD (vt_model t))) (\<lambda>_.
      and_then (insert_run (new_run (vt_task_id t) nodeID key now)) (\<lambda>_.
      and_then (rebalance e now) (\<lambda>_.
      reading (getWith (vt_api_key_id t) (vt_task_id t) now))))))))))))"

definition QueuedRemoteCount :: "StoreEnv \<Rightarrow> nat op" where
  "QueuedRemoteCount e =
     gets (\<lambda>d. affected (\<lambda>t. vt_protocol_version t = Some ProtocolTK2SD \<and> queued (vt_status t) \<and> \<not> vt_upstream_slot_active t
        \<and> vt_deleted_at t = None \<and> vt_expires_at t > nowUnix e) (video_tasks d))"

definition ListActiveRemoteTasks :: "StoreEnv \<Rightarrow> string \<Rightarrow> Task list op" where
  "ListActiveRemoteTasks e nodeID =
     gets (\<lambda>d. map (scanTask d) (sort_key vt_queue_seq (filter (\<lambda>t. vt_upstream_id t = Some nodeID \<and> vt_upstream_slot_active t
        \<and> vt_deleted_at t = None \<and> vt_protocol_version t = Some ProtocolTK2SD
        \<and> exists_where (\<lambda>r. rr_task_id r = vt_task_id t \<and> rr_phase r \<noteq> RemoteTerminal \<and> \<not> rr_reconciliation_required r
             \<and> coalesce (rr_next_poll_at r) 0 \<le> nowUnix e \<and> coalesce (rr_lease_expires_at r) 0 \<le> nowUnix e)
            (task_remote_runs d)) (video_tasks d))))"

section \<open>Leases\<close>

text \<open>What the operations read of the \<open>RemoteRun\<close> they are given.\<close>

record RunLease =
  rl_TaskID :: string
  rl_NodeID :: string
  rl_LeaseToken :: string

definition second :: int where
  "second = 1000000000"

definition leased_by :: "StoreEnv \<Rightarrow> RunLease \<Rightarrow> remote_run \<Rightarrow> bool" where
  "leased_by e r x \<longleftrightarrow>
     rr_task_id x = rl_TaskID r \<and> rr_node_id x = rl_NodeID r \<and> rr_lease_token x = Some (rl_LeaseToken r)
     \<and> (case rr_lease_expires_at x of None \<Rightarrow> False | Some v \<Rightarrow> v > nowUnix e)"

definition AcquireRemoteLease :: "StoreEnv \<Rightarrow> string \<Rightarrow> string \<Rightarrow> string \<Rightarrow> int \<Rightarrow> remote_run op" where
  "AcquireRemoteLease e i nodeID token ttl = atomically
     (let now = nowUnix e in
      and_then (ensure (token \<noteq> [] \<and> ttl \<ge> second) ErrStateConflict) (\<lambda>_.
      and_then (gets (\<lambda>d. d)) (\<lambda>d.
      and_then (update_one_run (\<lambda>x. rr_task_id x = i \<and> rr_node_id x = nodeID \<and> rr_phase x \<noteq> RemoteTerminal
                    \<and> \<not> rr_reconciliation_required x \<and> coalesce (rr_lease_expires_at x) 0 \<le> now
                    \<and> exists_where (\<lambda>t. vt_task_id t = rr_task_id x \<and> vt_upstream_id t = Some (rr_node_id x)
                         \<and> vt_upstream_slot_active t \<and> vt_deleted_at t = None) (video_tasks d))
                  (\<lambda>x. x\<lparr>rr_lease_token := Some token, rr_lease_expires_at := Some (now + ttl div second),
                         rr_updated_at := now\<rparr>)) (\<lambda>_.
      GetRemoteRun i))))"

definition RenewRemoteLease :: "StoreEnv \<Rightarrow> RunLease \<Rightarrow> int \<Rightarrow> unit op" where
  "RenewRemoteLease e r ttl =
     and_then (ensure (ttl \<ge> second) ErrStateConflict) (\<lambda>_.
     update_one_run (\<lambda>x. leased_by e r x \<and> rr_phase x \<noteq> RemoteTerminal)
       (\<lambda>x. x\<lparr>rr_lease_expires_at := Some (nowUnix e + ttl div second), rr_updated_at := nowUnix e\<rparr>))"

definition ReleaseRemoteLease :: "StoreEnv \<Rightarrow> RunLease \<Rightarrow> int \<Rightarrow> string \<Rightarrow> bool \<Rightarrow> unit op" where
  "ReleaseRemoteLease e r next code reconcile =
     update_one_run (\<lambda>x. leased_by e r x \<and> rr_phase x \<noteq> RemoteTerminal)
       (\<lambda>x. x\<lparr>rr_lease_token := None, rr_lease_expires_at := None, rr_next_poll_at := Some next,
              rr_last_error_code := code, rr_reconciliation_required := reconcile, rr_updated_at := nowUnix e\<rparr>)"

section \<open>Submission\<close>

definition PrepareRemoteRequest :: "StoreEnv \<Rightarrow> RunLease \<Rightarrow> string \<Rightarrow> unit op" where
  "PrepareRemoteRequest e r body =
     and_then (ensure (json_valid body) ErrStateConflict) (\<lambda>_.
     update_one_run (\<lambda>x. leased_by e r x \<and> rr_phase x = RemotePreparing \<and> rr_cancel_state x = CancelNone)
       (\<lambda>x. x\<lparr>rr_phase := RemotePrepared, rr_request_body := Some body,
              rr_request_body_hash := Some (sha256_hex e body), rr_updated_at := nowUnix e\<rparr>))"

definition BeginRemoteSubmission :: "StoreEnv \<Rightarrow> RunLease \<Rightarrow> unit op" where
  "BeginRemoteSubmission e r =
     update_one_run (\<lambda>x. leased_by e r x \<and> \<not> rr_reconciliation_required x
         \<and> (rr_phase x = RemoteSubmitIntent \<or> (rr_phase x = RemotePrepared \<and> rr_cancel_state x = CancelNone)))
       (\<lambda>x. x\<lparr>rr_phase := RemoteSubmitIntent, rr_submit_attempts := rr_submit_attempts x + 1,
              rr_updated_at := nowUnix e\<rparr>)"

text \<open>The unique index on (node_id, upstream_task_id) can refuse the identifier.\<close>

definition upstream_id_free :: "(remote_run \<Rightarrow> bool) \<Rightarrow> string \<Rightarrow> db \<Rightarrow> bool" where
  "upstream_id_free p i d \<longleftrightarrow>
     list_all (\<lambda>x. p x \<longrightarrow> \<not> exists_where (\<lambda>y. rr_task_id y \<noteq> rr_task_id x \<and> rr_node_id y = rr_node_id x
        \<and> rr_upstream_task_id y = Some i) (task_remote_runs d)) (task_remote_runs d)"

definition BindRemoteTask :: "StoreEnv \<Rightarrow> RunLease \<Rightarrow> string \<Rightarrow> unit op" where
  "BindRemoteTask e r i = atomically
     (let now = nowUnix e; sel = (\<lambda>x. leased_by e r x \<and> rr_phase x = RemoteSubmitIntent) in
      and_then (ensure (i \<noteq> []) ErrStateConflict) (\<lambda>_.
      and_then (ensuring (upstream_id_free sel i) (ErrSQL ''uq_remote_node_task'')) (\<lambda>_.
      and_then (update_one_run sel
                  (\<lambda>x. x\<lparr>rr_phase := RemoteSubmitted, rr_upstream_task_id := Some i, rr_upstream_status := Some UpQueued,
                         rr_last_error_code := [], rr_updated_at := now\<rparr>)) (\<lambda>_.
      update_one_task (\<lambda>t. vt_task_id t = rl_TaskID r \<and> vt_upstream_id t = Some (rl_NodeID r) \<and> vt_upstream_slot_active t
                           \<and> active (vt_status t))
        (\<lambda>t. (touched now t)\<lparr>vt_upstream_job_id := Some i,
               vt_status := (if vt_status t = StatusCancelling then StatusCancelling else StatusRunning)\<rparr>)))))"

definition ObserveRemoteTask :: "StoreEnv \<Rightarrow> RunLease \<Rightarrow> UpStatus \<Rightarrow> CancelState \<Rightarrow> unit op" where
  "ObserveRemoteTask e r status cancelState = atomically
     (let now = nowUnix e in
      and_then (ensure (status = UpQueued \<or> status = UpRunning) ErrStateConflict) (\<lambda>_.
      and_then (ensure (cancelState \<in> {CancelNone, CancelRequested, CancelRejected}) ErrStateConflict) (\<lambda>_.
      and_then (update_one_run (\<lambda>x. leased_by e r x \<and> rr_phase x = RemoteSubmitted)
                  (\<lambda>x. x\<lparr>rr_upstream_status := Some status,
                         rr_cancel_state := (if cancelState = CancelRejected then CancelRejected else rr_cancel_state x),
                         rr_updated_at := now\<rparr>)) (\<lambda>_.
      and_then (update_tasks (\<lambda>t. cancelState = CancelRejected \<and> vt_task_id t = rl_TaskID r \<and> vt_status t = StatusCancelling)
                  (\<lambda>t. (touched now t)\<lparr>vt_status := StatusRunning\<rparr>)) (\<lambda>_.
      ret ())))))"

definition RequestRemoteCancel :: "StoreEnv \<Rightarrow> string \<Rightarrow> unit op" where
  "RequestRemoteCancel e i = atomically
     (and_then (GetRemoteRun i) (\<lambda>r.
      if rr_phase r = RemoteTerminal then ensure (rr_upstream_status r = Some UpCancelled) ErrRemoteNotCancellable
      else if rr_upstream_status r = Some UpRunning \<or> rr_cancel_state r = CancelRejected then raise ErrRemoteNotCancellable
      else
        and_then (update_one_task (\<lambda>t. vt_task_id t = i \<and> vt_upstream_slot_active t \<and> vt_deleted_at t = None \<and> active (vt_status t))
                    (\<lambda>t. (touched (nowUnix e) t)\<lparr>vt_status := StatusCancelling,
                           vt_cancel_requested_at := keep_or (vt_cancel_requested_at t) (nowUnix e)\<rparr>)) (\<lambda>_.
        and_then (update_runs (\<lambda>x. rr_task_id x = i)
                    (\<lambda>x. x\<lparr>rr_cancel_state := CancelRequested, rr_next_poll_at := None, rr_updated_at := nowUnix e\<rparr>)) (\<lambda>_.
        ret ()))))"

section \<open>Assets\<close>

definition GetRemoteAsset :: "string \<Rightarrow> string \<Rightarrow> int \<Rightarrow> node_asset op" where
  "GetRemoteAsset i nodeID index =
     reading (\<lambda>d. case select_where (\<lambda>a. na_task_id a = i \<and> na_node_id a = nodeID \<and> na_content_index a = index) (task_node_assets d) of
        None \<Rightarrow> Inl ErrTaskNotFound | Some a \<Rightarrow> Inr a)"

definition asset_row_ok :: "node_asset \<Rightarrow> bool" where
  "asset_row_ok a \<longleftrightarrow>
     na_content_index a \<ge> 0 \<and> na_asset_id a \<noteq> [] \<and> rune_count (na_source_sha256 a) = 64 \<and> na_size_bytes a > 0
     \<and> json_valid (na_metadata_json a)
     \<and> (na_content_type a = ''image_url'' \<and> na_role a \<in> {''first_frame'', ''last_frame'', ''reference_image''}
        \<or> na_content_type a = ''video_url'' \<and> na_role a = ''reference_video''
        \<or> na_content_type a = ''audio_url'' \<and> na_role a = ''reference_audio'')"

definition same_asset :: "node_asset \<Rightarrow> node_asset \<Rightarrow> bool" where
  "same_asset a b \<longleftrightarrow> na_asset_id a = na_asset_id b \<and> na_content_type a = na_content_type b \<and> na_role a = na_role b
     \<and> na_source_sha256 a = na_source_sha256 b \<and> na_size_bytes a = na_size_bytes b \<and> na_metadata_json a = na_metadata_json b"

definition SaveRemoteAsset :: "StoreEnv \<Rightarrow> RunLease \<Rightarrow> node_asset \<Rightarrow> unit op" where
  "SaveRemoteAsset e r a0 =
     (let now = nowUnix e; a = a0\<lparr>na_created_at := now, na_updated_at := now\<rparr>;
          here = (\<lambda>x. na_task_id x = na_task_id a \<and> na_node_id x = na_node_id a \<and> na_content_index x = na_content_index a) in
      and_then (ensure (na_task_id a = rl_TaskID r \<and> na_node_id a = rl_NodeID r) ErrStateConflict) (\<lambda>_.
      and_then (ensuring (\<lambda>d. exists_where (\<lambda>x. leased_by e r x \<and> rr_phase x = RemotePreparing \<and> rr_cancel_state x = CancelNone)
                  (task_remote_runs d)) ErrStateConflict) (\<lambda>_.
      and_then (ensure (asset_row_ok a) (ErrSQL ''task_node_assets'')) (\<lambda>_.
      and_then (gets (\<lambda>d. exists_where here (task_node_assets d))) (\<lambda>present.
      if present
      then exec_one task_node_assets task_node_assets_update ErrStateConflict (\<lambda>x. here x \<and> same_asset x a)
             (\<lambda>x. x\<lparr>na_updated_at := now\<rparr>)
      else exec_insert task_node_assets_update a)))))"

section \<open>Completion\<close>

definition finished_status :: "UpStatus \<Rightarrow> InternalStatus" where
  "finished_status s = (case s of UpSucceeded \<Rightarrow> StatusSucceeded | UpFailed \<Rightarrow> StatusFailed | _ \<Rightarrow> StatusCancelled)"

definition finished_word :: "UpStatus \<Rightarrow> string" where
  "finished_word s = (case s of UpSucceeded \<Rightarrow> ''succeeded'' | UpFailed \<Rightarrow> ''failed'' | _ \<Rightarrow> ''cancelled'')"

definition finished_run :: "StoreEnv \<Rightarrow> RemoteCompletion \<Rightarrow> remote_run \<Rightarrow> remote_run" where
  "finished_run e c x =
     x\<lparr>rr_phase := RemoteTerminal, rr_upstream_status := Some (co_status c),
       rr_cancel_state := (if co_status c = UpCancelled then CancelConfirmed
                           else if rr_cancel_state x = CancelRequested then CancelRejected else rr_cancel_state x),
       rr_lease_token := None, rr_lease_expires_at := None, rr_next_poll_at := None,
       rr_last_error_code := co_error_code c, rr_updated_at := nowUnix e\<rparr>"

definition uploads :: "RemoteCompletion \<Rightarrow> bool" where
  "uploads c \<longleftrightarrow> co_upload_job c \<noteq> None \<and> co_status c = UpSucceeded"

definition remote_result :: "StoreEnv \<Rightarrow> RemoteCompletion \<Rightarrow> video_task \<Rightarrow> video_task" where
  "remote_result e c t =
     (touched (nowUnix e) t)\<lparr>vt_status := (if uploads c then StatusReconciling else finished_status (co_status c)),
       vt_upstream_slot_active := False,
       vt_result_internal_url := (case vt_result_internal_url t of None \<Rightarrow> nullif_empty (co_result_url c) | Some u \<Rightarrow> Some u),
       vt_result_public_url := (if uploads c then None else nullif_empty (co_result_url c)),
       vt_latest_result_url := nullif_empty (co_result_url c),
       vt_latest_result_expires_at := nullif_zero (co_result_expires_at c),
       vt_result_metadata_json := nullif_empty (co_metadata_json c),
       vt_metadata_status := (if co_metadata_status c = [] then ''none'' else co_metadata_status c),
       vt_ratio_actual := nullif_empty (co_ratio c), vt_error_code := nullif_empty (co_error_code c),
       vt_error_message := nullif_empty (co_error_message c), vt_upstream_feedback := co_feedback c,
       vt_finished_at := (if uploads c then None else Some (nowUnix e))\<rparr>"

definition new_upload :: "string \<Rightarrow> string \<Rightarrow> string \<Rightarrow> int \<Rightarrow> upload_job" where
  "new_upload i task key now =
     \<lparr>ru_id = i, ru_task_id = task, ru_object_key = key, ru_status = UploadPending, ru_round_no = 1, ru_attempt_no = 0,
      ru_max_attempts = 3, ru_next_attempt_at = None, ru_lease_token = None, ru_lease_expires_at = None, ru_public_url = [],
      ru_last_error_code = [], ru_last_error_message = [], ru_bytes_uploaded = 0, ru_started_at = None,
      ru_finished_at = None, ru_created_at = now, ru_updated_at = now, ru_version = 1\<rparr>"

definition insert_upload :: "upload_job \<Rightarrow> unit op" where
  "insert_upload j =
     and_then (ensuring (\<lambda>d. ru_id j \<noteq> [] \<and> ru_object_key j \<noteq> []
                  \<and> \<not> exists_where (\<lambda>x. ru_id x = ru_id j \<or> ru_task_id x = ru_task_id j \<or> ru_object_key x = ru_object_key j)
                      (result_upload_jobs d)
                  \<and> exists_where (\<lambda>t. vt_task_id t = ru_task_id j) (video_tasks d)) (ErrSQL ''result_upload_jobs'')) (\<lambda>_.
     exec_insert result_upload_jobs_update j)"

definition upload_or_callback :: "StoreEnv \<Rightarrow> string \<Rightarrow> RemoteCompletion \<Rightarrow> unit op" where
  "upload_or_callback e i c =
     (case (co_upload_job c, co_status c) of
        (Some j, UpSucceeded) \<Rightarrow>
          and_then (ensure (uj_task_id j = i) ErrStateConflict) (\<lambda>_.
          insert_upload (new_upload (uj_id j) i (uj_object_key j) (nowMillis e)))
      | _ \<Rightarrow> createCallbackDeliveryWithConn e i (finished_word (co_status c)) (nowMillis e))"

definition CompleteRemoteRun :: "StoreEnv \<Rightarrow> RunLease \<Rightarrow> RemoteCompletion \<Rightarrow> unit op" where
  "CompleteRemoteRun e r c = atomically
     (and_then (ensure (co_status c \<in> {UpSucceeded, UpFailed, UpCancelled}) ErrStateConflict) (\<lambda>_.
      and_then (ensure (co_status c \<noteq> UpSucceeded \<or> co_result_url c \<noteq> []) ErrStateConflict) (\<lambda>_.
      and_then (update_one_run (\<lambda>x. leased_by e r x \<and> rr_phase x \<noteq> RemoteTerminal) (finished_run e c)) (\<lambda>_.
      and_then (update_one_task (\<lambda>t. vt_task_id t = rl_TaskID r \<and> vt_upstream_id t = Some (rl_NodeID r)
                    \<and> vt_upstream_slot_active t \<and> vt_deleted_at t = None \<and> active (vt_status t)) (remote_result e c)) (\<lambda>_.
      upload_or_callback e (rl_TaskID r) c)))))"

definition UpdateRemoteResult :: "StoreEnv \<Rightarrow> string \<Rightarrow> string \<Rightarrow> RemoteResultUpdate \<Rightarrow> unit op" where
  "UpdateRemoteResult e i nodeID u =
     and_then (ensure (up_metadata_status u \<in> {''pending'', ''ready'', ''unavailable''}) ErrStateConflict) (\<lambda>_.
     and_then (gets (\<lambda>d. d)) (\<lambda>d.
     update_one_task (\<lambda>t. vt_task_id t = i \<and> vt_upstream_id t = Some nodeID \<and> vt_protocol_version t = Some ProtocolTK2SD
         \<and> vt_status t \<in> {StatusSucceeded, StatusReconciling} \<and> vt_deleted_at t = None
         \<and> exists_where (\<lambda>r. rr_task_id r = vt_task_id t \<and> rr_node_id r = nodeID \<and> rr_phase r = RemoteTerminal
              \<and> rr_upstream_status r = Some UpSucceeded) (task_remote_runs d))
       (\<lambda>t. (touched (nowUnix e) t)\<lparr>
          vt_latest_result_url := (if up_url u = [] then vt_latest_result_url t else Some (up_url u)),
          vt_latest_result_expires_at := (if up_url u \<noteq> [] then nullif_zero (up_expires_at u) else vt_latest_result_expires_at t),
          vt_result_metadata_json := (if up_metadata_json u = [] then vt_result_metadata_json t else Some (up_metadata_json u)),
          vt_metadata_status := (if vt_metadata_status t = ''ready'' then ''ready'' else up_metadata_status u)\<rparr>)))"


section \<open>The submission protocol\<close>

text \<open>
  What the rest of the system relies on: under one submission key one request body is ever sent, it
  is written down before the first submission, and what was sent and accepted is never rewritten.
  \<open>submission_step\<close> is that protocol; every operation above implements it (the trigger
  \<open>protect_remote_submission\<close> guards the same evidence in the database).
\<close>

datatype Submission =
    Preparing
  | Prepared string
  | Submitting string int
  | Accepted string int string
  | Closed "string option" int "string option"

inductive submission_step :: "Submission \<Rightarrow> Submission \<Rightarrow> bool" where
  prepare: "json_valid b \<Longrightarrow> submission_step Preparing (Prepared b)"
| submit: "submission_step (Prepared b) (Submitting b 1)"
| resubmit: "submission_step (Submitting b n) (Submitting b (n + 1))"
| accepted: "i \<noteq> [] \<Longrightarrow> submission_step (Submitting b n) (Accepted b n i)"
| close_preparing: "submission_step Preparing (Closed None 0 None)"
| close_prepared: "submission_step (Prepared b) (Closed (Some b) 0 None)"
| close_submitting: "submission_step (Submitting b n) (Closed (Some b) n None)"
| close_accepted: "submission_step (Accepted b n i) (Closed (Some b) n (Some i))"

definition submission :: "remote_run \<Rightarrow> Submission" where
  "submission r =
     (let b = coalesce (rr_request_body r) []; n = rr_submit_attempts r in
      case rr_phase r of
        RemotePreparing \<Rightarrow> Preparing
      | RemotePrepared \<Rightarrow> Prepared b
      | RemoteSubmitIntent \<Rightarrow> Submitting b n
      | RemoteSubmitted \<Rightarrow> Accepted b n (coalesce (rr_upstream_task_id r) [])
      | RemoteTerminal \<Rightarrow> Closed (rr_request_body r) n (rr_upstream_task_id r))"

text \<open>The evidence a phase requires.\<close>

definition run_ok :: "remote_run \<Rightarrow> bool" where
  "run_ok r \<longleftrightarrow>
     (case rr_phase r of
        RemotePreparing \<Rightarrow> rr_request_body r = None \<and> rr_upstream_task_id r = None \<and> rr_submit_attempts r = 0
      | RemotePrepared \<Rightarrow> rr_request_body r \<noteq> None \<and> rr_upstream_task_id r = None \<and> rr_submit_attempts r = 0
      | RemoteSubmitIntent \<Rightarrow> rr_request_body r \<noteq> None \<and> rr_upstream_task_id r = None \<and> rr_submit_attempts r \<ge> 1
      | RemoteSubmitted \<Rightarrow> rr_request_body r \<noteq> None \<and> rr_upstream_task_id r \<noteq> None \<and> rr_submit_attempts r \<ge> 1
      | RemoteTerminal \<Rightarrow> True)"

definition same_run :: "remote_run \<Rightarrow> remote_run \<Rightarrow> bool" where
  "same_run r r' \<longleftrightarrow> rr_task_id r' = rr_task_id r \<and> rr_node_id r' = rr_node_id r \<and> rr_submission_key r' = rr_submission_key r"

definition run_follows :: "remote_run \<Rightarrow> remote_run \<Rightarrow> bool" where
  "run_follows r r' \<longleftrightarrow> same_run r r' \<and> run_ok r' \<and> submission_step\<^sup>*\<^sup>* (submission r) (submission r')"

definition runs_follow :: "remote_run list \<Rightarrow> remote_run list \<Rightarrow> bool" where
  "runs_follow rs rs' \<longleftrightarrow>
     (\<forall>r \<in> set rs. \<exists>r' \<in> set rs'. rr_task_id r' = rr_task_id r)
     \<and> (\<forall>r' \<in> set rs'. (\<exists>r \<in> set rs. run_follows r r')
          \<or> ((\<forall>r \<in> set rs. rr_task_id r \<noteq> rr_task_id r') \<and> run_ok r' \<and> submission_step\<^sup>*\<^sup>* Preparing (submission r')))"

definition refines_step :: "db \<Rightarrow> db \<Rightarrow> bool" where
  "refines_step d d' \<longleftrightarrow> (list_all run_ok (task_remote_runs d) \<longrightarrow>
     list_all run_ok (task_remote_runs d') \<and> runs_follow (task_remote_runs d) (task_remote_runs d'))"

lemma run_follows_refl: "run_ok r \<Longrightarrow> run_follows r r"
  by (simp add: run_follows_def same_run_def)

lemma run_follows_trans: "run_follows r s \<Longrightarrow> run_follows s t \<Longrightarrow> run_follows r t"
  by (auto simp: run_follows_def same_run_def)

lemma runs_follow_refl: "list_all run_ok rs \<Longrightarrow> runs_follow rs rs"
  by (auto simp: runs_follow_def list_all_iff intro: run_follows_refl)

lemma runs_follow_trans:
  assumes "runs_follow rs ss" and "runs_follow ss ts"
  shows "runs_follow rs ts"
  unfolding runs_follow_def
proof (intro conjI ballI)
  fix r assume "r \<in> set rs"
  with assms show "\<exists>t \<in> set ts. rr_task_id t = rr_task_id r" unfolding runs_follow_def by metis
next
  fix t assume t: "t \<in> set ts"
  with assms(2) consider s where "s \<in> set ss" "run_follows s t"
    | "\<forall>s \<in> set ss. rr_task_id s \<noteq> rr_task_id t" "run_ok t" "submission_step\<^sup>*\<^sup>* Preparing (submission t)"
    unfolding runs_follow_def by blast
  then show "(\<exists>r \<in> set rs. run_follows r t)
      \<or> ((\<forall>r \<in> set rs. rr_task_id r \<noteq> rr_task_id t) \<and> run_ok t \<and> submission_step\<^sup>*\<^sup>* Preparing (submission t))"
  proof cases
    case 1
    then have "rr_task_id t = rr_task_id s" by (simp add: run_follows_def same_run_def)
    with 1 assms(1) show ?thesis unfolding runs_follow_def
      by (metis run_follows_def run_follows_trans rtranclp_trans)
  next
    case 2
    with assms(1) show ?thesis unfolding runs_follow_def by metis
  qed
qed

interpretation refinement: step_contract refines_step
proof
  show "refines_step d d" for d by (simp add: refines_step_def runs_follow_refl)
  show "refines_step d d''" if "refines_step d d'" "refines_step d' d''" for d d' d''
    using that unfolding refines_step_def by (metis runs_follow_trans)
qed

lemma refines_frame: "task_remote_runs d' = task_remote_runs d \<Longrightarrow> refines_step d d'"
  by (simp add: refines_step_def runs_follow_refl)

lemma refines_update:
  assumes "\<And>r. p r \<Longrightarrow> run_ok r \<Longrightarrow> run_follows r (f r)"
  shows "refines_step d (task_remote_runs_update (update_where p f) d)"
  unfolding refines_step_def
proof
  assume ok: "list_all run_ok (task_remote_runs d)"
  have f: "run_follows r (f r)" if "r \<in> set (task_remote_runs d)" "p r" for r
    using assms ok that by (simp add: list_all_iff)
  have "runs_follow (task_remote_runs d) (update_where p f (task_remote_runs d))"
    unfolding runs_follow_def
  proof (intro conjI ballI)
    fix r assume r: "r \<in> set (task_remote_runs d)"
    then show "\<exists>r' \<in> set (update_where p f (task_remote_runs d)). rr_task_id r' = rr_task_id r"
      using f [OF r] by (cases "p r") (force simp: set_update_where run_follows_def same_run_def)+
  next
    fix r' assume "r' \<in> set (update_where p f (task_remote_runs d))"
    then have "\<exists>r \<in> set (task_remote_runs d). run_follows r r'"
      using f ok by (auto simp: set_update_where list_all_iff intro: run_follows_refl)
    then show "(\<exists>r \<in> set (task_remote_runs d). run_follows r r') \<or> ((\<forall>r \<in> set (task_remote_runs d). rr_task_id r \<noteq> rr_task_id r')
        \<and> run_ok r' \<and> submission_step\<^sup>*\<^sup>* Preparing (submission r'))" ..
  qed
  moreover have "list_all run_ok (update_where p f (task_remote_runs d))"
    using f ok by (auto simp: list_all_iff set_update_where run_follows_def)
  ultimately show "list_all run_ok (task_remote_runs (task_remote_runs_update (update_where p f) d))
      \<and> runs_follow (task_remote_runs d) (task_remote_runs (task_remote_runs_update (update_where p f) d))" by simp
qed

lemma refines_insert:
  assumes "run_ok r" and "submission r = Preparing" and "\<forall>x \<in> set (task_remote_runs d). rr_task_id x \<noteq> rr_task_id r"
  shows "refines_step d (task_remote_runs_update (\<lambda>rows. rows @ [r]) d)"
  using assms by (auto simp: refines_step_def runs_follow_def list_all_iff intro: run_follows_refl)

lemma refines_insert_run:
  assumes "run_ok r" and "submission r = Preparing"
  shows "keeps refines_step (insert_run r)"
proof (rule keepsI)
  fix d x d' assume "insert_run r d = (x, d')"
  then show "refines_step d d'" unfolding insert_run_def
    by (auto simp: and_then_ensuring refinement.refl intro: refines_insert [OF assms] split: if_splits)
qed

lemma refines_reading: "keeps refines_step (reading f)" "keeps refines_step (GetRemoteRun i)"
  by (simp_all add: keeps_def GetRemoteRun_def refinement.refl)

lemma refines_tables:
  "refines_step d (video_tasks_update f d)" "refines_step d (task_node_assets_update g d)"
  "refines_step d (result_upload_jobs_update h d)"
  by (rule refines_frame, simp)+

lemma refines_callback: "keeps refines_step (createCallbackDeliveryWithConn e i st now)"
  by (rule keepsI) (auto dest!: callback_frame intro: refines_frame)

lemma refines_rebalance: "keeps refines_step (rebalance e now)"
  by (rule keepsI) (auto simp: rebalance_apply intro: refines_frame)

lemma keeps_exec_insert: "(\<And>d. R d (upd (\<lambda>rows. rows @ [r]) d)) \<Longrightarrow> keeps R (exec_insert upd r)"
  by (simp add: keeps_def)

lemmas refines_intros = refinement.keeps_intros keeps_exec_one keeps_exec_update keeps_exec_insert refines_reading
  refines_tables refines_callback refines_rebalance refines_insert_run refines_update

text \<open>How each row update moves through the protocol.\<close>

lemma follows_stutter:
  assumes "same_run r r'" and "rr_phase r' = rr_phase r" and "rr_request_body r' = rr_request_body r"
    and "rr_upstream_task_id r' = rr_upstream_task_id r" and "rr_submit_attempts r' = rr_submit_attempts r" and "run_ok r"
  shows "run_follows r r'"
  using assms by (cases "rr_phase r") (simp_all add: run_follows_def run_ok_def submission_def)

lemma follows_step:
  assumes "same_run r r'" and "run_ok r'" and "submission_step (submission r) (submission r')"
  shows "run_follows r r'"
  using assms by (simp add: run_follows_def r_into_rtranclp)

lemma follows_close:
  assumes "same_run r r'" and "rr_phase r' = RemoteTerminal" and "rr_request_body r' = rr_request_body r"
    and "rr_upstream_task_id r' = rr_upstream_task_id r" and "rr_submit_attempts r' = rr_submit_attempts r"
    and "run_ok r" and "rr_phase r \<noteq> RemoteTerminal"
  shows "run_follows r r'"
proof (rule follows_step [OF assms(1)])
  show "run_ok r'" using assms(2) by (simp add: run_ok_def)
  show "submission_step (submission r) (submission r')"
    using assms by (cases "rr_phase r") (auto simp: submission_def run_ok_def Let_def intro: submission_step.intros)
qed

lemma submission_keeps:
  "keeps refines_step (AcquireRemoteLease e i n tok ttl)" "keeps refines_step (RenewRemoteLease e r ttl)"
  "keeps refines_step (ReleaseRemoteLease e r next code rec)" "keeps refines_step (PrepareRemoteRequest e r body)"
  "keeps refines_step (BeginRemoteSubmission e r)" "keeps refines_step (BindRemoteTask e r up)"
  "keeps refines_step (ObserveRemoteTask e r st c)" "keeps refines_step (RequestRemoteCancel e i)"
  "keeps refines_step (SaveRemoteAsset e r a)" "keeps refines_step (CompleteRemoteRun e r cpl)"
  "keeps refines_step (UpdateRemoteResult e i n u)" "keeps refines_step (ClaimNextRemote e n v cap adm)"
proof -
  have prep: "run_follows x (x\<lparr>rr_phase := RemotePrepared, rr_request_body := Some body, rr_request_body_hash := h, rr_updated_at := now\<rparr>)"
    if "run_ok x" "rr_phase x = RemotePreparing" "json_valid body" for x h now
    by (rule follows_step) (use that in \<open>auto simp: same_run_def run_ok_def submission_def intro: submission_step.intros\<close>)
  show "keeps refines_step (AcquireRemoteLease e i n tok ttl)" unfolding AcquireRemoteLease_def Let_def
    by (intro refines_intros follows_stutter) (auto simp: same_run_def)
  show "keeps refines_step (RenewRemoteLease e r ttl)" unfolding RenewRemoteLease_def
    by (intro refines_intros follows_stutter) (auto simp: same_run_def)
  show "keeps refines_step (ReleaseRemoteLease e r next code rec)" unfolding ReleaseRemoteLease_def
    by (intro refines_intros follows_stutter) (auto simp: same_run_def)
  show "keeps refines_step (PrepareRemoteRequest e r body)"
  proof (cases "json_valid body")
    case True
    then show ?thesis unfolding PrepareRemoteRequest_def by (intro refines_intros prep) auto
  qed (simp add: PrepareRemoteRequest_def keeps_def and_then_ensure refinement.refl)
  show "keeps refines_step (BeginRemoteSubmission e r)" unfolding BeginRemoteSubmission_def
    by (intro refines_intros follows_step)
      (auto simp: same_run_def run_ok_def submission_def intro: submission_step.intros submission_step.submit [simplified])
  show "keeps refines_step (BindRemoteTask e r up)"
  proof (cases "up = []")
    case False
    then show ?thesis unfolding BindRemoteTask_def Let_def
      by (intro refines_intros follows_step) (auto simp: same_run_def run_ok_def submission_def intro: submission_step.intros)
  qed (simp add: BindRemoteTask_def keeps_def atomically_def and_then_ensure Let_def refinement.refl)
  show "keeps refines_step (ObserveRemoteTask e r st c)" unfolding ObserveRemoteTask_def Let_def
    by (intro refines_intros follows_stutter) (auto simp: same_run_def)
  show "keeps refines_step (RequestRemoteCancel e i)" unfolding RequestRemoteCancel_def
    by (intro refines_intros follows_stutter) (auto simp: same_run_def)
  show "keeps refines_step (SaveRemoteAsset e r a)" unfolding SaveRemoteAsset_def Let_def
    by (intro refines_intros)
  have "keeps refines_step (upload_or_callback e i cpl)" for i
    unfolding upload_or_callback_def insert_upload_def
    by (cases "co_upload_job cpl"; cases "co_status cpl") (auto intro!: refines_intros)
  then show "keeps refines_step (CompleteRemoteRun e r cpl)" unfolding CompleteRemoteRun_def
    by (intro refines_intros follows_close) (auto simp: same_run_def finished_run_def)
  show "keeps refines_step (UpdateRemoteResult e i n u)" unfolding UpdateRemoteResult_def
    by (intro refines_intros)
  show "keeps refines_step (ClaimNextRemote e n v cap adm)" unfolding ClaimNextRemote_def Let_def require_node_def
    by (intro refines_intros) (auto simp: new_run_def run_ok_def submission_def)
qed

text \<open>The operations as the steps of one machine, successful or not.\<close>

inductive remote_step :: "db \<Rightarrow> db \<Rightarrow> bool" where
  claim: "ClaimNextRemote e n v cap adm d = (x, d') \<Longrightarrow> remote_step d d'"
| acquire: "AcquireRemoteLease e i n tok ttl d = (y, d') \<Longrightarrow> remote_step d d'"
| renew: "RenewRemoteLease e r ttl d = (z, d') \<Longrightarrow> remote_step d d'"
| release: "ReleaseRemoteLease e r nxt code rec d = (z, d') \<Longrightarrow> remote_step d d'"
| prepare: "PrepareRemoteRequest e r body d = (z, d') \<Longrightarrow> remote_step d d'"
| submit: "BeginRemoteSubmission e r d = (z, d') \<Longrightarrow> remote_step d d'"
| bind: "BindRemoteTask e r up d = (z, d') \<Longrightarrow> remote_step d d'"
| observe: "ObserveRemoteTask e r st c d = (z, d') \<Longrightarrow> remote_step d d'"
| cancel: "RequestRemoteCancel e i d = (z, d') \<Longrightarrow> remote_step d d'"
| asset: "SaveRemoteAsset e r a d = (z, d') \<Longrightarrow> remote_step d d'"
| finish: "CompleteRemoteRun e r cpl d = (z, d') \<Longrightarrow> remote_step d d'"
| result: "UpdateRemoteResult e i n u d = (z, d') \<Longrightarrow> remote_step d d'"

lemma remote_step_refines: "remote_step d d' \<Longrightarrow> refines_step d d'"
  by (induction rule: remote_step.induct) (erule keepsD [rotated], rule submission_keeps)+

lemma remote_steps_refine: "remote_step\<^sup>*\<^sup>* d d' \<Longrightarrow> refines_step d d'"
  by (rule refinement.reachable [OF remote_step_refines])

text \<open>What the protocol keeps once a body has been submitted.\<close>

fun sent :: "Submission \<Rightarrow> (string \<times> int) option" where
  "sent (Submitting b n) = Some (b, n)"
| "sent (Accepted b n i) = Some (b, n)"
| "sent (Closed (Some b) n i) = (if n \<ge> 1 then Some (b, n) else None)"
| "sent _ = None"

lemma submission_steps_sent:
  assumes "submission_step\<^sup>*\<^sup>* s s'" and "sent s = Some (b, n)" and "n \<ge> 1"
  shows "\<exists>m \<ge> n. sent s' = Some (b, m)"
  using assms(1)
proof (induction rule: rtranclp_induct)
  case (step s' s'')
  then obtain m where "m \<ge> n" "sent s' = Some (b, m)" by blast
  with step(2) assms(3) show ?case by (cases rule: submission_step.cases) auto
qed (use assms in auto)

text \<open>C1: Every operation of the remote store implements the submission protocol: after any sequence of them, each
  run either continues a run that was there, with the same node and submission key, along steps of
  the protocol, or it was created since and has gone through the protocol from its start.\<close>

theorem remote_store_refines_protocol:
  assumes "remote_step\<^sup>*\<^sup>* d d'" and "list_all run_ok (task_remote_runs d)" and "r' \<in> set (task_remote_runs d')"
  shows "run_ok r' \<and> ((\<exists>r \<in> set (task_remote_runs d). same_run r r' \<and> submission_step\<^sup>*\<^sup>* (submission r) (submission r'))
     \<or> ((\<forall>r \<in> set (task_remote_runs d). rr_task_id r \<noteq> rr_task_id r') \<and> submission_step\<^sup>*\<^sup>* Preparing (submission r')))"
  using remote_steps_refine [OF assms(1)] assms(2,3)
  unfolding refines_step_def runs_follow_def run_follows_def by blast

text \<open>C8: Whatever happens after a request body was first submitted under a submission key (retries, crashes between
  operations, lease takeovers, cancellation), the run of that task keeps the key, the node and the
  body, and its count of submissions never falls.\<close>

theorem submitted_body_stable:
  assumes "remote_step\<^sup>*\<^sup>* d d'" and "list_all run_ok (task_remote_runs d)" and "distinct (map rr_task_id (task_remote_runs d))"
    and "r \<in> set (task_remote_runs d)" and "sent (submission r) = Some (b, n)" and "n \<ge> 1"
    and "r' \<in> set (task_remote_runs d')" and "rr_task_id r' = rr_task_id r"
  shows "rr_submission_key r' = rr_submission_key r \<and> rr_node_id r' = rr_node_id r
    \<and> (\<exists>m \<ge> n. sent (submission r') = Some (b, m))"
proof -
  from remote_steps_refine [OF assms(1)] assms(2,4,7,8) obtain r0 where r0: "r0 \<in> set (task_remote_runs d)" "run_follows r0 r'"
    unfolding refines_step_def runs_follow_def by metis
  then have "rr_task_id r0 = rr_task_id r" using assms(8) by (simp add: run_follows_def same_run_def)
  then have "r0 = r" by (rule key_unique [OF assms(3) r0(1) assms(4)])
  with r0(2) submission_steps_sent [OF _ assms(5,6)] show ?thesis by (simp add: run_follows_def same_run_def)
qed

section \<open>Slots\<close>

text \<open>
  The invariant of the node slots: keys are unique, every unfinished run belongs to a live task that
  holds a slot of the run's node, and no node has more slots taken than it is configured for.
\<close>

definition holds_slot :: "remote_run \<Rightarrow> video_task \<Rightarrow> bool" where
  "holds_slot r t \<longleftrightarrow> vt_task_id t = rr_task_id r \<and> vt_upstream_id t = Some (rr_node_id r) \<and> vt_upstream_slot_active t
     \<and> vt_deleted_at t = None \<and> active (vt_status t) \<and> vt_protocol_version t = Some ProtocolTK2SD"

definition within_capacity :: "db \<Rightarrow> bool" where
  "within_capacity d \<longleftrightarrow> (\<forall>n \<in> set (model_service_nodes d). int (slots_used (mn_id n) d) \<le> mn_max_concurrency n)"

definition remote_inv :: "db \<Rightarrow> bool" where
  "remote_inv d \<longleftrightarrow> distinct (map vt_task_id (video_tasks d)) \<and> distinct (map rr_task_id (task_remote_runs d))
     \<and> distinct (map mn_id (model_service_nodes d))
     \<and> (\<forall>r \<in> set (task_remote_runs d). rr_phase r \<noteq> RemoteTerminal \<longrightarrow> (\<exists>t \<in> set (video_tasks d). holds_slot r t))
     \<and> within_capacity d"

definition slots_safe :: "db \<Rightarrow> db \<Rightarrow> bool" where
  "slots_safe d d' \<longleftrightarrow> (remote_inv d \<longrightarrow> remote_inv d')"

interpretation slot_safety: step_contract slots_safe
  by unfold_locales (auto simp: slots_safe_def)

lemma slots_frame:
  "video_tasks d' = video_tasks d \<Longrightarrow> task_remote_runs d' = task_remote_runs d \<Longrightarrow>
     model_service_nodes d' = model_service_nodes d \<Longrightarrow> slots_safe d d'"
  by (simp add: slots_safe_def remote_inv_def within_capacity_def slots_used_def)

lemma affected_update_le:
  "(\<And>r. r \<in> set rows \<Longrightarrow> q r \<Longrightarrow> p (f r) \<Longrightarrow> p r) \<Longrightarrow> affected p (update_where q f rows) \<le> affected p rows"
  by (induction rows) (auto simp: le_SucI)

lemma slots_used_le:
  assumes "\<And>t. p t \<Longrightarrow> vt_upstream_slot_active (f t) \<Longrightarrow> vt_upstream_slot_active t \<and> vt_upstream_id (f t) = vt_upstream_id t"
  shows "slots_used n (video_tasks_update (update_where p f) d) \<le> slots_used n d"
  unfolding slots_used_def by simp (rule affected_update_le, use assms in auto)

lemma slots_task_update:
  assumes "\<And>t. vt_task_id (f t) = vt_task_id t \<and> vt_upstream_id (f t) = vt_upstream_id t
      \<and> vt_upstream_slot_active (f t) = vt_upstream_slot_active t \<and> vt_deleted_at (f t) = vt_deleted_at t
      \<and> vt_protocol_version (f t) = vt_protocol_version t"
    and "\<And>t. p t \<Longrightarrow> active (vt_status t) \<Longrightarrow> active (vt_status (f t))"
  shows "slots_safe d (video_tasks_update (update_where p f) d)"
  unfolding slots_safe_def
proof
  assume inv: "remote_inv d"
  let ?d = "video_tasks_update (update_where p f) d"
  have "\<exists>t \<in> set (video_tasks ?d). holds_slot r t" if "r \<in> set (task_remote_runs d)" "rr_phase r \<noteq> RemoteTerminal" for r
  proof -
    from inv that obtain t where t: "t \<in> set (video_tasks d)" "holds_slot r t" by (auto simp: remote_inv_def)
    have "holds_slot r (if p t then f t else t)" using t(2) assms by (simp add: holds_slot_def)
    with t(1) show ?thesis by (intro bexI [of _ "if p t then f t else t"]) (auto simp: set_update_where)
  qed
  moreover have "slots_used n ?d \<le> slots_used n d" for n by (rule slots_used_le) (simp add: assms(1))
  then have "within_capacity ?d" using inv unfolding remote_inv_def within_capacity_def by simp (meson of_nat_mono order_trans)
  ultimately show "remote_inv ?d" using inv assms(1) by (simp add: remote_inv_def distinct_update_where)
qed

lemma slots_run_update:
  assumes "\<And>r. rr_task_id (f r) = rr_task_id r \<and> rr_node_id (f r) = rr_node_id r"
    and "\<And>r. p r \<Longrightarrow> rr_phase (f r) \<noteq> RemoteTerminal \<Longrightarrow> rr_phase r \<noteq> RemoteTerminal"
  shows "slots_safe d (task_remote_runs_update (update_where p f) d)"
proof -
  have holds: "holds_slot (f r) t = holds_slot r t" for r t by (simp add: holds_slot_def assms(1))
  show ?thesis unfolding slots_safe_def remote_inv_def within_capacity_def slots_used_def
    using assms by (auto simp: distinct_update_where set_update_where holds)
qed

lemma slots_reading: "keeps slots_safe (reading f)" "keeps slots_safe (GetRemoteRun i)"
  by (simp_all add: keeps_def GetRemoteRun_def slot_safety.refl)

lemma slots_assets: "slots_safe d (task_node_assets_update g d)"
  by (rule slots_frame) simp_all

lemma rebalance_row_slot [simp]:
  "vt_upstream_slot_active (rebalance_row seqs now t) = vt_upstream_slot_active t"
  by (simp add: rebalance_row_def)

lemma slots_rebalance: "keeps slots_safe (rebalance e now)"
  by (rule keepsI) (auto simp: rebalance_apply intro!: slots_task_update)

lemmas slots_intros = slot_safety.keeps_intros keeps_exec_one keeps_exec_update keeps_exec_insert slots_reading
  slots_assets slots_rebalance slots_run_update slots_task_update

lemma touched_simps [simp]:
  "vt_task_id (touched now t) = vt_task_id t" "vt_upstream_id (touched now t) = vt_upstream_id t"
  "vt_upstream_slot_active (touched now t) = vt_upstream_slot_active t" "vt_deleted_at (touched now t) = vt_deleted_at t"
  "vt_status (touched now t) = vt_status t" "vt_protocol_version (touched now t) = vt_protocol_version t"
  by (simp_all add: touched_def)

lemma slot_keeps:
  "keeps slots_safe (AcquireRemoteLease e i n tok ttl)" "keeps slots_safe (RenewRemoteLease e r ttl)"
  "keeps slots_safe (ReleaseRemoteLease e r next code rec)" "keeps slots_safe (PrepareRemoteRequest e r body)"
  "keeps slots_safe (BeginRemoteSubmission e r)" "keeps slots_safe (BindRemoteTask e r up)"
  "keeps slots_safe (ObserveRemoteTask e r st c)" "keeps slots_safe (RequestRemoteCancel e i)"
  "keeps slots_safe (SaveRemoteAsset e r a)" "keeps slots_safe (UpdateRemoteResult e i n u)"
  unfolding AcquireRemoteLease_def RenewRemoteLease_def ReleaseRemoteLease_def PrepareRemoteRequest_def
    BeginRemoteSubmission_def BindRemoteTask_def ObserveRemoteTask_def RequestRemoteCancel_def SaveRemoteAsset_def
    UpdateRemoteResult_def Let_def
  by (intro slots_intros; auto; fail)+

lemma slot_taken_simps [simp]:
  "vt_task_id (slot_taken now n p m t) = vt_task_id t" "vt_upstream_id (slot_taken now n p m t) = Some (mn_id n)"
  "vt_upstream_slot_active (slot_taken now n p m t)" "vt_deleted_at (slot_taken now n p m t) = vt_deleted_at t"
  "vt_status (slot_taken now n p m t) = StatusDispatching"
  "vt_dispatch_snapshot (slot_taken now n p m t) = Some (dispatch_of n p m)"
  "vt_protocol_version (slot_taken now n p m t) = vt_protocol_version t"
  by (simp_all add: slot_taken_def)

lemma slot_taken_inv:
  assumes inv: "remote_inv d" and n: "n \<in> set (model_service_nodes d)" and t: "t \<in> set (video_tasks d)" "vt_deleted_at t = None"
    "\<not> vt_upstream_slot_active t" "queued (vt_status t)"
    and room: "int (slots_used (mn_id n) d) < mn_max_concurrency n"
    and sel: "\<And>x. p x \<longleftrightarrow> vt_task_id x = vt_task_id t \<and> queued (vt_status x)"
    and d1_def: "d1 = video_tasks_update (update_where p (slot_taken now n pr m)) d"
  shows "remote_inv d1" and "slots_used (mn_id n) d1 = slots_used (mn_id n) d + 1"
    and "slot_taken now n pr m t \<in> set (video_tasks d1)"
proof -
  have ids: "distinct (map vt_task_id (video_tasks d))" using inv by (simp add: remote_inv_def)
  have only: "x = t" if "x \<in> set (video_tasks d)" "p x" for x
    using key_unique [OF ids that(1) t(1)] that(2) sel by simp
  have pt: "p t" using t sel by simp
  have split: "affected q (update_where p f (video_tasks d)) = affected q (video_tasks d) + (if q (f t) then 1 else 0)"
    if "\<not> q t" for q and f :: "video_task \<Rightarrow> video_task"
  proof -
    have ex: "\<exists>us vs. video_tasks d = us @ t # vs" using t(1) by (simp add: in_set_conv_decomp)
    then obtain us vs where rows: "video_tasks d = us @ t # vs" by blast
    have "t \<notin> set us" "t \<notin> set vs" using ids unfolding rows by auto
    moreover have "x \<in> set (video_tasks d)" if "x \<in> set us \<union> set vs" for x using that rows by simp
    ultimately have none: "\<not> p x" if "x \<in> set us \<union> set vs" for x using only that by blast
    have "update_where p f us = us" "update_where p f vs = vs" by (rule update_where_id; use none in auto)+
    moreover have "update_where p f (us @ t # vs) = update_where p f us @ f t # update_where p f vs"
      using pt by (simp add: update_where_def)
    ultimately show ?thesis using that by (simp add: rows)
  qed
  show row: "slot_taken now n pr m t \<in> set (video_tasks d1)" using t(1) pt by (auto simp: d1_def set_update_where)
  show used: "slots_used (mn_id n) d1 = slots_used (mn_id n) d + 1"
    using t(3) by (simp add: slots_used_def d1_def split)
  have other: "slots_used i d1 = slots_used i d" if "i \<noteq> mn_id n" for i
    using t(3) that by (simp add: slots_used_def d1_def split)
  have "within_capacity d1" unfolding within_capacity_def
  proof
    fix k assume "k \<in> set (model_service_nodes d1)"
    then have k: "k \<in> set (model_service_nodes d)" by (simp add: d1_def)
    show "int (slots_used (mn_id k) d1) \<le> mn_max_concurrency k"
    proof (cases "mn_id k = mn_id n")
      case True
      then have "k = n" using inv by (intro key_unique [OF _ k n, of mn_id]) (simp_all add: remote_inv_def)
      with used room show ?thesis by simp
    next
      case False
      with other [OF False] k inv show ?thesis by (simp add: remote_inv_def within_capacity_def)
    qed
  qed
  moreover have "\<exists>x \<in> set (video_tasks d1). holds_slot r x" if "r \<in> set (task_remote_runs d)" "rr_phase r \<noteq> RemoteTerminal" for r
  proof -
    from inv that obtain x where x: "x \<in> set (video_tasks d)" "holds_slot r x" by (auto simp: remote_inv_def)
    then have "\<not> p x" by (auto simp: sel holds_slot_def)
    with x show ?thesis by (auto simp: d1_def set_update_where)
  qed
  ultimately show "remote_inv d1" using inv by (simp add: remote_inv_def d1_def distinct_update_where)
qed

lemma claimable_nodeD:
  assumes "claimable_node i v p d = Some n"
  shows "n \<in> set (model_service_nodes d)" "mn_id n = i" "mn_version n = v" "mn_enabled n" "mn_deleted_at n = None"
    "mn_protocol_version n = p"
  using assms by (auto simp: claimable_node_def dest!: select_where_Some)

lemma admitted_capacity_le: "admitted_capacity i cap adm d = Inr limit \<Longrightarrow> limit \<le> cap"
  by (cases "(i, cap, adm, d)" rule: admitted_capacity.cases) (auto split: if_splits)

lemma find_SomeD: "find p xs = Some x \<Longrightarrow> x \<in> set xs \<and> p x"
  by (induction xs) (auto split: if_splits)

lemma next_remoteD:
  assumes "next_remote e n d = Inr t"
  shows "t \<in> set (video_tasks d)" "remote_waiting d (mn_id n) (remote_fingerprint e n) (nowUnix e) t" "remote_accepted d (mn_id n) t"
proof -
  from assms have "find (remote_accepted d (mn_id n)) (sort_key vt_queue_seq
      (filter (remote_waiting d (mn_id n) (remote_fingerprint e n) (nowUnix e)) (video_tasks d))) = Some t"
    unfolding next_remote_def by (simp split: option.splits if_splits)
  from find_SomeD [OF this] show "t \<in> set (video_tasks d)" "remote_waiting d (mn_id n) (remote_fingerprint e n) (nowUnix e) t"
    "remote_accepted d (mn_id n) t" by simp_all
qed

definition claimed_by :: "video_task \<Rightarrow> video_task \<Rightarrow> bool" where
  "claimed_by t x \<longleftrightarrow> vt_task_id x = vt_task_id t \<and> queued (vt_status x)"

lemma ClaimNextRemote_success:
  assumes "ClaimNextRemote e i v cap adm d = (Inr task, d')"
  obtains n limit t d1 where "claimable_node i v ProtocolTK2SD d = Some n"
    "admitted_capacity i (min cap (mn_max_concurrency n)) adm d = Inr limit" "int (slots_used i d) < limit"
    "next_remote e n d = Inr t" "key_ok d (submission_key d (vt_task_id t))"
    "d1 = video_tasks_update (update_where (claimed_by t) (slot_taken (nowUnix e) n ProtocolTK2SD (vt_model t))) d"
    "\<forall>x \<in> set (task_remote_runs d). rr_task_id x \<noteq> vt_task_id t \<and> rr_submission_key x \<noteq> submission_key d (vt_task_id t)"
    "rebalance e (nowUnix e) (task_remote_runs_update (\<lambda>rows. rows @ [new_run (vt_task_id t) i (submission_key d (vt_task_id t)) (nowUnix e)]) d1)
       = (Inr (), d')"
    "getWith (vt_api_key_id t) (vt_task_id t) (nowUnix e) d' = Inr task"
  using assms unfolding ClaimNextRemote_def Let_def atomically_success_iff
  by (auto simp: tx_success require_node_def insert_run_def new_run_def claimed_by_def [abs_def] simp del: and_then_ensuring
      split: option.splits)

lemma inv_insert_run:
  assumes "remote_inv d" and "\<forall>x \<in> set (task_remote_runs d). rr_task_id x \<noteq> rr_task_id r"
    and "t \<in> set (video_tasks d)" and "holds_slot r t"
  shows "remote_inv (task_remote_runs_update (\<lambda>rows. rows @ [r]) d)"
  using assms by (auto simp: remote_inv_def within_capacity_def slots_used_def)

lemma rebalance_slots: "rebalance e now d = (r, d') \<Longrightarrow> slots_used i d' = slots_used i d"
  by (auto simp: rebalance_apply slots_used_def affected_update_same)

lemma ClaimNextRemote_inv:
  assumes "ClaimNextRemote e i v cap adm d = (Inr task, d')" and "remote_inv d"
  shows "remote_inv d'" and "slots_used i d' = slots_used i d + 1"
proof -
  from assms(1) obtain n limit t d1 where n: "claimable_node i v ProtocolTK2SD d = Some n"
    and lim: "admitted_capacity i (min cap (mn_max_concurrency n)) adm d = Inr limit" "int (slots_used i d) < limit"
    and t: "next_remote e n d = Inr t"
    and d1: "d1 = video_tasks_update (update_where (claimed_by t) (slot_taken (nowUnix e) n ProtocolTK2SD (vt_model t))) d"
    and fresh: "\<forall>x \<in> set (task_remote_runs d). rr_task_id x \<noteq> vt_task_id t \<and> rr_submission_key x \<noteq> submission_key d (vt_task_id t)"
    and reb: "rebalance e (nowUnix e) (task_remote_runs_update (\<lambda>rows. rows @ [new_run (vt_task_id t) i (submission_key d (vt_task_id t)) (nowUnix e)]) d1)
       = (Inr (), d')"
    by (rule ClaimNextRemote_success)
  let ?t = "slot_taken (nowUnix e) n ProtocolTK2SD (vt_model t)"
  let ?r = "new_run (vt_task_id t) i (submission_key d (vt_task_id t)) (nowUnix e)"
  let ?d2 = "task_remote_runs_update (\<lambda>rows. rows @ [?r]) d1"
  note node = claimable_nodeD [OF n] and task = next_remoteD [OF t]
  have waiting: "vt_deleted_at t = None" "\<not> vt_upstream_slot_active t" "queued (vt_status t)"
    and tk: "vt_protocol_version t = Some ProtocolTK2SD"
    using task(2) unfolding remote_waiting_def by blast+
  have room: "int (slots_used (mn_id n) d) < mn_max_concurrency n"
    using lim admitted_capacity_le [OF lim(1)] node(2) by simp
  have sel: "claimed_by t x \<longleftrightarrow> vt_task_id x = vt_task_id t \<and> queued (vt_status x)" for x by (simp add: claimed_by_def)
  note taken = slot_taken_inv [OF assms(2) node(1) task(1) waiting room sel d1]
  have "holds_slot ?r (?t t)" using waiting(1) tk node(2) by (simp add: holds_slot_def new_run_def)
  moreover have "\<forall>x \<in> set (task_remote_runs d1). rr_task_id x \<noteq> rr_task_id ?r" using fresh by (simp add: d1 new_run_def)
  ultimately have "remote_inv ?d2" using inv_insert_run [OF taken(1)] taken(3) by blast
  then show "remote_inv d'" using keepsD [OF slots_rebalance reb] by (simp add: slots_safe_def)
  show "slots_used i d' = slots_used i d + 1"
    using rebalance_slots [OF reb, of i] taken(2) node(2) by (simp add: slots_used_def)
qed

lemma upload_or_callback_frame:
  assumes "upload_or_callback e i c d = (r, d')"
  shows "video_tasks d' = video_tasks d" "task_remote_runs d' = task_remote_runs d" "model_service_nodes d' = model_service_nodes d"
    "result_upload_jobs d' = result_upload_jobs d \<or> callback_deliveries d' = callback_deliveries d"
proof -
  consider "\<exists>f. d' = callback_deliveries_update f d" | "\<exists>f. d' = result_upload_jobs_update f d" | "d' = d"
    using assms unfolding upload_or_callback_def insert_upload_def
    by (auto simp: and_then_ensure and_then_ensuring dest!: callback_frame split: option.splits UpStatus.splits if_splits)
  then show "video_tasks d' = video_tasks d" "task_remote_runs d' = task_remote_runs d" "model_service_nodes d' = model_service_nodes d"
    "result_upload_jobs d' = result_upload_jobs d \<or> callback_deliveries d' = callback_deliveries d"
    by (cases; auto)+
qed

definition finishing :: "StoreEnv \<Rightarrow> RunLease \<Rightarrow> remote_run \<Rightarrow> bool" where
  "finishing e r x \<longleftrightarrow> leased_by e r x \<and> rr_phase x \<noteq> RemoteTerminal"

definition finishing_task :: "RunLease \<Rightarrow> video_task \<Rightarrow> bool" where
  "finishing_task r t \<longleftrightarrow> vt_task_id t = rl_TaskID r \<and> vt_upstream_id t = Some (rl_NodeID r)
     \<and> vt_upstream_slot_active t \<and> vt_deleted_at t = None \<and> active (vt_status t)"

lemma CompleteRemoteRun_success:
  assumes "CompleteRemoteRun e r c d = (Inr u, d')"
  obtains d1 d2 where "co_status c \<in> {UpSucceeded, UpFailed, UpCancelled}" "co_status c = UpSucceeded \<longrightarrow> co_result_url c \<noteq> []"
    "affected (finishing e r) (task_remote_runs d) = 1" "affected (finishing_task r) (video_tasks d) = 1"
    "d1 = task_remote_runs_update (update_where (finishing e r) (finished_run e c)) d"
    "d2 = video_tasks_update (update_where (finishing_task r) (remote_result e c)) d1"
    "upload_or_callback e (rl_TaskID r) c d2 = (Inr u, d')"
  using assms unfolding CompleteRemoteRun_def atomically_success_iff
  by (auto simp: tx_success finishing_def [abs_def] finishing_task_def [abs_def])

lemma finished_run_simps [simp]:
  "rr_task_id (finished_run e c x) = rr_task_id x" "rr_node_id (finished_run e c x) = rr_node_id x"
  "rr_phase (finished_run e c x) = RemoteTerminal" "rr_upstream_status (finished_run e c x) = Some (co_status c)"
  "rr_lease_token (finished_run e c x) = None" "rr_cancel_state (finished_run e c x) \<noteq> CancelRequested"
  by (simp_all add: finished_run_def)

lemma remote_result_simps [simp]:
  "vt_task_id (remote_result e c t) = vt_task_id t" "\<not> vt_upstream_slot_active (remote_result e c t)"
  "vt_deleted_at (remote_result e c t) = vt_deleted_at t" "vt_upstream_id (remote_result e c t) = vt_upstream_id t"
  "vt_status (remote_result e c t) = (if uploads c then StatusReconciling else finished_status (co_status c))"
  by (simp_all add: remote_result_def)

lemma finished_terminal:
  assumes "distinct (map rr_task_id (task_remote_runs d))" and "affected (finishing e r) (task_remote_runs d) = 1"
    and "x \<in> set (update_where (finishing e r) (finished_run e c) (task_remote_runs d))" and "rr_task_id x = rl_TaskID r"
  shows "rr_phase x = RemoteTerminal \<and> rr_lease_token x = None \<and> rr_upstream_status x = Some (co_status c)"
proof -
  from affected_one_ex [OF assms(2)] obtain y where y: "y \<in> set (task_remote_runs d)" "finishing e r y" by blast
  from assms(3) obtain z where z: "z \<in> set (task_remote_runs d)" "x = (if finishing e r z then finished_run e c z else z)"
    unfolding in_update_where by blast
  have "rr_task_id z = rr_task_id y" using z(2) assms(4) y(2) by (simp add: finishing_def leased_by_def split: if_splits)
  then have "z = y" by (rule key_unique [OF assms(1) z(1) y(1)])
  then show ?thesis using z(2) y(2) by simp
qed

lemma CompleteRemoteRun_inv:
  assumes "CompleteRemoteRun e r c d = (Inr u, d')" and inv: "remote_inv d"
  shows "remote_inv d'" and "slots_used (rl_NodeID r) d' + 1 = slots_used (rl_NodeID r) d"
proof -
  from assms(1) obtain d1 d2 where one: "affected (finishing e r) (task_remote_runs d) = 1" "affected (finishing_task r) (video_tasks d) = 1"
    and d1: "d1 = task_remote_runs_update (update_where (finishing e r) (finished_run e c)) d"
    and d2: "d2 = video_tasks_update (update_where (finishing_task r) (remote_result e c)) d1"
    and out: "upload_or_callback e (rl_TaskID r) c d2 = (Inr u, d')" by (rule CompleteRemoteRun_success)
  note frame = upload_or_callback_frame [OF out]
  have ids: "distinct (map vt_task_id (video_tasks d))" "distinct (map rr_task_id (task_remote_runs d))" using inv by (simp_all add: remote_inv_def)
  have d1_inv: "remote_inv d1"
    using slots_run_update [of "finished_run e c" "finishing e r" d] inv by (simp add: slots_safe_def d1)
  have free: "\<exists>t \<in> set (video_tasks d2). holds_slot x t" if x: "x \<in> set (task_remote_runs d2)" "rr_phase x \<noteq> RemoteTerminal" for x
  proof -
    have x1: "x \<in> set (task_remote_runs d1)" using x(1) by (simp add: d2)
    then have "rr_task_id x \<noteq> rl_TaskID r" using finished_terminal [OF ids(2) one(1), of x c] x(2) by (auto simp: d1)
    moreover from d1_inv x1 x(2) obtain t where t: "t \<in> set (video_tasks d1)" "holds_slot x t" by (auto simp: remote_inv_def)
    ultimately have "\<not> finishing_task r t" by (auto simp: finishing_task_def holds_slot_def)
    with t show ?thesis by (auto simp: d2 set_update_where)
  qed
  have le: "slots_used i d2 \<le> slots_used i d1" for i unfolding d2 by (rule slots_used_le) simp
  have "within_capacity d2" using d1_inv le unfolding remote_inv_def within_capacity_def
    by (simp add: d2 d1) (meson of_nat_mono order_trans)
  then have "remote_inv d2" using d1_inv free by (simp add: remote_inv_def d2 distinct_update_where)
  then show "remote_inv d'" using slots_frame [OF frame(1-3)] by (simp add: slots_safe_def)
  let ?q = "\<lambda>t. vt_upstream_id t = Some (rl_NodeID r) \<and> vt_upstream_slot_active t"
  have drop: "affected ?q (update_where (finishing_task r) (remote_result e c) rows) + affected (finishing_task r) rows = affected ?q rows"
    for rows by (induction rows) (auto simp: finishing_task_def)
  show "slots_used (rl_NodeID r) d' + 1 = slots_used (rl_NodeID r) d"
    using drop [of "video_tasks d"] one(2) by (simp add: slots_used_def frame(1) d2 d1)
qed

lemma remote_step_inv: "remote_step d d' \<Longrightarrow> slots_safe d d'"
proof (induction rule: remote_step.induct)
  case (claim e n v cap adm d x d')
  show ?case
  proof (cases x)
    case (Inl er)
    then have "d' = d" using claim by (auto simp: ClaimNextRemote_def dest: atomically_failure)
    then show ?thesis by (simp add: slot_safety.refl)
  qed (use claim ClaimNextRemote_inv(1) in \<open>simp add: slots_safe_def\<close>)
next
  case (finish e r c d z d')
  show ?case
  proof (cases z)
    case (Inl er)
    then have "d' = d" using finish by (auto simp: CompleteRemoteRun_def dest: atomically_failure)
    then show ?thesis by (simp add: slot_safety.refl)
  qed (use finish CompleteRemoteRun_inv(1) in \<open>simp add: slots_safe_def\<close>)
qed (erule keepsD [rotated], rule slot_keeps)+

lemma find_sorted_least:
  assumes "find p (sort_key k xs) = Some x" and "y \<in> set xs" and "p y"
  shows "k x \<le> (k y :: int)"
proof -
  have "find p ys = Some x \<Longrightarrow> sorted (map k ys) \<Longrightarrow> y \<in> set ys \<Longrightarrow> k x \<le> k y" for ys
    using assms(3) by (induction ys) (auto split: if_splits)
  from this [OF assms(1)] assms(2) show ?thesis by simp
qed

lemma next_remote_first:
  assumes "next_remote e n d = Inr t" and "u \<in> set (video_tasks d)"
    and "remote_waiting d (mn_id n) (remote_fingerprint e n) (nowUnix e) u" and "remote_accepted d (mn_id n) u"
  shows "vt_queue_seq t \<le> vt_queue_seq u"
proof (rule find_sorted_least [where p = "remote_accepted d (mn_id n)"])
  show "find (remote_accepted d (mn_id n)) (sort_key vt_queue_seq
      (filter (remote_waiting d (mn_id n) (remote_fingerprint e n) (nowUnix e)) (video_tasks d))) = Some t"
    using assms(1) unfolding next_remote_def by (simp split: option.splits if_splits)
qed (use assms in simp_all)

lemma admitted_capacity_report:
  "admitted_capacity i cap [s] d = Inr limit \<Longrightarrow>
     ad_can_dispatch s \<and> ad_queued s \<le> 0 \<and> limit \<le> ad_capacity s - ad_occupied s - ad_cooling s + int (overlap i s d)"
  by (auto simp: admission_closed_def split: if_splits)

text \<open>A remote claim takes the oldest waiting task whose requirements the node's model accepts, takes exactly
  one slot of the enabled node, stays within the configured, the requested and the reported capacity
  (a task both sides count is counted once), and opens a run for it that has submitted nothing yet
  under a key no other run has.\<close>

theorem ClaimNextRemote_sound:
  assumes "ClaimNextRemote e i v cap adm d = (Inr task, d')" and "remote_inv d"
  shows "\<exists>n \<in> set (model_service_nodes d). \<exists>t \<in> set (video_tasks d). \<exists>r \<in> set (task_remote_runs d').
      mn_id n = i \<and> mn_version n = v \<and> mn_enabled n \<and> mn_deleted_at n = None
    \<and> remote_waiting d i (remote_fingerprint e n) (nowUnix e) t \<and> remote_accepted d i t
    \<and> (\<forall>u \<in> set (video_tasks d). remote_waiting d i (remote_fingerprint e n) (nowUnix e) u \<and> remote_accepted d i u
         \<longrightarrow> vt_queue_seq t \<le> vt_queue_seq u)
    \<and> slots_used i d' = slots_used i d + 1 \<and> int (slots_used i d') \<le> min cap (mn_max_concurrency n)
    \<and> (\<forall>s. adm = [s] \<longrightarrow> int (slots_used i d') \<le> ad_capacity s - ad_occupied s - ad_cooling s + int (overlap i s d))
    \<and> r = new_run (vt_task_id t) i (submission_key d (vt_task_id t)) (nowUnix e)
    \<and> (\<forall>x \<in> set (task_remote_runs d). rr_task_id x \<noteq> rr_task_id r \<and> rr_submission_key x \<noteq> rr_submission_key r)
    \<and> holds_slot r (tk_row task)"
proof -
  from assms(1) obtain n limit t d1 where n: "claimable_node i v ProtocolTK2SD d = Some n"
    and lim: "admitted_capacity i (min cap (mn_max_concurrency n)) adm d = Inr limit" "int (slots_used i d) < limit"
    and t: "next_remote e n d = Inr t"
    and d1: "d1 = video_tasks_update (update_where (claimed_by t) (slot_taken (nowUnix e) n ProtocolTK2SD (vt_model t))) d"
    and fresh: "\<forall>x \<in> set (task_remote_runs d). rr_task_id x \<noteq> vt_task_id t \<and> rr_submission_key x \<noteq> submission_key d (vt_task_id t)"
    and reb: "rebalance e (nowUnix e) (task_remote_runs_update (\<lambda>rows. rows @ [new_run (vt_task_id t) i (submission_key d (vt_task_id t)) (nowUnix e)]) d1)
       = (Inr (), d')"
    and got: "getWith (vt_api_key_id t) (vt_task_id t) (nowUnix e) d' = Inr task"
    by (rule ClaimNextRemote_success)
  let ?r = "new_run (vt_task_id t) i (submission_key d (vt_task_id t)) (nowUnix e)"
  note node = claimable_nodeD [OF n] and queue = next_remoteD [OF t, unfolded node(2)] next_remote_first [OF t, unfolded node(2)]
  note slots = ClaimNextRemote_inv [OF assms]
  have r: "?r \<in> set (task_remote_runs d')" using reb by (auto simp: rebalance_apply)
  have "rr_phase ?r \<noteq> RemoteTerminal" by (simp add: new_run_def)
  then obtain x where x: "x \<in> set (video_tasks d')" "holds_slot ?r x" using slots(1) r by (auto simp: remote_inv_def)
  from getWith_Inr [OF got] have row: "tk_row task \<in> set (video_tasks d')" "vt_task_id (tk_row task) = vt_task_id t" by auto
  have "distinct (map vt_task_id (video_tasks d'))" using slots(1) by (simp add: remote_inv_def)
  then have "tk_row task = x" by (rule key_unique [OF _ row(1) x(1)]) (use row(2) x(2) in \<open>simp add: holds_slot_def new_run_def\<close>)
  then have "holds_slot ?r (tk_row task)" using x(2) by simp
  moreover have "int (slots_used i d') \<le> min cap (mn_max_concurrency n)"
    using slots(2) lim admitted_capacity_le [OF lim(1)] by simp
  moreover have "int (slots_used i d') \<le> ad_capacity s - ad_occupied s - ad_cooling s + int (overlap i s d)" if "adm = [s]" for s
    using admitted_capacity_report lim that slots(2) by force
  ultimately show ?thesis using node queue slots(2) fresh
    by (intro bexI [OF _ node(1)] bexI [OF _ queue(1)] bexI [OF _ r]) (simp add: new_run_def)
qed

section \<open>Leases are fences\<close>

definition run_holder :: "string \<Rightarrow> db \<Rightarrow> string option" where
  "run_holder i d = (case run_of d i of None \<Rightarrow> None | Some r \<Rightarrow> rr_lease_token r)"

abbreviation runs_keyed :: "db \<Rightarrow> bool" where
  "runs_keyed d \<equiv> distinct (map rr_task_id (task_remote_runs d))"

lemma run_of_key: "runs_keyed d \<Longrightarrow> x \<in> set (task_remote_runs d) \<Longrightarrow> run_of d (rr_task_id x) = Some x"
  unfolding run_of_def by (rule select_where_key [where k = rr_task_id]) auto

lemma run_holderI:
  assumes "runs_keyed d" and "x \<in> set (task_remote_runs d)" and "leased_by e r x"
  shows "run_holder (rl_TaskID r) d = Some (rl_LeaseToken r)"
  using run_of_key [OF assms(1,2)] assms(3) by (simp add: leased_by_def run_holder_def)

definition lease_of :: "string \<Rightarrow> string \<Rightarrow> string \<Rightarrow> RunLease" where
  "lease_of i n tok = \<lparr>rl_TaskID = i, rl_NodeID = n, rl_LeaseToken = tok\<rparr>"

lemma lease_of_simps [simp]: "rl_TaskID (lease_of i n tok) = i" "rl_NodeID (lease_of i n tok) = n" "rl_LeaseToken (lease_of i n tok) = tok"
  by (simp_all add: lease_of_def)

text \<open>A statement on the runs whose WHERE clause includes the lease.\<close>

lemma leased_hit:
  assumes "runs_keyed d" and "affected (\<lambda>x. leased_by e (lease_of i n tok) x \<and> P x) (task_remote_runs d) = Suc 0"
  shows "run_holder i d = Some tok"
proof -
  from affected_one_ex [of _ "task_remote_runs d"] assms(2) obtain x where "x \<in> set (task_remote_runs d)"
    "leased_by e (lease_of i n tok) x" by (metis (no_types, lifting) One_nat_def)
  from run_holderI [OF assms(1) this] show ?thesis by simp
qed

lemma leased_miss:
  assumes "runs_keyed d" and "update_one_run (\<lambda>x. leased_by e (lease_of i n tok) x \<and> P x) f d = (Inl er, d')"
  shows "d' = d"
  by (rule run_table.exec_one_rejected(1) [OF _ _ assms(2), where v = i])
    (use assms(1) in \<open>auto simp: run_table.keyed_def leased_by_def\<close>)

interpretation renewing: atomic_leased_op runs_keyed "run_holder i" "\<lambda>tok. RenewRemoteLease e (lease_of i n tok) ttl" for e i n ttl
  by unfold_locales (auto simp: RenewRemoteLease_def tx_success and_then_ensure split: if_splits dest: leased_hit leased_miss)

interpretation releasing: atomic_leased_op runs_keyed "run_holder i"
  "\<lambda>tok. ReleaseRemoteLease e (lease_of i n tok) poll code rec" for e i n poll code rec
  by unfold_locales (auto simp: ReleaseRemoteLease_def tx_success dest: leased_hit leased_miss)

interpretation preparing: atomic_leased_op runs_keyed "run_holder i"
  "\<lambda>tok. PrepareRemoteRequest e (lease_of i n tok) body" for e i n body
  by unfold_locales (auto simp: PrepareRemoteRequest_def tx_success and_then_ensure split: if_splits dest: leased_hit leased_miss)

interpretation submitting: atomic_leased_op runs_keyed "run_holder i"
  "\<lambda>tok. BeginRemoteSubmission e (lease_of i n tok)" for e i n
  by unfold_locales (auto simp: BeginRemoteSubmission_def tx_success dest: leased_hit leased_miss)

interpretation accepting: atomic_leased_op runs_keyed "run_holder i" "\<lambda>tok. BindRemoteTask e (lease_of i n tok) up" for e i n up
  by unfold_locales (auto simp: BindRemoteTask_def Let_def tx_success dest: leased_hit atomically_failure)

interpretation observing: atomic_leased_op runs_keyed "run_holder i" "\<lambda>tok. ObserveRemoteTask e (lease_of i n tok) st c" for e i n st c
  by unfold_locales (auto simp: ObserveRemoteTask_def Let_def tx_success dest: leased_hit atomically_failure)

lemma SaveRemoteAsset_stale:
  assumes "runs_keyed d" and "run_holder i d \<noteq> Some tok"
  shows "SaveRemoteAsset e (lease_of i n tok) a d = (Inl ErrStateConflict, d)"
  using run_holderI [OF assms(1), of _ e "lease_of i n tok"] assms(2)
  by (auto simp: SaveRemoteAsset_def Let_def and_then_ensure and_then_ensuring)

interpretation completing: atomic_leased_op runs_keyed "run_holder i" "\<lambda>tok. CompleteRemoteRun e (lease_of i n tok) c" for e i n c
  by unfold_locales (auto simp: CompleteRemoteRun_def tx_success dest: leased_hit atomically_failure)

definition acquired :: "StoreEnv \<Rightarrow> string \<Rightarrow> int \<Rightarrow> remote_run \<Rightarrow> remote_run" where
  "acquired e tok ttl x =
     x\<lparr>rr_lease_token := Some tok, rr_lease_expires_at := Some (nowUnix e + ttl div second), rr_updated_at := nowUnix e\<rparr>"

lemma acquired_holder:
  assumes "AcquireRemoteLease e i n tok ttl d = (Inr r, d')" and "runs_keyed d"
  shows "runs_keyed d'" and "run_holder i d' = Some tok" and "rr_task_id r = i" and "rr_node_id r = n"
proof -
  obtain p where d': "d' = task_remote_runs_update (update_where p (acquired e tok ttl)) d" "affected p (task_remote_runs d) = 1"
    and p: "\<And>x. p x \<Longrightarrow> rr_task_id x = i \<and> rr_node_id x = n" and got: "run_of d' i = Some r"
    using assms(1) unfolding AcquireRemoteLease_def Let_def atomically_success_iff
    by (auto simp: tx_success GetRemoteRun_def acquired_def [abs_def] split: option.splits)
  show keyed: "runs_keyed d'" using assms(2) by (simp add: d' distinct_update_where acquired_def)
  from affected_one_ex [OF d'(2)] obtain x where x: "x \<in> set (task_remote_runs d)" "p x" by blast
  have "acquired e tok ttl x \<in> set (task_remote_runs d')" using x by (auto simp: d'(1) set_update_where)
  from run_of_key [OF keyed this] have "r = acquired e tok ttl x" using got p [OF x(2)] by (simp add: acquired_def)
  then show "run_holder i d' = Some tok" "rr_task_id r = i" "rr_node_id r = n"
    using got p [OF x(2)] by (simp_all add: run_holder_def acquired_def)
qed

text \<open>C9: Once a worker has acquired the lease of a run, a worker with any other token can do nothing to it: each of
  its renewals, releases, preparations, submissions, bindings, observations and completions is
  refused and leaves the database as it was.\<close>

theorem AcquireRemoteLease_fences:
  assumes "AcquireRemoteLease e i n tok ttl d = (Inr r, d')" and "distinct (map rr_task_id (task_remote_runs d))"
    and "rl_LeaseToken old \<noteq> tok" and "rl_TaskID old = i"
  shows "(\<exists>er. RenewRemoteLease e' old ttl' d' = (Inl er, d'))
    \<and> (\<exists>er. ReleaseRemoteLease e' old poll code rec d' = (Inl er, d'))
    \<and> (\<exists>er. PrepareRemoteRequest e' old body d' = (Inl er, d'))
    \<and> (\<exists>er. BeginRemoteSubmission e' old d' = (Inl er, d'))
    \<and> (\<exists>er. BindRemoteTask e' old up d' = (Inl er, d'))
    \<and> (\<exists>er. ObserveRemoteTask e' old st cs d' = (Inl er, d'))
    \<and> (\<exists>er. SaveRemoteAsset e' old a d' = (Inl er, d'))
    \<and> (\<exists>er. CompleteRemoteRun e' old c d' = (Inl er, d'))"
proof -
  note held = acquired_holder [OF assms(1,2)]
  have stale: "run_holder i d' \<noteq> Some (rl_LeaseToken old)" using held(2) assms(3) by simp
  have old: "old = lease_of i (rl_NodeID old) (rl_LeaseToken old)" using assms(4) by (cases old) (simp add: lease_of_def)
  note fence = held(1) stale
  show ?thesis
    using renewing.stale_harmless [OF fence, of e' "rl_NodeID old", folded old]
      releasing.stale_harmless [OF fence, of e' "rl_NodeID old", folded old]
      preparing.stale_harmless [OF fence, of e' "rl_NodeID old", folded old]
      submitting.stale_harmless [OF fence, of e' "rl_NodeID old", folded old]
      accepting.stale_harmless [OF fence, of e' "rl_NodeID old", folded old]
      observing.stale_harmless [OF fence, of e' "rl_NodeID old", folded old]
      SaveRemoteAsset_stale [OF fence, of e' "rl_NodeID old", folded old]
      completing.stale_harmless [OF fence, of e' "rl_NodeID old", folded old]
    by simp
qed

text \<open>Completing a run is final: the run becomes terminal and its lease is gone, the node's slot is freed, the
  task is finished (or waits for exactly one upload of its result), and a callback is only queued
  when no upload is pending; nobody can complete the run a second time.\<close>

theorem CompleteRemoteRun_final:
  assumes "CompleteRemoteRun e r c d = (Inr (), d')" and "remote_inv d"
  shows "slots_used (rl_NodeID r) d' + 1 = slots_used (rl_NodeID r) d
    \<and> (\<forall>x \<in> set (task_remote_runs d'). rr_task_id x = rl_TaskID r \<longrightarrow>
         rr_phase x = RemoteTerminal \<and> rr_lease_token x = None \<and> rr_upstream_status x = Some (co_status c))
    \<and> (\<exists>t \<in> set (video_tasks d'). vt_task_id t = rl_TaskID r \<and> \<not> vt_upstream_slot_active t
         \<and> vt_status t = (if uploads c then StatusReconciling else finished_status (co_status c)))
    \<and> (uploads c \<longrightarrow> callback_deliveries d' = callback_deliveries d
         \<and> (\<exists>j. result_upload_jobs d' = result_upload_jobs d @ [j] \<and> ru_task_id j = rl_TaskID r \<and> ru_status j = UploadPending))
    \<and> (\<not> uploads c \<longrightarrow> result_upload_jobs d' = result_upload_jobs d)
    \<and> (\<exists>er. CompleteRemoteRun e' (r\<lparr>rl_LeaseToken := tok\<rparr>) c' d' = (Inl er, d'))"
proof -
  from assms(1) obtain d1 d2 where one: "affected (finishing e r) (task_remote_runs d) = 1" "affected (finishing_task r) (video_tasks d) = 1"
    and d1: "d1 = task_remote_runs_update (update_where (finishing e r) (finished_run e c)) d"
    and d2: "d2 = video_tasks_update (update_where (finishing_task r) (remote_result e c)) d1"
    and out: "upload_or_callback e (rl_TaskID r) c d2 = (Inr (), d')" by (rule CompleteRemoteRun_success)
  note frame = upload_or_callback_frame [OF out]
  have keyed: "runs_keyed d" using assms(2) by (simp add: remote_inv_def)
  have final: "rr_phase x = RemoteTerminal \<and> rr_lease_token x = None \<and> rr_upstream_status x = Some (co_status c)"
    if "x \<in> set (task_remote_runs d')" "rr_task_id x = rl_TaskID r" for x
    using finished_terminal [OF keyed one(1), of x c] that by (simp add: frame(2) d2 d1)
  from affected_one_ex [OF one(2)] obtain t where "t \<in> set (video_tasks d)" "finishing_task r t" by blast
  then have "remote_result e c t \<in> set (video_tasks d')" "vt_task_id t = rl_TaskID r"
    by (auto simp: frame(1) d2 d1 set_update_where finishing_task_def)
  then have task: "\<exists>t \<in> set (video_tasks d'). vt_task_id t = rl_TaskID r \<and> \<not> vt_upstream_slot_active t
         \<and> vt_status t = (if uploads c then StatusReconciling else finished_status (co_status c))" by (metis remote_result_simps(1,2,5))
  have up: "callback_deliveries d' = callback_deliveries d
         \<and> (\<exists>j. result_upload_jobs d' = result_upload_jobs d @ [j] \<and> ru_task_id j = rl_TaskID r \<and> ru_status j = UploadPending)"
    if "uploads c"
    using out that unfolding upload_or_callback_def insert_upload_def uploads_def
    by (auto simp: tx_success d2 d1 new_upload_def split: option.splits)
  have down: "result_upload_jobs d' = result_upload_jobs d" if "\<not> uploads c"
    using out that unfolding upload_or_callback_def uploads_def
    by (auto simp: d2 d1 split: option.splits UpStatus.splits dest!: callback_frame)
  have "run_holder (rl_TaskID r) d' \<noteq> Some tok"
    using final by (auto simp: run_holder_def run_of_def split: option.splits dest!: select_where_Some)
  moreover have "runs_keyed d'" using CompleteRemoteRun_inv(1) [OF assms] by (simp add: remote_inv_def)
  moreover have "r\<lparr>rl_LeaseToken := tok\<rparr> = lease_of (rl_TaskID r) (rl_NodeID r) tok" by (cases r) (simp add: lease_of_def)
  ultimately have "\<exists>er. CompleteRemoteRun e' (r\<lparr>rl_LeaseToken := tok\<rparr>) c' d' = (Inl er, d')"
    using completing.stale_harmless by metis
  with CompleteRemoteRun_inv(2) [OF assms] final task up down show ?thesis by blast
qed

section \<open>Concrete runs\<close>

lemma sample_next_remote: "next_remote sample_env sample_node sample_queue_db = Inr (sample_task ''a'' 1)"
  by (simp add: next_remote_def remote_waiting_def remote_accepted_def served_model_def remote_fingerprint_def queue_eval
      sample_queue_defs)

lemma sample_claim_remote:
  "\<exists>t d'. ClaimNextRemote sample_env ''n1'' 1 2 [] sample_queue_db = (Inr t, d')"
proof -
  have node: "claimable_node ''n1'' 1 ProtocolTK2SD sample_queue_db = Some sample_node"
    by (simp add: claimable_node_def protocol_defs sample_queue_defs)
  show ?thesis
    by (simp add: ClaimNextRemote_def require_node_def node sample_next_remote and_then_exec_one and_then_ensuring
        atomically_def Let_def)
      (simp add: insert_run_def and_then_def rebalance_apply slots_used_def key_ok_def submission_key_def new_run_def
        slot_taken_def touched_def getWith_def text_eval sample_queue_defs nowUnix_def rebalance_row_def contains_char_def)
qed

text \<open>A run in the middle of its submission.\<close>

definition sample_run :: remote_run where
  "sample_run = (new_run ''a'' ''n1'' ''key'' 0)\<lparr>rr_phase := RemoteSubmitIntent, rr_request_body := Some ''{}'',
     rr_submit_attempts := 1, rr_lease_token := Some ''tok'', rr_lease_expires_at := Some 2000\<rparr>"

definition sample_remote_db :: db where
  "sample_remote_db = sample_catalog_db\<lparr>
     video_tasks := [(sample_task ''a'' 1)\<lparr>vt_status := StatusDispatching, vt_upstream_id := Some ''n1'', vt_upstream_slot_active := True\<rparr>],
     task_remote_runs := [sample_run]\<rparr>"

definition sample_lease :: RunLease where
  "sample_lease = lease_of ''a'' ''n1'' ''tok''"

definition sample_completion :: RemoteCompletion where
  "sample_completion = \<lparr>co_status = UpFailed, co_result_url = [], co_result_expires_at = 0, co_metadata_json = [],
     co_metadata_status = [], co_ratio = [], co_error_code = ''failed'', co_error_message = ''failed'', co_feedback = None,
     co_upload_job = None\<rparr>"

lemmas sample_remote_defs = sample_run_def sample_remote_db_def sample_lease_def sample_completion_def new_run_def sample_queue_defs

lemma sample_remote_inv: "remote_inv sample_remote_db" "list_all run_ok (task_remote_runs sample_remote_db)"
  "remote_inv sample_queue_db"
  by (simp_all add: remote_inv_def within_capacity_def slots_used_def holds_slot_def run_ok_def sample_remote_defs)

lemma sample_complete: "\<exists>d'. CompleteRemoteRun sample_env sample_lease sample_completion sample_remote_db = (Inr (), d')"
  by (simp add: CompleteRemoteRun_def upload_or_callback_def createCallbackDeliveryWithConn_def finished_word_def leased_by_def
      lease_of_def exec_one_apply and_then_def atomically_def nowUnix_def remote_result_def touched_def uploads_def
      sample_remote_defs)

theorem remote_store_refines_protocol_witness:
  "\<exists>d'. remote_step\<^sup>*\<^sup>* sample_remote_db d' \<and> (\<forall>r' \<in> set (task_remote_runs d'). run_ok r')"
proof -
  from sample_complete obtain d' where "CompleteRemoteRun sample_env sample_lease sample_completion sample_remote_db = (Inr (), d')" ..
  then have steps: "remote_step\<^sup>*\<^sup>* sample_remote_db d'" by (blast intro: remote_step.finish)
  with remote_store_refines_protocol [OF steps sample_remote_inv(2)] show ?thesis by blast
qed

theorem submitted_body_stable_witness:
  "\<exists>d'. remote_step\<^sup>*\<^sup>* sample_remote_db d'
     \<and> (\<forall>r' \<in> set (task_remote_runs d'). rr_task_id r' = ''a'' \<longrightarrow> (\<exists>m \<ge> 1. sent (submission r') = Some (''{}'', m)))"
proof -
  from sample_complete obtain d' where "CompleteRemoteRun sample_env sample_lease sample_completion sample_remote_db = (Inr (), d')" ..
  then have steps: "remote_step\<^sup>*\<^sup>* sample_remote_db d'" by (blast intro: remote_step.finish)
  have h: "runs_keyed sample_remote_db" "sample_run \<in> set (task_remote_runs sample_remote_db)"
    "sent (submission sample_run) = Some (''{}'', 1)" "(1::int) \<ge> 1" "rr_task_id sample_run = ''a''"
    by (simp_all add: submission_def sample_remote_defs)
  from steps submitted_body_stable [OF steps sample_remote_inv(2) h(1-4)] h(5) show ?thesis by metis
qed

theorem ClaimNextRemote_sound_witness:
  "\<exists>t d'. ClaimNextRemote sample_env ''n1'' 1 2 [] sample_queue_db = (Inr t, d')
     \<and> slots_used ''n1'' d' = slots_used ''n1'' sample_queue_db + 1"
proof -
  from sample_claim_remote obtain t d' where run: "ClaimNextRemote sample_env ''n1'' 1 2 [] sample_queue_db = (Inr t, d')" by blast
  with ClaimNextRemote_sound [OF run sample_remote_inv(3)] show ?thesis by blast
qed

theorem AcquireRemoteLease_fences_witness:
  "\<exists>r d' er. AcquireRemoteLease (sample_env\<lparr>nowMillis := 3000000\<rparr>) ''a'' ''n1'' ''new'' second sample_remote_db = (Inr r, d')
     \<and> CompleteRemoteRun sample_env sample_lease sample_completion d' = (Inl er, d')"
proof -
  have "\<exists>r d'. AcquireRemoteLease (sample_env\<lparr>nowMillis := 3000000\<rparr>) ''a'' ''n1'' ''new'' second sample_remote_db = (Inr r, d')"
    by (simp add: AcquireRemoteLease_def GetRemoteRun_def run_of_def exec_one_apply and_then_def atomically_def nowUnix_def
        Let_def sample_remote_defs)
  then obtain r d' where run: "AcquireRemoteLease (sample_env\<lparr>nowMillis := 3000000\<rparr>) ''a'' ''n1'' ''new'' second sample_remote_db = (Inr r, d')"
    by blast
  have h: "runs_keyed sample_remote_db" "rl_LeaseToken sample_lease \<noteq> ''new''" "rl_TaskID sample_lease = ''a''"
    by (simp_all add: sample_remote_defs)
  from run AcquireRemoteLease_fences [OF run h] show ?thesis by blast
qed

theorem CompleteRemoteRun_final_witness:
  "\<exists>d'. CompleteRemoteRun sample_env sample_lease sample_completion sample_remote_db = (Inr (), d')
     \<and> (\<exists>t \<in> set (video_tasks d'). vt_status t = StatusFailed)"
proof -
  from sample_complete obtain d' where run: "CompleteRemoteRun sample_env sample_lease sample_completion sample_remote_db = (Inr (), d')" ..
  have "\<not> uploads sample_completion" "finished_status (co_status sample_completion) = StatusFailed"
    by (simp_all add: uploads_def finished_status_def sample_remote_defs)
  with CompleteRemoteRun_final [OF run sample_remote_inv(1)] have "\<exists>t \<in> set (video_tasks d'). vt_status t = StatusFailed" by metis
  with run show ?thesis by blast
qed

end
