(* ===== verification/OfficialStore.thy ===== *)
theory OfficialStore
  imports RemoteStore
begin

text \<open>
  \<^verbatim>\<open>official_task_store.go\<close>: tasks that run on the official API (protocol minimax-v2). They take slots of
  their node like remote tasks, so this theory also shows what both kinds of operations together
  keep of the slots.
\<close>

section \<open>Operations\<close>

definition official_task :: "string \<Rightarrow> string \<Rightarrow> InternalStatus set \<Rightarrow> video_task \<Rightarrow> bool" where
  "official_task i nodeID statuses t \<longleftrightarrow>
     vt_task_id t = i \<and> vt_upstream_id t = Some nodeID \<and> vt_upstream_slot_active t \<and> vt_status t \<in> statuses
     \<and> vt_protocol_version t = Some ProtocolOfficial \<and> vt_route_state t = RouteReady"

definition SaveOfficialSubmissionBaseline :: "StoreEnv \<Rightarrow> string \<Rightarrow> string \<Rightarrow> string list \<Rightarrow> unit op" where
  "SaveOfficialSubmissionBaseline e i nodeID taskIDs =
     update_one_task (official_task i nodeID {StatusDispatching})
       (\<lambda>t. (touched (nowUnix e) t)\<lparr>vt_upstream_jobs_before := Some taskIDs, vt_official_submission_baseline_saved := True\<rparr>)"

definition ListActiveOfficialTasks :: "string \<Rightarrow> Task list op" where
  "ListActiveOfficialTasks nodeID =
     gets (\<lambda>d. map (scanTask d) (sort_key vt_queue_seq (filter (\<lambda>t. vt_upstream_id t = Some nodeID \<and> vt_upstream_slot_active t
        \<and> vt_deleted_at t = None \<and> vt_protocol_version t = Some ProtocolOfficial \<and> vt_route_state t = RouteReady
        \<and> vt_status t \<in> {StatusDispatching, StatusRunning}) (video_tasks d))))"

definition ActiveOfficialCount :: "string \<Rightarrow> nat op" where
  "ActiveOfficialCount nodeID = gets (slots_used nodeID)"

definition ClaimNextOfficial :: "StoreEnv \<Rightarrow> string \<Rightarrow> int \<Rightarrow> int \<Rightarrow> Task op" where
  "ClaimNextOfficial e nodeID nodeVersion capacity = atomically
     (let now = nowUnix e in
      and_then (ensure (capacity \<ge> 1) ErrUpstreamBusy) (\<lambda>_.
      and_then (require_node nodeID nodeVersion ProtocolOfficial) (\<lambda>n.
      and_then (ensuring (\<lambda>d. int (slots_used nodeID d) < min capacity (mn_max_concurrency n)) ErrUpstreamBusy) (\<lambda>_.
      and_then (reading (nextEligibleTask nodeID now)) (\<lambda>selected.
      let t = tk_row selected in
      and_then (update_one_task (\<lambda>x. vt_task_id x = vt_task_id t \<and> vt_status x = vt_status t)
                  (slot_taken now n ProtocolOfficial (if mn_legacy_model_compat n then mn_upstream_model n else vt_model t))) (\<lambda>_.
      and_then (rebalance e now) (\<lambda>_.
      reading (getWith (vt_api_key_id t) (vt_task_id t) now))))))))"

definition BindOfficialTask :: "StoreEnv \<Rightarrow> string \<Rightarrow> string \<Rightarrow> string \<Rightarrow> unit op" where
  "BindOfficialTask e i nodeID upstreamTaskID =
     update_one_task (official_task i nodeID {StatusDispatching})
       (\<lambda>t. (touched (nowUnix e) t)\<lparr>vt_upstream_job_id := Some upstreamTaskID, vt_status := StatusRunning\<rparr>)"

definition generated_row :: "StoreEnv \<Rightarrow> string \<Rightarrow> string \<Rightarrow> bool \<Rightarrow> video_task \<Rightarrow> video_task" where
  "generated_row e originURL ratio upload t =
     (touched (nowUnix e) t)\<lparr>vt_status := (if upload then StatusReconciling else StatusSucceeded),
       vt_result_internal_url := Some originURL,
       vt_result_public_url := nullif_empty (if upload then [] else originURL), vt_ratio_actual := Some ratio,
       vt_usage_total_seconds := vt_duration t, vt_usage_output_seconds := vt_duration t, vt_upstream_slot_active := False,
       vt_finished_at := (if upload then None else Some (nowUnix e))\<rparr>"

definition close_stage :: "int \<Rightarrow> task_stage \<Rightarrow> task_stage" where
  "close_stage now s =
     s\<lparr>ts_status := (if ts_stage_type s = ''generation'' then StageSucceeded else StageSkipped), ts_lease_token := None,
       ts_lease_expires_at := None, ts_next_attempt_at := None, ts_updated_at := now,
       ts_finished_at := keep_or (ts_finished_at s) now, ts_row_version := ts_row_version s + 1\<rparr>"

definition fail_open_stage :: "int \<Rightarrow> string \<Rightarrow> string \<Rightarrow> task_stage \<Rightarrow> task_stage" where
  "fail_open_stage now code message s =
     s\<lparr>ts_status := StageFailed, ts_error_code := Some code, ts_error_message := Some message, ts_lease_token := None,
       ts_lease_expires_at := None, ts_updated_at := now, ts_finished_at := Some now,
       ts_row_version := ts_row_version s + 1\<rparr>"

definition MarkOfficialGenerated ::
  "StoreEnv \<Rightarrow> string \<Rightarrow> string \<Rightarrow> string \<Rightarrow> string \<Rightarrow> ResultUploadJobRef option \<Rightarrow> unit op" where
  "MarkOfficialGenerated e i nodeID originURL ratio uploadJob = atomically
     (let sel = official_task i nodeID {StatusDispatching, StatusRunning} in
      and_then (ensuring (result_url_kept sel originURL) (ErrSQL ''result_internal_url is immutable'')) (\<lambda>_.
      and_then (update_one_task sel (generated_row e originURL ratio (uploadJob \<noteq> None))) (\<lambda>_.
      and_then (update_stages (\<lambda>s. ts_task_id s = i \<and> \<not> stage_done (ts_status s)) (close_stage (nowMillis e))) (\<lambda>_.
      case uploadJob of
        Some j \<Rightarrow> insert_upload (new_upload (uj_id j) i (uj_object_key j) (nowMillis e))
      | None \<Rightarrow> createCallbackDeliveryWithConn e i ''succeeded'' (nowMillis e)))))"

definition official_failed_row :: "StoreEnv \<Rightarrow> string \<Rightarrow> string \<Rightarrow> UpstreamFeedback option \<Rightarrow> video_task \<Rightarrow> video_task" where
  "official_failed_row e code message feedback t =
     (touched (nowUnix e) t)\<lparr>vt_status := StatusFailed, vt_error_code := Some code, vt_error_message := Some message,
       vt_upstream_feedback := feedback, vt_upstream_slot_active := False, vt_finished_at := Some (nowUnix e)\<rparr>"

definition MarkOfficialFailed ::
  "StoreEnv \<Rightarrow> string \<Rightarrow> string \<Rightarrow> string \<Rightarrow> string \<Rightarrow> UpstreamFeedback option \<Rightarrow> unit op" where
  "MarkOfficialFailed e i nodeID code message feedback = atomically
     (and_then (update_one_task (official_task i nodeID {StatusDispatching, StatusRunning})
                  (official_failed_row e code message feedback)) (\<lambda>_.
      and_then (update_stages (\<lambda>s. ts_task_id s = i \<and> \<not> stage_done (ts_status s))
                  (fail_open_stage (nowMillis e) code message)) (\<lambda>_.
      createCallbackDeliveryWithConn e i ''failed'' (nowMillis e))))"

section \<open>Slots of both kinds of node\<close>

lemma slots_tables:
  "slots_safe d (task_stages_update f d)" "slots_safe d (result_upload_jobs_update g d)"
  by (rule slots_frame; simp)+

lemma slots_callback: "keeps slots_safe (createCallbackDeliveryWithConn e i st now)"
  by (rule keepsI) (auto dest!: callback_frame intro: slots_frame)

lemma slots_insert_upload: "keeps slots_safe (insert_upload j)"
  unfolding insert_upload_def by (intro slots_intros slots_tables)

text \<open>Giving up the slot of an official task cannot take it from a remote run.\<close>

lemma slots_official_release:
  assumes "\<And>t. vt_task_id (f t) = vt_task_id t \<and> \<not> vt_upstream_slot_active (f t)"
  shows "slots_safe d (video_tasks_update (update_where (official_task i n S) f) d)"
  unfolding slots_safe_def
proof
  assume inv: "remote_inv d"
  let ?d = "video_tasks_update (update_where (official_task i n S) f) d"
  have "\<exists>t \<in> set (video_tasks ?d). holds_slot r t" if "r \<in> set (task_remote_runs d)" "rr_phase r \<noteq> RemoteTerminal" for r
  proof -
    from inv that obtain t where t: "t \<in> set (video_tasks d)" "holds_slot r t" by (auto simp: remote_inv_def)
    then have "\<not> official_task i n S t" by (auto simp: holds_slot_def official_task_def protocol_defs)
    with t show ?thesis by (auto simp: set_update_where)
  qed
  moreover have "slots_used m ?d \<le> slots_used m d" for m by (rule slots_used_le) (simp add: assms)
  then have "within_capacity ?d" using inv unfolding remote_inv_def within_capacity_def
    by simp (meson of_nat_mono order_trans)
  ultimately show "remote_inv ?d" using inv assms by (simp add: remote_inv_def distinct_update_where)
qed

lemma official_keeps:
  "keeps slots_safe (SaveOfficialSubmissionBaseline e i n ids)" "keeps slots_safe (BindOfficialTask e i n up)"
  "keeps slots_safe (MarkOfficialGenerated e i n u r j)" "keeps slots_safe (MarkOfficialFailed e i n code msg fb)"
  unfolding SaveOfficialSubmissionBaseline_def BindOfficialTask_def MarkOfficialGenerated_def MarkOfficialFailed_def Let_def
  by (intro slots_intros slots_tables slots_callback slots_insert_upload slots_official_release;
      simp add: generated_row_def official_failed_row_def; fail)+

lemma affected_update_one:
  assumes "distinct (map k rows)" and "\<And>r. q r \<Longrightarrow> k r = v"
  shows "affected p (update_where q f rows) \<le> affected p rows + 1"
proof -
  have "affected p (update_where q f rows) \<le> affected p rows + affected q rows" by (induction rows) auto
  with affected_key_le_one [OF assms] show ?thesis by (meson add_left_mono le_trans)
qed

lemma ClaimNextOfficial_success:
  assumes "ClaimNextOfficial e i v cap d = (Inr task, d')"
  obtains n selected m d1 where "claimable_node i v ProtocolOfficial d = Some n"
    "int (slots_used i d) < min cap (mn_max_concurrency n)" "nextEligibleTask i (nowUnix e) d = Inr selected"
    "d1 = video_tasks_update (update_where (\<lambda>x. vt_task_id x = vt_task_id (tk_row selected) \<and> vt_status x = vt_status (tk_row selected))
       (slot_taken (nowUnix e) n ProtocolOfficial m)) d"
    "affected (\<lambda>x. vt_task_id x = vt_task_id (tk_row selected) \<and> vt_status x = vt_status (tk_row selected)) (video_tasks d) = 1"
    "rebalance e (nowUnix e) d1 = (Inr (), d')"
    "getWith (vt_api_key_id (tk_row selected)) (vt_task_id (tk_row selected)) (nowUnix e) d' = Inr task"
  using assms unfolding ClaimNextOfficial_def Let_def atomically_success_iff
  by (auto simp: tx_success require_node_def split: option.splits)

lemma nextEligibleTask_row:
  assumes "nextEligibleTask i now d = Inr task"
  shows "\<exists>t \<in> set (video_tasks d). ready_queued t \<and> task = scanTask d t"
proof -
  from assms obtain x where x: "x \<in> set (map (scanTask d) (ranked d))" "consider_task d i now x = Inr (Some task)"
    unfolding nextEligibleTask_def by (auto split: sum.splits option.splits dest!: paged_scan_hit)
  then obtain t where t: "t \<in> set (ranked d)" "x = scanTask d t" by auto
  from consider_task_hit x(2) have "task = scanTask d t" unfolding t(2) by blast
  with t(1) show ?thesis by (auto simp: ranked_def)
qed

lemma ClaimNextOfficial_inv:
  assumes "ClaimNextOfficial e i v cap d = (Inr task, d')" and inv: "remote_inv d"
  shows "remote_inv d'" and "slots_used i d' \<le> slots_used i d + 1"
proof -
  from assms(1) obtain n selected m d1 where n: "claimable_node i v ProtocolOfficial d = Some n"
    and room: "int (slots_used i d) < min cap (mn_max_concurrency n)" and sel: "nextEligibleTask i (nowUnix e) d = Inr selected"
    and d1: "d1 = video_tasks_update (update_where (\<lambda>x. vt_task_id x = vt_task_id (tk_row selected) \<and> vt_status x = vt_status (tk_row selected))
       (slot_taken (nowUnix e) n ProtocolOfficial m)) d"
    and reb: "rebalance e (nowUnix e) d1 = (Inr (), d')" by (rule ClaimNextOfficial_success)
  let ?p = "\<lambda>x. vt_task_id x = vt_task_id (tk_row selected) \<and> vt_status x = vt_status (tk_row selected)"
  note node = claimable_nodeD [OF n]
  from nextEligibleTask_row [OF sel] have queued: "queued (vt_status (tk_row selected))" by (auto simp: ready_queued_def)
  have ids: "distinct (map vt_task_id (video_tasks d))" using inv by (simp add: remote_inv_def)
  have mine: "slots_used i d1 \<le> slots_used i d + 1" unfolding slots_used_def d1
    by simp (rule affected_update_one [OF ids, where v = "vt_task_id (tk_row selected)", simplified], simp)
  have other: "slots_used j d1 \<le> slots_used j d" if "j \<noteq> i" for j unfolding slots_used_def d1
    using that node(2) by simp (rule affected_update_le, simp)
  have "within_capacity d1" unfolding within_capacity_def
  proof
    fix k assume "k \<in> set (model_service_nodes d1)"
    then have k: "k \<in> set (model_service_nodes d)" by (simp add: d1)
    show "int (slots_used (mn_id k) d1) \<le> mn_max_concurrency k"
    proof (cases "mn_id k = i")
      case True
      then have "k = n" using inv node(2) by (intro key_unique [OF _ k node(1), of mn_id]) (simp_all add: remote_inv_def)
      with mine room True show ?thesis by simp
    next
      case False
      have "int (slots_used (mn_id k) d) \<le> mn_max_concurrency k" using inv k by (simp add: remote_inv_def within_capacity_def)
      with other [OF False] show ?thesis by linarith
    qed
  qed
  moreover have "\<exists>t \<in> set (video_tasks d1). holds_slot r t" if "r \<in> set (task_remote_runs d)" "rr_phase r \<noteq> RemoteTerminal" for r
  proof -
    from inv that obtain t where t: "t \<in> set (video_tasks d)" "holds_slot r t" by (auto simp: remote_inv_def)
    then have "\<not> ?p t" using queued by (auto simp: holds_slot_def)
    with t show ?thesis by (auto simp: d1 set_update_where)
  qed
  ultimately have "remote_inv d1" using inv by (simp add: remote_inv_def d1 distinct_update_where)
  then show "remote_inv d'" using keepsD [OF slots_rebalance reb] by (simp add: slots_safe_def)
  show "slots_used i d' \<le> slots_used i d + 1" using mine rebalance_slots [OF reb, of i] by simp
qed

text \<open>The operations of both stores as the steps of one machine, successful or not.\<close>

inductive slot_step :: "db \<Rightarrow> db \<Rightarrow> bool" where
  remote: "remote_step d d' \<Longrightarrow> slot_step d d'"
| claim: "ClaimNextOfficial e n v cap d = (x, d') \<Longrightarrow> slot_step d d'"
| baseline: "SaveOfficialSubmissionBaseline e i n ids d = (z, d') \<Longrightarrow> slot_step d d'"
| bind: "BindOfficialTask e i n up d = (z, d') \<Longrightarrow> slot_step d d'"
| generated: "MarkOfficialGenerated e i n u r j d = (z, d') \<Longrightarrow> slot_step d d'"
| failed: "MarkOfficialFailed e i n code msg fb d = (z, d') \<Longrightarrow> slot_step d d'"

lemma slot_step_inv: "slot_step d d' \<Longrightarrow> slots_safe d d'"
proof (induction rule: slot_step.induct)
  case (claim e n v cap d x d')
  show ?case
  proof (cases x)
    case (Inl er)
    then have "d' = d" using claim by (auto simp: ClaimNextOfficial_def dest: atomically_failure)
    then show ?thesis by (simp add: slot_safety.refl)
  qed (use claim ClaimNextOfficial_inv(1) in \<open>simp add: slots_safe_def\<close>)
qed (rule remote_step_inv, assumption | erule keepsD [rotated], rule official_keeps)+

text \<open>C4: However the operations on remote and official tasks are interleaved, a node never has more tasks on it than
  its configured concurrency, and every unfinished remote run belongs to exactly one live task,
  which holds a slot of the run's node.\<close>

theorem node_slots_safe:
  assumes "slot_step\<^sup>*\<^sup>* d d'" and "remote_inv d"
  shows "(\<forall>n \<in> set (model_service_nodes d'). int (slots_used (mn_id n) d') \<le> mn_max_concurrency n)
    \<and> (\<forall>r \<in> set (task_remote_runs d'). rr_phase r \<noteq> RemoteTerminal \<longrightarrow> (\<exists>!t. t \<in> set (video_tasks d') \<and> holds_slot r t))"
proof -
  have "slots_safe d d'" by (rule slot_safety.reachable [OF slot_step_inv assms(1)])
  then have inv: "remote_inv d'" using assms(2) by (simp add: slots_safe_def)
  then have keyed: "distinct (map vt_task_id (video_tasks d'))" by (simp add: remote_inv_def)
  have "t = u" if "t \<in> set (video_tasks d')" "u \<in> set (video_tasks d')" "holds_slot r t" "holds_slot r u" for t u r
    by (rule key_unique [OF keyed that(1,2)]) (use that(3,4) in \<open>simp add: holds_slot_def\<close>)
  with inv show ?thesis unfolding remote_inv_def within_capacity_def by blast
qed

theorem node_slots_safe_witness:
  "\<exists>d'. slot_step\<^sup>*\<^sup>* sample_remote_db d'
     \<and> (\<forall>n \<in> set (model_service_nodes d'). int (slots_used (mn_id n) d') \<le> mn_max_concurrency n)"
proof -
  from sample_complete obtain d' where "CompleteRemoteRun sample_env sample_lease sample_completion sample_remote_db = (Inr (), d')" ..
  then have steps: "slot_step\<^sup>*\<^sup>* sample_remote_db d'" by (blast intro: remote_step.finish slot_step.remote)
  with node_slots_safe [OF steps sample_remote_inv(1)] show ?thesis by blast
qed

section \<open>Claims behind an expired task\<close>

lemma ClaimNextOfficial_expired:
  assumes "nextEligibleTask u (nowUnix e) d = Inr selected" and "vt_expires_at (tk_row selected) \<le> nowUnix e"
    and "distinct (map vt_task_id (video_tasks d))"
    and "\<forall>t \<in> set (video_tasks d). 0 < vt_queue_seq t" and "distinct (map vt_queue_seq (video_tasks d))"
  shows "\<exists>er. ClaimNextOfficial e u nv capacity d = (Inl er, d)"
proof (cases "ClaimNextOfficial e u nv capacity d")
  case (Pair r d')
  have "r \<noteq> Inr task" for task
  proof
    assume "r = Inr task"
    with Pair have run: "ClaimNextOfficial e u nv capacity d = (Inr task, d')" by simp
    from run obtain n where "and_then (update_one_task (\<lambda>x. vt_task_id x = vt_task_id (tk_row selected) \<and> vt_status x = vt_status (tk_row selected))
        (slot_taken (nowUnix e) n ProtocolOfficial (if mn_legacy_model_compat n then mn_upstream_model n else vt_model (tk_row selected))))
       (\<lambda>_. and_then (rebalance e (nowUnix e)) (\<lambda>_.
          reading (getWith (vt_api_key_id (tk_row selected)) (vt_task_id (tk_row selected)) (nowUnix e)))) d = (Inr task, d')"
      unfolding ClaimNextOfficial_def atomically_success_iff Let_def require_node_def
      by (auto simp: and_then_ensure and_then_ensuring and_then_reading assms(1) split: if_splits sum.splits option.splits)
    moreover note expired_claim [OF assms, of "slot_taken (nowUnix e) n ProtocolOfficial
      (if mn_legacy_model_compat n then mn_upstream_model n else vt_model (tk_row selected))"]
    ultimately show False by (auto simp: slot_taken_def touched_def)
  qed
  then obtain er where "r = Inl er" by (cases r) auto
  with Pair show ?thesis unfolding ClaimNextOfficial_def by (auto dest: atomically_failure)
qed

text \<open>C27: While the search for a node's next task selects a task whose time to live has passed, no claim for the node succeeds, through
  \<open>ClaimNext\<close>, with or without an expected version of the node, or through \<open>ClaimNextOfficial\<close>: the claim reads the task back with a query
  that skips expired tasks and is rolled back, so nothing changes. For an idle node with a current version the error is that the task is not found.\<close>

theorem expired_head_blocks_claims:
  assumes "nextEligibleTask u (nowUnix e) d = Inr selected" and "vt_expires_at (tk_row selected) \<le> nowUnix e"
    and "distinct (map vt_task_id (video_tasks d))"
    and "\<forall>t \<in> set (video_tasks d). 0 < vt_queue_seq t" and "distinct (map vt_queue_seq (video_tasks d))"
  shows "(\<exists>er. ClaimNext e u v d = (Inl er, d))
    \<and> (active_on u d = 0 \<and> (case v of None \<Rightarrow> True | Some n \<Rightarrow> node_current u n d) \<longrightarrow> ClaimNext e u v d = (Inl ErrTaskNotFound, d))
    \<and> (\<exists>er. ClaimNextOfficial e u nv capacity d = (Inl er, d))"
  using ClaimNextOfficial_expired [OF assms, of nv capacity] by (simp add: ClaimNext_expired [OF assms])

theorem expired_head_blocks_claims_witness:
  "\<exists>e d er. ClaimNext e ''n1'' None d = (Inl ErrTaskNotFound, d) \<and> ClaimNextOfficial e ''n1'' 1 1 d = (Inl er, d) \<and> length (video_tasks d) = 2"
proof -
  define e where "e = sample_env\<lparr>nowMillis := 2000000\<rparr>"
  define d where "d = sample_queue_db\<lparr>video_tasks := [(sample_task ''a'' 1)\<lparr>vt_expires_at := 1500\<rparr>, sample_task ''b'' 2]\<rparr>"
  let ?t = "(sample_task ''a'' 1)\<lparr>vt_expires_at := 1500\<rparr>"
  have h: "distinct (map vt_queue_seq (video_tasks d))" "\<forall>t \<in> set (video_tasks d). 0 < vt_queue_seq t"
    "distinct (map vt_task_id (video_tasks d))" "active_on ''n1'' d = 0"
    by (simp_all add: d_def sample_queue_defs active_on_def)
  have now: "nowUnix e = 2000" by (simp add: e_def sample_env_def nowUnix_def)
  have sel: "nextEligibleTask ''n1'' (nowUnix e) d = Inr (scanTask d ?t)"
    unfolding now nextEligibleTask_eq [OF h(1,2)] by (simp add: queue_eval sample_queue_defs d_def)
  have "vt_expires_at (tk_row (scanTask d ?t)) \<le> nowUnix e" by (simp add: now tk_row_scanTask)
  from expired_head_blocks_claims [OF sel this h(3,2,1), of None 1 1] h(4) show ?thesis
    by (intro exI [of _ e] exI [of _ d]) (auto simp: d_def)
qed

end
