(* ===== verification/JsonText.thy ===== *)
theory JsonText
  imports GoJSON
begin

text \<open>
  The texts \<open>json.Marshal\<close> writes for strings, integers, arrays and objects, and that the scanner of \<open>json.Valid\<close> accepts
  what is composed from them.
\<close>

fun json_list :: "string list \<Rightarrow> string" where
  "json_list [] = []"
| "json_list [x] = x"
| "json_list (x # xs) = x @ '','' @ json_list xs"

definition json_array :: "string list \<Rightarrow> string" where
  "json_array xs = ''['' @ json_list xs @ '']''"

definition json_member :: "string \<times> string \<Rightarrow> string" where
  "json_member = (\<lambda>(name, value). json_string name @ '':'' @ value)"

definition json_object :: "(string \<times> string) list \<Rightarrow> string" where
  "json_object ms = ''{'' @ json_list (map json_member ms) @ ''}''"

text \<open>A value of at most the given nesting, whatever follows it in a container.\<close>

definition delimits :: "string \<Rightarrow> bool" where
  "delimits t \<longleftrightarrow> t = [] \<or> hd t \<in> {CHR '','', CHR 0x7D, CHR 0x5D}"

definition json_value :: "nat \<Rightarrow> string \<Rightarrow> bool" where
  "json_value k v \<longleftrightarrow> v \<noteq> [] \<and> (\<forall>n depth t. k \<le> depth \<longrightarrow> 2 * length (v @ t) + 1 \<le> n \<longrightarrow> delimits t \<longrightarrow> json_scan n depth JValue (v @ t) = Some t)
     \<and> json_skip v = v \<and> hd v \<notin> {CHR 0x5D, CHR 0x7D}"

lemma json_skip_char: "\<not> is_json_space c \<Longrightarrow> json_skip (c # t) = c # t"
  by (simp add: json_skip_def)

lemma structural [simp]:
  "json_skip (CHR '','' # t) = CHR '','' # t" "json_skip (CHR 0x7D # t) = CHR 0x7D # t" "json_skip (CHR 0x7B # t) = CHR 0x7B # t"
  "json_skip (CHR 0x5D # t) = CHR 0x5D # t" "json_skip (CHR 0x5B # t) = CHR 0x5B # t" "json_skip (CHR 0x22 # t) = CHR 0x22 # t"
  "json_skip (CHR 0x3A # t) = CHR 0x3A # t" "json_skip [] = []"
  by (simp_all add: json_skip_def is_json_space_def byte_def)

lemma json_string_Cons: "json_string s = CHR 0x22 # tl (json_string s)"
  by (simp add: json_string_def)

lemma json_value_string: "json_value 0 (json_string s)"
proof -
  have "json_scan n depth JValue (json_string s @ t) = Some t" if "1 \<le> n" for n depth t
    using that json_string_tail_json_string [of s t] by (cases n) (simp, subst json_string_Cons, simp)
  moreover have "json_skip (json_string s) = json_string s" "json_string s \<noteq> []" "hd (json_string s) = CHR 0x22"
    by (metis json_string_Cons structural(6)) (simp_all add: json_string_def)
  ultimately show ?thesis by (auto simp: json_value_def)
qed


lemma json_value_scan:
  "json_value k v \<Longrightarrow> k \<le> depth \<Longrightarrow> 2 * length (v @ t) + 1 \<le> n \<Longrightarrow> delimits t \<Longrightarrow> json_scan n depth JValue (v @ t) = Some t"
  by (simp add: json_value_def)

lemma json_value_mono: "json_value k v \<Longrightarrow> k \<le> k' \<Longrightarrow> json_value k' v"
  by (auto simp: json_value_def)

lemma delimits_simps [simp]: "delimits []" "delimits (CHR '','' # t)" "delimits (CHR 0x7D # t)" "delimits (CHR 0x5D # t)"
  by (simp_all add: delimits_def)

lemma json_list_Cons: "xs \<noteq> [] \<Longrightarrow> json_list (x # xs) = x @ CHR '','' # json_list xs"
  by (cases xs) auto

lemma scan_member:
  assumes "json_value k v" and "k \<le> depth" and "2 * length (json_member (name, v) @ c # t) + 1 \<le> n" and "c = CHR '','' \<or> c = CHR 0x7D"
  shows "json_scan (Suc n) depth JMembers (json_member (name, v) @ c # t) = (if c = CHR 0x7D then Some t else json_scan n depth JMembers t)"
proof -
  have name: "json_string_tail (tl (json_string name) @ CHR 0x3A # v @ c # t) = Some (CHR 0x3A # v @ c # t)"
    by (rule json_string_tail_json_string)
  have "json_scan n depth JValue (v @ c # t) = Some (c # t)"
    using assms by (intro json_value_scan [OF assms(1,2)]) (auto simp: json_member_def)
  moreover have "json_skip (json_string name @ x) = CHR 0x22 # tl (json_string name) @ x" for x by (subst (1) json_string_Cons) simp
  ultimately show ?thesis using name assms(4) unfolding json_member_def by (auto simp del: json_scan.simps(2,3))
qed

lemma scan_members:
  assumes "ms \<noteq> []" and "\<And>m. m \<in> set ms \<Longrightarrow> json_value k (snd m)" and "k \<le> depth"
    and "2 * length (json_list (map json_member ms) @ CHR 0x7D # t) + 2 \<le> n"
  shows "json_scan n depth JMembers (json_list (map json_member ms) @ CHR 0x7D # t) = Some t"
  using assms
proof (induction ms arbitrary: n)
  case (Cons m ms)
  obtain name v where m: "m = (name, v)" by (cases m)
  then have v: "json_value k v" using Cons.prems(2) [of m] by simp
  obtain j where n: "n = Suc j" using Cons.prems(4) by (cases n) auto
  show ?case
  proof (cases "ms = []")
    case True
    with scan_member [OF v Cons.prems(3), of name "CHR 0x7D" t j] Cons.prems(4) show ?thesis by (simp add: m n del: json_scan.simps)
  next
    case False
    then have list: "json_list (map json_member (m # ms)) @ CHR 0x7D # t
        = json_member (name, v) @ CHR '','' # (json_list (map json_member ms) @ CHR 0x7D # t)" by (simp add: json_list_Cons m)
    have room: "2 * length (json_member (name, v) @ CHR '','' # (json_list (map json_member ms) @ CHR 0x7D # t)) + 2 \<le> Suc j"
      using Cons.prems(4) unfolding list n .
    then have "json_scan j depth JMembers (json_list (map json_member ms) @ CHR 0x7D # t) = Some t"
      by (intro Cons.IH [OF False Cons.prems(2) Cons.prems(3)]) (simp_all add: json_member_def)
    with scan_member [OF v Cons.prems(3), of name "CHR '',''" "json_list (map json_member ms) @ CHR 0x7D # t" j] room
    show ?thesis unfolding list n by (simp del: json_scan.simps)
  qed
qed simp

lemma scan_elements:
  assumes "xs \<noteq> []" and "\<And>x. x \<in> set xs \<Longrightarrow> json_value k x" and "k \<le> depth"
    and "2 * length (json_list xs @ CHR 0x5D # t) + 2 \<le> n"
  shows "json_scan n depth JElements (json_list xs @ CHR 0x5D # t) = Some t"
  using assms
proof (induction xs arbitrary: n)
  case (Cons x xs)
  then have x: "json_value k x" by auto
  obtain j where n: "n = Suc j" using Cons.prems(4) by (cases n) auto
  show ?case
  proof (cases "xs = []")
    case True
    have "json_scan j depth JValue (x @ CHR 0x5D # t) = Some (CHR 0x5D # t)"
      using Cons.prems(4) True by (intro json_value_scan [OF x Cons.prems(3)]) (simp_all add: n del: json_scan.simps)
    then show ?thesis by (simp add: True n del: json_scan.simps(2))
  next
    case False
    then have list: "json_list (x # xs) @ CHR 0x5D # t = x @ CHR '','' # (json_list xs @ CHR 0x5D # t)" by (simp add: json_list_Cons)
    have "json_scan j depth JValue (x @ CHR '','' # (json_list xs @ CHR 0x5D # t)) = Some (CHR '','' # (json_list xs @ CHR 0x5D # t))"
      using Cons.prems(4) by (intro json_value_scan [OF x Cons.prems(3)]) (simp_all add: list n del: json_scan.simps)
    moreover have "json_scan j depth JElements (json_list xs @ CHR 0x5D # t) = Some t"
      using Cons.prems(4) x by (intro Cons.IH [OF False Cons.prems(2) Cons.prems(3)]) (simp_all add: list n json_value_def del: json_scan.simps)
    ultimately show ?thesis unfolding list n by (simp del: json_scan.simps(2))
  qed
qed simp

lemma json_value_object:
  assumes "\<And>m. m \<in> set ms \<Longrightarrow> json_value k (snd m)" and "ms \<noteq> []"
  shows "json_value (Suc k) (json_object ms)"
  unfolding json_value_def
proof (intro conjI allI impI)
  fix n depth t assume room: "Suc k \<le> depth" "2 * length (json_object ms @ t) + 1 \<le> n"
  then obtain j where n: "n = Suc j" by (cases n) auto
  obtain m ms' where ms: "ms = m # ms'" using assms(2) by (cases ms) auto
  obtain u where "json_member m = CHR 0x22 # u" by (cases m) (simp add: json_member_def, metis json_string_Cons append_Cons)
  then obtain rest where rest: "json_list (map json_member ms) @ CHR 0x7D # t = CHR 0x22 # rest"
    by (cases "map json_member ms'") (simp_all add: ms)
  have "json_scan j (depth - 1) JMembers (json_list (map json_member ms) @ CHR 0x7D # t) = Some t"
    using room by (intro scan_members [OF assms(2,1)]) (auto simp: json_object_def n)
  then show "json_scan n depth JValue (json_object ms @ t) = Some t"
    unfolding n json_object_def using room(1) by (simp add: rest del: json_scan.simps(3,4))
qed (simp_all add: json_object_def)

lemma json_value_array:
  assumes "\<And>x. x \<in> set xs \<Longrightarrow> json_value k x" and "xs \<noteq> []"
  shows "json_value (Suc k) (json_array xs)"
  unfolding json_value_def
proof (intro conjI allI impI)
  fix n depth t assume room: "Suc k \<le> depth" "2 * length (json_array xs @ t) + 1 \<le> n"
  then obtain j where n: "n = Suc j" by (cases n) auto
  obtain x xs' where xs: "xs = x # xs'" using assms(2) by (cases xs) auto
  with assms(1) have x: "json_value k x" by simp
  then obtain c r where c: "x = c # r" "\<not> is_json_space c" "c \<noteq> CHR 0x5D"
    using length_json_skip [of "tl x"] by (cases x) (auto simp: json_value_def json_skip_def split: if_splits)
  have skip: "json_skip (json_list xs @ CHR 0x5D # t) = json_list xs @ CHR 0x5D # t" "hd (json_list xs @ CHR 0x5D # t) = c" "json_list xs @ CHR 0x5D # t \<noteq> []"
    by (cases xs'; simp add: xs c json_skip_char)+
  then obtain rest where rest: "json_list xs @ CHR 0x5D # t = c # rest" by (metis list.collapse)
  have "json_scan j (depth - 1) JElements (json_list xs @ CHR 0x5D # t) = Some t"
    using room by (intro scan_elements [OF assms(2,1)]) (auto simp: json_array_def n)
  then show "json_scan n depth JValue (json_array xs @ t) = Some t"
    unfolding n json_array_def using room(1) skip(1) c(3) by (simp add: rest del: json_scan.simps(3,4))
qed (simp_all add: json_array_def)

lemma json_valid_value: "json_value k v \<Longrightarrow> k \<le> 10000 \<Longrightarrow> json_valid v"
  using json_value_scan [of k v 10000 "[]" "2 * length v + 2"] by (simp add: json_valid_def)

section \<open>Integers\<close>

lemma is_json_digit_char: "k < 10 \<Longrightarrow> is_json_digit (char_of (48 + k :: nat))"
  by (simp add: is_json_digit_def byte_def)

lemma decimal_digits_digits: "list_all is_json_digit (decimal_digits n) \<and> decimal_digits n \<noteq> []"
proof (induction n rule: decimal_digits.induct)
  case (1 n)
  then show ?case by (subst (1 2) decimal_digits.simps) (auto simp: is_json_digit_char)
qed

lemma decimal_digits_first: "0 < n \<Longrightarrow> hd (decimal_digits n) \<noteq> CHR 0x30"
proof (induction n rule: decimal_digits.induct)
  case (1 n)
  then show ?case using decimal_digits_digits [of "n div 10"]
    by (subst decimal_digits.simps) (auto simp: char_of_eq_iff take_bit_eq_mod)
qed

lemma digits_stop: "list_all is_json_digit ds \<Longrightarrow> delimits t \<Longrightarrow> dropWhile is_json_digit (ds @ t) = t"
  by (induction ds) (cases t; auto simp: delimits_def is_json_digit_def byte_def)+

lemma json_value_decimal: "json_value 0 (decimal_digits n)"
proof -
  obtain c r where c: "decimal_digits n = c # r" "is_json_digit c" "list_all is_json_digit r"
    using decimal_digits_digits [of n] by (cases "decimal_digits n") auto
  have plain: "\<not> is_json_space c" "c \<noteq> CHR 0x7B" "c \<noteq> CHR 0x5B" "c \<noteq> CHR 0x22" "c \<noteq> CHR ''t''" "c \<noteq> CHR ''f''" "c \<noteq> CHR ''n''" "c \<noteq> CHR 0x2D" "c \<notin> {CHR 0x5D, CHR 0x7D}"
    using c(2) by (auto simp: is_json_digit_def is_json_space_def byte_def)
  have zero: "c = CHR 0x30 \<Longrightarrow> r = []"
  proof -
    assume "c = CHR 0x30"
    with decimal_digits_first [of n] c(1) have "n = 0" by auto
    with c(1) show "r = []" by (simp add: decimal_digits.simps)
  qed
  have "json_number (c # r @ t) = Some t" if "delimits t" for t
  proof -
    have stop: "json_fraction t = Some t" "json_exponent t = Some t" using that by (auto simp: json_fraction_def json_exponent_def delimits_def)
    show ?thesis using plain(8) zero c(2,3) digits_stop [OF c(3) that] stop
      by (cases "c = CHR 0x30") (auto simp: json_number_def json_digits_def Let_def)
  qed
  then have "json_scan (Suc j) depth JValue (decimal_digits n @ t) = Some t" if "delimits t" for j depth t
    using that plain by (simp add: c(1) json_skip_char)
  then have "json_scan m depth JValue (decimal_digits n @ t) = Some t" if "delimits t" "1 \<le> m" for m depth t using that by (cases m) auto
  then show ?thesis using plain by (auto simp: json_value_def c(1) json_skip_char)
qed

end
