(* ===== verification/Callbacks.thy ===== *)
theory Callbacks
  imports OfficialStore JsonText
begin

text \<open>
  Callbacks: the queue of deliveries (\<^verbatim>\<open>callback_store.go\<close>), the signed request and how its answer is judged
  (\<^verbatim>\<open>callback/service.go\<close>) and the worker that claims, sends and records one delivery
  (\<^verbatim>\<open>callback/worker.go\<close>, \<^verbatim>\<open>callback/persistent_store.go\<close>). The HTTP client, HMAC, the cipher and the key
  derivation are parameters. Durations of the worker are nanoseconds, times of the store
  milliseconds; error texts are tags.
\<close>

section \<open>The queue\<close>

definition CreateCallbackDelivery :: "StoreEnv \<Rightarrow> callback_delivery \<Rightarrow> unit op" where
  "CreateCallbackDelivery e c0 =
     (let created = (if cd_created_at c0 = 0 then nowMillis e else cd_created_at c0);
          c = c0\<lparr>cd_created_at := created, cd_updated_at := (if cd_updated_at c0 = 0 then created else cd_updated_at c0)\<rparr> in
      and_then (ensuring (\<lambda>d. cd_state_version c \<ge> 1 \<and> cd_attempt_count c \<ge> 0
                  \<and> exists_where (\<lambda>t. vt_task_id t = cd_task_id c) (video_tasks d)
                  \<and> \<not> exists_where (\<lambda>x. cd_id x = cd_id c \<or> cd_task_id x = cd_task_id c \<and> cd_state_version x = cd_state_version c)
                      (callback_deliveries d)) (ErrSQL ''callback_deliveries'')) (\<lambda>_.
      exec_insert callback_deliveries_update c))"

definition callback_due :: "db \<Rightarrow> int \<Rightarrow> callback_delivery \<Rightarrow> bool" where
  "callback_due d now c \<longleftrightarrow>
     exists_where (\<lambda>t. vt_task_id t = cd_task_id c \<and> vt_callback_url_ciphertext t \<noteq> None) (video_tasks d)
     \<and> cd_status c \<in> {CallbackPending, CallbackRetryWait, CallbackSending}
     \<and> (case cd_next_attempt_at c of None \<Rightarrow> True | Some x \<Rightarrow> x \<le> now)
     \<and> (case cd_lease_expires_at c of None \<Rightarrow> True | Some x \<Rightarrow> x \<le> now)"

definition next_callback :: "int \<Rightarrow> db \<Rightarrow> callback_delivery option" where
  "next_callback now d =
     (case sort_key (\<lambda>c. (cd_created_at c, cd_id c)) (filter (callback_due d now) (callback_deliveries d)) of
        [] \<Rightarrow> None | c # _ \<Rightarrow> Some c)"

text \<open>The delivery as it was read, with its task, before the row is marked as being sent.\<close>

definition sending_row :: "int \<Rightarrow> int \<Rightarrow> callback_delivery \<Rightarrow> callback_delivery" where
  "sending_row now leaseUntil c =
     c\<lparr>cd_status := CallbackSending, cd_lease_expires_at := Some leaseUntil, cd_updated_at := now\<rparr>"

definition task_of_delivery :: "callback_delivery \<Rightarrow> db \<Rightarrow> video_task option" where
  "task_of_delivery c d = select_where (\<lambda>t. vt_task_id t = cd_task_id c) (video_tasks d)"

definition callback_candidate :: "int \<Rightarrow> db \<Rightarrow> err + callback_delivery \<times> video_task" where
  "callback_candidate now d =
     (case next_callback now d of
        None \<Rightarrow> Inl ErrNoCallbackDelivery
      | Some c \<Rightarrow> (case task_of_delivery c d of None \<Rightarrow> Inl ErrNoCallbackDelivery | Some t \<Rightarrow> Inr (c, t)))"

definition ClaimCallbackDelivery :: "int \<Rightarrow> int \<Rightarrow> (callback_delivery \<times> video_task) op" where
  "ClaimCallbackDelivery now leaseUntil = atomically
     (and_then (reading (callback_candidate now)) (\<lambda>(c, t).
      and_then (exec_one callback_deliveries callback_deliveries_update ErrNoCallbackDelivery
                  (\<lambda>x. cd_id x = cd_id c \<and> (case cd_lease_expires_at x of None \<Rightarrow> True | Some v \<Rightarrow> v \<le> now))
                  (sending_row now leaseUntil)) (\<lambda>_.
      ret (c, t))))"

definition succeeded_row :: "int \<Rightarrow> int \<Rightarrow> callback_delivery \<Rightarrow> callback_delivery" where
  "succeeded_row httpStatus now c =
     c\<lparr>cd_status := CallbackSucceeded, cd_attempt_count := cd_attempt_count c + 1, cd_http_status := Some httpStatus,
       cd_last_error := None, cd_next_attempt_at := None, cd_lease_expires_at := None, cd_delivered_at := Some now,
       cd_updated_at := now\<rparr>"

definition retried_row :: "int \<Rightarrow> int \<Rightarrow> int \<Rightarrow> string \<Rightarrow> int \<Rightarrow> callback_delivery \<Rightarrow> callback_delivery" where
  "retried_row now attempt httpStatus message nextAttempt c =
     c\<lparr>cd_status := CallbackRetryWait, cd_attempt_count := attempt, cd_http_status := nullif_zero httpStatus,
       cd_last_error := Some message, cd_next_attempt_at := Some nextAttempt, cd_lease_expires_at := None, cd_updated_at := now\<rparr>"

definition failed_callback_row :: "int \<Rightarrow> int \<Rightarrow> int \<Rightarrow> string \<Rightarrow> callback_delivery \<Rightarrow> callback_delivery" where
  "failed_callback_row now attempt httpStatus message c =
     c\<lparr>cd_status := CallbackFailed, cd_attempt_count := attempt, cd_http_status := nullif_zero httpStatus,
       cd_last_error := Some message, cd_next_attempt_at := None, cd_lease_expires_at := None, cd_updated_at := now\<rparr>"

abbreviation update_sending :: "string \<Rightarrow> (callback_delivery \<Rightarrow> callback_delivery) \<Rightarrow> unit op" where
  "update_sending i \<equiv> exec_one callback_deliveries callback_deliveries_update ErrStateConflict
     (\<lambda>c. cd_id c = i \<and> cd_status c = CallbackSending)"

definition MarkCallbackSucceeded :: "string \<Rightarrow> int \<Rightarrow> int \<Rightarrow> unit op" where
  "MarkCallbackSucceeded i httpStatus deliveredAt = update_sending i (succeeded_row httpStatus deliveredAt)"

definition ScheduleCallbackRetry :: "StoreEnv \<Rightarrow> string \<Rightarrow> int \<Rightarrow> int \<Rightarrow> string \<Rightarrow> int \<Rightarrow> unit op" where
  "ScheduleCallbackRetry e i attempt httpStatus message nextAttempt =
     and_then (ensuring (\<lambda>d. attempt \<ge> 0 \<or> \<not> exists_where (\<lambda>c. cd_id c = i \<and> cd_status c = CallbackSending) (callback_deliveries d))
                 (ErrSQL ''attempt_count'')) (\<lambda>_.
     update_sending i (retried_row (nowMillis e) attempt httpStatus message nextAttempt))"

definition MarkCallbackFailed :: "StoreEnv \<Rightarrow> string \<Rightarrow> int \<Rightarrow> int \<Rightarrow> string \<Rightarrow> unit op" where
  "MarkCallbackFailed e i attempt httpStatus message =
     and_then (ensuring (\<lambda>d. attempt \<ge> 0 \<or> \<not> exists_where (\<lambda>c. cd_id c = i \<and> cd_status c = CallbackSending) (callback_deliveries d))
                 (ErrSQL ''attempt_count'')) (\<lambda>_.
     update_sending i (failed_callback_row (nowMillis e) attempt httpStatus message))"

section \<open>Sending\<close>

record Delivery =
  dl_ID :: string
  dl_TaskID :: string
  dl_ExternalStatus :: string
  dl_StateVersion :: int
  dl_AttemptCount :: int
  dl_CallbackURL :: string
  dl_SigningSecret :: string
  dl_Body :: string
  dl_BodyHash :: string

record DeliveryResult =
  dr_Success :: bool
  dr_Retryable :: bool
  dr_HTTPStatus :: int
  dr_Error :: "string option"
  dr_ResponseSnippet :: string

record CallbackRequest =
  cr_URL :: string
  cr_EventID :: string
  cr_Timestamp :: string
  cr_Signature :: string
  cr_Body :: string

datatype stream_error = ResponseTooLarge | StreamBroken

text \<open>What the HTTP client answers: no request, a refused address, a broken exchange, or a response and its body.\<close>

datatype transport = InvalidRequest | UnsafeURL | TransportError | Response int string "stream_error option"

text \<open>The service and the secrets it is used with.\<close>

record CallbackService =
  cs_send :: "CallbackRequest \<Rightarrow> transport"
  cs_hmac_hex :: "string \<Rightarrow> string \<Rightarrow> string"
  cs_sha256_hex :: "string \<Rightarrow> string"
  cs_now :: int
  cs_maxResponseBytes :: int
  cs_open :: "string \<Rightarrow> string \<Rightarrow> string option"
  cs_derive :: "string \<Rightarrow> string option"

definition isExternalStatus :: "string \<Rightarrow> bool" where
  "isExternalStatus s \<longleftrightarrow> s \<in> {''queued'', ''running'', ''succeeded'', ''failed'', ''cancelled''}"

definition validateDelivery :: "CallbackService \<Rightarrow> Delivery \<Rightarrow> string option" where
  "validateDelivery w x =
     (if dl_ID x = [] \<or> dl_TaskID x = [] \<or> dl_StateVersion x < 1 \<or> \<not> isExternalStatus (dl_ExternalStatus x)
         \<or> trim_space (dl_CallbackURL x) = [] \<or> dl_Body x = [] then Some ''invalid delivery''
      else if length (dl_SigningSecret x) < 32 then Some ''signature config''
      else if dl_BodyHash x \<noteq> cs_sha256_hex w (dl_Body x) then Some ''body hash''
      else None)"

definition strconvFormatUnix :: "int \<Rightarrow> string" where
  "strconvFormatUnix v = format_int v"

definition sign :: "CallbackService \<Rightarrow> string \<Rightarrow> string \<Rightarrow> string \<Rightarrow> string" where
  "sign w secret timestamp body = ''v1='' @ cs_hmac_hex w secret (timestamp @ ''.'' @ body)"

definition responseLimit :: "int \<Rightarrow> int" where
  "responseLimit v = (if v \<le> 0 then 65536 else v)"

definition readSnippet :: "string \<Rightarrow> stream_error option \<Rightarrow> int \<Rightarrow> string \<times> stream_error option" where
  "readSnippet body er limit =
     (if int (length body) > limit then (take (nat limit) body, Some ResponseTooLarge) else (body, er))"

definition delivery_error_result :: "string \<Rightarrow> DeliveryResult" where
  "delivery_error_result m = \<lparr>dr_Success = False, dr_Retryable = False, dr_HTTPStatus = 0, dr_Error = Some m, dr_ResponseSnippet = []\<rparr>"

definition judge_response :: "CallbackService \<Rightarrow> int \<Rightarrow> string \<Rightarrow> stream_error option \<Rightarrow> DeliveryResult" where
  "judge_response w status body er =
     (let (snippet, readErr) = readSnippet body er (responseLimit (cs_maxResponseBytes w)) in
      if 200 \<le> status \<and> status < 300 then
        (if readErr \<noteq> None \<and> readErr \<noteq> Some ResponseTooLarge
         then (delivery_error_result ''read response'')\<lparr>dr_Retryable := True, dr_HTTPStatus := status\<rparr>
         else \<lparr>dr_Success = True, dr_Retryable = False, dr_HTTPStatus = status, dr_Error = None, dr_ResponseSnippet = []\<rparr>)
      else (delivery_error_result ''http status'')\<lparr>dr_Retryable := (status = 408 \<or> status = 429 \<or> status \<ge> 500),
             dr_HTTPStatus := status, dr_ResponseSnippet := snippet\<rparr>)"

definition Deliver :: "CallbackService \<Rightarrow> Delivery \<Rightarrow> DeliveryResult" where
  "Deliver w x =
     (case validateDelivery w x of
        Some m \<Rightarrow> delivery_error_result m
      | None \<Rightarrow>
          (let timestamp = strconvFormatUnix (cs_now w) in
           case cs_send w \<lparr>cr_URL = dl_CallbackURL x, cr_EventID = dl_ID x, cr_Timestamp = timestamp,
                           cr_Signature = sign w (dl_SigningSecret x) timestamp (dl_Body x), cr_Body = dl_Body x\<rparr> of
             InvalidRequest \<Rightarrow> delivery_error_result ''invalid delivery''
           | UnsafeURL \<Rightarrow> delivery_error_result ''unsafe url''
           | TransportError \<Rightarrow> (delivery_error_result ''network'')\<lparr>dr_Retryable := True\<rparr>
           | Response status body er \<Rightarrow> judge_response w status body er))"

section \<open>The worker\<close>

record CallbackWorker =
  cw_MaxAttempts :: int
  cw_InitialBackoff :: int
  cw_MaxBackoff :: int
  cw_LeaseDuration :: int
  cw_Now :: int

definition maxAttempts :: "CallbackWorker \<Rightarrow> int" where
  "maxAttempts w = (if cw_MaxAttempts w \<le> 0 then 5 else cw_MaxAttempts w)"

definition leaseDuration :: "CallbackWorker \<Rightarrow> int" where
  "leaseDuration w = (if cw_LeaseDuration w \<le> 0 then 30 * second else cw_LeaseDuration w)"

text \<open>Durations are int64; the product is only formed when it fits.\<close>

definition backoff :: "CallbackWorker \<Rightarrow> int \<Rightarrow> int" where
  "backoff w attempt =
     (let initial = (if cw_InitialBackoff w \<le> 0 then second else cw_InitialBackoff w);
          maximum = (if cw_MaxBackoff w \<le> 0 then 300 * second else cw_MaxBackoff w);
          power = min (attempt - 1) 30;
          factor = 2 ^ nat power
      in if initial \<ge> maximum \<or> initial > maximum div factor then maximum else wrap64 (initial * factor))"

definition millis :: "int \<Rightarrow> int" where
  "millis ns = ns div 1000000"

definition deliveryError :: "string option \<Rightarrow> string" where
  "deliveryError er = (case er of None \<Rightarrow> ''callback failed'' | Some m \<Rightarrow> take 512 (trim_space m))"

definition delivery_of :: "string \<Rightarrow> string \<Rightarrow> callback_delivery \<Rightarrow> Delivery" where
  "delivery_of u key c =
     \<lparr>dl_ID = cd_id c, dl_TaskID = cd_task_id c, dl_ExternalStatus = cd_external_status c, dl_StateVersion = cd_state_version c,
      dl_AttemptCount = cd_attempt_count c, dl_CallbackURL = u, dl_SigningSecret = key, dl_Body = cd_request_body c,
      dl_BodyHash = cd_request_body_hash c\<rparr>"

definition ClaimCallback :: "CallbackService \<Rightarrow> int \<Rightarrow> int \<Rightarrow> Delivery op" where
  "ClaimCallback v now leaseUntil =
     and_then (ClaimCallbackDelivery now leaseUntil) (\<lambda>(c, t).
     case cs_open v (coalesce (vt_callback_url_nonce t) []) (coalesce (vt_callback_url_ciphertext t) []) of
       None \<Rightarrow> raise (ErrText ''callback url'')
     | Some u \<Rightarrow> (case cs_derive v (vt_api_key_id t) of
                    None \<Rightarrow> raise (ErrText ''signing key'')
                  | Some key \<Rightarrow> ret (delivery_of u key c)))"

definition record_result :: "StoreEnv \<Rightarrow> CallbackWorker \<Rightarrow> Delivery \<Rightarrow> DeliveryResult \<Rightarrow> unit op" where
  "record_result e w x r =
     (let attempt = dl_AttemptCount x + 1 in
      if dr_Success r then MarkCallbackSucceeded (dl_ID x) (dr_HTTPStatus r) (millis (cw_Now w))
      else if dr_Retryable r \<and> attempt < maxAttempts w
      then ScheduleCallbackRetry e (dl_ID x) attempt (dr_HTTPStatus r) (deliveryError (dr_Error r))
             (millis (cw_Now w + backoff w attempt))
      else MarkCallbackFailed e (dl_ID x) attempt (dr_HTTPStatus r) (deliveryError (dr_Error r)))"

definition ProcessOne :: "StoreEnv \<Rightarrow> CallbackService \<Rightarrow> CallbackWorker \<Rightarrow> bool op" where
  "ProcessOne e v w = (\<lambda>d.
     case ClaimCallback v (millis (cw_Now w)) (millis (cw_Now w + leaseDuration w)) d of
       (Inl ErrNoCallbackDelivery, d1) \<Rightarrow> (Inr False, d1)
     | (Inl er, d1) \<Rightarrow> (Inl er, d1)
     | (Inr x, d1) \<Rightarrow> and_then (record_result e w x (Deliver v x)) (\<lambda>_. ret True) d1)"

section \<open>Backoff\<close>

text \<open>The waiting time before a retry doubles with every attempt from the initial to the maximal backoff and is
  capped there; the computation never overflows 64 bits, whatever the configuration.\<close>

theorem backoff_capped_doubling:
  assumes "attempt \<ge> 1" and "cw_InitialBackoff w < 2 ^ 63" and "cw_MaxBackoff w < 2 ^ 63"
  shows "backoff w attempt = min (if cw_MaxBackoff w \<le> 0 then 300 * second else cw_MaxBackoff w)
      ((if cw_InitialBackoff w \<le> 0 then second else cw_InitialBackoff w) * 2 ^ nat (min (attempt - 1) 30))
    \<and> 0 < backoff w attempt \<and> backoff w attempt < 2 ^ 63"
proof -
  define initial where "initial = (if cw_InitialBackoff w \<le> 0 then second else cw_InitialBackoff w)"
  define maximum where "maximum = (if cw_MaxBackoff w \<le> 0 then 300 * second else cw_MaxBackoff w)"
  define factor :: int where "factor = 2 ^ nat (min (attempt - 1) 30)"
  have pos: "0 < initial" "0 < maximum" "maximum < 2 ^ 63" "0 < factor"
    using assms by (auto simp: initial_def maximum_def factor_def second_def)
  have def: "backoff w attempt = (if initial \<ge> maximum \<or> initial > maximum div factor then maximum else wrap64 (initial * factor))"
    by (simp add: backoff_def initial_def maximum_def factor_def Let_def)
  have "backoff w attempt = min maximum (initial * factor)"
  proof (cases "initial \<ge> maximum \<or> initial > maximum div factor")
    case True
    have "maximum \<le> initial * factor"
    proof (cases "initial \<ge> maximum")
      case True
      moreover have "initial * 1 \<le> initial * factor" using pos by (intro mult_left_mono) auto
      ultimately show ?thesis by simp
    next
      case False
      with \<open>initial \<ge> maximum \<or> initial > maximum div factor\<close> have "maximum div factor + 1 \<le> initial" by simp
      then have "(maximum div factor + 1) * factor \<le> initial * factor" using pos by (intro mult_right_mono) auto
      moreover have "maximum < (maximum div factor + 1) * factor"
        using pos by (simp add: distrib_right) (metis add.commute mod_div_mult_eq mult.commute pos_mod_bound add_less_cancel_left)
      ultimately show ?thesis by simp
    qed
    with True def show ?thesis by simp
  next
    case False
    then have "initial * factor \<le> maximum div factor * factor" using pos by (intro mult_right_mono) auto
    also have "\<dots> \<le> maximum" using pos by (metis div_mod_decomp_int dual_order.refl le_add_same_cancel1 mult.commute pos_mod_sign)
    finally have le: "initial * factor \<le> maximum" .
    moreover have "0 < initial * factor" using pos by simp
    ultimately have "wrap64 (initial * factor) = initial * factor" using pos(3) by (simp add: wrap64_def)
    with False def le show ?thesis by simp
  qed
  then show ?thesis using pos by (simp add: initial_def maximum_def factor_def)
qed

section \<open>Deliveries that can be sent\<close>

lemma callback_body_valid: "json_valid (callback_body i status)"
proof -
  have "callback_body i status = json_object [(''task_id'', json_string i), (''status'', json_string status)]"
    by (simp add: callback_body_def json_object_def json_member_def)
  moreover have "json_value (Suc 0) (json_object [(''task_id'', json_string i), (''status'', json_string status)])"
    by (rule json_value_object) (auto simp: json_value_string)
  ultimately show ?thesis by (simp add: json_valid_value)
qed

lemma queued_delivery:
  assumes "createCallbackDeliveryWithConn e i status now d = (Inr (), d')" and "c \<in> set (callback_deliveries d')"
    and "c \<notin> set (callback_deliveries d)"
  obtains t where "t \<in> set (video_tasks d)" "vt_task_id t = i"
    "c = new_delivery (uuid e 0) i status (vt_version t) (sha256_hex e (callback_body i status)) (callback_body i status) now"
  using assms unfolding createCallbackDeliveryWithConn_def insert_delivery_def
  by (auto split: option.splits if_splits dest!: select_where_Some)

text \<open>Every delivery the store queues can be sent: its body is valid JSON and, with the service's SHA-256 and a
  usable address and key, the service accepts it.\<close>

theorem queued_delivery_sendable:
  assumes "createCallbackDeliveryWithConn e i status now d = (Inr (), d')"
    and "c \<in> set (callback_deliveries d')" and "c \<notin> set (callback_deliveries d)"
    and "isExternalStatus status" and "i \<noteq> []" and "uuid e 0 \<noteq> []" and "\<forall>t \<in> set (video_tasks d). 1 \<le> vt_version t"
    and "cs_sha256_hex v = sha256_hex e" and "trim_space u \<noteq> []" and "32 \<le> length key"
  shows "json_valid (cd_request_body c) \<and> validateDelivery v (delivery_of u key c) = None"
proof -
  from assms(1-3) obtain t where t: "t \<in> set (video_tasks d)"
    "c = new_delivery (uuid e 0) i status (vt_version t) (sha256_hex e (callback_body i status)) (callback_body i status) now"
    by (rule queued_delivery)
  have "callback_body i status \<noteq> []" "1 \<le> vt_version t" using assms(7) t(1) by (simp_all add: callback_body_def)
  with t assms(4-6,8-10) show ?thesis
    by (simp add: new_delivery_def validateDelivery_def delivery_of_def callback_body_valid)
qed

section \<open>Interleaved workers\<close>

text \<open>
  The state is the database and the deliveries that workers have claimed and not yet recorded. A
  worker may claim, record the result of a delivery it holds (whatever the answer was), or die; the
  store may queue new deliveries. Leases run out, so that several workers can hold one delivery.
\<close>

definition callback_open :: "CallbackStatus \<Rightarrow> bool" where
  "callback_open s \<longleftrightarrow> s \<in> {CallbackPending, CallbackSending, CallbackRetryWait}"

inductive callback_step :: "int \<Rightarrow> db \<times> Delivery list \<Rightarrow> db \<times> Delivery list \<Rightarrow> bool" for M where
  claim: "ClaimCallback v now leaseUntil d = (Inr x, d') \<Longrightarrow> callback_step M (d, fl) (d', x # fl)"
| no_claim: "ClaimCallback v now leaseUntil d = (Inl er, d') \<Longrightarrow> callback_step M (d, fl) (d', fl)"
| recorded: "x \<in> set fl \<Longrightarrow> maxAttempts w = M \<Longrightarrow> record_result e w x r d = (z, d') \<Longrightarrow>
     callback_step M (d, fl) (d', remove1 x fl)"
| crash: "x \<in> set fl \<Longrightarrow> callback_step M (d, fl) (d, remove1 x fl)"
| queue: "createCallbackDeliveryWithConn e i status now d = (z, d') \<Longrightarrow> callback_step M (d, fl) (d', fl)"

definition delivery_ok :: "int \<Rightarrow> callback_delivery \<Rightarrow> bool" where
  "delivery_ok M c \<longleftrightarrow> 0 \<le> cd_attempt_count c \<and> cd_attempt_count c \<le> M
     \<and> (callback_open (cd_status c) \<longrightarrow> cd_attempt_count c < M)"

definition callback_inv :: "int \<Rightarrow> db \<times> Delivery list \<Rightarrow> bool" where
  "callback_inv M = (\<lambda>(d, fl). distinct (map cd_id (callback_deliveries d)) \<and> list_all (delivery_ok M) (callback_deliveries d)
     \<and> list_all (\<lambda>x. 0 \<le> dl_AttemptCount x \<and> dl_AttemptCount x < M) fl)"

text \<open>A step may only touch deliveries that are still open.\<close>

definition final_kept :: "db \<Rightarrow> db \<Rightarrow> bool" where
  "final_kept d d' \<longleftrightarrow> (\<forall>c \<in> set (callback_deliveries d). \<not> callback_open (cd_status c) \<longrightarrow> c \<in> set (callback_deliveries d'))"

definition callback_safe :: "int \<Rightarrow> db \<times> Delivery list \<Rightarrow> db \<times> Delivery list \<Rightarrow> bool" where
  "callback_safe M s s' \<longleftrightarrow> (callback_inv M s \<longrightarrow> callback_inv M s' \<and> final_kept (fst s) (fst s'))"

interpretation callback_safety: step_contract "callback_safe M" for M
  by unfold_locales (auto simp: callback_safe_def final_kept_def)

lemma callback_update:
  assumes "callback_inv M (d, fl)" and "callback_deliveries d' = update_where p f (callback_deliveries d)"
    and "\<And>c. cd_id (f c) = cd_id c"
    and "\<And>c. c \<in> set (callback_deliveries d) \<Longrightarrow> p c \<Longrightarrow> callback_open (cd_status c) \<and> (delivery_ok M c \<longrightarrow> delivery_ok M (f c))"
  shows "callback_inv M (d', fl) \<and> final_kept d d'"
proof
  show "callback_inv M (d', fl)"
    using assms by (auto simp: callback_inv_def distinct_update_where list_all_iff set_update_where)
  show "final_kept d d'" unfolding final_kept_def
  proof (intro ballI impI)
    fix c assume "c \<in> set (callback_deliveries d)" "\<not> callback_open (cd_status c)"
    with assms(4) have "\<not> p c" by blast
    with \<open>c \<in> set (callback_deliveries d)\<close> show "c \<in> set (callback_deliveries d')" by (auto simp: assms(2) set_update_where)
  qed
qed

lemma next_callbackD:
  assumes "next_callback now d = Some c"
  shows "c \<in> set (callback_deliveries d)" "callback_due d now c"
proof -
  from assms obtain rest where "sort_key (\<lambda>c. (cd_created_at c, cd_id c)) (filter (callback_due d now) (callback_deliveries d)) = c # rest"
    by (auto simp: next_callback_def split: list.splits)
  then have "c \<in> set (filter (callback_due d now) (callback_deliveries d))" by (metis list.set_intros(1) set_sort)
  then show "c \<in> set (callback_deliveries d)" "callback_due d now c" by simp_all
qed

lemma callback_candidateD: "callback_candidate now d = Inr (c, t) \<Longrightarrow> next_callback now d = Some c"
  by (auto simp: callback_candidate_def split: option.splits)

lemma callback_row_ids [simp]:
  "cd_id (sending_row now until c) = cd_id c" "cd_id (succeeded_row h now c) = cd_id c"
  "cd_id (retried_row now a h m n c) = cd_id c" "cd_id (failed_callback_row now a h m c) = cd_id c"
  by (simp_all add: sending_row_def succeeded_row_def retried_row_def failed_callback_row_def)

lemma ClaimCallbackDelivery_success:
  assumes "ClaimCallbackDelivery now until d = (Inr ct, d')"
  obtains c where "fst ct = c" "next_callback now d = Some c"
    "d' = callback_deliveries_update (update_where (\<lambda>x. cd_id x = cd_id c \<and> (case cd_lease_expires_at x of None \<Rightarrow> True | Some v \<Rightarrow> v \<le> now))
       (sending_row now until)) d"
  using assms unfolding ClaimCallbackDelivery_def atomically_success_iff
  by (auto simp: tx_success dest: callback_candidateD split: prod.splits)

lemma claimed_safe:
  assumes "ClaimCallbackDelivery now until d = (Inr ct, d')" and inv: "callback_inv M (d, fl)"
  shows "callback_inv M (d', fl) \<and> final_kept d d'" and "0 \<le> cd_attempt_count (fst ct) \<and> cd_attempt_count (fst ct) < M"
proof -
  from assms(1) obtain c where c: "fst ct = c" "next_callback now d = Some c"
    and d': "d' = callback_deliveries_update (update_where (\<lambda>x. cd_id x = cd_id c \<and> (case cd_lease_expires_at x of None \<Rightarrow> True | Some v \<Rightarrow> v \<le> now))
       (sending_row now until)) d" by (rule ClaimCallbackDelivery_success)
  note due = next_callbackD [OF c(2)]
  have ids: "distinct (map cd_id (callback_deliveries d))" using inv by (simp add: callback_inv_def)
  have opened: "callback_open (cd_status c)" using due(2) by (auto simp: callback_due_def callback_open_def)
  then show "0 \<le> cd_attempt_count (fst ct) \<and> cd_attempt_count (fst ct) < M"
    using inv due(1) by (auto simp: c(1) callback_inv_def list_all_iff delivery_ok_def)
  show "callback_inv M (d', fl) \<and> final_kept d d'"
  proof (rule callback_update [OF inv])
    fix x assume x: "x \<in> set (callback_deliveries d)" "cd_id x = cd_id c \<and> (case cd_lease_expires_at x of None \<Rightarrow> True | Some v \<Rightarrow> v \<le> now)"
    have "x = c" by (rule key_unique [OF ids x(1) due(1)]) (use x(2) in simp)
    then show "callback_open (cd_status x) \<and> (delivery_ok M x \<longrightarrow> delivery_ok M (sending_row now until x))"
      using opened by (simp add: delivery_ok_def sending_row_def)
  qed (simp_all add: d')
qed

lemma ClaimCallback_safe:
  assumes "ClaimCallback v now until d = (r, d')" and "callback_inv M (d, fl)"
  shows "callback_inv M (d', fl) \<and> final_kept d d'"
    and "r = Inr x \<Longrightarrow> 0 \<le> dl_AttemptCount x \<and> dl_AttemptCount x < M"
proof -
  obtain q d1 where q: "ClaimCallbackDelivery now until d = (q, d1)" by (cases "ClaimCallbackDelivery now until d")
  have "(callback_inv M (d', fl) \<and> final_kept d d') \<and> (\<forall>x. r = Inr x \<longrightarrow> 0 \<le> dl_AttemptCount x \<and> dl_AttemptCount x < M)"
  proof (cases q)
    case (Inl er)
    then have "d1 = d" using q by (auto simp: ClaimCallbackDelivery_def dest: atomically_failure)
    with Inl q assms show ?thesis by (auto simp: ClaimCallback_def final_kept_def)
  next
    case (Inr ct)
    then have "ClaimCallbackDelivery now until d = (Inr ct, d1)" using q by simp
    note safe = claimed_safe [OF this assms(2)]
    from Inr q assms(1) have "d' = d1" "\<And>x. r = Inr x \<Longrightarrow> dl_AttemptCount x = cd_attempt_count (fst ct)"
      by (auto simp: ClaimCallback_def delivery_of_def split: prod.splits option.splits)
    with safe show ?thesis by simp
  qed
  then show "callback_inv M (d', fl) \<and> final_kept d d'"
    and "r = Inr x \<Longrightarrow> 0 \<le> dl_AttemptCount x \<and> dl_AttemptCount x < M" by blast+
qed

text \<open>Recording a result touches only a delivery that is being sent, so an open one.\<close>

lemma update_sending_safe:
  assumes "update_sending i f d = (z, d')" and inv: "callback_inv M (d, fl)" and "\<And>c. cd_id (f c) = cd_id c"
    and "\<And>c. delivery_ok M c \<Longrightarrow> cd_status c = CallbackSending \<Longrightarrow> delivery_ok M (f c)"
  shows "callback_inv M (d', fl) \<and> final_kept d d'"
proof (rule callback_update [OF inv])
  show "callback_deliveries d' = update_where (\<lambda>c. cd_id c = i \<and> cd_status c = CallbackSending) f (callback_deliveries d)"
    using assms(1) by (auto simp: exec_one_apply)
qed (use assms(3,4) in \<open>auto simp: callback_open_def\<close>)

lemma record_result_cases:
  assumes "record_result e w x r d = (z, d')" and "0 \<le> dl_AttemptCount x"
  obtains f where "update_sending (dl_ID x) f d = (z, d')"
    "f = succeeded_row (dr_HTTPStatus r) (millis (cw_Now w))
     \<or> dl_AttemptCount x + 1 < maxAttempts w \<and> f = retried_row (nowMillis e) (dl_AttemptCount x + 1) (dr_HTTPStatus r)
          (deliveryError (dr_Error r)) (millis (cw_Now w + backoff w (dl_AttemptCount x + 1)))
     \<or> f = failed_callback_row (nowMillis e) (dl_AttemptCount x + 1) (dr_HTTPStatus r) (deliveryError (dr_Error r))"
proof -
  have "0 \<le> dl_AttemptCount x + 1" using assms(2) by simp
  with assms(1) that show thesis
    unfolding record_result_def MarkCallbackSucceeded_def ScheduleCallbackRetry_def MarkCallbackFailed_def Let_def
    by (simp add: and_then_ensuring split: if_splits)
qed

lemma record_result_safe:
  assumes "record_result e w x r d = (z, d')" and inv: "callback_inv M (d, fl)" and "x \<in> set fl" and M: "maxAttempts w = M"
  shows "callback_inv M (d', fl) \<and> final_kept d d'"
proof -
  have x: "0 \<le> dl_AttemptCount x" "dl_AttemptCount x < M" using inv assms(3) by (auto simp: callback_inv_def list_all_iff)
  from assms(1) x(1) obtain f where f: "update_sending (dl_ID x) f d = (z, d')"
    and c: "f = succeeded_row (dr_HTTPStatus r) (millis (cw_Now w))
     \<or> dl_AttemptCount x + 1 < maxAttempts w \<and> f = retried_row (nowMillis e) (dl_AttemptCount x + 1) (dr_HTTPStatus r)
          (deliveryError (dr_Error r)) (millis (cw_Now w + backoff w (dl_AttemptCount x + 1)))
     \<or> f = failed_callback_row (nowMillis e) (dl_AttemptCount x + 1) (dr_HTTPStatus r) (deliveryError (dr_Error r))"
    by (rule record_result_cases)
  show ?thesis
  proof (rule update_sending_safe [OF f inv])
    show "cd_id (f c) = cd_id c" for c using c by auto
    show "delivery_ok M (f c)" if "delivery_ok M c" "cd_status c = CallbackSending" for c
      using c that x M
      by (auto simp: delivery_ok_def callback_open_def succeeded_row_def retried_row_def failed_callback_row_def)
  qed
qed

lemma insert_delivery_effect:
  assumes "insert_delivery c d = (z, d')"
  shows "d' = d \<or> callback_deliveries d' = callback_deliveries d @ [c] \<and> cd_id c \<notin> cd_id ` set (callback_deliveries d)"
  using assms unfolding insert_delivery_def by (auto split: if_splits)

lemma queue_safe:
  assumes "createCallbackDeliveryWithConn e i st now d = (z, d')" and "callback_inv M (d, fl)" and "0 < M"
  shows "callback_inv M (d', fl) \<and> final_kept d d'"
proof -
  have "d' = d \<or> (\<exists>v. insert_delivery (new_delivery (uuid e 0) i st v (sha256_hex e (callback_body i st)) (callback_body i st) now) d = (z, d'))"
    using assms(1) unfolding createCallbackDeliveryWithConn_def by (auto split: option.splits if_splits)
  then consider "d' = d" | c where "callback_deliveries d' = callback_deliveries d @ [c]"
      "cd_id c \<notin> cd_id ` set (callback_deliveries d)" "cd_attempt_count c = 0"
    using insert_delivery_effect by (fastforce simp: new_delivery_def)
  then show ?thesis
    by cases (use assms(2,3) in \<open>auto simp: callback_inv_def final_kept_def delivery_ok_def\<close>)
qed

lemma callback_step_safe: "callback_step M s s' \<Longrightarrow> 0 < M \<Longrightarrow> callback_safe M s s'"
proof (induction rule: callback_step.induct)
  case (claim v now leaseUntil d x d' fl)
  have "callback_inv M (d, fl) \<longrightarrow> callback_inv M (d', fl) \<and> final_kept d d' \<and> 0 \<le> dl_AttemptCount x \<and> dl_AttemptCount x < M"
    using ClaimCallback_safe(1) [OF claim(1), of M fl] ClaimCallback_safe(2) [OF claim(1), of M fl x] by simp
  then show ?case by (auto simp: callback_safe_def callback_inv_def)
next
  case (no_claim v now leaseUntil d er d' fl)
  then show ?case using ClaimCallback_safe(1) [OF no_claim(1), of M fl] by (simp add: callback_safe_def)
next
  case (recorded x fl w e r d z d')
  then show ?case using record_result_safe [OF recorded(3) _ recorded(1,2)]
    by (auto simp: callback_safe_def callback_inv_def list_all_iff dest: notin_set_remove1 set_remove1_subset [THEN subsetD])
next
  case (crash x fl d)
  then show ?case by (auto simp: callback_safe_def callback_inv_def final_kept_def list_all_iff dest: set_remove1_subset [THEN subsetD])
next
  case (queue e i st now d z d' fl)
  then show ?case using queue_safe [OF queue(1) _ queue(2)] by (simp add: callback_safe_def)
qed

text \<open>C12: However claims, results, crashes and new events interleave, also when leases run out and several workers hold
  one delivery: a delivery that has succeeded or finally failed is never changed again, and no
  delivery records more attempts than the workers' limit.\<close>

theorem callbacks_final_and_bounded:
  assumes "(callback_step M)\<^sup>*\<^sup>* (d, fl) (d', fl')" and "0 < M" and "callback_inv M (d, fl)"
  shows "(\<forall>c \<in> set (callback_deliveries d). \<not> callback_open (cd_status c) \<longrightarrow> c \<in> set (callback_deliveries d'))
    \<and> distinct (map cd_id (callback_deliveries d'))
    \<and> (\<forall>c \<in> set (callback_deliveries d'). cd_attempt_count c \<le> M)"
proof -
  have "callback_safe M (d, fl) (d', fl')"
    by (rule callback_safety.reachable [OF callback_step_safe [OF _ assms(2)] assms(1)])
  with assms(3) show ?thesis by (auto simp: callback_safe_def callback_inv_def final_kept_def list_all_iff delivery_ok_def)
qed

section \<open>Witnesses\<close>

theorem backoff_capped_doubling_witness:
  "backoff \<lparr>cw_MaxAttempts = 5, cw_InitialBackoff = 0, cw_MaxBackoff = 0, cw_LeaseDuration = 0, cw_Now = 0\<rparr> 3 = 4 * second"
  by (subst backoff_capped_doubling) (simp_all add: second_def)

definition callback_db :: db where
  "callback_db = empty_db\<lparr>video_tasks := [(blank_task ''t1'' 1)\<lparr>vt_version := 2, vt_callback_url_ciphertext := Some ''c''\<rparr>]\<rparr>"

definition queued_callback :: callback_delivery where
  "queued_callback = new_delivery (uuid sample_env 0) ''t1'' ''succeeded'' 2
     (sha256_hex sample_env (callback_body ''t1'' ''succeeded'')) (callback_body ''t1'' ''succeeded'') 7"

lemma sample_queue:
  "createCallbackDeliveryWithConn sample_env ''t1'' ''succeeded'' 7 callback_db =
     (Inr (), callback_deliveries_update (\<lambda>rows. rows @ [queued_callback]) callback_db)"
  by (simp add: createCallbackDeliveryWithConn_def insert_delivery_def callback_db_def empty_db_def blank_task_def queued_callback_def
      sample_env_def new_delivery_def exec_insert_apply)

definition sample_service :: CallbackService where
  "sample_service = \<lparr>cs_send = (\<lambda>_. TransportError), cs_hmac_hex = (\<lambda>k m. k @ m), cs_sha256_hex = sha256_hex sample_env, cs_now = 1,
     cs_maxResponseBytes = 0, cs_open = (\<lambda>_ c. Some c), cs_derive = Some\<rparr>"

theorem queued_delivery_sendable_witness:
  "json_valid (cd_request_body queued_callback)
   \<and> validateDelivery sample_service (delivery_of ''u'' (replicate 32 (CHR ''k'')) queued_callback) = None"
  by (rule queued_delivery_sendable [OF sample_queue])
    (simp_all add: callback_db_def empty_db_def isExternalStatus_def sample_env_def sample_service_def blank_task_def text_eval)

theorem callbacks_final_and_bounded_witness:
  "\<exists>d'. (callback_step 1)\<^sup>*\<^sup>* (callback_db, []) (d', []) \<and> callback_deliveries d' = [queued_callback]
     \<and> distinct (map cd_id (callback_deliveries d')) \<and> (\<forall>c \<in> set (callback_deliveries d'). cd_attempt_count c \<le> 1)"
proof -
  let ?d' = "callback_deliveries_update (\<lambda>rows. rows @ [queued_callback]) callback_db"
  have steps: "(callback_step 1)\<^sup>*\<^sup>* (callback_db, []) (?d', [])"
    by (blast intro: callback_step.queue [OF sample_queue])
  have "callback_inv 1 (callback_db, [])" by (simp add: callback_inv_def callback_db_def empty_db_def)
  from callbacks_final_and_bounded [OF steps _ this] steps show ?thesis
    by (intro exI [of _ ?d']) (simp add: callback_db_def empty_db_def)
qed

end
