(* ===== verification/UploadStore.thy ===== *)
theory UploadStore
  imports OfficialStore "HOL-Library.Char_ord"
begin

text \<open>
  \<^verbatim>\<open>result_delivery_store.go\<close>: the object storage configuration and the jobs that copy a result to it. A job is
  claimed under a lease for one attempt, fails or completes, and takes the task that waits for it
  along; a failed job can be given another round. A \<open>ResultUploadJob\<close> is the row, NULL read as
  the zero value.
\<close>

section \<open>Object storage configuration\<close>

definition GetObjectStorageConfig :: "storage_config op" where
  "GetObjectStorageConfig =
     reading (\<lambda>d. case object_storage_configs d of [] \<Rightarrow> Inl ErrObjectStorageNotFound | c # _ \<Rightarrow> Inr c)"

text \<open>The CHECK constraints of the table.\<close>

definition storage_row_ok :: "storage_config \<Rightarrow> bool" where
  "storage_row_ok c \<longleftrightarrow>
     sc_provider c = ''ucloud-us3'' \<and> 1 \<le> rune_count (sc_bucket_name c) \<and> rune_count (sc_bucket_name c) \<le> 63
     \<and> sc_file_host c \<noteq> [] \<and> sc_public_base_url c \<noteq> []
     \<and> 1000 \<le> sc_request_timeout_ms c \<and> sc_request_timeout_ms c \<le> 1800000"

definition PutObjectStorageConfig :: "StoreEnv \<Rightarrow> int \<Rightarrow> storage_config \<Rightarrow> storage_config op" where
  "PutObjectStorageConfig e expectedVersion c = atomically
     (let now = nowMillis e in
      and_then
        (if expectedVersion = 0 then
           and_then (ensuring (\<lambda>d. object_storage_configs d = []) ErrObjectStorageVersionConflict) (\<lambda>_.
           and_then (ensure (storage_row_ok c) (ErrSQL ''object_storage_configs'')) (\<lambda>_.
           exec_insert object_storage_configs_update
             (c\<lparr>sc_last_test_status := ''untested'', sc_last_tested_at := None, sc_version := 1, sc_created_at := now,
                sc_updated_at := now\<rparr>)))
         else
           and_then (ensuring (\<lambda>d. storage_row_ok c \<or> \<not> exists_where (\<lambda>x. sc_version x = expectedVersion) (object_storage_configs d))
                       ErrObjectStorageVersionConflict) (\<lambda>_.
           exec_one object_storage_configs object_storage_configs_update ErrObjectStorageVersionConflict
             (\<lambda>x. sc_version x = expectedVersion)
             (\<lambda>x. c\<lparr>sc_last_test_status := ''untested'', sc_last_tested_at := None, sc_version := sc_version x + 1,
                     sc_created_at := sc_created_at x, sc_updated_at := now\<rparr>))) (\<lambda>_.
      reading (\<lambda>d. case object_storage_configs d of [] \<Rightarrow> Inl (ErrSQL ''no rows'') | x # _ \<Rightarrow> Inr x)))"

definition MarkObjectStorageTest :: "StoreEnv \<Rightarrow> int \<Rightarrow> bool \<Rightarrow> unit op" where
  "MarkObjectStorageTest e expectedVersion passed =
     exec_one object_storage_configs object_storage_configs_update ErrObjectStorageVersionConflict
       (\<lambda>x. sc_version x = expectedVersion)
       (\<lambda>x. x\<lparr>sc_last_test_status := (if passed then ''passed'' else ''failed''), sc_last_tested_at := Some (nowMillis e),
              sc_updated_at := nowMillis e\<rparr>)"

section \<open>Upload jobs\<close>

definition CreateResultUploadJob :: "StoreEnv \<Rightarrow> string \<Rightarrow> string \<Rightarrow> string \<Rightarrow> unit op" where
  "CreateResultUploadJob e i task key = insert_upload (new_upload i task key (nowMillis e))"

definition GetResultUploadJob :: "string \<Rightarrow> upload_job op" where
  "GetResultUploadJob task =
     reading (\<lambda>d. case select_where (\<lambda>j. ru_task_id j = task) (result_upload_jobs d) of
        None \<Rightarrow> Inl ErrResultUploadNotFound | Some j \<Rightarrow> Inr j)"

definition GetResultUploadSource :: "string \<Rightarrow> string op" where
  "GetResultUploadSource task =
     reading (\<lambda>d. case select_where (\<lambda>t. vt_task_id t = task \<and> vt_deleted_at t = None) (video_tasks d) of
        None \<Rightarrow> Inl ErrTaskNotFound
      | Some t \<Rightarrow> let u = coalesce (vt_result_internal_url t) [] in if u = [] then Inl ErrStateConflict else Inr u)"

definition upload_claimable :: "int \<Rightarrow> upload_job \<Rightarrow> bool" where
  "upload_claimable now j \<longleftrightarrow>
     ru_attempt_no j < ru_max_attempts j
     \<and> (ru_status j = UploadPending \<or> ru_status j = UploadRetryWait \<and> coalesce (ru_next_attempt_at j) 0 \<le> now
        \<or> ru_status j = UploadUploading \<and> coalesce (ru_lease_expires_at j) 0 \<le> now)"

definition upload_exhausted :: "int \<Rightarrow> upload_job \<Rightarrow> bool" where
  "upload_exhausted now j \<longleftrightarrow>
     ru_attempt_no j \<ge> ru_max_attempts j
     \<and> (ru_status j \<in> {UploadPending, UploadRetryWait} \<or> ru_status j = UploadUploading \<and> coalesce (ru_lease_expires_at j) 0 \<le> now)"

definition oldest_jobs :: "upload_job list \<Rightarrow> upload_job list" where
  "oldest_jobs js = sort_key (\<lambda>j. (ru_created_at j, ru_id j)) js"

definition upload_failed_row :: "int \<Rightarrow> string \<Rightarrow> video_task \<Rightarrow> video_task" where
  "upload_failed_row now message t =
     (touched (now div 1000) t)\<lparr>vt_status := StatusFailed, vt_error_code := Some ''result_upload_failed'',
       vt_error_message := Some message, vt_finished_at := Some (now div 1000)\<rparr>"

definition failDeliveredTask :: "StoreEnv \<Rightarrow> string \<Rightarrow> string \<Rightarrow> int \<Rightarrow> unit op" where
  "failDeliveredTask e i message now =
     and_then (update_tasks (\<lambda>t. vt_task_id t = i \<and> vt_status t = StatusReconciling) (upload_failed_row now message)) (\<lambda>count.
     if count = 0 then ret () else createCallbackDeliveryWithConn e i ''failed'' now)"

definition exhausted_job :: "int \<Rightarrow> upload_job \<Rightarrow> upload_job" where
  "exhausted_job now j =
     j\<lparr>ru_status := UploadFailed, ru_lease_token := None, ru_lease_expires_at := None, ru_next_attempt_at := None,
       ru_last_error_code := ''result_upload_attempts_exhausted'', ru_last_error_message := ''attempts exhausted'',
       ru_finished_at := Some now, ru_updated_at := now, ru_version := ru_version j + 1\<rparr>"

text \<open>The store as the k-th iteration of a loop sees it: every iteration draws its own random identifiers.\<close>

definition drawing :: "nat \<Rightarrow> StoreEnv \<Rightarrow> StoreEnv" where
  "drawing k e = e\<lparr>uuid := (\<lambda>n. uuid e (k + n))\<rparr>"

definition exhaust_one :: "StoreEnv \<Rightarrow> nat \<times> upload_job \<Rightarrow> unit op" where
  "exhaust_one e = (\<lambda>(k, j).
     and_then (exec_update result_upload_jobs result_upload_jobs_update (\<lambda>x. ru_id x = ru_id j) (exhausted_job (nowMillis e))) (\<lambda>_.
     failDeliveredTask (drawing k e) (ru_task_id j) ''attempts exhausted'' (nowMillis e)))"

definition recoverExhaustedResultUploads :: "StoreEnv \<Rightarrow> unit op" where
  "recoverExhaustedResultUploads e = atomically
     (and_then (gets (\<lambda>d. take 100 (oldest_jobs (filter (upload_exhausted (nowMillis e)) (result_upload_jobs d))))) (\<lambda>jobs.
      for_each (exhaust_one e) (enumerate 0 jobs)))"

definition claimed_job :: "StoreEnv \<Rightarrow> string \<Rightarrow> int \<Rightarrow> upload_job \<Rightarrow> upload_job" where
  "claimed_job e leaseToken leaseMillis j =
     j\<lparr>ru_status := UploadUploading, ru_attempt_no := ru_attempt_no j + 1, ru_lease_token := Some leaseToken,
       ru_lease_expires_at := Some (nowMillis e + leaseMillis), ru_next_attempt_at := None,
       ru_started_at := keep_or (ru_started_at j) (nowMillis e), ru_updated_at := nowMillis e, ru_version := ru_version j + 1\<rparr>"

definition read_job :: "string \<Rightarrow> upload_job op" where
  "read_job i = reading (\<lambda>d. case select_where (\<lambda>j. ru_id j = i) (result_upload_jobs d) of
     None \<Rightarrow> Inl (ErrSQL ''no rows'') | Some j \<Rightarrow> Inr j)"

definition next_upload :: "int \<Rightarrow> db \<Rightarrow> err + upload_job" where
  "next_upload now d =
     (case oldest_jobs (filter (upload_claimable now) (result_upload_jobs d)) of [] \<Rightarrow> Inl ErrQueueEmpty | j # _ \<Rightarrow> Inr j)"

definition ClaimResultUploadJob :: "StoreEnv \<Rightarrow> string \<Rightarrow> int \<Rightarrow> upload_job op" where
  "ClaimResultUploadJob e leaseToken leaseMillis =
     and_then (recoverExhaustedResultUploads e) (\<lambda>_.
     atomically
       (and_then (reading (next_upload (nowMillis e))) (\<lambda>job.
        and_then (exec_one result_upload_jobs result_upload_jobs_update ErrStateConflict
                    (\<lambda>j. ru_id j = ru_id job \<and> ru_version j = ru_version job) (claimed_job e leaseToken leaseMillis)) (\<lambda>_.
        read_job (ru_id job)))))"

definition leased_row :: "string \<Rightarrow> string \<Rightarrow> db \<Rightarrow> upload_job option" where
  "leased_row i leaseToken d =
     select_where (\<lambda>j. ru_id j = i \<and> ru_status j = UploadUploading \<and> ru_lease_token j = Some leaseToken) (result_upload_jobs d)"

definition leased_job :: "string \<Rightarrow> string \<Rightarrow> upload_job op" where
  "leased_job i leaseToken =
     reading (\<lambda>d. case leased_row i leaseToken d of None \<Rightarrow> Inl ErrStateConflict | Some j \<Rightarrow> Inr j)"

definition failed_job :: "StoreEnv \<Rightarrow> bool \<Rightarrow> int \<Rightarrow> string \<Rightarrow> string \<Rightarrow> upload_job \<Rightarrow> upload_job" where
  "failed_job e again nextAt code message j =
     j\<lparr>ru_status := (if again then UploadRetryWait else UploadFailed), ru_next_attempt_at := (if again then Some nextAt else None),
       ru_lease_token := None, ru_lease_expires_at := None, ru_last_error_code := code, ru_last_error_message := message,
       ru_updated_at := nowMillis e, ru_version := ru_version j + 1\<rparr>"

definition FailResultUploadAttempt ::
  "StoreEnv \<Rightarrow> string \<Rightarrow> string \<Rightarrow> string \<Rightarrow> string \<Rightarrow> bool \<Rightarrow> int \<Rightarrow> unit op" where
  "FailResultUploadAttempt e i leaseToken code message retryable nextAt = atomically
     (and_then (leased_job i leaseToken) (\<lambda>job.
      let again = (retryable \<and> ru_attempt_no job < ru_max_attempts job) in
      and_then (exec_update result_upload_jobs result_upload_jobs_update (\<lambda>j. ru_id j = i) (failed_job e again nextAt code message)) (\<lambda>_.
      if again then ret () else failDeliveredTask e (ru_task_id job) message (nowMillis e))))"

definition renewed_job :: "StoreEnv \<Rightarrow> upload_job \<Rightarrow> upload_job" where
  "renewed_job e j =
     j\<lparr>ru_status := UploadPending, ru_round_no := ru_round_no j + 1, ru_attempt_no := 0, ru_next_attempt_at := None,
       ru_lease_token := None, ru_lease_expires_at := None, ru_last_error_code := [], ru_last_error_message := [],
       ru_started_at := None, ru_finished_at := None, ru_updated_at := nowMillis e, ru_version := ru_version j + 1\<rparr>"

definition RetryResultUpload :: "StoreEnv \<Rightarrow> string \<Rightarrow> unit op" where
  "RetryResultUpload e task = atomically
     (and_then (exec_one result_upload_jobs result_upload_jobs_update ErrResultUploadNotRetryable
                  (\<lambda>j. ru_task_id j = task \<and> ru_status j = UploadFailed) (renewed_job e)) (\<lambda>_.
      exec_one video_tasks video_tasks_update ErrResultUploadNotRetryable
        (\<lambda>t. vt_task_id t = task \<and> vt_status t = StatusFailed \<and> vt_error_code t = Some ''result_upload_failed''
             \<and> vt_result_internal_url t \<noteq> None)
        (\<lambda>t. (touched (nowMillis e div 1000) t)\<lparr>vt_status := StatusReconciling, vt_error_code := None, vt_error_message := None,
               vt_finished_at := None\<rparr>)))"

definition uploaded_job :: "StoreEnv \<Rightarrow> string \<Rightarrow> int \<Rightarrow> upload_job \<Rightarrow> upload_job" where
  "uploaded_job e publicURL bytes j =
     j\<lparr>ru_status := UploadSucceeded, ru_public_url := publicURL, ru_bytes_uploaded := bytes, ru_lease_token := None,
       ru_lease_expires_at := None, ru_finished_at := Some (nowMillis e), ru_updated_at := nowMillis e,
       ru_version := ru_version j + 1\<rparr>"

definition delivered_row :: "StoreEnv \<Rightarrow> string \<Rightarrow> video_task \<Rightarrow> video_task" where
  "delivered_row e publicURL t =
     (touched (nowUnix e) t)\<lparr>vt_status := StatusSucceeded, vt_result_public_url := Some publicURL, vt_error_code := None,
       vt_error_message := None, vt_finished_at := Some (nowUnix e)\<rparr>"

definition CompleteResultUpload :: "StoreEnv \<Rightarrow> string \<Rightarrow> string \<Rightarrow> string \<Rightarrow> int \<Rightarrow> unit op" where
  "CompleteResultUpload e i leaseToken publicURL bytes = atomically
     (and_then (leased_job i leaseToken) (\<lambda>job.
      and_then (ensure (bytes \<ge> 0) (ErrSQL ''bytes_uploaded'')) (\<lambda>_.
      and_then (exec_update result_upload_jobs result_upload_jobs_update (\<lambda>j. ru_id j = i) (uploaded_job e publicURL bytes)) (\<lambda>_.
      and_then (update_one_task (\<lambda>t. vt_task_id t = ru_task_id job \<and> vt_status t = StatusReconciling \<and> vt_result_internal_url t \<noteq> None)
                  (delivered_row e publicURL)) (\<lambda>_.
      createCallbackDeliveryWithConn e (ru_task_id job) ''succeeded'' (nowMillis e))))))"

section \<open>The life of an upload job\<close>

text \<open>
  The invariant of the jobs: ids and tasks are unique, no job has more attempts than its round
  allows, and exactly the jobs that are uploading are leased.
\<close>

definition job_ok :: "upload_job \<Rightarrow> bool" where
  "job_ok j \<longleftrightarrow> 0 \<le> ru_attempt_no j \<and> ru_attempt_no j \<le> ru_max_attempts j
     \<and> (ru_lease_token j \<noteq> None \<longleftrightarrow> ru_status j = UploadUploading)"

definition jobs_inv :: "db \<Rightarrow> bool" where
  "jobs_inv d \<longleftrightarrow> distinct (map ru_id (result_upload_jobs d)) \<and> distinct (map ru_task_id (result_upload_jobs d))
     \<and> list_all job_ok (result_upload_jobs d)"

definition jobs_safe :: "db \<Rightarrow> db \<Rightarrow> bool" where
  "jobs_safe d d' \<longleftrightarrow> (jobs_inv d \<longrightarrow> jobs_inv d')"

interpretation job_safety: step_contract jobs_safe
  by unfold_locales (auto simp: jobs_safe_def)

lemma jobs_frame: "result_upload_jobs d' = result_upload_jobs d \<Longrightarrow> jobs_safe d d'"
  by (simp add: jobs_safe_def jobs_inv_def)

lemma jobs_update:
  assumes "\<And>j. ru_id (f j) = ru_id j \<and> ru_task_id (f j) = ru_task_id j"
    and "\<And>j. j \<in> set (result_upload_jobs d) \<Longrightarrow> p j \<Longrightarrow> job_ok j \<Longrightarrow> job_ok (f j)"
  shows "jobs_safe d (result_upload_jobs_update (update_where p f) d)"
  using assms by (auto simp: jobs_safe_def jobs_inv_def distinct_update_where list_all_iff set_update_where)

lemma jobs_tables: "jobs_safe d (video_tasks_update f d)"
  by (rule jobs_frame) simp

lemma jobs_callback: "keeps jobs_safe (createCallbackDeliveryWithConn e i st now)"
  by (rule keepsI) (auto dest!: callback_frame intro: jobs_frame)

lemma jobs_reading: "keeps jobs_safe (reading f)" "keeps jobs_safe (leased_job i tok)" "keeps jobs_safe (read_job i)"
  by (simp_all add: keeps_def leased_job_def read_job_def job_safety.refl)

lemma jobs_insert_upload: "keeps jobs_safe (insert_upload (new_upload i task key now))"
  by (rule keepsI) (auto simp: insert_upload_def and_then_ensuring jobs_safe_def jobs_inv_def job_ok_def new_upload_def
      split: if_splits)

lemma failDeliveredTask_keeps: "keeps jobs_safe (failDeliveredTask e i m now)"
  unfolding failDeliveredTask_def
  by (intro job_safety.keeps_intros keeps_exec_update jobs_tables jobs_callback)

lemmas jobs_intros = job_safety.keeps_intros keeps_exec_one keeps_exec_update keeps_split jobs_reading jobs_tables jobs_callback
  jobs_insert_upload failDeliveredTask_keeps jobs_update

lemma job_rows [simp]:
  "ru_id (exhausted_job now j) = ru_id j" "ru_task_id (exhausted_job now j) = ru_task_id j"
  "ru_id (claimed_job e tok ms j) = ru_id j" "ru_task_id (claimed_job e tok ms j) = ru_task_id j"
  "ru_id (failed_job e a n c m j) = ru_id j" "ru_task_id (failed_job e a n c m j) = ru_task_id j"
  "ru_id (renewed_job e j) = ru_id j" "ru_task_id (renewed_job e j) = ru_task_id j"
  "ru_id (uploaded_job e u b j) = ru_id j" "ru_task_id (uploaded_job e u b j) = ru_task_id j"
  by (simp_all add: exhausted_job_def claimed_job_def failed_job_def renewed_job_def uploaded_job_def)

lemma job_ok_rows:
  "job_ok j \<Longrightarrow> job_ok (exhausted_job now j)" "job_ok j \<Longrightarrow> job_ok (failed_job e a n c m j)"
  "job_ok j \<Longrightarrow> job_ok (renewed_job e j)" "job_ok j \<Longrightarrow> job_ok (uploaded_job e u b j)"
  "job_ok j \<Longrightarrow> ru_attempt_no j < ru_max_attempts j \<Longrightarrow> job_ok (claimed_job e tok ms j)"
  by (simp_all add: job_ok_def exhausted_job_def claimed_job_def failed_job_def renewed_job_def uploaded_job_def)

lemma upload_keeps:
  "keeps jobs_safe (CreateResultUploadJob e i task key)" "keeps jobs_safe (recoverExhaustedResultUploads e)"
  "keeps jobs_safe (FailResultUploadAttempt e i tok code msg rt at)" "keeps jobs_safe (RetryResultUpload e task)"
  "keeps jobs_safe (CompleteResultUpload e i tok u b)"
  unfolding CreateResultUploadJob_def recoverExhaustedResultUploads_def exhaust_one_def FailResultUploadAttempt_def RetryResultUpload_def
    CompleteResultUpload_def Let_def
  by (intro jobs_intros; simp add: job_ok_rows; fail)+

lemma next_uploadD:
  assumes "next_upload now d = Inr j"
  shows "j \<in> set (result_upload_jobs d)" "upload_claimable now j"
proof -
  from assms obtain rest where "oldest_jobs (filter (upload_claimable now) (result_upload_jobs d)) = j # rest"
    by (auto simp: next_upload_def split: list.splits)
  then have "j \<in> set (filter (upload_claimable now) (result_upload_jobs d))"
    by (metis list.set_intros(1) oldest_jobs_def set_sort)
  then show "j \<in> set (result_upload_jobs d)" "upload_claimable now j" by simp_all
qed

lemma ClaimResultUploadJob_success:
  assumes "ClaimResultUploadJob e tok ms d = (Inr job, d')" and "jobs_inv d"
  obtains d1 j where "recoverExhaustedResultUploads e d = (Inr (), d1)" "jobs_inv d1" "j \<in> set (result_upload_jobs d1)"
    "upload_claimable (nowMillis e) j" "job = claimed_job e tok ms j"
    "d' = result_upload_jobs_update (update_where (\<lambda>x. ru_id x = ru_id j) (claimed_job e tok ms)) d1"
proof -
  from assms(1) obtain d1 j where rec: "recoverExhaustedResultUploads e d = (Inr (), d1)"
    and hd: "next_upload (nowMillis e) d1 = Inr j"
    and one: "affected (\<lambda>x. ru_id x = ru_id j \<and> ru_version x = ru_version j) (result_upload_jobs d1) = 1"
    and d': "d' = result_upload_jobs_update (update_where (\<lambda>x. ru_id x = ru_id j \<and> ru_version x = ru_version j) (claimed_job e tok ms)) d1"
    and got: "read_job (ru_id j) d' = (Inr job, d')"
    unfolding ClaimResultUploadJob_def
    by (auto simp: tx_success read_job_def)
  have inv: "jobs_inv d1" using keepsD [OF upload_keeps(2) rec] assms(2) by (simp add: jobs_safe_def)
  then have ids: "distinct (map ru_id (result_upload_jobs d1))" by (simp add: jobs_inv_def)
  note j = next_uploadD [OF hd]
  have d'': "d' = result_upload_jobs_update (update_where (\<lambda>x. ru_id x = ru_id j) (claimed_job e tok ms)) d1"
    unfolding d' by (intro upload_table.upd_cong update_key_only [OF ids j(1)]) auto
  then have "job = claimed_job e tok ms j"
    using got select_key_update [OF ids j(1), of "claimed_job e tok ms"] by (simp add: read_job_def)
  with rec inv j d'' that show thesis by blast
qed

lemma claim_keeps: "keeps jobs_safe (ClaimResultUploadJob e tok ms)"
proof (rule keepsI)
  fix d r d' assume run: "ClaimResultUploadJob e tok ms d = (r, d')"
  show "jobs_safe d d'" unfolding jobs_safe_def
  proof
    assume inv: "jobs_inv d"
    show "jobs_inv d'"
    proof (cases r)
      case (Inr job)
      then have "ClaimResultUploadJob e tok ms d = (Inr job, d')" using run by simp
      from this inv show ?thesis
      proof (rule ClaimResultUploadJob_success)
        fix d1 j assume inv1: "jobs_inv d1" and j: "j \<in> set (result_upload_jobs d1)" "upload_claimable (nowMillis e) j"
          and d': "d' = result_upload_jobs_update (update_where (\<lambda>x. ru_id x = ru_id j) (claimed_job e tok ms)) d1"
        have ids: "distinct (map ru_id (result_upload_jobs d1))" using inv1 by (simp add: jobs_inv_def)
        have room: "ru_attempt_no x < ru_max_attempts x" if "x \<in> set (result_upload_jobs d1)" "ru_id x = ru_id j" for x
        proof -
          have "x = j" by (rule key_unique [OF ids that(1) j(1) that(2)])
          with j(2) show ?thesis by (simp add: upload_claimable_def)
        qed
        have "jobs_safe d1 d'" unfolding d' by (rule jobs_update) (simp, blast intro: job_ok_rows(5) room)
        with inv1 show "jobs_inv d'" by (simp add: jobs_safe_def)
      qed
    next
      case (Inl er)
      then have "jobs_safe d d'" using run keepsD [OF upload_keeps(2)] unfolding ClaimResultUploadJob_def
        by (auto simp: and_then_def split: prod.splits sum.splits dest!: atomically_failure)
      with inv show ?thesis by (simp add: jobs_safe_def)
    qed
  qed
qed

inductive upload_step :: "db \<Rightarrow> db \<Rightarrow> bool" where
  create: "CreateResultUploadJob e i task key d = (z, d') \<Longrightarrow> upload_step d d'"
| claim: "ClaimResultUploadJob e tok ms d = (x, d') \<Longrightarrow> upload_step d d'"
| fail: "FailResultUploadAttempt e i tok code msg rt at d = (z, d') \<Longrightarrow> upload_step d d'"
| retry: "RetryResultUpload e task d = (z, d') \<Longrightarrow> upload_step d d'"
| complete: "CompleteResultUpload e i tok u b d = (z, d') \<Longrightarrow> upload_step d d'"

lemma upload_step_safe: "upload_step d d' \<Longrightarrow> jobs_safe d d'"
  by (induction rule: upload_step.induct) (erule keepsD [rotated], rule upload_keeps claim_keeps)+

text \<open>Who holds the lease of a job.\<close>

definition job_holder :: "string \<Rightarrow> db \<Rightarrow> string option" where
  "job_holder i d = (case select_where (\<lambda>j. ru_id j = i) (result_upload_jobs d) of
     Some j \<Rightarrow> if ru_status j = UploadUploading then ru_lease_token j else None | None \<Rightarrow> None)"

lemma leased_job_success: "leased_job i tok d = (Inr j, d') \<longleftrightarrow> leased_row i tok d = Some j \<and> d' = d"
  by (auto simp: leased_job_def split: option.splits)

lemma leased_rowD:
  assumes "leased_row i tok d = Some j"
  shows "j \<in> set (result_upload_jobs d)" "ru_id j = i" "ru_status j = UploadUploading" "ru_lease_token j = Some tok"
  using select_where_Some [OF assms [unfolded leased_row_def]] by simp_all

lemma leased_row_holder:
  assumes "leased_row i tok d = Some j" and "jobs_inv d"
  shows "job_holder i d = Some tok"
proof -
  note j = leased_rowD [OF assms(1)]
  have "select_where (\<lambda>x. ru_id x = i) (result_upload_jobs d) = Some j"
    by (rule select_where_key [where k = ru_id]) (use assms(2) j in \<open>auto simp: jobs_inv_def\<close>)
  with j show ?thesis by (simp add: job_holder_def)
qed

interpretation upload_failing: atomic_leased_op jobs_inv "job_holder i"
  "\<lambda>tok. FailResultUploadAttempt e i tok code msg rt at" for e i code msg rt at
  by unfold_locales (auto simp: FailResultUploadAttempt_def Let_def and_then_success_iff leased_job_success dest: leased_row_holder atomically_failure)

interpretation upload_completing: atomic_leased_op jobs_inv "job_holder i" "\<lambda>tok. CompleteResultUpload e i tok u b" for e i u b
  by unfold_locales (auto simp: CompleteResultUpload_def and_then_success_iff leased_job_success dest: leased_row_holder atomically_failure)

lemma job_holder_after:
  assumes "distinct (map ru_id (result_upload_jobs d))" and "j \<in> set (result_upload_jobs d)" and "ru_id j = i"
    and "result_upload_jobs d' = update_where (\<lambda>x. ru_id x = i) f (result_upload_jobs d)" and "\<And>x. ru_id (f x) = ru_id x"
  shows "job_holder i d' = (if ru_status (f j) = UploadUploading then ru_lease_token (f j) else None)"
  using select_key_update [OF assms(1,2), of f] assms(3-5) by (simp add: job_holder_def)

lemma CompleteResultUpload_success:
  assumes "CompleteResultUpload e i tok u b d = (Inr (), d')"
  obtains j where "leased_row i tok d = Some j" "b \<ge> 0"
    "affected (\<lambda>t. vt_task_id t = ru_task_id j \<and> vt_status t = StatusReconciling \<and> vt_result_internal_url t \<noteq> None) (video_tasks d) = 1"
    "video_tasks d' = update_where (\<lambda>t. vt_task_id t = ru_task_id j \<and> vt_status t = StatusReconciling \<and> vt_result_internal_url t \<noteq> None)
       (delivered_row e u) (video_tasks d)"
    "result_upload_jobs d' = update_where (\<lambda>x. ru_id x = i) (uploaded_job e u b) (result_upload_jobs d)"
  using assms unfolding CompleteResultUpload_def atomically_success_iff
  by (auto simp: tx_success leased_job_success dest!: callback_frame)

text \<open>A result is delivered exactly once and only by the worker that holds the job: a successful completion comes
  from the lease holder, publishes the uploaded address on the waiting task, keeps the original
  result, and closes the job, after which nobody can complete it or report it failed.\<close>

theorem CompleteResultUpload_delivers:
  assumes "CompleteResultUpload e i tok u b d = (Inr (), d')" and "jobs_inv d"
  shows "job_holder i d = Some tok
    \<and> (\<exists>j \<in> set (result_upload_jobs d). \<exists>t \<in> set (video_tasks d). ru_id j = i \<and> vt_task_id t = ru_task_id j
         \<and> vt_status t = StatusReconciling \<and> vt_result_internal_url t \<noteq> None
         \<and> uploaded_job e u b j \<in> set (result_upload_jobs d') \<and> delivered_row e u t \<in> set (video_tasks d'))
    \<and> (\<exists>er. CompleteResultUpload e' i tok' u' b' d' = (Inl er, d'))
    \<and> (\<exists>er. FailResultUploadAttempt e' i tok' code msg rt at d' = (Inl er, d'))"
proof -
  from assms(1) obtain j where lj: "leased_row i tok d = Some j"
    and one: "affected (\<lambda>t. vt_task_id t = ru_task_id j \<and> vt_status t = StatusReconciling \<and> vt_result_internal_url t \<noteq> None) (video_tasks d) = 1"
    and tasks: "video_tasks d' = update_where (\<lambda>t. vt_task_id t = ru_task_id j \<and> vt_status t = StatusReconciling \<and> vt_result_internal_url t \<noteq> None)
       (delivered_row e u) (video_tasks d)"
    and jobs: "result_upload_jobs d' = update_where (\<lambda>x. ru_id x = i) (uploaded_job e u b) (result_upload_jobs d)"
    by (rule CompleteResultUpload_success)
  note j = leased_rowD [OF lj]
  from affected_one_ex [OF one] obtain t where t: "t \<in> set (video_tasks d)" "vt_task_id t = ru_task_id j"
    "vt_status t = StatusReconciling" "vt_result_internal_url t \<noteq> None" by blast
  have rows: "uploaded_job e u b j \<in> set (result_upload_jobs d')" "delivered_row e u t \<in> set (video_tasks d')"
    using j t by (auto simp: jobs tasks set_update_where)
  have inv: "jobs_inv d'" using keepsD [OF upload_keeps(5) assms(1)] assms(2) by (simp add: jobs_safe_def)
  have ids: "distinct (map ru_id (result_upload_jobs d))" using assms(2) by (simp add: jobs_inv_def)
  have "job_holder i d' = None"
    using job_holder_after [OF ids j(1,2) jobs] by (simp add: uploaded_job_def)
  then have "job_holder i d' \<noteq> Some tok'" by simp
  note closed = upload_completing.stale_harmless [OF inv this] upload_failing.stale_harmless [OF inv this]
  from rows j t have "\<exists>j \<in> set (result_upload_jobs d). \<exists>t \<in> set (video_tasks d). ru_id j = i \<and> vt_task_id t = ru_task_id j
         \<and> vt_status t = StatusReconciling \<and> vt_result_internal_url t \<noteq> None
         \<and> uploaded_job e u b j \<in> set (result_upload_jobs d') \<and> delivered_row e u t \<in> set (video_tasks d')" by blast
  with leased_row_holder [OF lj assms(2)] closed show ?thesis by blast
qed

text \<open>Recovery: what one iteration does to the exhausted jobs and to the tasks that wait for them.\<close>

definition still_waiting :: "db \<Rightarrow> string \<Rightarrow> bool" where
  "still_waiting d i \<longleftrightarrow> (\<exists>t \<in> set (video_tasks d). vt_task_id t = i \<and> vt_status t = StatusReconciling)"

lemma failDeliveredTask_frame:
  assumes "failDeliveredTask e i m now d = (r, d')"
  shows "result_upload_jobs d' = result_upload_jobs d"
    and "video_tasks d' = update_where (\<lambda>t. vt_task_id t = i \<and> vt_status t = StatusReconciling) (upload_failed_row now m) (video_tasks d)"
  using assms unfolding failDeliveredTask_def by (auto split: if_splits dest!: callback_frame)

lemma failed_row_status [simp]:
  "vt_status (upload_failed_row now m t) = StatusFailed" "vt_task_id (upload_failed_row now m t) = vt_task_id t"
  by (simp_all add: upload_failed_row_def)

lemma exhaust_one_effect:
  assumes "exhaust_one e (k, j) d = (r, d')"
  shows "result_upload_jobs d' = update_where (\<lambda>x. ru_id x = ru_id j) (exhausted_job (nowMillis e)) (result_upload_jobs d)"
    and "\<not> still_waiting d' (ru_task_id j)"
    and "still_waiting d' i \<Longrightarrow> still_waiting d i"
proof -
  from assms have f: "failDeliveredTask (drawing k e) (ru_task_id j) ''attempts exhausted'' (nowMillis e)
      (result_upload_jobs_update (update_where (\<lambda>x. ru_id x = ru_id j) (exhausted_job (nowMillis e))) d) = (r, d')"
    by (simp add: exhaust_one_def)
  note frame = failDeliveredTask_frame [OF f]
  show "result_upload_jobs d' = update_where (\<lambda>x. ru_id x = ru_id j) (exhausted_job (nowMillis e)) (result_upload_jobs d)"
    using frame(1) by simp
  show "\<not> still_waiting d' (ru_task_id j)"
    using frame(2) by (auto simp: still_waiting_def set_update_where)
  show "still_waiting d i" if "still_waiting d' i"
    using frame(2) that by (auto simp: still_waiting_def set_update_where)
qed

lemma exhaust_all:
  "for_each (exhaust_one e) js d = (Inr (), d') \<Longrightarrow>
     (\<forall>x \<in> set (result_upload_jobs d'). upload_exhausted (nowMillis e) x \<longrightarrow>
        x \<in> set (result_upload_jobs d) \<and> ru_id x \<notin> (\<lambda>(k, j). ru_id j) ` set js)
     \<and> (\<forall>(k, j) \<in> set js. \<not> still_waiting d' (ru_task_id j))
     \<and> (\<forall>i. still_waiting d' i \<longrightarrow> still_waiting d i)"
proof (induction js arbitrary: d)
  case (Cons kj js)
  obtain k j where kj: "kj = (k, j)" by (cases kj)
  from Cons.prems obtain d1 where one: "exhaust_one e (k, j) d = (Inr (), d1)" and rest: "for_each (exhaust_one e) js d1 = (Inr (), d')"
    by (auto simp: kj and_then_success_iff)
  note step = exhaust_one_effect [OF one] and IH = Cons.IH [OF rest]
  have "x \<in> set (result_upload_jobs d) \<and> ru_id x \<noteq> ru_id j"
    if x: "x \<in> set (result_upload_jobs d1)" "upload_exhausted (nowMillis e) x" for x
  proof -
    have "\<not> upload_exhausted (nowMillis e) (exhausted_job (nowMillis e) y)" for y
      by (simp add: upload_exhausted_def exhausted_job_def)
    with x show ?thesis by (auto simp: step(1) set_update_where)
  qed
  with IH step(2,3) show ?case by (auto simp: kj)
qed simp

lemma in_enumerate: "x \<in> set xs \<Longrightarrow> \<exists>k. (k, x) \<in> set (enumerate n xs)"
  by (induction xs arbitrary: n) (simp, metis enumerate_simps(2) set_ConsD list.set_intros)

text \<open>No upload is left hanging: once the recovery that precedes every claim has run, with at most 100 exhausted
  jobs, none is left, and no task that waited for one of them is still waiting.\<close>

theorem recoverExhaustedResultUploads_clears:
  assumes "recoverExhaustedResultUploads e d = (Inr (), d')"
    and "affected (upload_exhausted (nowMillis e)) (result_upload_jobs d) \<le> 100"
  shows "(\<forall>x \<in> set (result_upload_jobs d'). \<not> upload_exhausted (nowMillis e) x)
    \<and> (\<forall>j \<in> set (result_upload_jobs d). upload_exhausted (nowMillis e) j \<longrightarrow>
         \<not> (\<exists>t \<in> set (video_tasks d'). vt_task_id t = ru_task_id j \<and> vt_status t = StatusReconciling))"
proof -
  let ?old = "oldest_jobs (filter (upload_exhausted (nowMillis e)) (result_upload_jobs d))"
  have all: "take 100 ?old = ?old" and old: "set ?old = {j \<in> set (result_upload_jobs d). upload_exhausted (nowMillis e) j}"
    using assms(2) by (simp_all add: oldest_jobs_def affected_def)
  from assms(1) have "for_each (exhaust_one e) (enumerate 0 ?old) d = (Inr (), d')"
    by (simp add: recoverExhaustedResultUploads_def all)
  note eff = exhaust_all [OF this]
  have mem: "\<exists>k. (k, j) \<in> set (enumerate 0 ?old)" if "j \<in> set ?old" for j
    using that by (rule in_enumerate)
  have ids: "ru_id j \<in> (\<lambda>(k, j). ru_id j) ` set (enumerate 0 ?old)" if "j \<in> set ?old" for j
    using mem [OF that] by force
  show ?thesis
  proof (intro conjI ballI notI impI)
    fix x assume x: "x \<in> set (result_upload_jobs d')" "upload_exhausted (nowMillis e) x"
    with eff have "x \<in> set (result_upload_jobs d)" "ru_id x \<notin> (\<lambda>(k, j). ru_id j) ` set (enumerate 0 ?old)" by blast+
    with ids [of x] x(2) old show False by blast
  next
    fix j assume "j \<in> set (result_upload_jobs d)" "upload_exhausted (nowMillis e) j"
      "\<exists>t \<in> set (video_tasks d'). vt_task_id t = ru_task_id j \<and> vt_status t = StatusReconciling"
    with eff mem [of j] old show False unfolding still_waiting_def by fast
  qed
qed

section \<open>Finished jobs\<close>

text \<open>
  How a job may change: its row stays, a succeeded job never changes again, and a failed one only by a retry, which
  starts a new round.
\<close>

definition job_moves :: "upload_job \<Rightarrow> upload_job \<Rightarrow> bool" where
  "job_moves j j' \<longleftrightarrow> ru_id j' = ru_id j \<and> ru_round_no j \<le> ru_round_no j'
     \<and> (ru_status j = UploadSucceeded \<longrightarrow> j' = j) \<and> (ru_status j = UploadFailed \<longrightarrow> j' = j \<or> ru_round_no j < ru_round_no j')"

definition jobs_move :: "db \<Rightarrow> db \<Rightarrow> bool" where
  "jobs_move d d' \<longleftrightarrow> (jobs_inv d \<longrightarrow> jobs_inv d' \<and> (\<forall>j \<in> set (result_upload_jobs d). \<exists>j' \<in> set (result_upload_jobs d'). job_moves j j'))"

lemma job_moves_refl: "job_moves j j"
  by (simp add: job_moves_def)

lemma job_moves_trans: "job_moves j k \<Longrightarrow> job_moves k l \<Longrightarrow> job_moves j l"
  by (auto simp: job_moves_def)

interpretation job_moving: step_contract jobs_move
proof
  show "jobs_move d d" for d using job_moves_refl by (auto simp: jobs_move_def)
  show "jobs_move d d''" if "jobs_move d d'" "jobs_move d' d''" for d d' d''
    using that job_moves_trans unfolding jobs_move_def by meson
qed

lemma move_safe:
  assumes "jobs_safe d d'" and "\<And>j. jobs_inv d \<Longrightarrow> j \<in> set (result_upload_jobs d) \<Longrightarrow> \<exists>j' \<in> set (result_upload_jobs d'). job_moves j j'"
  shows "jobs_move d d'"
  using assms by (auto simp: jobs_move_def jobs_safe_def)

text \<open>A statement that changes an unfinished job of a given id and keeps its round.\<close>

lemma moved_row:
  assumes inv: "jobs_inv d" and k: "k \<in> set (result_upload_jobs d)" and open_job: "ru_status k \<notin> {UploadSucceeded, UploadFailed}"
    and f: "\<And>x. ru_id (f x) = ru_id x \<and> ru_round_no (f x) = ru_round_no x"
    and d': "result_upload_jobs d' = update_where (\<lambda>x. ru_id x = ru_id k) f (result_upload_jobs d)"
    and j: "j \<in> set (result_upload_jobs d)"
  shows "\<exists>j' \<in> set (result_upload_jobs d'). job_moves j j'"
proof (cases "ru_id j = ru_id k")
  case True
  with inv j k have "j = k" using key_unique [of ru_id "result_upload_jobs d" j k] by (simp add: jobs_inv_def)
  with j have "f j \<in> set (result_upload_jobs d')" "job_moves j (f j)"
    using open_job f by (auto simp: d' set_update_where job_moves_def)
  then show ?thesis by blast
next
  case False
  with j have "j \<in> set (result_upload_jobs d')" by (auto simp: d' set_update_where)
  then show ?thesis using job_moves_refl by blast
qed

lemma create_moves: "keeps jobs_move (CreateResultUploadJob e i task key)"
proof (rule keepsI)
  fix d r d' assume run: "CreateResultUploadJob e i task key d = (r, d')"
  then have "set (result_upload_jobs d) \<subseteq> set (result_upload_jobs d')"
    by (auto simp: CreateResultUploadJob_def insert_upload_def and_then_ensuring split: if_splits)
  then show "jobs_move d d'" by (intro move_safe [OF keepsD [OF upload_keeps(1) run]]) (blast intro: job_moves_refl)
qed

lemma exhaust_rows:
  assumes "for_each (exhaust_one e) js d = (r, d')" and "j \<in> set (result_upload_jobs d)"
  shows "\<exists>j' \<in> set (result_upload_jobs d'). ru_id j' = ru_id j \<and> ru_round_no j' = ru_round_no j
     \<and> (ru_id j \<notin> (\<lambda>(k, x). ru_id x) ` set js \<longrightarrow> j' = j)"
  using assms
proof (induction js arbitrary: d j)
  case (Cons kx js)
  obtain k x where kx: "kx = (k, x)" by (cases kx)
  obtain q d1 where one: "exhaust_one e (k, x) d = (q, d1)" by (cases "exhaust_one e (k, x) d")
  let ?j = "if ru_id j = ru_id x then exhausted_job (nowMillis e) j else j"
  have j1: "?j \<in> set (result_upload_jobs d1)" "ru_id ?j = ru_id j" "ru_round_no ?j = ru_round_no j"
    using Cons.prems(2) by (auto simp: exhaust_one_effect(1) [OF one] set_update_where exhausted_job_def)
  show ?case
  proof (cases q)
    case (Inl er)
    with Cons.prems(1) one have "d' = d1" by (simp add: kx)
    with j1 show ?thesis by (intro bexI [of _ ?j]) (auto simp: kx)
  next
    case (Inr u)
    with Cons.prems(1) one have "for_each (exhaust_one e) js d1 = (r, d')" by (simp add: kx)
    from Cons.IH [OF this j1(1), unfolded j1(2,3)] obtain j' where "j' \<in> set (result_upload_jobs d')" "ru_id j' = ru_id j" "ru_round_no j' = ru_round_no j"
      "ru_id j \<notin> (\<lambda>(k, x). ru_id x) ` set js \<Longrightarrow> j' = ?j" by blast
    then show ?thesis by (intro bexI [of _ j']) (auto simp: kx)
  qed
qed auto

lemma recover_moves: "keeps jobs_move (recoverExhaustedResultUploads e)"
proof (rule keepsI)
  fix d r d' assume run: "recoverExhaustedResultUploads e d = (r, d')"
  show "jobs_move d d'"
  proof (rule move_safe [OF keepsD [OF upload_keeps(2) run]])
    fix j assume inv: "jobs_inv d" and j: "j \<in> set (result_upload_jobs d)"
    let ?js = "enumerate 0 (take 100 (oldest_jobs (filter (upload_exhausted (nowMillis e)) (result_upload_jobs d))))"
    show "\<exists>j' \<in> set (result_upload_jobs d'). job_moves j j'"
    proof (cases r)
      case (Inl er)
      with run have "d' = d" unfolding recoverExhaustedResultUploads_def by (auto dest: atomically_failure)
      with j show ?thesis using job_moves_refl by blast
    next
      case (Inr u)
      with run have "for_each (exhaust_one e) ?js d = (Inr u, d')" by (simp add: recoverExhaustedResultUploads_def)
      from exhaust_rows [OF this j] obtain j' where j': "j' \<in> set (result_upload_jobs d')" "ru_id j' = ru_id j" "ru_round_no j' = ru_round_no j"
        "ru_id j \<notin> (\<lambda>(k, x). ru_id x) ` set ?js \<Longrightarrow> j' = j" by blast
      have "ru_id j \<notin> (\<lambda>(k, x). ru_id x) ` set ?js" if fin: "ru_status j \<in> {UploadSucceeded, UploadFailed}"
      proof
        assume "ru_id j \<in> (\<lambda>(k, x). ru_id x) ` set ?js"
        then obtain k x where kx: "(k, x) \<in> set ?js" and id: "ru_id j = ru_id x" by auto
        from kx have "x \<in> set (take 100 (oldest_jobs (filter (upload_exhausted (nowMillis e)) (result_upload_jobs d))))"
          by (metis in_set_zip enumerate_eq_zip snd_conv nth_mem)
        then have x: "x \<in> set (result_upload_jobs d)" "upload_exhausted (nowMillis e) x"
          by (auto simp: oldest_jobs_def dest!: in_set_takeD)
        have "j = x" using inv key_unique [of ru_id, OF _ j x(1) id] by (simp add: jobs_inv_def)
        with x(2) fin show False by (auto simp: upload_exhausted_def)
      qed
      with j' have "job_moves j j'" by (auto simp: job_moves_def)
      with j'(1) show ?thesis by blast
    qed
  qed
qed

lemma claim_moves: "keeps jobs_move (ClaimResultUploadJob e tok ms)"
proof (rule keepsI)
  fix d r d' assume run: "ClaimResultUploadJob e tok ms d = (r, d')"
  show "jobs_move d d'"
  proof (rule move_safe [OF keepsD [OF claim_keeps run]])
    fix j assume inv: "jobs_inv d" and j: "j \<in> set (result_upload_jobs d)"
    show "\<exists>j' \<in> set (result_upload_jobs d'). job_moves j j'"
    proof (cases r)
      case (Inl er)
      with run obtain q where "recoverExhaustedResultUploads e d = (q, d')" unfolding ClaimResultUploadJob_def
        by (auto simp: and_then_def split: prod.splits sum.splits dest!: atomically_failure)
      with inv j show ?thesis using keepsD [OF recover_moves] unfolding jobs_move_def by blast
    next
      case (Inr job)
      with run have "ClaimResultUploadJob e tok ms d = (Inr job, d')" by simp
      then obtain d1 k where rec: "recoverExhaustedResultUploads e d = (Inr (), d1)" and inv1: "jobs_inv d1"
        and k: "k \<in> set (result_upload_jobs d1)" "upload_claimable (nowMillis e) k"
        and d': "d' = result_upload_jobs_update (update_where (\<lambda>x. ru_id x = ru_id k) (claimed_job e tok ms)) d1"
        using inv by (rule ClaimResultUploadJob_success)
      from keepsD [OF recover_moves rec] inv j obtain j1 where j1: "j1 \<in> set (result_upload_jobs d1)" "job_moves j j1"
        unfolding jobs_move_def by blast
      have "\<exists>j' \<in> set (result_upload_jobs d'). job_moves j1 j'"
        by (rule moved_row [OF inv1 k(1) _ _ _ j1(1), where f = "claimed_job e tok ms"]) (use k(2) in \<open>auto simp: d' upload_claimable_def claimed_job_def\<close>)
      with j1(2) show ?thesis using job_moves_trans by blast
    qed
  qed
qed

lemma leased_moves:
  assumes lj: "leased_row i tok d = Some job" and inv: "jobs_inv d" and j: "j \<in> set (result_upload_jobs d)"
    and d': "result_upload_jobs d' = update_where (\<lambda>x. ru_id x = i) f (result_upload_jobs d)"
    and f: "\<And>x. ru_id (f x) = ru_id x \<and> ru_round_no (f x) = ru_round_no x"
  shows "\<exists>j' \<in> set (result_upload_jobs d'). job_moves j j'"
proof -
  note job = leased_rowD [OF lj]
  show ?thesis by (rule moved_row [OF inv job(1) _ f _ j]) (use job d' in auto)
qed

lemma fail_moves: "keeps jobs_move (FailResultUploadAttempt e i tok code msg rt at)"
proof (rule keepsI)
  fix d r d' assume run: "FailResultUploadAttempt e i tok code msg rt at d = (r, d')"
  show "jobs_move d d'"
  proof (rule move_safe [OF keepsD [OF upload_keeps(3) run]])
    fix j assume inv: "jobs_inv d" and j: "j \<in> set (result_upload_jobs d)"
    show "\<exists>j' \<in> set (result_upload_jobs d'). job_moves j j'"
    proof (cases r)
      case (Inl er)
      with run have "d' = d" unfolding FailResultUploadAttempt_def by (auto dest: atomically_failure)
      with j show ?thesis using job_moves_refl by blast
    next
      case (Inr u)
      with run obtain job again where lj: "leased_row i tok d = Some job"
        and rows: "result_upload_jobs d' = update_where (\<lambda>x. ru_id x = i) (failed_job e again at code msg) (result_upload_jobs d)"
        unfolding FailResultUploadAttempt_def Let_def
        by (auto simp: tx_success leased_job_success failDeliveredTask_frame split: if_splits)
      show ?thesis by (rule leased_moves [OF lj inv j rows]) (simp add: failed_job_def)
    qed
  qed
qed

lemma upload_complete_moves: "keeps jobs_move (CompleteResultUpload e i tok u b)"
proof (rule keepsI)
  fix d r d' assume run: "CompleteResultUpload e i tok u b d = (r, d')"
  show "jobs_move d d'"
  proof (rule move_safe [OF keepsD [OF upload_keeps(5) run]])
    fix j assume inv: "jobs_inv d" and j: "j \<in> set (result_upload_jobs d)"
    show "\<exists>j' \<in> set (result_upload_jobs d'). job_moves j j'"
    proof (cases r)
      case (Inl er)
      with run have "d' = d" unfolding CompleteResultUpload_def by (auto dest: atomically_failure)
      with j show ?thesis using job_moves_refl by blast
    next
      case (Inr x)
      with run have "CompleteResultUpload e i tok u b d = (Inr (), d')" by simp
      then obtain job where lj: "leased_row i tok d = Some job"
        and rows: "result_upload_jobs d' = update_where (\<lambda>x. ru_id x = i) (uploaded_job e u b) (result_upload_jobs d)"
        by (rule CompleteResultUpload_success)
      show ?thesis by (rule leased_moves [OF lj inv j rows]) (simp add: uploaded_job_def)
    qed
  qed
qed

lemma retry_moves: "keeps jobs_move (RetryResultUpload e task)"
proof (rule keepsI)
  fix d r d' assume run: "RetryResultUpload e task d = (r, d')"
  show "jobs_move d d'"
  proof (rule move_safe [OF keepsD [OF upload_keeps(4) run]])
    fix j assume j: "j \<in> set (result_upload_jobs d)"
    have "result_upload_jobs d' = result_upload_jobs d
        \<or> result_upload_jobs d' = update_where (\<lambda>j. ru_task_id j = task \<and> ru_status j = UploadFailed) (renewed_job e) (result_upload_jobs d)"
      using run unfolding RetryResultUpload_def
      by (cases r) (auto simp: tx_success dest: atomically_failure)
    then show "\<exists>j' \<in> set (result_upload_jobs d'). job_moves j j'"
    proof
      assume "result_upload_jobs d' = result_upload_jobs d"
      with j show ?thesis using job_moves_refl by auto
    next
      assume rows: "result_upload_jobs d' = update_where (\<lambda>j. ru_task_id j = task \<and> ru_status j = UploadFailed) (renewed_job e) (result_upload_jobs d)"
      let ?j = "if ru_task_id j = task \<and> ru_status j = UploadFailed then renewed_job e j else j"
      have "?j \<in> set (result_upload_jobs d')" using j by (auto simp: rows set_update_where)
      moreover have "job_moves j ?j" by (simp add: job_moves_def renewed_job_def)
      ultimately show ?thesis by blast
    qed
  qed
qed

lemma upload_step_moves: "upload_step d d' \<Longrightarrow> jobs_move d d'"
  by (induction rule: upload_step.induct)
    (erule keepsD [rotated], rule create_moves claim_moves fail_moves retry_moves upload_complete_moves)+

text \<open>C11: Through any sequence of upload operations job ids stay unique and there is at most one job per task, no job is attempted more often
  than its round allows, and exactly the jobs being uploaded are leased. No job disappears; a succeeded job is never changed again, and a failed
  one only by a retry, which starts a new round.\<close>

theorem upload_jobs_bounded:
  assumes "upload_step\<^sup>*\<^sup>* d d'" and "jobs_inv d"
  shows "distinct (map ru_id (result_upload_jobs d')) \<and> distinct (map ru_task_id (result_upload_jobs d'))
    \<and> (\<forall>j \<in> set (result_upload_jobs d'). 0 \<le> ru_attempt_no j \<and> ru_attempt_no j \<le> ru_max_attempts j
         \<and> (ru_lease_token j \<noteq> None \<longleftrightarrow> ru_status j = UploadUploading))
    \<and> (\<forall>j \<in> set (result_upload_jobs d). ru_status j = UploadSucceeded \<longrightarrow> j \<in> set (result_upload_jobs d'))
    \<and> (\<forall>j \<in> set (result_upload_jobs d). \<exists>j' \<in> set (result_upload_jobs d'). ru_id j' = ru_id j
         \<and> (ru_status j = UploadFailed \<longrightarrow> j' = j \<or> ru_round_no j < ru_round_no j'))"
proof -
  have "jobs_move d d'" by (rule job_moving.reachable [OF upload_step_moves assms(1)])
  then have inv: "jobs_inv d'" and moves: "\<And>j. j \<in> set (result_upload_jobs d) \<Longrightarrow> \<exists>j' \<in> set (result_upload_jobs d'). job_moves j j'"
    using assms(2) by (simp_all add: jobs_move_def)
  have "j \<in> set (result_upload_jobs d')" if "j \<in> set (result_upload_jobs d)" "ru_status j = UploadSucceeded" for j
    using moves [OF that(1)] that(2) by (auto simp: job_moves_def)
  moreover have "\<exists>j' \<in> set (result_upload_jobs d'). ru_id j' = ru_id j
         \<and> (ru_status j = UploadFailed \<longrightarrow> j' = j \<or> ru_round_no j < ru_round_no j')" if "j \<in> set (result_upload_jobs d)" for j
    using moves [OF that] by (auto simp: job_moves_def)
  ultimately show ?thesis using inv unfolding jobs_inv_def list_all_iff job_ok_def by blast
qed

section \<open>Concrete runs\<close>

definition sample_job :: upload_job where
  "sample_job = (new_upload ''j'' ''a'' ''key'' 0)\<lparr>ru_status := UploadUploading, ru_attempt_no := 3, ru_lease_token := Some ''tok'',
     ru_lease_expires_at := Some 500\<rparr>"

definition sample_upload_db :: db where
  "sample_upload_db = empty_db\<lparr>
     video_tasks := [(sample_task ''a'' 1)\<lparr>vt_status := StatusReconciling, vt_result_internal_url := Some ''https://r''\<rparr>],
     result_upload_jobs := [sample_job]\<rparr>"

lemmas sample_upload_defs = sample_job_def sample_upload_db_def new_upload_def sample_queue_defs

lemma sample_jobs_inv: "jobs_inv sample_upload_db"
  by (simp add: jobs_inv_def job_ok_def sample_upload_defs)

lemma sample_delivery: "\<exists>d'. CompleteResultUpload sample_env ''j'' ''tok'' ''https://p'' 7 sample_upload_db = (Inr (), d')"
  by (simp add: CompleteResultUpload_def leased_job_def leased_row_def createCallbackDeliveryWithConn_def exec_one_apply
      and_then_def atomically_def delivered_row_def touched_def sample_upload_defs)

theorem upload_jobs_bounded_witness:
  "\<exists>d'. upload_step\<^sup>*\<^sup>* sample_upload_db d' \<and> (\<forall>j \<in> set (result_upload_jobs d'). ru_attempt_no j \<le> ru_max_attempts j)"
proof -
  from sample_delivery obtain d' where "CompleteResultUpload sample_env ''j'' ''tok'' ''https://p'' 7 sample_upload_db = (Inr (), d')" ..
  then have steps: "upload_step\<^sup>*\<^sup>* sample_upload_db d'" by (blast intro: upload_step.complete)
  with upload_jobs_bounded [OF steps sample_jobs_inv] show ?thesis by blast
qed

theorem CompleteResultUpload_delivers_witness:
  "\<exists>d'. CompleteResultUpload sample_env ''j'' ''tok'' ''https://p'' 7 sample_upload_db = (Inr (), d')
     \<and> job_holder ''j'' sample_upload_db = Some ''tok''"
proof -
  from sample_delivery obtain d' where run: "CompleteResultUpload sample_env ''j'' ''tok'' ''https://p'' 7 sample_upload_db = (Inr (), d')" ..
  with CompleteResultUpload_delivers [OF run sample_jobs_inv] show ?thesis by blast
qed

theorem recoverExhaustedResultUploads_clears_witness:
  "\<exists>d'. recoverExhaustedResultUploads sample_env sample_upload_db = (Inr (), d')
     \<and> \<not> (\<exists>t \<in> set (video_tasks d'). vt_task_id t = ''a'' \<and> vt_status t = StatusReconciling)"
proof -
  have "\<exists>d'. recoverExhaustedResultUploads sample_env sample_upload_db = (Inr (), d')"
    by (simp add: recoverExhaustedResultUploads_def exhaust_one_def upload_exhausted_def oldest_jobs_def failDeliveredTask_def
        createCallbackDeliveryWithConn_def and_then_def atomically_def upload_failed_row_def touched_def sample_upload_defs)
  then obtain d' where run: "recoverExhaustedResultUploads sample_env sample_upload_db = (Inr (), d')" ..
  have h: "affected (upload_exhausted (nowMillis sample_env)) (result_upload_jobs sample_upload_db) \<le> 100"
    "sample_job \<in> set (result_upload_jobs sample_upload_db)" "upload_exhausted (nowMillis sample_env) sample_job"
    "ru_task_id sample_job = ''a''"
    by (simp_all add: upload_exhausted_def sample_upload_defs)
  from recoverExhaustedResultUploads_clears [OF run h(1)] h(2-4) run show ?thesis by metis
qed

end
