(* ===== verification/Deletions.thy ===== *)
theory Deletions
  imports UploadStore
begin

text \<open>
  Deletion of a task's artifacts (\<^verbatim>\<open>deletion_store.go\<close>): a request turns every stored copy of the
  task's artifacts into an item of a deletion job and hides the task; workers lease the items of a
  node, and report each one as deleted, absent or failed; the job and the task follow their items.
  Leases and timestamps of this component are milliseconds.
\<close>

section \<open>Requests\<close>

definition state_gone :: "ArtifactState \<Rightarrow> bool" where
  "state_gone s \<longleftrightarrow> s = AsDeleted \<or> s = AsMissing"

definition item_gone :: "DeletionItemStatus \<Rightarrow> bool" where
  "item_gone s \<longleftrightarrow> s = ItemDeleted \<or> s = ItemAlreadyAbsent"

definition item_final :: "DeletionItemStatus \<Rightarrow> bool" where
  "item_final s \<longleftrightarrow> s \<in> {ItemDeleted, ItemAlreadyAbsent, ItemSkipped, ItemFailed}"

text \<open>\<open>task_artifacts a JOIN artifact_locations l ON l.artifact_id = a.id\<close>\<close>

definition located :: "db \<Rightarrow> (task_artifact \<times> artifact_location) list" where
  "located d = concat (map (\<lambda>a. map (Pair a) (filter (\<lambda>l. al_artifact_id l = ar_id a) (artifact_locations d))) (task_artifacts d))"

definition deletion_candidates :: "string \<Rightarrow> db \<Rightarrow> (task_artifact \<times> artifact_location) list" where
  "deletion_candidates i d =
     sort_key (\<lambda>(a, l). (ar_id a, al_id l))
       (filter (\<lambda>(a, l). ar_task_id a = i \<and> \<not> state_gone (ar_state a) \<and> \<not> state_gone (al_state l)) (located d))"

definition new_item :: "string \<Rightarrow> string \<Rightarrow> int \<Rightarrow> string \<Rightarrow> task_artifact \<times> artifact_location \<Rightarrow> deletion_item" where
  "new_item i operation now job = (\<lambda>(a, l).
     \<lparr>di_id = i, di_job_id = job, di_artifact_id = ar_id a, di_location_id = al_id l, di_node_id = al_node_id l,
      di_status = ItemPending, di_operation_id = operation, di_attempt_count = 0, di_next_attempt_at = None,
      di_lease_token = None, di_lease_expires_at = None, di_last_error_code = None, di_last_error_message = None,
      di_deleted_bytes = 0, di_created_at = now, di_updated_at = now, di_deleted_at = None\<rparr>)"

text \<open>The keys of the item table: its id, the operation id, and the location within a job.\<close>

definition item_clash :: "deletion_item \<Rightarrow> deletion_item \<Rightarrow> bool" where
  "item_clash x y \<longleftrightarrow> di_id x = di_id y \<or> di_operation_id x = di_operation_id y
     \<or> di_job_id x = di_job_id y \<and> di_location_id x = di_location_id y"

definition insert_item :: "deletion_item \<Rightarrow> unit op" where
  "insert_item x =
     and_then (ensuring (\<lambda>d. \<not> exists_where (item_clash x) (artifact_deletion_items d)) (ErrSQL ''artifact_deletion_items'')) (\<lambda>_.
     exec_insert artifact_deletion_items_update x)"

definition insert_items :: "StoreEnv \<Rightarrow> nat \<Rightarrow> int \<Rightarrow> string \<Rightarrow> (task_artifact \<times> artifact_location) list \<Rightarrow> unit op" where
  "insert_items e first now job cs =
     for_each (\<lambda>(k, c). insert_item (new_item (uuid e (first + 2 * k)) (uuid e (first + 2 * k + 1)) now job c)) (enumerate 0 cs)"

definition task_deletion_job :: "StoreEnv \<Rightarrow> string \<Rightarrow> string \<Rightarrow> int \<Rightarrow> deletion_job" where
  "task_deletion_job e reason requestedBy n =
     \<lparr>dj_id = uuid e 0, dj_reason = reason, dj_status = (if n = 0 then JobSucceeded else JobPending), dj_older_than_days = None,
      dj_cutoff_at = None, dj_preview_token_hash = None, dj_dry_run = False, dj_requested_by = requestedBy, dj_total_count = n,
      dj_succeeded_count = 0, dj_failed_count = 0, dj_skipped_count = 0, dj_candidate_bytes = 0, dj_deleted_bytes = 0,
      dj_created_at = nowMillis e, dj_started_at = None, dj_finished_at = (if n = 0 then Some (nowMillis e) else None),
      dj_updated_at = nowMillis e, dj_error_summary = None\<rparr>"

definition valid_reason :: "string \<Rightarrow> bool" where
  "valid_reason r \<longleftrightarrow> r \<in> {''task_delete'', ''retention'', ''manual_cleanup'', ''orphan_cleanup''}"

definition insert_job :: "deletion_job \<Rightarrow> unit op" where
  "insert_job j =
     and_then (ensuring (\<lambda>d. valid_reason (dj_reason j) \<and> \<not> exists_where (\<lambda>x. dj_id x = dj_id j) (artifact_deletion_jobs d))
                 (ErrSQL ''artifact_deletion_jobs'')) (\<lambda>_.
     exec_insert artifact_deletion_jobs_update j)"

definition artifact_of_task :: "db \<Rightarrow> string \<Rightarrow> string \<Rightarrow> bool" where
  "artifact_of_task d i x \<longleftrightarrow> exists_where (\<lambda>a. ar_id a = x \<and> ar_task_id a = i) (task_artifacts d)"

definition condemn_location :: "artifact_location \<Rightarrow> artifact_location" where
  "condemn_location l = l\<lparr>al_state := AsDeletePending, al_is_primary := False\<rparr>"

definition condemn_artifact :: "task_artifact \<Rightarrow> task_artifact" where
  "condemn_artifact a = a\<lparr>ar_state := AsDeletePending\<rparr>"

definition condemn_task :: "int \<Rightarrow> string \<Rightarrow> video_task \<Rightarrow> video_task" where
  "condemn_task now deletionState t =
     t\<lparr>vt_deleted_at := Some now, vt_deletion_state := deletionState, vt_updated_at := now, vt_version := vt_version t + 1\<rparr>"

definition deletable_task :: "string \<Rightarrow> db \<Rightarrow> err + unit" where
  "deletable_task i d =
     (case select_where (\<lambda>t. vt_task_id t = i) (video_tasks d) of
        None \<Rightarrow> Inl ErrDeletionNotFound
      | Some t \<Rightarrow> if vt_deleted_at t \<noteq> None then Inl (ErrText ''deletion requested'') else Inr ())"

definition RequestTaskDeletion :: "StoreEnv \<Rightarrow> string \<Rightarrow> string \<Rightarrow> string \<Rightarrow> deletion_job op" where
  "RequestTaskDeletion e i reason requestedBy = atomically
     (and_then (reading (deletable_task i)) (\<lambda>_.
      and_then (gets (deletion_candidates i)) (\<lambda>cs.
      let now = nowMillis e; job = task_deletion_job e reason requestedBy (int (length cs)) in
      and_then (insert_job job) (\<lambda>_.
      and_then (insert_items e 1 now (dj_id job) cs) (\<lambda>_.
      and_then (\<lambda>d. exec_update artifact_locations artifact_locations_update
                  (\<lambda>l. artifact_of_task d i (al_artifact_id l) \<and> \<not> state_gone (al_state l)) condemn_location d) (\<lambda>_.
      and_then (exec_update task_artifacts task_artifacts_update
                  (\<lambda>a. ar_task_id a = i \<and> \<not> state_gone (ar_state a)) condemn_artifact) (\<lambda>_.
      and_then (exec_delete idempotency_keys_update (\<lambda>k. ik_task_id k = i)) (\<lambda>_.
      and_then (update_one_task (\<lambda>t. vt_task_id t = i \<and> vt_deleted_at t = None)
                  (condemn_task now (if cs = [] then ''deleted'' else ''pending''))) (\<lambda>_.
      ret job)))))))))"

definition RequestOwnedTaskDeletion :: "StoreEnv \<Rightarrow> string \<Rightarrow> string \<Rightarrow> deletion_job op" where
  "RequestOwnedTaskDeletion e owner i =
     and_then (reading (\<lambda>d. case select_where (\<lambda>t. vt_task_id t = i) (video_tasks d) of
         None \<Rightarrow> Inl ErrDeletionNotFound
       | Some t \<Rightarrow> if vt_api_key_id t \<noteq> owner \<or> vt_deleted_at t \<noteq> None then Inl ErrDeletionNotFound
                    else if vt_status t \<notin> {StatusSucceeded, StatusFailed, StatusCancelled} then Inl (ErrText ''not deletable'')
                    else Inr ())) (\<lambda>_.
     RequestTaskDeletion e i ''task_delete'' owner)"

section \<open>Items\<close>

definition item_due :: "string \<Rightarrow> int \<Rightarrow> deletion_item \<Rightarrow> bool" where
  "item_due nodeID now x \<longleftrightarrow> di_node_id x = nodeID \<and> di_status x \<in> {ItemPending, ItemRetryWait, ItemDeleting}
     \<and> (case di_next_attempt_at x of None \<Rightarrow> True | Some t \<Rightarrow> t \<le> now)
     \<and> (case di_lease_expires_at x of None \<Rightarrow> True | Some t \<Rightarrow> t \<le> now)"

definition next_item :: "string \<Rightarrow> int \<Rightarrow> db \<Rightarrow> err + deletion_item" where
  "next_item nodeID now d =
     (case sort_key (\<lambda>x. (di_created_at x, di_id x)) (filter (item_due nodeID now) (artifact_deletion_items d)) of
        [] \<Rightarrow> Inl ErrNoClaimableDeletion | x # _ \<Rightarrow> Inr x)"

definition claimed_item :: "string \<Rightarrow> int \<Rightarrow> int \<Rightarrow> deletion_item \<Rightarrow> deletion_item" where
  "claimed_item token expires now x =
     x\<lparr>di_status := ItemDeleting, di_lease_token := Some token, di_lease_expires_at := Some expires,
       di_attempt_count := di_attempt_count x + 1, di_updated_at := now\<rparr>"

definition started_job :: "int \<Rightarrow> deletion_job \<Rightarrow> deletion_job" where
  "started_job now j = j\<lparr>dj_status := JobRunning, dj_started_at := keep_or (dj_started_at j) now, dj_updated_at := now\<rparr>"

definition item_by_id :: "string \<Rightarrow> db \<Rightarrow> err + deletion_item" where
  "item_by_id i d = (case select_where (\<lambda>x. di_id x = i) (artifact_deletion_items d) of None \<Rightarrow> Inl (ErrSQL ''no rows'') | Some x \<Rightarrow> Inr x)"

definition ClaimDeletionItem :: "StoreEnv \<Rightarrow> string \<Rightarrow> string \<Rightarrow> int \<Rightarrow> deletion_item op" where
  "ClaimDeletionItem e nodeID token leaseMillis = atomically
     (let now = nowMillis e in
      and_then (reading (next_item nodeID now)) (\<lambda>x.
      and_then (exec_one artifact_deletion_items artifact_deletion_items_update ErrNoClaimableDeletion
                  (\<lambda>y. di_id y = di_id x \<and> (case di_lease_expires_at y of None \<Rightarrow> True | Some t \<Rightarrow> t \<le> now))
                  (claimed_item token (now + leaseMillis) now)) (\<lambda>_.
      and_then (exec_update artifact_locations artifact_locations_update
                  (\<lambda>l. al_id l = di_location_id x \<and> al_state l \<in> {AsActive, AsDeletePending, AsDeleteFailed, AsDeleting})
                  (al_state_update (\<lambda>_. AsDeleting))) (\<lambda>_.
      and_then (exec_update artifact_deletion_jobs artifact_deletion_jobs_update
                  (\<lambda>j. dj_id j = di_job_id x \<and> dj_status j = JobPending) (started_job now)) (\<lambda>_.
      reading (item_by_id (di_id x)))))))"

definition RenewDeletionLease :: "StoreEnv \<Rightarrow> string \<Rightarrow> int \<Rightarrow> string \<Rightarrow> unit op" where
  "RenewDeletionLease e i leaseMillis token =
     exec_one artifact_deletion_items artifact_deletion_items_update ErrStateConflict
       (\<lambda>x. di_id x = i \<and> di_lease_token x = Some token \<and> di_status x = ItemDeleting
          \<and> (case di_lease_expires_at x of None \<Rightarrow> False | Some t \<Rightarrow> t > nowMillis e))
       (\<lambda>x. x\<lparr>di_lease_expires_at := Some (nowMillis e + leaseMillis), di_updated_at := nowMillis e\<rparr>)"

definition held_item :: "string \<Rightarrow> string \<Rightarrow> db \<Rightarrow> err + deletion_item" where
  "held_item i token d =
     (case select_where (\<lambda>x. di_id x = i \<and> di_lease_token x = Some token \<and> di_status x = ItemDeleting) (artifact_deletion_items d) of
        None \<Rightarrow> Inl ErrNoClaimableDeletion | Some x \<Rightarrow> Inr x)"

definition items_of :: "string \<Rightarrow> db \<Rightarrow> deletion_item list" where
  "items_of job d = filter (\<lambda>x. di_job_id x = job) (artifact_deletion_items d)"

definition count_items :: "(DeletionItemStatus \<Rightarrow> bool) \<Rightarrow> deletion_item list \<Rightarrow> int" where
  "count_items p xs = int (length (filter (p \<circ> di_status) xs))"

definition task_of_artifact :: "string \<Rightarrow> db \<Rightarrow> err + string" where
  "task_of_artifact x d =
     (case select_where (\<lambda>a. ar_id a = x) (task_artifacts d) of None \<Rightarrow> Inl (ErrSQL ''no rows'') | Some a \<Rightarrow> Inr (ar_task_id a))"

definition deletion_progress :: "int \<Rightarrow> string \<Rightarrow> video_task \<Rightarrow> video_task" where
  "deletion_progress now taskState t = t\<lparr>vt_deletion_state := taskState, vt_updated_at := now, vt_version := vt_version t + 1\<rparr>"

abbreviation update_item :: "string \<Rightarrow> (deletion_item \<Rightarrow> deletion_item) \<Rightarrow> nat op" where
  "update_item i \<equiv> exec_update artifact_deletion_items artifact_deletion_items_update (\<lambda>x. di_id x = i)"

abbreviation update_job :: "string \<Rightarrow> (deletion_job \<Rightarrow> deletion_job) \<Rightarrow> nat op" where
  "update_job i \<equiv> exec_update artifact_deletion_jobs artifact_deletion_jobs_update (\<lambda>j. dj_id j = i)"

abbreviation update_location :: "string \<Rightarrow> (artifact_location \<Rightarrow> artifact_location) \<Rightarrow> nat op" where
  "update_location i \<equiv> exec_update artifact_locations artifact_locations_update (\<lambda>l. al_id l = i)"

abbreviation report_to_task :: "int \<Rightarrow> string \<Rightarrow> string \<Rightarrow> nat op" where
  "report_to_task now i taskState \<equiv> update_tasks (\<lambda>t. vt_task_id t = i \<and> vt_deleted_at t \<noteq> None) (deletion_progress now taskState)"

definition failed_item :: "int \<Rightarrow> string \<Rightarrow> string \<Rightarrow> int \<Rightarrow> bool \<Rightarrow> deletion_item \<Rightarrow> deletion_item" where
  "failed_item now code message nextAttempt terminal x =
     x\<lparr>di_status := (if terminal then ItemFailed else ItemRetryWait), di_next_attempt_at := (if terminal then None else Some nextAttempt),
       di_lease_token := None, di_lease_expires_at := None, di_last_error_code := Some code, di_last_error_message := Some message,
       di_updated_at := now\<rparr>"

definition failed_job_status :: "bool \<Rightarrow> deletion_item list \<Rightarrow> DeletionJobStatus" where
  "failed_job_status terminal xs =
     (if terminal \<and> count_items (\<lambda>s. \<not> item_final s) xs = 0
      then (if count_items item_gone xs > 0 then JobPartialFailed else JobFailed) else JobRunning)"

definition failed_task_state :: "DeletionJobStatus \<Rightarrow> string" where
  "failed_task_state s = (if s = JobPartialFailed then ''partial'' else if s = JobFailed then ''failed'' else ''pending'')"

definition job_after_failure :: "int \<Rightarrow> bool \<Rightarrow> deletion_item list \<Rightarrow> deletion_job \<Rightarrow> deletion_job" where
  "job_after_failure now terminal xs j =
     (let s = failed_job_status terminal xs in
      j\<lparr>dj_status := s, dj_failed_count := count_items (\<lambda>s. s = ItemFailed) xs,
        dj_finished_at := (if s = JobRunning then None else Some now), dj_updated_at := now\<rparr>)"

definition FailDeletionItem :: "StoreEnv \<Rightarrow> string \<Rightarrow> string \<Rightarrow> string \<Rightarrow> int \<Rightarrow> bool \<Rightarrow> string \<Rightarrow> unit op" where
  "FailDeletionItem e i code message nextAttempt terminal token = atomically
     (and_then (reading (held_item i token)) (\<lambda>x.
      let now = nowMillis e in
      and_then (update_item i (failed_item now code message nextAttempt terminal)) (\<lambda>_.
      and_then (update_location (di_location_id x) (al_state_update (\<lambda>_. AsDeleteFailed))) (\<lambda>_.
      and_then (gets (items_of (di_job_id x))) (\<lambda>xs.
      and_then (update_job (di_job_id x) (job_after_failure now terminal xs)) (\<lambda>_.
      and_then (reading (task_of_artifact (di_artifact_id x))) (\<lambda>taskID.
      and_then (report_to_task now taskID (failed_task_state (failed_job_status terminal xs))) (\<lambda>_. ret ()))))))))"

definition removed_item :: "int \<Rightarrow> bool \<Rightarrow> int \<Rightarrow> deletion_item \<Rightarrow> deletion_item" where
  "removed_item now absent deletedBytes x =
     x\<lparr>di_status := (if absent then ItemAlreadyAbsent else ItemDeleted), di_deleted_bytes := deletedBytes, di_deleted_at := Some now,
       di_lease_token := None, di_lease_expires_at := None, di_updated_at := now\<rparr>"

definition removed_location :: "int \<Rightarrow> bool \<Rightarrow> artifact_location \<Rightarrow> artifact_location" where
  "removed_location now absent l =
     l\<lparr>al_state := (if absent then AsMissing else AsDeleted), al_is_primary := False, al_deleted_at := Some now\<rparr>"

definition deleted_artifact :: "int \<Rightarrow> task_artifact \<Rightarrow> task_artifact" where
  "deleted_artifact now a = a\<lparr>ar_state := AsDeleted, ar_deleted_at := Some now\<rparr>"

definition removal_job_status :: "deletion_item list \<Rightarrow> DeletionJobStatus" where
  "removal_job_status xs =
     (let succeeded = count_items item_gone xs; failed = count_items (\<lambda>s. s = ItemFailed) xs in
      if succeeded + failed = int (length xs) then (if failed > 0 then JobPartialFailed else JobSucceeded) else JobRunning)"

definition job_after_removal :: "int \<Rightarrow> deletion_item list \<Rightarrow> int \<Rightarrow> deletion_job \<Rightarrow> deletion_job" where
  "job_after_removal now xs bytes j =
     (let s = removal_job_status xs in
      j\<lparr>dj_status := s, dj_succeeded_count := count_items item_gone xs, dj_failed_count := count_items (\<lambda>s. s = ItemFailed) xs,
        dj_deleted_bytes := dj_deleted_bytes j + bytes, dj_finished_at := (if s = JobRunning then None else Some now), dj_updated_at := now\<rparr>)"

definition removal_state :: "string \<Rightarrow> int \<Rightarrow> db \<Rightarrow> string" where
  "removal_state i succeeded d =
     (if \<not> exists_where (\<lambda>(a, l). ar_task_id a = i \<and> \<not> state_gone (al_state l)) (located d) then ''deleted''
      else if exists_where (\<lambda>x. di_status x = ItemFailed \<and> artifact_of_task d i (di_artifact_id x)) (artifact_deletion_items d)
      then (if succeeded = 0 then ''failed'' else ''partial'')
      else ''pending'')"

definition CompleteDeletionItem :: "StoreEnv \<Rightarrow> string \<Rightarrow> bool \<Rightarrow> int \<Rightarrow> string \<Rightarrow> unit op" where
  "CompleteDeletionItem e i absent deletedBytes token = atomically
     (and_then (reading (held_item i token)) (\<lambda>x.
      let now = nowMillis e in
      and_then (ensure (deletedBytes \<ge> 0) (ErrSQL ''deleted_bytes'')) (\<lambda>_.
      and_then (update_item i (removed_item now absent deletedBytes)) (\<lambda>_.
      and_then (update_location (di_location_id x) (removed_location now absent)) (\<lambda>_.
      and_then (gets (\<lambda>d. exists_where (\<lambda>l. al_artifact_id l = di_artifact_id x \<and> \<not> state_gone (al_state l)) (artifact_locations d))) (\<lambda>remaining.
      and_then (exec_update task_artifacts task_artifacts_update (\<lambda>a. \<not> remaining \<and> ar_id a = di_artifact_id x) (deleted_artifact now)) (\<lambda>_.
      and_then (gets (items_of (di_job_id x))) (\<lambda>xs.
      and_then (update_job (di_job_id x) (job_after_removal now xs deletedBytes)) (\<lambda>_.
      and_then (reading (task_of_artifact (di_artifact_id x))) (\<lambda>taskID.
      and_then (\<lambda>d. report_to_task now taskID (removal_state taskID (count_items item_gone xs) d) d) (\<lambda>_. ret ())))))))))))"

end
