(* ===== verification/Cleanups.thy ===== *)
theory Cleanups
  imports Deletions
begin

text \<open>
  Cleanup of old artifacts on request (\<^verbatim>\<open>cleanup_store.go\<close>) and the worker that deletes the copies on
  the nodes (\<^verbatim>\<open>cleanup/worker.go\<close>). A preview is stored as a job with the digest of its candidates; a
  confirmation must name its token in time and find the same candidates. Both this and
  \<^verbatim>\<open>deletion_store.go\<close> feed one queue of items, so the accounting of jobs is proved here for all of their
  operations together. The random bytes of a token and the node's HTTP client are parameters.
\<close>

section \<open>Previews\<close>

text \<open>Division of Go integers rounds towards zero.\<close>

definition go_div :: "int \<Rightarrow> int \<Rightarrow> int" where
  "go_div a b = (if (a < 0) = (b < 0) then \<bar>a\<bar> div \<bar>b\<bar> else - (\<bar>a\<bar> div \<bar>b\<bar>))"

definition task_finished :: "InternalStatus \<Rightarrow> bool" where
  "task_finished s \<longleftrightarrow> s \<in> {StatusSucceeded, StatusFailed, StatusCancelled}"

definition expired_artifact :: "int \<Rightarrow> db \<Rightarrow> task_artifact \<times> artifact_location \<Rightarrow> bool" where
  "expired_artifact cutoff d = (\<lambda>(a, l).
     exists_where (\<lambda>t. vt_task_id t = ar_task_id a \<and> vt_deleted_at t = None \<and> task_finished (vt_status t)) (video_tasks d)
     \<and> ar_created_at a < cutoff \<and> ar_state a = AsActive \<and> al_state l = AsActive
     \<and> \<not> exists_where (\<lambda>x. ar_task_id x = ar_task_id a \<and> ar_state x = AsActive \<and> ar_created_at x \<ge> cutoff) (task_artifacts d))"

definition cleanup_candidates :: "int \<Rightarrow> db \<Rightarrow> (task_artifact \<times> artifact_location) list" where
  "cleanup_candidates cutoff d =
     sort_key (\<lambda>(a, l). (ar_task_id a, ar_id a, al_id l)) (filter (expired_artifact cutoff d) (located d))"

definition skipped_active :: "int \<Rightarrow> db \<Rightarrow> int" where
  "skipped_active cutoff d =
     int (affected (\<lambda>t. vt_deleted_at t = None \<and> \<not> task_finished (vt_status t) \<and> vt_created_at t < go_div cutoff 1000) (video_tasks d))"

definition unmanaged_results :: "int \<Rightarrow> db \<Rightarrow> int" where
  "unmanaged_results cutoff d =
     int (affected (\<lambda>t. vt_deleted_at t = None \<and> vt_status t = StatusSucceeded
        \<and> coalesce (vt_finished_at t) (vt_created_at t) < go_div cutoff 1000
        \<and> (coalesce (vt_result_public_url t) [] \<noteq> [] \<or> coalesce (vt_result_internal_url t) [] \<noteq> [])
        \<and> \<not> exists_where (\<lambda>(a, l). ar_task_id a = vt_task_id t \<and> ar_state a = AsActive \<and> al_state l = AsActive) (located d)) (video_tasks d))"

definition cleanupCandidates :: "int \<Rightarrow> db \<Rightarrow> (task_artifact \<times> artifact_location) list \<times> int \<times> int" where
  "cleanupCandidates cutoff d = (cleanup_candidates cutoff d, skipped_active cutoff d, unmanaged_results cutoff d)"

record CleanupNodeProgress =
  np_NodeID :: string
  np_Count :: int
  np_Pending :: int
  np_Deleting :: int
  np_Succeeded :: int
  np_Failed :: int
  np_Skipped :: int
  np_Bytes :: int
  np_DeletedBytes :: int

definition no_progress :: "string \<Rightarrow> CleanupNodeProgress" where
  "no_progress n = \<lparr>np_NodeID = n, np_Count = 0, np_Pending = 0, np_Deleting = 0, np_Succeeded = 0, np_Failed = 0, np_Skipped = 0,
     np_Bytes = 0, np_DeletedBytes = 0\<rparr>"

text \<open>Sums of sizes are int64.\<close>

definition total_bytes :: "(task_artifact \<times> artifact_location) list \<Rightarrow> int" where
  "total_bytes cs = wrap64 (\<Sum>(a, l) \<leftarrow> cs. al_size_bytes l)"

definition cleanupCandidateSummary :: "(task_artifact \<times> artifact_location) list \<Rightarrow> int \<times> int \<times> CleanupNodeProgress list" where
  "cleanupCandidateSummary cs =
     (int (length cs), total_bytes cs,
      map (\<lambda>n. let own = filter (\<lambda>(a, l). al_node_id l = n) cs in
             (no_progress n)\<lparr>np_Count := int (length own), np_Bytes := total_bytes own\<rparr>)
        (sort (remdups (map (al_node_id \<circ> snd) cs))))"

definition digest_line :: "task_artifact \<times> artifact_location \<Rightarrow> string" where
  "digest_line = (\<lambda>(a, l). ar_task_id a @ CHR 0x00 # ar_id a @ CHR 0x00 # al_id l @ CHR 0x00 # al_node_id l @ CHR 0x00 # format_int (al_size_bytes l) @ [CHR 0x0A])"

definition cleanupCandidateDigest :: "StoreEnv \<Rightarrow> (task_artifact \<times> artifact_location) list \<Rightarrow> string" where
  "cleanupCandidateDigest e cs = sha256_hex e (concat (map digest_line cs))"

record CleanupPreview =
  cp_Token :: string
  cp_ExpiresAt :: int
  cp_CutoffAt :: int
  cp_CandidateCount :: int
  cp_CandidateBytes :: int
  cp_SkippedActiveCount :: int
  cp_UnmanagedResultTaskCount :: int
  cp_ByNode :: "CleanupNodeProgress list"

definition preview_ttl :: int where
  "preview_ttl = 900000"

definition preview_token :: "StoreEnv \<Rightarrow> string \<Rightarrow> string" where
  "preview_token e secretHex = uuid e 0 @ CHR ''.'' # secretHex"

definition preview_job :: "StoreEnv \<Rightarrow> string \<Rightarrow> int \<Rightarrow> string \<Rightarrow> int \<Rightarrow> (task_artifact \<times> artifact_location) list \<Rightarrow> int \<Rightarrow> deletion_job" where
  "preview_job e secretHex olderThanDays requestedBy cutoff cs skipped =
     \<lparr>dj_id = uuid e 0, dj_reason = ''manual_cleanup'', dj_status = JobPreview, dj_older_than_days = Some olderThanDays,
      dj_cutoff_at = Some cutoff, dj_preview_token_hash = Some (sha256_hex e (preview_token e secretHex)), dj_dry_run = True,
      dj_requested_by = requestedBy, dj_total_count = int (length cs), dj_succeeded_count = 0, dj_failed_count = 0,
      dj_skipped_count = skipped, dj_candidate_bytes = total_bytes cs, dj_deleted_bytes = 0, dj_created_at = nowMillis e,
      dj_started_at = None, dj_finished_at = None, dj_updated_at = nowMillis e,
      dj_error_summary = Some (''preview_digest:'' @ cleanupCandidateDigest e cs)\<rparr>"

definition PreviewArtifactCleanup :: "StoreEnv \<Rightarrow> string \<Rightarrow> int \<Rightarrow> string \<Rightarrow> CleanupPreview op" where
  "PreviewArtifactCleanup e secretHex olderThanDays requestedBy =
     and_then (ensure (1 \<le> olderThanDays \<and> olderThanDays \<le> 3650 \<and> requestedBy \<noteq> []) (ErrText ''cleanup preview'')) (\<lambda>_.
     let cutoff = nowMillis e - olderThanDays * 86400000 in
     and_then (gets (cleanupCandidates cutoff)) (\<lambda>(cs, skipped, unmanaged).
     and_then (ensure (0 \<le> total_bytes cs) (ErrSQL ''candidate_bytes'')) (\<lambda>_.
     and_then (insert_job (preview_job e secretHex olderThanDays requestedBy cutoff cs skipped)) (\<lambda>_.
     ret \<lparr>cp_Token = preview_token e secretHex, cp_ExpiresAt = nowMillis e + preview_ttl, cp_CutoffAt = cutoff,
          cp_CandidateCount = int (length cs), cp_CandidateBytes = total_bytes cs, cp_SkippedActiveCount = skipped,
          cp_UnmanagedResultTaskCount = unmanaged, cp_ByNode = snd (snd (cleanupCandidateSummary cs))\<rparr>))))"

section \<open>Confirmation\<close>

text \<open>\<open>strings.Split(token, ".")\<close> with exactly two parts of the right lengths.\<close>

definition token_job :: "string \<Rightarrow> string option" where
  "token_job token =
     (let i = takeWhile (\<lambda>c. c \<noteq> CHR ''.'') token; rest = drop (length i + 1) token in
      if length i = 36 \<and> length rest = 64 \<and> length token = 101 \<and> CHR ''.'' \<notin> set rest then Some i else None)"

definition preview_of :: "string \<Rightarrow> db \<Rightarrow> err + deletion_job" where
  "preview_of i d =
     (case select_where (\<lambda>j. dj_id j = i \<and> dj_status j = JobPreview) (artifact_deletion_jobs d) of
        None \<Rightarrow> Inl ErrCleanupPreviewStale | Some j \<Rightarrow> Inr j)"

definition token_matches :: "StoreEnv \<Rightarrow> string \<Rightarrow> deletion_job \<Rightarrow> bool" where
  "token_matches e token j \<longleftrightarrow>
     (let stored = coalesce (dj_preview_token_hash j) [] in
      length stored = 64 \<and> list_all is_hex stored \<and> lower_hex stored = sha256_hex e token
      \<and> nowMillis e \<le> dj_created_at j + preview_ttl)"

definition confirmation_ok :: "string \<Rightarrow> deletion_job \<Rightarrow> bool" where
  "confirmation_ok confirmation j \<longleftrightarrow> confirmation = [] \<or> confirmation = ''DELETE '' @ format_int (dj_total_count j) @ '' ARTIFACTS''"

definition preview_current :: "StoreEnv \<Rightarrow> deletion_job \<Rightarrow> (task_artifact \<times> artifact_location) list \<Rightarrow> bool" where
  "preview_current e j cs \<longleftrightarrow> int (length cs) = dj_total_count j \<and> total_bytes cs = dj_candidate_bytes j
     \<and> coalesce (dj_error_summary j) [] = ''preview_digest:'' @ cleanupCandidateDigest e cs"

definition job_locations :: "string \<Rightarrow> db \<Rightarrow> string list" where
  "job_locations i d = map di_location_id (items_of i d)"

definition job_artifacts :: "string \<Rightarrow> db \<Rightarrow> string list" where
  "job_artifacts i d = map di_artifact_id (items_of i d)"

definition job_tasks :: "string \<Rightarrow> db \<Rightarrow> string list" where
  "job_tasks i d = map ar_task_id (filter (\<lambda>a. ar_id a \<in> set (job_artifacts i d)) (task_artifacts d))"

definition confirmed_job :: "int \<Rightarrow> bool \<Rightarrow> deletion_job \<Rightarrow> deletion_job" where
  "confirmed_job now none j =
     j\<lparr>dj_status := (if none then JobSucceeded else JobPending), dj_preview_token_hash := None, dj_dry_run := False,
       dj_finished_at := (if none then Some now else None), dj_updated_at := now, dj_error_summary := None\<rparr>"

definition getCleanupJobWith :: "string \<Rightarrow> db \<Rightarrow> err + deletion_job" where
  "getCleanupJobWith i d =
     (case select_where (\<lambda>j. dj_id j = i) (artifact_deletion_jobs d) of None \<Rightarrow> Inl ErrCleanupNotFound | Some j \<Rightarrow> Inr j)"

definition ConfirmArtifactCleanup :: "StoreEnv \<Rightarrow> string \<Rightarrow> string \<Rightarrow> deletion_job op" where
  "ConfirmArtifactCleanup e token confirmation =
     (case token_job token of
        None \<Rightarrow> raise ErrCleanupPreviewStale
      | Some i \<Rightarrow> atomically
          (and_then (reading (preview_of i)) (\<lambda>j.
           and_then (ensure (token_matches e token j) ErrCleanupPreviewStale) (\<lambda>_.
           and_then (ensure (confirmation_ok confirmation j) (ErrText ''confirmation'')) (\<lambda>_.
           and_then (gets (cleanup_candidates (coalesce (dj_cutoff_at j) 0))) (\<lambda>cs.
           and_then (ensure (preview_current e j cs) ErrCleanupPreviewStale) (\<lambda>_.
           let now = nowMillis e in
           and_then (insert_items e 0 now i cs) (\<lambda>_.
           and_then (\<lambda>d. exec_update artifact_locations artifact_locations_update (\<lambda>l. al_id l \<in> set (job_locations i d)) condemn_location d) (\<lambda>_.
           and_then (\<lambda>d. exec_update task_artifacts task_artifacts_update (\<lambda>a. ar_id a \<in> set (job_artifacts i d)) condemn_artifact d) (\<lambda>_.
           and_then (\<lambda>d. update_tasks (\<lambda>t. vt_task_id t \<in> set (job_tasks i d) \<and> vt_deleted_at t = None) (condemn_task now ''pending'') d) (\<lambda>_.
           and_then (\<lambda>d. exec_delete idempotency_keys_update (\<lambda>k. ik_task_id k \<in> set (job_tasks i d)) d) (\<lambda>_.
           and_then (exec_update artifact_deletion_jobs artifact_deletion_jobs_update
                       (\<lambda>x. dj_id x = i \<and> dj_status x = JobPreview) (confirmed_job now (cs = []))) (\<lambda>_.
           reading (getCleanupJobWith i))))))))))))))"

section \<open>Progress and retries\<close>

definition node_progress :: "deletion_item list \<Rightarrow> string \<Rightarrow> CleanupNodeProgress" where
  "node_progress xs n =
     (let own = filter (\<lambda>x. di_node_id x = n) xs in
      (no_progress n)\<lparr>np_Count := int (length own),
        np_Pending := count_items (\<lambda>s. s = ItemPending \<or> s = ItemRetryWait) own,
        np_Deleting := count_items (\<lambda>s. s = ItemDeleting) own,
        np_Succeeded := count_items item_gone own,
        np_Failed := count_items (\<lambda>s. s = ItemFailed) own,
        np_Skipped := count_items (\<lambda>s. s = ItemSkipped) own,
        np_DeletedBytes := (\<Sum>x \<leftarrow> own. di_deleted_bytes x)\<rparr>)"

definition GetArtifactCleanup :: "string \<Rightarrow> (deletion_job \<times> CleanupNodeProgress list) op" where
  "GetArtifactCleanup i =
     and_then (reading (getCleanupJobWith i)) (\<lambda>j.
     gets (\<lambda>d. (j, map (node_progress (items_of i d)) (sort (remdups (map di_node_id (items_of i d)))))))"

fun item_status_text :: "DeletionItemStatus \<Rightarrow> string" where
  "item_status_text ItemPending = ''pending''"
| "item_status_text ItemDeleting = ''deleting''"
| "item_status_text ItemRetryWait = ''retry_wait''"
| "item_status_text ItemDeleted = ''deleted''"
| "item_status_text ItemAlreadyAbsent = ''already_absent''"
| "item_status_text ItemSkipped = ''skipped''"
| "item_status_text ItemFailed = ''failed''"

definition ListArtifactCleanupItems :: "string \<Rightarrow> string \<Rightarrow> string \<Rightarrow> int \<Rightarrow> deletion_item list op" where
  "ListArtifactCleanupItems i status nodeID limit =
     gets (\<lambda>d. take (nat (if limit < 1 \<or> limit > 100 then 50 else limit))
       (sort_key (\<lambda>x. (di_created_at x, di_id x))
         (filter (\<lambda>x. (status = [] \<or> item_status_text (di_status x) = status) \<and> (nodeID = [] \<or> di_node_id x = nodeID)) (items_of i d))))"

definition revived_item :: "int \<Rightarrow> deletion_item \<Rightarrow> deletion_item" where
  "revived_item now x =
     x\<lparr>di_status := ItemPending, di_next_attempt_at := None, di_lease_token := None, di_lease_expires_at := None,
       di_last_error_code := None, di_last_error_message := None, di_updated_at := now\<rparr>"

definition revived_job :: "int \<Rightarrow> int \<Rightarrow> deletion_job \<Rightarrow> deletion_job" where
  "revived_job now failed j =
     j\<lparr>dj_status := JobPending, dj_failed_count := failed, dj_finished_at := None, dj_updated_at := now, dj_error_summary := None\<rparr>"

definition retryable_item :: "string \<Rightarrow> string list \<Rightarrow> deletion_item \<Rightarrow> bool" where
  "retryable_item i nodeIDs x \<longleftrightarrow> di_job_id x = i \<and> di_status x = ItemFailed \<and> (nodeIDs = [] \<or> di_node_id x \<in> set nodeIDs)"

definition RetryArtifactCleanup :: "StoreEnv \<Rightarrow> string \<Rightarrow> string list \<Rightarrow> deletion_job op" where
  "RetryArtifactCleanup e i nodeIDs = committing
     (let now = nowMillis e in
      and_then (ensure ([] \<notin> set nodeIDs) (ErrText ''node id'')) (\<lambda>_.
      and_then (exec_update artifact_deletion_items artifact_deletion_items_update (retryable_item i nodeIDs) (revived_item now)) (\<lambda>n.
      and_then (ensure (n \<noteq> 0) ErrCleanupNotRetryable) (\<lambda>_.
      and_then (\<lambda>d. exec_update artifact_locations artifact_locations_update
                  (\<lambda>l. al_id l \<in> set (map di_location_id (filter (\<lambda>x. di_status x = ItemPending) (items_of i d))))
                  (al_state_update (\<lambda>_. AsDeletePending)) d) (\<lambda>_.
      and_then (\<lambda>d. update_job i (revived_job now (count_items (\<lambda>s. s = ItemFailed) (items_of i d))) d) (\<lambda>_.
      reading (getCleanupJobWith i)))))))"

section \<open>The worker\<close>

datatype node_answer =
    NodeUnreachable | NodeStatus int | NodeItems "(string \<times> string \<times> int) list"

record CleanupWorker =
  dw_LeaseDuration :: int
  dw_MaxAttempts :: int
  dw_now :: int
  dw_open :: "string \<Rightarrow> string \<Rightarrow> string option"
  dw_delete :: "string \<Rightarrow> string \<Rightarrow> string \<Rightarrow> string \<Rightarrow> node_answer"

definition cleanup_lease :: "CleanupWorker \<Rightarrow> int" where
  "cleanup_lease w = (if dw_LeaseDuration w > 0 then dw_LeaseDuration w else 60 * second)"

definition cleanup_delay :: "int \<Rightarrow> int" where
  "cleanup_delay attempts = min (2 ^ nat attempts) 300"

definition cleanup_fail :: "StoreEnv \<Rightarrow> CleanupWorker \<Rightarrow> deletion_item \<Rightarrow> string \<Rightarrow> string \<Rightarrow> bool \<Rightarrow> unit op" where
  "cleanup_fail e w x code message terminal =
     (let maxAttempts = (if dw_MaxAttempts w \<le> 0 then 8 else dw_MaxAttempts w) in
      FailDeletionItem e (di_id x) code message (dw_now w + cleanup_delay (di_attempt_count x) * 1000)
        (terminal \<or> di_attempt_count x \<ge> maxAttempts) (coalesce (di_lease_token x) []))"

definition GetArtifactLocation :: "string \<Rightarrow> artifact_location op" where
  "GetArtifactLocation i =
     reading (\<lambda>d. case select_where (\<lambda>l. al_id l = i) (artifact_locations d) of None \<Rightarrow> Inl ErrArtifactNotFound | Some l \<Rightarrow> Inr l)"

definition report_deletion :: "StoreEnv \<Rightarrow> CleanupWorker \<Rightarrow> deletion_item \<Rightarrow> string \<Rightarrow> node_answer \<Rightarrow> unit op" where
  "report_deletion e w x nodeArtifact answer =
     (case answer of
        NodeUnreachable \<Rightarrow> cleanup_fail e w x ''node_delete_unavailable'' ''node delete failed'' False
      | NodeStatus code \<Rightarrow>
          if code = 401 \<or> code = 403 then cleanup_fail e w x ''node_authentication_failed'' ''node delete failed'' True
          else cleanup_fail e w x ''node_delete_unavailable'' ''node delete failed'' False
      | NodeItems items \<Rightarrow>
          (case items of
             [(i, status, bytes)] \<Rightarrow>
               if i \<noteq> nodeArtifact then cleanup_fail e w x ''node_delete_protocol_error'' ''response mismatch'' False
               else if status = ''deleted'' then CompleteDeletionItem e (di_id x) False bytes (coalesce (di_lease_token x) [])
               else if status = ''already_absent'' then CompleteDeletionItem e (di_id x) True 0 (coalesce (di_lease_token x) [])
               else if status = ''artifact_locked'' then cleanup_fail e w x ''artifact_locked'' ''artifact locked'' False
               else cleanup_fail e w x ''node_delete_failed'' ''node refused'' False
           | _ \<Rightarrow> cleanup_fail e w x ''node_delete_protocol_error'' ''response mismatch'' False))"

definition process_deletion :: "StoreEnv \<Rightarrow> CleanupWorker \<Rightarrow> ModelNode \<Rightarrow> deletion_item \<Rightarrow> unit op" where
  "process_deletion e w n x = (\<lambda>d.
     case GetArtifactLocation (di_location_id x) d of
       (Inl _, d1) \<Rightarrow> cleanup_fail e w x ''artifact_location_missing'' ''location missing'' True d1
     | (Inr l, d1) \<Rightarrow>
         (case dw_open w (in_APIKeyNonce n) (in_APIKeyCiphertext n) of
            None \<Rightarrow> cleanup_fail e w x ''node_key_unavailable'' ''key unavailable'' True d1
          | Some key \<Rightarrow>
              (case url_parse e (in_ServiceURL n) of
                 None \<Rightarrow> cleanup_fail e w x ''node_config_invalid'' ''service url'' True d1
               | Some u \<Rightarrow>
                   if u_host u = [] then cleanup_fail e w x ''node_config_invalid'' ''service url'' True d1
                   else report_deletion e w x (al_node_artifact_id l)
                          (dw_delete w (in_ServiceURL n) key (di_operation_id x) (al_node_artifact_id l)) d1)))"

section \<open>Accounting\<close>

text \<open>
  What a job promises about its items: the counters and the byte sum are those of its items, and the
  job is finished, with the outcome its items have, exactly when every item is.
\<close>

definition of_job :: "string \<Rightarrow> deletion_item list \<Rightarrow> deletion_item list" where
  "of_job i xs = filter (\<lambda>x. di_job_id x = i) xs"

definition bytes_deleted :: "deletion_item list \<Rightarrow> int" where
  "bytes_deleted xs = (\<Sum>x \<leftarrow> xs. di_deleted_bytes x)"

definition expected_status :: "deletion_item list \<Rightarrow> DeletionJobStatus set" where
  "expected_status xs =
     (if count_items (\<lambda>s. \<not> item_final s) xs > 0 then {JobPending, JobRunning}
      else if count_items (\<lambda>s. s = ItemFailed) xs = 0 then {JobSucceeded}
      else if count_items item_gone xs = 0 then {JobFailed} else {JobPartialFailed})"

definition job_accounted :: "deletion_job \<Rightarrow> deletion_item list \<Rightarrow> bool" where
  "job_accounted j xs \<longleftrightarrow>
     (if dj_status j = JobPreview then xs = [] else dj_total_count j = int (length xs) \<and> dj_status j \<in> expected_status xs)
     \<and> dj_succeeded_count j = count_items item_gone xs \<and> dj_failed_count j = count_items (\<lambda>s. s = ItemFailed) xs
     \<and> dj_deleted_bytes j = bytes_deleted xs"

definition item_ok :: "deletion_item \<Rightarrow> bool" where
  "item_ok x \<longleftrightarrow> di_status x \<noteq> ItemSkipped \<and> (di_lease_token x \<noteq> None \<longleftrightarrow> di_status x = ItemDeleting)
     \<and> (\<not> item_gone (di_status x) \<longrightarrow> di_deleted_bytes x = 0)"

definition accounts :: "deletion_job list \<Rightarrow> deletion_item list \<Rightarrow> bool" where
  "accounts js xs \<longleftrightarrow> distinct (map dj_id js) \<and> distinct (map di_id xs) \<and> list_all item_ok xs
     \<and> (\<forall>x \<in> set xs. \<exists>j \<in> set js. dj_id j = di_job_id x)
     \<and> (\<forall>j \<in> set js. job_accounted j (of_job (dj_id j) xs))"

abbreviation accounted :: "db \<Rightarrow> bool" where
  "accounted d \<equiv> accounts (artifact_deletion_jobs d) (artifact_deletion_items d)"

definition accounts_kept :: "db \<Rightarrow> db \<Rightarrow> bool" where
  "accounts_kept d d' \<longleftrightarrow> (accounted d \<longrightarrow> accounted d')"

interpretation accounting: step_contract accounts_kept
  by unfold_locales (auto simp: accounts_kept_def)

lemma items_of_job: "items_of i d = of_job i (artifact_deletion_items d)"
  by (simp add: items_of_def of_job_def)

lemma count_items_simps [simp]:
  "count_items p [] = 0" "count_items p (x # xs) = (if p (di_status x) then 1 else 0) + count_items p xs"
  "count_items p (xs @ ys) = count_items p xs + count_items p ys"
  by (simp_all add: count_items_def)

lemma item_status_simps [simp]:
  "item_final ItemFailed" "item_final ItemDeleted" "item_final ItemAlreadyAbsent" "\<not> item_final ItemPending" "\<not> item_final ItemDeleting"
  "\<not> item_final ItemRetryWait" "item_gone ItemDeleted" "item_gone ItemAlreadyAbsent" "\<not> item_gone ItemFailed" "\<not> item_gone ItemPending"
  "\<not> item_gone ItemDeleting" "\<not> item_gone ItemRetryWait"
  by (simp_all add: item_final_def item_gone_def)

lemma count_items_nonneg: "0 \<le> count_items p xs"
  by (simp add: count_items_def)

lemma bytes_deleted_simps [simp]:
  "bytes_deleted [] = 0" "bytes_deleted (x # xs) = di_deleted_bytes x + bytes_deleted xs"
  "bytes_deleted (xs @ ys) = bytes_deleted xs + bytes_deleted ys"
  by (simp_all add: bytes_deleted_def)

lemma of_job_simps [simp]:
  "of_job i [] = []" "of_job i (x # xs) = (if di_job_id x = i then x # of_job i xs else of_job i xs)"
  "of_job i (xs @ ys) = of_job i xs @ of_job i ys"
  by (simp_all add: of_job_def)

lemma of_job_all: "list_all p xs \<Longrightarrow> list_all p (of_job i xs)"
  by (auto simp: of_job_def list_all_iff)

text \<open>Items are final, failed or still to be done; none is ever skipped.\<close>

lemma count_partition:
  "list_all item_ok xs \<Longrightarrow>
     count_items item_gone xs + count_items (\<lambda>s. s = ItemFailed) xs + count_items (\<lambda>s. \<not> item_final s) xs = int (length xs)"
  by (induction xs) (auto simp: item_ok_def item_gone_def item_final_def split: DeletionItemStatus.splits elim: DeletionItemStatus.exhaust)

lemma update_where_split:
  assumes "distinct (map k rows)" and "x \<in> set rows" and "\<And>r. r \<in> set rows \<Longrightarrow> p r \<longleftrightarrow> k r = k x"
  obtains us vs where "rows = us @ x # vs" "update_where p f rows = us @ f x # vs"
proof -
  from assms(2) obtain us vs where rows: "rows = us @ x # vs" by (auto simp: in_set_conv_decomp)
  have other: "k r \<noteq> k x" if "r \<in> set us \<union> set vs" for r
  proof -
    from that have "k r \<in> k ` set us \<union> k ` set vs" by blast
    moreover have "k x \<notin> k ` set us \<union> k ` set vs" using assms(1) unfolding rows by simp
    ultimately show ?thesis by metis
  qed
  have "update_where p f rows = us @ f x # vs"
    using assms(3) other by (auto simp: rows update_where_def intro!: map_idI)
  with rows show thesis by (rule that)
qed

text \<open>One item changes, and with it only its job.\<close>

lemma account_item:
  assumes acc: "accounts js xs" and x: "x \<in> set xs" and f: "di_id (f x) = di_id x" "di_job_id (f x) = di_job_id x" "item_ok (f x)"
    and p: "\<And>r. r \<in> set xs \<Longrightarrow> p r \<longleftrightarrow> di_id r = di_id x"
    and g: "\<And>j. dj_id (g j) = dj_id j" and q: "\<And>j. q j \<Longrightarrow> dj_id j = di_job_id x"
    and job: "\<And>j us vs. dj_id j = di_job_id x \<Longrightarrow> list_all item_ok (us @ x # vs) \<Longrightarrow> of_job (di_job_id x) (update_where p f xs) = us @ f x # vs \<Longrightarrow>
      job_accounted j (us @ x # vs) \<Longrightarrow> job_accounted (if q j then g j else j) (us @ f x # vs)"
  shows "accounts (update_where q g js) (update_where p f xs)"
proof -
  have ids: "distinct (map di_id xs)" and keys: "distinct (map dj_id js)" and items: "list_all item_ok xs"
    and owned: "\<forall>x \<in> set xs. \<exists>j \<in> set js. dj_id j = di_job_id x" and jobs: "\<forall>j \<in> set js. job_accounted j (of_job (dj_id j) xs)"
    using acc by (simp_all add: accounts_def)
  obtain us vs where xs: "xs = us @ x # vs" and upd: "update_where p f xs = us @ f x # vs"
    by (rule update_where_split [OF ids x p])
  have jobs': "job_accounted (if q j then g j else j) (of_job (dj_id j) (us @ f x # vs))" if "j \<in> set js" for j
  proof (cases "dj_id j = di_job_id x")
    case True
    have "list_all item_ok (of_job (di_job_id x) us @ x # of_job (di_job_id x) vs)"
      using of_job_all [OF items, of "di_job_id x"] by (simp add: xs)
    moreover have "job_accounted j (of_job (di_job_id x) us @ x # of_job (di_job_id x) vs)"
      using jobs that True by (auto simp: xs)
    ultimately show ?thesis using True f by (simp add: job upd)
  next
    case False
    with q have "\<not> q j" by blast
    with False jobs that f show ?thesis by (auto simp: xs)
  qed
  have "distinct (map di_id (us @ f x # vs))" using ids f(1) by (simp add: xs)
  moreover have "list_all item_ok (us @ f x # vs)" using items f(3) by (simp add: xs)
  moreover have "distinct (map dj_id (update_where q g js))" using keys g by (simp add: distinct_update_where)
  moreover have "\<exists>j' \<in> set (update_where q g js). dj_id j' = di_job_id y" if "y \<in> set (us @ f x # vs)" for y
  proof -
    from that owned f(2) obtain j where "j \<in> set js" "dj_id j = di_job_id y" by (auto simp: xs)
    then have "(if q j then g j else j) \<in> set (update_where q g js)" "dj_id (if q j then g j else j) = di_job_id y"
      by (simp_all add: update_where_def g)
    then show ?thesis by blast
  qed
  moreover have "job_accounted j' (of_job (dj_id j') (us @ f x # vs))" if "j' \<in> set (update_where q g js)" for j'
  proof -
    from that obtain j where j: "j \<in> set js" "j' = (if q j then g j else j)" by (auto simp: update_where_def)
    then have "dj_id j' = dj_id j" using g by simp
    with jobs' [OF j(1)] j(2) show ?thesis by simp
  qed
  ultimately show ?thesis unfolding upd accounts_def by blast
qed

lemma held_itemD:
  assumes "held_item i token d = Inr x"
  shows "x \<in> set (artifact_deletion_items d)" "di_id x = i" "di_lease_token x = Some token" "di_status x = ItemDeleting"
  using assms by (auto simp: held_item_def split: option.splits dest: select_where_Some)

lemma item_rows [simp]:
  "di_id (claimed_item token expires now x) = di_id x" "di_job_id (claimed_item token expires now x) = di_job_id x"
  "di_id (failed_item now code message next' terminal x) = di_id x" "di_job_id (failed_item now code message next' terminal x) = di_job_id x"
  "di_id (removed_item now absent bytes x) = di_id x" "di_job_id (removed_item now absent bytes x) = di_job_id x"
  "di_id (revived_item now x) = di_id x" "di_job_id (revived_item now x) = di_job_id x"
  "dj_id (started_job now j) = dj_id j" "dj_id (job_after_failure now terminal xs j) = dj_id j"
  "dj_id (job_after_removal now xs bytes j) = dj_id j" "dj_id (revived_job now failed j) = dj_id j"
  "dj_id (confirmed_job now none j) = dj_id j"
  by (simp_all add: claimed_item_def failed_item_def removed_item_def revived_item_def started_job_def job_after_failure_def
      job_after_removal_def revived_job_def confirmed_job_def Let_def)

lemma FailDeletionItem_success:
  assumes "FailDeletionItem e i code message next' terminal token d = (Inr u, d')"
  obtains x where "held_item i token d = Inr x"
    "artifact_deletion_items d' = update_where (\<lambda>x. di_id x = i) (failed_item (nowMillis e) code message next' terminal) (artifact_deletion_items d)"
    "artifact_deletion_jobs d' = update_where (\<lambda>j. dj_id j = di_job_id x)
       (job_after_failure (nowMillis e) terminal (of_job (di_job_id x) (artifact_deletion_items d'))) (artifact_deletion_jobs d)"
  using assms unfolding FailDeletionItem_def atomically_success_iff
  by (auto simp: tx_success Let_def items_of_job)

lemma CompleteDeletionItem_success:
  assumes "CompleteDeletionItem e i absent bytes token d = (Inr u, d')"
  obtains x where "held_item i token d = Inr x"
    "artifact_deletion_items d' = update_where (\<lambda>x. di_id x = i) (removed_item (nowMillis e) absent bytes) (artifact_deletion_items d)"
    "artifact_deletion_jobs d' = update_where (\<lambda>j. dj_id j = di_job_id x)
       (job_after_removal (nowMillis e) (of_job (di_job_id x) (artifact_deletion_items d')) bytes) (artifact_deletion_jobs d)"
  using assms unfolding CompleteDeletionItem_def atomically_success_iff
  by (auto simp: tx_success Let_def items_of_job)

lemma account_failure:
  assumes "list_all item_ok (us @ x # vs)" and "job_accounted j (us @ x # vs)" and "di_status x = ItemDeleting"
  shows "job_accounted (job_after_failure now terminal (us @ failed_item n code message next' terminal x # vs) j)
    (us @ failed_item n code message next' terminal x # vs)"
  using assms count_items_nonneg [of "\<lambda>s. s = ItemFailed" us] count_items_nonneg [of "\<lambda>s. s = ItemFailed" vs]
    count_items_nonneg [of "\<lambda>s. \<not> item_final s" us] count_items_nonneg [of "\<lambda>s. \<not> item_final s" vs]
    count_items_nonneg [of item_gone us] count_items_nonneg [of item_gone vs]
  by (auto simp: job_accounted_def job_after_failure_def failed_job_status_def expected_status_def failed_item_def item_ok_def
      Let_def split: if_splits)

lemma account_removal:
  assumes ok: "list_all item_ok (us @ x # vs)" and acc: "job_accounted j (us @ x # vs)" and x: "di_status x = ItemDeleting"
  shows "job_accounted (job_after_removal now (us @ removed_item n absent bytes x # vs) bytes j) (us @ removed_item n absent bytes x # vs)"
    (is "job_accounted _ ?xs")
proof -
  define xs where "xs = ?xs"
  have "list_all item_ok xs" using ok x by (auto simp: xs_def item_ok_def removed_item_def)
  then have "count_items item_gone xs + count_items (\<lambda>s. s = ItemFailed) xs + count_items (\<lambda>s. \<not> item_final s) xs = int (length xs)"
    by (rule count_partition)
  moreover have "count_items item_gone xs > 0"
    using count_items_nonneg [of item_gone us] count_items_nonneg [of item_gone vs] by (simp add: xs_def removed_item_def)
  moreover have "dj_status j \<noteq> JobPreview" "bytes_deleted xs = dj_deleted_bytes j + bytes" "dj_total_count j = int (length xs)"
    using ok acc x by (auto simp: xs_def item_ok_def job_accounted_def removed_item_def split: if_splits)
  ultimately have "job_accounted (job_after_removal now xs bytes j) xs"
    using count_items_nonneg [of "\<lambda>s. s = ItemFailed" xs] count_items_nonneg [of "\<lambda>s. \<not> item_final s" xs]
    by (auto simp: job_accounted_def job_after_removal_def removal_job_status_def expected_status_def Let_def)
  then show ?thesis by (simp add: xs_def)
qed

text \<open>The shape both reports have.\<close>

lemma account_report:
  assumes acc: "accounted d" and x: "held_item i token d = Inr x" and f: "\<And>x. di_id (f x) = di_id x" "\<And>x. di_job_id (f x) = di_job_id x"
    and items: "artifact_deletion_items d' = update_where (\<lambda>x. di_id x = i) f (artifact_deletion_items d)"
    and jobs: "artifact_deletion_jobs d' = update_where (\<lambda>j. dj_id j = di_job_id x) (g (of_job (di_job_id x) (artifact_deletion_items d'))) (artifact_deletion_jobs d)"
    and g: "\<And>xs j. dj_id (g xs j) = dj_id j" and ok: "item_ok x \<Longrightarrow> item_ok (f x)"
    and job: "\<And>j us vs. list_all item_ok (us @ x # vs) \<Longrightarrow> job_accounted j (us @ x # vs) \<Longrightarrow> job_accounted (g (us @ f x # vs) j) (us @ f x # vs)"
  shows "accounted d'"
proof -
  note x = held_itemD [OF x]
  have "item_ok x" using acc x(1) by (auto simp: accounts_def list_all_iff)
  have only: "di_id x = i" by fact
  show ?thesis unfolding jobs unfolding items
  proof (rule account_item [OF acc x(1)])
    fix j us vs
    assume "dj_id j = di_job_id x" "list_all item_ok (us @ x # vs)" "job_accounted j (us @ x # vs)"
      and split: "of_job (di_job_id x) (update_where (\<lambda>x. di_id x = i) f (artifact_deletion_items d)) = us @ f x # vs"
    then show "job_accounted (if dj_id j = di_job_id x then g (of_job (di_job_id x) (update_where (\<lambda>x. di_id x = i) f (artifact_deletion_items d))) j else j)
        (us @ f x # vs)"
      unfolding split by (simp add: job)
  qed (use only f g ok \<open>item_ok x\<close> in auto)
qed

lemma accounts_atomic:
  assumes "\<And>d u d'. atomically m d = (Inr u, d') \<Longrightarrow> accounted d \<Longrightarrow> accounted d'"
  shows "keeps accounts_kept (atomically m)"
proof (rule keepsI)
  fix d r d' assume run: "atomically m d = (r, d')"
  show "accounts_kept d d'"
  proof (cases r)
    case (Inl er)
    with run have "d' = d" by (auto dest: atomically_failure)
    then show ?thesis by (simp add: accounting.refl)
  next
    case (Inr u)
    with run assms show ?thesis by (auto simp: accounts_kept_def simp del: atomically_success_iff)
  qed
qed

lemma FailDeletionItem_accounts: "keeps accounts_kept (FailDeletionItem e i code message next' terminal token)"
  unfolding FailDeletionItem_def
proof (rule accounts_atomic, fold FailDeletionItem_def)
  fix d u d' assume run: "FailDeletionItem e i code message next' terminal token d = (Inr u, d')" and acc: "accounted d"
  from run obtain x where x: "held_item i token d = Inr x"
    and rows: "artifact_deletion_items d' = update_where (\<lambda>x. di_id x = i) (failed_item (nowMillis e) code message next' terminal) (artifact_deletion_items d)"
    "artifact_deletion_jobs d' = update_where (\<lambda>j. dj_id j = di_job_id x)
       (job_after_failure (nowMillis e) terminal (of_job (di_job_id x) (artifact_deletion_items d'))) (artifact_deletion_jobs d)"
    by (rule FailDeletionItem_success)
  show "accounted d'"
    by (rule account_report [where g = "job_after_failure (nowMillis e) terminal", OF acc x _ _ rows])
      (use held_itemD(4) [OF x] in \<open>simp_all add: account_failure\<close>, simp add: item_ok_def failed_item_def)
qed

lemma CompleteDeletionItem_accounts: "keeps accounts_kept (CompleteDeletionItem e i absent bytes token)"
  unfolding CompleteDeletionItem_def
proof (rule accounts_atomic, fold CompleteDeletionItem_def)
  fix d u d' assume run: "CompleteDeletionItem e i absent bytes token d = (Inr u, d')" and acc: "accounted d"
  from run obtain x where x: "held_item i token d = Inr x"
    and rows: "artifact_deletion_items d' = update_where (\<lambda>x. di_id x = i) (removed_item (nowMillis e) absent bytes) (artifact_deletion_items d)"
    "artifact_deletion_jobs d' = update_where (\<lambda>j. dj_id j = di_job_id x)
       (job_after_removal (nowMillis e) (of_job (di_job_id x) (artifact_deletion_items d')) bytes) (artifact_deletion_jobs d)"
    by (rule CompleteDeletionItem_success)
  show "accounted d'"
    by (rule account_report [where g = "\<lambda>xs. job_after_removal (nowMillis e) xs bytes", OF acc x _ _ rows])
      (use held_itemD(4) [OF x] in \<open>simp_all add: account_removal\<close>, simp add: item_ok_def removed_item_def)
qed

text \<open>Claims and renewals: the item stays to be done.\<close>

lemma account_open:
  assumes ok: "list_all item_ok (us @ x # vs)" and acc: "job_accounted j (us @ x # vs)" and "\<not> item_final (di_status x)" "\<not> item_final (di_status y)"
    and "di_deleted_bytes y = di_deleted_bytes x" and "j' = j \<or> j' = started_job now j \<and> dj_status j = JobPending"
  shows "job_accounted j' (us @ y # vs)"
proof -
  have "\<not> item_gone (di_status x)" "\<not> item_gone (di_status y)" "di_status x \<noteq> ItemFailed" "di_status y \<noteq> ItemFailed"
    using assms(3,4) by (auto simp: item_gone_def)
  moreover have "count_items (\<lambda>s. \<not> item_final s) (us @ y # vs) > 0" "count_items (\<lambda>s. \<not> item_final s) (us @ x # vs) > 0"
    using count_items_nonneg [of "\<lambda>s. \<not> item_final s" us] count_items_nonneg [of "\<lambda>s. \<not> item_final s" vs] assms(3,4) by simp_all
  ultimately show ?thesis using acc assms(3-6)
    by (auto simp: job_accounted_def expected_status_def started_job_def split: if_splits)
qed

lemma next_itemD:
  assumes "next_item nodeID now d = Inr x"
  shows "x \<in> set (artifact_deletion_items d)" "item_due nodeID now x"
proof -
  from assms obtain rest where "sort_key (\<lambda>x. (di_created_at x, di_id x)) (filter (item_due nodeID now) (artifact_deletion_items d)) = x # rest"
    by (auto simp: next_item_def split: list.splits)
  then have "x \<in> set (filter (item_due nodeID now) (artifact_deletion_items d))" by (metis list.set_intros(1) set_sort)
  then show "x \<in> set (artifact_deletion_items d)" "item_due nodeID now x" by simp_all
qed

lemma ClaimDeletionItem_success:
  assumes "ClaimDeletionItem e nodeID token leaseMillis d = (Inr y, d')"
  obtains x where "next_item nodeID (nowMillis e) d = Inr x" "item_by_id (di_id x) d' = Inr y"
    "artifact_deletion_items d' = update_where (\<lambda>y. di_id y = di_id x \<and> (case di_lease_expires_at y of None \<Rightarrow> True | Some t \<Rightarrow> t \<le> nowMillis e))
       (claimed_item token (nowMillis e + leaseMillis) (nowMillis e)) (artifact_deletion_items d)"
    "artifact_deletion_jobs d' = update_where (\<lambda>j. dj_id j = di_job_id x \<and> dj_status j = JobPending) (started_job (nowMillis e)) (artifact_deletion_jobs d)"
  using assms unfolding ClaimDeletionItem_def atomically_success_iff by (auto simp: tx_success Let_def)

lemma ClaimDeletionItem_accounts: "keeps accounts_kept (ClaimDeletionItem e nodeID token leaseMillis)"
  unfolding ClaimDeletionItem_def
proof (rule accounts_atomic, fold ClaimDeletionItem_def)
  fix d y d' assume run: "ClaimDeletionItem e nodeID token leaseMillis d = (Inr y, d')" and acc: "accounted d"
  let ?free = "\<lambda>y. case di_lease_expires_at y of None \<Rightarrow> True | Some t \<Rightarrow> t \<le> nowMillis e"
  from run obtain x where x: "next_item nodeID (nowMillis e) d = Inr x"
    and items: "artifact_deletion_items d' = update_where (\<lambda>y. di_id y = di_id x \<and> ?free y)
       (claimed_item token (nowMillis e + leaseMillis) (nowMillis e)) (artifact_deletion_items d)"
    and jobs: "artifact_deletion_jobs d' = update_where (\<lambda>j. dj_id j = di_job_id x \<and> dj_status j = JobPending) (started_job (nowMillis e)) (artifact_deletion_jobs d)"
    by (rule ClaimDeletionItem_success)
  note x = next_itemD [OF x]
  have ids: "distinct (map di_id (artifact_deletion_items d))" and "item_ok x" using acc x(1) by (auto simp: accounts_def list_all_iff)
  have open': "\<not> item_final (di_status x)" "?free x" using x(2) by (auto simp: item_due_def)
  show "accounted d'" unfolding items jobs
  proof (rule account_item [OF acc x(1)])
    show "di_id r = di_id x \<and> ?free r \<longleftrightarrow> di_id r = di_id x" if "r \<in> set (artifact_deletion_items d)" for r
      using key_unique [OF ids that x(1)] open'(2) by blast
    show "item_ok (claimed_item token (nowMillis e + leaseMillis) (nowMillis e) x)"
      using \<open>item_ok x\<close> open'(1) by (auto simp: item_ok_def claimed_item_def item_gone_def)
    fix j us vs
    assume ok: "list_all item_ok (us @ x # vs)" "job_accounted j (us @ x # vs)"
    show "job_accounted (if dj_id j = di_job_id x \<and> dj_status j = JobPending then started_job (nowMillis e) j else j)
        (us @ claimed_item token (nowMillis e + leaseMillis) (nowMillis e) x # vs)"
      by (rule account_open [OF ok, where now = "nowMillis e"]) (use open' in \<open>auto simp: claimed_item_def\<close>)
  qed auto
qed

lemma RenewDeletionLease_accounts: "keeps accounts_kept (RenewDeletionLease e i leaseMillis token)"
proof (rule keepsI, unfold accounts_kept_def, rule impI)
  fix d r d' assume run: "RenewDeletionLease e i leaseMillis token d = (r, d')" and acc: "accounted d"
  let ?p = "\<lambda>x. di_id x = i \<and> di_lease_token x = Some token \<and> di_status x = ItemDeleting
          \<and> (case di_lease_expires_at x of None \<Rightarrow> False | Some t \<Rightarrow> t > nowMillis e)"
  let ?f = "\<lambda>x. x\<lparr>di_lease_expires_at := Some (nowMillis e + leaseMillis), di_updated_at := nowMillis e\<rparr>"
  have ids: "distinct (map di_id (artifact_deletion_items d))" using acc by (simp add: accounts_def)
  have rows: "artifact_deletion_items d' = update_where ?p ?f (artifact_deletion_items d)" "artifact_deletion_jobs d' = artifact_deletion_jobs d"
    using run by (auto simp: RenewDeletionLease_def exec_one_apply)
  show "accounted d'"
  proof (cases "\<exists>x \<in> set (artifact_deletion_items d). ?p x")
    case False
    then have "artifact_deletion_items d' = artifact_deletion_items d" unfolding rows by (intro update_where_id) blast
    with acc rows(2) show ?thesis by simp
  next
    case True
    then obtain x where x: "x \<in> set (artifact_deletion_items d)" "?p x" by blast
    have none: "update_where (\<lambda>j. False) (started_job 0) (artifact_deletion_jobs d) = artifact_deletion_jobs d" by (intro update_where_id) simp
    have "accounts (update_where (\<lambda>j. False) (started_job 0) (artifact_deletion_jobs d)) (update_where ?p ?f (artifact_deletion_items d))"
    proof (rule account_item [OF acc x(1)])
      show "?p r \<longleftrightarrow> di_id r = di_id x" if "r \<in> set (artifact_deletion_items d)" for r
        using key_unique [OF ids that x(1)] x(2) by metis
      show "item_ok (?f x)" using acc x by (auto simp: accounts_def list_all_iff item_ok_def)
      fix j us vs assume "list_all item_ok (us @ x # vs)" "job_accounted j (us @ x # vs)"
      then show "job_accounted (if False then started_job 0 j else j) (us @ ?f x # vs)"
        by (rule account_open) (use x(2) in auto)
    qed auto
    then show ?thesis unfolding none rows .
  qed
qed

text \<open>New items, of a new job or of a confirmed preview.\<close>

definition fresh_item :: "string \<Rightarrow> deletion_item \<Rightarrow> bool" where
  "fresh_item job x \<longleftrightarrow> di_job_id x = job \<and> di_status x = ItemPending \<and> di_lease_token x = None \<and> di_deleted_bytes x = 0"

lemma insert_items_effect:
  assumes "for_each (\<lambda>(k, c). insert_item (new_item (uuid e (first + 2 * k)) (uuid e (first + 2 * k + 1)) now job c)) (enumerate n cs) d = (Inr u, d')"
  shows "\<exists>xs. d' = artifact_deletion_items_update (\<lambda>rows. rows @ xs) d \<and> length xs = length cs \<and> list_all (fresh_item job) xs
    \<and> (distinct (map di_id (artifact_deletion_items d)) \<longrightarrow> distinct (map di_id (artifact_deletion_items d @ xs)))"
  using assms
proof (induction cs arbitrary: n d)
  case Nil
  then show ?case by (intro exI [of _ "[]"]) simp
next
  case (Cons c cs)
  let ?x = "new_item (uuid e (first + 2 * n)) (uuid e (first + 2 * n + 1)) now job c"
  from Cons.prems have free: "\<forall>y \<in> set (artifact_deletion_items d). \<not> item_clash ?x y"
    and rest: "for_each (\<lambda>(k, c). insert_item (new_item (uuid e (first + 2 * k)) (uuid e (first + 2 * k + 1)) now job c)) (enumerate (Suc n) cs)
       (artifact_deletion_items_update (\<lambda>rows. rows @ [?x]) d) = (Inr u, d')"
    by (auto simp: insert_item_def tx_success)
  from Cons.IH [OF rest] obtain xs where "d' = artifact_deletion_items_update (\<lambda>rows. rows @ xs) (artifact_deletion_items_update (\<lambda>rows. rows @ [?x]) d)"
    "length xs = length cs" "list_all (fresh_item job) xs"
    "distinct (map di_id (artifact_deletion_items d @ [?x])) \<longrightarrow> distinct (map di_id ((artifact_deletion_items d @ [?x]) @ xs))"
    by auto
  moreover have "di_id ?x \<notin> di_id ` set (artifact_deletion_items d)" using free by (auto simp: item_clash_def)
  moreover have "fresh_item job ?x" by (auto simp: fresh_item_def new_item_def split: prod.splits)
  ultimately show ?case by (intro exI [of _ "?x # xs"]) (auto simp: o_def)
qed

lemma count_fresh:
  assumes "list_all (fresh_item i) ys"
  shows "count_items item_gone ys = 0" "count_items (\<lambda>s. s = ItemFailed) ys = 0" "count_items (\<lambda>s. \<not> item_final s) ys = int (length ys)"
    "bytes_deleted ys = 0" "of_job i ys = ys" "k \<noteq> i \<Longrightarrow> of_job k ys = []"
  using assms by (induction ys) (auto simp: fresh_item_def)

definition fresh_job :: "deletion_job \<Rightarrow> nat \<Rightarrow> bool" where
  "fresh_job j n \<longleftrightarrow> dj_total_count j = int n \<and> dj_status j = (if n = 0 then JobSucceeded else JobPending)
     \<and> dj_succeeded_count j = 0 \<and> dj_failed_count j = 0 \<and> dj_deleted_bytes j = 0"

lemma account_new:
  assumes acc: "accounts js xs" and ys: "list_all (fresh_item i) ys" and ids: "distinct (map di_id (xs @ ys))"
    and keys: "distinct (map dj_id js')" and none: "of_job i xs = []"
    and own: "\<And>j. j \<in> set js' \<Longrightarrow> dj_id j = i \<Longrightarrow> fresh_job j (length ys)"
    and other: "\<And>j. dj_id j \<noteq> i \<Longrightarrow> j \<in> set js' \<longleftrightarrow> j \<in> set js" and there: "\<exists>j \<in> set js'. dj_id j = i"
  shows "accounts js' (xs @ ys)"
proof -
  have "job_accounted j (of_job (dj_id j) (xs @ ys))" if "j \<in> set js'" for j
  proof (cases "dj_id j = i")
    case True
    with own [OF that] none count_fresh [OF ys] show ?thesis
      by (auto simp: job_accounted_def fresh_job_def expected_status_def)
  next
    case False
    with that other acc have "job_accounted j (of_job (dj_id j) xs)" by (auto simp: accounts_def)
    with count_fresh(6) [OF ys False] show ?thesis by simp
  qed
  moreover have "\<exists>j \<in> set js'. dj_id j = di_job_id x" if "x \<in> set (xs @ ys)" for x
  proof (cases "di_job_id x = i")
    case False
    with that ys have "x \<in> set xs" by (auto simp: list_all_iff fresh_item_def)
    with acc obtain j where "j \<in> set js" "dj_id j = di_job_id x" by (auto simp: accounts_def)
    with False other [of j] show ?thesis by auto
  qed (use there in simp)
  moreover have "list_all item_ok (xs @ ys)"
    using acc ys by (auto simp: accounts_def list_all_iff fresh_item_def item_ok_def)
  ultimately show ?thesis unfolding accounts_def using ids keys by blast
qed

lemma RequestTaskDeletion_success:
  assumes "RequestTaskDeletion e i reason by' d = (Inr j, d')"
  obtains ys where "deletable_task i d = Inr ()" "j = task_deletion_job e reason by' (int (length ys))"
    "\<forall>x \<in> set (artifact_deletion_jobs d). dj_id x \<noteq> dj_id j" "list_all (fresh_item (dj_id j)) ys"
    "length ys = length (deletion_candidates i d)"
    "distinct (map di_id (artifact_deletion_items d)) \<longrightarrow> distinct (map di_id (artifact_deletion_items d @ ys))"
    "artifact_deletion_jobs d' = artifact_deletion_jobs d @ [j]" "artifact_deletion_items d' = artifact_deletion_items d @ ys"
proof -
  let ?cs = "deletion_candidates i d" and ?j = "task_deletion_job e reason by' (int (length (deletion_candidates i d)))"
  from assms obtain d1 where j: "j = ?j" and d1: "deletable_task i d = Inr ()" "\<forall>x \<in> set (artifact_deletion_jobs d). dj_id x \<noteq> dj_id ?j"
    "insert_items e 1 (nowMillis e) (dj_id ?j) ?cs (artifact_deletion_jobs_update (\<lambda>rows. rows @ [?j]) d) = (Inr (), d1)"
    "artifact_deletion_jobs d' = artifact_deletion_jobs d1" "artifact_deletion_items d' = artifact_deletion_items d1"
    unfolding RequestTaskDeletion_def atomically_success_iff by (auto simp: tx_success Let_def insert_job_def)
  from insert_items_effect [OF d1(3) [unfolded insert_items_def]] d1 j show thesis by (auto intro!: that)
qed

lemma no_items: "accounts js xs \<Longrightarrow> \<forall>j \<in> set js. dj_id j \<noteq> i \<Longrightarrow> of_job i xs = []"
  by (fastforce simp: accounts_def of_job_def filter_empty_conv)

lemma RequestTaskDeletion_accounts: "keeps accounts_kept (RequestTaskDeletion e i reason by')"
  unfolding RequestTaskDeletion_def
proof (rule accounts_atomic, fold RequestTaskDeletion_def)
  fix d j d' assume run: "RequestTaskDeletion e i reason by' d = (Inr j, d')" and acc: "accounted d"
  from run obtain ys where ys: "j = task_deletion_job e reason by' (int (length ys))"
    "\<forall>x \<in> set (artifact_deletion_jobs d). dj_id x \<noteq> dj_id j" "list_all (fresh_item (dj_id j)) ys"
    "distinct (map di_id (artifact_deletion_items d)) \<longrightarrow> distinct (map di_id (artifact_deletion_items d @ ys))"
    "artifact_deletion_jobs d' = artifact_deletion_jobs d @ [j]" "artifact_deletion_items d' = artifact_deletion_items d @ ys"
    by (rule RequestTaskDeletion_success)
  show "accounted d'" unfolding ys(5,6)
  proof (rule account_new [OF acc ys(3)])
    show "distinct (map di_id (artifact_deletion_items d @ ys))" using acc ys(4) by (simp add: accounts_def)
    show "distinct (map dj_id (artifact_deletion_jobs d @ [j]))" using acc ys(2) by (auto simp: accounts_def)
    show "of_job (dj_id j) (artifact_deletion_items d) = []" by (rule no_items [OF acc ys(2)])
    show "fresh_job x (length ys)" if "x \<in> set (artifact_deletion_jobs d @ [j])" "dj_id x = dj_id j" for x
      using that ys(1,2) by (auto simp: fresh_job_def task_deletion_job_def)
  qed auto
qed

lemma insert_job_effect:
  assumes "insert_job j d = (r, d')"
  shows "d' = d \<or> (\<forall>x \<in> set (artifact_deletion_jobs d). dj_id x \<noteq> dj_id j)
    \<and> artifact_deletion_jobs d' = artifact_deletion_jobs d @ [j] \<and> artifact_deletion_items d' = artifact_deletion_items d"
  using assms by (auto simp: insert_job_def and_then_ensuring split: if_splits)

lemma PreviewArtifactCleanup_effect:
  assumes "PreviewArtifactCleanup e secret days by' d = (r, d')"
  shows "d' = d \<or> (\<exists>cutoff cs skipped q. insert_job (preview_job e secret days by' cutoff cs skipped) d = (q, d'))"
proof -
  obtain q d1 where q: "insert_job (preview_job e secret days by' (nowMillis e - days * 86400000) (cleanup_candidates (nowMillis e - days * 86400000) d)
      (skipped_active (nowMillis e - days * 86400000) d)) d = (q, d1)" by fastforce
  with assms show ?thesis
    unfolding PreviewArtifactCleanup_def Let_def and_then_ensure and_then_gets cleanupCandidates_def prod.case
    by (cases q) (auto split: if_splits)
qed

lemma PreviewArtifactCleanup_accounts: "keeps accounts_kept (PreviewArtifactCleanup e secret days by')"
proof (rule keepsI, unfold accounts_kept_def, rule impI)
  fix d r d' assume run: "PreviewArtifactCleanup e secret days by' d = (r, d')" and acc: "accounted d"
  from PreviewArtifactCleanup_effect [OF run] show "accounted d'"
  proof (elim disjE exE)
    fix cutoff cs skipped q
    assume "insert_job (preview_job e secret days by' cutoff cs skipped) d = (q, d')" (is "insert_job ?j d = _")
    from insert_job_effect [OF this] show ?thesis
    proof (elim disjE conjE)
      assume new: "\<forall>x \<in> set (artifact_deletion_jobs d). dj_id x \<noteq> dj_id ?j"
        and rows: "artifact_deletion_jobs d' = artifact_deletion_jobs d @ [?j]" "artifact_deletion_items d' = artifact_deletion_items d"
      have "job_accounted ?j (of_job (dj_id ?j) (artifact_deletion_items d))"
        unfolding no_items [OF acc new] by (simp add: job_accounted_def preview_job_def)
      with acc new show ?thesis unfolding rows by (auto simp: accounts_def)
    qed (use acc in simp)
  qed (use acc in simp)
qed

lemma preview_ofD:
  assumes "preview_of i d = Inr j"
  shows "j \<in> set (artifact_deletion_jobs d)" "dj_id j = i" "dj_status j = JobPreview"
  using assms by (auto simp: preview_of_def split: option.splits dest: select_where_Some)

lemma ConfirmArtifactCleanup_success:
  assumes "ConfirmArtifactCleanup e token confirmation d = (Inr r, d')"
  obtains i j ys where "token_job token = Some i" "preview_of i d = Inr j" "token_matches e token j"
    "preview_current e j (cleanup_candidates (coalesce (dj_cutoff_at j) 0) d)" "list_all (fresh_item i) ys"
    "length ys = length (cleanup_candidates (coalesce (dj_cutoff_at j) 0) d)"
    "distinct (map di_id (artifact_deletion_items d)) \<longrightarrow> distinct (map di_id (artifact_deletion_items d @ ys))"
    "artifact_deletion_items d' = artifact_deletion_items d @ ys"
    "artifact_deletion_jobs d' = update_where (\<lambda>x. dj_id x = i \<and> dj_status x = JobPreview) (confirmed_job (nowMillis e) (ys = [])) (artifact_deletion_jobs d)"
proof -
  from assms obtain i j d1 where d1: "token_job token = Some i" "preview_of i d = Inr j" "token_matches e token j"
    "preview_current e j (cleanup_candidates (coalesce (dj_cutoff_at j) 0) d)"
    "insert_items e 0 (nowMillis e) i (cleanup_candidates (coalesce (dj_cutoff_at j) 0) d) d = (Inr (), d1)"
    "artifact_deletion_items d' = artifact_deletion_items d1"
    "artifact_deletion_jobs d' = update_where (\<lambda>x. dj_id x = i \<and> dj_status x = JobPreview)
       (confirmed_job (nowMillis e) (cleanup_candidates (coalesce (dj_cutoff_at j) 0) d = [])) (artifact_deletion_jobs d1)"
    unfolding ConfirmArtifactCleanup_def by (auto simp: tx_success Let_def split: option.splits)
  from insert_items_effect [OF d1(5) [unfolded insert_items_def]] obtain ys where ys: "d1 = artifact_deletion_items_update (\<lambda>rows. rows @ ys) d"
    "length ys = length (cleanup_candidates (coalesce (dj_cutoff_at j) 0) d)" "list_all (fresh_item i) ys"
    "distinct (map di_id (artifact_deletion_items d)) \<longrightarrow> distinct (map di_id (artifact_deletion_items d @ ys))" by auto
  moreover have "cleanup_candidates (coalesce (dj_cutoff_at j) 0) d = [] \<longleftrightarrow> ys = []" using ys(2) by auto
  ultimately show thesis using d1 by (intro that) simp_all
qed

lemma ConfirmArtifactCleanup_accounts: "keeps accounts_kept (ConfirmArtifactCleanup e token confirmation)"
proof (cases "token_job token")
  case None
  then show ?thesis by (simp add: ConfirmArtifactCleanup_def accounting.keeps_raise)
next
  case (Some i0)
  then obtain m where m: "ConfirmArtifactCleanup e token confirmation = atomically m" by (simp add: ConfirmArtifactCleanup_def)
  show ?thesis unfolding m
  proof (rule accounts_atomic, fold m)
    fix d r d' assume run: "ConfirmArtifactCleanup e token confirmation d = (Inr r, d')" and acc: "accounted d"
    from run obtain i j ys where j: "preview_of i d = Inr j"
      and cur: "preview_current e j (cleanup_candidates (coalesce (dj_cutoff_at j) 0) d)" and ys: "list_all (fresh_item i) ys"
      "length ys = length (cleanup_candidates (coalesce (dj_cutoff_at j) 0) d)"
      "distinct (map di_id (artifact_deletion_items d)) \<longrightarrow> distinct (map di_id (artifact_deletion_items d @ ys))"
      "artifact_deletion_items d' = artifact_deletion_items d @ ys"
      "artifact_deletion_jobs d' = update_where (\<lambda>x. dj_id x = i \<and> dj_status x = JobPreview) (confirmed_job (nowMillis e) (ys = [])) (artifact_deletion_jobs d)"
      by (rule ConfirmArtifactCleanup_success)
    note j = preview_ofD [OF j]
    have keys: "distinct (map dj_id (artifact_deletion_jobs d))" and acc_j: "job_accounted j (of_job i (artifact_deletion_items d))"
      using acc j(1,2) by (auto simp: accounts_def)
    have only: "x = j" if "x \<in> set (artifact_deletion_jobs d)" "dj_id x = i" for x
      by (rule key_unique [OF keys that(1) j(1)]) (use that(2) j(2) in simp)
    have fresh: "fresh_job (confirmed_job (nowMillis e) (ys = []) j) (length ys)"
      using acc_j j(3) cur ys(2) by (auto simp: fresh_job_def confirmed_job_def job_accounted_def preview_current_def)
    show "accounted d'" unfolding ys(4,5)
    proof (rule account_new [OF acc ys(1)])
      show "distinct (map di_id (artifact_deletion_items d @ ys))" using acc ys(3) by (simp add: accounts_def)
      show "of_job i (artifact_deletion_items d) = []" using acc_j j(3) by (simp add: job_accounted_def)
      show "distinct (map dj_id (update_where (\<lambda>x. dj_id x = i \<and> dj_status x = JobPreview) (confirmed_job (nowMillis e) (ys = [])) (artifact_deletion_jobs d)))"
        using keys by (simp add: distinct_update_where)
      fix x
      show "x \<in> set (update_where (\<lambda>x. dj_id x = i \<and> dj_status x = JobPreview) (confirmed_job (nowMillis e) (ys = [])) (artifact_deletion_jobs d))
          \<longleftrightarrow> x \<in> set (artifact_deletion_jobs d)" if "dj_id x \<noteq> i"
        using that by (auto simp: set_update_where)
      show "fresh_job x (length ys)" if "dj_id x = i"
        "x \<in> set (update_where (\<lambda>x. dj_id x = i \<and> dj_status x = JobPreview) (confirmed_job (nowMillis e) (ys = [])) (artifact_deletion_jobs d))"
        using that(2) fresh only j(3) that(1) unfolding set_update_where by blast
    next
      show "\<exists>x \<in> set (update_where (\<lambda>x. dj_id x = i \<and> dj_status x = JobPreview) (confirmed_job (nowMillis e) (ys = [])) (artifact_deletion_jobs d)). dj_id x = i"
        using j by (intro bexI [of _ "confirmed_job (nowMillis e) (ys = []) j"]) (simp_all add: set_update_where)
    qed
  qed
qed

text \<open>A retry turns failed items of one job back into pending ones.\<close>

lemma retryable_itemD: "retryable_item i nodes x \<Longrightarrow> di_job_id x = i \<and> di_status x = ItemFailed"
  by (simp add: retryable_item_def)

lemma of_job_retried:
  "of_job k (update_where (retryable_item i nodes) (revived_item now) xs) =
     (if k = i then update_where (retryable_item i nodes) (revived_item now) (of_job i xs) else of_job k xs)"
  by (induction xs) (auto dest: retryable_itemD)

lemma retried_counts:
  fixes i nodes now
  defines "upd \<equiv> update_where (retryable_item i nodes) (revived_item now)"
  shows "count_items item_gone (upd xs) = count_items item_gone xs" "bytes_deleted (upd xs) = bytes_deleted xs" "length (upd xs) = length xs"
    "\<exists>x \<in> set xs. retryable_item i nodes x \<Longrightarrow> count_items (\<lambda>s. \<not> item_final s) (upd xs) > 0"
proof -
  show "count_items item_gone (upd xs) = count_items item_gone xs" "bytes_deleted (upd xs) = bytes_deleted xs" "length (upd xs) = length xs"
    unfolding upd_def by (induction xs) (auto simp: revived_item_def dest: retryable_itemD)
  show "count_items (\<lambda>s. \<not> item_final s) (upd xs) > 0" if "\<exists>x \<in> set xs. retryable_item i nodes x"
  proof -
    from that obtain us x vs where "xs = us @ x # vs" "retryable_item i nodes x" by (metis split_list)
    then show ?thesis using count_items_nonneg [of "\<lambda>s. \<not> item_final s" "upd us"] count_items_nonneg [of "\<lambda>s. \<not> item_final s" "upd vs"]
      by (simp add: upd_def update_where_def revived_item_def)
  qed
qed

lemma account_retry:
  fixes now
  assumes acc: "accounts js xs" and some: "\<exists>x \<in> set xs. retryable_item i nodes x"
  defines "xs' \<equiv> update_where (retryable_item i nodes) (revived_item now) xs"
  shows "accounts (update_where (\<lambda>j. dj_id j = i) (revived_job now (count_items (\<lambda>s. s = ItemFailed) (of_job i xs'))) js) xs'"
proof -
  let ?g = "revived_job now (count_items (\<lambda>s. s = ItemFailed) (of_job i xs'))"
  have own: "\<exists>x \<in> set (of_job i xs). retryable_item i nodes x" using some by (auto simp: of_job_def retryable_item_def)
  have "job_accounted j' (of_job (dj_id j') xs')" if "j' \<in> set (update_where (\<lambda>j. dj_id j = i) ?g js)" for j'
  proof -
    from that obtain j where j: "j \<in> set js" "j' = (if dj_id j = i then ?g j else j)" by (auto simp: update_where_def)
    have "job_accounted j (of_job (dj_id j) xs)" using acc j(1) by (simp add: accounts_def)
    then show ?thesis
    proof (cases "dj_id j = i")
      case True
      have "of_job i xs \<noteq> []" using own by auto
      with \<open>job_accounted j (of_job (dj_id j) xs)\<close> True retried_counts(4) [OF own] show ?thesis
        by (auto simp: j(2) xs'_def of_job_retried job_accounted_def expected_status_def revived_job_def retried_counts split: if_splits)
    next
      case False
      with \<open>job_accounted j (of_job (dj_id j) xs)\<close> show ?thesis by (simp add: j(2) xs'_def of_job_retried)
    qed
  qed
  moreover have "list_all item_ok xs'"
    using acc by (auto simp: accounts_def xs'_def list_all_iff set_update_where item_ok_def revived_item_def retryable_item_def)
  moreover have "\<exists>j' \<in> set (update_where (\<lambda>j. dj_id j = i) ?g js). dj_id j' = di_job_id y" if y: "y \<in> set xs'" for y
  proof -
    from y acc obtain j where "j \<in> set js" "dj_id j = di_job_id y" by (fastforce simp: xs'_def accounts_def set_update_where)
    then have "(if dj_id j = i then ?g j else j) \<in> set (update_where (\<lambda>j. dj_id j = i) ?g js)" "dj_id (if dj_id j = i then ?g j else j) = di_job_id y"
      by (simp_all add: update_where_def)
    then show ?thesis by blast
  qed
  moreover have "distinct (map dj_id (update_where (\<lambda>j. dj_id j = i) ?g js))" "distinct (map di_id xs')"
    using acc by (simp_all add: accounts_def xs'_def distinct_update_where)
  ultimately show ?thesis unfolding accounts_def by blast
qed

lemma RetryArtifactCleanup_accounts: "keeps accounts_kept (RetryArtifactCleanup e i nodes)"
proof (rule keepsI, unfold accounts_kept_def, rule impI)
  fix d r d' assume run: "RetryArtifactCleanup e i nodes d = (r, d')" and acc: "accounted d"
  show "accounted d'"
  proof (cases "[] \<in> set nodes")
    case True
    then show ?thesis using run acc by (simp add: RetryArtifactCleanup_def Let_def and_then_ensure)
  next
    case False
    note run = run [unfolded RetryArtifactCleanup_def committing_apply Let_def and_then_ensure if_P [OF False]]
    show ?thesis
    proof (cases "\<exists>x \<in> set (artifact_deletion_items d). retryable_item i nodes x")
      case none: False
      then have "affected (retryable_item i nodes) (artifact_deletion_items d) = 0" by (simp add: affected_zero)
      then have "artifact_deletion_jobs d' = artifact_deletion_jobs d"
        "artifact_deletion_items d' = update_where (retryable_item i nodes) (revived_item (nowMillis e)) (artifact_deletion_items d)"
        using run by (auto simp: and_then_def)
      moreover have "update_where (retryable_item i nodes) (revived_item (nowMillis e)) (artifact_deletion_items d) = artifact_deletion_items d"
        by (rule update_where_id) (use none in blast)
      ultimately show ?thesis using acc by simp
    next
      case some: True
      then have "affected (retryable_item i nodes) (artifact_deletion_items d) \<noteq> 0" by (auto simp: affected_zero)
      then have "artifact_deletion_items d' = update_where (retryable_item i nodes) (revived_item (nowMillis e)) (artifact_deletion_items d)"
        "artifact_deletion_jobs d' = update_where (\<lambda>j. dj_id j = i)
           (revived_job (nowMillis e) (count_items (\<lambda>s. s = ItemFailed) (of_job i (artifact_deletion_items d')))) (artifact_deletion_jobs d)"
        using run by (auto simp: and_then_def items_of_job split: sum.splits)
      then show ?thesis using account_retry [OF acc some] by simp
    qed
  qed
qed

section \<open>The machine\<close>

inductive deletion_step :: "db \<Rightarrow> db \<Rightarrow> bool" where
  request: "RequestTaskDeletion e i reason by' d = (r, d') \<Longrightarrow> deletion_step d d'"
| claim: "ClaimDeletionItem e nodeID token leaseMillis d = (x, d') \<Longrightarrow> deletion_step d d'"
| renew: "RenewDeletionLease e i leaseMillis token d = (u, d') \<Longrightarrow> deletion_step d d'"
| failed: "FailDeletionItem e i code message next' terminal token d = (u, d') \<Longrightarrow> deletion_step d d'"
| complete: "CompleteDeletionItem e i absent bytes token d = (u, d') \<Longrightarrow> deletion_step d d'"
| preview: "PreviewArtifactCleanup e secret days by' d = (p, d') \<Longrightarrow> deletion_step d d'"
| confirm: "ConfirmArtifactCleanup e token confirmation d = (r, d') \<Longrightarrow> deletion_step d d'"
| retry: "RetryArtifactCleanup e i nodes d = (r, d') \<Longrightarrow> deletion_step d d'"

lemmas accounting_ops = RequestTaskDeletion_accounts ClaimDeletionItem_accounts RenewDeletionLease_accounts FailDeletionItem_accounts
  CompleteDeletionItem_accounts PreviewArtifactCleanup_accounts ConfirmArtifactCleanup_accounts RetryArtifactCleanup_accounts

lemma deletion_step_accounts: "deletion_step d d' \<Longrightarrow> accounts_kept d d'"
  by (induction rule: deletion_step.induct) (rule keepsD, rule accounting_ops, assumption)+

text \<open>C30: However requests, claims, renewals, reports, previews, confirmations and retries interleave, the books of every
  deletion job balance: its counters and byte sum are exactly those of its items, it is finished precisely
  when none of its items is left to do, and then its status is the outcome of its items; and an item
  carries a lease precisely while it is being deleted.\<close>

theorem deletion_accounting:
  assumes "deletion_step\<^sup>*\<^sup>* d d'" and "accounted d" and "j \<in> set (artifact_deletion_jobs d')" and "dj_status j \<noteq> JobPreview"
    and "xs = items_of (dj_id j) d'"
  shows "dj_total_count j = int (length xs) \<and> dj_succeeded_count j = count_items item_gone xs
    \<and> dj_failed_count j = count_items (\<lambda>s. s = ItemFailed) xs \<and> dj_deleted_bytes j = (\<Sum>x \<leftarrow> xs. di_deleted_bytes x)
    \<and> (dj_status j \<in> {JobPending, JobRunning} \<longleftrightarrow> (\<exists>x \<in> set xs. \<not> item_final (di_status x)))
    \<and> (dj_status j = JobSucceeded \<longleftrightarrow> (\<forall>x \<in> set xs. item_gone (di_status x)))
    \<and> (\<forall>x \<in> set xs. di_lease_token x \<noteq> None \<longleftrightarrow> di_status x = ItemDeleting)"
proof -
  have "accounts_kept d d'" by (rule accounting.reachable [OF deletion_step_accounts assms(1)])
  with assms(2) have acc: "accounted d'" by (simp add: accounts_kept_def)
  have job: "job_accounted j xs" and ok: "list_all item_ok xs"
    using acc assms(3) by (auto simp: accounts_def items_of_job of_job_all assms(5))
  have counts: "dj_total_count j = int (length xs)" "dj_succeeded_count j = count_items item_gone xs"
    "dj_failed_count j = count_items (\<lambda>s. s = ItemFailed) xs" "dj_deleted_bytes j = (\<Sum>x \<leftarrow> xs. di_deleted_bytes x)"
    using job assms(4) by (simp_all add: job_accounted_def bytes_deleted_def)
  have status: "dj_status j \<in> expected_status xs" using job assms(4) by (simp add: job_accounted_def)
  have open': "count_items p xs > 0 \<longleftrightarrow> (\<exists>x \<in> set xs. p (di_status x))" for p
    by (auto simp: count_items_def filter_empty_conv)
  have zero: "count_items p xs = 0 \<longleftrightarrow> \<not> (\<exists>x \<in> set xs. p (di_status x))" for p
    using open' [of p] count_items_nonneg [of p xs] by linarith
  have unfinished: "dj_status j \<in> {JobPending, JobRunning} \<longleftrightarrow> (\<exists>x \<in> set xs. \<not> item_final (di_status x))"
    using status by (auto simp: expected_status_def open' split: if_splits)
  have all: "item_gone (di_status x) \<longleftrightarrow> item_final (di_status x) \<and> di_status x \<noteq> ItemFailed" if "x \<in> set xs" for x
    using ok that by (cases "di_status x") (auto simp: list_all_iff item_ok_def)
  have succeeded: "dj_status j = JobSucceeded \<longleftrightarrow> (\<forall>x \<in> set xs. item_gone (di_status x))"
    using status all by (auto simp: expected_status_def open' zero split: if_splits)
  have "\<forall>x \<in> set xs. di_lease_token x \<noteq> None \<longleftrightarrow> di_status x = ItemDeleting"
    using ok by (simp add: list_all_iff item_ok_def)
  with counts unfinished succeeded show ?thesis by blast
qed

section \<open>Leases of items\<close>

definition item_holder :: "string \<Rightarrow> db \<Rightarrow> string option" where
  "item_holder i d =
     (case select_where (\<lambda>x. di_id x = i) (artifact_deletion_items d) of
        None \<Rightarrow> None | Some x \<Rightarrow> if di_status x = ItemDeleting then di_lease_token x else None)"

lemma holder_of:
  assumes "item_table.keyed d" and "x \<in> set (artifact_deletion_items d)" and "di_status x = ItemDeleting"
  shows "item_holder (di_id x) d = di_lease_token x"
  using select_where_key [OF assms(1) [unfolded item_table.keyed_def] assms(2), of "\<lambda>y. di_id y = di_id x"] assms(3)
  by (simp add: item_holder_def)

lemma held_holder: "item_table.keyed d \<Longrightarrow> held_item i token d = Inr x \<Longrightarrow> item_holder i d = Some token"
  using holder_of held_itemD by metis

interpretation renew_item: atomic_leased_op item_table.keyed "item_holder i" "RenewDeletionLease e i leaseMillis" for e i leaseMillis
proof
  fix d d' :: db and tok and u :: unit
  assume keyed: "item_table.keyed d" and run: "RenewDeletionLease e i leaseMillis tok d = (Inr u, d')"
  from run obtain x where "x \<in> set (artifact_deletion_items d)" "di_id x = i" "di_lease_token x = Some tok" "di_status x = ItemDeleting"
    unfolding RenewDeletionLease_def exec_one_success_iff by (auto dest: affected_one_ex simp del: One_nat_def)
  with holder_of [OF keyed] show "item_holder i d = Some tok" by metis
next
  fix d d' :: db and tok and er
  assume keyed: "item_table.keyed d" and run: "RenewDeletionLease e i leaseMillis tok d = (Inl er, d')"
  show "d' = d" by (rule item_table.exec_one_rejected(1) [OF keyed _ run [unfolded RenewDeletionLease_def], where v = i]) simp
qed

interpretation fail_item: atomic_leased_op item_table.keyed "item_holder i" "FailDeletionItem e i code message next' terminal"
  for e i code message next' terminal
  by unfold_locales (auto elim!: FailDeletionItem_success intro: held_holder, auto simp: FailDeletionItem_def dest: atomically_failure)

interpretation complete_item: atomic_leased_op item_table.keyed "item_holder i" "CompleteDeletionItem e i absent bytes" for e i absent bytes
  by unfold_locales (auto elim!: CompleteDeletionItem_success intro: held_holder, auto simp: CompleteDeletionItem_def dest: atomically_failure)

text \<open>A claim returns an item that was due, with one more attempt, leased to the claimer; from then on a worker with another
  token can neither renew nor report the item, and its calls change nothing.\<close>

theorem ClaimDeletionItem_fences:
  assumes "ClaimDeletionItem e nodeID token leaseMillis d = (Inr y, d')" and "distinct (map di_id (artifact_deletion_items d))" and "old \<noteq> token"
  shows "(\<exists>x \<in> set (artifact_deletion_items d). item_due nodeID (nowMillis e) x \<and> y = claimed_item token (nowMillis e + leaseMillis) (nowMillis e) x)
    \<and> y \<in> set (artifact_deletion_items d')
    \<and> (\<exists>er. RenewDeletionLease e' (di_id y) ms old d' = (Inl er, d'))
    \<and> (\<exists>er. FailDeletionItem e' (di_id y) code message next' terminal old d' = (Inl er, d'))
    \<and> (\<exists>er. CompleteDeletionItem e' (di_id y) absent bytes old d' = (Inl er, d'))"
proof -
  from assms(1) obtain x where x: "next_item nodeID (nowMillis e) d = Inr x" and y: "item_by_id (di_id x) d' = Inr y"
    and items: "artifact_deletion_items d' = update_where (\<lambda>y. di_id y = di_id x \<and> (case di_lease_expires_at y of None \<Rightarrow> True | Some t \<Rightarrow> t \<le> nowMillis e))
       (claimed_item token (nowMillis e + leaseMillis) (nowMillis e)) (artifact_deletion_items d)" by (rule ClaimDeletionItem_success)
  note x = next_itemD [OF x]
  have keyed: "item_table.keyed d'" using assms(2) by (simp add: item_table.keyed_def items distinct_update_where)
  let ?c = "claimed_item token (nowMillis e + leaseMillis) (nowMillis e) x"
  have "?c \<in> set (artifact_deletion_items d')"
    unfolding items set_update_where using x by (auto simp: item_due_def)
  moreover have "y = ?c" using y select_where_key [OF keyed [unfolded item_table.keyed_def] \<open>?c \<in> _\<close>, of "\<lambda>z. di_id z = di_id x"]
    by (simp add: item_by_id_def)
  moreover have "item_holder (di_id y) d' = Some token"
    using holder_of [OF keyed \<open>?c \<in> _\<close>] by (simp add: \<open>y = ?c\<close> claimed_item_def)
  then have "item_holder (di_id y) d' \<noteq> Some old" using assms(3) by simp
  ultimately show ?thesis
    using x renew_item.stale_harmless [OF keyed] fail_item.stale_harmless [OF keyed] complete_item.stale_harmless [OF keyed] by blast
qed

section \<open>Witnesses\<close>

definition sample_artifact :: task_artifact where
  "sample_artifact = \<lparr>ar_id = ''a1'', ar_task_id = ''t1'', ar_stage_id = None, ar_kind = ''final_video'', ar_size_bytes = 5, ar_sha256 = None,
     ar_media_json = None, ar_state = AsActive, ar_created_at = 1, ar_expires_at = 9, ar_deleted_at = None\<rparr>"

definition sample_location :: artifact_location where
  "sample_location = \<lparr>al_id = ''l1'', al_artifact_id = ''a1'', al_node_id = ''n1'', al_node_artifact_id = ''x'', al_storage_key_fingerprint = None,
     al_state = AsActive, al_is_primary = True, al_size_bytes = 5, al_sha256 = [], al_created_at = 1, al_verified_at = None, al_deleted_at = None\<rparr>"

definition deletion_db :: db where
  "deletion_db = empty_db\<lparr>video_tasks := [(blank_task ''t1'' 1)\<lparr>vt_status := StatusSucceeded\<rparr>], task_artifacts := [sample_artifact],
     artifact_locations := [sample_location]\<rparr>"

lemma sample_request:
  "\<exists>d'. RequestTaskDeletion sample_env ''t1'' ''task_delete'' ''k'' deletion_db = (Inr (task_deletion_job sample_env ''task_delete'' ''k'' 1), d')
     \<and> artifact_deletion_jobs d' = [task_deletion_job sample_env ''task_delete'' ''k'' 1]
     \<and> artifact_deletion_items d' = [new_item (uuid sample_env 1) (uuid sample_env 2) (nowMillis sample_env) (uuid sample_env 0) (sample_artifact, sample_location)]"
  by (simp add: RequestTaskDeletion_def deletable_task_def deletion_candidates_def located_def deletion_db_def empty_db_def sample_artifact_def
      sample_location_def state_gone_def insert_job_def insert_items_def insert_item_def task_deletion_job_def valid_reason_def blank_task_def
      atomically_def Let_def exec_one_apply and_then_def condemn_task_def new_item_def numeral_2_eq_2)

theorem deletion_accounting_witness:
  "\<exists>d'. deletion_step\<^sup>*\<^sup>* deletion_db d' \<and> (\<exists>j \<in> set (artifact_deletion_jobs d'). dj_total_count j = int (length (items_of (dj_id j) d')) \<and> dj_status j = JobPending)"
proof -
  let ?j = "task_deletion_job sample_env ''task_delete'' ''k'' 1"
  from sample_request obtain d' where d': "RequestTaskDeletion sample_env ''t1'' ''task_delete'' ''k'' deletion_db = (Inr ?j, d')"
    "artifact_deletion_jobs d' = [?j]" by blast
  have steps: "deletion_step\<^sup>*\<^sup>* deletion_db d'" by (blast intro: deletion_step.request [OF d'(1)])
  have "accounted deletion_db" by (simp add: accounts_def deletion_db_def empty_db_def)
  from deletion_accounting [OF steps this, of ?j] d'(2) steps show ?thesis by (auto simp: task_deletion_job_def)
qed

definition claim_db :: db where
  "claim_db = deletion_db\<lparr>artifact_deletion_items := [new_item ''i1'' ''o1'' 0 ''j1'' (sample_artifact, sample_location)]\<rparr>"

lemma sample_item_claim:
  "\<exists>d'. ClaimDeletionItem sample_env ''n1'' ''new'' 1000 claim_db =
     (Inr (claimed_item ''new'' (nowMillis sample_env + 1000) (nowMillis sample_env) (new_item ''i1'' ''o1'' 0 ''j1'' (sample_artifact, sample_location))), d')"
  by (simp add: ClaimDeletionItem_def claim_db_def deletion_db_def empty_db_def next_item_def item_due_def new_item_def sample_location_def
      sample_artifact_def atomically_def Let_def exec_one_apply and_then_def item_by_id_def claimed_item_def)

theorem ClaimDeletionItem_fences_witness:
  "\<exists>y d'. ClaimDeletionItem sample_env ''n1'' ''new'' 1000 claim_db = (Inr y, d')
     \<and> (\<exists>er. CompleteDeletionItem sample_env (di_id y) False 5 ''old'' d' = (Inl er, d'))"
proof -
  from sample_item_claim obtain y d' where run: "ClaimDeletionItem sample_env ''n1'' ''new'' 1000 claim_db = (Inr y, d')" by blast
  have "distinct (map di_id (artifact_deletion_items claim_db))" by (simp add: claim_db_def)
  from ClaimDeletionItem_fences [OF run this, of "''old''"] run show ?thesis by auto
qed

end
