(* ===== verification/TaskEnds.thy ===== *)
theory TaskEnds
  imports Deletions
begin

text \<open>
  How tasks end before their time: a client's cancellation or deletion, an administrator's cancellation
  and purge, and the retention pass (\<^verbatim>\<open>store.go\<close>: CancelOrDelete, RequestAdminCancel,
  finishStageTaskCancellation, AdminDelete, CleanupExpired; \<^verbatim>\<open>task_purge_store.go\<close>). A DELETE is checked
  against the foreign keys of the schema: only the rows of \<^verbatim>\<open>task_remote_runs\<close> and \<^verbatim>\<open>task_node_assets\<close> are
  deleted with their task, every other reference refuses the statement.
\<close>

section \<open>Cancellation\<close>

definition cancelled_task :: "int \<Rightarrow> video_task \<Rightarrow> video_task" where
  "cancelled_task now t = (touched now t)\<lparr>vt_status := StatusCancelled, vt_cancel_locked := False, vt_finished_at := Some now\<rparr>"

definition own_task :: "string \<Rightarrow> string \<Rightarrow> int \<Rightarrow> db \<Rightarrow> err + video_task" where
  "own_task owner i now d =
     (case select_where (\<lambda>t. vt_task_id t = i \<and> vt_api_key_id t = owner \<and> vt_deleted_at t = None \<and> vt_expires_at t > now) (video_tasks d) of
        None \<Rightarrow> Inl ErrTaskNotFound | Some t \<Rightarrow> Inr t)"

definition cancel_queued :: "StoreEnv \<Rightarrow> string \<Rightarrow> string \<Rightarrow> Action op" where
  "cancel_queued e owner i = atomically
     (let now = nowUnix e in
      and_then (reading (own_task owner i now)) (\<lambda>t.
      and_then (ensure (vt_status t = StatusQueuedOpen) ErrTaskNotOperable) (\<lambda>_.
      and_then (update_one_task (\<lambda>x. vt_task_id x = i \<and> vt_status x = StatusQueuedOpen) (cancelled_task now)) (\<lambda>_.
      and_then (rebalance e now) (\<lambda>_.
      and_then (createCallbackDeliveryWithConn e i ''cancelled'' (now * 1000)) (\<lambda>_.
      ret ActionCancelled))))))"

definition delete_own :: "StoreEnv \<Rightarrow> string \<Rightarrow> string \<Rightarrow> Action op" where
  "delete_own e owner i = (\<lambda>d.
     case RequestOwnedTaskDeletion e owner i d of
       (Inl er, d') \<Rightarrow> (Inl (if er = ErrDeletionNotFound then ErrTaskNotFound else er), d')
     | (Inr _, d') \<Rightarrow> (Inr ActionDeleted, d'))"

definition CancelOrDelete :: "StoreEnv \<Rightarrow> string \<Rightarrow> string \<Rightarrow> Action op" where
  "CancelOrDelete e owner i = (\<lambda>d.
     if exists_where (\<lambda>t. vt_task_id t = i \<and> vt_api_key_id t = owner \<and> vt_deleted_at t = None \<and> AdminCanDelete (vt_status t)) (video_tasks d)
     then delete_own e owner i d else cancel_queued e owner i d)"

definition stage_cancellable :: "StageStatus \<Rightarrow> bool" where
  "stage_cancellable s \<longleftrightarrow> s \<notin> {StageSucceeded, StageFailed, StageSkipped, StageCancelled}"

definition cancelled_attempt :: "int \<Rightarrow> stage_attempt \<Rightarrow> stage_attempt" where
  "cancelled_attempt now a =
     a\<lparr>sa_status := AttemptFailed, sa_error_code := Some ''task_cancelled'', sa_error_message := Some ''task cancelled'',
       sa_heartbeat_at := Some now, sa_finished_at := Some now\<rparr>"

definition cancelled_stage :: "int \<Rightarrow> task_stage \<Rightarrow> task_stage" where
  "cancelled_stage now s =
     s\<lparr>ts_status := StageCancelled, ts_lease_token := None, ts_lease_expires_at := None, ts_next_attempt_at := None, ts_updated_at := now,
       ts_finished_at := keep_or (ts_finished_at s) now, ts_row_version := ts_row_version s + 1\<rparr>"

definition stage_task_cancelled :: "int \<Rightarrow> video_task \<Rightarrow> video_task" where
  "stage_task_cancelled now t =
     (cancelled_task now t)\<lparr>vt_cancel_requested_at := keep_or (vt_cancel_requested_at t) now, vt_upstream_id := None, vt_active_stage_id := None\<rparr>"

definition unfinished_status :: "InternalStatus \<Rightarrow> bool" where
  "unfinished_status s \<longleftrightarrow>
     s \<in> {StatusQueuedOpen, StatusQueuedLocked, StatusDispatching, StatusRunning, StatusReconciling, StatusCancelling}"

definition finishStageTaskCancellation :: "StoreEnv \<Rightarrow> string \<Rightarrow> int \<Rightarrow> unit op" where
  "finishStageTaskCancellation e i now =
     and_then (\<lambda>d. update_attempts (\<lambda>a. exists_where (\<lambda>s. ts_id s = sa_stage_id a \<and> ts_task_id s = i) (task_stages d) \<and> attempt_active (sa_status a))
                 (cancelled_attempt (now * 1000)) d) (\<lambda>_.
     and_then (update_stages (\<lambda>s. ts_task_id s = i \<and> stage_cancellable (ts_status s)) (cancelled_stage (now * 1000))) (\<lambda>_.
     and_then (update_one_task (\<lambda>t. vt_task_id t = i \<and> unfinished_status (vt_status t)) (stage_task_cancelled now)) (\<lambda>_.
     createCallbackDeliveryWithConn e i ''cancelled'' (now * 1000))))"

definition live_task :: "string \<Rightarrow> int \<Rightarrow> db \<Rightarrow> err + video_task" where
  "live_task i now d =
     (case select_where (\<lambda>t. vt_task_id t = i \<and> vt_deleted_at t = None \<and> vt_expires_at t > now) (video_tasks d) of
        None \<Rightarrow> Inl ErrTaskNotFound | Some t \<Rightarrow> Inr t)"

definition on_official_node :: "video_task \<Rightarrow> db \<Rightarrow> bool" where
  "on_official_node t d \<longleftrightarrow> coalesce (vt_upstream_id t) [] \<noteq> []
     \<and> vt_status t \<in> {StatusDispatching, StatusRunning, StatusReconciling}
     \<and> (case select_where (\<lambda>n. mn_id n = coalesce (vt_upstream_id t) []) (model_service_nodes d) of
          None \<Rightarrow> False | Some n \<Rightarrow> mn_protocol_version n = ''minimax-v2'')"

definition staged :: "bool \<Rightarrow> video_task \<Rightarrow> bool" where
  "staged hasBarrier t \<longleftrightarrow> hasBarrier \<or> coalesce (vt_active_stage_id t) [] \<noteq> [] \<or> coalesce (vt_upstream_id t) [] = []"

definition admin_cancelled_task :: "int \<Rightarrow> video_task \<Rightarrow> video_task" where
  "admin_cancelled_task now t = (cancelled_task now t)\<lparr>vt_cancel_requested_at := Some now\<rparr>"

definition cancelling_task :: "int \<Rightarrow> video_task \<Rightarrow> video_task" where
  "cancelling_task now t = (touched now t)\<lparr>vt_status := StatusCancelling, vt_cancel_requested_at := Some now\<rparr>"

definition cancel_by_status :: "StoreEnv \<Rightarrow> string \<Rightarrow> video_task \<Rightarrow> bool \<Rightarrow> unit op" where
  "cancel_by_status e i t hasBarrier =
     (let now = nowUnix e in
      if vt_status t \<in> {StatusQueuedOpen, StatusQueuedLocked} then
        (if hasBarrier then finishStageTaskCancellation e i now
         else and_then (update_one_task (\<lambda>x. vt_task_id x = i \<and> vt_status x = vt_status t) (admin_cancelled_task now)) (\<lambda>_.
              and_then (rebalance e now) (\<lambda>_.
              createCallbackDeliveryWithConn e i ''cancelled'' (now * 1000))))
      else if vt_status t \<in> {StatusDispatching, StatusRunning, StatusReconciling} then
        (if staged hasBarrier t then finishStageTaskCancellation e i now
         else update_one_task (\<lambda>x. vt_task_id x = i \<and> vt_status x = vt_status t) (cancelling_task now))
      else if vt_status t = StatusCancelling then
        (if staged hasBarrier t then finishStageTaskCancellation e i now else ret ())
      else raise ErrTaskNotOperable)"

definition cancel_local :: "StoreEnv \<Rightarrow> string \<Rightarrow> unit op" where
  "cancel_local e i = atomically
     (and_then (reading (live_task i (nowUnix e))) (\<lambda>t.
      and_then (ensuring (\<lambda>d. \<not> on_official_node t d) ErrOfficialRunningNotCancellable) (\<lambda>_.
      and_then (createNodeDispatchBarrierForTask i (nowUnix e * 1000)) (cancel_by_status e i t))))"

definition RequestAdminCancel :: "StoreEnv \<Rightarrow> string \<Rightarrow> unit op" where
  "RequestAdminCancel e i = (\<lambda>d.
     if (case select_where (\<lambda>t. vt_task_id t = i \<and> vt_deleted_at t = None) (video_tasks d) of
           None \<Rightarrow> False | Some t \<Rightarrow> vt_protocol_version t = Some ProtocolTK2SD \<and> vt_upstream_slot_active t)
     then RequestRemoteCancel e i d else cancel_local e i d)"

section \<open>Purging a task\<close>

record TaskArtifactLocation =
  tl_ID :: string
  tl_TaskID :: string
  tl_NodeID :: string
  tl_NodeArtifactID :: string
  tl_State :: ArtifactState

definition purgeable :: "string \<Rightarrow> db \<Rightarrow> err + video_task" where
  "purgeable i d =
     (case select_where (\<lambda>t. vt_task_id t = i \<and> vt_deleted_at t = None) (video_tasks d) of
        None \<Rightarrow> Inl ErrTaskNotFound
      | Some t \<Rightarrow>
          if \<not> AdminCanDelete (vt_status t) then Inl ErrTaskNotOperable
          else if exists_where (\<lambda>b. nb_task_id b = i) (node_dispatch_barriers d) then Inl ErrCancelReconcilePending
          else if exists_where (\<lambda>x. artifact_of_task d i x) (profile_test_artifact_ids d) then Inl ErrStateConflict
          else Inr t)"

definition EnsureTaskPurgeReady :: "string \<Rightarrow> unit op" where
  "EnsureTaskPurgeReady i = and_then (reading (purgeable i)) (\<lambda>_. ret ())"

definition listTaskArtifactLocationsWithConn :: "string \<Rightarrow> db \<Rightarrow> TaskArtifactLocation list" where
  "listTaskArtifactLocationsWithConn i d =
     map (\<lambda>(a, l). \<lparr>tl_ID = al_id l, tl_TaskID = ar_task_id a, tl_NodeID = al_node_id l, tl_NodeArtifactID = al_node_artifact_id l,
                    tl_State = al_state l\<rparr>)
       (filter (\<lambda>(a, l). ar_task_id a = i \<and> \<not> state_gone (al_state l)) (located d))"

definition ListTaskArtifactLocations :: "string \<Rightarrow> TaskArtifactLocation list op" where
  "ListTaskArtifactLocations i = gets (listTaskArtifactLocationsWithConn i)"

text \<open>The map from ids keeps the last of equal ids; the other fields of the location are its own.\<close>

definition sameTaskArtifactLocations :: "TaskArtifactLocation list \<Rightarrow> TaskArtifactLocation list \<Rightarrow> bool" where
  "sameTaskArtifactLocations a b \<longleftrightarrow>
     length a = length b
     \<and> list_all (\<lambda>l. case map_of (rev (map (\<lambda>x. (tl_ID x, x)) a)) (tl_ID l) of
          None \<Rightarrow> False
        | Some got \<Rightarrow> tl_TaskID got = tl_TaskID l \<and> tl_NodeID got = tl_NodeID l \<and> tl_NodeArtifactID got = tl_NodeArtifactID l
            \<and> tl_State got = tl_State l) b"

text \<open>The references that refuse a DELETE, by the table the row is deleted from.\<close>

definition attempt_referenced :: "db \<Rightarrow> stage_attempt \<Rightarrow> bool" where
  "attempt_referenced d a \<longleftrightarrow> exists_where (\<lambda>b. nb_attempt_id b = sa_id a) (node_dispatch_barriers d)"

definition location_referenced :: "db \<Rightarrow> artifact_location \<Rightarrow> bool" where
  "location_referenced d l \<longleftrightarrow> exists_where (\<lambda>x. di_location_id x = al_id l) (artifact_deletion_items d)"

definition artifact_referenced :: "db \<Rightarrow> task_artifact \<Rightarrow> bool" where
  "artifact_referenced d a \<longleftrightarrow>
     exists_where (\<lambda>x. di_artifact_id x = ar_id a) (artifact_deletion_items d)
     \<or> exists_where (\<lambda>l. al_artifact_id l = ar_id a) (artifact_locations d)
     \<or> exists_where (\<lambda>s. ts_input_artifact_id s = Some (ar_id a) \<or> ts_output_artifact_id s = Some (ar_id a)) (task_stages d)
     \<or> exists_where (\<lambda>x. sa_input_artifact_id x = Some (ar_id a) \<or> sa_output_artifact_id x = Some (ar_id a)) (stage_attempts d)
     \<or> exists_where (\<lambda>t. vt_result_artifact_id t = Some (ar_id a)) (video_tasks d)
     \<or> exists_where (\<lambda>x. x = ar_id a) (profile_test_artifact_ids d)"

definition stage_referenced :: "db \<Rightarrow> task_stage \<Rightarrow> bool" where
  "stage_referenced d s \<longleftrightarrow>
     exists_where (\<lambda>a. sa_stage_id a = ts_id s) (stage_attempts d)
     \<or> exists_where (\<lambda>a. ar_stage_id a = Some (ts_id s)) (task_artifacts d)
     \<or> exists_where (\<lambda>b. nb_stage_id b = ts_id s) (node_dispatch_barriers d)
     \<or> exists_where (\<lambda>t. vt_active_stage_id t = Some (ts_id s)) (video_tasks d)"

definition task_referenced :: "db \<Rightarrow> video_task \<Rightarrow> bool" where
  "task_referenced d t \<longleftrightarrow>
     exists_where (\<lambda>s. ts_task_id s = vt_task_id t) (task_stages d)
     \<or> exists_where (\<lambda>a. ar_task_id a = vt_task_id t) (task_artifacts d)
     \<or> exists_where (\<lambda>c. cd_task_id c = vt_task_id t) (callback_deliveries d)
     \<or> exists_where (\<lambda>j. ru_task_id j = vt_task_id t) (result_upload_jobs d)
     \<or> exists_where (\<lambda>f. sp_task_id f = vt_task_id t) (task_input_spool_files d)
     \<or> exists_where (\<lambda>b. nb_task_id b = vt_task_id t) (node_dispatch_barriers d)"

definition delete_unreferenced ::
  "(db \<Rightarrow> 'r list) \<Rightarrow> (('r list \<Rightarrow> 'r list) \<Rightarrow> db \<Rightarrow> db) \<Rightarrow> (db \<Rightarrow> 'r \<Rightarrow> bool) \<Rightarrow> ('r \<Rightarrow> bool) \<Rightarrow> unit op" where
  "delete_unreferenced get upd referenced p = (\<lambda>d.
     if exists_where (\<lambda>r. p r \<and> referenced d r) (get d) then (Inl (ErrSQL ''foreign key''), d) else exec_delete upd p d)"

definition item_of_task :: "db \<Rightarrow> string \<Rightarrow> deletion_item \<Rightarrow> bool" where
  "item_of_task d i x \<longleftrightarrow> artifact_of_task d i (di_artifact_id x)
     \<or> exists_where (\<lambda>(a, l). al_id l = di_location_id x \<and> ar_task_id a = i) (located d)"

definition purge_items :: "string \<Rightarrow> unit op" where
  "purge_items i = (\<lambda>d.
     let jobs = remdups (map di_job_id (filter (item_of_task d i) (artifact_deletion_items d))) in
     and_then (exec_delete artifact_deletion_items_update (item_of_task d i)) (\<lambda>_.
     for_each (\<lambda>job d1. exec_delete artifact_deletion_jobs_update
         (\<lambda>j. dj_id j = job \<and> \<not> exists_where (\<lambda>x. di_job_id x = job) (artifact_deletion_items d1)) d1) jobs) d)"

definition stage_of_task :: "db \<Rightarrow> string \<Rightarrow> string \<Rightarrow> bool" where
  "stage_of_task d i x \<longleftrightarrow> exists_where (\<lambda>s. ts_id s = x \<and> ts_task_id s = i) (task_stages d)"

definition delete_task_row :: "string \<Rightarrow> video_task \<Rightarrow> unit op" where
  "delete_task_row i t = (\<lambda>d.
     let p = (\<lambda>x. vt_task_id x = i \<and> vt_status x = vt_status t \<and> vt_version x = vt_version t) in
     and_then (delete_unreferenced video_tasks video_tasks_update task_referenced p) (\<lambda>_.
     and_then (exec_delete task_remote_runs_update (\<lambda>r. exists_where (\<lambda>x. p x \<and> vt_task_id x = rr_task_id r) (video_tasks d))) (\<lambda>_.
     and_then (exec_delete task_node_assets_update (\<lambda>r. exists_where (\<lambda>x. p x \<and> vt_task_id x = na_task_id r) (video_tasks d))) (\<lambda>_.
     ensure (affected p (video_tasks d) = 1) ErrStateConflict))) d)"

definition detached_task :: "video_task \<Rightarrow> video_task" where
  "detached_task t = t\<lparr>vt_active_stage_id := None, vt_result_artifact_id := None\<rparr>"

definition detached_stage :: "task_stage \<Rightarrow> task_stage" where
  "detached_stage s = s\<lparr>ts_input_artifact_id := None, ts_output_artifact_id := None\<rparr>"

definition purge_dependents :: "string \<Rightarrow> unit op" where
  "purge_dependents i =
     and_then (exec_delete callback_deliveries_update (\<lambda>c. cd_task_id c = i)) (\<lambda>_.
     and_then (purge_items i) (\<lambda>_.
     and_then (\<lambda>d. delete_unreferenced stage_attempts stage_attempts_update attempt_referenced (\<lambda>a. stage_of_task d i (sa_stage_id a)) d) (\<lambda>_.
     and_then (\<lambda>d. delete_unreferenced artifact_locations artifact_locations_update location_referenced (\<lambda>l. artifact_of_task d i (al_artifact_id l)) d) (\<lambda>_.
     and_then (delete_unreferenced task_artifacts task_artifacts_update artifact_referenced (\<lambda>a. ar_task_id a = i)) (\<lambda>_.
     and_then (delete_unreferenced task_stages task_stages_update stage_referenced (\<lambda>s. ts_task_id s = i)) (\<lambda>_.
     exec_delete task_input_spool_files_update (\<lambda>f. sp_task_id f = i)))))))"

definition AdminDelete :: "string \<Rightarrow> TaskArtifactLocation list option \<Rightarrow> unit op" where
  "AdminDelete i purged = atomically
     (and_then (reading (purgeable i)) (\<lambda>t.
      and_then (ensuring (\<lambda>d. case purged of None \<Rightarrow> True | Some ls \<Rightarrow> sameTaskArtifactLocations (listTaskArtifactLocationsWithConn i d) ls)
                  ErrStateConflict) (\<lambda>_.
      and_then (update_tasks (\<lambda>x. vt_task_id x = i \<and> vt_version x = vt_version t) detached_task) (\<lambda>_.
      and_then (update_stages (\<lambda>s. ts_task_id s = i) detached_stage) (\<lambda>_.
      and_then (exec_delete idempotency_keys_update (\<lambda>k. ik_task_id k = i)) (\<lambda>_.
      and_then (purge_dependents i) (\<lambda>_.
      delete_task_row i t)))))))"

section \<open>Retention\<close>

text \<open>The environments of the calls: the pass itself, then one per task it asks to delete.\<close>

definition expired_tasks :: "int \<Rightarrow> nat \<Rightarrow> db \<Rightarrow> string list" where
  "expired_tasks now n d =
     map vt_task_id (take n (sort_key vt_queue_seq (filter (\<lambda>t. vt_deleted_at t = None \<and> vt_expires_at t \<le> now
        \<and> vt_status t \<in> {StatusSucceeded, StatusFailed, StatusCancelled}) (video_tasks d))))"

fun delete_first :: "nat \<Rightarrow> ('r \<Rightarrow> bool) \<Rightarrow> 'r list \<Rightarrow> 'r list" where
  "delete_first n p [] = []"
| "delete_first n p (r # rs) = (if p r \<and> n > 0 then delete_first (n - 1) p rs else r # delete_first n p rs)"

definition CleanupExpired :: "(nat \<Rightarrow> StoreEnv) \<Rightarrow> int \<Rightarrow> (nat \<times> nat) op" where
  "CleanupExpired es batch =
     (let n = nat (if batch \<le> 0 then 100 else batch); now = nowUnix (es 0); p = (\<lambda>k. ik_expires_at k \<le> now) in
      and_then (gets (expired_tasks now n)) (\<lambda>ids.
      and_then (for_each (\<lambda>(k, i). and_then (RequestTaskDeletion (es (Suc k)) i ''retention'' ''retention-worker'') (\<lambda>_. ret ())) (enumerate 0 ids)) (\<lambda>_.
      and_then (gets (\<lambda>d. min n (affected p (idempotency_keys d)))) (\<lambda>keys.
      and_then (modify (idempotency_keys_update (delete_first n p))) (\<lambda>_.
      ret (length ids, keys))))))"

section \<open>An administrator's cancellation stops the task\<close>

lemma no_open_attempts:
  "open_attempts i d = [] \<longleftrightarrow>
     (\<forall>s \<in> set (task_stages d). \<forall>a \<in> set (stage_attempts d). ts_task_id s = i \<and> sa_stage_id a = ts_id s \<longrightarrow> \<not> attempt_active (sa_status a))"
  by (auto simp: open_attempts_def concat_eq_Nil_conv filter_empty_conv)

lemma latest_attempt_None: "latest_attempt i d = None \<longleftrightarrow> open_attempts i d = []"
proof -
  have "sort_key (\<lambda>(s, a). ts_stage_order s) (sort_key (\<lambda>(s, a). sa_attempt_no a) (open_attempts i d)) = [] \<longleftrightarrow> open_attempts i d = []"
    by (metis length_sort length_0_conv)
  then show ?thesis by (simp add: latest_attempt_def Let_def)
qed

lemma latest_attempt_task: "latest_attempt i d = Some (s, a) \<Longrightarrow> ts_task_id s = i"
  using last_in_set [of "sort_key (\<lambda>(s, a). ts_stage_order s) (sort_key (\<lambda>(s, a). sa_attempt_no a) (open_attempts i d))"]
  by (auto simp: latest_attempt_def Let_def open_attempts_def split: if_splits)

lemma create_barrier_effect:
  assumes "createNodeDispatchBarrierForTask i now d = (Inr b, d1)"
  shows "b \<longleftrightarrow> open_attempts i d \<noteq> []" and "\<exists>f. d1 = node_dispatch_barriers_update f d"
    and "b \<Longrightarrow> \<exists>x \<in> set (node_dispatch_barriers d1). nb_task_id x = i"
proof -
  have "(b \<longleftrightarrow> open_attempts i d \<noteq> []) \<and> (\<exists>f. d1 = node_dispatch_barriers_update f d)
      \<and> (b \<longrightarrow> (\<exists>x \<in> set (node_dispatch_barriers d1). nb_task_id x = i))"
  proof (cases "latest_attempt i d")
    case None
    then have "\<not> b" "d1 = d" using assms by (auto simp: createNodeDispatchBarrierForTask_def)
    then show ?thesis using None by (auto simp: latest_attempt_None intro: exI [of _ "\<lambda>x. x"])
  next
    case (Some sa)
    obtain s a where sa: "sa = (s, a)" by (cases sa)
    have "b" "d1 = node_dispatch_barriers_update (\<lambda>rows. rows @ [new_barrier s a now]) d"
      using assms Some sa by (auto simp: createNodeDispatchBarrierForTask_def tx_success)
    moreover have "nb_task_id (new_barrier s a now) = i"
      using latest_attempt_task [of i d s a] Some sa by (simp add: new_barrier_def)
    moreover have "open_attempts i d \<noteq> []" using Some latest_attempt_None [of i d] by simp
    ultimately show ?thesis by auto
  qed
  then show "b \<longleftrightarrow> open_attempts i d \<noteq> []" "\<exists>f. d1 = node_dispatch_barriers_update f d"
    "b \<Longrightarrow> \<exists>x \<in> set (node_dispatch_barriers d1). nb_task_id x = i" by blast+
qed

lemma cancel_rows [simp]:
  "vt_task_id (cancelled_task now t) = vt_task_id t" "vt_status (cancelled_task now t) = StatusCancelled"
  "vt_task_id (stage_task_cancelled now t) = vt_task_id t" "vt_status (stage_task_cancelled now t) = StatusCancelled"
  "vt_task_id (admin_cancelled_task now t) = vt_task_id t" "vt_status (admin_cancelled_task now t) = StatusCancelled"
  "vt_task_id (cancelling_task now t) = vt_task_id t" "vt_status (cancelling_task now t) = StatusCancelling"
  "vt_upstream_id (cancelling_task now t) = vt_upstream_id t" "\<not> attempt_active (sa_status (cancelled_attempt now a))"
  "sa_stage_id (cancelled_attempt now a) = sa_stage_id a" "ts_id (cancelled_stage now s) = ts_id s" "ts_task_id (cancelled_stage now s) = ts_task_id s"
  "\<not> stage_cancellable (ts_status (cancelled_stage now s))"
  by (simp_all add: cancelled_task_def stage_task_cancelled_def admin_cancelled_task_def cancelling_task_def touched_def cancelled_attempt_def
      attempt_active_def cancelled_stage_def stage_cancellable_def)

lemma finish_success:
  assumes "finishStageTaskCancellation e i now d = (Inr u, d')"
  shows "video_tasks d' = update_where (\<lambda>t. vt_task_id t = i \<and> unfinished_status (vt_status t)) (stage_task_cancelled now) (video_tasks d)"
    and "stage_attempts d' = update_where (\<lambda>a. stage_of_task d i (sa_stage_id a) \<and> attempt_active (sa_status a)) (cancelled_attempt (now * 1000)) (stage_attempts d)"
    and "task_stages d' = update_where (\<lambda>s. ts_task_id s = i \<and> stage_cancellable (ts_status s)) (cancelled_stage (now * 1000)) (task_stages d)"
    and "node_dispatch_barriers d' = node_dispatch_barriers d"
    and "\<exists>t \<in> set (video_tasks d). vt_task_id t = i \<and> unfinished_status (vt_status t)"
proof -
  let ?d1 = "video_tasks_update (update_where (\<lambda>t. vt_task_id t = i \<and> unfinished_status (vt_status t)) (stage_task_cancelled now))
    (task_stages_update (update_where (\<lambda>s. ts_task_id s = i \<and> stage_cancellable (ts_status s)) (cancelled_stage (now * 1000)))
      (stage_attempts_update (update_where (\<lambda>a. stage_of_task d i (sa_stage_id a) \<and> attempt_active (sa_status a)) (cancelled_attempt (now * 1000))) d))"
  have "affected (\<lambda>t. vt_task_id t = i \<and> unfinished_status (vt_status t)) (video_tasks d) = 1"
    and call: "createCallbackDeliveryWithConn e i ''cancelled'' (now * 1000) ?d1 = (Inr u, d')"
    using assms unfolding finishStageTaskCancellation_def by (simp_all add: tx_success stage_of_task_def)
  then show "\<exists>t \<in> set (video_tasks d). vt_task_id t = i \<and> unfinished_status (vt_status t)" using affected_one_ex by blast
  from callback_frame [OF call] obtain f where "d' = callback_deliveries_update f ?d1" ..
  then show "video_tasks d' = update_where (\<lambda>t. vt_task_id t = i \<and> unfinished_status (vt_status t)) (stage_task_cancelled now) (video_tasks d)"
    "stage_attempts d' = update_where (\<lambda>a. stage_of_task d i (sa_stage_id a) \<and> attempt_active (sa_status a)) (cancelled_attempt (now * 1000)) (stage_attempts d)"
    "task_stages d' = update_where (\<lambda>s. ts_task_id s = i \<and> stage_cancellable (ts_status s)) (cancelled_stage (now * 1000)) (task_stages d)"
    "node_dispatch_barriers d' = node_dispatch_barriers d" by simp_all
qed

lemma finish_stops:
  assumes "finishStageTaskCancellation e i now d = (Inr u, d')"
  shows "open_attempts i d' = []" and "\<exists>t \<in> set (video_tasks d'). vt_task_id t = i \<and> vt_status t = StatusCancelled"
    and "\<forall>s \<in> set (task_stages d'). ts_task_id s = i \<longrightarrow> \<not> stage_cancellable (ts_status s)"
proof -
  note rows = finish_success [OF assms]
  show "open_attempts i d' = []" unfolding no_open_attempts
  proof (intro ballI impI)
    fix s' a' assume s': "s' \<in> set (task_stages d')" and a': "a' \<in> set (stage_attempts d')" "ts_task_id s' = i \<and> sa_stage_id a' = ts_id s'"
    from s' obtain s where "s \<in> set (task_stages d)" "ts_id s = ts_id s'" "ts_task_id s = ts_task_id s'"
      unfolding rows(3) set_update_where by auto
    with a'(2) have own: "stage_of_task d i (sa_stage_id a')" by (auto simp: stage_of_task_def)
    from a'(1) show "\<not> attempt_active (sa_status a')" unfolding rows(2) set_update_where using own by auto
  qed
  from rows(5) obtain t where t: "t \<in> set (video_tasks d)" "vt_task_id t = i" "unfinished_status (vt_status t)" by blast
  have "stage_task_cancelled now t \<in> set (video_tasks d')" unfolding rows(1) set_update_where using t by blast
  then show "\<exists>t \<in> set (video_tasks d'). vt_task_id t = i \<and> vt_status t = StatusCancelled" by (rule bexI [rotated]) (simp add: t(2))
  show "\<forall>s \<in> set (task_stages d'). ts_task_id s = i \<longrightarrow> \<not> stage_cancellable (ts_status s)"
  proof (intro ballI impI)
    fix s assume s: "s \<in> set (task_stages d')" "ts_task_id s = i"
    then obtain y where "s = (if ts_task_id y = i \<and> stage_cancellable (ts_status y) then cancelled_stage (now * 1000) y else y)"
      unfolding rows(3) in_update_where by blast
    with s(2) show "\<not> stage_cancellable (ts_status s)" by (auto split: if_splits)
  qed
qed

lemma update_one_in:
  assumes "update_one_task p f d = (Inr u, d')"
  obtains t where "t \<in> set (video_tasks d)" "p t" "f t \<in> set (video_tasks d')"
  using assms by (auto simp: exec_one_success_iff set_update_where dest!: affected_one_ex simp del: One_nat_def)

lemma rebalance_keeps_ended:
  assumes "rebalance e now d = (r, d')" and "t \<in> set (video_tasks d)" and "\<not> queued (vt_status t)"
  shows "t \<in> set (video_tasks d')" and "\<exists>f. d' = video_tasks_update f d"
  using assms by (auto simp: rebalance_apply set_update_where)

text \<open>What each way through \<open>cancel_by_status\<close> leaves behind.\<close>

definition stopped :: "string \<Rightarrow> video_task \<Rightarrow> db \<Rightarrow> bool" where
  "stopped i t d' \<longleftrightarrow> open_attempts i d' = []
     \<and> (\<exists>t' \<in> set (video_tasks d'). vt_task_id t' = i
          \<and> (vt_status t' = StatusCancelled \<or> vt_status t' = StatusCancelling \<and> \<not> staged False t \<and> vt_upstream_id t' = vt_upstream_id t))"

lemma finish_stopped:
  "finishStageTaskCancellation e i now d = (Inr u, d') \<Longrightarrow> stopped i t d' \<and> node_dispatch_barriers d' = node_dispatch_barriers d"
  using finish_stops [of e i now d u d'] finish_success(4) [of e i now d u d'] unfolding stopped_def by blast

lemma open_attempts_frame:
  "task_stages d' = task_stages d \<Longrightarrow> stage_attempts d' = stage_attempts d \<Longrightarrow> open_attempts i d' = open_attempts i d"
  by (simp add: open_attempts_def)

lemma cancel_by_status_stops:
  assumes run: "cancel_by_status e i t b d = (Inr u, d')" and t: "t \<in> set (video_tasks d)" "vt_task_id t = i"
    and ids: "distinct (map vt_task_id (video_tasks d))" and b: "b \<longleftrightarrow> open_attempts i d \<noteq> []"
  shows "stopped i t d' \<and> node_dispatch_barriers d' = node_dispatch_barriers d \<and> unfinished_status (vt_status t)"
proof -
  consider (finish) "finishStageTaskCancellation e i (nowUnix e) d = (Inr u, d')" "unfinished_status (vt_status t)"
    | (queued) d1 d2 where "\<not> b" "queued (vt_status t)"
        "update_one_task (\<lambda>x. vt_task_id x = i \<and> vt_status x = vt_status t) (admin_cancelled_task (nowUnix e)) d = (Inr (), d1)"
        "rebalance e (nowUnix e) d1 = (Inr (), d2)" "createCallbackDeliveryWithConn e i ''cancelled'' (nowUnix e * 1000) d2 = (Inr u, d')"
    | (running) "\<not> staged b t" "vt_status t \<in> {StatusDispatching, StatusRunning, StatusReconciling}"
        "update_one_task (\<lambda>x. vt_task_id x = i \<and> vt_status x = vt_status t) (cancelling_task (nowUnix e)) d = (Inr u, d')"
    | (again) "\<not> staged b t" "vt_status t = StatusCancelling" "d' = d"
    using run unfolding cancel_by_status_def Let_def
    by (cases "vt_status t") (auto simp: unfinished_status_def and_then_success_iff rebalance_apply split: if_splits)
  then show ?thesis
  proof cases
    case finish
    then show ?thesis using finish_stopped by blast
  next
    case queued
    from queued(3) obtain x where x: "vt_task_id x = i" "admin_cancelled_task (nowUnix e) x \<in> set (video_tasks d1)" by (rule update_one_in) auto
    have frame1: "\<exists>f. d1 = video_tasks_update f d" using queued(3) by (auto simp: exec_one_success_iff)
    note reb = rebalance_keeps_ended [OF queued(4) x(2)]
    from callback_frame [OF queued(5)] obtain f where f: "d' = callback_deliveries_update f d2" ..
    have "admin_cancelled_task (nowUnix e) x \<in> set (video_tasks d')" using reb(1) by (simp add: f)
    moreover have "task_stages d' = task_stages d" "stage_attempts d' = stage_attempts d" "node_dispatch_barriers d' = node_dispatch_barriers d"
      using frame1 reb(2) by (auto simp: f)
    moreover have "vt_task_id (admin_cancelled_task (nowUnix e) x) = i \<and> vt_status (admin_cancelled_task (nowUnix e) x) = StatusCancelled"
      by (simp add: x(1))
    moreover have "unfinished_status (vt_status t)" using queued(2) by (auto simp: unfinished_status_def)
    moreover have "open_attempts i d = []" using b queued(1) by simp
    ultimately show ?thesis using open_attempts_frame [of d' d i] unfolding stopped_def by metis
  next
    case running
    from running(3) obtain x where x: "x \<in> set (video_tasks d)" "vt_task_id x = i" "vt_status x = vt_status t"
      "cancelling_task (nowUnix e) x \<in> set (video_tasks d')" by (rule update_one_in) auto
    have only: "x = t" by (rule key_unique [OF ids x(1) t(1)]) (use x(2) t(2) in simp)
    have "task_stages d' = task_stages d" "stage_attempts d' = stage_attempts d" "node_dispatch_barriers d' = node_dispatch_barriers d"
      using running(3) by (auto simp: exec_one_success_iff)
    moreover have "\<not> staged False t" "open_attempts i d = []" "unfinished_status (vt_status t)"
      using running(1,2) b by (auto simp: staged_def unfinished_status_def)
    moreover have "vt_task_id (cancelling_task (nowUnix e) t) = i \<and> vt_status (cancelling_task (nowUnix e) t) = StatusCancelling
        \<and> vt_upstream_id (cancelling_task (nowUnix e) t) = vt_upstream_id t" by (simp add: t(2))
    ultimately show ?thesis using x(4) only open_attempts_frame [of d' d i] unfolding stopped_def by metis
  next
    case again
    then show ?thesis using b t unfolding stopped_def by (auto simp: unfinished_status_def staged_def)
  qed
qed

lemma cancel_local_stops:
  assumes run: "cancel_local e i d = (Inr u, d')" and t: "t \<in> set (video_tasks d)" "vt_task_id t = i"
    and ids: "distinct (map vt_task_id (video_tasks d))"
  shows "vt_deleted_at t = None \<and> unfinished_status (vt_status t) \<and> stopped i t d'
    \<and> (open_attempts i d \<noteq> [] \<longrightarrow> (\<exists>b \<in> set (node_dispatch_barriers d'). nb_task_id b = i))"
proof -
  from run obtain t1 b d1 where t1: "live_task i (nowUnix e) d = Inr t1" and bar: "createNodeDispatchBarrierForTask i (nowUnix e * 1000) d = (Inr b, d1)"
    and st: "cancel_by_status e i t1 b d1 = (Inr u, d')"
    unfolding cancel_local_def by (auto simp: tx_success)
  from t1 have t1: "t1 \<in> set (video_tasks d)" "vt_task_id t1 = i" "vt_deleted_at t1 = None"
    by (auto simp: live_task_def split: option.splits dest: select_where_Some)
  have "t1 = t" by (rule key_unique [OF ids t1(1) t(1)]) (use t1(2) t(2) in simp)
  note bar = create_barrier_effect [OF bar]
  from bar(2) have frame: "video_tasks d1 = video_tasks d" "open_attempts i d1 = open_attempts i d" by (auto simp: open_attempts_def)
  from cancel_by_status_stops [OF st, unfolded frame, OF t1(1,2) ids bar(1)] bar(1,3) t1(3) \<open>t1 = t\<close> show ?thesis by auto
qed

text \<open>When an administrator's cancellation of a task that no remote run holds succeeds, the task was live and unfinished and no
  attempt of it is active any more; it is cancelled, or, if it was handed to a node without stages, marked as
  cancelling on that node. If an attempt was active, a dispatch barrier of the task now keeps work from its node.\<close>

theorem RequestAdminCancel_stops:
  assumes "RequestAdminCancel e i d = (Inr u, d')" and "t \<in> set (video_tasks d)" and "vt_task_id t = i"
    and "distinct (map vt_task_id (video_tasks d))" and "\<not> (vt_protocol_version t = Some ProtocolTK2SD \<and> vt_upstream_slot_active t)"
  shows "vt_deleted_at t = None \<and> unfinished_status (vt_status t) \<and> open_attempts i d' = []
    \<and> (\<exists>t' \<in> set (video_tasks d'). vt_task_id t' = i
         \<and> (vt_status t' = StatusCancelled \<or> vt_status t' = StatusCancelling \<and> \<not> staged False t \<and> vt_upstream_id t' = vt_upstream_id t))
    \<and> (open_attempts i d \<noteq> [] \<longrightarrow> (\<exists>b \<in> set (node_dispatch_barriers d'). nb_task_id b = i))"
proof -
  have "\<not> (case select_where (\<lambda>t. vt_task_id t = i \<and> vt_deleted_at t = None) (video_tasks d) of
      None \<Rightarrow> False | Some t \<Rightarrow> vt_protocol_version t = Some ProtocolTK2SD \<and> vt_upstream_slot_active t)"
  proof (cases "select_where (\<lambda>t. vt_task_id t = i \<and> vt_deleted_at t = None) (video_tasks d)")
    case (Some x)
    then have x: "x \<in> set (video_tasks d)" "vt_task_id x = i" by (auto dest: select_where_Some)
    have "x = t" by (rule key_unique [OF assms(4) x(1) assms(2)]) (use x(2) assms(3) in simp)
    with Some assms(5) show ?thesis by simp
  qed simp
  then have "cancel_local e i d = (Inr u, d')" using assms(1) unfolding RequestAdminCancel_def by (simp only: if_False)
  from cancel_local_stops [OF this assms(2-4)] show ?thesis unfolding stopped_def by blast
qed

section \<open>A purge removes every trace\<close>

lemma delete_unreferenced_success:
  "delete_unreferenced get upd ref p d = (Inr u, d') \<longleftrightarrow> (\<forall>r \<in> set (get d). p r \<longrightarrow> \<not> ref d r) \<and> d' = upd (delete_where p) d"
  by (auto simp: delete_unreferenced_def)

lemma delete_task_row_success:
  assumes "delete_task_row i t d = (Inr u, d')"
  obtains x where "x \<in> set (video_tasks d)" "vt_task_id x = i" "\<not> task_referenced d x"
    "d' = d\<lparr>video_tasks := delete_where (\<lambda>x. vt_task_id x = i \<and> vt_status x = vt_status t \<and> vt_version x = vt_version t) (video_tasks d),
       task_remote_runs := delete_where (\<lambda>r. rr_task_id r = i) (task_remote_runs d), task_node_assets := delete_where (\<lambda>r. na_task_id r = i) (task_node_assets d)\<rparr>"
proof -
  let ?p = "\<lambda>x. vt_task_id x = i \<and> vt_status x = vt_status t \<and> vt_version x = vt_version t"
  from assms have free: "\<forall>r \<in> set (video_tasks d). ?p r \<longrightarrow> \<not> task_referenced d r" and one: "affected ?p (video_tasks d) = 1"
    and d': "d' = task_node_assets_update (delete_where (\<lambda>r. exists_where (\<lambda>x. ?p x \<and> vt_task_id x = na_task_id r) (video_tasks d)))
      (task_remote_runs_update (delete_where (\<lambda>r. exists_where (\<lambda>x. ?p x \<and> vt_task_id x = rr_task_id r) (video_tasks d)))
        (video_tasks_update (delete_where ?p) d))"
    unfolding delete_task_row_def Let_def by (auto simp: tx_success delete_unreferenced_success)
  from one obtain x where x: "x \<in> set (video_tasks d)" "?p x" using affected_one_ex by blast
  then have ids: "exists_where (\<lambda>x. ?p x \<and> vt_task_id x = j) (video_tasks d) \<longleftrightarrow> j = i" for j by auto
  have d'': "d' = d\<lparr>video_tasks := delete_where ?p (video_tasks d), task_remote_runs := delete_where (\<lambda>r. rr_task_id r = i) (task_remote_runs d),
      task_node_assets := delete_where (\<lambda>r. na_task_id r = i) (task_node_assets d)\<rparr>"
    unfolding d' ids by (rule db.equality) simp_all
  show thesis by (rule that [OF x(1) _ _ d'']) (use x free in auto)
qed

text \<open>A deletion job goes when it has items and all of them are of the task.\<close>

definition job_of_task :: "db \<Rightarrow> string \<Rightarrow> deletion_job \<Rightarrow> bool" where
  "job_of_task d i j \<longleftrightarrow> exists_where (\<lambda>x. di_job_id x = dj_id j) (artifact_deletion_items d)
     \<and> list_all (\<lambda>x. di_job_id x = dj_id j \<longrightarrow> item_of_task d i x) (artifact_deletion_items d)"

lemma delete_twice: "delete_where p (delete_where q rows) = delete_where (\<lambda>r. q r \<or> p r) rows"
  by (induction rows) auto

lemma purge_jobs:
  "for_each (\<lambda>job d1. exec_delete artifact_deletion_jobs_update
       (\<lambda>j. dj_id j = job \<and> \<not> exists_where (\<lambda>x. di_job_id x = job) (artifact_deletion_items d1)) d1) js d
   = (Inr (), d\<lparr>artifact_deletion_jobs :=
       delete_where (\<lambda>j. dj_id j \<in> set js \<and> \<not> exists_where (\<lambda>x. di_job_id x = dj_id j) (artifact_deletion_items d)) (artifact_deletion_jobs d)\<rparr>)"
proof (induction js arbitrary: d)
  case Nil
  then show ?case by (simp add: delete_where_def)
next
  case (Cons job js)
  have "delete_where (\<lambda>j. dj_id j \<in> set js \<and> \<not> exists_where (\<lambda>x. di_job_id x = dj_id j) (artifact_deletion_items d))
      (delete_where (\<lambda>j. dj_id j = job \<and> \<not> exists_where (\<lambda>x. di_job_id x = job) (artifact_deletion_items d)) (artifact_deletion_jobs d))
    = delete_where (\<lambda>j. dj_id j \<in> set (job # js) \<and> \<not> exists_where (\<lambda>x. di_job_id x = dj_id j) (artifact_deletion_items d)) (artifact_deletion_jobs d)"
    unfolding delete_twice by (intro arg_cong [of _ _ "\<lambda>p. delete_where p (artifact_deletion_jobs d)"] ext) auto
  then show ?case
    by (simp only: for_each.simps and_then_def exec_delete_apply [of artifact_deletion_jobs_update _ d] prod.case sum.case Cons.IH) (simp del: exists_where_iff)
qed

lemma purge_items_effect:
  "purge_items i d = (Inr (), d\<lparr>artifact_deletion_items := delete_where (item_of_task d i) (artifact_deletion_items d),
     artifact_deletion_jobs := delete_where (job_of_task d i) (artifact_deletion_jobs d)\<rparr>)"
proof -
  have "(dj_id j \<in> set (remdups (map di_job_id (filter (item_of_task d i) (artifact_deletion_items d))))
       \<and> \<not> exists_where (\<lambda>x. di_job_id x = dj_id j) (delete_where (item_of_task d i) (artifact_deletion_items d))) = job_of_task d i j" for j
    by (simp add: job_of_task_def list_all_iff image_iff) metis
  then show ?thesis
    by (simp only: purge_items_def Let_def and_then_def exec_delete_apply [of artifact_deletion_items_update _ d] prod.case sum.case purge_jobs) simp
qed

text \<open>The database without the rows that depend on the task.\<close>

definition without_dependents :: "string \<Rightarrow> db \<Rightarrow> db" where
  "without_dependents i d = d\<lparr>callback_deliveries := delete_where (\<lambda>c. cd_task_id c = i) (callback_deliveries d),
     artifact_deletion_items := delete_where (item_of_task d i) (artifact_deletion_items d), artifact_deletion_jobs := delete_where (job_of_task d i) (artifact_deletion_jobs d),
     stage_attempts := delete_where (\<lambda>a. stage_of_task d i (sa_stage_id a)) (stage_attempts d),
     artifact_locations := delete_where (\<lambda>l. artifact_of_task d i (al_artifact_id l)) (artifact_locations d),
     task_artifacts := delete_where (\<lambda>a. ar_task_id a = i) (task_artifacts d), task_stages := delete_where (\<lambda>s. ts_task_id s = i) (task_stages d),
     task_input_spool_files := delete_where (\<lambda>f. sp_task_id f = i) (task_input_spool_files d)\<rparr>"

lemma purge_dependents_success:
  assumes "purge_dependents i d = (Inr u, d')"
  shows "d' = without_dependents i d"
proof -
  have at: "item_of_task (callback_deliveries_update c d) i = item_of_task d i" "job_of_task (callback_deliveries_update c d) i = job_of_task d i" for c
    by (simp_all add: fun_eq_iff item_of_task_def artifact_of_task_def located_def job_of_task_def)
  show ?thesis
    by (rule db.equality) (use assms in \<open>auto simp: without_dependents_def purge_dependents_def tx_success purge_items_effect at delete_unreferenced_success stage_of_task_def artifact_of_task_def\<close>)
qed

lemma AdminDelete_success:
  assumes "AdminDelete i purged d = (Inr u, d')"
  obtains t d1 where "purgeable i d = Inr t" "delete_task_row i t d1 = (Inr u, d')"
    "d1 = (without_dependents i d)\<lparr>video_tasks := update_where (\<lambda>x. vt_task_id x = i \<and> vt_version x = vt_version t) detached_task (video_tasks d),
       idempotency_keys := delete_where (\<lambda>k. ik_task_id k = i) (idempotency_keys d)\<rparr>"
proof -
  let ?d = "\<lambda>t. idempotency_keys_update (delete_where (\<lambda>k. ik_task_id k = i)) (task_stages_update (update_where (\<lambda>s. ts_task_id s = i) detached_stage)
       (video_tasks_update (update_where (\<lambda>x. vt_task_id x = i \<and> vt_version x = vt_version t) detached_task) d))"
  from assms obtain t d1 where t: "purgeable i d = Inr t" "delete_task_row i t d1 = (Inr u, d')" and dep: "purge_dependents i (?d t) = (Inr (), d1)"
    unfolding AdminDelete_def by (auto simp: tx_success)
  have of: "item_of_task (?d t) i = item_of_task d i" "artifact_of_task (?d t) i = artifact_of_task d i" "job_of_task (?d t) i = job_of_task d i"
    by (simp_all add: fun_eq_iff item_of_task_def artifact_of_task_def located_def job_of_task_def)
  have ids: "(\<exists>s \<in> set (update_where p detached_stage xs). ts_id s = x \<and> ts_task_id s = i) \<longleftrightarrow> (\<exists>s \<in> set xs. ts_id s = x \<and> ts_task_id s = i)" for p xs x
    by (induction xs) (auto simp: detached_stage_def)
  have stage: "stage_of_task (?d t) i = stage_of_task d i"
    by (simp add: fun_eq_iff stage_of_task_def ids)
  have stages: "delete_where (\<lambda>s. ts_task_id s = i) (update_where (\<lambda>s. ts_task_id s = i) detached_stage xs) = delete_where (\<lambda>s. ts_task_id s = i) xs" for xs
    by (induction xs) (auto simp: detached_stage_def)
  show thesis
    by (rule that [OF t], rule db.equality) (simp_all add: purge_dependents_success [OF dep] without_dependents_def of stage stages)
qed

text \<open>C31: A purge that succeeds was allowed: the task had ended, no cancellation of it was pending, and no upload job or dispatch barrier refers to it. It removes
  the task's row and exactly the rows that depend on it: its stages and their attempts, its artifacts, their locations and deletion items (and the deletion jobs left
  without items), its callbacks, spooled inputs, idempotency keys, remote runs and node assets. Every other row, of any table, is as before.\<close>

theorem AdminDelete_purges:
  assumes "AdminDelete i purged d = (Inr u, d')" and "distinct (map vt_task_id (video_tasks d))"
  shows "(\<exists>t \<in> set (video_tasks d). vt_task_id t = i \<and> AdminCanDelete (vt_status t) \<and> vt_deleted_at t = None)
    \<and> (\<forall>j \<in> set (result_upload_jobs d). ru_task_id j \<noteq> i) \<and> (\<forall>b \<in> set (node_dispatch_barriers d). nb_task_id b \<noteq> i)
    \<and> d' = d\<lparr>video_tasks := filter (\<lambda>t. vt_task_id t \<noteq> i) (video_tasks d),
         task_stages := filter (\<lambda>s. ts_task_id s \<noteq> i) (task_stages d),
         stage_attempts := filter (\<lambda>a. \<not> (\<exists>s \<in> set (task_stages d). ts_id s = sa_stage_id a \<and> ts_task_id s = i)) (stage_attempts d),
         task_artifacts := filter (\<lambda>a. ar_task_id a \<noteq> i) (task_artifacts d),
         artifact_locations := filter (\<lambda>l. \<not> (\<exists>a \<in> set (task_artifacts d). ar_id a = al_artifact_id l \<and> ar_task_id a = i)) (artifact_locations d),
         artifact_deletion_items := filter (\<lambda>x. \<not> item_of_task d i x) (artifact_deletion_items d),
         artifact_deletion_jobs := filter (\<lambda>j. \<not> job_of_task d i j) (artifact_deletion_jobs d),
         callback_deliveries := filter (\<lambda>c. cd_task_id c \<noteq> i) (callback_deliveries d),
         task_input_spool_files := filter (\<lambda>f. sp_task_id f \<noteq> i) (task_input_spool_files d),
         idempotency_keys := filter (\<lambda>k. ik_task_id k \<noteq> i) (idempotency_keys d),
         task_remote_runs := filter (\<lambda>r. rr_task_id r \<noteq> i) (task_remote_runs d),
         task_node_assets := filter (\<lambda>r. na_task_id r \<noteq> i) (task_node_assets d)\<rparr>"
proof -
  from assms(1) obtain t d1 where p: "purgeable i d = Inr t" and row: "delete_task_row i t d1 = (Inr u, d')"
    and d1: "d1 = (without_dependents i d)\<lparr>video_tasks := update_where (\<lambda>x. vt_task_id x = i \<and> vt_version x = vt_version t) detached_task (video_tasks d),
       idempotency_keys := delete_where (\<lambda>k. ik_task_id k = i) (idempotency_keys d)\<rparr>" by (rule AdminDelete_success)
  from p have t: "t \<in> set (video_tasks d)" "vt_task_id t = i" "AdminCanDelete (vt_status t)" "vt_deleted_at t = None"
    by (auto simp: purgeable_def split: option.splits if_splits dest: select_where_Some)
  from row obtain x where x: "vt_task_id x = i" "\<not> task_referenced d1 x"
    and left: "d' = d1\<lparr>video_tasks := delete_where (\<lambda>x. vt_task_id x = i \<and> vt_status x = vt_status t \<and> vt_version x = vt_version t) (video_tasks d1),
       task_remote_runs := delete_where (\<lambda>r. rr_task_id r = i) (task_remote_runs d1), task_node_assets := delete_where (\<lambda>r. na_task_id r = i) (task_node_assets d1)\<rparr>"
    by (rule delete_task_row_success)
  have only: "y = t" if "y \<in> set (video_tasks d)" "vt_task_id y = i" for y
    by (rule key_unique [OF assms(2) that(1) t(1)]) (use that(2) t(2) in simp)
  have "delete_where (\<lambda>x. vt_task_id x = i \<and> vt_status x = vt_status t \<and> vt_version x = vt_version t)
      (update_where (\<lambda>x. vt_task_id x = i \<and> vt_version x = vt_version t) detached_task xs) = filter (\<lambda>t. vt_task_id t \<noteq> i) xs"
    if "\<forall>y \<in> set xs. vt_task_id y = i \<longrightarrow> y = t" for xs
    using that by (induction xs) (auto simp: detached_task_def)
  then have rows: "delete_where (\<lambda>x. vt_task_id x = i \<and> vt_status x = vt_status t \<and> vt_version x = vt_version t)
      (update_where (\<lambda>x. vt_task_id x = i \<and> vt_version x = vt_version t) detached_task (video_tasks d)) = filter (\<lambda>t. vt_task_id t \<noteq> i) (video_tasks d)" using only by blast
  have free: "(\<forall>j \<in> set (result_upload_jobs d). ru_task_id j \<noteq> i) \<and> (\<forall>b \<in> set (node_dispatch_barriers d). nb_task_id b \<noteq> i)"
    using x by (auto simp: task_referenced_def d1 without_dependents_def)
  show ?thesis
    by (intro conjI bexI [OF _ t(1)] t(2-4) free [THEN conjunct1] free [THEN conjunct2] db.equality)
      (simp_all add: left d1 without_dependents_def rows, simp_all add: stage_of_task_def artifact_of_task_def delete_where_def)
qed

text \<open>A task that ever had its result uploaded cannot be purged: its upload job is never deleted and refuses the deletion of the task,
  so that every attempt fails and changes nothing.\<close>

theorem AdminDelete_upload_blocks:
  assumes "j \<in> set (result_upload_jobs d)" and "ru_task_id j = i"
  shows "\<exists>er. AdminDelete i purged d = (Inl er, d)"
proof -
  obtain r d' where run: "AdminDelete i purged d = (r, d')" by (cases "AdminDelete i purged d")
  show ?thesis
  proof (cases r)
    case (Inl er)
    with run have "d' = d" by (auto simp: AdminDelete_def dest: atomically_failure)
    with run Inl show ?thesis by blast
  next
    case (Inr u)
    with run have "AdminDelete i purged d = (Inr u, d')" by simp
    then obtain t d1 where row: "delete_task_row i t d1 = (Inr u, d')" and jobs: "result_upload_jobs d1 = result_upload_jobs d"
      by (rule AdminDelete_success) (simp add: without_dependents_def)
    from row obtain x where "vt_task_id x = i" "\<not> task_referenced d1 x" by (rule delete_task_row_success)
    then show ?thesis using assms jobs by (auto simp: task_referenced_def)
  qed
qed

section \<open>Cancelling during an upload\<close>

lemma select_task:
  assumes "distinct (map vt_task_id (video_tasks d))" and "t \<in> set (video_tasks d)" and "vt_task_id t = i" and "p t"
  shows "select_where (\<lambda>x. vt_task_id x = i \<and> p x) (video_tasks d) = Some t"
  using assms(3,4) by (intro select_where_key [OF assms(1,2)]) auto

lemma cancelling_stays:
  assumes ids: "distinct (map vt_task_id (video_tasks d))" and t: "t \<in> set (video_tasks d)" "vt_task_id t = i" "vt_status t = StatusCancelling"
  shows "leased_row j tok d = Some job \<Longrightarrow> ru_task_id job = i \<Longrightarrow> \<exists>er. CompleteResultUpload e j tok url bytes d = (Inl er, d)"
    and "failDeliveredTask e i message now d = (Inr (), d)"
    and "\<exists>er. AdminDelete i purged d = (Inl er, d)"
    and "\<exists>er. CancelOrDelete e owner i d = (Inl er, d)"
proof -
  have only: "x = t" if "x \<in> set (video_tasks d)" "vt_task_id x = i" for x
    by (rule key_unique [OF ids that(1) t(1)]) (use that(2) t(2) in simp)
  have none: "\<not> (vt_task_id x = i \<and> vt_status x = StatusReconciling \<and> p x)" if "x \<in> set (video_tasks d)" for x p
    using only [OF that] t(3) by auto
  have same: "update_where (\<lambda>x. vt_task_id x = i \<and> vt_status x = StatusReconciling) f (video_tasks d) = video_tasks d" for f
    using none [where p = "\<lambda>_. True"] by (intro update_where_id) simp
  have "affected (\<lambda>x. vt_task_id x = i \<and> vt_status x = StatusReconciling) (video_tasks d) = 0"
    using none [where p = "\<lambda>_. True"] by (simp add: affected_zero)
  then show "failDeliveredTask e i message now d = (Inr (), d)"
    unfolding failDeliveredTask_def by (simp add: and_then_def task_table.upd_noop same)
  show "\<exists>er. CompleteResultUpload e j tok url bytes d = (Inl er, d)" if job: "leased_row j tok d = Some job" "ru_task_id job = i"
  proof (cases "CompleteResultUpload e j tok url bytes d")
    case (Pair r d')
    show ?thesis
    proof (cases r)
      case (Inl er)
      with Pair have "d' = d" by (auto simp: CompleteResultUpload_def dest: atomically_failure)
      with Pair Inl show ?thesis by blast
    next
      case (Inr u)
      with Pair have "CompleteResultUpload e j tok url bytes d = (Inr (), d')" by simp
      then obtain job' where "leased_row j tok d = Some job'"
        and one: "affected (\<lambda>t. vt_task_id t = ru_task_id job' \<and> vt_status t = StatusReconciling \<and> vt_result_internal_url t \<noteq> None) (video_tasks d) = 1"
        by (rule CompleteResultUpload_success)
      with job have "job' = job" by simp
      from affected_one_ex [OF one] obtain x where "x \<in> set (video_tasks d)"
        "vt_task_id x = i \<and> vt_status x = StatusReconciling \<and> vt_result_internal_url x \<noteq> None" unfolding \<open>job' = job\<close> job(2) by blast
      with none [where p = "\<lambda>x. vt_result_internal_url x \<noteq> None"] show ?thesis by blast
    qed
  qed
  have "AdminDelete i purged d = (Inl ErrTaskNotOperable, d)" if "vt_deleted_at t = None"
  proof -
    have "purgeable i d = Inl ErrTaskNotOperable"
      using select_task [OF ids t(1,2), of "\<lambda>x. vt_deleted_at x = None"] that t(3) by (simp add: purgeable_def AdminCanDelete_def)
    then show ?thesis unfolding AdminDelete_def by (intro atomically_apply) simp
  qed
  moreover have "AdminDelete i purged d = (Inl ErrTaskNotFound, d)" if "vt_deleted_at t \<noteq> None"
  proof -
    have "select_where (\<lambda>x. vt_task_id x = i \<and> vt_deleted_at x = None) (video_tasks d) = None"
      unfolding select_where_None
    proof (intro ballI notI)
      fix x assume x: "x \<in> set (video_tasks d)" "vt_task_id x = i \<and> vt_deleted_at x = None"
      with only [OF x(1)] that show False by simp
    qed
    then have "purgeable i d = Inl ErrTaskNotFound" by (simp add: purgeable_def)
    then show ?thesis unfolding AdminDelete_def by (intro atomically_apply) simp
  qed
  ultimately show "\<exists>er. AdminDelete i purged d = (Inl er, d)" by blast
  have "\<not> exists_where (\<lambda>t. vt_task_id t = i \<and> vt_api_key_id t = owner \<and> vt_deleted_at t = None \<and> AdminCanDelete (vt_status t)) (video_tasks d)"
  proof (unfold exists_where_iff, intro notI, elim bexE)
    fix x assume x: "x \<in> set (video_tasks d)" "vt_task_id x = i \<and> vt_api_key_id x = owner \<and> vt_deleted_at x = None \<and> AdminCanDelete (vt_status x)"
    with only [OF x(1)] t(3) show False by (simp add: AdminCanDelete_def)
  qed
  moreover have "\<exists>er. cancel_queued e owner i d = (Inl er, d)"
  proof (cases "own_task owner i (nowUnix e) d")
    case (Inl er)
    then have "cancel_queued e owner i d = (Inl er, d)"
      unfolding cancel_queued_def Let_def by (intro atomically_apply) simp
    then show ?thesis ..
  next
    case (Inr x)
    then have "x = t" using only by (auto simp: own_task_def split: option.splits dest: select_where_Some)
    then have "cancel_queued e owner i d = (Inl ErrTaskNotOperable, d)"
      unfolding cancel_queued_def Let_def using Inr t(3) by (intro atomically_apply) (simp add: and_then_ensure)
    then show ?thesis ..
  qed
  ultimately show "\<exists>er. CancelOrDelete e owner i d = (Inl er, d)" by (auto simp: CancelOrDelete_def)
qed

text \<open>C32: When an administrator cancels a task that was generated on a node other than an official one (those refuse), has no active stage or open attempt, and
  gave its slot back because its result is being uploaded, the cancellation is accepted and marks it as cancelling. From there the upload that completes is refused, an
  upload that finally fails leaves the task as it is, and it can neither be deleted nor purged.\<close>

theorem cancel_during_upload_strands:
  assumes "distinct (map vt_task_id (video_tasks d))" and "t \<in> set (video_tasks d)" and "vt_task_id t = i" and "vt_status t = StatusReconciling"
    and "\<not> vt_upstream_slot_active t" and "vt_deleted_at t = None" and "vt_expires_at t > nowUnix e"
    and "\<not> staged False t" and "open_attempts i d = []" and "\<not> on_official_node t d"
  shows "\<exists>d'. RequestAdminCancel e i d = (Inr (), d') \<and> (\<exists>t' \<in> set (video_tasks d'). vt_task_id t' = i \<and> vt_status t' = StatusCancelling)
    \<and> (\<forall>j tok job url bytes. leased_row j tok d' = Some job \<and> ru_task_id job = i \<longrightarrow> (\<exists>er. CompleteResultUpload e' j tok url bytes d' = (Inl er, d')))
    \<and> failDeliveredTask e' i message now d' = (Inr (), d')
    \<and> (\<exists>er. AdminDelete i purged d' = (Inl er, d')) \<and> (\<exists>er. CancelOrDelete e' owner i d' = (Inl er, d'))"
proof -
  note ids = assms(1) and t = assms(2,3)
  let ?p = "\<lambda>x. vt_task_id x = i \<and> vt_status x = vt_status t"
  let ?d' = "video_tasks_update (update_where ?p (cancelling_task (nowUnix e))) d"
  have live: "live_task i (nowUnix e) d = Inr t"
    using select_task [OF ids t, of "\<lambda>x. vt_deleted_at x = None \<and> vt_expires_at x > nowUnix e"] assms(6,7) by (simp add: live_task_def)
  have one: "affected ?p (video_tasks d) = 1" by (rule affected_key_one [OF ids t(1), where v = i]) (use t in auto)
  have none: "createNodeDispatchBarrierForTask i (nowUnix e * 1000) d = (Inr False, d)"
    using assms(9) by (simp add: createNodeDispatchBarrierForTask_def latest_attempt_None [symmetric])
  have "cancel_by_status e i t False d = (Inr (), ?d')"
    using assms(4,8) one by (simp add: cancel_by_status_def Let_def exec_one_apply)
  then have "cancel_local e i d = (Inr (), ?d')"
    unfolding cancel_local_def atomically_success_iff using live none assms(10) by (simp add: and_then_ensuring)
  moreover have "select_where (\<lambda>x. vt_task_id x = i \<and> vt_deleted_at x = None) (video_tasks d) = Some t"
    using assms(6) by (intro select_task [OF ids t])
  ultimately have run: "RequestAdminCancel e i d = (Inr (), ?d')" using assms(5) by (simp add: RequestAdminCancel_def)
  have t': "cancelling_task (nowUnix e) t \<in> set (video_tasks ?d')" "vt_task_id (cancelling_task (nowUnix e) t) = i"
    "vt_status (cancelling_task (nowUnix e) t) = StatusCancelling"
    using t by (simp_all add: set_update_where)
  have ids': "distinct (map vt_task_id (video_tasks ?d'))" using ids by (simp add: distinct_update_where)
  note stays = cancelling_stays [OF ids' t']
  show ?thesis
    by (rule exI [of _ ?d'], intro conjI run bexI [OF _ t'(1)] t'(2,3) stays(2-4)) (use stays(1) in blast)
qed

section \<open>Witnesses\<close>

definition running_task :: video_task where
  "running_task = (blank_task ''a'' 1)\<lparr>vt_status := StatusRunning, vt_expires_at := 9999, vt_active_stage_id := Some ''s1'', vt_version := 1\<rparr>"

definition cancel_db :: db where
  "cancel_db = empty_db\<lparr>video_tasks := [running_task], task_stages := [sample_stage ''s1'' 1], stage_attempts := [sample_attempt]\<rparr>"

lemmas end_samples = cancel_db_def running_task_def empty_db_def blank_task_def sample_stage_def sample_attempt_def new_stage_row_def sample_env_def nowUnix_def

lemma sample_cancel: "\<exists>d'. RequestAdminCancel sample_env ''a'' cancel_db = (Inr (), d')"
  by (simp add: RequestAdminCancel_def cancel_local_def live_task_def on_official_node_def createNodeDispatchBarrierForTask_def latest_attempt_def
      open_attempts_def attempt_active_def cancel_by_status_def staged_def finishStageTaskCancellation_def createCallbackDeliveryWithConn_def
      insert_delivery_def atomically_def and_then_def exec_one_apply unfinished_status_def stage_task_cancelled_def cancelled_task_def
      touched_def new_delivery_def Let_def end_samples)

theorem RequestAdminCancel_stops_witness:
  "\<exists>d'. RequestAdminCancel sample_env ''a'' cancel_db = (Inr (), d') \<and> open_attempts ''a'' d' = []
     \<and> (\<exists>b \<in> set (node_dispatch_barriers d'). nb_task_id b = ''a'')"
proof -
  from sample_cancel obtain d' where run: "RequestAdminCancel sample_env ''a'' cancel_db = (Inr (), d')" ..
  have t: "running_task \<in> set (video_tasks cancel_db)" "vt_task_id running_task = ''a''" "distinct (map vt_task_id (video_tasks cancel_db))"
    "\<not> (vt_protocol_version running_task = Some ProtocolTK2SD \<and> vt_upstream_slot_active running_task)"
    by (simp_all add: cancel_db_def running_task_def blank_task_def)
  have "open_attempts ''a'' cancel_db \<noteq> []" by (simp add: open_attempts_def attempt_active_def end_samples)
  with RequestAdminCancel_stops [OF run t] run show ?thesis by blast
qed

definition purge_db :: db where
  "purge_db = empty_db\<lparr>video_tasks := [(blank_task ''a'' 1)\<lparr>vt_status := StatusFailed\<rparr>, blank_task ''b'' 2], task_stages := [sample_stage ''s1'' 1],
     stage_attempts := [sample_attempt], callback_deliveries := [new_delivery ''c1'' ''a'' ''failed'' 1 [] [] 0, new_delivery ''c2'' ''b'' ''queued'' 1 [] [] 0]\<rparr>"

lemma sample_purge: "\<exists>d'. AdminDelete ''a'' None purge_db = (Inr (), d')"
  by (simp add: AdminDelete_def purgeable_def AdminCanDelete_def purge_dependents_def purge_items_def delete_unreferenced_def delete_task_row_def
      task_referenced_def stage_referenced_def artifact_referenced_def attempt_referenced_def stage_of_task_def artifact_of_task_def located_def
      item_of_task_def detached_task_def detached_stage_def atomically_def and_then_def Let_def purge_db_def new_delivery_def end_samples delete_where_def)

theorem AdminDelete_purges_witness:
  "\<exists>d'. AdminDelete ''a'' None purge_db = (Inr (), d') \<and> map vt_task_id (video_tasks d') = [''b''] \<and> map cd_id (callback_deliveries d') = [''c2'']
     \<and> task_stages d' = [] \<and> stage_attempts d' = []"
proof -
  from sample_purge obtain d' where run: "AdminDelete ''a'' None purge_db = (Inr (), d')" ..
  have "distinct (map vt_task_id (video_tasks purge_db))" by (simp add: purge_db_def blank_task_def)
  note eq = AdminDelete_purges [OF run this, THEN conjunct2, THEN conjunct2, THEN conjunct2]
  have left: "map vt_task_id (video_tasks d') = [''b'']" "map cd_id (callback_deliveries d') = [''c2'']"
    "task_stages d' = []" "stage_attempts d' = []"
    unfolding eq by (simp_all add: purge_db_def new_delivery_def end_samples)
  show ?thesis by (intro exI [of _ d'] conjI run left)
qed

theorem AdminDelete_upload_blocks_witness:
  "\<exists>er. AdminDelete ''a'' None (purge_db\<lparr>result_upload_jobs := [new_upload ''j'' ''a'' ''k'' 0]\<rparr>) = (Inl er, purge_db\<lparr>result_upload_jobs := [new_upload ''j'' ''a'' ''k'' 0]\<rparr>)"
  by (rule AdminDelete_upload_blocks [of "new_upload ''j'' ''a'' ''k'' 0"]) (simp_all add: new_upload_def)

definition uploading_task :: video_task where
  "uploading_task = (blank_task ''a'' 1)\<lparr>vt_status := StatusReconciling, vt_expires_at := 9999, vt_upstream_id := Some ''n1'',
     vt_protocol_version := Some ProtocolTK2SD, vt_result_internal_url := Some ''u''\<rparr>"

definition uploading_db :: db where
  "uploading_db = empty_db\<lparr>video_tasks := [uploading_task], result_upload_jobs := [(new_upload ''j'' ''a'' ''k'' 0)\<lparr>ru_status := UploadUploading, ru_attempt_no := 1,
     ru_lease_token := Some ''tok'', ru_lease_expires_at := Some 999\<rparr>]\<rparr>"

lemma uploading_kept: "RequestAdminCancel sample_env ''a'' uploading_db = (Inr (), d') \<Longrightarrow> result_upload_jobs d' = result_upload_jobs uploading_db"
  by (auto simp: RequestAdminCancel_def cancel_local_def live_task_def on_official_node_def createNodeDispatchBarrierForTask_def latest_attempt_def
      open_attempts_def cancel_by_status_def staged_def atomically_def and_then_def exec_one_apply
      uploading_db_def uploading_task_def Let_def end_samples)

theorem cancel_during_upload_strands_witness:
  "\<exists>d'. RequestAdminCancel sample_env ''a'' uploading_db = (Inr (), d') \<and> (\<exists>er. CompleteResultUpload sample_env ''j'' ''tok'' ''url'' 1 d' = (Inl er, d'))
     \<and> (\<exists>er. AdminDelete ''a'' None d' = (Inl er, d'))"
proof -
  have "distinct (map vt_task_id (video_tasks uploading_db))" "uploading_task \<in> set (video_tasks uploading_db)" "vt_task_id uploading_task = ''a''"
    "vt_status uploading_task = StatusReconciling" "\<not> vt_upstream_slot_active uploading_task" "vt_deleted_at uploading_task = None"
    "vt_expires_at uploading_task > nowUnix sample_env" "\<not> staged False uploading_task" "open_attempts ''a'' uploading_db = []" "\<not> on_official_node uploading_task uploading_db"
    by (simp_all add: uploading_db_def uploading_task_def end_samples staged_def open_attempts_def on_official_node_def)
  from cancel_during_upload_strands [OF this, where purged = None and e' = sample_env] obtain d' where d': "RequestAdminCancel sample_env ''a'' uploading_db = (Inr (), d')"
    "\<forall>j tok job url bytes. leased_row j tok d' = Some job \<and> ru_task_id job = ''a'' \<longrightarrow> (\<exists>er. CompleteResultUpload sample_env j tok url bytes d' = (Inl er, d'))"
    "\<exists>er. AdminDelete ''a'' None d' = (Inl er, d')" by blast
  have "\<exists>job. leased_row ''j'' ''tok'' d' = Some job \<and> ru_task_id job = ''a''"
    by (simp add: leased_row_def uploading_kept [OF d'(1)] uploading_db_def new_upload_def)
  with d' show ?thesis by blast
qed

end
