(* ===== verification/InputSpool.thy ===== *)
theory InputSpool
  imports TaskStore
begin

text \<open>
  \<^verbatim>\<open>internal/inputspool\<close> and \<^verbatim>\<open>input_spool_store.go\<close>: inline media of a request are written to files and replaced by
  references before the task is stored, and put back when the request is sent on. A request appears as the value its JSON text
  decodes to; both functions rewrite the URLs of its media and keep the rest. The spool directory is a map from
  paths below its root to contents.
\<close>

section \<open>Media types\<close>

definition bytes_at :: "nat \<Rightarrow> string \<Rightarrow> string \<Rightarrow> bool" where
  "bytes_at i p s \<longleftrightarrow> take (length p) (drop i s) = p"

definition byte_at :: "string \<Rightarrow> nat \<Rightarrow> nat" where
  "byte_at s i = byte (s ! i)"

definition png_magic :: string where
  "png_magic = [CHR 0x89, CHR ''P'', CHR ''N'', CHR ''G'', CHR 0x0D, CHR 0x0A, CHR 0x1A, CHR 0x0A]"

definition detectMediaType :: "string \<Rightarrow> string" where
  "detectMediaType s =
     (let n = length s in
      if n \<ge> 8 \<and> bytes_at 0 png_magic s then ''image/png''
      else if n \<ge> 3 \<and> byte_at s 0 = 255 \<and> byte_at s 1 = 216 \<and> byte_at s 2 = 255 then ''image/jpeg''
      else if n \<ge> 12 \<and> bytes_at 0 ''RIFF'' s \<and> bytes_at 8 ''WEBP'' s then ''image/webp''
      else if n \<ge> 12 \<and> bytes_at 0 ''RIFF'' s \<and> bytes_at 8 ''WAVE'' s then ''audio/wav''
      else if n \<ge> 12 \<and> bytes_at 4 ''ftyp'' s then ''video/mp4''
      else if n \<ge> 3 \<and> bytes_at 0 ''ID3'' s then ''audio/mpeg''
      else if n \<ge> 2 \<and> byte_at s 0 = 255 \<and> byte_at s 1 \<ge> 224 then ''audio/mpeg''
      else [])"

definition normalizeMediaType :: "string \<Rightarrow> string" where
  "normalizeMediaType m =
     (if m = ''image/jpg'' then ''image/jpeg'' else if m = ''audio/mp3'' then ''audio/mpeg''
      else if m = ''audio/x-wav'' then ''audio/wav'' else m)"

definition mediaExtension :: "string \<Rightarrow> string" where
  "mediaExtension m0 =
     (let m = normalizeMediaType m0 in
      if m = ''image/jpeg'' then ''.jpg'' else if m = ''image/png'' then ''.png'' else if m = ''image/webp'' then ''.webp''
      else if m = ''audio/wav'' then ''.wav'' else if m = ''audio/mpeg'' then ''.mp3'' else if m = ''video/mp4'' then ''.mp4'' else ''.bin'')"

definition chooseMediaType :: "string \<Rightarrow> string \<Rightarrow> string \<Rightarrow> string" where
  "chooseMediaType contentType declared detected =
     (let want = trim_suffix contentType ''_url'' @ ''/'' in
      if detected \<noteq> [] then (if has_prefix detected want then normalizeMediaType detected else [])
      else if has_prefix declared want then normalizeMediaType declared else [])"

definition maxDecodedBytes :: "string \<Rightarrow> int" where
  "maxDecodedBytes contentType =
     (if contentType = ''image_url'' then 30 * 2 ^ 20 else if contentType = ''video_url'' then 50 * 2 ^ 20
      else if contentType = ''audio_url'' then 15 * 2 ^ 20 else 0)"

section \<open>Data URIs\<close>

definition lower :: "string \<Rightarrow> string" where
  "lower s = concat (map encode_rune (to_lower s))"

record DecodedDataURI =
  du_Payload :: string
  du_DeclaredMIME :: string
  du_DetectedMIME :: string
  du_MediaType :: string
  du_Extension :: string
  du_SHA256 :: string

definition declared_type :: "string \<Rightarrow> string" where
  "declared_type header = lower (trim_suffix (trim_prefix header ''data:'') '';base64'')"

definition decode_payload :: "string \<Rightarrow> string option" where
  "decode_payload encoded = map_option (map char_of) (b64_decode_strict encoded)"

definition DecodeDataURI :: "(string \<Rightarrow> string) \<Rightarrow> string \<Rightarrow> string \<Rightarrow> err + DecodedDataURI" where
  "DecodeDataURI sha contentType raw =
     (let (header, encoded, ok) = cut raw (CHR '','') in
      if \<not> ok \<or> encoded = [] \<or> \<not> has_suffix (lower header) '';base64'' then Inl (ErrText ''data uri'')
      else case decode_payload encoded of
        None \<Rightarrow> Inl (ErrText ''base64'')
      | Some payload \<Rightarrow>
          let declared = declared_type header; detected = detectMediaType payload; mediaType = chooseMediaType contentType declared detected in
          if payload = [] then Inl (ErrText ''empty input'')
          else if mediaType = [] then Inl (ErrText ''media type'')
          else Inr \<lparr>du_Payload = payload, du_DeclaredMIME = normalizeMediaType declared, du_DetectedMIME = normalizeMediaType detected,
                    du_MediaType = mediaType, du_Extension = mediaExtension mediaType, du_SHA256 = sha payload\<rparr>)"

text \<open>\<open>base64.StdEncoding.EncodeToString\<close>.\<close>

definition b64_symbol :: "nat \<Rightarrow> char" where
  "b64_symbol v = char_of (if v < 26 then v + 65 else if v < 52 then v + 71 else if v < 62 then v - 4 else if v = 62 then 43 else (47::nat))"

fun b64_encode :: "nat list \<Rightarrow> string" where
  "b64_encode [] = []"
| "b64_encode [a] = [b64_symbol (a div 4), b64_symbol (a mod 4 * 16), CHR ''='', CHR ''='']"
| "b64_encode [a, b] = [b64_symbol (a div 4), b64_symbol (a mod 4 * 16 + b div 16), b64_symbol (b mod 16 * 4), CHR ''='']"
| "b64_encode (a # b # c # rest) =
     [b64_symbol (a div 4), b64_symbol (a mod 4 * 16 + b div 16), b64_symbol (b mod 16 * 4 + c div 64), b64_symbol (c mod 64)] @ b64_encode rest"

definition encode_payload :: "string \<Rightarrow> string" where
  "encode_payload s = b64_encode (map byte s)"

section \<open>Paths\<close>

text \<open>\<open>filepath.Clean\<close> of a path below the root, as the components that remain; \<open>filepath.Ext\<close>.\<close>

fun split_on :: "char \<Rightarrow> string \<Rightarrow> string list" where
  "split_on c [] = [[]]"
| "split_on c (x # xs) = (if x = c then [] # split_on c xs else (x # hd (split_on c xs)) # tl (split_on c xs))"

fun clean_parts :: "string list \<Rightarrow> string list \<Rightarrow> string list" where
  "clean_parts stack [] = rev stack"
| "clean_parts stack (p # ps) =
     (if p = [] \<or> p = ''.'' then clean_parts stack ps
      else if p = ''..'' \<and> stack \<noteq> [] \<and> hd stack \<noteq> ''..'' then clean_parts (tl stack) ps
      else clean_parts (p # stack) ps)"

definition clean :: "string \<Rightarrow> string list" where
  "clean path = clean_parts [] (split_on (CHR ''/'') path)"

definition safeUnder :: "string \<Rightarrow> bool" where
  "safeUnder path \<longleftrightarrow> (case clean path of [] \<Rightarrow> False | p # _ \<Rightarrow> \<not> has_prefix p ''..'')"

definition file_ext :: "string \<Rightarrow> string" where
  "file_ext name = (case last_index_byte name (CHR ''.'') of None \<Rightarrow> [] | Some i \<Rightarrow> drop i name)"

definition path_ext :: "string \<Rightarrow> string" where
  "path_ext path = (case rev (clean path) of [] \<Rightarrow> [] | p # _ \<Rightarrow> file_ext p)"

section \<open>Spooling a request\<close>

type_synonym spool_files = "string list \<rightharpoonup> string"

record Spooler =
  sl_root :: string
  sl_sha256 :: "string \<Rightarrow> string"
  sl_json_size :: "GenerationRequest \<Rightarrow> nat"
  sl_parse :: url_parser
  sl_writable :: "string list \<Rightarrow> bool"

definition roleOf :: "GenerationContent \<Rightarrow> string" where
  "roleOf c = (if gc_role c = [] then ''input'' else gc_role c)"

definition stableInputID :: "(string \<Rightarrow> string) \<Rightarrow> string \<Rightarrow> nat \<Rightarrow> string \<Rightarrow> string" where
  "stableInputID sha taskID index source =
     ''input_'' @ take 32 (sha (taskID @ CHR 0x00 # decimal_digits index @ CHR 0x00 # source))"

definition with_media :: "string \<Rightarrow> GenerationContent \<Rightarrow> GenerationContent" where
  "with_media url c =
     (if gc_type c = ''image_url'' then c\<lparr>gc_image_url := Some url\<rparr>
      else if gc_type c = ''video_url'' then c\<lparr>gc_video_url := Some url\<rparr>
      else if gc_type c = ''audio_url'' then c\<lparr>gc_audio_url := Some url\<rparr> else c)"

definition writeDataURI :: "Spooler \<Rightarrow> string \<Rightarrow> nat \<Rightarrow> string \<Rightarrow> string \<Rightarrow> string \<Rightarrow> (err, spool_files, InputSpoolFile) tx" where
  "writeDataURI s taskID index contentType role raw = (\<lambda>fs.
     case DecodeDataURI (sl_sha256 s) contentType raw of Inl er \<Rightarrow> (Inl er, fs)
     | Inr u \<Rightarrow>
         let declared = declared_type (fst (cut raw (CHR '','')));
             inputID = stableInputID (sl_sha256 s) taskID index raw;
             path = taskID @ ''/'' @ inputID @ du_Extension u in
         if \<not> safeUnder (inputID @ du_Extension u) then (Inl (ErrText ''spool path''), fs)
         else if \<not> sl_writable s (clean path) then (Inl (ErrText ''spool write''), fs)
         else (Inr \<lparr>sf_ID = inputID, sf_TaskID = taskID, sf_ContentIndex = int index, sf_ContentType = contentType, sf_Role = role,
                    sf_SourceKind = ''data_uri'', sf_DeclaredMIME = declared, sf_DetectedMIME = detectMediaType (du_Payload u),
                    sf_MediaType = du_MediaType u, sf_Extension = du_Extension u, sf_RelativePath = path, sf_ObjectURL = [],
                    sf_SizeBytes = int (length (du_Payload u)), sf_SHA256 = du_SHA256 u\<rparr>, fs(clean path \<mapsto> du_Payload u)))"

definition input_reference :: "string \<Rightarrow> string \<Rightarrow> string" where
  "input_reference taskID inputID = ''proxy-input://'' @ taskID @ ''/'' @ inputID"

definition inline_media :: "GenerationContent \<Rightarrow> string option" where
  "inline_media c = (case Media c of None \<Rightarrow> None | Some url \<Rightarrow> if has_prefix url ''data:'' then Some url else None)"

fun spool_content :: "Spooler \<Rightarrow> string \<Rightarrow> nat \<Rightarrow> GenerationContent list \<Rightarrow>
    (err, spool_files, GenerationContent list \<times> InputSpoolFile list) tx" where
  "spool_content s taskID i [] = ret ([], [])"
| "spool_content s taskID i (c # cs) =
     (case inline_media c of
        None \<Rightarrow> and_then (spool_content s taskID (Suc i) cs) (\<lambda>(cs', files). ret (c # cs', files))
      | Some url \<Rightarrow>
          and_then (writeDataURI s taskID i (gc_type c) (roleOf c) url) (\<lambda>f.
          and_then (spool_content s taskID (Suc i) cs) (\<lambda>(cs', files).
          ret (with_media (input_reference taskID (sf_ID f)) c # cs', f # files))))"

definition valid_task_dir :: "string \<Rightarrow> bool" where
  "valid_task_dir i \<longleftrightarrow> i \<noteq> [] \<and> \<not> contains_char i (CHR ''/'') \<and> \<not> contains_char i (CHR 0x5C) \<and> i \<noteq> ''.'' \<and> i \<noteq> ''..''"

text \<open>A failure removes the task's directory.\<close>

definition remove_dir :: "string \<Rightarrow> spool_files \<Rightarrow> spool_files" where
  "remove_dir taskID fs = (\<lambda>p. if p \<noteq> [] \<and> hd p = taskID then None else fs p)"

definition PrepareRequest :: "Spooler \<Rightarrow> string \<Rightarrow> GenerationRequest option \<Rightarrow> (err, spool_files, GenerationRequest \<times> InputSpoolFile list) tx" where
  "PrepareRequest s taskID request = (\<lambda>fs.
     if trim_space (sl_root s) = [] then (Inl (ErrText ''spool root''), fs)
     else if \<not> valid_task_dir taskID then (Inl (ErrText ''task_id''), fs)
     else case request of None \<Rightarrow> (Inl (ErrText ''json''), fs)
     | Some r \<Rightarrow>
         case spool_content s taskID 0 (gr_content r) fs of
           (Inl er, fs') \<Rightarrow> (Inl er, remove_dir taskID fs')
         | (Inr (content, files), fs') \<Rightarrow> (Inr (r\<lparr>gr_content := content\<rparr>, files), fs'))"

section \<open>Store\<close>

definition scanInputSpoolFile :: "input_spool_file \<Rightarrow> InputSpoolFile" where
  "scanInputSpoolFile r =
     \<lparr>sf_ID = sp_id r, sf_TaskID = sp_task_id r, sf_ContentIndex = sp_content_index r, sf_ContentType = sp_content_type r,
      sf_Role = sp_role r, sf_SourceKind = sp_source_kind r, sf_DeclaredMIME = coalesce (sp_declared_mime r) [],
      sf_DetectedMIME = coalesce (sp_detected_mime r) [], sf_MediaType = sp_media_type r, sf_Extension = sp_extension r,
      sf_RelativePath = sp_relative_path r, sf_ObjectURL = coalesce (sp_object_url r) [], sf_SizeBytes = sp_size_bytes r,
      sf_SHA256 = sp_sha256 r\<rparr>"

definition spool_rows :: "string \<Rightarrow> db \<Rightarrow> input_spool_file list" where
  "spool_rows taskID d = filter (\<lambda>r. sp_task_id r = taskID) (task_input_spool_files d)"

text \<open>The index is unique within a task, so it alone orders the rows.\<close>

definition ListInputSpoolFiles :: "string \<Rightarrow> InputSpoolFile list op" where
  "ListInputSpoolFiles taskID = gets (\<lambda>d. map scanInputSpoolFile (sort_key sp_content_index (spool_rows taskID d)))"

definition GetInputSpoolFile :: "string \<Rightarrow> string \<Rightarrow> InputSpoolFile op" where
  "GetInputSpoolFile taskID inputID =
     reading (\<lambda>d. case select_where (\<lambda>r. sp_task_id r = taskID \<and> sp_id r = inputID) (task_input_spool_files d) of
        None \<Rightarrow> Inl ErrTaskNotFound | Some r \<Rightarrow> Inr (scanInputSpoolFile r))"

definition reusable_task :: "string \<Rightarrow> string \<Rightarrow> db \<Rightarrow> video_task option" where
  "reusable_task apiKeyID requestHash d =
     select_where (\<lambda>_. True) (sort_key (\<lambda>t. - vt_created_at t) (filter (\<lambda>t. vt_api_key_id t = apiKeyID \<and> vt_request_hash t = requestHash
        \<and> vt_deleted_at t = None \<and> exists_where (\<lambda>r. sp_task_id r = vt_task_id t \<and> coalesce (sp_object_url r) [] \<noteq> []) (task_input_spool_files d))
       (video_tasks d)))"

definition FindReusableInputObjects :: "string \<Rightarrow> string \<Rightarrow> (GenerationRequest option \<times> InputSpoolFile list) op" where
  "FindReusableInputObjects apiKeyID requestHash =
     and_then (reading (\<lambda>d. case reusable_task apiKeyID requestHash d of None \<Rightarrow> Inl ErrTaskNotFound | Some t \<Rightarrow> Inr t)) (\<lambda>t.
     and_then (ListInputSpoolFiles (vt_task_id t)) (\<lambda>files.
     if list_ex (\<lambda>f. sf_ObjectURL f = []) files then raise ErrTaskNotFound else ret (vt_request t, files)))"

definition ListInputSpoolTaskIDs :: "string set op" where
  "ListInputSpoolTaskIDs =
     gets (\<lambda>d. set (map vt_task_id (filter (\<lambda>t. vt_deleted_at t = None) (video_tasks d))) \<union> set (map sp_task_id (task_input_spool_files d)))"

section \<open>Restoring a request\<close>

text \<open>\<open>URL.EscapedPath\<close>: the parser keeps \<open>RawPath\<close> only where it differs from the default encoding.\<close>

definition path_char :: "char \<Rightarrow> bool" where
  "path_char c \<longleftrightarrow> (let b = byte c in 65 \<le> b \<and> b \<le> 90 \<or> 97 \<le> b \<and> b \<le> 122 \<or> 48 \<le> b \<and> b \<le> 57) \<or> c \<in> set ''-_.~$&+,/:;=@''"

definition EscapedPath :: "ParsedURL \<Rightarrow> string" where
  "EscapedPath u =
     (if u_raw_path u \<noteq> [] then u_raw_path u
      else concat (map (\<lambda>c. if path_char c then [c] else [CHR ''%'', hex_digit (byte c div 16), hex_digit (byte c mod 16)]) (u_path u)))"

definition parseProxyInputReference :: "url_parser \<Rightarrow> string \<Rightarrow> string \<Rightarrow> err + string" where
  "parseProxyInputReference up raw taskID =
     (case up raw of None \<Rightarrow> Inl (ErrText ''reference'')
      | Some u \<Rightarrow>
          if u_scheme u \<noteq> ''proxy-input'' \<or> u_host u \<noteq> taskID \<or> u_has_user u \<or> u_raw_query u \<noteq> [] \<or> u_fragment u \<noteq> []
          then Inl (ErrText ''reference'')
          else
            let inputID = trim_prefix (EscapedPath u) ''/'' in
            if inputID = [] \<or> contains_char inputID (CHR ''/'') \<or> inputID \<noteq> tl (u_path u) then Inl (ErrText ''reference'')
            else Inr inputID)"

definition readVerified :: "Spooler \<Rightarrow> spool_files \<Rightarrow> InputSpoolFile \<Rightarrow> err + string" where
  "readVerified s fs f =
     (if \<not> safeUnder (sf_RelativePath f) then Inl (ErrText ''path'')
      else if path_ext (sf_RelativePath f) \<noteq> sf_Extension f then Inl (ErrText ''extension'')
      else case fs (clean (sf_RelativePath f)) of None \<Rightarrow> Inl (ErrText ''unreadable'')
      | Some payload \<Rightarrow>
          if int (length payload) \<noteq> sf_SizeBytes f \<or> payload = [] \<or> int (length payload) > maxDecodedBytes (sf_ContentType f)
          then Inl (ErrText ''size'')
          else if \<not> equal_fold (sl_sha256 s payload) (sf_SHA256 f) then Inl (ErrText ''checksum'')
          else
            let detected = normalizeMediaType (detectMediaType payload) in
            if detected = [] \<or> detected \<noteq> normalizeMediaType (sf_MediaType f) then Inl (ErrText ''type'') else Inr payload)"

definition restore_item :: "Spooler \<Rightarrow> spool_files \<Rightarrow> string \<Rightarrow> nat \<Rightarrow> GenerationContent \<Rightarrow> GenerationContent op" where
  "restore_item s fs taskID i c =
     (case Media c of None \<Rightarrow> ret c | Some url \<Rightarrow>
      if \<not> has_prefix url ''proxy-input://'' then ret c
      else if trim_space (sl_root s) = [] then raise (ErrText ''restorer'')
      else case parseProxyInputReference (sl_parse s) url taskID of Inl er \<Rightarrow> raise er
      | Inr inputID \<Rightarrow>
          and_then (GetInputSpoolFile taskID inputID) (\<lambda>f.
          if sf_ID f \<noteq> inputID \<or> sf_TaskID f \<noteq> taskID \<or> sf_ContentIndex f \<noteq> int i \<or> sf_ContentType f \<noteq> gc_type c
             \<or> sf_Role f \<noteq> gc_role c \<or> sf_SourceKind f \<noteq> ''data_uri'' then raise (ErrText ''metadata'')
          else case readVerified s fs f of Inl er \<Rightarrow> raise er
          | Inr payload \<Rightarrow> ret (with_media (''data:'' @ sf_MediaType f @ '';base64,'' @ encode_payload payload) c)))"

fun restore_content :: "Spooler \<Rightarrow> spool_files \<Rightarrow> string \<Rightarrow> nat \<Rightarrow> GenerationContent list \<Rightarrow> GenerationContent list op" where
  "restore_content s fs taskID i [] = ret []"
| "restore_content s fs taskID i (c # cs) =
     and_then (restore_item s fs taskID i c) (\<lambda>c'. and_then (restore_content s fs taskID (Suc i) cs) (\<lambda>cs'. ret (c' # cs')))"

definition maxOfficialRequestBytes :: nat where
  "maxOfficialRequestBytes = 64 * 2 ^ 20"

definition Restore :: "Spooler \<Rightarrow> spool_files \<Rightarrow> string \<Rightarrow> GenerationRequest option \<Rightarrow> GenerationRequest op" where
  "Restore s fs taskID request =
     (case request of None \<Rightarrow> raise (ErrText ''json'')
      | Some r \<Rightarrow>
          if sl_json_size s r > maxOfficialRequestBytes then raise (ErrText ''request size'')
          else and_then (restore_content s fs taskID 0 (gr_content r)) (\<lambda>content.
            let r' = r\<lparr>gr_content := content\<rparr> in
            if content = gr_content r then ret r
            else if sl_json_size s r' > maxOfficialRequestBytes then raise (ErrText ''request size'') else ret r'))"


section \<open>Orphans\<close>

record dir_entry =
  de_name :: string
  de_is_dir :: bool
  de_modified :: "int option"

definition orphan :: "(string \<Rightarrow> bool) \<Rightarrow> int \<Rightarrow> dir_entry \<Rightarrow> bool" where
  "orphan live cutoff x \<longleftrightarrow> safeUnder (de_name x)
     \<and> (case de_modified x of None \<Rightarrow> False | Some t \<Rightarrow> t \<le> cutoff)
     \<and> (if de_is_dir x then \<not> live (de_name x) else has_suffix (de_name x) ''.part'')"

text \<open>The loop over the entries of the directory and what it leaves behind: an entry that cannot be removed, or a context that is done, ends it.
  \<open>removable x\<close> is whether \<open>os.RemoveAll\<close> or \<open>os.Remove\<close> gets rid of the entry, also when it is gone already.\<close>

fun sweep_orphans :: "(string \<Rightarrow> bool) \<Rightarrow> int \<Rightarrow> (dir_entry \<Rightarrow> bool) \<Rightarrow> (nat \<Rightarrow> bool) \<Rightarrow> dir_entry list \<Rightarrow> err option \<times> dir_entry list" where
  "sweep_orphans live cutoff removable ctx_done [] = (None, [])"
| "sweep_orphans live cutoff removable ctx_done (x # xs) =
     (if ctx_done (length xs) then (Some (ErrText ''context''), x # xs)
      else if \<not> orphan live cutoff x then (let (er, rest) = sweep_orphans live cutoff removable ctx_done xs in (er, x # rest))
      else if removable x then sweep_orphans live cutoff removable ctx_done xs
      else (Some (ErrText ''remove''), x # xs))"

datatype spool_dir = NoDirectory | UnreadableDirectory | Directory "dir_entry list"

definition CleanupOrphans :: "string \<Rightarrow> (string \<Rightarrow> bool) \<Rightarrow> int \<Rightarrow> int \<Rightarrow> (dir_entry \<Rightarrow> bool) \<Rightarrow> (nat \<Rightarrow> bool) \<Rightarrow> spool_dir \<Rightarrow> err option \<times> spool_dir" where
  "CleanupOrphans root live now minAge removable ctx_done d =
     (if root = [] then (None, d)
      else case d of NoDirectory \<Rightarrow> (None, d) | UnreadableDirectory \<Rightarrow> (Some (ErrText ''read directory''), d)
      | Directory xs \<Rightarrow> let (er, rest) = sweep_orphans live (now - minAge) removable ctx_done xs in (er, Directory rest))"

section \<open>Base64 and data URIs\<close>

lemma b64_symbol_value [simp]: "v < 64 \<Longrightarrow> b64_value (b64_symbol v) = Some v"
  by (auto simp: b64_value_def b64_symbol_def byte_def Let_def)

lemma b64_symbol_byte: "v < 64 \<Longrightarrow> byte (b64_symbol v) \<noteq> 10 \<and> byte (b64_symbol v) \<noteq> 13 \<and> b64_symbol v \<noteq> CHR ''=''"
  using b64_symbol_value [of v] by (auto simp: b64_value_def byte_def Let_def split: if_splits)

lemma b64_pad: "b64_value (CHR ''='') = None"
  by (simp add: b64_value_def byte_def)

lemma b64_roundtrip: "list_all (\<lambda>b. b < 256) bs \<Longrightarrow> b64_groups (b64_encode bs) = Some bs"
proof (induction bs rule: b64_encode.induct)
  case (4 a b c rest)
  then have "b64_groups (b64_encode rest) = Some rest" by simp
  moreover have "a div 4 < 64" "a mod 4 * 16 + b div 16 < 64" "b mod 16 * 4 + c div 64 < 64" "c mod 64 < 64" using 4 by auto
  moreover have "b div 16 < 16" "c div 64 < 4" using 4 by auto
  then have "b div 16 div 16 = 0" "b div 16 mod 16 * 16 + (b mod 16 + c div 64 div 4) = b" "c div 64 mod 4 * 64 + c mod 64 = c" by simp_all
  ultimately show ?case by simp
next
  case (3 a b)
  then have "a div 4 < 64" "a mod 4 * 16 + b div 16 < 64" "b mod 16 * 4 < 64" by auto
  moreover have "b div 16 < 16" using 3 by auto
  then have "b div 16 div 16 = 0" "b div 16 mod 16 * 16 + b mod 16 = b" by simp_all
  ultimately show ?case by (simp add: b64_pad)
next
  case (2 a)
  then have "a div 4 < 64" "a mod 4 * 16 < 64" by auto
  then show ?case by (auto simp: b64_pad)
qed simp

lemma b64_encode_bytes: "list_all (\<lambda>b. b < 256) bs \<Longrightarrow> x \<in> set (b64_encode bs) \<Longrightarrow> byte x \<noteq> 10 \<and> byte x \<noteq> 13"
proof (induction bs rule: b64_encode.induct)
  case (4 a b c rest)
  then have "a div 4 < 64" "a mod 4 * 16 + b div 16 < 64" "b mod 16 * 4 + c div 64 < 64" "c mod 64 < 64" by auto
  with 4 b64_symbol_byte [of "c mod 64"] show ?case by (auto dest: b64_symbol_byte)
next
  case (3 a b)
  then have "a div 4 < 64" "a mod 4 * 16 + b div 16 < 64" "b mod 16 * 4 < 64" by auto
  with 3 b64_symbol_byte [of "b mod 16 * 4"] show ?case by (auto dest: b64_symbol_byte simp: byte_def [of "CHR ''=''"])
next
  case (2 a)
  then have "a div 4 < 64" "a mod 4 * 16 < 64" by auto
  with 2 b64_symbol_byte [of "a mod 4 * 16"] show ?case by (auto dest: b64_symbol_byte simp: byte_def [of "CHR ''=''"])
qed simp

lemma payload_roundtrip: "decode_payload (encode_payload s) = Some s"
proof -
  have bytes: "list_all (\<lambda>b. b < 256) (map byte s)" by (simp add: list_all_iff byte_def)
  have "filter (\<lambda>c. byte c \<noteq> 10 \<and> byte c \<noteq> 13) (b64_encode (map byte s)) = b64_encode (map byte s)"
    using b64_encode_bytes [OF bytes] by (simp add: filter_id_conv)
  with b64_roundtrip [OF bytes] show ?thesis
    by (simp add: decode_payload_def encode_payload_def b64_decode_strict_def byte_def comp_def)
qed

lemma b64_encode_nonempty: "encode_payload s = [] \<longleftrightarrow> s = []"
  by (cases "map byte s" rule: b64_encode.cases) (auto simp: encode_payload_def)

definition known_types :: "string set" where
  "known_types = {''image/png'', ''image/jpeg'', ''image/webp'', ''audio/wav'', ''video/mp4'', ''audio/mpeg''}"

lemma detected_known: "detectMediaType s \<noteq> [] \<Longrightarrow> detectMediaType s \<in> known_types"
  by (auto simp: detectMediaType_def known_types_def Let_def split: if_splits)

lemma known_normal: "m \<in> known_types \<Longrightarrow> normalizeMediaType m = m"
  by (auto simp: known_types_def normalizeMediaType_def)

lemma known_header: "m \<in> known_types \<Longrightarrow> has_suffix (lower (''data:'' @ m @ '';base64'')) '';base64'' \<and> CHR '','' \<notin> set (''data:'' @ m @ '';base64'')"
  unfolding known_types_def
  by (elim insertE emptyE; simp add: text_eval lower_def to_lower_def lower_rune_def encode_rune_def char_of_eq_iff)

definition canonical :: "string \<Rightarrow> string \<Rightarrow> string" where
  "canonical m payload = ''data:'' @ m @ '';base64,'' @ encode_payload payload"

lemma canonical_decodes:
  assumes "DecodeDataURI sha ty raw = Inr u" and "detectMediaType (du_Payload u) \<noteq> []"
  shows "\<exists>u'. DecodeDataURI sha ty (canonical (du_MediaType u) (du_Payload u)) = Inr u' \<and> du_Payload u' = du_Payload u
    \<and> du_MediaType u' = du_MediaType u \<and> du_SHA256 u' = du_SHA256 u"
proof -
  let ?p = "du_Payload u" and ?m = "du_MediaType u"
  from assms(1) have u: "?m = chooseMediaType ty (declared_type (fst (cut raw (CHR '','')))) (detectMediaType ?p)" "?m \<noteq> []" "?p \<noteq> []" "du_SHA256 u = sha ?p"
    by (auto simp: DecodeDataURI_def Let_def split: prod.splits if_splits option.splits)
  from u(1) assms(2) have m: "?m = chooseMediaType ty x (detectMediaType ?p)" for x by (simp add: chooseMediaType_def Let_def)
  from detected_known [OF assms(2)] u(1,2) assms(2) have "?m \<in> known_types"
    by (auto simp: chooseMediaType_def Let_def known_normal split: if_splits)
  note head = known_header [OF this]
  have "cut (canonical ?m ?p) (CHR '','') = (''data:'' @ ?m @ '';base64'', encode_payload ?p, True)"
    using cut_append [of "CHR '',''" "''data:'' @ ?m @ '';base64''" "encode_payload ?p"] head by (simp add: canonical_def)
  then show ?thesis using head u(2,3) m by (simp add: DecodeDataURI_def Let_def payload_roundtrip b64_encode_nonempty u(4) flip: m)
qed


section \<open>Paths of spooled files\<close>

lemma split_on_none: "c \<notin> set xs \<Longrightarrow> split_on c xs = [xs]"
  by (induction xs) auto

lemma split_on_append: "c \<notin> set xs \<Longrightarrow> split_on c (xs @ c # ys) = xs # split_on c ys"
  by (induction xs) auto

lemma last_index_byte_append: "c \<notin> set e \<Longrightarrow> last_index_byte (p @ c # e) c = Some (length p)"
  using last_index_byte_None [of e c] by (induction p) auto

lemma clean_two:
  assumes "CHR ''/'' \<notin> set a" and "CHR ''/'' \<notin> set b" and "a \<notin> {[], ''.'', ''..''}" and "b \<notin> {[], ''.'', ''..''}"
  shows "clean (a @ CHR ''/'' # b) = [a, b]"
  using assms by (simp add: clean_def split_on_append split_on_none)

lemma clean_one: "CHR ''/'' \<notin> set b \<Longrightarrow> b \<notin> {[], ''.'', ''..''} \<Longrightarrow> clean b = [b]"
  by (simp add: clean_def split_on_none)

lemma extension_form: "\<exists>e. mediaExtension m = CHR ''.'' # e \<and> CHR ''.'' \<notin> set e \<and> CHR ''/'' \<notin> set e"
  by (auto simp: mediaExtension_def Let_def)

definition hex_digests :: "Spooler \<Rightarrow> bool" where
  "hex_digests s \<longleftrightarrow> (\<forall>x. list_all is_hex (sl_sha256 s x))"

lemma input_id_chars:
  assumes "hex_digests s" and "c \<in> set (stableInputID (sl_sha256 s) t i raw)"
  shows "c \<noteq> CHR ''/'' \<and> c \<noteq> CHR ''.'' \<and> path_char c"
proof -
  let ?x = "t @ CHR 0x00 # decimal_digits i @ CHR 0x00 # raw"
  from assms(2) consider "c \<in> set ''input_''" | "c \<in> set (sl_sha256 s ?x)" by (auto simp: stableInputID_def dest: in_set_takeD)
  then show ?thesis
  proof cases
    case 2
    with assms(1) have "is_hex c" by (auto simp: hex_digests_def list_all_iff)
    then show ?thesis by (auto simp: is_hex_def path_char_def byte_def Let_def)
  next
    case 1
    moreover have "list_all (\<lambda>c. c \<noteq> CHR ''/'' \<and> c \<noteq> CHR ''.'' \<and> path_char c) ''input_''" by code_simp
    ultimately show ?thesis by (simp only: list_all_iff) blast
  qed
qed

lemma input_path:
  assumes "hex_digests s" and "valid_task_dir t" and "\<not> has_prefix t ''..''" and "n = stableInputID (sl_sha256 s) t i raw @ mediaExtension m"
  shows "clean (t @ ''/'' @ n) = [t, n]" and "safeUnder (t @ ''/'' @ n)" and "path_ext (t @ ''/'' @ n) = mediaExtension m"
    and "safeUnder n"
proof -
  obtain e where e: "mediaExtension m = CHR ''.'' # e" "CHR ''.'' \<notin> set e" "CHR ''/'' \<notin> set e" using extension_form by blast
  have n: "CHR ''/'' \<notin> set n" "n \<notin> {[], ''.'', ''..''}"
    using input_id_chars [OF assms(1)] e by (auto simp: assms(4) stableInputID_def)
  have t: "CHR ''/'' \<notin> set t" "t \<notin> {[], ''.'', ''..''}" using assms(2) by (auto simp: valid_task_dir_def contains_char_def)
  from clean_two [OF t(1) n(1) t(2) n(2)] show c: "clean (t @ ''/'' @ n) = [t, n]" by simp
  show "safeUnder (t @ ''/'' @ n)" using assms(3) by (simp only: safeUnder_def c) simp
  show "path_ext (t @ ''/'' @ n) = mediaExtension m"
    unfolding path_ext_def c by (simp add: file_ext_def assms(4) e(1) last_index_byte_append [OF e(2)])
  show "safeUnder n" using clean_one [OF n] by (simp add: safeUnder_def assms(4) stableInputID_def)
qed

section \<open>Round trip\<close>

lemma writeDataURI_success:
  assumes "writeDataURI s t i ty role raw fs = (Inr f, fs')"
  obtains u where "DecodeDataURI (sl_sha256 s) ty raw = Inr u" and "sf_ID f = stableInputID (sl_sha256 s) t i raw" and "sf_TaskID f = t"
    and "sf_ContentIndex f = int i" and "sf_ContentType f = ty" and "sf_Role f = role" and "sf_SourceKind f = ''data_uri''"
    and "sf_MediaType f = du_MediaType u" and "sf_Extension f = du_Extension u" and "sf_SizeBytes f = int (length (du_Payload u))"
    and "sf_SHA256 f = du_SHA256 u" and "sf_RelativePath f = t @ ''/'' @ sf_ID f @ du_Extension u" and "fs' = fs(clean (sf_RelativePath f) \<mapsto> du_Payload u)"
  using assms by (auto simp: writeDataURI_def Let_def split: sum.splits if_splits)

definition file_path :: "InputSpoolFile \<Rightarrow> string list" where
  "file_path f = clean (sf_RelativePath f)"

lemma spool_frame:
  assumes "spool_content s t i cs fs = (Inr (cs', files), fs')" and "p \<notin> file_path ` set files"
  shows "fs' p = fs p"
  using assms
proof (induction cs arbitrary: i fs cs' files)
  case (Cons c cs)
  show ?case
  proof (cases "inline_media c")
    case None
    with Cons show ?thesis by (auto simp: and_then_success_iff split: prod.splits)
  next
    case (Some url)
    with Cons.prems(1) obtain f fs1 cs1 files1 where w: "writeDataURI s t i (gc_type c) (roleOf c) url fs = (Inr f, fs1)"
      and r: "spool_content s t (Suc i) cs fs1 = (Inr (cs1, files1), fs')" and "files = f # files1"
      by (auto simp: and_then_success_iff split: prod.splits)
    with Cons.IH [OF r] Cons.prems(2) have "fs' p = fs1 p" "p \<noteq> file_path f" by auto
    with w show ?thesis by (auto elim!: writeDataURI_success simp: file_path_def)
  qed
qed simp

text \<open>What a restored item looks like: inline media decode to the same bytes and type, everything else is as it was.\<close>

definition restored :: "Spooler \<Rightarrow> GenerationContent \<Rightarrow> GenerationContent \<Rightarrow> bool" where
  "restored s c c' \<longleftrightarrow>
     (case inline_media c of None \<Rightarrow> c' = c
      | Some url \<Rightarrow> \<exists>u u' url'. DecodeDataURI (sl_sha256 s) (gc_type c) url = Inr u \<and> c' = with_media url' c \<and> Media c' = Some url'
          \<and> DecodeDataURI (sl_sha256 s) (gc_type c) url' = Inr u' \<and> du_Payload u' = du_Payload u \<and> du_MediaType u' = du_MediaType u)"

text \<open>What the restorer needs of an item, beyond what the spooler checks.\<close>

definition restorable :: "Spooler \<Rightarrow> GenerationContent \<Rightarrow> bool" where
  "restorable s c \<longleftrightarrow>
     (case inline_media c of None \<Rightarrow> (case Media c of None \<Rightarrow> True | Some url \<Rightarrow> \<not> has_prefix url ''proxy-input://'')
      | Some url \<Rightarrow> gc_role c \<noteq> [] \<and> (case DecodeDataURI (sl_sha256 s) (gc_type c) url of Inl _ \<Rightarrow> False
          | Inr u \<Rightarrow> detectMediaType (du_Payload u) \<noteq> [] \<and> int (length (du_Payload u)) \<le> maxDecodedBytes (gc_type c)))"

definition reference_url :: "string \<Rightarrow> string \<Rightarrow> ParsedURL" where
  "reference_url t i = \<lparr>u_scheme = ''proxy-input'', u_host = t, u_has_user = False, u_fragment = [], u_opaque = [], u_path = CHR ''/'' # i, u_raw_path = [], u_raw_query = []\<rparr>"

definition parses_references :: "Spooler \<Rightarrow> string \<Rightarrow> bool" where
  "parses_references s t \<longleftrightarrow> (\<forall>i. list_all path_char i \<longrightarrow> sl_parse s (input_reference t i) = Some (reference_url t i))"

lemma reference_parsed:
  assumes "parses_references s t" and "hex_digests s" and "x = stableInputID (sl_sha256 s) t i raw"
  shows "parseProxyInputReference (sl_parse s) (input_reference t x) t = Inr x"
proof -
  have x: "list_all path_char x" "\<not> contains_char x (CHR ''/'')" "x \<noteq> []"
    using input_id_chars [OF assms(2)] assms(3) by (auto simp: list_all_iff contains_char_def stableInputID_def)
  have "concat (map (\<lambda>c. if path_char c then [c] else f c) x) = x" for f using x(1) by (induction x) auto
  moreover have "path_char (CHR ''/'')" by (simp add: path_char_def)
  ultimately show ?thesis using assms(1) x
    by (simp add: parses_references_def parseProxyInputReference_def reference_url_def EscapedPath_def trim_prefix_def Let_def)
qed

lemma media_set: "Media c = Some url \<Longrightarrow> Media (with_media url' c) = Some url' \<and> gc_type (with_media url' c) = gc_type c
    \<and> gc_role (with_media url' c) = gc_role c \<and> with_media url'' (with_media url' c) = with_media url'' c"
  by (auto simp: Media_def with_media_def split: if_splits)

lemma equal_fold_refl [simp]: "equal_fold s s"
  by (simp add: equal_fold_def)


lemma restore_written:
  assumes "hex_digests s" and "valid_task_dir t" and "\<not> has_prefix t ''..''" and "parses_references s t" and "trim_space (sl_root s) \<noteq> []"
    and "inline_media c = Some url" and "restorable s c" and "writeDataURI s t i (gc_type c) (roleOf c) url fs = (Inr f, fs1)"
    and "GetInputSpoolFile t (sf_ID f) d = (Inr f, d)" and "g (file_path f) = fs1 (file_path f)"
  shows "\<exists>c'. restore_item s g t i (with_media (input_reference t (sf_ID f)) c) d = (Inr c', d) \<and> restored s c c'"
proof -
  from assms(8) obtain u where u: "DecodeDataURI (sl_sha256 s) (gc_type c) url = Inr u" and f: "sf_ID f = stableInputID (sl_sha256 s) t i url"
    "sf_TaskID f = t" "sf_ContentIndex f = int i" "sf_ContentType f = gc_type c" "sf_Role f = roleOf c" "sf_SourceKind f = ''data_uri''"
    "sf_MediaType f = du_MediaType u" "sf_Extension f = du_Extension u" "sf_SizeBytes f = int (length (du_Payload u))"
    "sf_SHA256 f = du_SHA256 u" "sf_RelativePath f = t @ ''/'' @ sf_ID f @ du_Extension u"
    and fs1: "fs1 = fs(clean (sf_RelativePath f) \<mapsto> du_Payload u)" by (rule writeDataURI_success)
  from u have un: "du_Extension u = mediaExtension (du_MediaType u)" "du_SHA256 u = sl_sha256 s (du_Payload u)" "du_Payload u \<noteq> []"
    "du_MediaType u = chooseMediaType (gc_type c) (declared_type (fst (cut url (CHR '','')))) (detectMediaType (du_Payload u))"
    by (auto simp: DecodeDataURI_def Let_def split: prod.splits if_splits option.splits)
  from assms(6,7) u have c: "gc_role c \<noteq> []" "detectMediaType (du_Payload u) \<noteq> []" "int (length (du_Payload u)) \<le> maxDecodedBytes (gc_type c)"
    by (auto simp: restorable_def)
  from assms(6) have media: "Media c = Some url" by (auto simp: inline_media_def split: option.splits if_splits)
  note set = media_set [OF media]
  note path = input_path [OF assms(1-3) refl, of i url "du_MediaType u", folded un(1) f(1), folded f(11)]
  have known: "detectMediaType (du_Payload u) \<in> known_types" by (rule detected_known [OF c(2)])
  have "du_MediaType u \<noteq> []" using u by (auto simp: DecodeDataURI_def Let_def split: prod.splits if_splits option.splits)
  then have m: "normalizeMediaType (du_MediaType u) = detectMediaType (du_Payload u)"
    using un(4) c(2) known by (auto simp: chooseMediaType_def Let_def known_normal split: if_splits)
  have "g (clean (sf_RelativePath f)) = Some (du_Payload u)" using assms(10) fs1 by (simp add: file_path_def)
  then have "readVerified s g f = Inr (du_Payload u)"
    using path(2,3) c un(2,3) known by (simp add: readVerified_def f m known_normal Let_def)
  then have run: "restore_item s g t i (with_media (input_reference t (sf_ID f)) c) d = (Inr (with_media (canonical (du_MediaType u) (du_Payload u)) c), d)"
    using set reference_parsed [OF assms(4,1) f(1)] assms(5,9) c(1)
    by (simp add: restore_item_def f(2-7) roleOf_def canonical_def, simp add: input_reference_def)
  from canonical_decodes [OF u c(2)] have "restored s c (with_media (canonical (du_MediaType u) (du_Payload u)) c)"
    using assms(6) u set by (auto simp: restored_def)
  with run show ?thesis by blast
qed

lemma restore_spooled:
  assumes "hex_digests s" and "valid_task_dir t" and "\<not> has_prefix t ''..''" and "parses_references s t" and "trim_space (sl_root s) \<noteq> []"
    and "spool_content s t i cs fs = (Inr (cs', files), fs')" and "list_all (restorable s) cs" and "distinct (map file_path files)"
    and "\<And>f. f \<in> set files \<Longrightarrow> GetInputSpoolFile t (sf_ID f) d = (Inr f, d)" and "\<And>f. f \<in> set files \<Longrightarrow> g (file_path f) = fs' (file_path f)"
  shows "\<exists>cs''. restore_content s g t i cs' d = (Inr cs'', d) \<and> list_all2 (restored s) cs cs''"
  using assms(6-)
proof (induction cs arbitrary: i fs cs' files)
  case (Cons c cs)
  show ?case
  proof (cases "inline_media c")
    case None
    with Cons.prems(1) obtain cs1 where r: "spool_content s t (Suc i) cs fs = (Inr (cs1, files), fs')" and cs': "cs' = c # cs1"
      by (auto simp: and_then_success_iff split: prod.splits)
    from None Cons.prems(2) have "restore_item s g t i c d = (Inr c, d)"
      by (auto simp: restorable_def restore_item_def split: option.splits)
    with Cons.IH [OF r _ Cons.prems(3-5)] Cons.prems(2) None show ?thesis by (auto simp: cs' restored_def)
  next
    case (Some url)
    with Cons.prems(1) obtain f fs1 cs1 files1 where w: "writeDataURI s t i (gc_type c) (roleOf c) url fs = (Inr f, fs1)"
      and r: "spool_content s t (Suc i) cs fs1 = (Inr (cs1, files1), fs')" and files: "files = f # files1"
      and cs': "cs' = with_media (input_reference t (sf_ID f)) c # cs1"
      by (auto simp: and_then_success_iff split: prod.splits)
    have "g (file_path f) = fs1 (file_path f)"
      using Cons.prems(3,5) spool_frame [OF r, of "file_path f"] by (auto simp: files)
    moreover have "restorable s c" "GetInputSpoolFile t (sf_ID f) d = (Inr f, d)" using Cons.prems(2,4) by (auto simp: files)
    ultimately obtain c' where "restore_item s g t i (with_media (input_reference t (sf_ID f)) c) d = (Inr c', d)" "restored s c c'"
      using restore_written [OF assms(1-5) Some _ w] by blast
    moreover from Cons.IH [OF r] Cons.prems(2-5) obtain cs'' where "restore_content s g t (Suc i) cs1 d = (Inr cs'', d)" "list_all2 (restored s) cs cs''"
      by (auto simp: files)
    ultimately show ?thesis by (simp add: cs')
  qed
qed simp

text \<open>C14: A request whose inline media were spooled when the task was created is restored with the same media: after \<open>PrepareRequest\<close>, with the file rows in the
  store and the files untouched, \<open>Restore\<close> gives back (unless the result exceeds the limit of a request, which is then the error) a request that differs at most in how
  each inline medium is written, and the medium decodes to the same bytes and type. This holds when every inline item has a role, a format the detector knows and a size
  within its limit, no other item refers to a spooled file, the files of the request have distinct paths, the stored request is within the limit, the task id does not start
  with two dots, digests are hexadecimal and the parser of addresses reads the references as they are written.\<close>

theorem spool_restore_roundtrip:
  assumes "PrepareRequest s t (Some r) fs = (Inr (r', files), fs')" and "hex_digests s" and "parses_references s t" and "\<not> has_prefix t ''..''"
    and "list_all (restorable s) (gr_content r)" and "distinct (map file_path files)"
    and "\<And>f. f \<in> set files \<Longrightarrow> GetInputSpoolFile t (sf_ID f) d = (Inr f, d)" and "sl_json_size s r' \<le> maxOfficialRequestBytes"
  shows "\<exists>r''. Restore s fs' t (Some r') d = (if sl_json_size s r'' \<le> maxOfficialRequestBytes then Inr r'' else Inl (ErrText ''request size''), d)
    \<and> list_all2 (restored s) (gr_content r) (gr_content r'')
    \<and> r'' = r\<lparr>gr_content := gr_content r''\<rparr>"
proof -
  from assms(1) obtain cs' where run: "spool_content s t 0 (gr_content r) fs = (Inr (cs', files), fs')" and r': "r' = r\<lparr>gr_content := cs'\<rparr>"
    and ok: "trim_space (sl_root s) \<noteq> []" "valid_task_dir t"
    by (auto simp: PrepareRequest_def split: if_splits sum.splits prod.splits)
  from restore_spooled [OF assms(2) ok(2) assms(4,3) ok(1) run assms(5,6,7)]
  obtain cs'' where "restore_content s fs' t 0 cs' d = (Inr cs'', d)" "list_all2 (restored s) (gr_content r) cs''" by blast
  then show ?thesis using assms(8) by (intro exI [of _ "r\<lparr>gr_content := cs''\<rparr>"]) (auto simp: Restore_def r' Let_def)
qed


text \<open>A payload of no known format passes the spooler on its declared type alone; the restorer refuses it whatever happens.\<close>

lemma undetected_never_restored:
  assumes "writeDataURI s t i ty role raw fs = (Inr f, fs1)" and "fs1 (file_path f) = Some payload" and "detectMediaType payload = []"
  shows "\<exists>er. readVerified s fs1 f = Inl er"
  using assms(2,3) by (auto simp: readVerified_def file_path_def normalizeMediaType_def Let_def)

lemma sweep_keeps:
  "sweep_orphans live cutoff removable ctx_done xs = (er, ys) \<Longrightarrow>
   filter (\<lambda>x. \<not> orphan live cutoff x) ys = filter (\<lambda>x. \<not> orphan live cutoff x) xs \<and> set ys \<subseteq> set xs
   \<and> (er = None \<longrightarrow> ys = filter (\<lambda>x. \<not> orphan live cutoff x) xs)"
proof (induction xs arbitrary: er ys)
  case (Cons x xs)
  obtain er' rest where rest: "sweep_orphans live cutoff removable ctx_done xs = (er', rest)" by (metis surj_pair)
  from Cons.prems rest Cons.IH [OF rest] show ?case by (auto split: if_splits)
qed simp

text \<open>The orphan sweep removes orphans only: the entries that are no orphans, among them the directory of every live task and everything
  changed after the cutoff, stay in their order, whatever the sweep fails to remove; a sweep that ends without an error has removed
  every orphan.\<close>

theorem CleanupOrphans_keeps_live:
  assumes "CleanupOrphans root live now minAge removable ctx_done (Directory xs) = (er, Directory ys)"
  shows "filter (\<lambda>x. \<not> orphan live (now - minAge) x) ys = filter (\<lambda>x. \<not> orphan live (now - minAge) x) xs \<and> set ys \<subseteq> set xs
    \<and> (er = None \<and> root \<noteq> [] \<longrightarrow> ys = filter (\<lambda>x. \<not> orphan live (now - minAge) x) xs)
    \<and> (\<forall>x \<in> set xs. de_is_dir x \<and> live (de_name x) \<or> (\<exists>m. de_modified x = Some m \<and> m > now - minAge) \<longrightarrow> x \<in> set ys)"
proof -
  let ?keep = "\<lambda>x. \<not> orphan live (now - minAge) x"
  from assms sweep_keeps [of live "now - minAge" removable ctx_done xs]
  have kept: "filter ?keep ys = filter ?keep xs" "set ys \<subseteq> set xs" "er = None \<and> root \<noteq> [] \<longrightarrow> ys = filter ?keep xs"
    by (auto simp: CleanupOrphans_def split: if_splits prod.splits)
  have "x \<in> set ys" if "x \<in> set xs" "?keep x" for x
    using that kept(1) [THEN arg_cong [where f = set]] by auto
  moreover have "?keep x" if "de_is_dir x \<and> live (de_name x) \<or> (\<exists>m. de_modified x = Some m \<and> m > now - minAge)" for x
    using that by (auto simp: orphan_def)
  ultimately show ?thesis using kept by blast
qed

section \<open>Witnesses\<close>

definition sample_spooler :: Spooler where
  "sample_spooler =
     \<lparr>sl_root = ''/spool'', sl_sha256 = (\<lambda>_. replicate 64 (CHR ''a'')), sl_json_size = (\<lambda>_. 100),
      sl_parse = (\<lambda>v. let (h, p, ok) = cut (trim_prefix v ''proxy-input://'') (CHR ''/'') in Some (reference_url h p)), sl_writable = (\<lambda>_. True)\<rparr>"

definition sample_png :: string where
  "sample_png = ''data:image/png;base64,iVBORw0KGgo=''"

definition sample_item :: GenerationContent where
  "sample_item = \<lparr>gc_type = ''image_url'', gc_text = [], gc_image_url = Some sample_png, gc_video_url = None, gc_audio_url = None, gc_role = ''first_frame''\<rparr>"

definition sample_inline :: GenerationRequest where
  "sample_inline =
     \<lparr>gr_model = ''m'', gr_content = [sample_item],
      gr_resolution = [], gr_duration = 5, gr_ratio = [], gr_callback_url = None, gr_aigc_watermark = None, gr_duration_present = True\<rparr>"

definition spool_row :: "InputSpoolFile \<Rightarrow> input_spool_file" where
  "spool_row f =
     \<lparr>sp_id = sf_ID f, sp_task_id = sf_TaskID f, sp_content_index = sf_ContentIndex f, sp_content_type = sf_ContentType f, sp_role = sf_Role f,
      sp_source_kind = sf_SourceKind f, sp_declared_mime = nullif_empty (sf_DeclaredMIME f), sp_detected_mime = nullif_empty (sf_DetectedMIME f),
      sp_media_type = sf_MediaType f, sp_extension = sf_Extension f, sp_relative_path = sf_RelativePath f,
      sp_object_url = nullif_empty (sf_ObjectURL f), sp_size_bytes = sf_SizeBytes f, sp_sha256 = sf_SHA256 f\<rparr>"

lemma scan_spool_row: "scanInputSpoolFile (spool_row f) = f"
proof -
  have "coalesce (nullif_empty x) [] = x" for x :: string by (simp add: nullif_empty_def)
  then show ?thesis by (simp add: scanInputSpoolFile_def spool_row_def)
qed

lemma sample_png_decodes:
  "DecodeDataURI (\<lambda>_. replicate 64 (CHR ''a'')) ''image_url'' sample_png
   = Inr \<lparr>du_Payload = png_magic, du_DeclaredMIME = ''image/png'', du_DetectedMIME = ''image/png'', du_MediaType = ''image/png'', du_Extension = ''.png'', du_SHA256 = replicate 64 (CHR ''a'')\<rparr>"
proof -
  have "cut sample_png (CHR '','') = (''data:image/png;base64'', ''iVBORw0KGgo='', True)" by (simp add: sample_png_def)
  moreover have "decode_payload ''iVBORw0KGgo='' = Some png_magic" by code_simp
  moreover have "lower ''data:image/png;base64'' = ''data:image/png;base64''" "declared_type ''data:image/png;base64'' = ''image/png''"
    by (simp_all add: text_eval declared_type_def lower_def to_lower_def lower_rune_def encode_rune_def char_of_eq_iff)
  moreover have "detectMediaType png_magic = ''image/png''" by (simp add: detectMediaType_def png_magic_def bytes_at_def)
  ultimately show ?thesis
    by (simp add: DecodeDataURI_def chooseMediaType_def normalizeMediaType_def mediaExtension_def trim_suffix_def has_suffix_def png_magic_def [THEN arg_cong [where f = "\<lambda>x. x = []"]] Let_def)
qed

theorem spool_restore_roundtrip_witness:
  "\<exists>r' files fs' d r''. PrepareRequest sample_spooler ''t1'' (Some sample_inline) Map.empty = (Inr (r', files), fs') \<and> length files = 1
     \<and> Restore sample_spooler fs' ''t1'' (Some r') d = (Inr r'', d) \<and> list_all2 (restored sample_spooler) (gr_content sample_inline) (gr_content r'')"
proof -
  let ?s = sample_spooler
  have hex: "hex_digests ?s" by (simp add: hex_digests_def sample_spooler_def list_all_iff is_hex_def byte_def)
  have refs: "parses_references ?s ''t1''"
  proof -
    have "trim_prefix (''proxy-input://'' @ x) ''proxy-input://'' = x" for x :: string by (rule trim_prefix_append)
    moreover have "cut (''t1'' @ CHR ''/'' # i) (CHR ''/'') = (''t1'', i, True)" for i by (rule cut_append) simp
    ultimately show ?thesis by (simp add: parses_references_def input_reference_def sample_spooler_def)
  qed
  have dir: "valid_task_dir ''t1''" by (simp add: valid_task_dir_def contains_char_def)
  let ?id = "stableInputID (sl_sha256 ?s) ''t1'' 0 sample_png"
  obtain f fs1 where w: "writeDataURI ?s ''t1'' 0 ''image_url'' ''first_frame'' sample_png Map.empty = (Inr f, fs1)"
  proof -
    have "safeUnder (?id @ mediaExtension ''image/png'')" by (rule input_path(4) [OF hex dir]) (simp_all add: has_prefix_append)
    then have "\<exists>f fs1. writeDataURI ?s ''t1'' 0 ''image_url'' ''first_frame'' sample_png Map.empty = (Inr f, fs1)"
      using sample_png_decodes by (simp add: writeDataURI_def sample_spooler_def mediaExtension_def normalizeMediaType_def Let_def)
    then show thesis using that by blast
  qed
  let ?c = sample_item and ?d = "empty_db\<lparr>task_input_spool_files := [spool_row f]\<rparr>"
  have c: "inline_media ?c = Some sample_png" "gc_type ?c = ''image_url''" "roleOf ?c = ''first_frame''" "gr_content sample_inline = [?c]"
    by (simp_all add: sample_inline_def sample_item_def inline_media_def Media_def sample_png_def roleOf_def)
  have root: "trim_space (sl_root ?s) = ''/spool''" by (simp add: sample_spooler_def text_eval)
  let ?r = "sample_inline\<lparr>gr_content := [with_media (input_reference ''t1'' (sf_ID f)) ?c]\<rparr>"
  have run: "PrepareRequest ?s ''t1'' (Some sample_inline) Map.empty = (Inr (?r, [f]), fs1)"
    using w dir root c by (simp add: PrepareRequest_def)
  have task: "sf_TaskID f = ''t1''" using w by (rule writeDataURI_success)
  have ok: "list_all (restorable ?s) (gr_content sample_inline)" using c sample_png_decodes
    by (simp add: restorable_def sample_spooler_def detectMediaType_def png_magic_def bytes_at_def maxDecodedBytes_def sample_item_def)
  have "GetInputSpoolFile ''t1'' (sf_ID f) ?d = (Inr f, ?d)" using task by (simp add: GetInputSpoolFile_def scan_spool_row) (simp add: spool_row_def)
  then have "\<exists>r''. Restore ?s fs1 ''t1'' (Some ?r) ?d = (if sl_json_size ?s r'' \<le> maxOfficialRequestBytes then Inr r'' else Inl (ErrText ''request size''), ?d)
      \<and> list_all2 (restored ?s) (gr_content sample_inline) (gr_content r'') \<and> r'' = sample_inline\<lparr>gr_content := gr_content r''\<rparr>"
    by (intro spool_restore_roundtrip [OF run hex refs _ ok]) (simp_all add: has_prefix_append sample_spooler_def maxOfficialRequestBytes_def)
  then obtain r'' where "Restore ?s fs1 ''t1'' (Some ?r) ?d = (Inr r'', ?d)" "list_all2 (restored ?s) (gr_content sample_inline) (gr_content r'')"
    by (auto simp: sample_spooler_def maxOfficialRequestBytes_def)
  with run show ?thesis by (intro exI [of _ ?r] exI [of _ "[f]"] exI [of _ fs1] exI [of _ ?d] exI [of _ r'']) simp
qed

theorem CleanupOrphans_keeps_live_witness:
  "\<exists>ys. CleanupOrphans ''/spool'' (\<lambda>i. i = ''t1'') 20 10 (\<lambda>_. True) (\<lambda>_. False)
       (Directory [\<lparr>de_name = ''t0'', de_is_dir = True, de_modified = Some 0\<rparr>, \<lparr>de_name = ''t1'', de_is_dir = True, de_modified = Some 0\<rparr>])
     = (None, Directory ys) \<and> \<lparr>de_name = ''t1'', de_is_dir = True, de_modified = Some 0\<rparr> \<in> set ys"
proof -
  let ?t0 = "\<lparr>de_name = ''t0'', de_is_dir = True, de_modified = Some 0\<rparr>" and ?t1 = "\<lparr>de_name = ''t1'', de_is_dir = True, de_modified = Some 0\<rparr>"
  have "\<not> orphan (\<lambda>i. i = ''t1'') 10 ?t1" by (simp add: orphan_def)
  then obtain ys where run: "CleanupOrphans ''/spool'' (\<lambda>i. i = ''t1'') 20 10 (\<lambda>_. True) (\<lambda>_. False) (Directory [?t0, ?t1]) = (None, Directory ys)"
    by (cases "orphan (\<lambda>i. i = ''t1'') 10 ?t0") (simp_all add: CleanupOrphans_def)
  from CleanupOrphans_keeps_live [OF run, THEN conjunct2, THEN conjunct2, THEN conjunct2] have "?t1 \<in> set ys" by simp
  with run show ?thesis by blast
qed

end
