(* ===== verification/Netguard.thy ===== *)
theory Netguard
  imports Domain "HOL-Library.Word"
begin

unbundle bit_operations_syntax

text \<open>
  \<^verbatim>\<open>internal/netguard/url.go\<close>: which addresses the proxy connects to on behalf of clients, and how much it
  reads from them. Addresses are machine words, as in \<open>net/netip\<close>; \<open>url.Parse\<close>, \<open>netip.ParseAddr\<close>,
  the resolver and the dialer are arguments.
\<close>

section \<open>Addresses\<close>

text \<open>\<open>netip.Addr\<close>: the zero value, an IPv4 address, an IPv6 address with its zone.\<close>

datatype Addr = NoAddr | V4 "32 word" | V6 "128 word" string

definition mapped :: "128 word \<Rightarrow> bool" where
  "mapped a \<longleftrightarrow> drop_bit 32 a = 0xffff"

fun Unmap :: "Addr \<Rightarrow> Addr" where
  "Unmap (V6 a z) = (if mapped a then V4 (ucast a) else V6 a z)"
| "Unmap x = x"

definition octet :: "nat \<Rightarrow> 32 word \<Rightarrow> 32 word" where
  "octet i a = drop_bit (24 - 8 * i) a AND 0xff"

definition u16 :: "128 word \<Rightarrow> 128 word" where
  "u16 a = drop_bit 112 a"

fun IsLoopback_raw :: "Addr \<Rightarrow> bool" where
  "IsLoopback_raw (V4 a) = (octet 0 a = 127)"
| "IsLoopback_raw (V6 a z) = (a = 1)"
| "IsLoopback_raw NoAddr = False"

fun IsMulticast_raw :: "Addr \<Rightarrow> bool" where
  "IsMulticast_raw (V4 a) = (octet 0 a AND 0xf0 = 0xe0)"
| "IsMulticast_raw (V6 a z) = (drop_bit 120 a = 0xff)"
| "IsMulticast_raw NoAddr = False"

fun IsLinkLocalUnicast_raw :: "Addr \<Rightarrow> bool" where
  "IsLinkLocalUnicast_raw (V4 a) = (octet 0 a = 169 \<and> octet 1 a = 254)"
| "IsLinkLocalUnicast_raw (V6 a z) = (u16 a AND 0xffc0 = 0xfe80)"
| "IsLinkLocalUnicast_raw NoAddr = False"

fun IsLinkLocalMulticast_raw :: "Addr \<Rightarrow> bool" where
  "IsLinkLocalMulticast_raw (V4 a) = (octet 0 a = 224 \<and> octet 1 a = 0 \<and> octet 2 a = 0)"
| "IsLinkLocalMulticast_raw (V6 a z) = (u16 a AND 0xff0f = 0xff02)"
| "IsLinkLocalMulticast_raw NoAddr = False"

fun IsPrivate_raw :: "Addr \<Rightarrow> bool" where
  "IsPrivate_raw (V4 a) = (octet 0 a = 10 \<or> octet 0 a = 172 \<and> octet 1 a AND 0xf0 = 16 \<or> octet 0 a = 192 \<and> octet 1 a = 168)"
| "IsPrivate_raw (V6 a z) = (drop_bit 120 a AND 0xfe = 0xfc)"
| "IsPrivate_raw NoAddr = False"

text \<open>The methods of \<open>netip.Addr\<close> unmap first; a zone does not matter to them, but it does to \<open>==\<close>.\<close>

definition IsLoopback :: "Addr \<Rightarrow> bool" where
  "IsLoopback x = IsLoopback_raw (Unmap x)"

definition IsMulticast :: "Addr \<Rightarrow> bool" where
  "IsMulticast x = IsMulticast_raw (Unmap x)"

definition IsLinkLocalUnicast :: "Addr \<Rightarrow> bool" where
  "IsLinkLocalUnicast x = IsLinkLocalUnicast_raw (Unmap x)"

definition IsLinkLocalMulticast :: "Addr \<Rightarrow> bool" where
  "IsLinkLocalMulticast x = IsLinkLocalMulticast_raw (Unmap x)"

definition IsPrivate :: "Addr \<Rightarrow> bool" where
  "IsPrivate x = IsPrivate_raw (Unmap x)"

fun IsInterfaceLocalMulticast :: "Addr \<Rightarrow> bool" where
  "IsInterfaceLocalMulticast (V6 a z) = (\<not> mapped a \<and> u16 a AND 0xff0f = 0xff01)"
| "IsInterfaceLocalMulticast _ = False"

definition IsUnspecified :: "Addr \<Rightarrow> bool" where
  "IsUnspecified x \<longleftrightarrow> x = V4 0 \<or> x = V6 0 []"

definition IsGlobalUnicast :: "Addr \<Rightarrow> bool" where
  "IsGlobalUnicast x \<longleftrightarrow>
     x \<noteq> NoAddr \<and> Unmap x \<noteq> V4 0 \<and> Unmap x \<noteq> V4 0xffffffff \<and> x \<noteq> V6 0 [] \<and> \<not> IsLoopback x \<and> \<not> IsMulticast x \<and> \<not> IsLinkLocalUnicast x"

text \<open>\<open>netip.Prefix\<close>: \<open>Contains\<close> is false for an address with a zone.\<close>

datatype Prefix = Prefix4 "32 word" nat | Prefix6 "128 word" nat

fun Contains :: "Prefix \<Rightarrow> Addr \<Rightarrow> bool" where
  "Contains (Prefix4 p n) (V4 a) = (drop_bit (32 - n) (a XOR p) = 0)"
| "Contains (Prefix6 p n) (V6 a z) = (z = [] \<and> drop_bit (128 - n) (a XOR p) = 0)"
| "Contains _ _ = False"

definition protectedPrefixes :: "Prefix list" where
  "protectedPrefixes =
     [Prefix4 0x00000000 8, Prefix4 0x64400000 10, Prefix4 0xC0000000 24, Prefix4 0xC0000200 24, Prefix4 0xC6120000 15,
      Prefix4 0xC6336400 24, Prefix4 0xCB007100 24, Prefix4 0xC0586300 24, Prefix4 0xF0000000 4,
      Prefix6 0x0064ff9b000000000000000000000000 96, Prefix6 0x0064ff9b000100000000000000000000 48,
      Prefix6 0x01000000000000000000000000000000 64, Prefix6 0x20010000000000000000000000000000 23,
      Prefix6 0x20010db8000000000000000000000000 32, Prefix6 0x20020000000000000000000000000000 16,
      Prefix6 0xfec00000000000000000000000000000 10]"

definition IsProtectedAddress :: "Addr \<Rightarrow> bool" where
  "IsProtectedAddress x \<longleftrightarrow>
     x = NoAddr \<or> \<not> IsGlobalUnicast x \<or> IsPrivate x \<or> IsLoopback x \<or> IsLinkLocalUnicast x \<or> IsLinkLocalMulticast x
     \<or> IsInterfaceLocalMulticast x \<or> IsUnspecified x \<or> IsMulticast x \<or> list_ex (\<lambda>p. Contains p x) protectedPrefixes"

definition isUnsafe :: "Addr \<Rightarrow> bool" where
  "isUnsafe x = IsProtectedAddress x"

section \<open>Validation of a target\<close>

datatype guard_error = ErrUnsafeURL string | ErrSplitHostPort | ErrRedirects | ErrDial

text \<open>\<open>URL.Hostname\<close> and \<open>URL.Port\<close>, and the number parsing and formatting of ports.\<close>

definition split_host_port :: "string \<Rightarrow> string \<times> string" where
  "split_host_port h =
     (case last_index_byte h (CHR '':'') of
        None \<Rightarrow> (h, [])
      | Some i \<Rightarrow> if list_all is_digit_char (drop (Suc i) h) then (take i h, drop (Suc i) h) else (h, []))"

definition unbracket :: "string \<Rightarrow> string" where
  "unbracket h = (if has_prefix h ''['' \<and> has_suffix h '']'' then butlast (tl h) else h)"

definition Hostname :: "ParsedURL \<Rightarrow> string" where
  "Hostname u = unbracket (fst (split_host_port (u_host u)))"

definition Port :: "ParsedURL \<Rightarrow> string" where
  "Port u = snd (split_host_port (u_host u))"

definition parse_digits :: "string \<Rightarrow> nat option" where
  "parse_digits s = (if s \<noteq> [] \<and> list_all is_digit_char s then Some (foldl (\<lambda>n c. 10 * n + (byte c - 48)) 0 s) else None)"

definition normalizePort :: "string \<Rightarrow> string \<Rightarrow> guard_error + string" where
  "normalizePort scheme port =
     (if port = [] then Inr (if scheme = ''https'' then ''443'' else ''80'')
      else case parse_digits port of
        None \<Rightarrow> Inl (ErrUnsafeURL ''port'')
      | Some v \<Rightarrow> if v = 0 \<or> v \<ge> 65536 then Inl (ErrUnsafeURL ''port'') else Inr (decimal_digits v))"

text \<open>The libraries a guard uses. Each lookup may answer differently: \<open>resolve\<close> is numbered.\<close>

record Guard =
  g_ports :: "string list"
  g_parse_url :: url_parser
  g_parse_addr :: "string \<Rightarrow> Addr option"
  g_resolve :: "nat \<Rightarrow> string \<Rightarrow> Addr list option"

definition New :: "string list \<Rightarrow> url_parser \<Rightarrow> (string \<Rightarrow> Addr option) \<Rightarrow> (nat \<Rightarrow> string \<Rightarrow> Addr list option) \<Rightarrow> Guard" where
  "New allowed pu pa rs =
     \<lparr>g_ports = [''80'', ''443''] @ filter (\<lambda>p. p \<noteq> []) (map trim_space allowed), g_parse_url = pu, g_parse_addr = pa, g_resolve = rs\<rparr>"

definition trim_brackets :: "string \<Rightarrow> string" where
  "trim_brackets s = (let b = (\<lambda>c. c = CHR ''['' \<or> c = CHR '']'') in rev (dropWhile b (rev (dropWhile b s))))"

definition normalized_host :: "string \<Rightarrow> string" where
  "normalized_host host = trim_suffix (concat (map encode_rune (to_lower (trim_space host)))) ''.''"

definition lookup_host :: "Guard \<Rightarrow> nat \<Rightarrow> string \<Rightarrow> guard_error + Addr list" where
  "lookup_host g k host =
     (if normalized_host host = ''localhost'' \<or> has_suffix (normalized_host host) ''.localhost'' then Inl (ErrUnsafeURL ''localhost'')
      else case g_parse_addr g (trim_brackets host) of
        Some a \<Rightarrow> if isUnsafe (Unmap a) then Inl (ErrUnsafeURL ''address'') else Inr [Unmap a]
      | None \<Rightarrow>
          case g_resolve g k host of
            None \<Rightarrow> Inl (ErrUnsafeURL ''dns'')
          | Some as \<Rightarrow>
              if as = [] then Inl (ErrUnsafeURL ''dns'')
              else if list_ex (\<lambda>a. isUnsafe (Unmap a)) as then Inl (ErrUnsafeURL ''dns address'')
              else Inr (map Unmap as))"

definition Validate :: "Guard option \<Rightarrow> nat \<Rightarrow> string \<Rightarrow> guard_error + ParsedURL \<times> Addr list" where
  "Validate go k raw =
     (case go of None \<Rightarrow> Inl (ErrUnsafeURL ''guard'') | Some g \<Rightarrow>
      case g_parse_url g (trim_space raw) of None \<Rightarrow> Inl (ErrUnsafeURL ''format'') | Some u \<Rightarrow>
      if u_scheme u \<noteq> ''http'' \<and> u_scheme u \<noteq> ''https'' then Inl (ErrUnsafeURL ''scheme'')
      else if Hostname u = [] \<or> u_has_user u \<or> u_fragment u \<noteq> [] then Inl (ErrUnsafeURL ''host'')
      else case normalizePort (u_scheme u) (Port u) of Inl er \<Rightarrow> Inl er | Inr port \<Rightarrow>
      if port \<notin> set (g_ports g) then Inl (ErrUnsafeURL ''port'')
      else case lookup_host g k (Hostname u) of Inl er \<Rightarrow> Inl er | Inr as \<Rightarrow> Inr (u, as))"

section \<open>Connections\<close>

text \<open>
  \<open>dialContext\<close> resolves again and tries the addresses in order; \<open>dial\<close> says which attempts succeed. The result carries
  the attempts that were made.
\<close>

fun first_dial :: "(Addr \<Rightarrow> string \<Rightarrow> bool) \<Rightarrow> string \<Rightarrow> Addr list \<Rightarrow> (Addr \<times> string) list \<times> (guard_error + Addr)" where
  "first_dial dial port [] = ([], Inl ErrDial)"
| "first_dial dial port (a # as) =
     (if dial a port then ([(a, port)], Inr a) else (let (tried, r) = first_dial dial port as in ((a, port) # tried, r)))"

definition dialContext ::
  "Guard \<Rightarrow> nat \<Rightarrow> (Addr \<Rightarrow> string \<Rightarrow> bool) \<Rightarrow> (string \<times> string) option \<Rightarrow> (Addr \<times> string) list \<times> (guard_error + Addr)" where
  "dialContext g k dial address =
     (case address of None \<Rightarrow> ([], Inl ErrSplitHostPort) | Some (host, port) \<Rightarrow>
      if port \<notin> set (g_ports g) then ([], Inl (ErrUnsafeURL ''port''))
      else case lookup_host g k host of Inl er \<Rightarrow> ([], Inl er) | Inr as \<Rightarrow> first_dial dial port as)"

text \<open>
  \<open>guardedTransport.RoundTrip\<close> validates and hands the request to the transport, which dials through
  \<open>dialContext\<close>; \<open>CheckRedirect\<close> allows \<open>maxRedirects\<close> redirects, each validated.
\<close>

definition CheckRedirect :: "Guard \<Rightarrow> nat \<Rightarrow> nat \<Rightarrow> string \<Rightarrow> nat \<Rightarrow> guard_error option" where
  "CheckRedirect g k maxRedirects url via =
     (if via > maxRedirects then Some ErrRedirects
      else case Validate (Some g) k url of Inl er \<Rightarrow> Some er | Inr _ \<Rightarrow> None)"

definition RoundTrip ::
  "Guard \<Rightarrow> nat \<Rightarrow> (Addr \<Rightarrow> string \<Rightarrow> bool) \<Rightarrow> string \<Rightarrow> (string \<times> string) option \<Rightarrow> (Addr \<times> string) list \<times> (guard_error + Addr)" where
  "RoundTrip g k dial url address =
     (case Validate (Some g) k url of Inl er \<Rightarrow> ([], Inl er) | Inr _ \<Rightarrow> dialContext g (Suc k) dial address)"

section \<open>Bounded reading\<close>

text \<open>
  A source answers a read of \<open>n\<close> bytes with at most \<open>n\<close> bytes and an error or none.
\<close>

datatype read_error = ResponseTooLarge | SourceError string

record boundedReadCloser =
  br_remaining :: int
  br_exceeded :: bool

text \<open>
  The bytes to ask for: no more than one beyond the limit. The sum is an int64 and wraps; \<open>make\<close> panics for a negative size,
  which is \<^term>\<open>None\<close>.
\<close>

definition read_size :: "int \<Rightarrow> boundedReadCloser \<Rightarrow> int" where
  "read_size len r = (let room = wrap64 (br_remaining r + 1) in if len > room then room else len)"

definition bounded_read ::
  "(int \<Rightarrow> string \<times> read_error option) \<Rightarrow> int \<Rightarrow> boundedReadCloser \<Rightarrow> (string \<times> read_error option \<times> boundedReadCloser) option" where
  "bounded_read source len r =
     (if br_exceeded r then Some ([], Some ResponseTooLarge, r)
      else if len = 0 then Some ([], None, r)
      else if read_size len r < 0 then None
      else
        let (data, er) = source (read_size len r); n = int (length data)
        in if n > br_remaining r
           then Some (take (nat (br_remaining r)) data, Some ResponseTooLarge, r\<lparr>br_remaining := 0, br_exceeded := True\<rparr>)
           else Some (data, er, r\<lparr>br_remaining := br_remaining r - n\<rparr>))"

definition ClientWithTransport :: "int \<Rightarrow> int \<Rightarrow> int \<times> boundedReadCloser" where
  "ClientWithTransport timeout maxResponseBytes =
     (if timeout \<le> 0 then 3000000000 else timeout,
      \<lparr>br_remaining = (if maxResponseBytes \<le> 0 then 65536 else maxResponseBytes), br_exceeded = False\<rparr>)"

text \<open>The bytes a sequence of reads delivers, up to the first error, if none panics.\<close>

fun read_all :: "(nat \<Rightarrow> int \<Rightarrow> string \<times> read_error option) \<Rightarrow> int list \<Rightarrow> boundedReadCloser \<Rightarrow> (string \<times> read_error option) option" where
  "read_all source [] r = Some ([], None)"
| "read_all source (len # lens) r =
     (case bounded_read (source (length lens)) len r of
        None \<Rightarrow> None
      | Some (data, Some er, r') \<Rightarrow> Some (data, Some er)
      | Some (data, None, r') \<Rightarrow> map_option (\<lambda>(rest, er). (data @ rest, er)) (read_all source lens r'))"

section \<open>The protected ranges\<close>

lemmas address_defs = IsGlobalUnicast_def IsPrivate_def IsLoopback_def IsLinkLocalUnicast_def IsLinkLocalMulticast_def
  IsUnspecified_def IsMulticast_def

lemma masked_nat: "(n::nat) AND push_bit k (mask m) = n div 2 ^ k mod 2 ^ m * 2 ^ k"
proof -
  have "n AND push_bit k (mask m) = push_bit k (take_bit m (drop_bit k n))"
    by (rule bit_eqI) (auto simp: bit_and_iff bit_push_bit_iff bit_mask_iff bit_take_bit_iff bit_drop_bit_eq)
  then show ?thesis by (simp add: push_bit_eq_mult take_bit_eq_mod drop_bit_eq_div)
qed

lemma div_range: "0 < k \<Longrightarrow> (n::nat) div k = c \<longleftrightarrow> c * k \<le> n \<and> n < (c + 1) * k"
  by (metis Suc_eq_plus1 div_nat_eqI dividend_less_times_div mult.commute mult_Suc times_div_less_eq_dividend)

lemma word_eq_unat: "(a::'a::len word) = b \<longleftrightarrow> unat a = unat b"
  by (simp add: word_unat_eq_iff)

lemma xor_drop: "drop_bit k ((a::'a::len word) XOR p) = 0 \<longleftrightarrow> drop_bit k a = drop_bit k p"
  unfolding drop_bit_xor by (metis xor.assoc xor.left_neutral xor_self_eq)

text \<open>Each test on bits as a test on the number.\<close>

lemma octet_unat: "unat (octet i a) = unat a div 2 ^ (24 - 8 * i) mod 256"
  using masked_nat [of "unat a div 2 ^ (24 - 8 * i)" 0 8] by (simp add: octet_def unsigned_and_eq unat_drop_bit_eq drop_bit_eq_div [where 'a = nat] mask_eq_exp_minus_1)

lemma nibble_unat: "unat (octet i a AND 0xf0) = unat (octet i a) div 16 mod 16 * 16"
  using masked_nat [of "unat (octet i a)" 4 4] by (simp add: unsigned_and_eq mask_eq_exp_minus_1 push_bit_eq_mult)

definition v4_ranges :: "(nat \<times> nat) list" where
  "v4_ranges =
     [(0x00000000, 0x1000000), (0x0A000000, 0xB000000), (0x64400000, 0x64800000), (0x7F000000, 0x80000000), (0xA9FE0000, 0xA9FF0000),
      (0xAC100000, 0xAC200000), (0xC0000000, 0xC0000100), (0xC0000200, 0xC0000300), (0xC0586300, 0xC0586400), (0xC0A80000, 0xC0A90000),
      (0xC6120000, 0xC6140000), (0xC6336400, 0xC6336500), (0xCB007100, 0xCB007200), (0xE0000000, 0x100000000)]"

lemma pair_eq: "(m::nat) div k = p \<and> m mod k = q \<longleftrightarrow> m = k * p + q" if "q < k"
  using that by auto

lemma nibble_eq: "(m::nat) div 256 = p \<and> m mod 256 div 16 = q \<longleftrightarrow> m div 16 = 16 * p + q" if "q < 16"
proof -
  have "m mod 256 div 16 = m div 16 mod 16" using mod_mult2_eq [of m 16 16] by simp
  moreover have "m div 256 = m div 16 div 16" by (simp flip: div_mult2_eq)
  ultimately show ?thesis using pair_eq [OF that, of "m div 16" p] by simp
qed

lemma v4_tests:
  "octet 0 a = 127 \<longleftrightarrow> 0x7F000000 \<le> unat a \<and> unat a < 0x80000000"
  "octet 0 a AND 0xf0 = 0xe0 \<longleftrightarrow> 0xE0000000 \<le> unat a \<and> unat a < 0xF0000000"
  "octet 0 a = 169 \<and> octet 1 a = 254 \<longleftrightarrow> 0xA9FE0000 \<le> unat a \<and> unat a < 0xA9FF0000"
  "octet 0 a = 224 \<and> octet 1 a = 0 \<and> octet 2 a = 0 \<longleftrightarrow> 0xE0000000 \<le> unat a \<and> unat a < 0xE0000100"
  "octet 0 a = 10 \<longleftrightarrow> 0x0A000000 \<le> unat a \<and> unat a < 0xB000000"
  "octet 0 a = 172 \<and> octet 1 a AND 0xf0 = 16 \<longleftrightarrow> 0xAC100000 \<le> unat a \<and> unat a < 0xAC200000"
  "octet 0 a = 192 \<and> octet 1 a = 168 \<longleftrightarrow> 0xC0A80000 \<le> unat a \<and> unat a < 0xC0A90000"
proof -
  define n where "n = unat a"
  have n: "n < 2 ^ 32" using unsigned_less [of a] by (simp add: n_def)
  have n24: "n div 16777216 < 256" using n by (simp add: div_less_iff_less_mult)
  have o: "unat (octet 0 a) = n div 16777216" "unat (octet 1 a) = n div 65536 mod 256" "unat (octet 2 a) = n div 256 mod 256"
    using n24 by (simp_all add: octet_unat n_def)
  have d: "n div 16777216 = n div 65536 div 256" "n div 65536 = n div 256 div 256" by (simp_all flip: div_mult2_eq)
  have "octet 0 a = 127 \<longleftrightarrow> n div 16777216 = 127" by (simp add: word_eq_unat o)
  then show "octet 0 a = 127 \<longleftrightarrow> 0x7F000000 \<le> unat a \<and> unat a < 0x80000000" by (simp add: div_range n_def)
  have "octet 0 a = 10 \<longleftrightarrow> n div 16777216 = 10" by (simp add: word_eq_unat o)
  then show "octet 0 a = 10 \<longleftrightarrow> 0x0A000000 \<le> unat a \<and> unat a < 0xB000000" by (simp add: div_range n_def)
  have "octet 0 a AND 0xf0 = 0xe0 \<longleftrightarrow> n div 268435456 = 14"
    using n24 by (simp add: word_eq_unat nibble_unat o) (simp flip: div_mult2_eq)
  then show "octet 0 a AND 0xf0 = 0xe0 \<longleftrightarrow> 0xE0000000 \<le> unat a \<and> unat a < 0xF0000000" by (simp add: div_range n_def)
  have "octet 0 a = 169 \<and> octet 1 a = 254 \<longleftrightarrow> n div 65536 = 43518"
    using pair_eq [of 254 256 "n div 65536" 169] by (simp add: word_eq_unat o d(1) del: One_nat_def)
  then show "octet 0 a = 169 \<and> octet 1 a = 254 \<longleftrightarrow> 0xA9FE0000 \<le> unat a \<and> unat a < 0xA9FF0000" by (simp add: div_range n_def)
  have "octet 0 a = 192 \<and> octet 1 a = 168 \<longleftrightarrow> n div 65536 = 49320"
    using pair_eq [of 168 256 "n div 65536" 192] by (simp add: word_eq_unat o d(1) del: One_nat_def)
  then show "octet 0 a = 192 \<and> octet 1 a = 168 \<longleftrightarrow> 0xC0A80000 \<le> unat a \<and> unat a < 0xC0A90000" by (simp add: div_range n_def)
  have "octet 0 a = 172 \<and> octet 1 a AND 0xf0 = 16 \<longleftrightarrow> n div 65536 div 256 = 172 \<and> n div 65536 mod 256 div 16 = 1"
    by (auto simp add: word_eq_unat nibble_unat o d(1) simp del: One_nat_def)
  also have "\<dots> \<longleftrightarrow> n div 65536 div 16 = 2753" using nibble_eq [of 1 "n div 65536" 172] by simp
  finally show "octet 0 a = 172 \<and> octet 1 a AND 0xf0 = 16 \<longleftrightarrow> 0xAC100000 \<le> unat a \<and> unat a < 0xAC200000"
    by (simp add: div_range n_def flip: div_mult2_eq)
  have "octet 0 a = 224 \<and> octet 1 a = 0 \<and> octet 2 a = 0 \<longleftrightarrow> n div 256 = 14680064"
    using pair_eq [of 0 256 "n div 65536" 224] pair_eq [of 0 256 "n div 256" 57344] by (auto simp add: word_eq_unat o d simp del: One_nat_def)
  then show "octet 0 a = 224 \<and> octet 1 a = 0 \<and> octet 2 a = 0 \<longleftrightarrow> 0xE0000000 \<le> unat a \<and> unat a < 0xE0000100"
    by (simp add: div_range n_def)
qed

lemma in_prefix4: "Contains (Prefix4 p k) (V4 a) \<longleftrightarrow> unat a div 2 ^ (32 - k) = unat p div 2 ^ (32 - k)"
  unfolding Contains.simps xor_drop by (simp add: word_eq_unat unat_drop_bit_eq drop_bit_eq_div [where 'a = nat])

lemma v4_ranges_eq: "isUnsafe (V4 a) \<longleftrightarrow> (\<exists>(lo, hi) \<in> set v4_ranges. lo \<le> unat a \<and> unat a < hi)"
proof -
  have n: "unat a < 2 ^ 32" using unsigned_less [of a] by simp
  have ends: "a = 0 \<longleftrightarrow> unat a = 0" "a = 0xffffffff \<longleftrightarrow> unat a = 0xffffffff" by (simp_all add: word_eq_unat)
  have inside: "list_ex (\<lambda>p. Contains p (V4 a)) protectedPrefixes \<longleftrightarrow> unat a < 0x1000000 \<or> 0x64400000 \<le> unat a \<and> unat a < 0x64800000
      \<or> 0xC0000000 \<le> unat a \<and> unat a < 0xC0000100 \<or> 0xC0000200 \<le> unat a \<and> unat a < 0xC0000300 \<or> 0xC6120000 \<le> unat a \<and> unat a < 0xC6140000
      \<or> 0xC6336400 \<le> unat a \<and> unat a < 0xC6336500 \<or> 0xCB007100 \<le> unat a \<and> unat a < 0xCB007200 \<or> 0xC0586300 \<le> unat a \<and> unat a < 0xC0586400
      \<or> 0xF0000000 \<le> unat a \<and> unat a < 0x100000000"
    by (simp add: protectedPrefixes_def in_prefix4 div_range del: Contains.simps(1) div_eq_0_iff)
  show ?thesis unfolding isUnsafe_def IsProtectedAddress_def inside using n
    apply (simp add: address_defs v4_tests ends v4_ranges_def del: One_nat_def)
    apply (rule iffI; elim disjE conjE; simp)
    by linarith
qed

text \<open>The same for IPv6 addresses that carry no zone and no embedded IPv4 address.\<close>

definition v6_ranges :: "(nat \<times> nat) list" where
  "v6_ranges =
     [(0, 2), (0x64ff9b000000000000000000000000, 0x64ff9b000000000000000100000000),
      (0x64ff9b000100000000000000000000, 0x64ff9b000200000000000000000000),
      (0x1000000000000000000000000000000, 0x1000000000000010000000000000000),
      (0x20010000000000000000000000000000, 0x20010200000000000000000000000000),
      (0x20010db8000000000000000000000000, 0x20010db9000000000000000000000000),
      (0x20020000000000000000000000000000, 0x20030000000000000000000000000000),
      (0xfc000000000000000000000000000000, 0xfe000000000000000000000000000000),
      (0xfe800000000000000000000000000000, 0x100000000000000000000000000000000)]"

lemma in_prefix6: "Contains (Prefix6 p k) (V6 a []) \<longleftrightarrow> unat a div 2 ^ (128 - k) = unat p div 2 ^ (128 - k)"
  unfolding Contains.simps xor_drop by (simp add: word_eq_unat unat_drop_bit_eq drop_bit_eq_div [where 'a = nat])

lemma v6_tests:
  "drop_bit 120 a = 0xff \<longleftrightarrow> 0xff000000000000000000000000000000 \<le> unat a"
  "drop_bit 120 a AND 0xfe = 0xfc \<longleftrightarrow> 0xfc000000000000000000000000000000 \<le> unat a \<and> unat a < 0xfe000000000000000000000000000000"
  "u16 a AND 0xffc0 = 0xfe80 \<longleftrightarrow> 0xfe800000000000000000000000000000 \<le> unat a \<and> unat a < 0xfec00000000000000000000000000000"
  for a :: "128 word"
proof -
  define n where "n = unat a"
  have n: "n < 2 ^ 128" using unsigned_less [of a] by (simp add: n_def)
  have d: "unat (drop_bit k a) = n div 2 ^ k" for k by (simp add: unat_drop_bit_eq n_def drop_bit_eq_div [where 'a = nat])
  have "drop_bit 120 a = 0xff \<longleftrightarrow> n div 2 ^ 120 = 255" by (simp add: word_eq_unat d)
  then show "drop_bit 120 a = 0xff \<longleftrightarrow> 0xff000000000000000000000000000000 \<le> unat a" using n by (simp add: div_range n_def)
  have less: "n div 2 ^ 120 < 256" "n div 2 ^ 112 < 65536" using n by (simp_all add: div_less_iff_less_mult)
  have "unat (drop_bit 120 a AND 0xfe) = n div 2 ^ 120 div 2 mod 128 * 2"
    using masked_nat [of "n div 2 ^ 120" 1 7] by (simp add: unsigned_and_eq d mask_eq_exp_minus_1 push_bit_eq_mult)
  then have "drop_bit 120 a AND 0xfe = 0xfc \<longleftrightarrow> n div 2 ^ 121 = 126" using less by (simp add: word_eq_unat flip: div_mult2_eq)
  then show "drop_bit 120 a AND 0xfe = 0xfc \<longleftrightarrow> 0xfc000000000000000000000000000000 \<le> unat a \<and> unat a < 0xfe000000000000000000000000000000"
    by (simp add: div_range n_def)
  have "unat (u16 a AND 0xffc0) = n div 2 ^ 112 div 64 mod 1024 * 64"
    using masked_nat [of "n div 2 ^ 112" 6 10] by (simp add: u16_def unsigned_and_eq d mask_eq_exp_minus_1 push_bit_eq_mult)
  then have "u16 a AND 0xffc0 = 0xfe80 \<longleftrightarrow> n div 2 ^ 118 = 1018" using less by (simp add: word_eq_unat flip: div_mult2_eq)
  then show "u16 a AND 0xffc0 = 0xfe80 \<longleftrightarrow> 0xfe800000000000000000000000000000 \<le> unat a \<and> unat a < 0xfec00000000000000000000000000000"
    by (simp add: div_range n_def)
qed

lemma v6_multicast: "u16 a AND 0xff0f = 0xff02 \<or> u16 a AND 0xff0f = 0xff01 \<Longrightarrow> drop_bit 120 a = 0xff"
proof -
  assume "u16 a AND 0xff0f = 0xff02 \<or> u16 a AND 0xff0f = 0xff01"
  then have "(u16 a AND 0xff0f) AND 0xff00 = 0xff00" by auto
  then have "u16 a AND 0xff00 = 0xff00" by (simp add: and.assoc)
  then have "unat (u16 a) AND push_bit 8 (mask 8) = 0xff00" by (simp add: word_eq_unat unsigned_and_eq mask_eq_exp_minus_1 push_bit_eq_mult)
  then have "unat a div 2 ^ 112 div 256 mod 256 = 255"
    unfolding masked_nat by (simp add: u16_def unat_drop_bit_eq drop_bit_eq_div [where 'a = nat])
  moreover have "unat a div 2 ^ 112 div 256 = unat a div 2 ^ 120" by (simp flip: div_mult2_eq)
  moreover have "unat a div 2 ^ 120 < 256" using unsigned_less [of a] by (simp add: div_less_iff_less_mult)
  ultimately show ?thesis by (simp add: word_eq_unat unat_drop_bit_eq drop_bit_eq_div [where 'a = nat])
qed

lemma v6_ranges_eq:
  assumes "\<not> mapped a"
  shows "isUnsafe (V6 a []) \<longleftrightarrow> (\<exists>(lo, hi) \<in> set v6_ranges. lo \<le> unat a \<and> unat a < hi)"
proof -
  have n: "unat a < 2 ^ 128" using unsigned_less [of a] by simp
  have ends: "a = 0 \<longleftrightarrow> unat a = 0" "a = 1 \<longleftrightarrow> unat a = 1" by (simp_all add: word_eq_unat)
  have inside: "list_ex (\<lambda>p. Contains p (V6 a [])) protectedPrefixes \<longleftrightarrow>
      0x64ff9b000000000000000000000000 \<le> unat a \<and> unat a < 0x64ff9b000000000000000100000000
      \<or> 0x64ff9b000100000000000000000000 \<le> unat a \<and> unat a < 0x64ff9b000200000000000000000000
      \<or> 0x1000000000000000000000000000000 \<le> unat a \<and> unat a < 0x1000000000000010000000000000000
      \<or> 0x20010000000000000000000000000000 \<le> unat a \<and> unat a < 0x20010200000000000000000000000000
      \<or> 0x20010db8000000000000000000000000 \<le> unat a \<and> unat a < 0x20010db9000000000000000000000000
      \<or> 0x20020000000000000000000000000000 \<le> unat a \<and> unat a < 0x20030000000000000000000000000000
      \<or> 0xfec00000000000000000000000000000 \<le> unat a \<and> unat a < 0xff000000000000000000000000000000"
    by (simp add: protectedPrefixes_def in_prefix6 div_range del: Contains.simps(2) div_eq_0_iff)
  show ?thesis unfolding isUnsafe_def IsProtectedAddress_def inside using n v6_multicast [of a] assms
    apply (simp add: address_defs v6_tests ends v6_ranges_def del: One_nat_def)
    apply (rule iffI; elim disjE conjE; simp)
    by linarith+
qed


text \<open>The addresses the guard refuses are exactly those of the special-purpose ranges listed in \<open>v4_ranges\<close> and
  \<open>v6_ranges\<close>: the bit tests of the address classes and the prefix table together decide
  membership in these intervals of the address as a number.\<close>

theorem protected_ranges:
  "(isUnsafe (V4 a) \<longleftrightarrow> (\<exists>(lo, hi) \<in> set v4_ranges. lo \<le> unat a \<and> unat a < hi))
   \<and> (\<not> mapped b \<longrightarrow> (isUnsafe (V6 b []) \<longleftrightarrow> (\<exists>(lo, hi) \<in> set v6_ranges. lo \<le> unat b \<and> unat b < hi)))"
  using v4_ranges_eq v6_ranges_eq by blast

section \<open>Connections\<close>

lemma Unmap_idem [simp]: "Unmap (Unmap x) = Unmap x"
  by (cases x) auto

lemma lookup_safe: "lookup_host g k host = Inr as \<Longrightarrow> a \<in> set as \<Longrightarrow> \<not> isUnsafe a \<and> Unmap a = a"
  by (auto simp: lookup_host_def list_ex_iff split: if_splits option.splits)

lemma first_dial_tries: "x \<in> set (fst (first_dial dial port as)) \<Longrightarrow> fst x \<in> set as \<and> snd x = port"
  by (induction dial port as rule: first_dial.induct) (auto split: if_splits prod.splits)

lemma dial_safe:
  assumes "(a, port) \<in> set (fst (dialContext g k dial address))"
  shows "\<not> isUnsafe a \<and> Unmap a = a \<and> port \<in> set (g_ports g)"
  using assms first_dial_tries [of "(a, port)" dial] lookup_safe [of g k]
  by (fastforce simp: dialContext_def split: option.splits prod.splits if_splits sum.splits)

text \<open>The address classes, which are the only tests that see an address with a zone.\<close>

definition v6_class_ranges :: "(nat \<times> nat) list" where
  "v6_class_ranges =
     [(1, 2), (0xfc000000000000000000000000000000, 0xfe000000000000000000000000000000),
      (0xfe800000000000000000000000000000, 0xfec00000000000000000000000000000),
      (0xff000000000000000000000000000000, 0x100000000000000000000000000000000)]"

lemma v6_class_safe:
  assumes "\<not> isUnsafe (V6 x z)" and "\<not> mapped x"
  shows "\<not> (\<exists>(lo, hi) \<in> set v6_class_ranges. lo \<le> unat x \<and> unat x < hi)"
proof -
  have one: "x = 1 \<longleftrightarrow> unat x = 1" by (simp add: word_eq_unat)
  from assms have "\<not> x = 1" "\<not> drop_bit 120 x AND 0xfe = 0xfc" "\<not> u16 x AND 0xffc0 = 0xfe80" "\<not> drop_bit 120 x = 0xff"
    by (simp_all add: isUnsafe_def IsProtectedAddress_def address_defs)
  then show ?thesis unfolding v6_tests one by (auto simp: v6_class_ranges_def)
qed

text \<open>C13: Whatever the resolver answers, and however its answers change between the check of a URL and the
  connection (a rebinding name server), every connection a guarded client attempts goes to an allowed port of an IPv4 address or an IPv6 address
  without a zone that lies outside the protected ranges, or of an IPv6 address with a zone that is neither loopback nor private, link-local or multicast
  (with a zone the table of protected prefixes is not consulted).\<close>

theorem guarded_connections_safe:
  assumes "(a, port) \<in> set (fst (RoundTrip g k dial url address))"
  shows "port \<in> set (g_ports g)
    \<and> (case a of NoAddr \<Rightarrow> False
       | V4 x \<Rightarrow> \<not> (\<exists>(lo, hi) \<in> set v4_ranges. lo \<le> unat x \<and> unat x < hi)
       | V6 x z \<Rightarrow> \<not> mapped x \<and> \<not> (\<exists>(lo, hi) \<in> set (if z = [] then v6_ranges else v6_class_ranges). lo \<le> unat x \<and> unat x < hi))"
proof -
  from assms have "(a, port) \<in> set (fst (dialContext g (Suc k) dial address))" by (auto simp: RoundTrip_def split: sum.splits)
  from dial_safe [OF this] have safe: "\<not> isUnsafe a" "Unmap a = a" "port \<in> set (g_ports g)" by simp_all
  show ?thesis
  proof (cases a)
    case (V6 x z)
    with safe(2) have "\<not> mapped x" by (auto split: if_splits)
    with V6 safe v6_ranges_eq [of x] v6_class_safe [of x z] show ?thesis by (cases "z = []") simp_all
  next
    case (V4 x)
    with safe v4_ranges_eq [of x] show ?thesis by simp
  next
    case NoAddr
    with safe(1) show ?thesis by (simp add: isUnsafe_def IsProtectedAddress_def)
  qed
qed

text \<open>C34: A zone defeats the guard. An IPv6 literal with a zone is compared with no prefix, and the unspecified address with
  a zone is not the unspecified address: the guard accepts \<open>::\<close> (the host itself) and \<open>64:ff9b::127.0.0.1\<close> (the translated
  loopback address), which it protects without a zone, and dials them.\<close>

theorem zoned_address_bypasses:
  assumes "g_parse_url g (trim_space url) = Some u" and "u_scheme u = ''http''" and "\<not> u_has_user u"
    and "u_fragment u = []" and "''80'' \<in> set (g_ports g)" and "g_parse_addr g (trim_brackets (Hostname u)) = Some (V6 a z)" and "z \<noteq> []"
    and "a = 0 \<or> a = 0x64ff9b00000000000000007f000001" and "Hostname u \<noteq> []" and "Port u = []"
    and "normalized_host (Hostname u) \<noteq> ''localhost''" and "\<not> has_suffix (normalized_host (Hostname u)) ''.localhost''"
  shows "isUnsafe (V6 a []) \<and> Validate (Some g) k url = Inr (u, [V6 a z])
    \<and> (\<forall>dial. (V6 a z, ''80'') \<in> set (fst (RoundTrip g k dial url (Some (Hostname u, ''80'')))))"
proof -
  have unmapped: "\<not> mapped a" using assms(8) by (auto simp: mapped_def)
  have protected: "isUnsafe (V6 a [])" unfolding v6_ranges_eq [OF unmapped] by (rule disjE [OF assms(8)]) (simp_all add: v6_ranges_def)
  have "\<not> isUnsafe (V6 a z)" using assms(7,8) unmapped
    by (auto simp: isUnsafe_def IsProtectedAddress_def address_defs protectedPrefixes_def u16_def)
  with unmapped assms(6,11,12) have look: "lookup_host g k' (Hostname u) = Inr [V6 a z]" for k' by (simp add: lookup_host_def)
  then have val: "Validate (Some g) k url = Inr (u, [V6 a z])"
    using assms by (simp add: Validate_def normalizePort_def)
  then show ?thesis using assms(5) look protected by (simp add: RoundTrip_def dialContext_def)
qed

section \<open>Reading\<close>

text \<open>The bytes the source hands over during the reads.\<close>

fun pulled :: "(nat \<Rightarrow> int \<Rightarrow> string \<times> read_error option) \<Rightarrow> int list \<Rightarrow> boundedReadCloser \<Rightarrow> int" where
  "pulled source [] r = 0"
| "pulled source (len # lens) r =
     (if br_exceeded r \<or> len = 0 then 0 else int (length (fst (source (length lens) (read_size len r)))))
     + (case bounded_read (source (length lens)) len r of Some (_, None, r') \<Rightarrow> pulled source lens r' | _ \<Rightarrow> 0)"

lemma pulled_nonneg: "0 \<le> pulled source lens r"
  by (induction source lens r rule: pulled.induct) (auto split: prod.splits option.splits)

lemma wrap64_small: "0 \<le> x \<Longrightarrow> x < 2 ^ 63 \<Longrightarrow> wrap64 x = x"
  by (simp add: wrap64_def)

lemma bounded_read_returns:
  assumes "0 \<le> br_remaining r" and "br_remaining r < 2 ^ 63 - 1" and "0 \<le> len"
  shows "\<exists>x. bounded_read source len r = Some x"
proof -
  have "0 \<le> read_size len r" using assms wrap64_small [of "br_remaining r + 1"] by (simp add: read_size_def Let_def)
  then show ?thesis by (auto simp: bounded_read_def Let_def split: prod.splits)
qed

lemma bounded_read_step:
  assumes "bounded_read source len r = Some (data, er, r')" and "0 \<le> br_remaining r" and "\<not> br_exceeded r" and "\<And>n. snd (source n) \<noteq> Some ResponseTooLarge"
  shows "0 \<le> br_remaining r'" and "int (length data) \<le> br_remaining r" and "br_remaining r' \<le> br_remaining r"
    and "er = Some ResponseTooLarge \<longleftrightarrow> len \<noteq> 0 \<and> br_remaining r < int (length (fst (source (read_size len r))))"
    and "er = None \<Longrightarrow> \<not> br_exceeded r' \<and> br_remaining r' = br_remaining r - int (length data)
      \<and> int (length data) = (if len = 0 then 0 else int (length (fst (source (read_size len r)))))"
  using assms(1-3) assms(4) [of "read_size len r"] by (auto simp: bounded_read_def Let_def split: if_splits prod.splits)

lemma read_all_bounded:
  assumes "0 \<le> br_remaining r" and "br_remaining r < 2 ^ 63 - 1" and "\<not> br_exceeded r"
    and "\<And>k n. snd (source k n) \<noteq> Some ResponseTooLarge" and "list_all (\<lambda>len. 0 \<le> len) lens"
  shows "\<exists>data er. read_all source lens r = Some (data, er) \<and> int (length data) \<le> br_remaining r
     \<and> (er = Some ResponseTooLarge \<longleftrightarrow> br_remaining r < pulled source lens r)"
  using assms
proof (induction lens arbitrary: r)
  case (Cons len lens)
  have "0 \<le> len" using Cons.prems(5) by simp
  from bounded_read_returns [OF Cons.prems(1,2) this, of "source (length lens)"] obtain d e r'
    where step: "bounded_read (source (length lens)) len r = Some (d, e, r')" by auto
  note step' = bounded_read_step [OF step Cons.prems(1,3,4)]
  show ?case
  proof (cases e)
    case None
    have "br_remaining r' < 2 ^ 63 - 1" using step'(3) Cons.prems(2) by simp
    with step'(1,5) None Cons.prems(4,5) Cons.IH [of r'] obtain rest er where
      "read_all source lens r' = Some (rest, er)" "int (length rest) \<le> br_remaining r'"
      "er = Some ResponseTooLarge \<longleftrightarrow> br_remaining r' < pulled source lens r'" by auto
    with None step step'(5) [OF None] Cons.prems(3) show ?thesis by auto
  next
    case (Some x)
    with step step' Cons.prems(1,3) show ?thesis by auto
  qed
qed simp

text \<open>C33: However a response arrives in pieces, a client with a limit below the largest int64 reads no more than that number of bytes of it, without
  a panic, and it reports the response as too large precisely when more than that many bytes have arrived: a response of exactly the limit
  is not refused.\<close>

theorem bounded_response:
  assumes "\<And>k n. snd (source k n) \<noteq> Some ResponseTooLarge" and "list_all (\<lambda>len. 0 \<le> len) lens" and "maxBytes < 2 ^ 63 - 1"
    and "limit = (if maxBytes \<le> 0 then 65536 else maxBytes)" and "r = snd (ClientWithTransport timeout maxBytes)"
  shows "\<exists>data er. read_all source lens r = Some (data, er) \<and> int (length data) \<le> limit
     \<and> (er = Some ResponseTooLarge \<longleftrightarrow> limit < pulled source lens r)"
proof -
  have r: "br_remaining r = limit" "\<not> br_exceeded r" "0 \<le> br_remaining r" "br_remaining r < 2 ^ 63 - 1"
    using assms(3) by (simp_all add: assms(4,5) ClientWithTransport_def)
  from read_all_bounded [OF r(3,4,2) assms(1,2)] show ?thesis by (simp add: r(1))
qed

text \<open>With the largest limit the sum wraps to a negative size, and the first read panics.\<close>

lemma largest_limit_panics: "0 < len \<Longrightarrow> bounded_read source len (snd (ClientWithTransport timeout (2 ^ 63 - 1))) = None"
  by (simp add: bounded_read_def ClientWithTransport_def read_size_def wrap64_def)

section \<open>Witnesses\<close>

definition sample_target :: "string \<Rightarrow> ParsedURL" where
  "sample_target s = \<lparr>u_scheme = ''http'', u_host = s, u_has_user = False, u_fragment = [], u_opaque = [], u_path = [], u_raw_path = [], u_raw_query = []\<rparr>"

definition sample_guard :: Guard where
  "sample_guard = New [] (\<lambda>s. Some (sample_target s))
     (\<lambda>s. if s = ''::%eth0'' then Some (V6 0 ''eth0'') else if s = ''192.0.9.1'' then Some (V4 0xC0000901) else None) (\<lambda>k s. None)"

lemma sample_guard_simps [simp]: "g_ports sample_guard = [''80'', ''443'']" "g_parse_url sample_guard s = Some (sample_target s)"
  "g_parse_addr sample_guard s = (if s = ''::%eth0'' then Some (V6 0 ''eth0'') else if s = ''192.0.9.1'' then Some (V4 0xC0000901) else None)"
  "u_scheme (sample_target s) = ''http''" "\<not> u_has_user (sample_target s)" "u_fragment (sample_target s) = []" "u_host (sample_target s) = s"
  by (simp_all add: sample_guard_def New_def sample_target_def)

theorem protected_ranges_witness:
  "isUnsafe (V4 0x7F000001) \<and> \<not> isUnsafe (V4 0x08080808) \<and> isUnsafe (V6 1 [])"
proof -
  have "\<not> mapped 1" by (simp add: mapped_def)
  then show ?thesis
    using protected_ranges [of "0x7F000001" 1] protected_ranges [of "0x08080808" 1] by (simp add: v4_ranges_def v6_ranges_def)
qed

lemma sample_hosts:
  "trim_space ''192.0.9.1'' = ''192.0.9.1''" "trim_space ''[::%eth0]'' = ''[::%eth0]''"
  "normalized_host ''192.0.9.1'' = ''192.0.9.1''" "normalized_host ''::%eth0'' = ''::%eth0''"
  "trim_brackets ''192.0.9.1'' = ''192.0.9.1''" "trim_brackets ''::%eth0'' = ''::%eth0''"
  by (simp_all add: text_eval normalized_host_def to_lower_def lower_rune_def encode_rune_def trim_brackets_def char_of_eq_iff)

lemma sample_targets: "Hostname (sample_target ''[::%eth0]'') = ''::%eth0''" "Port (sample_target ''[::%eth0]'') = []"
  "Hostname (sample_target ''192.0.9.1'') = ''192.0.9.1''" "Port (sample_target ''192.0.9.1'') = []"
  by (simp_all add: Hostname_def Port_def split_host_port_def unbracket_def is_digit_char_def byte_def has_suffix_def)

theorem guarded_connections_safe_witness:
  "(V4 0xC0000901, ''80'') \<in> set (fst (RoundTrip sample_guard 0 (\<lambda>_ _. True) ''192.0.9.1'' (Some (''192.0.9.1'', ''80''))))
   \<and> \<not> (\<exists>(lo, hi) \<in> set v4_ranges. lo \<le> unat (0xC0000901 :: 32 word) \<and> unat (0xC0000901 :: 32 word) < hi)"
proof -
  have safe: "\<not> isUnsafe (V4 0xC0000901)" by (simp add: v4_ranges_eq v4_ranges_def)
  have "lookup_host sample_guard k ''192.0.9.1'' = Inr [V4 0xC0000901]" for k
    using safe by (simp add: lookup_host_def sample_hosts has_suffix_def)
  then have "(V4 0xC0000901, ''80'') \<in> set (fst (RoundTrip sample_guard 0 (\<lambda>_ _. True) ''192.0.9.1'' (Some (''192.0.9.1'', ''80''))))"
    by (simp add: RoundTrip_def Validate_def sample_hosts sample_targets normalizePort_def dialContext_def)
  with guarded_connections_safe [OF this] show ?thesis by simp
qed

theorem zoned_address_bypasses_witness:
  "isUnsafe (V6 0 []) \<and> Validate (Some sample_guard) 0 ''[::%eth0]'' = Inr (sample_target ''[::%eth0]'', [V6 0 ''eth0''])
   \<and> (V6 0 ''eth0'', ''80'') \<in> set (fst (RoundTrip sample_guard 0 (\<lambda>_ _. True) ''[::%eth0]'' (Some (''::%eth0'', ''80''))))"
  using zoned_address_bypasses [where k = 0 and g = sample_guard and url = "''[::%eth0]''" and u = "sample_target ''[::%eth0]''" and a = 0 and z = "''eth0''"]
  by (simp add: sample_targets sample_hosts has_suffix_def)

theorem bounded_response_witness:
  "read_all (\<lambda>k n. (replicate (nat (min n 3)) CHR ''x'', None)) [10, 10] (snd (ClientWithTransport 0 5)) = Some (''xxxxx'', Some ResponseTooLarge)
   \<and> 5 < pulled (\<lambda>k n. (replicate (nat (min n 3)) CHR ''x'', None)) [10, 10] (snd (ClientWithTransport 0 5))"
proof -
  let ?s = "\<lambda>k n. (replicate (nat (min n 3)) CHR ''x'', None)"
  have run: "read_all ?s [10, 10] (snd (ClientWithTransport 0 5)) = Some (''xxxxx'', Some ResponseTooLarge)" by code_simp
  from bounded_response [of ?s "[10, 10]" 5 5 "snd (ClientWithTransport 0 5)" 0] run show ?thesis by simp
qed

end
