(* ===== verification/RemoteInputs.thy ===== *)
theory RemoteInputs
  imports Complex_Main JsonText RemoteStore InputSpool Netguard
begin

text \<open>
  \<^verbatim>\<open>internal/remote/inputs.go\<close> and \<^verbatim>\<open>input_error.go\<close>: the media of a remote task are uploaded to its node and the body of the
  generation request is built from the references. The code runs between other workers: every call of the store is a step
  of its own, before which others may have changed the database, and the clock and the answers of the outside world
  depend on when a call is made.
\<close>

section \<open>The world of a remote worker\<close>

record HTTPError =
  he_StatusCode :: int
  he_Code :: string
  he_Message :: string

text \<open>An error of the node client: the HTTP error it wraps, if any, and whether it is an invalid response.\<close>

record ClientError =
  ce_http :: "HTTPError option"
  ce_invalid_response :: bool

text \<open>The duration of an asset is a float64; the sums that are formed lie between 2 and 30.\<close>

datatype float64 = NotANumber | Infinite bool | Finite rat

record Asset =
  as_ID :: string
  as_URL :: string
  as_Kind :: string
  as_Filename :: string
  as_Duration :: float64
  as_Width :: int
  as_Height :: int
  as_Size :: int

datatype stream_end = AtEOF | BrokenTooLarge | Broken

record local_file =
  lf_root_ok :: bool
  lf_open_ok :: bool
  lf_regular_size :: "int option"
  lf_checked :: string
  lf_read_ok :: bool
  lf_seek_ok :: bool
  lf_content :: string
  lf_end :: stream_end

datatype fetch = NoRequest | FetchFailed | Fetched int int string stream_end

text \<open>
  What a worker does not decide itself, as a function of the number of the call: the clock and options of the store, what the
  others do to the database before the call, whether the context is done, files and downloads, and the node's client.
\<close>

record RemoteWorld =
  w_env :: "nat \<Rightarrow> StoreEnv"
  w_others :: "nat \<Rightarrow> db \<Rightarrow> db"
  w_done :: "nat \<Rightarrow> bool"
  w_inputs :: bool
  w_root :: string
  w_json_size :: "GenerationRequest \<Rightarrow> nat"
  w_guard :: Guard
  w_file :: "nat \<Rightarrow> string \<Rightarrow> local_file"
  w_fetch :: "nat \<Rightarrow> string \<Rightarrow> fetch"
  w_decode_asset :: "string \<Rightarrow> Asset option"
  w_encode_asset :: "Asset \<Rightarrow> string"
  w_upload :: "nat \<Rightarrow> string \<Rightarrow> string \<Rightarrow> nat list \<times> (ClientError + Asset)"

record remote_state =
  rs_db :: db
  rs_calls :: nat
  rs_sent :: "(string \<times> string) list"

definition on_store :: "RemoteWorld \<Rightarrow> (StoreEnv \<Rightarrow> 'a op) \<Rightarrow> ('e, remote_state, err + 'a) tx" where
  "on_store w f = (\<lambda>s.
     let n = rs_calls s; d = w_others w n (rs_db s) in
     if w_done w n then (Inr (Inl (ErrText ''context'')), s\<lparr>rs_db := d, rs_calls := Suc n\<rparr>)
     else let (r, d') = f (w_env w n) d in (Inr r, s\<lparr>rs_db := d', rs_calls := Suc n\<rparr>))"

definition ask :: "(nat \<Rightarrow> 'a) \<Rightarrow> ('e, remote_state, 'a) tx" where
  "ask f = (\<lambda>s. (Inr (f (rs_calls s)), s\<lparr>rs_calls := Suc (rs_calls s)\<rparr>))"

section \<open>Errors\<close>

record inputError =
  ie_Code :: string
  ie_Source :: string
  ie_Stage :: string
  ie_Reason :: string
  ie_Message :: string
  ie_ContentIndex :: int
  ie_ContentType :: string
  ie_Role :: string
  ie_HTTPStatus :: int
  ie_invalid :: bool
  ie_http :: "HTTPError option"

text \<open>The label of the source, and the message of the error; texts are tags.\<close>

definition source_label :: "string \<Rightarrow> string" where
  "source_label s =
     (if s = ''object_storage'' then ''object storage'' else if s = ''media_url'' then ''media URL'' else if s = ''local_spool'' then ''local spool''
      else if s = ''data_uri'' then ''inline media'' else if s = ''upstream'' then ''upstream tk2sd'' else if s = ''proxy_store'' then ''Proxy records''
      else ''Proxy'')"

definition input_error_text :: "inputError \<Rightarrow> string" where
  "input_error_text e =
     source_label (ie_Source e) @ '': '' @ ie_Message e
     @ (if ie_HTTPStatus e \<noteq> 0 then '' (HTTP '' @ format_int (ie_HTTPStatus e) @ '')'' else [])
     @ (if ie_ContentIndex e \<ge> 0 then ''; content['' @ format_int (ie_ContentIndex e) @ ''] '' @ ie_ContentType e else [])"

definition inputFailure :: "string \<Rightarrow> string \<Rightarrow> string \<Rightarrow> string \<Rightarrow> string \<Rightarrow> bool \<Rightarrow> HTTPError option \<Rightarrow> inputError" where
  "inputFailure code source stage reason message invalid http =
     \<lparr>ie_Code = code, ie_Source = source, ie_Stage = stage, ie_Reason = reason, ie_Message = message, ie_ContentIndex = -1,
      ie_ContentType = [], ie_Role = [], ie_HTTPStatus = 0, ie_invalid = invalid, ie_http = http\<rparr>"

definition invalidInput :: "string \<Rightarrow> string \<Rightarrow> inputError" where
  "invalidInput stage reason =
     (let code =
        (if stage = ''request_validate'' then ''tk2sd_input_request_invalid''
         else if stage = ''source_validate'' \<or> stage = ''source_open'' then ''tk2sd_input_source_invalid''
         else if stage = ''local_file'' then ''tk2sd_input_local_file_invalid''
         else if stage = ''media_detect'' \<or> stage = ''media_validate'' \<or> stage = ''asset_validate'' then ''tk2sd_input_media_invalid''
         else if stage = ''integrity_check'' then ''tk2sd_input_integrity_mismatch'' else ''tk2sd_input_invalid'')
      in inputFailure code [] stage reason reason True None)"

definition known_kind :: "string \<Rightarrow> string" where
  "known_kind k = (if k \<in> {[], ''text'', ''image_url'', ''video_url'', ''audio_url''} then k else ''unknown'')"

definition known_role :: "string \<Rightarrow> string" where
  "known_role r = (if r \<in> {[], ''first_frame'', ''reference_image'', ''reference_video'', ''reference_audio''} then r else ''unknown'')"

definition withInput :: "inputError \<Rightarrow> nat \<Rightarrow> string \<Rightarrow> string \<Rightarrow> string \<Rightarrow> inputError" where
  "withInput e index kind role source =
     e\<lparr>ie_ContentIndex := int index, ie_ContentType := known_kind kind, ie_Role := known_role role,
       ie_Source := (if ie_Source e = [] then source else ie_Source e)\<rparr>"

definition rejected_http :: "HTTPError option \<Rightarrow> bool" where
  "rejected_http h = (case h of None \<Rightarrow> False | Some e \<Rightarrow> he_StatusCode e \<in> {400, 413, 422})"

definition uploadFailure :: "ClientError \<Rightarrow> inputError" where
  "uploadFailure e =
     (let detail = (inputFailure ''tk2sd_asset_upload_unavailable'' ''upstream'' ''asset_upload'' ''request_failed'' ''request_failed'' False (ce_http e))
                     \<lparr>ie_HTTPStatus := (case ce_http e of None \<Rightarrow> 0 | Some h \<Rightarrow> he_StatusCode h)\<rparr> in
      if rejected_http (ce_http e)
      then detail\<lparr>ie_Code := ''tk2sd_asset_upload_rejected'', ie_Reason := ''http_rejected'', ie_Message := ''http_rejected''\<rparr>
      else if ce_invalid_response e
      then detail\<lparr>ie_Code := ''tk2sd_asset_response_invalid'', ie_Reason := ''invalid_response'', ie_Message := ''invalid_response''\<rparr>
      else detail)"

section \<open>Validation\<close>

definition validRole :: "string \<Rightarrow> string \<Rightarrow> bool" where
  "validRole kind role \<longleftrightarrow>
     kind = ''image_url'' \<and> (role = ''first_frame'' \<or> role = ''reference_image'')
     \<or> kind = ''video_url'' \<and> role = ''reference_video'' \<or> kind = ''audio_url'' \<and> role = ''reference_audio''"

definition inputLimit :: "string \<Rightarrow> int" where
  "inputLimit kind = (if kind = ''image_url'' then 30 * 2 ^ 20 else if kind = ''video_url'' then 50 * 2 ^ 20
     else if kind = ''audio_url'' then 15 * 2 ^ 20 else 0)"

definition normalizeMIME :: "string \<Rightarrow> string" where
  "normalizeMIME s = (if s = ''image/jpg'' then ''image/jpeg'' else if s = ''audio/mp3'' then ''audio/mpeg''
     else if s = ''audio/x-wav'' then ''audio/wav'' else s)"

definition detectMedia :: "string \<Rightarrow> string \<times> string" where
  "detectMedia b =
     (let n = length b in
      if n \<ge> 8 \<and> bytes_at 0 png_magic b then (''image/png'', ''.png'')
      else if n \<ge> 3 \<and> byte_at b 0 = 255 \<and> byte_at b 1 = 216 \<and> byte_at b 2 = 255 then (''image/jpeg'', ''.jpg'')
      else if n \<ge> 12 \<and> bytes_at 0 ''RIFF'' b \<and> bytes_at 8 ''WEBP'' b then (''image/webp'', ''.webp'')
      else if n \<ge> 12 \<and> bytes_at 0 ''RIFF'' b \<and> bytes_at 8 ''WAVE'' b then (''audio/wav'', ''.wav'')
      else if n \<ge> 12 \<and> bytes_at 4 ''ftyp'' b then (''video/mp4'', ''.mp4'')
      else if n \<ge> 3 \<and> bytes_at 0 ''ID3'' b then (''audio/mpeg'', ''.mp3'')
      else if n \<ge> 2 \<and> byte_at b 0 = 255 \<and> byte_at b 1 \<ge> 224 then (''audio/mpeg'', ''.mp3'')
      else ([], []))"

definition asset_kind :: "string \<Rightarrow> string" where
  "asset_kind kind = trim_suffix kind ''_url''"

definition valid_asset_id :: "string \<Rightarrow> bool" where
  "valid_asset_id i \<longleftrightarrow> length i = 32 \<and> list_all is_hex i \<and> lower_hex i = i"

definition validateAsset :: "Asset \<Rightarrow> string \<Rightarrow> inputError option" where
  "validateAsset a kind =
     (if \<not> valid_asset_id (as_ID a) \<or> as_URL a \<noteq> ''asset://'' @ as_ID a \<or> as_Kind a \<noteq> asset_kind kind \<or> as_Size a \<le> 0 \<or> as_Size a > inputLimit kind
      then Some (invalidInput ''asset_validate'' ''invalid_asset_metadata'')
      else if as_Kind a \<noteq> ''audio'' \<and> (as_Width a \<le> 0 \<or> as_Height a \<le> 0) then Some (invalidInput ''asset_validate'' ''invalid_dimensions'')
      else if as_Kind a = ''image'' \<and> as_Duration a \<noteq> Finite 0 then Some (invalidInput ''asset_validate'' ''invalid_image_duration'')
      else if as_Kind a \<noteq> ''image'' \<and> (case as_Duration a of Finite q \<Rightarrow> q < 2 \<or> q > 15 | _ \<Rightarrow> True)
      then Some (invalidInput ''asset_validate'' ''invalid_media_duration'')
      else None)"

text \<open>The addition of two positive float64 of at least 1: the exact sum rounded to 53 bits, ties to even.\<close>

fun log2_floor :: "nat \<Rightarrow> nat" where
  "log2_floor n = (if n < 2 then 0 else Suc (log2_floor (n div 2)))"

declare log2_floor.simps [simp del]

definition round_even :: "rat \<Rightarrow> int" where
  "round_even x = (let f = \<lfloor>x\<rfloor>; r = x - of_int f in if r < 1 / 2 then f else if r > 1 / 2 then f + 1 else if even f then f else f + 1)"

definition add64 :: "rat \<Rightarrow> rat \<Rightarrow> rat" where
  "add64 x y = (let z = x + y; ulp = 2 ^ log2_floor (nat \<lfloor>z\<rfloor>) / 2 ^ 52 in of_int (round_even (z / ulp)) * ulp)"

definition bad_text :: "GenerationContent \<Rightarrow> bool" where
  "bad_text c \<longleftrightarrow> trim_space (gc_text c) = [] \<or> rune_count (gc_text c) > 14000 \<or> gc_role c \<noteq> []
     \<or> gc_image_url c \<noteq> None \<or> gc_video_url c \<noteq> None \<or> gc_audio_url c \<noteq> None"

definition media_refs :: "GenerationContent \<Rightarrow> nat" where
  "media_refs c = length (filter (\<lambda>r. r \<noteq> None) [gc_image_url c, gc_video_url c, gc_audio_url c])"

definition check_item :: "nat \<Rightarrow> GenerationContent \<Rightarrow> inputError option" where
  "check_item i c =
     (if gc_type c = ''text'' then
        (if bad_text c then Some (withInput (invalidInput ''request_validate'' ''invalid_text'') i (gc_type c) (gc_role c) ''proxy'') else None)
      else if media_refs c \<noteq> 1 \<or> Media c = None \<or> gc_text c \<noteq> [] \<or> \<not> validRole (gc_type c) (gc_role c)
      then Some (withInput (invalidInput ''request_validate'' ''invalid_media_reference'') i (gc_type c) (gc_role c) ''proxy'')
      else None)"

fun check_items :: "nat \<Rightarrow> GenerationContent list \<Rightarrow> inputError option" where
  "check_items i [] = None"
| "check_items i (c # cs) = (case check_item i c of Some e \<Rightarrow> Some e | None \<Rightarrow> check_items (Suc i) cs)"

definition count_type :: "string \<Rightarrow> GenerationContent list \<Rightarrow> nat" where
  "count_type k cs = length (filter (\<lambda>c. gc_type c = k) cs)"

definition first_frames :: "GenerationContent list \<Rightarrow> nat" where
  "first_frames cs = length (filter (\<lambda>c. gc_type c \<noteq> ''text'' \<and> gc_role c = ''first_frame'') cs)"

definition media_count :: "GenerationContent list \<Rightarrow> nat" where
  "media_count cs = count_type ''image_url'' cs + count_type ''video_url'' cs + count_type ''audio_url'' cs"

definition check_remote_request :: "string \<Rightarrow> GenerationRequest \<Rightarrow> inputError option" where
  "check_remote_request model r =
     (let cs = gr_content r in
      if gr_model r \<noteq> model \<or> \<not> ValidModelID (gr_model r) then Some (invalidInput ''request_validate'' ''invalid_model'')
      else if gr_duration r < 4 \<or> gr_duration r > 15 then Some (invalidInput ''request_validate'' ''invalid_duration'')
      else if length cs < 1 \<or> length cs > 13 then Some (invalidInput ''request_validate'' ''invalid_content_count'')
      else case check_items 0 cs of Some e \<Rightarrow> Some e | None \<Rightarrow>
        if count_type ''text'' cs \<noteq> 1 \<or> (first_frames cs > 0 \<and> (first_frames cs \<noteq> 1 \<or> media_count cs \<noteq> 1))
           \<or> count_type ''image_url'' cs > 9 \<or> count_type ''video_url'' cs > 3 \<or> count_type ''audio_url'' cs > 3 \<or> media_count cs > 12
        then Some (invalidInput ''request_validate'' ''invalid_content_combination'') else None)"


section \<open>The stream that is uploaded\<close>

datatype read_failure = OverLimit | SourceFailed stream_end

datatype read_result = ReadOK nat | ReadEOF | ReadFailed

record inputStream =
  st_rest :: string
  st_end :: stream_end
  st_size :: int
  st_limit :: int
  st_failed :: bool
  st_eof :: bool
  st_hashed :: string
  st_failure :: "read_failure option"

definition stream_of :: "string \<Rightarrow> stream_end \<Rightarrow> int \<Rightarrow> inputStream" where
  "stream_of bs end limit = \<lparr>st_rest = bs, st_end = end, st_size = 0, st_limit = limit, st_failed = False, st_eof = False, st_hashed = [], st_failure = None\<rparr>"

definition stream_read :: "nat \<Rightarrow> inputStream \<Rightarrow> read_result \<times> inputStream" where
  "stream_read len st =
     (if len = 0 then (ReadOK 0, st)
      else if st_failed st then (ReadFailed, st)
      else if st_eof st then (ReadEOF, st)
      else if st_rest st = [] then
        (if st_end st = AtEOF then (ReadEOF, st\<lparr>st_eof := True\<rparr>)
         else (ReadFailed, st\<lparr>st_failed := True, st_failure := (case st_failure st of None \<Rightarrow> Some (SourceFailed (st_end st)) | x \<Rightarrow> x)\<rparr>))
      else
        let want = (if int len > st_limit st - st_size st + 1 then st_limit st - st_size st + 1 else int len);
            chunk = take (nat want) (st_rest st); size = st_size st + int (length chunk); rest = drop (nat want) (st_rest st) in
        if size > st_limit st
        then (ReadFailed, st\<lparr>st_rest := rest, st_size := size, st_failed := True,
                st_failure := (case st_failure st of None \<Rightarrow> Some OverLimit | x \<Rightarrow> x)\<rparr>)
        else (ReadOK (length chunk), st\<lparr>st_rest := rest, st_size := size, st_hashed := st_hashed st @ chunk\<rparr>))"

definition stream_reads :: "nat list \<Rightarrow> inputStream \<Rightarrow> inputStream" where
  "stream_reads lens st = foldl (\<lambda>st len. snd (stream_read len st)) st lens"

section \<open>Sources\<close>

definition initial_source :: "string \<Rightarrow> string" where
  "initial_source raw = (if has_prefix raw ''data:'' then ''data_uri'' else if has_prefix raw ''proxy-input://'' then ''local_spool'' else ''media_url'')"

fun pick_file :: "string \<Rightarrow> nat \<Rightarrow> GenerationContent \<Rightarrow> string \<Rightarrow> InputSpoolFile option \<Rightarrow> string \<Rightarrow> InputSpoolFile list \<Rightarrow>
    inputError \<times> string + InputSpoolFile option \<times> string" where
  "pick_file taskID i c raw meta source [] = Inr (meta, source)"
| "pick_file taskID i c raw meta source (f # fs) =
     (if sf_ContentIndex f \<noteq> int i then pick_file taskID i c raw meta source fs
      else if meta \<noteq> None \<or> sf_TaskID f \<noteq> taskID \<or> sf_ContentType f \<noteq> gc_type c \<or> sf_Role f \<noteq> gc_role c
      then Inl (invalidInput ''source_validate'' ''spool_record_mismatch'', source)
      else if raw \<noteq> input_reference taskID (sf_ID f) \<and> (sf_ObjectURL f = [] \<or> raw \<noteq> sf_ObjectURL f)
      then Inl (invalidInput ''source_validate'' ''source_reference_mismatch'', source)
      else pick_file taskID i c raw (Some f) (if sf_ObjectURL f \<noteq> [] then ''object_storage'' else ''local_spool'') fs)"

definition is_local :: "string \<Rightarrow> bool" where
  "is_local path \<longleftrightarrow> path \<noteq> [] \<and> hd path \<noteq> CHR ''/'' \<and> (clean path = [] \<or> hd (clean path) \<noteq> ''..'')"

definition raw_ext :: "string \<Rightarrow> string" where
  "raw_ext path = file_ext (last (split_on (CHR ''/'') path))"

definition open_local :: "RemoteWorld \<Rightarrow> string \<Rightarrow> InputSpoolFile \<Rightarrow> (inputError, remote_state, string \<times> stream_end) tx" where
  "open_local w kind f =
     (if sf_SourceKind f \<noteq> ''data_uri'' \<or> w_root w = [] \<or> \<not> is_local (sf_RelativePath f) \<or> contains_char (sf_RelativePath f) (CHR 0x5C)
         \<or> raw_ext (sf_RelativePath f) \<noteq> sf_Extension f
      then raise (invalidInput ''local_file'' ''invalid_spool_path'')
      else and_then (ask (\<lambda>n. (w_file w n (sf_RelativePath f), w_env w n))) (\<lambda>(l, e).
        if \<not> lf_root_ok l then raise (invalidInput ''local_file'' ''root_open_failed'')
        else if \<not> lf_open_ok l then raise (invalidInput ''local_file'' ''open_failed'')
        else if lf_regular_size l \<noteq> Some (sf_SizeBytes f) then raise (invalidInput ''local_file'' ''invalid_file_size'')
        else if \<not> lf_read_ok l \<or> int (length (lf_checked l)) \<noteq> sf_SizeBytes f then raise (invalidInput ''local_file'' ''file_read_failed'')
        else if \<not> equal_fold (sha256_hex e (lf_checked l)) (sf_SHA256 f) then raise (invalidInput ''integrity_check'' ''checksum_mismatch'')
        else if \<not> lf_seek_ok l then raise (invalidInput ''local_file'' ''seek_failed'')
        else ret (lf_content l, lf_end l)))"

definition open_url :: "RemoteWorld \<Rightarrow> string \<Rightarrow> string \<Rightarrow> (inputError, remote_state, string \<times> stream_end) tx" where
  "open_url w kind raw =
     (if has_prefix raw ''data:'' then
        and_then (ask (\<lambda>n. DecodeDataURI (sha256_hex (w_env w n)) kind raw)) (\<lambda>r.
        case r of Inl _ \<Rightarrow> raise (invalidInput ''source_open'' ''invalid_data_uri'')
        | Inr u \<Rightarrow> if int (length (du_Payload u)) > inputLimit kind then raise (invalidInput ''source_open'' ''invalid_data_uri'')
                  else ret (du_Payload u, AtEOF))
      else case g_parse_url (w_guard w) raw of None \<Rightarrow> raise (invalidInput ''source_validate'' ''invalid_url'')
      | Some u \<Rightarrow>
          if u_scheme u \<noteq> ''http'' \<and> u_scheme u \<noteq> ''https'' then raise (invalidInput ''source_validate'' ''invalid_url'')
          else and_then (ask (\<lambda>n. (Validate (Some (w_guard w)) n raw, w_fetch w n raw))) (\<lambda>(v, answer).
            case v of Inl _ \<Rightarrow> raise (invalidInput ''source_validate'' ''url_guard_rejected'')
            | Inr _ \<Rightarrow>
                (case answer of
                   NoRequest \<Rightarrow> raise (invalidInput ''source_validate'' ''invalid_http_request'')
                 | FetchFailed \<Rightarrow> raise (inputFailure ''tk2sd_input_source_read_failed'' [] ''source_download'' ''request_failed'' ''request_failed'' False None)
                 | Fetched status contentLength body end \<Rightarrow>
                     if status \<noteq> 200
                     then raise ((inputFailure ''tk2sd_input_source_http_error'' [] ''source_download'' ''http_status'' ''http_status'' True None)
                            \<lparr>ie_HTTPStatus := status\<rparr>)
                     else if contentLength > inputLimit kind then raise (invalidInput ''source_open'' ''size_exceeded'')
                     else ret (body, end))))"

definition open_input :: "RemoteWorld \<Rightarrow> string \<Rightarrow> string \<Rightarrow> InputSpoolFile option \<Rightarrow> (inputError, remote_state, string \<times> stream_end) tx" where
  "open_input w raw kind meta =
     (case meta of None \<Rightarrow> open_url w kind raw
      | Some f \<Rightarrow>
          if sf_SizeBytes f \<le> 0 \<or> sf_SizeBytes f > inputLimit kind \<or> length (sf_SHA256 f) \<noteq> 64
          then raise (invalidInput ''source_validate'' ''invalid_spool_metadata'')
          else if sf_ObjectURL f \<noteq> [] then open_url w kind (sf_ObjectURL f)
          else open_local w kind f)"

section \<open>Upload\<close>

definition catching :: "('e \<Rightarrow> 'f) \<Rightarrow> ('e, 's, 'a) tx \<Rightarrow> ('f, 's, 'a) tx" where
  "catching f m = (\<lambda>s. case m s of (Inl e, s') \<Rightarrow> (Inl (f e), s') | (Inr x, s') \<Rightarrow> (Inr x, s'))"

definition upload_error :: "string \<Rightarrow> ClientError \<Rightarrow> inputStream \<Rightarrow> inputError" where
  "upload_error source e st =
     (if (case ce_http e of None \<Rightarrow> False | Some h \<Rightarrow> he_StatusCode h > 0) then uploadFailure e
      else case st_failure st of None \<Rightarrow> uploadFailure e
      | Some fl \<Rightarrow>
          let reason = (if fl = OverLimit \<or> fl = SourceFailed BrokenTooLarge then ''size_exceeded'' else ''stream_read_failed'')
          in inputFailure ''tk2sd_input_source_read_failed'' source ''source_read'' reason reason False (ce_http e))"

definition mime_mismatch :: "string \<Rightarrow> InputSpoolFile \<Rightarrow> bool" where
  "mime_mismatch m f \<longleftrightarrow> normalizeMIME (sf_MediaType f) \<noteq> m \<or> (sf_DetectedMIME f \<noteq> [] \<and> normalizeMIME (sf_DetectedMIME f) \<noteq> m)"

text \<open>What is checked after the client has answered with an asset; the record that is kept of it.\<close>

definition check_upload :: "string \<Rightarrow> InputSpoolFile option \<Rightarrow> nat \<Rightarrow> GenerationContent \<Rightarrow> Asset \<Rightarrow> inputStream \<Rightarrow> inputError option" where
  "check_upload digest meta i c a st =
     (let (r, st') = stream_read 1 st in
      if r \<noteq> ReadEOF \<or> st_failed st' \<or> st_size st' \<le> 0 then Some (invalidInput ''integrity_check'' ''stream_incomplete'')
      else if as_Size a \<noteq> st_size st' then Some ((invalidInput ''integrity_check'' ''upload_size_mismatch'')\<lparr>ie_Source := ''upstream''\<rparr>)
      else case meta of
        Some f \<Rightarrow>
          if sf_SizeBytes f \<noteq> st_size st' then Some (invalidInput ''integrity_check'' ''size_mismatch'')
          else if \<not> equal_fold (sf_SHA256 f) digest then Some (invalidInput ''integrity_check'' ''checksum_mismatch'')
          else map_option (\<lambda>e. withInput e i (gc_type c) (gc_role c) ''upstream'') (validateAsset a (gc_type c))
      | None \<Rightarrow> map_option (\<lambda>e. withInput e i (gc_type c) (gc_role c) ''upstream'') (validateAsset a (gc_type c)))"

definition asset_record :: "RemoteWorld \<Rightarrow> string \<Rightarrow> string \<Rightarrow> nat \<Rightarrow> GenerationContent \<Rightarrow> Asset \<Rightarrow> string \<Rightarrow> int \<Rightarrow> node_asset" where
  "asset_record w taskID nodeID i c a digest bytes =
     \<lparr>na_task_id = taskID, na_node_id = nodeID, na_content_index = int i, na_asset_id = as_ID a, na_content_type = gc_type c, na_role = gc_role c,
      na_source_sha256 = digest, na_size_bytes = bytes, na_metadata_json = w_encode_asset w a, na_created_at = 0, na_updated_at = 0\<rparr>"

definition of_result :: "'e + 'a \<Rightarrow> ('e, 's, 'a) tx" where
  "of_result r = (case r of Inl e \<Rightarrow> raise e | Inr x \<Rightarrow> ret x)"

definition upload_answer :: "RemoteWorld \<Rightarrow> StoreEnv \<Rightarrow> string \<Rightarrow> string \<Rightarrow> nat \<Rightarrow> GenerationContent \<Rightarrow> InputSpoolFile option \<Rightarrow> string \<Rightarrow> string \<Rightarrow>
    inputStream \<Rightarrow> ClientError + Asset \<Rightarrow> inputError + Asset \<times> node_asset" where
  "upload_answer w e taskID nodeID i c meta source name st answer =
     (let digest = sha256_hex e (st_hashed st) in
      case answer of Inl ce \<Rightarrow> Inl (upload_error source ce st)
      | Inr a \<Rightarrow>
          (case check_upload digest meta i c a st of Some er \<Rightarrow> Inl er
           | None \<Rightarrow> let a' = a\<lparr>as_Filename := name\<rparr> in Inr (a', asset_record w taskID nodeID i c a' digest (st_size st))))"

definition send_stream :: "RemoteWorld \<Rightarrow> string \<Rightarrow> string \<Rightarrow> nat \<Rightarrow> GenerationContent \<Rightarrow> InputSpoolFile option \<Rightarrow> string \<Rightarrow> string \<times> stream_end \<Rightarrow>
    (inputError, remote_state, Asset \<times> node_asset) tx" where
  "send_stream w taskID nodeID i c meta source opened =
     (let bs = fst opened; end = snd opened; mediaType = fst (detectMedia (take 512 bs));
          name = ''input-'' @ decimal_digits i @ snd (detectMedia (take 512 bs)) in
      if length bs < 512 \<and> end \<noteq> AtEOF
      then raise ((invalidInput ''source_read'' ''header_read_failed'')\<lparr>ie_Code := ''tk2sd_input_source_read_failed''\<rparr>)
      else if \<not> has_prefix mediaType (asset_kind (gc_type c) @ ''/'') then raise (invalidInput ''media_detect'' ''unsupported_media'')
      else if (case meta of None \<Rightarrow> False | Some f \<Rightarrow> mime_mismatch mediaType f) then raise (invalidInput ''media_detect'' ''mime_mismatch'')
      else and_then (ask (\<lambda>n. (w_env w n, w_upload w n name mediaType))) (\<lambda>r.
        of_result (upload_answer w (fst r) taskID nodeID i c meta source name
          (stream_reads (fst (snd r)) (stream_of bs end (inputLimit (gc_type c)))) (snd (snd r)))))"

definition upload :: "RemoteWorld \<Rightarrow> string \<Rightarrow> string \<Rightarrow> nat \<Rightarrow> GenerationContent \<Rightarrow> InputSpoolFile list \<Rightarrow>
    (inputError, remote_state, Asset \<times> node_asset) tx" where
  "upload w taskID nodeID i c files =
     (let raw = coalesce (Media c) [] in
      case pick_file taskID i c raw None (initial_source raw) files of
        Inl (e, source) \<Rightarrow> raise (withInput e i (gc_type c) (gc_role c) source)
      | Inr (meta, source) \<Rightarrow>
          catching (\<lambda>e. withInput e i (gc_type c) (gc_role c) source)
            (and_then (open_input w raw (gc_type c) meta) (send_stream w taskID nodeID i c meta source)))"

section \<open>The request body\<close>

text \<open>Members with \<open>omitempty\<close> are left out when they are empty.\<close>

definition optional_text :: "string \<Rightarrow> string \<Rightarrow> (string \<times> string) list" where
  "optional_text name v = (if v = [] then [] else [(name, json_string v)])"

definition optional_media :: "string \<Rightarrow> string option \<Rightarrow> (string \<times> string) list" where
  "optional_media name m = (case m of None \<Rightarrow> [] | Some url \<Rightarrow> [(name, json_object [(''url'', json_string url)])])"

definition json_content :: "GenerationContent \<Rightarrow> string" where
  "json_content c = json_object
     ([(''type'', json_string (gc_type c))] @ optional_text ''text'' (gc_text c) @ optional_media ''image_url'' (gc_image_url c)
      @ optional_media ''video_url'' (gc_video_url c) @ optional_media ''audio_url'' (gc_audio_url c) @ optional_text ''role'' (gc_role c))"

definition request_body :: "string \<Rightarrow> GenerationContent list \<Rightarrow> int \<Rightarrow> string" where
  "request_body model content duration = json_object
     [(''model'', json_string model), (''content'', json_array (map json_content content)), (''duration'', format_int duration)]"

datatype prepare_error = ContextDone | InputError inputError

definition known_asset :: "RemoteWorld \<Rightarrow> string \<Rightarrow> remote_run \<Rightarrow> nat \<Rightarrow> GenerationContent \<Rightarrow> node_asset \<Rightarrow> inputError + Asset" where
  "known_asset w taskID run i c r =
     (case w_decode_asset w (na_metadata_json r) of
        Some a \<Rightarrow>
          if na_task_id r \<noteq> taskID \<or> na_node_id r \<noteq> rr_node_id run \<or> na_content_index r \<noteq> int i \<or> na_content_type r \<noteq> gc_type c \<or> na_role r \<noteq> gc_role c
             \<or> na_asset_id r \<noteq> as_ID a \<or> na_size_bytes r \<noteq> as_Size a
          then Inl (withInput (invalidInput ''asset_validate'' ''cached_asset_mismatch'') i (gc_type c) (gc_role c) ''proxy_store'') else Inr a
      | None \<Rightarrow> Inl (withInput (invalidInput ''asset_validate'' ''cached_asset_mismatch'') i (gc_type c) (gc_role c) ''proxy_store''))"

definition run_lease :: "remote_run \<Rightarrow> RunLease" where
  "run_lease r = \<lparr>rl_TaskID = rr_task_id r, rl_NodeID = rr_node_id r, rl_LeaseToken = coalesce (rr_lease_token r) []\<rparr>"

definition store_failure :: "string \<Rightarrow> string \<Rightarrow> inputError" where
  "store_failure stage reason = inputFailure ''tk2sd_input_persistence_failed'' ''proxy_store'' stage reason reason False None"

definition obtain_asset :: "RemoteWorld \<Rightarrow> string \<Rightarrow> remote_run \<Rightarrow> InputSpoolFile list \<Rightarrow> nat \<Rightarrow> GenerationContent \<Rightarrow>
    (inputError, remote_state, Asset) tx" where
  "obtain_asset w taskID run files i c =
     and_then (on_store w (\<lambda>e. GetRemoteAsset taskID (rr_node_id run) (int i))) (\<lambda>r.
     case r of
       Inr x \<Rightarrow> (case known_asset w taskID run i c x of Inl e \<Rightarrow> raise e | Inr a \<Rightarrow> ret a)
     | Inl er \<Rightarrow>
         if er = ErrTaskNotFound then
           and_then (upload w taskID (rr_node_id run) i c files) (\<lambda>(a, x).
           and_then (on_store w (\<lambda>e. SaveRemoteAsset e (run_lease run) x)) (\<lambda>saved.
           case saved of Inr _ \<Rightarrow> ret a
           | Inl _ \<Rightarrow> raise (withInput (store_failure ''asset_save'' ''save_failed'') i (gc_type c) (gc_role c) ''proxy_store'')))
         else raise (withInput (store_failure ''asset_lookup'' ''lookup_failed'') i (gc_type c) (gc_role c) ''proxy_store''))"

definition asset_duration :: "rat \<Rightarrow> Asset \<Rightarrow> rat" where
  "asset_duration played a = (if as_Kind a = ''image'' then played else case as_Duration a of Finite q \<Rightarrow> (if played = 0 then q else add64 played q) | _ \<Rightarrow> played)"

definition prepare_item :: "RemoteWorld \<Rightarrow> string \<Rightarrow> remote_run \<Rightarrow> InputSpoolFile list \<Rightarrow> nat \<Rightarrow> rat \<Rightarrow> GenerationContent \<Rightarrow>
    (inputError, remote_state, rat \<times> GenerationContent) tx" where
  "prepare_item w taskID run files i played c =
     (if gc_type c = ''text'' then ret (played, c)
      else if \<not> w_inputs w \<or> Media c = None then raise (withInput (invalidInput ''request_validate'' ''materializer_missing'') i (gc_type c) (gc_role c) ''proxy'')
      else if \<not> validRole (gc_type c) (gc_role c) then raise (withInput (invalidInput ''request_validate'' ''invalid_role'') i (gc_type c) (gc_role c) ''proxy'')
      else and_then (obtain_asset w taskID run files i c) (\<lambda>a.
        case validateAsset a (gc_type c) of Some e \<Rightarrow> raise (withInput e i (gc_type c) (gc_role c) ''upstream'')
        | None \<Rightarrow>
            let played' = asset_duration played a in
            if as_Kind a \<noteq> ''image'' \<and> played' > 15
            then raise (withInput (invalidInput ''media_validate'' ''total_duration_exceeded'') i (gc_type c) (gc_role c) ''proxy'')
            else ret (played', with_media (''asset://'' @ as_ID a) c)))"

fun prepare_items :: "RemoteWorld \<Rightarrow> string \<Rightarrow> remote_run \<Rightarrow> InputSpoolFile list \<Rightarrow> nat \<Rightarrow> rat \<Rightarrow> GenerationContent list \<Rightarrow>
    (prepare_error, remote_state, GenerationContent list) tx" where
  "prepare_items w taskID run files i played [] = ret []"
| "prepare_items w taskID run files i played (c # cs) =
     and_then (ensuring (\<lambda>s. \<not> w_done w (rs_calls s)) ContextDone) (\<lambda>_.
     and_then (catching InputError (prepare_item w taskID run files i played c)) (\<lambda>(played', c').
     and_then (prepare_items w taskID run files (Suc i) played' cs) (\<lambda>cs'. ret (c' # cs'))))"

definition spooled_files :: "RemoteWorld \<Rightarrow> string \<Rightarrow> (prepare_error, remote_state, InputSpoolFile list) tx" where
  "spooled_files w taskID =
     (if \<not> w_inputs w then ret []
      else and_then (on_store w (\<lambda>e. ListInputSpoolFiles taskID)) (\<lambda>r.
        case r of Inl _ \<Rightarrow> raise (InputError (store_failure ''spool_lookup'' ''lookup_failed'')) | Inr fs \<Rightarrow> ret fs))"

definition Prepare :: "RemoteWorld \<Rightarrow> Task \<Rightarrow> remote_run \<Rightarrow> (prepare_error, remote_state, string) tx" where
  "Prepare w task run =
     (let t = tk_row task in
      case vt_request t of None \<Rightarrow> raise (InputError (invalidInput ''request_validate'' ''invalid_json''))
      | Some r \<Rightarrow>
          if w_json_size w r > 64 * 2 ^ 20 then raise (InputError (invalidInput ''request_validate'' ''invalid_json''))
          else case check_remote_request (vt_model t) r of Some e \<Rightarrow> raise (InputError e)
          | None \<Rightarrow>
              and_then (spooled_files w (vt_task_id t)) (\<lambda>files.
              and_then (prepare_items w (vt_task_id t) run files 0 0 (gr_content r)) (\<lambda>content.
              let body = request_body (gr_model r) content (gr_duration r) in
              if length body > 2 ^ 20 then raise (InputError (invalidInput ''request_validate'' ''request_body_invalid'')) else ret body)))"


section \<open>Recorded assets stay\<close>

text \<open>No operation of the remote store replaces the record of an uploaded asset.\<close>

definition asset_key :: "node_asset \<Rightarrow> string \<times> string \<times> int" where
  "asset_key x = (na_task_id x, na_node_id x, na_content_index x)"

definition assets_keyed :: "db \<Rightarrow> bool" where
  "assets_keyed d \<longleftrightarrow> distinct (map asset_key (task_node_assets d))"

definition assets_kept :: "db \<Rightarrow> db \<Rightarrow> bool" where
  "assets_kept d d' \<longleftrightarrow> (assets_keyed d \<longrightarrow> assets_keyed d'
     \<and> (\<forall>x \<in> set (task_node_assets d). \<exists>x' \<in> set (task_node_assets d'). asset_key x' = asset_key x \<and> na_asset_id x' = na_asset_id x))"

interpretation asset_records: step_contract assets_kept
proof
  show "assets_kept d d" for d by (auto simp: assets_kept_def)
  show "assets_kept d d''" if "assets_kept d d'" "assets_kept d' d''" for d d' d''
    using that unfolding assets_kept_def by metis
qed

lemma assets_frame: "task_node_assets d' = task_node_assets d \<Longrightarrow> assets_kept d d'"
  by (auto simp: assets_kept_def assets_keyed_def)

lemma assets_tables:
  "assets_kept d (video_tasks_update f d)" "assets_kept d (task_remote_runs_update g d)" "assets_kept d (result_upload_jobs_update h d)"
  by (rule assets_frame, simp)+

lemma assets_update:
  "(\<And>x. asset_key (f x) = asset_key x \<and> na_asset_id (f x) = na_asset_id x) \<Longrightarrow> assets_kept d (task_node_assets_update (update_where p f) d)"
  by (auto simp: assets_kept_def assets_keyed_def distinct_update_where set_update_where)

lemma assets_insert:
  "\<forall>y \<in> set (task_node_assets d). asset_key y \<noteq> asset_key x \<Longrightarrow> assets_kept d (task_node_assets_update (\<lambda>rows. rows @ [x]) d)"
  by (auto simp: assets_kept_def assets_keyed_def)

lemma assets_readings: "keeps assets_kept (reading f)" "keeps assets_kept (GetRemoteRun i)"
  by (simp_all add: keeps_def GetRemoteRun_def asset_records.refl)

lemma assets_calls: "keeps assets_kept (createCallbackDeliveryWithConn e i st now)" "keeps assets_kept (rebalance e now)"
  by (rule keepsI, auto dest!: callback_frame intro: assets_frame simp: rebalance_apply)+

lemmas assets_intros = asset_records.keeps_intros keeps_exec_one keeps_exec_update keeps_exec_insert assets_readings assets_calls assets_tables assets_update

lemma SaveRemoteAsset_cases:
  assumes "SaveRemoteAsset e r a d = (z, d')"
  obtains "d' = d" "z \<noteq> Inr ()"
    | p f where "d' = task_node_assets_update (update_where p f) d" "\<And>x. asset_key (f x) = asset_key x \<and> na_asset_id (f x) = na_asset_id x"
      "z = Inr () \<Longrightarrow> \<exists>x \<in> set (task_node_assets d). asset_key x = asset_key a \<and> na_asset_id x = na_asset_id a"
    | x where "d' = task_node_assets_update (\<lambda>rows. rows @ [x]) d" "asset_key x = asset_key a" "na_asset_id x = na_asset_id a"
      "\<forall>y \<in> set (task_node_assets d). asset_key y \<noteq> asset_key a"
proof -
  let ?a = "a\<lparr>na_created_at := nowUnix e, na_updated_at := nowUnix e\<rparr>"
  let ?here = "\<lambda>x. na_task_id x = na_task_id ?a \<and> na_node_id x = na_node_id ?a \<and> na_content_index x = na_content_index ?a"
  let ?ok = "na_task_id ?a = rl_TaskID r \<and> na_node_id ?a = rl_NodeID r \<and>
      exists_where (\<lambda>x. leased_by e r x \<and> rr_phase x = RemotePreparing \<and> rr_cancel_state x = CancelNone) (task_remote_runs d) \<and> asset_row_ok ?a"
  consider "\<not> ?ok" | "?ok" "exists_where ?here (task_node_assets d)" | "?ok" "\<not> exists_where ?here (task_node_assets d)" by blast
  then show thesis
  proof cases
    case 1
    with assms have "d' = d" "z \<noteq> Inr ()" unfolding SaveRemoteAsset_def Let_def by (auto simp: and_then_ensure and_then_ensuring split: if_splits)
    then show thesis by (rule that(1))
  next
    case 2
    let ?p = "\<lambda>x. ?here x \<and> same_asset x ?a" and ?f = "\<lambda>x. x\<lparr>na_updated_at := nowUnix e\<rparr>"
    from 2 assms have run: "exec_one task_node_assets task_node_assets_update ErrStateConflict ?p ?f d = (z, d')"
      unfolding SaveRemoteAsset_def Let_def by (simp add: and_then_ensure and_then_ensuring del: exists_where_iff)
    show thesis
    proof (rule that(2))
      show "d' = task_node_assets_update (update_where ?p ?f) d" using run by (auto simp: exec_one_apply split: if_splits)
      show "asset_key (?f x) = asset_key x \<and> na_asset_id (?f x) = na_asset_id x" for x by (simp add: asset_key_def)
      assume "z = Inr ()"
      with run have "affected ?p (task_node_assets d) = 1" by (simp add: exec_one_success_iff)
      from affected_one_ex [OF this] obtain x where "x \<in> set (task_node_assets d)" "?p x" by blast
      then show "\<exists>x \<in> set (task_node_assets d). asset_key x = asset_key a \<and> na_asset_id x = na_asset_id a"
        by (auto simp: same_asset_def asset_key_def)
    qed
  next
    case 3
    with assms have "d' = task_node_assets_update (\<lambda>rows. rows @ [?a]) d"
      unfolding SaveRemoteAsset_def Let_def by (simp add: and_then_ensure and_then_ensuring del: exists_where_iff)
    with 3 show thesis by (intro that(3) [of ?a]) (auto simp: asset_key_def exists_where_iff)
  qed
qed

lemma asset_keeps:
  "keeps assets_kept (AcquireRemoteLease e i n tok ttl)" "keeps assets_kept (RenewRemoteLease e r ttl)"
  "keeps assets_kept (ReleaseRemoteLease e r next code rec)" "keeps assets_kept (PrepareRemoteRequest e r body)"
  "keeps assets_kept (BeginRemoteSubmission e r)" "keeps assets_kept (BindRemoteTask e r up)"
  "keeps assets_kept (ObserveRemoteTask e r st c)" "keeps assets_kept (RequestRemoteCancel e i)"
  "keeps assets_kept (SaveRemoteAsset e r a)" "keeps assets_kept (CompleteRemoteRun e r cpl)"
  "keeps assets_kept (UpdateRemoteResult e i n u)" "keeps assets_kept (ClaimNextRemote e n v cap adm)"
proof -
  show "keeps assets_kept (SaveRemoteAsset e r a)"
    by (rule keepsI, erule SaveRemoteAsset_cases) (auto intro: assets_update assets_insert asset_records.refl)
  have "keeps assets_kept (upload_or_callback e i cpl)" for i
    unfolding upload_or_callback_def insert_upload_def
    by (cases "co_upload_job cpl"; cases "co_status cpl") (auto intro!: assets_intros)
  then show "keeps assets_kept (CompleteRemoteRun e r cpl)" unfolding CompleteRemoteRun_def by (intro assets_intros)
  show "keeps assets_kept (ClaimNextRemote e n v cap adm)"
    unfolding ClaimNextRemote_def Let_def require_node_def insert_run_def by (intro assets_intros)
qed (unfold AcquireRemoteLease_def RenewRemoteLease_def ReleaseRemoteLease_def PrepareRemoteRequest_def BeginRemoteSubmission_def
    BindRemoteTask_def ObserveRemoteTask_def RequestRemoteCancel_def UpdateRemoteResult_def Let_def, (intro assets_intros)+)

lemma remote_step_assets: "remote_step d d' \<Longrightarrow> assets_kept d d'"
  by (induction rule: remote_step.induct) (erule keepsD [rotated], rule asset_keeps)+

lemma remote_steps_assets: "remote_step\<^sup>*\<^sup>* d d' \<Longrightarrow> assets_kept d d'"
  by (rule asset_records.reachable [OF remote_step_assets])


section \<open>A worker among others\<close>

text \<open>What a worker may rely on: the others only run operations of the remote store.\<close>

definition orderly :: "RemoteWorld \<Rightarrow> bool" where
  "orderly w \<longleftrightarrow> (\<forall>n d. remote_step\<^sup>*\<^sup>* d (w_others w n d))"

text \<open>What it does while it prepares a request: operations of the remote store, with the others' between, and no submission.\<close>

definition worker_moves :: "remote_state \<Rightarrow> remote_state \<Rightarrow> bool" where
  "worker_moves s s' \<longleftrightarrow> remote_step\<^sup>*\<^sup>* (rs_db s) (rs_db s') \<and> rs_sent s' = rs_sent s"

interpretation worker: step_contract worker_moves
proof
  show "worker_moves s s" for s by (simp add: worker_moves_def)
  show "worker_moves s s''" if "worker_moves s s'" "worker_moves s' s''" for s s' s''
    using that unfolding worker_moves_def by (metis rtranclp_trans)
qed

definition remote_op :: "(StoreEnv \<Rightarrow> 'a op) \<Rightarrow> bool" where
  "remote_op f \<longleftrightarrow> (\<forall>e d. remote_step\<^sup>*\<^sup>* d (snd (f e d)))"

lemma remote_ops:
  "remote_op (\<lambda>e. AcquireRemoteLease e i n tok ttl)" "remote_op (\<lambda>e. RenewRemoteLease e r ttl)" "remote_op (\<lambda>e. ReleaseRemoteLease e r nxt code rec)"
  "remote_op (\<lambda>e. PrepareRemoteRequest e r body)" "remote_op (\<lambda>e. BeginRemoteSubmission e r)" "remote_op (\<lambda>e. BindRemoteTask e r up)"
  "remote_op (\<lambda>e. ObserveRemoteTask e r st c)" "remote_op (\<lambda>e. SaveRemoteAsset e r a)" "remote_op (\<lambda>e. CompleteRemoteRun e r cpl)"
  "remote_op (\<lambda>e. ClaimNextRemote e n v cap adm)" "remote_op (\<lambda>e. RequestRemoteCancel e i)" "remote_op (\<lambda>e. UpdateRemoteResult e i n u)"
  unfolding remote_op_def
  by (intro allI r_into_rtranclp, rule remote_step.intros, rule surjective_pairing)+

lemma remote_reads: "remote_op (\<lambda>e. reading (f e))" "remote_op (\<lambda>e. gets (g e))" "remote_op (\<lambda>e. GetRemoteRun i)"
  "remote_op (\<lambda>e. GetRemoteAsset i n index)" "remote_op (\<lambda>e. ListInputSpoolFiles i)"
  by (simp_all add: remote_op_def GetRemoteRun_def GetRemoteAsset_def ListInputSpoolFiles_def)

lemma on_store_moves: "orderly w \<Longrightarrow> remote_op f \<Longrightarrow> keeps worker_moves (on_store w f)"
proof (rule keepsI)
  fix s :: remote_state and r :: "'b + err + 'a" and s'
  assume w: "orderly w" and f: "remote_op f" and run: "on_store w f s = (r, s')"
  let ?n = "rs_calls s" let ?d = "w_others w ?n (rs_db s)"
  have "remote_step\<^sup>*\<^sup>* (rs_db s) ?d" using w by (simp add: orderly_def)
  moreover have "remote_step\<^sup>*\<^sup>* ?d (snd (f (w_env w ?n) ?d))" using f by (simp add: remote_op_def)
  ultimately have "remote_step\<^sup>*\<^sup>* (rs_db s) ?d" "remote_step\<^sup>*\<^sup>* (rs_db s) (snd (f (w_env w ?n) ?d))" by auto
  then show "worker_moves s s'" using run by (auto simp: on_store_def worker_moves_def Let_def split: if_splits prod.splits)
qed

lemma on_store_result:
  assumes "on_store w f s = (Inr (Inr x), s')"
  shows "f (w_env w (rs_calls s)) (w_others w (rs_calls s) (rs_db s)) = (Inr x, rs_db s')"
  using assms by (auto simp: on_store_def Let_def split: if_splits prod.splits)

lemma ask_moves: "keeps worker_moves (ask f)"
  by (simp add: keeps_def ask_def worker_moves_def)

lemma catching_moves: "keeps worker_moves m \<Longrightarrow> keeps worker_moves (catching f m)"
  by (auto simp: keeps_def catching_def split: prod.splits sum.splits) (metis snd_conv)+

lemma catching_success [simp]: "catching f m s = (Inr x, s') \<longleftrightarrow> m s = (Inr x, s')"
  by (auto simp: catching_def split: prod.splits sum.splits)

lemmas moves_intros = worker.keeps_intros ask_moves catching_moves

lemma open_moves: "keeps worker_moves (open_local w kind f)" "keeps worker_moves (open_url w kind raw)" "keeps worker_moves (open_input w raw kind meta)"
proof -
  show l: "keeps worker_moves (open_local w kind f)" for kind f
    unfolding open_local_def by (auto intro!: moves_intros split: prod.splits)
  show u: "keeps worker_moves (open_url w kind raw)" for kind raw
    unfolding open_url_def by (auto intro!: moves_intros split: prod.splits sum.splits option.splits fetch.splits)
  show "keeps worker_moves (open_input w raw kind meta)"
    unfolding open_input_def using l u by (auto intro!: moves_intros split: option.splits)
qed

lemma of_result_success [simp]: "of_result r s = (Inr x, s') \<longleftrightarrow> r = Inr x \<and> s' = s"
  by (cases r) (auto simp: of_result_def)

lemma of_result_moves: "keeps worker_moves (of_result r)"
  by (cases r) (auto simp: of_result_def intro: moves_intros)

lemma upload_moves: "keeps worker_moves (upload w taskID nodeID i c files)"
  unfolding upload_def Let_def send_stream_def
  by (auto intro!: moves_intros open_moves of_result_moves split: prod.splits sum.splits)

lemma obtain_asset_moves: "orderly w \<Longrightarrow> keeps worker_moves (obtain_asset w taskID run files i c)"
  unfolding obtain_asset_def
  by (auto intro!: moves_intros on_store_moves upload_moves remote_ops remote_reads split: prod.splits sum.splits)

lemma prepare_item_moves: "orderly w \<Longrightarrow> keeps worker_moves (prepare_item w taskID run files i played c)"
  unfolding prepare_item_def Let_def
  by (auto intro!: moves_intros obtain_asset_moves split: option.splits)

lemma prepare_items_moves: "orderly w \<Longrightarrow> keeps worker_moves (prepare_items w taskID run files i played cs)"
  by (induction cs arbitrary: i played) (auto intro!: moves_intros prepare_item_moves split: prod.splits)

lemma Prepare_moves: "orderly w \<Longrightarrow> keeps worker_moves (Prepare w task run)"
  unfolding Prepare_def Let_def spooled_files_def
  by (auto intro!: moves_intros prepare_items_moves on_store_moves remote_reads split: option.splits sum.splits)


section \<open>What is prepared\<close>

definition recorded :: "db \<Rightarrow> string \<Rightarrow> string \<Rightarrow> nat \<Rightarrow> string \<Rightarrow> bool" where
  "recorded d taskID nodeID i asset \<longleftrightarrow> (\<exists>x \<in> set (task_node_assets d). asset_key x = (taskID, nodeID, int i) \<and> na_asset_id x = asset)"

definition item_ready :: "db \<Rightarrow> string \<Rightarrow> string \<Rightarrow> nat \<Rightarrow> GenerationContent \<Rightarrow> GenerationContent \<Rightarrow> bool" where
  "item_ready d taskID nodeID i c c' \<longleftrightarrow>
     (if gc_type c = ''text'' then c' = c
      else \<exists>asset. recorded d taskID nodeID i asset \<and> valid_asset_id asset \<and> c' = with_media (''asset://'' @ asset) c)"

lemma recorded_kept: "recorded d taskID nodeID i asset \<Longrightarrow> assets_kept d d' \<Longrightarrow> assets_keyed d \<Longrightarrow> recorded d' taskID nodeID i asset"
  unfolding recorded_def assets_kept_def by metis

lemma item_ready_kept: "item_ready d taskID nodeID i c c' \<Longrightarrow> assets_kept d d' \<Longrightarrow> assets_keyed d \<Longrightarrow> item_ready d' taskID nodeID i c c'"
  using recorded_kept [of d taskID nodeID i _ d'] by (auto simp: item_ready_def split: if_splits)

lemma moves_assets: "worker_moves s s' \<Longrightarrow> assets_kept (rs_db s) (rs_db s')"
  by (simp add: worker_moves_def remote_steps_assets)

lemma keyed_kept: "assets_kept d d' \<Longrightarrow> assets_keyed d \<Longrightarrow> assets_keyed d'"
  by (simp add: assets_kept_def)

lemma upload_answer_result:
  "upload_answer w e taskID nodeID i c meta source name st answer = Inr (a, x) \<Longrightarrow> asset_key x = (taskID, nodeID, int i) \<and> na_asset_id x = as_ID a"
  by (auto simp: upload_answer_def Let_def asset_record_def asset_key_def split: sum.splits option.splits)

lemma upload_result:
  assumes "upload w taskID nodeID i c files s = (Inr (a, x), s')"
  shows "asset_key x = (taskID, nodeID, int i) \<and> na_asset_id x = as_ID a"
proof -
  from assms obtain meta source s1 opened where "send_stream w taskID nodeID i c meta source opened s1 = (Inr (a, x), s')"
    by (auto simp: upload_def Let_def and_then_success_iff split: sum.splits prod.splits)
  then show ?thesis unfolding send_stream_def Let_def
    by (auto simp: and_then_success_iff split: if_splits dest!: upload_answer_result)
qed

lemma saved_recorded:
  assumes "SaveRemoteAsset e r x d = (Inr u, d')" and "asset_key x = (taskID, nodeID, int i)"
  shows "recorded d' taskID nodeID i (na_asset_id x)"
  using assms(1)
proof (rule SaveRemoteAsset_cases)
  fix p f assume d': "d' = task_node_assets_update (update_where p f) d" and f: "\<And>x. asset_key (f x) = asset_key x \<and> na_asset_id (f x) = na_asset_id x"
    and "Inr u = Inr () \<Longrightarrow> \<exists>y \<in> set (task_node_assets d). asset_key y = asset_key x \<and> na_asset_id y = na_asset_id x"
  then obtain y where "y \<in> set (task_node_assets d)" "asset_key y = asset_key x \<and> na_asset_id y = na_asset_id x" by auto
  then show ?thesis unfolding recorded_def using f assms(2)
    by (intro bexI [of _ "if p y then f y else y"]) (auto simp: d' set_update_where)
qed (use assms(2) in \<open>auto simp: recorded_def\<close>)

lemma obtain_asset_result:
  assumes "obtain_asset w taskID run files i c s = (Inr a, s')"
  shows "recorded (rs_db s') taskID (rr_node_id run) i (as_ID a)"
proof -
  from assms obtain r s1 where get: "on_store w (\<lambda>e. GetRemoteAsset taskID (rr_node_id run) (int i)) s = (Inr r :: inputError + _, s1)"
    unfolding obtain_asset_def and_then_success_iff by blast
  show ?thesis
  proof (cases r)
    case (Inr x)
    from on_store_result [OF get [unfolded Inr]] have "x \<in> set (task_node_assets (rs_db s1))" "asset_key x = (taskID, rr_node_id run, int i)"
      by (auto simp: GetRemoteAsset_def asset_key_def split: option.splits dest: select_where_Some)
    moreover from assms get Inr have "s' = s1" "known_asset w taskID run i c x = Inr a"
      by (auto simp: obtain_asset_def split: sum.splits)
    then have "s' = s1" "na_asset_id x = as_ID a" by (auto simp: known_asset_def split: option.splits if_splits)
    ultimately show ?thesis by (auto simp: recorded_def)
  next
    case (Inl er)
    with assms get obtain a' x s2 saved s3 where up: "upload w taskID (rr_node_id run) i c files s1 = (Inr (a', x), s2)"
      and save: "on_store w (\<lambda>e. SaveRemoteAsset e (run_lease run) x) s2 = (Inr saved :: inputError + _, s3)"
      and fin: "(case saved of Inr _ \<Rightarrow> ret a' | Inl _ \<Rightarrow> raise (withInput (store_failure ''asset_save'' ''save_failed'') i (gc_type c) (gc_role c) ''proxy_store'')) s3 = (Inr a, s')"
      by (auto simp: obtain_asset_def and_then_success_iff split: if_splits prod.splits)
    from fin obtain u where "saved = Inr u" "a' = a" "s3 = s'" by (cases saved) auto
    with save up have up: "upload w taskID (rr_node_id run) i c files s1 = (Inr (a, x), s2)"
      and save: "on_store w (\<lambda>e. SaveRemoteAsset e (run_lease run) x) s2 = (Inr (Inr u) :: inputError + _, s')" by simp_all
    with saved_recorded [OF on_store_result [OF save]] upload_result [OF up] show ?thesis by auto
  qed
qed

lemma prepare_item_result:
  assumes "prepare_item w taskID run files i played c s = (Inr (played', c'), s')"
  shows "item_ready (rs_db s') taskID (rr_node_id run) i c c'"
proof (cases "gc_type c = ''text''")
  case False
  with assms obtain a where a: "obtain_asset w taskID run files i c s = (Inr a, s')" "validateAsset a (gc_type c) = None"
    and c': "c' = with_media (''asset://'' @ as_ID a) c"
    by (auto simp: prepare_item_def and_then_success_iff Let_def split: if_splits option.splits)
  from a(2) have "valid_asset_id (as_ID a)" by (auto simp: validateAsset_def split: if_splits)
  with obtain_asset_result [OF a(1)] c' False show ?thesis by (auto simp: item_ready_def)
qed (use assms in \<open>simp add: prepare_item_def item_ready_def\<close>)

lemma prepare_items_result:
  assumes "orderly w" and "prepare_items w taskID run files i played cs s = (Inr cs', s')" and "assets_keyed (rs_db s)"
  shows "length cs' = length cs \<and> (\<forall>j < length cs. item_ready (rs_db s') taskID (rr_node_id run) (i + j) (cs ! j) (cs' ! j))"
  using assms(2,3)
proof (induction cs arbitrary: i played s cs')
  case (Cons c cs)
  then obtain played' c' s1 cs1 where one: "prepare_item w taskID run files i played c s = (Inr (played', c'), s1)"
    and rest: "prepare_items w taskID run files (Suc i) played' cs s1 = (Inr cs1, s')" and cs': "cs' = c' # cs1"
    by (auto simp: and_then_success_iff and_then_ensuring split: prod.splits if_splits)
  have kept: "assets_kept (rs_db s) (rs_db s1)" "assets_kept (rs_db s1) (rs_db s')"
    by (rule moves_assets [OF keepsD [OF prepare_item_moves [OF assms(1)] one]],
        rule moves_assets [OF keepsD [OF prepare_items_moves [OF assms(1)] rest]])
  have keyed: "assets_keyed (rs_db s1)" by (rule keyed_kept [OF kept(1) Cons.prems(2)])
  have "item_ready (rs_db s') taskID (rr_node_id run) i c c'"
    by (rule item_ready_kept [OF prepare_item_result [OF one] kept(2) keyed])
  with Cons.IH [OF rest keyed] show ?case by (auto simp: cs' nth_Cons split: nat.splits)
qed simp

lemma Prepare_success:
  assumes "orderly w" and "Prepare w task run s = (Inr body, s')" and "assets_keyed (rs_db s)"
  obtains r content where "vt_request (tk_row task) = Some r" and "check_remote_request (vt_model (tk_row task)) r = None"
    and "body = request_body (gr_model r) content (gr_duration r)" and "length body \<le> 2 ^ 20" and "length content = length (gr_content r)"
    and "\<And>j. j < length content \<Longrightarrow> item_ready (rs_db s') (vt_task_id (tk_row task)) (rr_node_id run) j (gr_content r ! j) (content ! j)"
proof -
  let ?t = "tk_row task"
  from assms(2) obtain r files s1 content where r: "vt_request ?t = Some r" "check_remote_request (vt_model ?t) r = None"
    and files: "spooled_files w (vt_task_id ?t) s = (Inr files, s1)"
    and items: "prepare_items w (vt_task_id ?t) run files 0 0 (gr_content r) s1 = (Inr content, s')"
    and body: "body = request_body (gr_model r) content (gr_duration r)" "length body \<le> 2 ^ 20"
    by (auto simp: Prepare_def Let_def and_then_success_iff split: option.splits if_splits)
  have "keeps worker_moves (spooled_files w (vt_task_id ?t))" unfolding spooled_files_def
    by (auto intro!: moves_intros on_store_moves [OF assms(1)] remote_reads split: sum.splits)
  from keyed_kept [OF moves_assets [OF keepsD [OF this files]] assms(3)] have "assets_keyed (rs_db s1)" .
  from prepare_items_result [OF assms(1) items this] that [OF r body] show thesis by simp
qed

text \<open>The body is well-formed JSON, so that the store accepts it.\<close>

lemma content_value: "json_value (Suc (Suc 0)) (json_content c)"
proof -
  have str: "json_value (Suc 0) (json_string u)" for u by (rule json_value_mono [OF json_value_string]) simp
  have url: "json_value (Suc 0) (json_object [(''url'', json_string u)])" for u
    by (rule json_value_object) (auto simp: json_value_string)
  show ?thesis unfolding json_content_def
    by (rule json_value_object) (use str url in \<open>auto simp: optional_text_def optional_media_def split: option.splits if_splits\<close>)
qed

lemma request_body_valid:
  assumes "content \<noteq> []" and "0 \<le> duration"
  shows "json_valid (request_body model content duration)"
proof -
  let ?k = "Suc (Suc (Suc 0))"
  have "json_value ?k (json_array (map json_content content))"
    by (rule json_value_array) (use assms(1) content_value in auto)
  moreover have "json_value ?k (json_string model)" by (rule json_value_mono [OF json_value_string]) simp
  moreover have "json_value ?k (format_int duration)"
    using assms(2) json_value_mono [OF json_value_decimal] by (simp add: format_int_def)
  ultimately have "json_value (Suc ?k) (request_body model content duration)"
    unfolding request_body_def by (intro json_value_object) auto
  then show ?thesis by (rule json_valid_value) simp
qed

lemma checked_request: "check_remote_request model r = None \<Longrightarrow> gr_model r = model \<and> 4 \<le> gr_duration r \<and> gr_duration r \<le> 15 \<and> gr_content r \<noteq> []"
  by (auto simp: check_remote_request_def Let_def split: if_splits option.splits)

text \<open>C17: The body prepared for a task is valid JSON of at most 1 MiB that the store accepts, with the task's model, and every medium in it
  is a reference to an asset of the node that is recorded for the task, its node and the position of the item, whatever other workers did meanwhile.\<close>

theorem Prepare_sound:
  assumes "orderly w" and "Prepare w task run s = (Inr body, s')" and "assets_keyed (rs_db s)"
  shows "json_valid body \<and> length body \<le> 2 ^ 20 \<and> (\<exists>r content. vt_request (tk_row task) = Some r \<and> gr_model r = vt_model (tk_row task)
    \<and> body = request_body (gr_model r) content (gr_duration r) \<and> length content = length (gr_content r)
    \<and> (\<forall>j < length content. item_ready (rs_db s') (vt_task_id (tk_row task)) (rr_node_id run) j (gr_content r ! j) (content ! j)))"
proof -
  from assms obtain r content where r: "vt_request (tk_row task) = Some r" "check_remote_request (vt_model (tk_row task)) r = None"
    "body = request_body (gr_model r) content (gr_duration r)" "length body \<le> 2 ^ 20" "length content = length (gr_content r)"
    "\<And>j. j < length content \<Longrightarrow> item_ready (rs_db s') (vt_task_id (tk_row task)) (rr_node_id run) j (gr_content r ! j) (content ! j)"
    by (rule Prepare_success) blast
  from checked_request [OF r(2)] r(5) have "content \<noteq> []" "0 \<le> gr_duration r" "gr_model r = vt_model (tk_row task)" by auto
  with request_body_valid [of content "gr_duration r" "gr_model r"] r show ?thesis by auto
qed

lemma ready_unique:
  assumes "item_ready d t n j c x" and "item_ready d t n j c y" and "assets_keyed d"
  shows "x = y"
proof -
  have "a = b" if "recorded d t n j a" "recorded d t n j b" for a b
    using that assms(3) unfolding recorded_def assets_keyed_def by (metis key_unique)
  with assms(1,2) show ?thesis by (auto simp: item_ready_def split: if_splits)
qed

text \<open>C15: Preparation can be repeated: when it is interrupted after some uploads, or its result is lost, any later preparation of the
  same task for the same node (by this or another worker, after any operations of the remote store in between) gives the same body.\<close>

theorem Prepare_repeatable:
  assumes "orderly w" and "Prepare w task run s = (Inr body, s')" and "assets_keyed (rs_db s)" and "remote_step\<^sup>*\<^sup>* (rs_db s') (rs_db s1)"
    and "orderly w'" and "Prepare w' task run' s1 = (Inr body', s1')" and "rr_node_id run' = rr_node_id run"
  shows "body' = body"
proof -
  from assms(1-3) obtain r content where r: "vt_request (tk_row task) = Some r" "body = request_body (gr_model r) content (gr_duration r)"
    "length content = length (gr_content r)"
    and ready: "\<And>j. j < length content \<Longrightarrow> item_ready (rs_db s') (vt_task_id (tk_row task)) (rr_node_id run) j (gr_content r ! j) (content ! j)"
    by (rule Prepare_success) blast
  have kept: "assets_kept (rs_db s) (rs_db s')" "assets_kept (rs_db s') (rs_db s1)" "assets_kept (rs_db s1) (rs_db s1')"
    by (rule moves_assets [OF keepsD [OF Prepare_moves [OF assms(1)] assms(2)]], rule remote_steps_assets [OF assms(4)],
        rule moves_assets [OF keepsD [OF Prepare_moves [OF assms(5)] assms(6)]])
  from keyed_kept [OF kept(1) assms(3)] keyed_kept [OF kept(2)] keyed_kept [OF kept(3)]
  have keyed: "assets_keyed (rs_db s')" "assets_keyed (rs_db s1)" "assets_keyed (rs_db s1')" by auto
  from assms(5,6) keyed(2) obtain r' content' where r': "vt_request (tk_row task) = Some r'" "body' = request_body (gr_model r') content' (gr_duration r')"
    "length content' = length (gr_content r')"
    and ready': "\<And>j. j < length content' \<Longrightarrow> item_ready (rs_db s1') (vt_task_id (tk_row task)) (rr_node_id run') j (gr_content r' ! j) (content' ! j)"
    by (rule Prepare_success) blast
  have "content' ! j = content ! j" if "j < length content" for j
  proof -
    have "item_ready (rs_db s1') (vt_task_id (tk_row task)) (rr_node_id run) j (gr_content r ! j) (content ! j)"
      using ready [OF that] kept(2,3) keyed by (meson item_ready_kept)
    moreover have "item_ready (rs_db s1') (vt_task_id (tk_row task)) (rr_node_id run) j (gr_content r ! j) (content' ! j)"
      using ready' [of j] that r r' assms(7) by simp
    ultimately show ?thesis using keyed(3) by (metis ready_unique)
  qed
  then have "content' = content" using r(1,3) r'(1,3) by (intro nth_equalityI) auto
  with r r' show ?thesis by simp
qed


section \<open>Integrity of an upload\<close>

definition stream_inv :: "string \<Rightarrow> stream_end \<Rightarrow> int \<Rightarrow> inputStream \<Rightarrow> bool" where
  "stream_inv bs end limit st \<longleftrightarrow> st_limit st = limit \<and> st_end st = end \<and> (\<not> st_failed st \<longrightarrow> st_hashed st @ st_rest st = bs
     \<and> st_size st = int (length (st_hashed st)) \<and> st_size st \<le> limit \<and> (st_eof st \<longrightarrow> st_rest st = [] \<and> end = AtEOF))"

lemma stream_read_inv: "stream_inv bs end limit st \<Longrightarrow> stream_inv bs end limit (snd (stream_read len st))"
  by (auto simp: stream_inv_def stream_read_def Let_def)

lemma stream_reads_inv: "stream_inv bs end limit st \<Longrightarrow> stream_inv bs end limit (stream_reads lens st)"
  by (induction lens arbitrary: st) (auto simp: stream_reads_def dest: stream_read_inv)

lemma stream_at_end:
  assumes "stream_inv bs end limit st" and "stream_read 1 st = (ReadEOF, st')" and "\<not> st_failed st'"
  shows "st_hashed st = bs \<and> st_size st = int (length bs) \<and> int (length bs) \<le> limit \<and> st_size st' = st_size st \<and> end = AtEOF"
  using assms by (auto simp: stream_inv_def stream_read_def Let_def split: if_splits)

text \<open>C16: The record of an uploaded medium describes the whole medium: when an upload is accepted, the recorded digest and size are
  those of all the bytes of the source, the source ended without an error within the limit of its kind, and the node reported the same size.
  A file that was spooled has the size and the digest of its record.\<close>

theorem upload_integrity:
  assumes "st = stream_reads lens (stream_of bs end (inputLimit (gc_type c)))"
    and "upload_answer w e taskID nodeID i c meta source name st (Inr asset) = Inr (a, x)" and "0 \<le> inputLimit (gc_type c)"
  shows "na_source_sha256 x = sha256_hex e bs \<and> na_size_bytes x = int (length bs) \<and> int (length bs) \<le> inputLimit (gc_type c) \<and> bs \<noteq> [] \<and> end = AtEOF
    \<and> as_Size a = int (length bs) \<and> validateAsset a (gc_type c) = None
    \<and> (\<forall>f. meta = Some f \<longrightarrow> sf_SizeBytes f = int (length bs) \<and> equal_fold (sf_SHA256 f) (sha256_hex e bs))"
proof -
  let ?digest = "sha256_hex e (st_hashed st)"
  from assms(2) have ok: "check_upload ?digest meta i c asset st = None" and a: "a = asset\<lparr>as_Filename := name\<rparr>"
    and x: "na_source_sha256 x = ?digest" "na_size_bytes x = st_size st"
    by (auto simp: upload_answer_def Let_def asset_record_def split: option.splits)
  obtain r st' where read: "stream_read 1 st = (r, st')" by (metis surj_pair)
  from ok have c: "r = ReadEOF" "\<not> st_failed st'" "0 < st_size st'" "as_Size asset = st_size st'" "validateAsset asset (gc_type c) = None"
    "\<And>f. meta = Some f \<Longrightarrow> sf_SizeBytes f = st_size st' \<and> equal_fold (sf_SHA256 f) ?digest"
    by (auto simp: check_upload_def read simp del: One_nat_def split: if_splits option.splits)
  have "stream_inv bs end (inputLimit (gc_type c)) st"
    unfolding assms(1) by (rule stream_reads_inv) (use assms(3) in \<open>simp add: stream_inv_def stream_of_def\<close>)
  from stream_at_end [OF this read [unfolded c(1)] c(2)]
  have "st_hashed st = bs" "st_size st = int (length bs)" "int (length bs) \<le> inputLimit (gc_type c)" "st_size st' = st_size st" "end = AtEOF" by auto
  moreover have "validateAsset (asset\<lparr>as_Filename := name\<rparr>) k = validateAsset asset k" for k by (simp add: validateAsset_def)
  ultimately show ?thesis using x a c by auto
qed

section \<open>Witnesses\<close>

definition sample_asset_id :: string where
  "sample_asset_id = ''aaaaaaaaaaaaaaaaaaaaaaaaaaaaaaaa''"

definition sample_asset :: Asset where
  "sample_asset = \<lparr>as_ID = sample_asset_id, as_URL = ''asset://'' @ sample_asset_id, as_Kind = ''image'', as_Filename = ''input-1.png'',
     as_Duration = Finite 0, as_Width = 8, as_Height = 8, as_Size = 8\<rparr>"

definition sample_file :: local_file where
  "sample_file = \<lparr>lf_root_ok = False, lf_open_ok = False, lf_regular_size = None, lf_checked = [], lf_read_ok = False, lf_seek_ok = False, lf_content = [], lf_end = AtEOF\<rparr>"

definition sample_world :: RemoteWorld where
  "sample_world =
     \<lparr>w_env = (\<lambda>_. sample_env), w_others = (\<lambda>_ d. d), w_done = (\<lambda>_. False), w_inputs = True, w_root = [], w_json_size = (\<lambda>_. 100),
      w_guard = sample_guard, w_file = (\<lambda>_ _. sample_file), w_fetch = (\<lambda>_ _. NoRequest), w_decode_asset = (\<lambda>_. Some sample_asset), w_encode_asset = (\<lambda>_. ''{}''),
      w_upload = (\<lambda>_ _ _. ([16, 16], Inr sample_asset))\<rparr>"

definition remote_content :: "GenerationContent list" where
  "remote_content =
     [\<lparr>gc_type = ''text'', gc_text = ''a'', gc_image_url = None, gc_video_url = None, gc_audio_url = None, gc_role = []\<rparr>,
      \<lparr>gc_type = ''image_url'', gc_text = [], gc_image_url = Some ''https://e/x'', gc_video_url = None, gc_audio_url = None, gc_role = ''reference_image''\<rparr>]"

definition remote_request :: GenerationRequest where
  "remote_request =
     \<lparr>gr_model = ''m'', gr_content = remote_content, gr_resolution = [], gr_duration = 5, gr_ratio = [], gr_callback_url = None, gr_aigc_watermark = None, gr_duration_present = True\<rparr>"

definition remote_task :: Task where
  "remote_task = \<lparr>tk_row = (blank_task ''t1'' 1)\<lparr>vt_model := ''m'', vt_request := Some remote_request\<rparr>, tk_RemotePhase = None, tk_RemoteUpstreamStatus = None, tk_RemoteCancelState = None\<rparr>"

definition remote_db :: db where
  "remote_db = empty_db\<lparr>task_node_assets :=
     [\<lparr>na_task_id = ''t1'', na_node_id = ''n1'', na_content_index = 1, na_asset_id = sample_asset_id, na_content_type = ''image_url'', na_role = ''reference_image'',
       na_source_sha256 = [], na_size_bytes = 8, na_metadata_json = ''{}'', na_created_at = 0, na_updated_at = 0\<rparr>]\<rparr>"

definition sample_state :: remote_state where
  "sample_state = \<lparr>rs_db = remote_db, rs_calls = 0, rs_sent = []\<rparr>"

lemma sample_orderly: "orderly sample_world"
  by (simp add: orderly_def sample_world_def)

lemma sample_check: "check_remote_request ''m'' remote_request = None"
  by (simp add: check_remote_request_def remote_request_def remote_content_def ValidModelID_def check_item_def bad_text_def media_refs_def Media_def validRole_def
      count_type_def first_frames_def media_count_def text_eval)

lemma sample_asset_valid: "validateAsset sample_asset ''image_url'' = None"
  by (simp add: validateAsset_def sample_asset_def valid_asset_id_def sample_asset_id_def is_hex_def lower_hex_def byte_def inputLimit_def asset_kind_def text_eval list_all_iff)

definition prepared_content :: "GenerationContent list" where
  "prepared_content = [hd remote_content, with_media (''asset://'' @ sample_asset_id) (remote_content ! 1)]"

lemma sample_items:
  "\<exists>s'. prepare_items sample_world ''t1'' (new_run ''t1'' ''n1'' k now) [] 0 0 remote_content s = (Inr prepared_content, s') \<and> rs_db s' = remote_db" if "rs_db s = remote_db"
  using that sample_asset_valid
  by (simp add: remote_content_def prepared_content_def prepare_item_def obtain_asset_def on_store_def sample_world_def GetRemoteAsset_def remote_db_def
      known_asset_def new_run_def Media_def validRole_def and_then_def catching_def asset_duration_def)
    (simp add: sample_asset_def)

lemma sample_body_short: "length (request_body ''m'' prepared_content 5) \<le> 2 ^ 20"
  by (simp add: request_body_def prepared_content_def remote_content_def json_object_def json_array_def json_content_def optional_text_def optional_media_def
     json_member_def with_media_def sample_asset_id_def format_int_def decimal_digits.simps json_string_def text_eval)

lemma sample_Prepare:
  assumes "rs_db s = remote_db"
  shows "\<exists>s'. Prepare sample_world remote_task (new_run ''t1'' ''n1'' k now) s = (Inr (request_body ''m'' prepared_content 5), s') \<and> rs_db s' = remote_db"
proof -
  obtain s1 where files: "spooled_files sample_world ''t1'' s = (Inr [], s1)" and db: "rs_db s1 = remote_db"
    using assms by (simp add: spooled_files_def on_store_def sample_world_def ListInputSpoolFiles_def spool_rows_def remote_db_def empty_db_def and_then_def)
  obtain s2 where "prepare_items sample_world ''t1'' (new_run ''t1'' ''n1'' k now) [] 0 0 remote_content s1 = (Inr prepared_content, s2)" "rs_db s2 = remote_db"
    using sample_items [OF db] by blast
  with files sample_check sample_body_short show ?thesis
    by (simp add: Prepare_def remote_task_def blank_task_def Let_def) (simp add: remote_request_def sample_world_def and_then_def)
qed

lemma sample_keyed: "assets_keyed (rs_db sample_state)"
  by (simp add: assets_keyed_def sample_state_def remote_db_def)

theorem Prepare_sound_witness:
  "\<exists>body s'. Prepare sample_world remote_task (new_run ''t1'' ''n1'' ''k'' 0) sample_state = (Inr body, s') \<and> json_valid body
     \<and> (\<exists>content. item_ready (rs_db s') ''t1'' ''n1'' 1 (remote_content ! 1) (content ! 1))"
proof -
  obtain s' where run: "Prepare sample_world remote_task (new_run ''t1'' ''n1'' ''k'' 0) sample_state = (Inr (request_body ''m'' prepared_content 5), s')"
    using sample_Prepare [of sample_state "''k''" 0] by (auto simp: sample_state_def)
  from Prepare_sound [OF sample_orderly run sample_keyed] obtain r content where ok: "json_valid (request_body ''m'' prepared_content 5)"
    and r: "vt_request (tk_row remote_task) = Some r" "length content = length (gr_content r)"
    and ready: "\<forall>j < length content. item_ready (rs_db s') (vt_task_id (tk_row remote_task)) (rr_node_id (new_run ''t1'' ''n1'' ''k'' 0)) j (gr_content r ! j) (content ! j)"
    by blast
  from r have "gr_content r = remote_content" by (auto simp: remote_task_def remote_request_def)
  with r ready have "item_ready (rs_db s') ''t1'' ''n1'' 1 (remote_content ! 1) (content ! 1)"
    by (auto simp: remote_task_def blank_task_def new_run_def remote_content_def)
  with run ok show ?thesis by blast
qed

theorem Prepare_repeatable_witness:
  "\<exists>s' s''. Prepare sample_world remote_task (new_run ''t1'' ''n1'' ''k'' 0) sample_state = (Inr (request_body ''m'' prepared_content 5), s')
     \<and> Prepare sample_world remote_task (new_run ''t1'' ''n1'' ''k2'' 7) s' = (Inr (request_body ''m'' prepared_content 5), s'')"
proof -
  obtain s' where run: "Prepare sample_world remote_task (new_run ''t1'' ''n1'' ''k'' 0) sample_state = (Inr (request_body ''m'' prepared_content 5), s')"
    and db: "rs_db s' = remote_db" using sample_Prepare [of sample_state "''k''" 0] by (auto simp: sample_state_def)
  obtain body s'' where again: "Prepare sample_world remote_task (new_run ''t1'' ''n1'' ''k2'' 7) s' = (Inr body, s'')"
    using sample_Prepare [OF db] by blast
  have "body = request_body ''m'' prepared_content 5"
    by (rule Prepare_repeatable [OF sample_orderly run sample_keyed _ sample_orderly again]) (simp_all add: new_run_def)
  with run again show ?thesis by blast
qed

theorem upload_integrity_witness:
  "\<exists>a x. upload_answer sample_world sample_env ''t1'' ''n1'' 1 (remote_content ! 1) None ''media_url'' ''input-1.png''
       (stream_reads [16, 16] (stream_of png_magic AtEOF (inputLimit ''image_url''))) (Inr sample_asset) = Inr (a, x)
     \<and> na_source_sha256 x = sha256_hex sample_env png_magic \<and> na_size_bytes x = 8"
proof -
  let ?c = "remote_content ! 1" and ?st = "stream_reads [16, 16] (stream_of png_magic AtEOF (inputLimit ''image_url''))"
  have type: "gc_type ?c = ''image_url''" by (simp add: remote_content_def)
  have len: "length png_magic = 8" "png_magic \<noteq> []" by (simp_all add: png_magic_def)
  have st: "?st = (stream_of png_magic AtEOF (inputLimit ''image_url''))\<lparr>st_rest := [], st_size := 8, st_hashed := png_magic, st_eof := True\<rparr>"
    using len by (simp add: stream_reads_def stream_of_def stream_read_def inputLimit_def)
  have "check_upload (sha256_hex sample_env (st_hashed ?st)) None 1 ?c sample_asset ?st = None"
    unfolding st using sample_asset_valid type by (simp add: check_upload_def stream_read_def stream_of_def) (simp add: sample_asset_def)
  then obtain a x where run: "upload_answer sample_world sample_env ''t1'' ''n1'' 1 ?c None ''media_url'' ''input-1.png'' ?st (Inr sample_asset) = Inr (a, x)"
    by (simp add: upload_answer_def Let_def)
  have "?st = stream_reads [16, 16] (stream_of png_magic AtEOF (inputLimit (gc_type ?c)))" by (simp only: type)
  from upload_integrity [OF this run] have "na_source_sha256 x = sha256_hex sample_env png_magic" "na_size_bytes x = 8"
    using len by (simp_all add: type inputLimit_def)
  with run show ?thesis by blast
qed

end
