(* ===== verification/RemoteResults.thy ===== *)
theory RemoteResults
  imports RemoteInputs "HOL-Library.While_Combinator" "HOL-Library.Signed_Division"
begin

text \<open>
  \<^verbatim>\<open>internal/remote/result_access.go\<close>: the client of a node as its users see it, the checks of what it reports as the result
  of a task, and the refreshing of result addresses that expire.
\<close>

section \<open>The client of the node\<close>

text \<open>The answers of the node, as a function of the number of the call. A status is the text the node sends.\<close>

record TaskError =
  te_Code :: string
  te_Message :: string

record UpstreamTask =
  ut_ID :: string
  ut_Model :: string
  ut_Status :: string
  ut_VideoURL :: string
  ut_Error :: "TaskError option"

record Metadata =
  md_Duration :: float64
  md_Width :: int
  md_Height :: int

record RemoteClient =
  rc_submit :: "nat \<Rightarrow> string \<Rightarrow> string \<Rightarrow> ClientError + string"
  rc_query :: "nat \<Rightarrow> string \<Rightarrow> ClientError + UpstreamTask"
  rc_cancel :: "nat \<Rightarrow> string \<Rightarrow> ClientError option"
  rc_metadata :: "nat \<Rightarrow> string \<Rightarrow> ClientError + Metadata"

definition unix :: "int \<Rightarrow> int" where
  "unix t = t div second"

section \<open>Results\<close>

text \<open>Go's remainder truncates.\<close>

lemma smod_smaller: "y \<noteq> 0 \<Longrightarrow> \<bar>x smod y\<bar> < \<bar>y\<bar>" for x y :: int
  using smod_int_range [of y x] by auto

function gcd_loop :: "int \<Rightarrow> int \<Rightarrow> int" where
  "gcd_loop x y = (if y = 0 then x else gcd_loop y (x smod y))"
  by pat_completeness auto
termination by (relation "measure (\<lambda>(x, y). nat \<bar>y\<bar>)") (use smod_smaller in auto)

declare gcd_loop.simps [simp del]

definition ActualMetadata :: "(Metadata \<Rightarrow> string \<Rightarrow> string option \<Rightarrow> string) \<Rightarrow> Metadata \<Rightarrow> (string \<times> string) option" where
  "ActualMetadata encode m =
     (if md_Width m \<le> 0 \<or> md_Height m \<le> 0 \<or> (case md_Duration m of Finite q \<Rightarrow> q \<le> 0 | _ \<Rightarrow> True) then None
      else
        let g = gcd_loop (md_Width m) (md_Height m); short = min (md_Width m) (md_Height m);
            ratio = format_int (md_Width m div g) @ '':'' @ format_int (md_Height m div g);
            resolution = (if short \<in> {480, 720, 1080, 2160} then Some (format_int short @ ''p'') else None)
        in Some (encode m ratio resolution, ratio))"

definition query_values :: "string \<Rightarrow> (string \<times> string list) list \<Rightarrow> string list" where
  "query_values k q = (case map_of q k of None \<Rightarrow> [] | Some vs \<Rightarrow> vs)"

text \<open>\<open>strconv.ParseInt\<close> in base 10 at 64 bits.\<close>

definition parse_int64 :: "string \<Rightarrow> int option" where
  "parse_int64 s =
     (let neg = has_prefix s ''-''; ds = (if has_prefix s ''-'' \<or> has_prefix s ''+'' then tl s else s) in
      case parse_digits ds of None \<Rightarrow> None
      | Some n \<Rightarrow> let v = (if neg then - int n else int n) in if v < - (2 ^ 63) \<or> v \<ge> 2 ^ 63 then None else Some v)"

definition effective_port :: "ParsedURL \<Rightarrow> string" where
  "effective_port u = (if Port u \<noteq> [] then Port u else if u_scheme u = ''https'' then ''443'' else ''80'')"

definition trim_right_slash :: "string \<Rightarrow> string" where
  "trim_right_slash s = rev (dropWhile (\<lambda>c. c = CHR ''/'') (rev s))"

definition plain_id :: "string \<Rightarrow> bool" where
  "plain_id i \<longleftrightarrow> i \<noteq> [] \<and> list_all (\<lambda>c. c \<notin> {CHR ''/'', CHR 0x5C, CHR ''.'', CHR ''%''}) i"

definition same_origin :: "ParsedURL \<Rightarrow> ParsedURL \<Rightarrow> bool" where
  "same_origin u b \<longleftrightarrow> u_scheme u = u_scheme b \<and> equal_fold (Hostname u) (Hostname b) \<and> effective_port u = effective_port b"

definition bad_result_url :: "ParsedURL \<Rightarrow> ParsedURL \<Rightarrow> bool" where
  "bad_result_url u b \<longleftrightarrow> Hostname b = [] \<or> (u_scheme b \<noteq> ''http'' \<and> u_scheme b \<noteq> ''https'') \<or> Hostname u = [] \<or> u_has_user u \<or> u_opaque u \<noteq> []
     \<or> u_fragment u \<noteq> [] \<or> u_raw_path u \<noteq> [] \<or> contains_char (u_path u) (CHR 0x5C) \<or> (u_scheme u \<noteq> ''http'' \<and> u_scheme u \<noteq> ''https'')"

definition signed_until :: "(string \<Rightarrow> (string \<times> string list) list option) \<Rightarrow> string \<Rightarrow> int option" where
  "signed_until parse_query raw =
     (case parse_query raw of None \<Rightarrow> None
      | Some q \<Rightarrow>
          if length (query_values ''expires'' q) \<noteq> 1 \<or> length (query_values ''signature'' q) \<noteq> 1 \<or> hd (query_values ''signature'' q) = [] then None
          else parse_int64 (hd (query_values ''expires'' q)))"

definition default_guard :: "Guard \<Rightarrow> Guard" where
  "default_guard g = New [] (g_parse_url g) (g_parse_addr g) (g_resolve g)"

definition ValidateResultURL ::
  "Guard \<Rightarrow> (string \<Rightarrow> (string \<times> string list) list option) \<Rightarrow> nat \<Rightarrow> ParsedURL option \<Rightarrow> string \<Rightarrow> string \<Rightarrow> int \<Rightarrow> int option" where
  "ValidateResultURL g parse_query k base i raw now =
     (case g_parse_url g raw of None \<Rightarrow> None | Some u \<Rightarrow>
      case base of None \<Rightarrow> None | Some b \<Rightarrow>
        if bad_result_url u b then None
        else case signed_until parse_query (u_raw_query u) of None \<Rightarrow> None
        | Some expires \<Rightarrow>
            if expires \<le> unix now then None
            else if same_origin u b
            then (if \<not> plain_id i \<or> u_path u \<noteq> trim_right_slash (u_path b) @ ''/media/tasks/'' @ i then None else Some expires)
            else if u_scheme u \<noteq> ''https'' then None
            else case Validate (Some g) k raw of Inl _ \<Rightarrow> None | Inr _ \<Rightarrow> Some expires)"


section \<open>Refreshing a result\<close>

text \<open>The refreshes of other callers in flight at a call: what each was asked for and where it set off.\<close>

record ResultAccess =
  ra_world :: RemoteWorld
  ra_resolve :: "nat \<Rightarrow> string \<Rightarrow> (RemoteClient \<times> ParsedURL option) option"
  ra_guard :: "Guard option"
  ra_now :: "nat \<Rightarrow> int"
  ra_parse_query :: "string \<Rightarrow> (string \<times> string list) list option"
  ra_metadata_json :: "Metadata \<Rightarrow> string \<Rightarrow> string option \<Rightarrow> string"
  ra_download :: "nat \<Rightarrow> string \<Rightarrow> string \<Rightarrow> string \<Rightarrow> int \<Rightarrow> err + int"
  ra_flights :: "nat \<Rightarrow> (Task \<times> remote_state) list"

definition five_minutes :: int where
  "five_minutes = 300 * second"

definition row_update :: "(video_task \<Rightarrow> video_task) \<Rightarrow> Task \<Rightarrow> Task" where
  "row_update f t = t\<lparr>tk_row := f (tk_row t)\<rparr>"

definition publicResult :: "Task \<Rightarrow> Task" where
  "publicResult t = (if vt_delivery_required (tk_row t) then t else row_update (\<lambda>x. x\<lparr>vt_result_public_url := vt_latest_result_url x\<rparr>) t)"

definition public_url :: "Task \<Rightarrow> string" where
  "public_url t = coalesce (vt_result_public_url (tk_row t)) []"

definition latest_url :: "Task \<Rightarrow> string" where
  "latest_url t = coalesce (vt_latest_result_url (tk_row t)) []"

definition latest_expires :: "Task \<Rightarrow> int" where
  "latest_expires t = coalesce (vt_latest_result_expires_at (tk_row t)) 0"

definition metadata_ready :: "Task \<Rightarrow> bool" where
  "metadata_ready t \<longleftrightarrow> vt_metadata_status (tk_row t) = ''ready''"

definition fallbackResult :: "Task \<Rightarrow> int \<Rightarrow> Task \<times> err option" where
  "fallbackResult t now =
     (if vt_delivery_required (tk_row t) \<and> public_url t \<noteq> [] then (t, None)
      else if latest_url t \<noteq> [] \<and> latest_expires t > unix now then (publicResult t, None)
      else (row_update (\<lambda>x. x\<lparr>vt_result_public_url := None\<rparr>) t, Some ErrResultRefreshUnavailable))"

definition needs_url :: "Task \<Rightarrow> int \<Rightarrow> bool" where
  "needs_url t now \<longleftrightarrow> \<not> vt_delivery_required (tk_row t) \<and> (latest_url t = [] \<or> latest_expires t \<le> unix (now + five_minutes))"

definition fetch_url :: "ResultAccess \<Rightarrow> RemoteClient \<times> ParsedURL option \<Rightarrow> string \<Rightarrow> Task \<Rightarrow> int \<Rightarrow> ('e, remote_state, string \<times> int) tx" where
  "fetch_url a c i task now =
     (if \<not> needs_url task now then ret ([], 0)
      else and_then (ask (\<lambda>n. rc_query (fst c) n i)) (\<lambda>q.
        case q of Inl _ \<Rightarrow> ret ([], 0)
        | Inr result \<Rightarrow>
            if ut_ID result \<noteq> i \<or> ut_Model result \<noteq> vt_model (tk_row task) \<or> ut_Status result \<noteq> ''succeeded'' then ret ([], 0)
            else and_then (ask (\<lambda>n. ValidateResultURL (case ra_guard a of Some g \<Rightarrow> g | None \<Rightarrow> default_guard (w_guard (ra_world a)))
                     (ra_parse_query a) n (snd c) i (ut_VideoURL result) now)) (\<lambda>v.
              ret (case v of None \<Rightarrow> ([], 0) | Some ex \<Rightarrow> (ut_VideoURL result, ex)))))"

definition fetch_metadata :: "ResultAccess \<Rightarrow> RemoteClient \<times> ParsedURL option \<Rightarrow> string \<Rightarrow> Task \<Rightarrow> ('e, remote_state, string option) tx" where
  "fetch_metadata a c i task =
     (if metadata_ready task then ret None
      else and_then (ask (\<lambda>n. rc_metadata (fst c) n i)) (\<lambda>m.
        ret (case m of Inl _ \<Rightarrow> None | Inr meta \<Rightarrow> map_option fst (ActualMetadata (ra_metadata_json a) meta))))"

definition result_update :: "Task \<Rightarrow> string \<times> int \<Rightarrow> string option \<Rightarrow> RemoteResultUpdate" where
  "result_update task url meta =
     \<lparr>up_url = fst url, up_expires_at = snd url, up_metadata_json = coalesce meta [],
      up_metadata_status = (if meta \<noteq> None then ''ready''
         else if vt_metadata_status (tk_row task) \<in> {[], ''none''} then ''pending'' else vt_metadata_status (tk_row task))\<rparr>"

definition with_result :: "string \<times> int \<Rightarrow> string option \<Rightarrow> Task \<Rightarrow> Task" where
  "with_result url meta =
     row_update (\<lambda>x. (if fst url = [] then x else x\<lparr>vt_latest_result_url := Some (fst url), vt_latest_result_expires_at := Some (snd url)\<rparr>)
       \<lparr>vt_result_metadata_json := (if meta = None then vt_result_metadata_json x else meta),
        vt_metadata_status := (if meta = None then vt_metadata_status x else ''ready'')\<rparr>)"

definition store_result :: "ResultAccess \<Rightarrow> Task \<Rightarrow> string \<Rightarrow> string \<times> int \<Rightarrow> string option \<Rightarrow> ('e, remote_state, Task \<times> err option) tx" where
  "store_result a task node url meta =
     (if fst url = [] \<and> meta = None then and_then (ask (ra_now a)) (\<lambda>now. ret (fallbackResult task now))
      else and_then (on_store (ra_world a) (\<lambda>e. UpdateRemoteResult e (vt_task_id (tk_row task)) node (result_update task url meta))) (\<lambda>r.
        case r of Inl er \<Rightarrow> ret (task, Some er)
        | Inr _ \<Rightarrow> and_then (ask (ra_now a)) (\<lambda>now. ret (fallbackResult (with_result url meta task) now))))"

definition refresh_known :: "ResultAccess \<Rightarrow> Task \<Rightarrow> int \<Rightarrow> ('e, remote_state, Task \<times> err option) tx" where
  "refresh_known a task now =
     (if \<not> needs_url task now \<and> metadata_ready task then ret (publicResult task, None)
      else and_then (on_store (ra_world a) (\<lambda>e. GetRemoteRun (vt_task_id (tk_row task)))) (\<lambda>r.
        case r of Inl _ \<Rightarrow> ret (fallbackResult task now)
        | Inr run \<Rightarrow>
            let i = coalesce (rr_upstream_task_id run) [] in
            if rr_node_id run \<noteq> coalesce (vt_upstream_id (tk_row task)) [] \<or> i = [] \<or> rr_upstream_status run \<noteq> Some UpSucceeded then ret (fallbackResult task now)
            else and_then (ask (\<lambda>n. ra_resolve a n (rr_node_id run))) (\<lambda>resolved.
              case resolved of None \<Rightarrow> ret (fallbackResult task now)
              | Some c \<Rightarrow>
                  and_then (fetch_url a c i task now) (\<lambda>url.
                  and_then (fetch_metadata a c i task) (\<lambda>meta. store_result a task (rr_node_id run) url meta)))))"

definition refresh :: "ResultAccess \<Rightarrow> Task \<Rightarrow> ('e, remote_state, Task \<times> err option) tx" where
  "refresh a task =
     and_then (on_store (ra_world a) (\<lambda>e. GetTaskForExecution (vt_task_id (tk_row task)))) (\<lambda>r.
     case r of Inl er \<Rightarrow> ret (task, Some er)
     | Inr fresh \<Rightarrow>
         let t = tk_row fresh in
         if vt_deleted_at t \<noteq> None \<or> vt_api_key_id t \<noteq> vt_api_key_id (tk_row task) \<or> vt_protocol_version t \<noteq> Some ProtocolTK2SD \<or> vt_status t \<noteq> StatusSucceeded
         then ret (task, Some ErrTaskNotFound)
         else and_then (ask (ra_now a)) (refresh_known a fresh))"

text \<open>Waiting for one of the four slots ends when the context is done.\<close>

definition fly :: "ResultAccess \<Rightarrow> Task \<Rightarrow> ('e, remote_state, Task \<times> err option) tx" where
  "fly a task =
     and_then (gets (\<lambda>s. w_done (ra_world a) (rs_calls s))) (\<lambda>stop.
     if stop then ret (task, Some (ErrText ''context'')) else refresh a task)"

definition flight_key :: "Task \<Rightarrow> string" where
  "flight_key task = vt_api_key_id (tk_row task) @ [CHR 0x00] @ vt_task_id (tk_row task)"

definition flight_of :: "ResultAccess \<Rightarrow> string \<Rightarrow> nat \<Rightarrow> (Task \<times> remote_state) option" where
  "flight_of a key n = List.find (\<lambda>f. flight_key (fst f) = key) (ra_flights a n)"

text \<open>A caller that finds a flight for its key waits for it, or for the end of its context, and returns what the flight does.\<close>

definition join_flight :: "ResultAccess \<Rightarrow> Task \<Rightarrow> Task \<times> remote_state \<Rightarrow> ('e, remote_state, Task \<times> err option) tx" where
  "join_flight a task f =
     and_then (gets (\<lambda>s. w_done (ra_world a) (rs_calls s))) (\<lambda>stop.
     if stop then ret (task, Some (ErrText ''context'')) else of_result (fst (fly a (fst f) (snd f))))"

definition Refresh :: "ResultAccess \<Rightarrow> Task \<Rightarrow> ('e, remote_state, Task \<times> err option) tx" where
  "Refresh a task =
     (let t = tk_row task in
      if vt_protocol_version t \<noteq> Some ProtocolTK2SD \<or> vt_status t \<noteq> StatusSucceeded then ret (task, None)
      else if vt_delivery_required t \<and> public_url task \<noteq> [] \<and> metadata_ready task then ret (task, None)
      else and_then (ask (ra_now a)) (\<lambda>now.
        if latest_url task \<noteq> [] \<and> latest_expires task > unix (now + five_minutes) \<and> metadata_ready task then ret (publicResult task, None)
        else and_then (ask (flight_of a (flight_key task))) (\<lambda>f. case f of Some f \<Rightarrow> join_flight a task f | None \<Rightarrow> fly a task)))"

definition download_limit :: "int \<Rightarrow> int" where
  "download_limit maxBytes = (if maxBytes \<le> 0 \<or> maxBytes > 2 ^ 31 then 2 ^ 31 else maxBytes)"

definition Download :: "ResultAccess \<Rightarrow> Task \<Rightarrow> string \<Rightarrow> int \<Rightarrow> (err, remote_state, int) tx" where
  "Download a task destination maxBytes =
     and_then (on_store (ra_world a) (\<lambda>e. GetTaskForExecution (vt_task_id (tk_row task)))) (\<lambda>r.
     case r of Inl er \<Rightarrow> raise er
     | Inr fresh \<Rightarrow>
         let t = tk_row fresh in
         if vt_deleted_at t \<noteq> None \<or> vt_api_key_id t \<noteq> vt_api_key_id (tk_row task) \<or> vt_protocol_version t \<noteq> Some ProtocolTK2SD then raise ErrTaskNotFound
         else and_then (on_store (ra_world a) (\<lambda>e. GetRemoteRun (vt_task_id (tk_row task)))) (\<lambda>q.
           case q of Inl er \<Rightarrow> raise er
           | Inr run \<Rightarrow>
               let i = coalesce (rr_upstream_task_id run) [] in
               if rr_node_id run \<noteq> coalesce (vt_upstream_id t) [] \<or> rr_phase run \<noteq> RemoteTerminal \<or> rr_upstream_status run \<noteq> Some UpSucceeded \<or> i = []
               then raise ErrStateConflict
               else and_then (ask (\<lambda>n. ra_resolve a n (rr_node_id run))) (\<lambda>resolved.
                 case resolved of None \<Rightarrow> raise (ErrText ''resolve'')
                 | Some _ \<Rightarrow> and_then (ask (\<lambda>n. ra_download a n (rr_node_id run) i destination (download_limit maxBytes))) of_result)))"


section \<open>The ratio of a result\<close>

lemma smod_positive: "0 \<le> x \<Longrightarrow> 0 \<le> y \<Longrightarrow> y \<noteq> 0 \<Longrightarrow> x smod y = x mod y \<and> 0 \<le> x mod y" for x y :: int
  by (auto simp: signed_modulo_int_def sgn_if)

lemma gcd_loop_gcd: "0 \<le> x \<Longrightarrow> 0 \<le> y \<Longrightarrow> gcd_loop x y = gcd x y"
proof (induction x y rule: gcd_loop.induct)
  case (1 x y)
  then show ?case
    by (cases "y = 0") (auto simp: gcd_loop.simps [of x y] gcd_loop.simps [of x 0] gcd_red_int [of x y] smod_positive)
qed

definition euclid :: "int \<Rightarrow> int \<Rightarrow> (int \<times> int) option" where
  "euclid x y = while_option (\<lambda>(x, y). y \<noteq> 0) (\<lambda>(x, y). (y, x smod y)) (x, y)"

lemma euclid_step: "euclid x y = (if y = 0 then Some (x, 0) else euclid y (x smod y))"
  unfolding euclid_def by (subst while_option_unfold) simp

lemma euclid_returns: "0 \<le> x \<Longrightarrow> 0 \<le> y \<Longrightarrow> euclid x y = Some (gcd x y, 0)"
proof (induction x y rule: gcd_loop.induct)
  case (1 x y)
  show ?case
  proof (cases "y = 0")
    case False
    with 1 smod_positive [of x y] show ?thesis by (simp add: euclid_step [of x y] gcd_red_int [of x y])
  qed (use 1 in \<open>simp add: euclid_step [of x 0]\<close>)
qed

text \<open>C36: The loop that reduces the ratio of a result returns for every positive size, and the ratio it leads to is the size of the
  video in lowest terms.\<close>

theorem ActualMetadata_ratio:
  assumes "md_Width m > 0" and "md_Height m > 0"
  shows "while_option (\<lambda>(x, y). y \<noteq> 0) (\<lambda>(x, y). (y, x smod y)) (md_Width m, md_Height m) = Some (gcd_loop (md_Width m) (md_Height m), 0)
    \<and> ((\<exists>q > 0. md_Duration m = Finite q) \<longleftrightarrow> ActualMetadata encode m \<noteq> None)
    \<and> (\<forall>x. ActualMetadata encode m = Some x \<longrightarrow> (\<exists>a b. snd x = format_int a @ '':'' @ format_int b
        \<and> a > 0 \<and> b > 0 \<and> a * md_Height m = b * md_Width m \<and> coprime a b))"
proof -
  let ?w = "md_Width m" and ?h = "md_Height m" and ?g = "gcd (md_Width m) (md_Height m)"
  have g: "gcd_loop ?w ?h = ?g" using assms by (simp add: gcd_loop_gcd)
  have "?g > 0" using assms by simp
  moreover obtain a b where ab: "?w = ?g * a" "?h = ?g * b" "coprime a b"
    by (metis gcd_coprime_exists assms(1) less_irrefl gcd_eq_0_iff mult.commute)
  ultimately have pos: "a > 0" "b > 0" using assms by (metis zero_less_mult_pos)+
  have div: "?w div ?g = a" "?h div ?g = b" using ab(1,2) \<open>?g > 0\<close> by (metis nonzero_mult_div_cancel_left less_irrefl)+
  have "a * ?h = b * ?w" using ab(1,2) by (metis mult.assoc mult.commute)
  moreover have "snd x = format_int a @ '':'' @ format_int b" if "ActualMetadata encode m = Some x" for x
    using that by (auto simp: ActualMetadata_def g div Let_def split: if_splits)
  moreover have "(\<exists>q > 0. md_Duration m = Finite q) \<longleftrightarrow> ActualMetadata encode m \<noteq> None"
    using assms by (auto simp: ActualMetadata_def Let_def not_le split: float64.splits)
  ultimately show ?thesis using euclid_returns [of ?w ?h] assms pos ab(3) g by (auto simp: euclid_def)
qed

section \<open>Addresses of results\<close>

lemma validate_addresses:
  assumes "Validate (Some g) k raw = Inr x"
  shows "\<forall>a \<in> set (snd x). \<not> isUnsafe a"
  using assms lookup_safe [of g k] by (force simp: Validate_def split: option.splits sum.splits if_splits)

text \<open>A reported result address is only accepted while it is valid, and when it is the address of this very task on the node itself, or an
  HTTPS address none of whose IP addresses lies in a protected range.\<close>

theorem ValidateResultURL_safe:
  assumes "ValidateResultURL g parse_query k (Some b) i raw now = Some ex"
  shows "unix now < ex \<and> ex < 2 ^ 63 \<and> (\<exists>u. g_parse_url g raw = Some u \<and> \<not> u_has_user u \<and> u_fragment u = []
    \<and> (same_origin u b \<and> u_path u = trim_right_slash (u_path b) @ ''/media/tasks/'' @ i \<and> CHR ''/'' \<notin> set i
       \<or> u_scheme u = ''https'' \<and> (\<exists>x. Validate (Some g) k raw = Inr x
           \<and> (\<forall>n. V4 n \<in> set (snd x) \<longrightarrow> \<not> (\<exists>(lo, hi) \<in> set v4_ranges. lo \<le> unat n \<and> unat n < hi)))))"
proof -
  from assms obtain u where u: "g_parse_url g raw = Some u" "\<not> bad_result_url u b" "signed_until parse_query (u_raw_query u) = Some ex" "unix now < ex"
    and origin: "(if same_origin u b then plain_id i \<and> u_path u = trim_right_slash (u_path b) @ ''/media/tasks/'' @ i
      else u_scheme u = ''https'' \<and> (\<exists>x. Validate (Some g) k raw = Inr x))"
    by (auto simp: ValidateResultURL_def split: option.splits if_splits sum.splits)
  have "ex < 2 ^ 63" using u(3) by (auto simp: signed_until_def parse_int64_def Let_def split: option.splits if_splits)
  moreover have "\<not> u_has_user u" "u_fragment u = []" using u(2) by (simp_all add: bad_result_url_def)
  moreover have "CHR ''/'' \<notin> set i" if "plain_id i" using that by (auto simp: plain_id_def list_all_iff)
  moreover have "\<forall>n. V4 n \<in> set (snd x) \<longrightarrow> \<not> (\<exists>(lo, hi) \<in> set v4_ranges. lo \<le> unat n \<and> unat n < hi)" if "Validate (Some g) k raw = Inr x" for x
    using validate_addresses [OF that] v4_ranges_eq by blast
  ultimately show ?thesis using u(1,4) origin by (cases "same_origin u b") auto
qed

section \<open>Refreshed results\<close>

definition usable :: "Task \<Rightarrow> int \<Rightarrow> bool" where
  "usable t now \<longleftrightarrow> public_url t = latest_url t \<and> latest_url t \<noteq> [] \<and> latest_expires t > unix now"

interpretation clock: step_contract "\<lambda>s s' :: remote_state. rs_calls s \<le> rs_calls s'"
  by unfold_locales auto

lemma calls_on_store: "keeps (\<lambda>s s' :: remote_state. rs_calls s \<le> rs_calls s') (on_store w f)"
  by (rule keepsI) (auto simp: on_store_def Let_def split: if_splits prod.splits)

lemma calls_ask: "keeps (\<lambda>s s' :: remote_state. rs_calls s \<le> rs_calls s') (ask f)"
  by (simp add: keeps_def ask_def)

lemmas calls_intros = clock.keeps_intros calls_on_store calls_ask

lemma fetch_calls: "keeps (\<lambda>s s'. rs_calls s \<le> rs_calls s') (fetch_url a c i task now)" "keeps (\<lambda>s s'. rs_calls s \<le> rs_calls s') (fetch_metadata a c i task)"
  unfolding fetch_url_def fetch_metadata_def by (auto intro!: calls_intros split: sum.splits)

lemma calls_refresh_known: "keeps (\<lambda>s s'. rs_calls s \<le> rs_calls s') (refresh_known a task now)"
  unfolding refresh_known_def store_result_def Let_def
  by (auto intro!: calls_intros fetch_calls split: sum.splits option.splits)

lemma delivery_public [simp]: "vt_delivery_required (tk_row (publicResult t)) = vt_delivery_required (tk_row t)"
  by (simp add: publicResult_def row_update_def)

lemma public_usable: "\<not> vt_delivery_required (tk_row t) \<Longrightarrow> latest_url t \<noteq> [] \<Longrightarrow> latest_expires t > unix now \<Longrightarrow> usable (publicResult t) now"
  by (simp add: usable_def publicResult_def row_update_def public_url_def latest_url_def latest_expires_def)

lemma fallback_usable: "fallbackResult t now = (t', None) \<Longrightarrow> \<not> vt_delivery_required (tk_row t') \<Longrightarrow> usable t' now"
  by (auto simp: fallbackResult_def public_usable split: if_splits)

lemma unix_later: "x > unix (now + five_minutes) \<Longrightarrow> x > unix now"
  by (rule le_less_trans [of _ "unix (now + five_minutes)"]) (simp_all add: unix_def five_minutes_def second_def zdiv_mono1)

definition usable_during :: "ResultAccess \<Rightarrow> remote_state \<Rightarrow> remote_state \<Rightarrow> Task \<Rightarrow> bool" where
  "usable_during a s s' t \<longleftrightarrow> (\<exists>n. rs_calls s \<le> n \<and> n < rs_calls s' \<and> usable t (ra_now a n))"

lemma ask_success [simp]: "ask f s = (Inr x, s') \<longleftrightarrow> x = f (rs_calls s) \<and> s' = s\<lparr>rs_calls := Suc (rs_calls s)\<rparr>"
  by (auto simp: ask_def)

lemma usable_later: "usable_during a s1 s' t \<Longrightarrow> rs_calls s \<le> rs_calls s1 \<Longrightarrow> usable_during a s s' t"
  unfolding usable_during_def by (blast intro: le_trans)

lemma store_result_usable:
  assumes "store_result a task node url meta s = (Inr (t', None), s')" and "\<not> vt_delivery_required (tk_row t')"
  shows "usable_during a s s' t'"
proof (cases "fst url = [] \<and> meta = None")
  case True
  with assms show ?thesis by (auto simp: store_result_def and_then_success_iff usable_during_def dest: fallback_usable)
next
  case False
  from assms(1) [unfolded store_result_def if_not_P [OF False]] show ?thesis
  proof (cases rule: and_then_cases)
    case (went r s1)
    then have fb: "fallbackResult (with_result url meta task) (ra_now a (rs_calls s1)) = (t', None)" "rs_calls s' = Suc (rs_calls s1)"
      by (auto simp: and_then_success_iff split: sum.splits)
    have "rs_calls s \<le> rs_calls s1" using keepsD [OF calls_on_store went(1)] .
    with fb(2) fallback_usable [OF fb(1) assms(2)] show ?thesis by (auto simp: usable_during_def)
  qed simp
qed

lemma fetched_usable:
  assumes "and_then (fetch_url a c i task now) (\<lambda>url. and_then (fetch_metadata a c i task) (store_result a task node url)) s = (Inr (t', None), s')"
    and "\<not> vt_delivery_required (tk_row t')"
  shows "usable_during a s s' t'"
proof -
  from assms(1) obtain url meta s1 s2 where 1: "fetch_url a c i task now s = (Inr url :: 'a + _, s1)" and 2: "fetch_metadata a c i task s1 = (Inr meta :: 'a + _, s2)"
    and 3: "store_result a task node url meta s2 = (Inr (t', None) :: 'a + _, s')"
    by (auto simp: and_then_success_iff)
  have "rs_calls s \<le> rs_calls s2" using keepsD [OF fetch_calls(1) 1] keepsD [OF fetch_calls(2) 2] by simp
  with store_result_usable [OF 3 assms(2)] show ?thesis by (rule usable_later)
qed

lemma refresh_known_usable:
  assumes "refresh_known a task now s = (Inr (t', None), s')" and "\<not> vt_delivery_required (tk_row t')"
  shows "usable t' now \<or> usable_during a s s' t'"
proof (cases "\<not> needs_url task now \<and> metadata_ready task")
  case True
  with assms have "t' = publicResult task" by (simp add: refresh_known_def)
  with True assms(2) show ?thesis by (auto simp: needs_url_def not_le intro!: public_usable dest: unix_later)
next
  case False
  from assms(1) [unfolded refresh_known_def if_not_P [OF False]] show ?thesis
  proof (cases rule: and_then_cases)
    case (went r s1)
    have later: "rs_calls s \<le> rs_calls s1" using keepsD [OF calls_on_store went(1)] .
    show ?thesis
    proof (cases r)
      case (Inl er)
      with went(2) assms(2) show ?thesis by (auto dest: fallback_usable)
    next
      case (Inr run)
      let ?i = "coalesce (rr_upstream_task_id run) []"
      let ?s2 = "s1\<lparr>rs_calls := Suc (rs_calls s1)\<rparr>"
      consider "fallbackResult task now = (t', None)"
        | c where "and_then (fetch_url a c ?i task now) (\<lambda>url. and_then (fetch_metadata a c ?i task) (store_result a task (rr_node_id run) url)) ?s2
            = (Inr (t', None) :: 'a + _, s')"
        using went(2) unfolding Inr Let_def
        by (cases "ra_resolve a (rs_calls s1) (rr_node_id run)") (simp_all add: ask_def and_then_Inr [of "ask _", OF ask_success [THEN iffD2]] split: if_splits)
      then show ?thesis
      proof cases
        case 1
        with assms(2) show ?thesis by (auto dest: fallback_usable)
      next
        case 2
        from fetched_usable [OF 2 assms(2)] later show ?thesis by (auto intro: usable_later)
      qed
    qed
  qed simp
qed

lemma fly_usable:
  assumes "fly a task s = (Inr (t', None) :: 'e + _, s')" and "\<not> vt_delivery_required (tk_row t')"
  shows "usable_during a s s' t'"
proof -
  from assms(1) have "refresh a task s = (Inr (t', None) :: 'e + _, s')" by (auto simp: fly_def and_then_success_iff split: if_splits)
  then show ?thesis unfolding refresh_def
  proof (cases rule: and_then_cases)
    case (went r s2)
    have later: "rs_calls s \<le> rs_calls s2" using keepsD [OF calls_on_store went(1)] .
    from went(2) obtain fresh where "and_then (ask (ra_now a)) (refresh_known a fresh) s2 = (Inr (t', None) :: 'e + _, s')"
      by (cases r) (auto simp: Let_def split: if_splits)
    then have known: "refresh_known a fresh (ra_now a (rs_calls s2)) (s2\<lparr>rs_calls := Suc (rs_calls s2)\<rparr>) = (Inr (t', None) :: 'e + _, s')"
      by (simp add: and_then_success_iff)
    have "rs_calls s2 < rs_calls s'" using keepsD [OF calls_refresh_known known] by simp
    with later have here: "usable_during a s s' t'" if "usable t' (ra_now a (rs_calls s2))"
      using that unfolding usable_during_def by (intro exI [of _ "rs_calls s2"]) simp
    have "rs_calls s \<le> rs_calls (s2\<lparr>rs_calls := Suc (rs_calls s2)\<rparr>)" using later by simp
    with refresh_known_usable [OF known assms(2)] here show ?thesis by (blast intro: usable_later)
  qed simp
qed

text \<open>C35: A successful refresh never hands out a dead address: for a finished remote task whose result is not delivered by the proxy itself, whatever
  was refetched, the public address of the answer is its latest one and expires after a moment at which the clock was read during the refresh, or, for a caller that joined
  another one's refresh of the same task, during that one.\<close>

theorem Refresh_hands_out_live_results:
  assumes "Refresh a task s = (Inr (t', None) :: 'e + _, s')" and "vt_protocol_version (tk_row task) = Some ProtocolTK2SD" and "vt_status (tk_row task) = StatusSucceeded"
    and "\<not> vt_delivery_required (tk_row task)" and "\<not> vt_delivery_required (tk_row t')"
  shows "\<exists>n first last. (case flight_of a (flight_key task) (Suc (rs_calls s)) of
          None \<Rightarrow> first = s \<and> last = s'
        | Some f \<Rightarrow> first = s \<and> last = s' \<or> first = snd f \<and> flight_key (fst f) = flight_key task \<and> fly a (fst f) first = (Inr (t', None) :: 'e + _, last))
     \<and> rs_calls first \<le> n \<and> n < rs_calls last \<and> public_url t' = latest_url t' \<and> public_url t' \<noteq> [] \<and> latest_expires t' > unix (ra_now a n)"
proof -
  let ?now = "ra_now a (rs_calls s)" and ?s1 = "s\<lparr>rs_calls := Suc (rs_calls s)\<rparr>" and ?s2 = "s\<lparr>rs_calls := Suc (Suc (rs_calls s))\<rparr>"
    and ?f = "flight_of a (flight_key task) (Suc (rs_calls s))"
  have own: ?thesis if "usable_during a s s' t'"
  proof -
    from that obtain n where "rs_calls s \<le> n" "n < rs_calls s'" "public_url t' = latest_url t'" "public_url t' \<noteq> []" "latest_expires t' > unix (ra_now a n)"
      by (auto simp: usable_during_def usable_def)
    then show ?thesis by (intro exI [of _ n] exI [of _ s] exI [of _ s']) (simp split: option.split)
  qed
  consider "t' = publicResult task" "latest_url task \<noteq> []" "latest_expires task > unix (?now + five_minutes)" "s' = ?s1"
    | "?f = None" "fly a task ?s2 = (Inr (t', None) :: 'e + _, s')"
    | f where "?f = Some f" "fst (fly a (fst f) (snd f)) = (Inr (t', None) :: 'e + _)"
    using assms(1-4) by (auto simp: Refresh_def Let_def and_then_success_iff join_flight_def of_result_def split: if_splits option.splits sum.splits)
  then show ?thesis
  proof cases
    case 1
    with assms(4) show ?thesis by (intro own) (auto simp: usable_during_def intro!: exI [of _ "rs_calls s"] public_usable dest: unix_later)
  next
    case 2
    from usable_later [OF fly_usable [OF 2(2) assms(5)], of s] show ?thesis by (intro own) simp
  next
    case (3 f)
    obtain e where e: "fly a (fst f) (snd f) = (Inr (t', None) :: 'e + _, e)" using 3(2) by (cases "fly a (fst f) (snd f) :: ('e + _) \<times> _") auto
    from fly_usable [OF e assms(5)] obtain n where n: "rs_calls (snd f) \<le> n" "n < rs_calls e" "public_url t' = latest_url t'" "public_url t' \<noteq> []"
      "latest_expires t' > unix (ra_now a n)" by (auto simp: usable_during_def usable_def)
    have "flight_key (fst f) = flight_key task" using 3(1) by (auto simp: flight_of_def find_Some_iff)
    with 3(1) e n show ?thesis by (intro exI [of _ n] exI [of _ "snd f"] exI [of _ e]) simp
  qed
qed


section \<open>Witnesses\<close>

definition sample_metadata :: Metadata where
  "sample_metadata = \<lparr>md_Duration = Finite 5, md_Width = 1920, md_Height = 1080\<rparr>"

theorem ActualMetadata_ratio_witness:
  "while_option (\<lambda>(x, y). y \<noteq> 0) (\<lambda>(x, y). (y, x smod y)) (1920 :: int, 1080) = Some (120, 0)
   \<and> ActualMetadata (\<lambda>_ _ _. ''{}'') sample_metadata \<noteq> None"
proof -
  have "gcd_loop 1920 1080 = 120" by (simp add: gcd_loop.simps)
  with ActualMetadata_ratio [of sample_metadata "\<lambda>_ _ _. ''{}''"] show ?thesis by (simp add: sample_metadata_def)
qed

definition sample_result_url :: ParsedURL where
  "sample_result_url = \<lparr>u_scheme = ''http'', u_host = ''n'', u_has_user = False, u_fragment = [], u_opaque = [], u_path = ''/media/tasks/t'', u_raw_path = [], u_raw_query = ''q''\<rparr>"

definition sample_query :: "string \<Rightarrow> (string \<times> string list) list option" where
  "sample_query _ = Some [(''expires'', [''99'']), (''signature'', [''s''])]"

lemma sample_signed: "signed_until sample_query q = Some 99"
  by (simp add: signed_until_def sample_query_def query_values_def parse_int64_def parse_digits_def is_digit_char_def byte_def text_eval Let_def)

theorem ValidateResultURL_safe_witness:
  "ValidateResultURL (sample_guard\<lparr>g_parse_url := \<lambda>_. Some sample_result_url\<rparr>) sample_query 0 (Some (sample_target ''n'')) ''t'' ''http://n/media/tasks/t?q'' 0 = Some 99
   \<and> unix 0 < 99"
proof -
  have hosts: "Hostname sample_result_url = ''n''" "Port sample_result_url = []" "Hostname (sample_target ''n'') = ''n''" "Port (sample_target ''n'') = []"
    by (simp_all add: Hostname_def Port_def split_host_port_def unbracket_def has_suffix_def sample_result_url_def sample_target_def)
  have same: "same_origin sample_result_url (sample_target ''n'')"
    by (simp add: same_origin_def hosts effective_port_def) (simp add: sample_result_url_def sample_target_def equal_fold_def)
  have run: "ValidateResultURL (sample_guard\<lparr>g_parse_url := \<lambda>_. Some sample_result_url\<rparr>) sample_query 0 (Some (sample_target ''n'')) ''t'' ''http://n/media/tasks/t?q'' 0 = Some 99"
    using same by (simp add: ValidateResultURL_def sample_signed bad_result_url_def hosts unix_def second_def plain_id_def)
      (simp add: sample_result_url_def sample_target_def contains_char_def trim_right_slash_def)
  with ValidateResultURL_safe [OF run] show ?thesis by blast
qed

definition sample_access :: ResultAccess where
  "sample_access = \<lparr>ra_world = sample_world, ra_resolve = (\<lambda>_ _. None), ra_guard = None, ra_now = (\<lambda>n. int n), ra_parse_query = sample_query,
     ra_metadata_json = (\<lambda>_ _ _. ''{}''), ra_download = (\<lambda>_ _ _ _ _. Inl (ErrText ''download'')), ra_flights = (\<lambda>_. [])\<rparr>"

definition finished_task :: Task where
  "finished_task = \<lparr>tk_row = (blank_task ''t1'' 1)\<lparr>vt_protocol_version := Some ProtocolTK2SD, vt_status := StatusSucceeded, vt_latest_result_url := Some ''https://e/r'',
     vt_latest_result_expires_at := Some 60, vt_metadata_status := ''pending''\<rparr>, tk_RemotePhase = None, tk_RemoteUpstreamStatus = None, tk_RemoteCancelState = None\<rparr>"

text \<open>The node cannot be reached: the stored address is handed out while it lasts.\<close>

theorem Refresh_hands_out_live_results_witness:
  "\<exists>t' s'. Refresh sample_access finished_task (sample_state\<lparr>rs_db := empty_db\<lparr>video_tasks := [tk_row finished_task]\<rparr>\<rparr>) = (Inr (t', None) :: err + _, s')
     \<and> public_url t' = latest_url t' \<and> public_url t' \<noteq> []"
proof -
  let ?s = "sample_state\<lparr>rs_db := empty_db\<lparr>video_tasks := [tk_row finished_task]\<rparr>\<rparr>"
  have "\<exists>s'. Refresh sample_access finished_task ?s = (Inr (publicResult finished_task, None) :: err + _, s')"
    by (simp add: Refresh_def flight_of_def fly_def refresh_def refresh_known_def finished_task_def blank_task_def public_url_def latest_url_def latest_expires_def metadata_ready_def
        needs_url_def fallbackResult_def and_then_def ask_def on_store_def sample_access_def sample_world_def sample_state_def GetTaskForExecution_def
        task_by_def GetRemoteRun_def run_of_def scanTask_def empty_db_def Let_def unix_def five_minutes_def second_def publicResult_def row_update_def)
  then obtain s' where run: "Refresh sample_access finished_task ?s = (Inr (publicResult finished_task, None) :: err + _, s')" ..
  have pre: "vt_protocol_version (tk_row finished_task) = Some ProtocolTK2SD" "vt_status (tk_row finished_task) = StatusSucceeded"
    "\<not> vt_delivery_required (tk_row finished_task)" "\<not> vt_delivery_required (tk_row (publicResult finished_task))"
    by (simp_all add: finished_task_def blank_task_def publicResult_def row_update_def)
  from Refresh_hands_out_live_results [OF run pre]
  have "public_url (publicResult finished_task) = latest_url (publicResult finished_task)" "public_url (publicResult finished_task) \<noteq> []" by blast+
  with run show ?thesis by blast
qed

end
