(* ===== verification/RemoteWorker.thy ===== *)
theory RemoteWorker
  imports RemoteResults
begin

text \<open>
  \<^verbatim>\<open>internal/remote/processor.go\<close>: the worker that takes a remote task through its node. It is written against
  the interfaces of the store and of the node's client; between two of its calls other workers, and the
  goroutine that renews its own lease, may run any operations of the remote store.
\<close>

section \<open>The worker\<close>

text \<open>
  The worker: its node, its client, the parsers it calls (the URL of the node, the query of a URL, the model in a stored
  body, the encoding of metadata), the admission report and its clock in nanoseconds with its calendar date.
\<close>

record Processor =
  pr_world :: RemoteWorld
  pr_client :: RemoteClient
  pr_node_id :: string
  pr_node_version :: int
  pr_node_url :: "ParsedURL option"
  pr_capacity :: int
  pr_admission :: "nat \<Rightarrow> TK2SDAdmission option option"
  pr_lease_duration :: int
  pr_poll_interval :: int
  pr_now :: "nat \<Rightarrow> int"
  pr_day :: "int \<Rightarrow> string"
  pr_token :: "nat \<Rightarrow> string"
  pr_parse_query :: "string \<Rightarrow> (string \<times> string list) list option"
  pr_body_model :: "string \<Rightarrow> string option"
  pr_metadata_json :: "Metadata \<Rightarrow> string \<Rightarrow> string option \<Rightarrow> string"

definition rejected :: "ClientError \<Rightarrow> bool" where
  "rejected e = rejected_http (ce_http e)"

definition conflict :: "ClientError \<Rightarrow> bool" where
  "conflict e = (case ce_http e of None \<Rightarrow> False | Some h \<Rightarrow> he_StatusCode h = 409)"

definition feedback_of :: "int \<Rightarrow> string \<Rightarrow> string \<Rightarrow> UpstreamFeedback" where
  "feedback_of status code message =
     \<lparr>uf_http_status = status, uf_code = code, uf_type = [], uf_message = message, uf_resource_type = [], uf_request_id = []\<rparr>"

definition feedback :: "ClientError \<Rightarrow> UpstreamFeedback option" where
  "feedback e = map_option (\<lambda>h. feedback_of (he_StatusCode h) (he_Code h) (he_Message h)) (ce_http e)"

section \<open>One pass over a task\<close>

text \<open>How a pass ends: the code and the reconciliation mark for the lease, and the error that is returned.\<close>

record pass_end =
  pe_code :: string
  pe_reconcile :: bool
  pe_error :: "err option"

definition ends :: "string \<Rightarrow> bool \<Rightarrow> err option \<Rightarrow> pass_end" where
  "ends code reconcile er = \<lparr>pe_code = code, pe_reconcile = reconcile, pe_error = er\<rparr>"

definition pending :: "string \<Rightarrow> pass_end" where
  "pending code = ends code False (Some ErrRemotePending)"

definition reconcile :: "string \<Rightarrow> pass_end" where
  "reconcile code = ends code True (Some ErrRemoteReconciliation)"

text \<open>An early return is the error of the sequence.\<close>

type_synonym 'a pass = "(pass_end, remote_state, 'a) tx"

definition call :: "RemoteWorld \<Rightarrow> string \<Rightarrow> (StoreEnv \<Rightarrow> 'a op) \<Rightarrow> 'a pass" where
  "call w code f = and_then (on_store w f) (\<lambda>r. case r of Inl er \<Rightarrow> raise (ends code False (Some er)) | Inr x \<Rightarrow> ret x)"

definition no_completion :: "UpStatus \<Rightarrow> RemoteCompletion" where
  "no_completion st = \<lparr>co_status = st, co_result_url = [], co_result_expires_at = 0, co_metadata_json = [], co_metadata_status = [], co_ratio = [],
     co_error_code = [], co_error_message = [], co_feedback = None, co_upload_job = None\<rparr>"

definition complete :: "Processor \<Rightarrow> string \<Rightarrow> remote_run \<Rightarrow> RemoteCompletion \<Rightarrow> pass_end pass" where
  "complete p code run c =
     and_then (on_store (pr_world p) (\<lambda>e. CompleteRemoteRun e (run_lease run) c)) (\<lambda>r.
     ret (ends code False (case r of Inl er \<Rightarrow> Some er | Inr _ \<Rightarrow> None)))"

definition reloadRun :: "Processor \<Rightarrow> remote_run \<Rightarrow> remote_run pass" where
  "reloadRun p prev =
     and_then (call (pr_world p) ''store_unavailable'' (\<lambda>e. GetRemoteRun (rr_task_id prev))) (\<lambda>current.
     if rr_lease_token current \<noteq> rr_lease_token prev \<or> rr_node_id current \<noteq> rr_node_id prev
     then raise (ends ''store_unavailable'' False (Some ErrStateConflict)) else ret current)"

subsection \<open>Preparation\<close>

definition logInputFailure :: "prepare_error \<Rightarrow> inputError" where
  "logInputFailure er =
     (case er of
        ContextDone \<Rightarrow> inputFailure ''tk2sd_input_prepare_unavailable'' ''proxy'' ''prepare'' ''dependency_failed'' ''dependency_failed'' False None
      | InputError e \<Rightarrow> if ie_Source e = [] then e\<lparr>ie_Source := ''proxy''\<rparr> else e)"

definition input_refused :: "prepare_error \<Rightarrow> bool" where
  "input_refused er = (case er of ContextDone \<Rightarrow> False | InputError e \<Rightarrow> ie_invalid e \<or> rejected_http (ie_http e))"

definition prepare_failed :: "Processor \<Rightarrow> remote_run \<Rightarrow> prepare_error \<Rightarrow> 'a pass" where
  "prepare_failed p run er =
     (let detail = logInputFailure er in
      if input_refused er
      then and_then (complete p (ie_Code detail) run
             ((no_completion UpFailed)\<lparr>co_error_code := ie_Code detail, co_error_message := input_error_text detail\<rparr>)) raise
      else raise (pending (ie_Code detail)))"

definition outcome :: "('e, 's, 'a) tx \<Rightarrow> ('f, 's, 'e + 'a) tx" where
  "outcome m = (\<lambda>s. let (r, s') = m s in (Inr r, s'))"

definition prepare_stage :: "Processor \<Rightarrow> Task \<Rightarrow> remote_run \<Rightarrow> remote_run pass" where
  "prepare_stage p task run =
     (if rr_phase run \<noteq> RemotePreparing then ret run
      else and_then (outcome (Prepare (pr_world p) task run)) (\<lambda>r.
        case r of Inl er \<Rightarrow> prepare_failed p run er
        | Inr body \<Rightarrow>
            and_then (call (pr_world p) ''prepare_conflict'' (\<lambda>e. PrepareRemoteRequest e (run_lease run) body)) (\<lambda>_. reloadRun p run)))"

subsection \<open>Submission\<close>

definition run_body :: "remote_run \<Rightarrow> string" where
  "run_body run = coalesce (rr_request_body run) []"

definition evidence_ok :: "Processor \<Rightarrow> Task \<Rightarrow> remote_run \<Rightarrow> remote_state \<Rightarrow> bool" where
  "evidence_ok p task run s \<longleftrightarrow> run_body run \<noteq> []
     \<and> sha256_hex (w_env (pr_world p) (rs_calls s)) (run_body run) = coalesce (rr_request_body_hash run) []
     \<and> pr_body_model p (run_body run) = Some (vt_model (tk_row task))"

text \<open>The request leaves the program here; it is written to the log of what was sent, whatever comes back.\<close>

definition send :: "Processor \<Rightarrow> string \<Rightarrow> string \<Rightarrow> (ClientError + string) pass" where
  "send p body key = (\<lambda>s. (Inr (rc_submit (pr_client p) (rs_calls s) body key), s\<lparr>rs_calls := Suc (rs_calls s), rs_sent := rs_sent s @ [(body, key)]\<rparr>))"

definition submit_failed :: "Processor \<Rightarrow> remote_run \<Rightarrow> ClientError \<Rightarrow> 'a pass" where
  "submit_failed p run er =
     (if conflict er then raise (reconcile ''submit_conflict'')
      else if rejected er then
        (if rr_submit_attempts run > 0 then raise (reconcile ''replay_rejected'')
         else and_then (complete p ''submit_rejected'' run ((no_completion UpFailed)\<lparr>co_error_code := ''tk2sd_submit_rejected'',
                co_error_message := ''rejected'', co_feedback := feedback er\<rparr>)) raise)
      else raise (pending ''submit_unknown''))"

definition accept_id :: "Processor \<Rightarrow> remote_run \<Rightarrow> ClientError + string \<Rightarrow> remote_run pass" where
  "accept_id p run answer =
     (case answer of Inl er \<Rightarrow> submit_failed p run er
      | Inr i \<Rightarrow>
          if i = [] then raise (pending ''submit_invalid_response'')
          else and_then (call (pr_world p) ''submit_bind_failed'' (\<lambda>e. BindRemoteTask e (run_lease run) i)) (\<lambda>_. reloadRun p run))"

definition submit_stage :: "Processor \<Rightarrow> Task \<Rightarrow> remote_run \<Rightarrow> remote_run pass" where
  "submit_stage p task run =
     (if rr_phase run \<noteq> RemotePrepared \<and> rr_phase run \<noteq> RemoteSubmitIntent then ret run
      else
        and_then (ensuring (evidence_ok p task run) (reconcile ''submission_evidence_invalid'')) (\<lambda>_.
        and_then (call (pr_world p) ''submit_intent_conflict'' (\<lambda>e. BeginRemoteSubmission e (run_lease run))) (\<lambda>_.
        and_then (send p (run_body run) (rr_submission_key run)) (accept_id p run))))"

subsection \<open>The end of a task\<close>

definition base_url :: "Processor \<Rightarrow> Task \<Rightarrow> ParsedURL option" where
  "base_url p task =
     (case pr_node_url p of Some u \<Rightarrow> Some u
      | None \<Rightarrow> (case vt_dispatch_snapshot (tk_row task) of None \<Rightarrow> None | Some sn \<Rightarrow> g_parse_url (w_guard (pr_world p)) (ds_service_url sn)))"

definition upload_job_of :: "Processor \<Rightarrow> Task \<Rightarrow> int \<Rightarrow> ResultUploadJobRef option" where
  "upload_job_of p task now =
     (let i = vt_task_id (tk_row task) in
      if vt_delivery_required (tk_row task)
      then Some \<lparr>uj_id = ''result-upload-'' @ i, uj_task_id = i, uj_object_key = ''MiniMax-H3/'' @ pr_day p now @ ''/'' @ i @ ''.mp4''\<rparr> else None)"

definition with_metadata :: "Processor \<Rightarrow> ClientError + Metadata \<Rightarrow> RemoteCompletion \<Rightarrow> RemoteCompletion" where
  "with_metadata p m c =
     (case m of Inl _ \<Rightarrow> c
      | Inr meta \<Rightarrow> (case ActualMetadata (pr_metadata_json p) meta of None \<Rightarrow> c
          | Some x \<Rightarrow> c\<lparr>co_metadata_json := fst x, co_ratio := snd x, co_metadata_status := ''ready''\<rparr>))"

definition succeeded_with :: "Processor \<Rightarrow> Task \<Rightarrow> string \<Rightarrow> int \<Rightarrow> ClientError + Metadata \<Rightarrow> int \<Rightarrow> RemoteCompletion" where
  "succeeded_with p task url expires meta now =
     with_metadata p meta ((no_completion UpSucceeded)\<lparr>co_result_url := url, co_result_expires_at := expires,
       co_metadata_status := ''pending'', co_upload_job := upload_job_of p task now\<rparr>)"

definition failed_with :: "TaskError option \<Rightarrow> RemoteCompletion" where
  "failed_with er = (no_completion UpFailed)\<lparr>co_error_code := ''tk2sd_generation_failed'', co_error_message := ''generation failed'',
     co_feedback := map_option (\<lambda>e. feedback_of 0 (te_Code e) (te_Message e)) er\<rparr>"

definition terminal :: "Processor \<Rightarrow> Task \<Rightarrow> remote_run \<Rightarrow> UpstreamTask \<Rightarrow> pass_end pass" where
  "terminal p task run result =
     (let i = coalesce (rr_upstream_task_id run) [] in
      if ut_Status result = ''succeeded'' then
        and_then (ask (\<lambda>n. ValidateResultURL (default_guard (w_guard (pr_world p))) (pr_parse_query p) n (base_url p task) i (ut_VideoURL result) (pr_now p n))) (\<lambda>valid.
        case valid of None \<Rightarrow> ret (pending ''result_invalid'')
        | Some expires \<Rightarrow>
            and_then (ask (\<lambda>n. rc_metadata (pr_client p) n i)) (\<lambda>meta.
            and_then (ask (pr_now p)) (\<lambda>now. complete p [] run (succeeded_with p task (ut_VideoURL result) expires meta now))))
      else if ut_Status result = ''failed'' then complete p [] run (failed_with (ut_Error result))
      else complete p [] run (no_completion UpCancelled))"

subsection \<open>Polling\<close>

definition observe :: "Processor \<Rightarrow> remote_run \<Rightarrow> UpStatus \<Rightarrow> CancelState \<Rightarrow> pass_end pass" where
  "observe p run st c =
     and_then (call (pr_world p) ''poll_store_failed'' (\<lambda>e. ObserveRemoteTask e (run_lease run) st c)) (\<lambda>_. ret (pending []))"

definition is_answer :: "remote_run \<Rightarrow> Task \<Rightarrow> UpstreamTask \<Rightarrow> bool" where
  "is_answer run task result \<longleftrightarrow> ut_ID result = coalesce (rr_upstream_task_id run) [] \<and> ut_Model result = vt_model (tk_row task)"

definition cancel_refused :: "Processor \<Rightarrow> Task \<Rightarrow> remote_run \<Rightarrow> ClientError + UpstreamTask \<Rightarrow> pass_end pass" where
  "cancel_refused p task run answer =
     (case answer of
        Inr confirmed \<Rightarrow>
          if is_answer run task confirmed \<and> ut_Status confirmed \<in> {''cancelled'', ''failed'', ''succeeded''} then terminal p task run confirmed
          else if is_answer run task confirmed \<and> ut_Status confirmed = ''running'' then observe p run UpRunning CancelRejected
          else observe p run UpQueued CancelRequested
      | Inl _ \<Rightarrow> observe p run UpQueued CancelRequested)"

definition cancel_queued :: "Processor \<Rightarrow> Task \<Rightarrow> remote_run \<Rightarrow> pass_end pass" where
  "cancel_queued p task run =
     (let i = coalesce (rr_upstream_task_id run) [] in
      and_then (ask (\<lambda>n. rc_cancel (pr_client p) n i)) (\<lambda>r.
      case r of None \<Rightarrow> complete p [] run (no_completion UpCancelled)
      | Some er \<Rightarrow>
          if conflict er then and_then (ask (\<lambda>n. rc_query (pr_client p) n i)) (cancel_refused p task run)
          else observe p run UpQueued CancelRequested))"

definition settle :: "Processor \<Rightarrow> Task \<Rightarrow> remote_run \<Rightarrow> UpstreamTask \<Rightarrow> pass_end pass" where
  "settle p task run result =
     (if ut_Status result = ''queued'' then
        (if rr_cancel_state run = CancelRequested then cancel_queued p task run else observe p run UpQueued (rr_cancel_state run))
      else if ut_Status result = ''running'' then
        observe p run UpRunning (if rr_cancel_state run = CancelRequested then CancelRejected else rr_cancel_state run)
      else if ut_Status result \<in> {''succeeded'', ''failed'', ''cancelled''} then terminal p task run result
      else ret (pending ''poll_status_invalid''))"

definition poll_stage :: "Processor \<Rightarrow> Task \<Rightarrow> remote_run \<Rightarrow> pass_end pass" where
  "poll_stage p task run =
     (let i = coalesce (rr_upstream_task_id run) [] in
      if rr_phase run \<noteq> RemoteSubmitted \<or> i = [] then ret (reconcile ''submission_evidence_invalid'')
      else and_then (ask (\<lambda>n. rc_query (pr_client p) n i)) (\<lambda>answer.
        case answer of Inl _ \<Rightarrow> ret (pending ''poll_unavailable'')
        | Inr result \<Rightarrow>
            if \<not> is_answer run task result then ret (pending ''poll_identity_mismatch'')
            else and_then (call (pr_world p) ''store_unavailable'' (\<lambda>e. GetRemoteRun (vt_task_id (tk_row task)))) (\<lambda>current.
              if rr_lease_token current \<noteq> rr_lease_token run then ret (ends ''lease_lost'' False (Some ErrStateConflict))
              else settle p task current result)))"

definition advance :: "Processor \<Rightarrow> Task \<Rightarrow> remote_run \<Rightarrow> pass_end pass" where
  "advance p task run =
     (if rr_reconciliation_required run then ret (reconcile ''reconciliation_required'')
      else if rr_cancel_state run = CancelRequested \<and> (rr_phase run = RemotePreparing \<or> rr_phase run = RemotePrepared)
      then complete p [] run (no_completion UpCancelled)
      else and_then (prepare_stage p task run) (\<lambda>run1. and_then (submit_stage p task run1) (poll_stage p task)))"

section \<open>The worker's entry points\<close>

text \<open>The errors that are returned, joined: the empty list is \<open>nil\<close>.\<close>

definition pass_errors :: "pass_end \<Rightarrow> err + unit \<Rightarrow> err list" where
  "pass_errors pe released =
     (case pe_error pe of None \<Rightarrow> [] | Some er \<Rightarrow> [er])
     @ (case released of Inl er \<Rightarrow> if er = ErrStateConflict then [] else [er] | Inr _ \<Rightarrow> [])"

definition either_end :: "pass_end + pass_end \<Rightarrow> pass_end" where
  "either_end r = (case r of Inl pe \<Rightarrow> pe | Inr pe \<Rightarrow> pe)"

definition run_leased :: "Processor \<Rightarrow> Task \<Rightarrow> remote_run \<Rightarrow> ('e, remote_state, err list) tx" where
  "run_leased p task run =
     and_then (outcome (advance p task run)) (\<lambda>r.
     and_then (ask (\<lambda>n. unix (pr_now p n + max second (pr_poll_interval p)))) (\<lambda>nxt.
     and_then (on_store (pr_world p) (\<lambda>e. ReleaseRemoteLease e (run_lease run) nxt (pe_code (either_end r)) (pe_reconcile (either_end r)))) (\<lambda>released.
     ret (pass_errors (either_end r) released))))"

definition ProcessTask :: "Processor \<Rightarrow> Task \<Rightarrow> ('e, remote_state, err list) tx" where
  "ProcessTask p task =
     (let t = tk_row task; ttl = (if pr_lease_duration p \<le> 0 then 60 * second else pr_lease_duration p) in
      if vt_task_id t = [] \<or> coalesce (vt_upstream_id t) [] \<noteq> pr_node_id p \<or> vt_protocol_version t \<noteq> Some ProtocolTK2SD then ret [ErrStateConflict]
      else and_then (ask (pr_token p)) (\<lambda>token.
        and_then (on_store (pr_world p) (\<lambda>e. AcquireRemoteLease e (vt_task_id t) (pr_node_id p) token ttl)) (\<lambda>r.
        case r of Inl er \<Rightarrow> ret [er] | Inr run \<Rightarrow> run_leased p task run)))"

definition ProcessOne_remote :: "Processor \<Rightarrow> ('e, remote_state, err list) tx" where
  "ProcessOne_remote p =
     and_then (ask (pr_admission p)) (\<lambda>admission.
     if admission = Some None then ret [ErrUpstreamBusy]
     else and_then (on_store (pr_world p) (\<lambda>e. ClaimNextRemote e (pr_node_id p) (pr_node_version p) (pr_capacity p)
              (case admission of Some (Some a) \<Rightarrow> [a] | _ \<Rightarrow> []))) (\<lambda>r.
       case r of Inl er \<Rightarrow> ret [er] | Inr task \<Rightarrow> ProcessTask p task))"

definition reported :: "err list \<Rightarrow> err list" where
  "reported errs = (if ErrRemotePending \<in> set errs \<or> ErrStateConflict \<in> set errs then [] else errs)"

fun resume_tasks :: "Processor \<Rightarrow> Task list \<Rightarrow> ('e, remote_state, err list) tx" where
  "resume_tasks p [] = ret []"
| "resume_tasks p (task # tasks) =
     and_then (gets (\<lambda>s. w_done (pr_world p) (rs_calls s))) (\<lambda>stop.
     if stop then ret [ErrText ''context'']
     else and_then (ProcessTask p task) (\<lambda>errs. and_then (resume_tasks p tasks) (\<lambda>rest. ret (reported errs @ rest))))"

definition Resume :: "Processor \<Rightarrow> ('e, remote_state, err list) tx" where
  "Resume p =
     and_then (on_store (pr_world p) (\<lambda>e. ListActiveRemoteTasks e (pr_node_id p))) (\<lambda>r.
     case r of Inl er \<Rightarrow> ret [er] | Inr tasks \<Rightarrow> resume_tasks p tasks)"


section \<open>The steps of a pass\<close>

lemma outcome_moves: "keeps worker_moves m \<Longrightarrow> keeps worker_moves (outcome m)"
  by (auto simp: keeps_def outcome_def split: prod.splits) (metis snd_conv)

lemma call_moves: "orderly w \<Longrightarrow> remote_op f \<Longrightarrow> keeps worker_moves (call w code f)"
  unfolding call_def by (auto intro!: moves_intros on_store_moves split: sum.splits)

lemma call_result:
  assumes "call w code f s = (Inr x, s')"
  shows "f (w_env w (rs_calls s)) (w_others w (rs_calls s) (rs_db s)) = (Inr x, rs_db s')"
proof -
  from assms [unfolded call_def] show ?thesis
  proof (cases rule: and_then_cases)
    case (went r s1)
    then show ?thesis by (cases r) (auto dest: on_store_result)
  qed simp
qed

lemma complete_moves: "orderly (pr_world p) \<Longrightarrow> keeps worker_moves (complete p code run c)"
  unfolding complete_def by (auto intro!: moves_intros on_store_moves remote_ops)

lemma reload_moves: "orderly (pr_world p) \<Longrightarrow> keeps worker_moves (reloadRun p run)"
  unfolding reloadRun_def by (auto intro!: moves_intros call_moves remote_reads)

lemmas pass_intros = moves_intros outcome_moves call_moves complete_moves reload_moves remote_ops remote_reads on_store_moves

lemma prepare_stage_moves: "orderly (pr_world p) \<Longrightarrow> keeps worker_moves (prepare_stage p task run)"
  unfolding prepare_stage_def prepare_failed_def Let_def
  by (auto intro!: pass_intros Prepare_moves split: sum.splits)

lemma accept_id_moves: "orderly (pr_world p) \<Longrightarrow> keeps worker_moves (accept_id p run answer)"
  unfolding accept_id_def submit_failed_def
  by (auto intro!: pass_intros split: sum.splits)

lemma terminal_moves: "orderly (pr_world p) \<Longrightarrow> keeps worker_moves (terminal p task run result)"
  unfolding terminal_def Let_def by (auto intro!: pass_intros split: option.splits)

lemma observe_moves: "orderly (pr_world p) \<Longrightarrow> keeps worker_moves (observe p run st c)"
  unfolding observe_def by (auto intro!: pass_intros)

lemma settle_moves: "orderly (pr_world p) \<Longrightarrow> keeps worker_moves (settle p task run result)"
  unfolding settle_def cancel_queued_def cancel_refused_def Let_def
  by (auto intro!: pass_intros terminal_moves observe_moves split: option.splits sum.splits)

lemma poll_stage_moves: "orderly (pr_world p) \<Longrightarrow> keeps worker_moves (poll_stage p task run)"
  unfolding poll_stage_def Let_def
  by (auto intro!: pass_intros settle_moves split: sum.splits)

section \<open>What is submitted\<close>

definition sound_store :: "db \<Rightarrow> bool" where
  "sound_store d \<longleftrightarrow> remote_inv d \<and> list_all run_ok (task_remote_runs d)"

lemma steps_sound: "remote_step\<^sup>*\<^sup>* d d' \<Longrightarrow> sound_store d \<Longrightarrow> sound_store d'"
  using remote_steps_refine [of d d'] slot_safety.reachable [where step = remote_step and s = d and s' = d', OF remote_step_inv]
  by (auto simp: sound_store_def refines_step_def slots_safe_def)

lemma steps_follow:
  assumes "remote_step\<^sup>*\<^sup>* d d'" and "sound_store d" and "r \<in> set (task_remote_runs d)"
  shows "\<exists>r' \<in> set (task_remote_runs d'). run_follows r r'"
proof -
  from remote_steps_refine [OF assms(1)] assms(2) have "runs_follow (task_remote_runs d) (task_remote_runs d')"
    by (simp add: refines_step_def sound_store_def)
  with assms(3) obtain r' r0 where r': "r' \<in> set (task_remote_runs d')" "rr_task_id r' = rr_task_id r"
    and r0: "r0 \<in> set (task_remote_runs d)" "run_follows r0 r'"
    unfolding runs_follow_def by metis
  from assms(2) have "distinct (map rr_task_id (task_remote_runs d))" by (simp add: sound_store_def remote_inv_def)
  moreover have "rr_task_id r0 = rr_task_id r" using r0(2) r'(2) by (simp add: run_follows_def same_run_def)
  ultimately have "r0 = r" using r0(1) assms(3) by (metis key_unique)
  with r' r0 show ?thesis by blast
qed

text \<open>A run as a worker has read it, and the row that continues it.\<close>

definition seen :: "remote_run \<Rightarrow> db \<Rightarrow> bool" where
  "seen run d \<longleftrightarrow> (\<exists>r \<in> set (task_remote_runs d). run_follows run r)"

lemma seen_kept: "seen run d \<Longrightarrow> remote_step\<^sup>*\<^sup>* d d' \<Longrightarrow> sound_store d \<Longrightarrow> seen run d'"
  unfolding seen_def by (meson steps_follow run_follows_trans)

lemma read_seen: "GetRemoteRun i d = (Inr run, d') \<Longrightarrow> sound_store d' \<Longrightarrow> seen run d' \<and> rr_task_id run = i"
  by (auto simp: GetRemoteRun_def run_of_def seen_def sound_store_def list_all_iff split: option.splits dest!: select_where_Some intro!: bexI [of _ run] run_follows_refl)

fun body_of :: "Submission \<Rightarrow> string option" where
  "body_of (Prepared b) = Some b"
| "body_of (Submitting b n) = Some b"
| "body_of (Accepted b n i) = Some b"
| "body_of (Closed b n i) = b"
| "body_of Preparing = None"

lemma submission_steps_body: "submission_step\<^sup>*\<^sup>* s s' \<Longrightarrow> body_of s = Some b \<Longrightarrow> body_of s' = Some b"
  by (induction rule: rtranclp_induct) (auto elim: submission_step.cases)

text \<open>The request a run has on record as submitted.\<close>

definition on_record :: "string \<Rightarrow> db \<Rightarrow> string \<Rightarrow> string \<Rightarrow> bool" where
  "on_record i d body key \<longleftrightarrow> (\<exists>r \<in> set (task_remote_runs d). rr_task_id r = i \<and> rr_submission_key r = key \<and> (\<exists>m \<ge> 1. sent (submission r) = Some (body, m)))"

lemma on_record_kept:
  assumes "on_record i d body key" and "remote_step\<^sup>*\<^sup>* d d'" and "sound_store d"
  shows "on_record i d' body key"
proof -
  from assms(1) obtain r m where r: "r \<in> set (task_remote_runs d)" "rr_task_id r = i" "rr_submission_key r = key" "m \<ge> 1" "sent (submission r) = Some (body, m)"
    by (auto simp: on_record_def)
  from steps_follow [OF assms(2,3) r(1)] obtain r' where r': "r' \<in> set (task_remote_runs d')" "run_follows r r'" ..
  with submission_steps_sent [OF _ r(5,4)] obtain m' where "m' \<ge> m" "sent (submission r') = Some (body, m')" by (auto simp: run_follows_def)
  with r r' show ?thesis by (force simp: on_record_def run_follows_def same_run_def)
qed

lemma on_record_unique:
  assumes "on_record i d body key" and "on_record i d body' key'" and "sound_store d"
  shows "body' = body \<and> key' = key"
  using assms key_unique [of rr_task_id "task_remote_runs d"] by (fastforce simp: on_record_def sound_store_def remote_inv_def)


definition submits :: "string \<Rightarrow> remote_state \<Rightarrow> remote_state \<Rightarrow> bool" where
  "submits i s s' \<longleftrightarrow> remote_step\<^sup>*\<^sup>* (rs_db s) (rs_db s')
     \<and> (rs_sent s' = rs_sent s \<or> (\<exists>body key. rs_sent s' = rs_sent s @ [(body, key)] \<and> on_record i (rs_db s') body key))"

lemma quiet_submits: "worker_moves s s' \<Longrightarrow> submits i s s'"
  by (simp add: worker_moves_def submits_def)

lemma submits_quiet: "worker_moves s s1 \<Longrightarrow> submits i s1 s' \<Longrightarrow> submits i s s'"
  by (auto simp: worker_moves_def submits_def)

lemma quiet_after: "submits i s s1 \<Longrightarrow> worker_moves s1 s' \<Longrightarrow> sound_store (rs_db s) \<Longrightarrow> submits i s s'"
  using on_record_kept [of i "rs_db s1" _ _ "rs_db s'"] steps_sound [of "rs_db s" "rs_db s1"] by (auto simp: worker_moves_def submits_def)

lemma begun_on_record:
  assumes "BeginRemoteSubmission e (run_lease run) d = (Inr u, d')" and "seen run d" and "sound_store d"
    and "rr_phase run = RemotePrepared \<or> rr_phase run = RemoteSubmitIntent"
  shows "on_record (rr_task_id run) d' (run_body run) (rr_submission_key run)"
proof -
  from assms(2) obtain r where r: "r \<in> set (task_remote_runs d)" "run_follows run r" by (auto simp: seen_def)
  have keyed: "distinct (map rr_task_id (task_remote_runs d))" using assms(3) by (simp add: sound_store_def remote_inv_def)
  let ?p = "\<lambda>x. leased_by e (run_lease run) x \<and> \<not> rr_reconciliation_required x \<and> (rr_phase x = RemoteSubmitIntent \<or> rr_phase x = RemotePrepared \<and> rr_cancel_state x = CancelNone)"
  let ?f = "\<lambda>x. x\<lparr>rr_phase := RemoteSubmitIntent, rr_submit_attempts := rr_submit_attempts x + 1, rr_updated_at := nowUnix e\<rparr>"
  from assms(1) have one: "affected ?p (task_remote_runs d) = 1" and d': "d' = task_remote_runs_update (update_where ?p ?f) d"
    by (auto simp: BeginRemoteSubmission_def exec_one_apply split: if_splits)
  from affected_one_ex [OF one] obtain x where x: "x \<in> set (task_remote_runs d)" "?p x" by blast
  have "rr_task_id x = rr_task_id run" using x(2) by (simp add: leased_by_def run_lease_def)
  also have "\<dots> = rr_task_id r" using r(2) by (simp add: run_follows_def same_run_def)
  finally have "x = r" by (rule key_unique [OF keyed x(1) r(1)])
  have body: "body_of (submission run) = Some (run_body run)" using assms(4) by (auto simp: submission_def run_body_def Let_def)
  have "submission_step\<^sup>*\<^sup>* (submission run) (submission r)" "run_ok r" using r(2) by (simp_all add: run_follows_def)
  from submission_steps_body [OF this(1) body] this(2) x(2) \<open>x = r\<close>
  have "sent (submission (?f r)) = Some (run_body run, rr_submit_attempts r + 1)" "rr_submit_attempts r + 1 \<ge> 1"
    by (auto simp: submission_def run_ok_def Let_def)
  moreover have "?f r \<in> set (task_remote_runs d')" using x \<open>x = r\<close> by (auto simp: d' set_update_where)
  moreover have "rr_task_id (?f r) = rr_task_id run" "rr_submission_key (?f r) = rr_submission_key run"
    using r(2) by (simp_all add: run_follows_def same_run_def)
  ultimately show ?thesis unfolding on_record_def by blast
qed

lemma submit_stage_submits:
  assumes "orderly (pr_world p)" and "submit_stage p task run s = (res, s')" and "seen run (rs_db s)" and "sound_store (rs_db s)"
  shows "submits (rr_task_id run) s s'"
proof (cases "(rr_phase run = RemotePrepared \<or> rr_phase run = RemoteSubmitIntent) \<and> evidence_ok p task run s")
  case False
  with assms(2) show ?thesis by (auto simp: submit_stage_def submits_def and_then_ensuring split: if_splits)
next
  case True
  let ?intent = "call (pr_world p) ''submit_intent_conflict'' (\<lambda>e. BeginRemoteSubmission e (run_lease run))"
  have "and_then ?intent (\<lambda>_. and_then (send p (run_body run) (rr_submission_key run)) (accept_id p run)) s = (res, s')"
    using assms(2) True by (auto simp: submit_stage_def and_then_ensuring)
  then show ?thesis
  proof (cases rule: and_then_cases)
    case (stopped e)
    then show ?thesis by (metis quiet_submits keepsD call_moves assms(1) remote_ops(5))
  next
    case (went u s1)
    let ?d = "w_others (pr_world p) (rs_calls s) (rs_db s)"
    have d: "remote_step\<^sup>*\<^sup>* (rs_db s) ?d" using assms(1) by (simp add: orderly_def)
    from went(1) have begun: "BeginRemoteSubmission (w_env (pr_world p) (rs_calls s)) (run_lease run) ?d = (Inr u, rs_db s1)" by (rule call_result)
    have moved: "worker_moves s s1" by (rule keepsD [OF call_moves [OF assms(1) remote_ops(5)] went(1)])
    have logged: "on_record (rr_task_id run) (rs_db s1) (run_body run) (rr_submission_key run)"
      by (rule begun_on_record [OF begun seen_kept [OF assms(3) d assms(4)] steps_sound [OF d assms(4)]]) (use True in blast)
    define s2 where "s2 = s1\<lparr>rs_calls := Suc (rs_calls s1), rs_sent := rs_sent s1 @ [(run_body run, rr_submission_key run)]\<rparr>"
    have "accept_id p run (rc_submit (pr_client p) (rs_calls s1) (run_body run) (rr_submission_key run)) s2 = (res, s')"
      using went(2) by (simp add: send_def s2_def and_then_def)
    from keepsD [OF accept_id_moves [OF assms(1)] this] have "worker_moves s2 s'" .
    moreover have "submits (rr_task_id run) s s2" using logged moved by (auto simp: submits_def worker_moves_def s2_def)
    ultimately show ?thesis using assms(4) by (blast intro: quiet_after)
  qed
qed


lemma acquire_seen:
  assumes "AcquireRemoteLease e i n tok ttl d = (Inr run, d')" and "sound_store d'"
  shows "seen run d' \<and> rr_task_id run = i"
proof -
  from assms(1) obtain d1 where "GetRemoteRun i d1 = (Inr run, d')"
    unfolding AcquireRemoteLease_def Let_def atomically_success_iff by (auto simp: and_then_success_iff)
  then show ?thesis using assms(2) by (rule read_seen)
qed

lemma prepare_stage_seen:
  assumes "orderly (pr_world p)" and "prepare_stage p task run s = (Inr run1, s1)" and "seen run (rs_db s)" and "sound_store (rs_db s)"
  shows "seen run1 (rs_db s1) \<and> rr_task_id run1 = rr_task_id run"
proof (cases "rr_phase run = RemotePreparing")
  case True
  from keepsD [OF prepare_stage_moves [OF assms(1)] assms(2)] have sound: "sound_store (rs_db s1)"
    using steps_sound assms(4) by (auto simp: worker_moves_def)
  have failed: "prepare_failed p run er t \<noteq> (Inr run1, s1)" for er t
    by (auto simp: prepare_failed_def Let_def and_then_success_iff)
  have "\<exists>t. reloadRun p run t = (Inr run1, s1)" using assms(2) True failed
    by (auto simp: prepare_stage_def elim!: and_then_cases split: sum.splits)
  then obtain t where "reloadRun p run t = (Inr run1, s1)" ..
  then have "call (pr_world p) ''store_unavailable'' (\<lambda>e. GetRemoteRun (rr_task_id run)) t = (Inr run1, s1)"
    by (auto simp: reloadRun_def and_then_success_iff split: if_splits)
  from read_seen [OF call_result [OF this] sound] show ?thesis by simp
qed (use assms in \<open>auto simp: prepare_stage_def\<close>)

lemma advance_submits:
  assumes "orderly (pr_world p)" and "advance p task run s = (res, s')" and "seen run (rs_db s)" and "sound_store (rs_db s)"
  shows "submits (rr_task_id run) s s'"
proof (cases "rr_reconciliation_required run \<or> rr_cancel_state run = CancelRequested \<and> (rr_phase run = RemotePreparing \<or> rr_phase run = RemotePrepared)")
  case True
  with assms(1,2) show ?thesis
    by (auto simp: advance_def submits_def split: if_splits dest!: keepsD [OF complete_moves] simp: worker_moves_def)
next
  case False
  with assms(2) have "and_then (prepare_stage p task run) (\<lambda>run1. and_then (submit_stage p task run1) (poll_stage p task)) s = (res, s')"
    by (auto simp: advance_def)
  then show ?thesis
  proof (cases rule: and_then_cases)
    case (stopped e)
    then show ?thesis using keepsD [OF prepare_stage_moves [OF assms(1)]] by (blast intro: quiet_submits)
  next
    case (went run1 s1)
    have moved: "worker_moves s s1" by (rule keepsD [OF prepare_stage_moves [OF assms(1)] went(1)])
    have seen: "seen run1 (rs_db s1)" "rr_task_id run1 = rr_task_id run" using prepare_stage_seen [OF assms(1) went(1) assms(3,4)] by simp_all
    have sound: "sound_store (rs_db s1)" using moved steps_sound assms(4) by (auto simp: worker_moves_def)
    from went(2) have "submits (rr_task_id run1) s1 s'"
    proof (cases rule: and_then_cases)
      case (stopped e)
      from submit_stage_submits [OF assms(1) stopped(1) seen(1) sound] show ?thesis .
    next
      case (went run2 s2)
      from keepsD [OF poll_stage_moves [OF assms(1)] went(2)] submit_stage_submits [OF assms(1) went(1) seen(1) sound] sound
      show ?thesis by (blast intro: quiet_after)
    qed
    with moved seen(2) show ?thesis by (auto intro: submits_quiet)
  qed
qed

lemma run_leased_submits:
  assumes "orderly (pr_world p)" and "run_leased p task run s = (res, s')" and "seen run (rs_db s)" and "sound_store (rs_db s)"
  shows "submits (rr_task_id run) s s'"
proof -
  obtain r s1 where adv: "advance p task run s = (r, s1)" by (metis surj_pair)
  let ?rest = "and_then (ask (\<lambda>n. unix (pr_now p n + max second (pr_poll_interval p)))) (\<lambda>nxt.
     and_then (on_store (pr_world p) (\<lambda>e. ReleaseRemoteLease e (run_lease run) nxt (pe_code (either_end r)) (pe_reconcile (either_end r)))) (\<lambda>released.
     ret (pass_errors (either_end r) released)))"
  have "?rest s1 = (res, s')" using assms(2) adv by (simp add: run_leased_def outcome_def and_then_def)
  moreover have "keeps worker_moves ?rest" using assms(1) by (auto intro!: pass_intros)
  ultimately have "worker_moves s1 s'" by (rule keepsD [rotated])
  with advance_submits [OF assms(1) adv assms(3,4)] assms(4) show ?thesis by (blast intro: quiet_after)
qed

lemma ProcessTask_submits:
  assumes "orderly (pr_world p)" and "ProcessTask p task s = (res, s')" and "sound_store (rs_db s)"
  shows "submits (vt_task_id (tk_row task)) s s'"
proof -
  let ?i = "vt_task_id (tk_row task)" and ?s1 = "s\<lparr>rs_calls := Suc (rs_calls s)\<rparr>"
  let ?ttl = "if pr_lease_duration p \<le> 0 then 60 * second else pr_lease_duration p"
  let ?acquire = "on_store (pr_world p) (\<lambda>e. AcquireRemoteLease e ?i (pr_node_id p) (pr_token p (rs_calls s)) ?ttl)"
  consider "s' = s" | "and_then ?acquire (\<lambda>r. case r of Inl er \<Rightarrow> ret [er] | Inr run \<Rightarrow> run_leased p task run) ?s1 = (res, s')"
    using assms(2) by (auto simp: ProcessTask_def Let_def ask_def and_then_def split: if_splits)
  then show ?thesis
  proof cases
    case 1
    then show ?thesis by (simp add: submits_def)
  next
    case 2
    then obtain r s2 where got: "?acquire ?s1 = (Inr r, s2)" and rest: "(case r of Inl er \<Rightarrow> ret [er] | Inr run \<Rightarrow> run_leased p task run) s2 = (res, s')"
      by (cases rule: and_then_cases) (auto simp: on_store_def Let_def split: if_splits prod.splits)
    have "worker_moves ?s1 s2" by (rule keepsD [OF on_store_moves [OF assms(1) remote_ops(1)] got])
    then have moved: "worker_moves s s2" by (simp add: worker_moves_def)
    then have sound: "sound_store (rs_db s2)" using steps_sound assms(3) by (auto simp: worker_moves_def)
    show ?thesis
    proof (cases r)
      case (Inl er)
      with rest moved show ?thesis by (auto intro: quiet_submits)
    next
      case (Inr run)
      from acquire_seen [OF on_store_result [OF got [unfolded Inr]] sound] have "seen run (rs_db s2)" "rr_task_id run = ?i" by simp_all
      with run_leased_submits [OF assms(1) _ _ sound] rest Inr have "submits ?i s2 s'" by fastforce
      with moved show ?thesis by (rule submits_quiet)
    qed
  qed
qed

text \<open>A pass over a remote task sends at most one request, and only one the database already has on record: whatever the other workers do
  between its calls, whatever the node answers and wherever the pass ends, when a body has been sent under a key, the run of the
  task carries that key and body and counts at least one submission.\<close>

theorem ProcessTask_sends_recorded:
  assumes "orderly (pr_world p)" and "sound_store (rs_db s)" and "ProcessTask p task s = (res, s')"
  shows "sound_store (rs_db s') \<and> (rs_sent s' = rs_sent s
    \<or> (\<exists>body key r m. rs_sent s' = rs_sent s @ [(body, key)] \<and> r \<in> set (task_remote_runs (rs_db s')) \<and> rr_task_id r = vt_task_id (tk_row task)
        \<and> rr_submission_key r = key \<and> sent (submission r) = Some (body, m) \<and> m \<ge> 1))"
  using ProcessTask_submits [OF assms(1,3,2)] steps_sound [OF _ assms(2)] by (force simp: submits_def on_record_def)

text \<open>C2: Two passes over the same task never send different requests: if both send one, the first, a retry after a lost answer or a crash, or two workers
  at the same time, it is the same body under the same key, so that a node that recognises keys runs the task once. The passes may be of different
  workers with different views of the world; all that is needed is that both databases evolve into a common one.\<close>

theorem resubmission_identical:
  assumes "orderly (pr_world p)" and "sound_store (rs_db s)" and "ProcessTask p task s = (res, s')" and "rs_sent s' = rs_sent s @ [(body, key)]"
    and "orderly (pr_world q)" and "sound_store (rs_db t)" and "ProcessTask q task' t = (res', t')" and "rs_sent t' = rs_sent t @ [(body', key')]"
    and "vt_task_id (tk_row task') = vt_task_id (tk_row task)" and "remote_step\<^sup>*\<^sup>* (rs_db s') d" and "remote_step\<^sup>*\<^sup>* (rs_db t') d"
  shows "body' = body \<and> key' = key"
proof -
  let ?i = "vt_task_id (tk_row task)"
  have 1: "on_record ?i (rs_db s') body key" "sound_store (rs_db s')"
    using ProcessTask_submits [OF assms(1,3,2)] steps_sound [OF _ assms(2)] assms(4) by (auto simp: submits_def)
  have 2: "on_record ?i (rs_db t') body' key'" "sound_store (rs_db t')"
    using ProcessTask_submits [OF assms(5,7,6)] steps_sound [OF _ assms(6)] assms(8,9) by (auto simp: submits_def)
  show ?thesis
    by (rule on_record_unique [OF on_record_kept [OF 1(1) assms(10) 1(2)] on_record_kept [OF 2(1) assms(11) 2(2)] steps_sound [OF assms(10) 1(2)]])
qed


section \<open>Witnesses\<close>

text \<open>A run in the middle of its submission whose answer was lost, taken up again later.\<close>

definition sample_client :: RemoteClient where
  "sample_client = \<lparr>rc_submit = (\<lambda>_ _ _. Inl \<lparr>ce_http = None, ce_invalid_response = False\<rparr>), rc_query = (\<lambda>_ _. Inl \<lparr>ce_http = None, ce_invalid_response = False\<rparr>),
     rc_cancel = (\<lambda>_ _. None), rc_metadata = (\<lambda>_ _. Inl \<lparr>ce_http = None, ce_invalid_response = False\<rparr>)\<rparr>"

definition sample_processor :: Processor where
  "sample_processor =
     \<lparr>pr_world = sample_world\<lparr>w_env := \<lambda>_. sample_env\<lparr>nowMillis := 3000000\<rparr>\<rparr>, pr_client = sample_client, pr_node_id = ''n1'', pr_node_version = 1, pr_node_url = None,
      pr_capacity = 1, pr_admission = (\<lambda>_. None), pr_lease_duration = 0, pr_poll_interval = 0, pr_now = (\<lambda>_. 0), pr_day = (\<lambda>_. ''d''), pr_token = (\<lambda>_. ''new''),
      pr_parse_query = sample_query, pr_body_model = (\<lambda>_. Some ''m''), pr_metadata_json = (\<lambda>_ _ _. ''{}'')\<rparr>"

abbreviation replay_env :: StoreEnv where
  "replay_env \<equiv> sample_env\<lparr>nowMillis := 3000000\<rparr>"

definition replay_db :: "remote_run \<Rightarrow> db" where
  "replay_db r = sample_remote_db\<lparr>task_remote_runs := [r]\<rparr>"

definition replayable :: "remote_run \<Rightarrow> bool" where
  "replayable r \<longleftrightarrow> rr_task_id r = ''a'' \<and> rr_node_id r = ''n1'' \<and> rr_phase r = RemoteSubmitIntent \<and> \<not> rr_reconciliation_required r \<and> rr_cancel_state r = CancelNone
     \<and> rr_request_body r = Some ''{}'' \<and> rr_request_body_hash r = Some ''sha-{}'' \<and> rr_submission_key r = ''key'' \<and> coalesce (rr_lease_expires_at r) 0 \<le> 3000
     \<and> rr_submit_attempts r \<ge> 1 \<and> rr_upstream_task_id r = None"

definition replay_task :: Task where
  "replay_task = scanTask sample_remote_db (hd (video_tasks sample_remote_db))"

lemma sample_processor_orderly: "orderly (pr_world sample_processor)"
  using sample_orderly by (simp add: orderly_def sample_processor_def)

lemma replay_sound: "replayable r \<Longrightarrow> sound_store (replay_db r)"
  by (simp add: sound_store_def replayable_def replay_db_def remote_inv_def within_capacity_def slots_used_def holds_slot_def run_ok_def sample_remote_defs)

lemma replay_task_fields:
  "vt_task_id (tk_row replay_task) = ''a''" "coalesce (vt_upstream_id (tk_row replay_task)) [] = ''n1''"
  "vt_protocol_version (tk_row replay_task) = Some ProtocolTK2SD" "vt_model (tk_row replay_task) = ''m''"
  by (simp_all add: replay_task_def scanTask_def Let_def) (simp_all add: sample_remote_defs)

lemma sample_processor_fields:
  "pr_node_id sample_processor = ''n1''" "pr_lease_duration sample_processor \<le> 0" "pr_token sample_processor n = ''new''" "w_env (pr_world sample_processor) n = replay_env"
  "w_others (pr_world sample_processor) n d = d" "\<not> w_done (pr_world sample_processor) n" "pr_body_model sample_processor b = Some ''m''"
  "rc_submit (pr_client sample_processor) n b k = Inl \<lparr>ce_http = None, ce_invalid_response = False\<rparr>"
  by (simp_all add: sample_processor_def sample_world_def sample_client_def)

abbreviation taken :: "remote_run \<Rightarrow> remote_run" where
  "taken r \<equiv> acquired replay_env ''new'' (60 * second) r"

lemma replay_acquire:
  "replayable r \<Longrightarrow> AcquireRemoteLease replay_env ''a'' ''n1'' ''new'' (60 * second) (replay_db r) = (Inr (taken r), replay_db (taken r))"
  by (simp add: AcquireRemoteLease_def GetRemoteRun_def run_of_def exec_one_apply and_then_def atomically_def Let_def acquired_def nowUnix_def second_def replayable_def replay_db_def)
    (simp add: sample_remote_defs)

definition begun :: "remote_run \<Rightarrow> remote_run" where
  "begun x = x\<lparr>rr_phase := RemoteSubmitIntent, rr_submit_attempts := rr_submit_attempts x + 1, rr_updated_at := 3000\<rparr>"

definition let_go :: "string \<Rightarrow> int \<Rightarrow> remote_run \<Rightarrow> remote_run" where
  "let_go code nxt x = x\<lparr>rr_lease_token := None, rr_lease_expires_at := None, rr_next_poll_at := Some nxt, rr_last_error_code := code,
     rr_reconciliation_required := False, rr_updated_at := 3000\<rparr>"

lemma taken_fields:
  assumes "replayable r"
  shows "rr_phase (taken r) = RemoteSubmitIntent" "\<not> rr_reconciliation_required (taken r)" "rr_cancel_state (taken r) = CancelNone" "run_body (taken r) = ''{}''"
    "rr_submission_key (taken r) = ''key''" "rr_request_body_hash (taken r) = Some ''sha-{}''" "leased_by replay_env (run_lease (taken r)) (taken r)"
    "leased_by replay_env (run_lease (taken r)) (begun (taken r))" "replayable (let_go code nxt (begun (taken r)))"
  using assms by (simp_all add: replayable_def acquired_def run_body_def leased_by_def run_lease_def nowUnix_def second_def begun_def let_go_def sample_env_def)

lemma replay_begin:
  "replayable r \<Longrightarrow> BeginRemoteSubmission replay_env (run_lease (taken r)) (replay_db (taken r)) = (Inr (), replay_db (begun (taken r)))"
  using taken_fields [of r] by (simp add: BeginRemoteSubmission_def exec_one_apply replay_db_def begun_def nowUnix_def sample_env_def)

lemma replay_release:
  "replayable r \<Longrightarrow> ReleaseRemoteLease replay_env (run_lease (taken r)) nxt code False (replay_db (begun (taken r))) = (Inr (), replay_db (let_go code nxt (begun (taken r))))"
  using taken_fields [of r] by (simp add: ReleaseRemoteLease_def exec_one_apply replay_db_def let_go_def nowUnix_def sample_env_def) (simp add: begun_def)

lemma replay_advance:
  assumes "replayable r" and "rs_db s = replay_db (taken r)"
  shows "\<exists>s'. advance sample_processor replay_task (taken r) s = (Inl (pending ''submit_unknown''), s') \<and> rs_sent s' = rs_sent s @ [(''{}'', ''key'')]
     \<and> rs_db s' = replay_db (begun (taken r))"
proof -
  have "evidence_ok sample_processor replay_task (taken r) s" for s
    by (simp add: evidence_ok_def taken_fields [OF assms(1)] replay_task_fields sample_processor_fields) (simp add: sample_env_def)
  then show ?thesis using replay_begin [OF assms(1)] assms(2) taken_fields [OF assms(1)]
    by (simp add: advance_def prepare_stage_def submit_stage_def and_then_ensuring call_def on_store_def Let_def sample_processor_fields and_then_def send_def
        accept_id_def submit_failed_def conflict_def rejected_def rejected_http_def)
qed

lemma replay_pass:
  assumes "replayable r" and "rs_db s = replay_db r"
  shows "\<exists>s' r'. ProcessTask sample_processor replay_task s = (Inr [ErrRemotePending] :: err + err list, s') \<and> rs_sent s' = rs_sent s @ [(''{}'', ''key'')]
     \<and> replayable r' \<and> rs_db s' = replay_db r'"
proof -
  define s1 where "s1 = s\<lparr>rs_db := replay_db (taken r), rs_calls := Suc (Suc (rs_calls s))\<rparr>"
  obtain s2 where adv: "advance sample_processor replay_task (taken r) s1 = (Inl (pending ''submit_unknown''), s2)"
    and s2: "rs_sent s2 = rs_sent s @ [(''{}'', ''key'')]" "rs_db s2 = replay_db (begun (taken r))"
    using replay_advance [OF assms(1), of s1] by (auto simp: s1_def)
  have "\<exists>s' r'. run_leased sample_processor replay_task (taken r) s1 = (Inr [ErrRemotePending] :: err + err list, s')
      \<and> rs_sent s' = rs_sent s @ [(''{}'', ''key'')] \<and> replayable r' \<and> rs_db s' = replay_db r'"
    using adv s2 replay_release [OF assms(1)] taken_fields(9) [OF assms(1)]
    by (simp add: run_leased_def outcome_def and_then_def ask_def on_store_def Let_def sample_processor_fields pass_errors_def either_end_def pending_def ends_def) blast
  then show ?thesis using replay_acquire [OF assms(1)] assms(2)
    by (simp add: ProcessTask_def replay_task_fields sample_processor_fields Let_def ask_def on_store_def and_then_def s1_def)
qed

definition replay_run :: remote_run where
  "replay_run = sample_run\<lparr>rr_request_body_hash := Some ''sha-{}''\<rparr>"

definition replay_state :: remote_state where
  "replay_state = \<lparr>rs_db = replay_db replay_run, rs_calls = 0, rs_sent = []\<rparr>"

lemma replay_run_ok: "replayable replay_run"
  by (simp add: replayable_def replay_run_def sample_remote_defs)

theorem ProcessTask_sends_recorded_witness:
  "\<exists>s' r m. ProcessTask sample_processor replay_task replay_state = (Inr [ErrRemotePending] :: err + err list, s') \<and> rs_sent s' = [(''{}'', ''key'')]
     \<and> r \<in> set (task_remote_runs (rs_db s')) \<and> sent (submission r) = Some (''{}'', m) \<and> m \<ge> 1"
proof -
  obtain s' where run: "ProcessTask sample_processor replay_task replay_state = (Inr [ErrRemotePending] :: err + err list, s')"
    and sent: "rs_sent s' = [(''{}'', ''key'')]" using replay_pass [OF replay_run_ok, of replay_state] by (auto simp: replay_state_def)
  have "sound_store (rs_db replay_state)" using replay_sound [OF replay_run_ok] by (simp add: replay_state_def)
  from ProcessTask_sends_recorded [OF sample_processor_orderly this run] sent run show ?thesis by (auto simp: replay_state_def)
qed

theorem resubmission_identical_witness:
  "\<exists>s' t'. ProcessTask sample_processor replay_task replay_state = (Inr [ErrRemotePending] :: err + err list, s') \<and> rs_sent s' = [(''{}'', ''key'')]
     \<and> (\<exists>body key. ProcessTask sample_processor replay_task s' = (Inr [ErrRemotePending] :: err + err list, t') \<and> rs_sent t' = rs_sent s' @ [(body, key)]
          \<and> body = ''{}'' \<and> key = ''key'')"
proof -
  obtain s' r' where run: "ProcessTask sample_processor replay_task replay_state = (Inr [ErrRemotePending] :: err + err list, s')"
    and sent: "rs_sent s' = rs_sent replay_state @ [(''{}'', ''key'')]" and r': "replayable r'" "rs_db s' = replay_db r'"
    using replay_pass [OF replay_run_ok, of replay_state] by (auto simp: replay_state_def)
  have sound: "sound_store (rs_db replay_state)" "sound_store (rs_db s')"
    using replay_sound replay_run_ok r' by (simp_all add: replay_state_def)
  obtain t' body key where again: "ProcessTask sample_processor replay_task s' = (Inr [ErrRemotePending] :: err + err list, t')" "rs_sent t' = rs_sent s' @ [(body, key)]"
    using replay_pass [OF r'] by blast
  have "remote_step\<^sup>*\<^sup>* (rs_db s') (rs_db t')"
    using ProcessTask_submits [OF sample_processor_orderly again(1) sound(2)] by (simp add: submits_def)
  from resubmission_identical [OF sample_processor_orderly sound(1) run sent sample_processor_orderly sound(2) again refl this rtranclp.rtrancl_refl]
  have "body = ''{}'' \<and> key = ''key''" .
  with run sent again show ?thesis by (auto simp: replay_state_def)
qed

end
