(* ===== verification/OfficialWorker.thy ===== *)
theory OfficialWorker
  imports OfficialStore InputSpool
begin

text \<open>
  \<^verbatim>\<open>internal/official/processor.go\<close> and the answers of \<^verbatim>\<open>internal/upstream/minimaxv2/client.go\<close>: the worker that takes a task through the
  official API. The API has no idempotency keys, so the worker saves the tasks the API lists before it submits, and after a crash
  looks for the one new task instead of submitting again. Between two of its calls others may change the database.
\<close>

section \<open>The client\<close>

datatype OfficialFailure = HTTPFailure UpstreamFeedback | NetworkFailure | OtherFailure

record OfficialTask =
  ot_ID :: string
  ot_Status :: string
  ot_URL :: string
  ot_Resolution :: string
  ot_Duration :: int
  ot_Ratio :: string
  ot_CreatedAt :: int
  ot_Error :: "(string \<times> string) option"

text \<open>
  The worker and what it does not decide itself, as functions of the number of the call: the store's clock, what others do to the
  database, whether the context is done, the spooled files, and what an HTTP exchange with the API gives. A task's error texts
  come redacted, as the client gives them; a list is absent when its field is.
\<close>

record OfficialProcessor =
  op_NodeID :: string
  op_NodeVersion :: int
  op_Capacity :: int
  op_env :: "nat \<Rightarrow> StoreEnv"
  op_others :: "nat \<Rightarrow> db \<Rightarrow> db"
  op_done :: "nat \<Rightarrow> bool"
  op_Inputs :: "Spooler option"
  op_files :: "nat \<Rightarrow> spool_files"
  op_model :: string
  op_create :: "nat \<Rightarrow> GenerationRequest \<Rightarrow> OfficialFailure + string"
  op_query :: "nat \<Rightarrow> string \<Rightarrow> OfficialFailure + OfficialTask"
  op_list :: "nat \<Rightarrow> OfficialFailure + OfficialTask list option"
  op_parse_url :: url_parser
  op_day :: "nat \<Rightarrow> string"

text \<open>What was sent to the API, by task, is logged.\<close>

record official_state =
  os_db :: db
  os_calls :: nat
  os_sent :: "(string \<times> GenerationRequest) list"

text \<open>An early return of the worker is the error of the sequence: what it returns.\<close>

type_synonym 'a opass = "(err option, official_state, 'a) tx"

definition asks :: "(nat \<Rightarrow> 'a) \<Rightarrow> 'a opass" where
  "asks f = (\<lambda>s. (Inr (f (os_calls s)), s\<lparr>os_calls := Suc (os_calls s)\<rparr>))"

definition store_outcome :: "OfficialProcessor \<Rightarrow> (StoreEnv \<Rightarrow> 'a op) \<Rightarrow> (err + 'a) opass" where
  "store_outcome p f = (\<lambda>s.
     let n = os_calls s; d = op_others p n (os_db s) in
     if op_done p n then (Inr (Inl (ErrText ''context'')), s\<lparr>os_db := d, os_calls := Suc n\<rparr>)
     else let (r, d') = f (op_env p n) d in (Inr r, s\<lparr>os_db := d', os_calls := Suc n\<rparr>))"

definition store_call :: "OfficialProcessor \<Rightarrow> (StoreEnv \<Rightarrow> 'a op) \<Rightarrow> 'a opass" where
  "store_call p f = and_then (store_outcome p f) (\<lambda>r. case r of Inl er \<Rightarrow> raise (Some er) | Inr x \<Rightarrow> ret x)"

text \<open>\<open>return p.Store.X(...)\<close>.\<close>

definition store_return :: "OfficialProcessor \<Rightarrow> (StoreEnv \<Rightarrow> unit op) \<Rightarrow> 'a opass" where
  "store_return p f = and_then (store_outcome p f) (\<lambda>r. raise (case r of Inl er \<Rightarrow> Some er | Inr _ \<Rightarrow> None))"

definition create_request :: "OfficialProcessor \<Rightarrow> GenerationRequest \<Rightarrow> GenerationRequest" where
  "create_request p r = r\<lparr>gr_model := (if op_model p \<noteq> [] then op_model p else gr_model r), gr_callback_url := None\<rparr>"

definition Submit :: "OfficialProcessor \<Rightarrow> string \<Rightarrow> GenerationRequest option \<Rightarrow> (OfficialFailure + string) opass" where
  "Submit p taskID body =
     (case body of None \<Rightarrow> ret (Inl OtherFailure)
      | Some r \<Rightarrow>
          let q = create_request p r in
          if gr_resolution r = [] \<or> gr_duration r = 0 \<or> trim_space (gr_model q) = [] then ret (Inl OtherFailure)
          else (\<lambda>s. (Inr (case op_create p (os_calls s) q of Inl f \<Rightarrow> Inl f
                       | Inr i \<Rightarrow> if trim_space i = [] then Inl OtherFailure else Inr i),
                 s\<lparr>os_calls := Suc (os_calls s), os_sent := os_sent s @ [(taskID, q)]\<rparr>)))"

definition validTaskID :: "string \<Rightarrow> bool" where
  "validTaskID i \<longleftrightarrow> i \<noteq> [] \<and> length i \<le> 128 \<and> \<not> list_ex (\<lambda>c. c \<in> set [CHR ''/'', CHR 0x5C, CHR ''?'', CHR ''#'']) i"

definition https_url :: "OfficialProcessor \<Rightarrow> string \<Rightarrow> bool" where
  "https_url p u = (case op_parse_url p u of None \<Rightarrow> False | Some x \<Rightarrow> u_scheme x = ''https'' \<and> u_host x \<noteq> [])"

definition Query :: "OfficialProcessor \<Rightarrow> string \<Rightarrow> nat \<Rightarrow> OfficialFailure + OfficialTask" where
  "Query p i n =
     (if \<not> validTaskID i then Inl OtherFailure
      else case op_query p n i of Inl f \<Rightarrow> Inl f
      | Inr t \<Rightarrow> if ot_ID t = [] \<or> ot_Status t = [] \<or> (ot_Status t = ''succeeded'' \<and> \<not> https_url p (ot_URL t)) then Inl OtherFailure else Inr t)"

definition List_tasks :: "OfficialProcessor \<Rightarrow> nat \<Rightarrow> OfficialFailure + OfficialTask list" where
  "List_tasks p n = (case op_list p n of Inl f \<Rightarrow> Inl f | Inr None \<Rightarrow> Inl OtherFailure | Inr (Some ts) \<Rightarrow> Inr ts)"

section \<open>Failures\<close>

definition retryableQueryError :: "OfficialFailure \<Rightarrow> bool" where
  "retryableQueryError f = (case f of HTTPFailure h \<Rightarrow> uf_http_status h = 429 \<or> uf_http_status h \<ge> 500 | NetworkFailure \<Rightarrow> True | OtherFailure \<Rightarrow> False)"

definition with_official_code :: "UpstreamFeedback \<Rightarrow> UpstreamFeedback" where
  "with_official_code h = h\<lparr>uf_code := OfficialErrorCode (Some h)\<rparr>"

definition upstreamFeedback :: "OfficialFailure \<Rightarrow> UpstreamFeedback option" where
  "upstreamFeedback f = (case f of HTTPFailure h \<Rightarrow> Some (with_official_code h) | _ \<Rightarrow> None)"

text \<open>The texts of messages are tags.\<close>

definition message_tag :: "message \<Rightarrow> string" where
  "message_tag m = (case m of TableMessage c \<Rightarrow> ''official '' @ c | MediaDownloadMessage \<Rightarrow> ''media download'' | FallbackMessage t \<Rightarrow> t)"

definition mark_failed :: "OfficialProcessor \<Rightarrow> Task \<Rightarrow> string \<Rightarrow> string \<Rightarrow> UpstreamFeedback option \<Rightarrow> StoreEnv \<Rightarrow> unit op" where
  "mark_failed p task code message feedback e = MarkOfficialFailed e (vt_task_id (tk_row task)) (op_NodeID p) code message feedback"

definition failUnlessStoppingWithFeedback :: "OfficialProcessor \<Rightarrow> Task \<Rightarrow> string \<Rightarrow> UpstreamFeedback option \<Rightarrow> 'a opass" where
  "failUnlessStoppingWithFeedback p task code feedback =
     and_then (asks (op_done p)) (\<lambda>stopping.
     if stopping then raise (Some (ErrText ''upstream''))
     else let c = LocalizeOfficialError code code feedback in store_return p (mark_failed p task (fst c) (message_tag (snd c)) feedback))"

definition failUnlessStopping :: "OfficialProcessor \<Rightarrow> Task \<Rightarrow> string \<Rightarrow> OfficialFailure \<Rightarrow> 'a opass" where
  "failUnlessStopping p task code cause = failUnlessStoppingWithFeedback p task code (upstreamFeedback cause)"

section \<open>Reconciliation\<close>

definition is_candidate :: "Task \<Rightarrow> string list \<Rightarrow> OfficialTask \<Rightarrow> bool" where
  "is_candidate task baseline x \<longleftrightarrow>
     (let t = tk_row task in
      ot_ID x \<notin> set baseline
      \<and> \<not> (ot_Resolution x \<noteq> [] \<and> ot_Resolution x \<noteq> vt_resolution t)
      \<and> \<not> (ot_Duration x \<noteq> 0 \<and> ot_Duration x \<noteq> vt_duration t)
      \<and> \<not> (ot_Ratio x \<noteq> [] \<and> vt_ratio_requested t \<noteq> [] \<and> ot_Ratio x \<noteq> vt_ratio_requested t)
      \<and> \<not> (ot_CreatedAt x > 0 \<and> (case vt_attempt_started_at t of None \<Rightarrow> False | Some a \<Rightarrow> ot_CreatedAt x < a - 5)))"

definition firstCandidate :: "string list \<Rightarrow> OfficialFailure + string option" where
  "firstCandidate cs = (case cs of [] \<Rightarrow> Inr None | [c] \<Rightarrow> Inr (Some c) | _ \<Rightarrow> Inl OtherFailure)"

definition reconcileSubmission :: "OfficialProcessor \<Rightarrow> Task \<Rightarrow> string list \<Rightarrow> nat \<Rightarrow> OfficialFailure + string option" where
  "reconcileSubmission p task baseline n =
     (case List_tasks p n of Inl f \<Rightarrow> Inl f | Inr items \<Rightarrow> firstCandidate (map ot_ID (filter (is_candidate task baseline) items)))"

fun reconcile_attempts :: "OfficialProcessor \<Rightarrow> Task \<Rightarrow> string list \<Rightarrow> nat \<Rightarrow> (OfficialFailure + string option) opass" where
  "reconcile_attempts p task baseline 0 = ret (Inr None)"
| "reconcile_attempts p task baseline (Suc k) =
     and_then (asks (reconcileSubmission p task baseline)) (\<lambda>r.
     if r \<noteq> Inr None then ret r
     else if k = 0 then ret (Inr None)
     else and_then (asks (op_done p)) (\<lambda>stopped. if stopped then ret (Inl OtherFailure) else reconcile_attempts p task baseline k))"

definition reconcileSubmissionWithRetry :: "OfficialProcessor \<Rightarrow> Task \<Rightarrow> string list \<Rightarrow> (OfficialFailure + string option) opass" where
  "reconcileSubmissionWithRetry p task baseline = reconcile_attempts p task baseline 3"

section \<open>One pass over a task\<close>

definition bind_task :: "OfficialProcessor \<Rightarrow> Task \<Rightarrow> string \<Rightarrow> string opass" where
  "bind_task p task i = and_then (store_call p (\<lambda>e. BindOfficialTask e (vt_task_id (tk_row task)) (op_NodeID p) i)) (\<lambda>_. ret i)"

text \<open>A task whose baseline is saved may have been submitted: it is reconciled. A saved column that does not decode fails the task.\<close>

definition resume_submission :: "OfficialProcessor \<Rightarrow> Task \<Rightarrow> string opass" where
  "resume_submission p task =
     (case vt_upstream_jobs_before (tk_row task) of
        None \<Rightarrow> store_return p (mark_failed p task ''official_reconcile_invalid'' ''reconcile invalid'' None)
      | Some baseline \<Rightarrow>
          and_then (reconcileSubmissionWithRetry p task baseline) (\<lambda>r.
          case r of Inl f \<Rightarrow> failUnlessStopping p task ''official_reconcile_failed'' f
          | Inr (Some i) \<Rightarrow> bind_task p task i
          | Inr None \<Rightarrow> store_return p (mark_failed p task ''official_submit_uncertain'' ''submit uncertain'' None)))"

definition restored_body :: "OfficialProcessor \<Rightarrow> Task \<Rightarrow> GenerationRequest option opass" where
  "restored_body p task =
     (case op_Inputs p of None \<Rightarrow> ret (vt_request (tk_row task))
      | Some sl \<Rightarrow>
          and_then (asks (op_files p)) (\<lambda>fs.
          and_then (store_outcome p (\<lambda>e. Restore sl fs (vt_task_id (tk_row task)) (vt_request (tk_row task)))) (\<lambda>r.
          case r of Inr body \<Rightarrow> ret (Some body)
          | Inl er \<Rightarrow>
              and_then (asks (op_done p)) (\<lambda>stopping.
              if stopping then raise (Some er)
              else store_return p (mark_failed p task ''official_input_materialization_failed'' ''input'' None)))))"

definition submitted :: "OfficialProcessor \<Rightarrow> Task \<Rightarrow> string list \<Rightarrow> OfficialFailure + string \<Rightarrow> string opass" where
  "submitted p task baseline answer =
     (case answer of Inr i \<Rightarrow> ret i
      | Inl f \<Rightarrow>
          and_then (reconcileSubmissionWithRetry p task baseline) (\<lambda>r.
          case r of Inr (Some i) \<Rightarrow> ret i
          | Inl _ \<Rightarrow> failUnlessStoppingWithFeedback p task ''official_reconcile_failed'' (upstreamFeedback f)
          | Inr None \<Rightarrow> failUnlessStopping p task ''official_submit_failed'' f))"

text \<open>The map of known ids starts with those of an earlier baseline, if one was read.\<close>

definition first_submission :: "OfficialProcessor \<Rightarrow> Task \<Rightarrow> string list \<Rightarrow> string opass" where
  "first_submission p task known =
     and_then (restored_body p task) (\<lambda>body.
     and_then (asks (List_tasks p)) (\<lambda>before.
     case before of Inl f \<Rightarrow> failUnlessStopping p task ''official_baseline_failed'' f
     | Inr items \<Rightarrow>
         let ids = map ot_ID items in
         and_then (store_call p (\<lambda>e. SaveOfficialSubmissionBaseline e (vt_task_id (tk_row task)) (op_NodeID p) ids)) (\<lambda>_.
         and_then (Submit p (vt_task_id (tk_row task)) body) (\<lambda>answer.
         and_then (submitted p task (known @ ids) answer) (bind_task p task)))))"

text \<open>The id is tested again after the reconciliation: an adopted task without an id is followed by a submission.\<close>

definition upstream_id :: "OfficialProcessor \<Rightarrow> Task \<Rightarrow> string opass" where
  "upstream_id p task =
     (let t = tk_row task; i = coalesce (vt_upstream_job_id t) [] in
      if i \<noteq> [] then ret i
      else if vt_official_submission_baseline_saved t then
        and_then (resume_submission p task) (\<lambda>u.
        if u \<noteq> [] then ret u else first_submission p task (coalesce (vt_upstream_jobs_before t) []))
      else first_submission p task [])"

definition official_upload_job :: "OfficialProcessor \<Rightarrow> Task \<Rightarrow> nat \<Rightarrow> ResultUploadJobRef option" where
  "official_upload_job p task n =
     (let i = vt_task_id (tk_row task) in
      if vt_delivery_required (tk_row task)
      then Some \<lparr>uj_id = ''result-upload-'' @ i, uj_task_id = i, uj_object_key = ''MiniMax-H3/'' @ op_day p n @ ''/'' @ i @ ''.mp4''\<rparr> else None)"

definition failure_feedback :: "OfficialTask \<Rightarrow> UpstreamFeedback option" where
  "failure_feedback t = map_option (\<lambda>x. with_official_code
     \<lparr>uf_http_status = 0, uf_code = fst x, uf_type = [], uf_message = snd x, uf_resource_type = [], uf_request_id = []\<rparr>) (ot_Error t)"

definition wait :: "OfficialProcessor \<Rightarrow> unit opass" where
  "wait p = and_then (asks (op_done p)) (\<lambda>stopped. if stopped then raise (Some (ErrText ''context'')) else ret ())"

text \<open>One turn of the polling loop; going on is the value.\<close>

definition settle_official :: "OfficialProcessor \<Rightarrow> Task \<Rightarrow> OfficialTask \<Rightarrow> unit opass" where
  "settle_official p task result =
     (let i = vt_task_id (tk_row task); st = ot_Status result in
      if st = ''queued'' \<or> st = ''running'' then wait p
      else if st = ''succeeded'' then
        and_then (asks (official_upload_job p task)) (\<lambda>job.
        store_return p (\<lambda>e. MarkOfficialGenerated e i (op_NodeID p) (ot_URL result) (ot_Ratio result) job))
      else if st = ''failed'' \<or> st = ''cancelled'' then
        (let code = (if st = ''cancelled'' then ''official_task_cancelled'' else ''official_generation_failed'');
             c = LocalizeOfficialError code code (failure_feedback result) in
         store_return p (mark_failed p task (fst c) (message_tag (snd c)) (failure_feedback result)))
      else store_return p (mark_failed p task ''official_status_invalid'' ''unknown status'' None))"

definition poll_once :: "OfficialProcessor \<Rightarrow> Task \<Rightarrow> string \<Rightarrow> unit opass" where
  "poll_once p task i =
     and_then (asks (Query p i)) (\<lambda>r.
     case r of Inl f \<Rightarrow> if retryableQueryError f then wait p else failUnlessStopping p task ''official_query_failed'' f
     | Inr result \<Rightarrow> settle_official p task result)"

partial_function (option) poll :: "OfficialProcessor \<Rightarrow> Task \<Rightarrow> string \<Rightarrow> official_state \<Rightarrow> (err option \<times> official_state) option" where
  "poll p task i s = (case poll_once p task i s of (Inl er, s') \<Rightarrow> Some (er, s') | (Inr _, s') \<Rightarrow> poll p task i s')"

definition start_pass :: "OfficialProcessor \<Rightarrow> Task \<Rightarrow> string opass" where
  "start_pass p task =
     and_then (asks (op_done p)) (\<lambda>stopped.
     let t = tk_row task in
     if stopped then raise (Some (ErrText ''context''))
     else if vt_protocol_version t \<noteq> Some ProtocolOfficial \<or> vt_route_state t \<noteq> RouteReady \<or> coalesce (vt_upstream_id t) [] \<noteq> op_NodeID p
     then raise (Some ErrStateConflict)
     else upstream_id p task)"

definition official_ProcessTask :: "OfficialProcessor \<Rightarrow> Task \<Rightarrow> official_state \<Rightarrow> (err option \<times> official_state) option" where
  "official_ProcessTask p task s = (case start_pass p task s of (Inl er, s') \<Rightarrow> Some (er, s') | (Inr i, s') \<Rightarrow> poll p task i s')"

definition official_ProcessOne :: "OfficialProcessor \<Rightarrow> official_state \<Rightarrow> (err option \<times> official_state) option" where
  "official_ProcessOne p s =
     (case store_call p (\<lambda>e. ClaimNextOfficial e (op_NodeID p) (op_NodeVersion p) (op_Capacity p)) s of
        (Inl er, s') \<Rightarrow> Some (er, s') | (Inr task, s') \<Rightarrow> official_ProcessTask p task s')"

section \<open>Submitting once\<close>

text \<open>
  What others may do between two calls: they keep the tasks' ids unique and a saved baseline saved (as every operation but
  \<open>Requeue\<close>), and do not put a task that went on from dispatching back (as \<open>BeginRetry\<close> does on other nodes).
\<close>

definition tasks_keyed :: "db \<Rightarrow> bool" where
  "tasks_keyed d \<longleftrightarrow> distinct (map vt_task_id (video_tasks d))"

definition task_saved :: "string \<Rightarrow> db \<Rightarrow> bool" where
  "task_saved i d \<longleftrightarrow> list_all (\<lambda>t. vt_task_id t = i \<longrightarrow> vt_official_submission_baseline_saved t) (video_tasks d)"

definition past_dispatch :: "InternalStatus \<Rightarrow> bool" where
  "past_dispatch st \<longleftrightarrow> st \<notin> {StatusQueuedOpen, StatusQueuedLocked, StatusDispatching}"

definition task_past :: "string \<Rightarrow> db \<Rightarrow> bool" where
  "task_past i d \<longleftrightarrow> list_all (\<lambda>t. vt_task_id t = i \<longrightarrow> past_dispatch (vt_status t)) (video_tasks d)"

definition flag_kept :: "string \<Rightarrow> db \<Rightarrow> db \<Rightarrow> bool" where
  "flag_kept i d d' \<longleftrightarrow> (tasks_keyed d \<longrightarrow> tasks_keyed d') \<and> (task_saved i d \<longrightarrow> task_saved i d') \<and> (task_past i d \<longrightarrow> task_past i d')"

definition others_keep :: "string \<Rightarrow> OfficialProcessor \<Rightarrow> bool" where
  "others_keep i p \<longleftrightarrow> (\<forall>n d. flag_kept i d (op_others p n d))"

definition quiet :: "string \<Rightarrow> official_state \<Rightarrow> official_state \<Rightarrow> bool" where
  "quiet i s s' \<longleftrightarrow> flag_kept i (os_db s) (os_db s') \<and> os_sent s' = os_sent s"

interpretation flags: step_contract "flag_kept i" for i
  by unfold_locales (auto simp: flag_kept_def)

interpretation quietly: step_contract "quiet i" for i
  by unfold_locales (auto simp: quiet_def intro: flags.refl flags.trans)

lemma flag_frame: "video_tasks d' = video_tasks d \<Longrightarrow> flag_kept i d d'"
  by (simp add: flag_kept_def tasks_keyed_def task_saved_def task_past_def)

lemma flag_tables: "flag_kept i d (task_stages_update f d)" "flag_kept i d (result_upload_jobs_update g d)"
  by (rule flag_frame, simp)+

lemma flag_update:
  "(\<And>t. vt_task_id (f t) = vt_task_id t \<and> (vt_official_submission_baseline_saved t \<longrightarrow> vt_official_submission_baseline_saved (f t))
      \<and> (past_dispatch (vt_status t) \<longrightarrow> past_dispatch (vt_status (f t)))) \<Longrightarrow>
   flag_kept i d (video_tasks_update (update_where p f) d)"
  by (auto simp: flag_kept_def tasks_keyed_def task_saved_def task_past_def distinct_update_where list_all_iff set_update_where)

lemma flag_calls: "keeps (flag_kept i) (createCallbackDeliveryWithConn e j st now)" "keeps (flag_kept i) (insert_upload u)"
  by (rule keepsI, auto dest!: callback_frame intro: flag_frame) (auto intro!: keepsI flag_frame simp: insert_upload_def and_then_def split: if_splits)

lemma flag_reading: "keeps (flag_kept i) (reading f)"
  by (simp add: keeps_def flags.refl)

lemmas flag_intros = flags.keeps_intros keeps_exec_one keeps_exec_update flag_tables flag_calls flag_reading flag_update

lemma official_ops_keep:
  "keeps (flag_kept i) (SaveOfficialSubmissionBaseline e j n ids)" "keeps (flag_kept i) (BindOfficialTask e j n up)"
  "keeps (flag_kept i) (MarkOfficialGenerated e j n u r job)" "keeps (flag_kept i) (MarkOfficialFailed e j n code msg fb)"
  unfolding SaveOfficialSubmissionBaseline_def BindOfficialTask_def MarkOfficialGenerated_def MarkOfficialFailed_def Let_def
  by (intro flag_intros; simp add: generated_row_def official_failed_row_def touched_def past_dispatch_def; fail)+

lemma restore_reads: "keeps (flag_kept j) (restore_content sl fs i k cs)"
  by (induction cs arbitrary: k)
    (auto intro!: flag_intros simp: restore_item_def GetInputSpoolFile_def split: option.split sum.split)

lemma Restore_reads: "keeps (flag_kept j) (Restore sl fs i r)"
  unfolding Restore_def Let_def by (auto intro!: flag_intros restore_reads split: option.split)

lemma keeps_asks: "keeps (quiet i) (asks f)"
  by (simp add: keeps_def asks_def quiet_def flags.refl)

lemma keeps_store_result:
  assumes others: "others_keep i p" and f: "\<And>e. keeps (flag_kept i) (f e)"
  shows "keeps (quiet i) (store_outcome p f)"
proof (rule keepsI)
  fix s r s' assume run: "store_outcome p f s = (r, s')"
  let ?n = "os_calls s"
  have o: "flag_kept i (os_db s) (op_others p ?n (os_db s))" using others by (simp add: others_keep_def)
  obtain x d where fx: "f (op_env p ?n) (op_others p ?n (os_db s)) = (x, d)" by (cases "f (op_env p ?n) (op_others p ?n (os_db s))")
  from flags.trans [OF o keepsD [OF f fx]] run fx o show "quiet i s s'"
    by (auto simp: store_outcome_def Let_def quiet_def split: if_splits)
qed

lemma keeps_store_call: "others_keep i p \<Longrightarrow> (\<And>e. keeps (flag_kept i) (f e)) \<Longrightarrow> keeps (quiet i) (store_call p f)"
  unfolding store_call_def by (intro quietly.keeps_and_then keeps_store_result keeps_sum quietly.keeps_intros) auto

lemma keeps_store_return: "others_keep i p \<Longrightarrow> (\<And>e. keeps (flag_kept i) (f e)) \<Longrightarrow> keeps (quiet i) (store_return p f)"
  unfolding store_return_def by (intro quietly.keeps_intros keeps_store_result) auto

lemma keeps_mark_failed: "keeps (flag_kept i) (mark_failed p task code message feedback e)"
  unfolding mark_failed_def by (rule official_ops_keep)

lemma keeps_Let: "keeps R (f x) \<Longrightarrow> keeps R (Let x f)"
  by simp

lemmas quiet_intros = quietly.keeps_intros keeps_asks keeps_sum keeps_Let keeps_store_result keeps_store_call keeps_store_return
  keeps_mark_failed official_ops_keep Restore_reads

lemma keeps_fail:
  "others_keep i p \<Longrightarrow> keeps (quiet i) (failUnlessStoppingWithFeedback p task code feedback)"
  "others_keep i p \<Longrightarrow> keeps (quiet i) (failUnlessStopping p task code cause)"
  unfolding failUnlessStopping_def failUnlessStoppingWithFeedback_def by (intro quiet_intros; assumption)+

lemma keeps_reconcile_attempts: "keeps (quiet i) (reconcile_attempts p task baseline k)"
proof (induction k)
  case (Suc k)
  then show ?case by (simp only: reconcile_attempts.simps) (intro quiet_intros)
qed (simp only: reconcile_attempts.simps quietly.keeps_ret)

lemma keeps_reconcile: "keeps (quiet i) (reconcileSubmissionWithRetry p task baseline)"
  unfolding reconcileSubmissionWithRetry_def by (rule keeps_reconcile_attempts)

lemma keeps_bind: "others_keep i p \<Longrightarrow> keeps (quiet i) (bind_task p task u)"
  unfolding bind_task_def by (intro quiet_intros; assumption)

lemma keeps_resume: "others_keep i p \<Longrightarrow> keeps (quiet i) (resume_submission p task)"
  unfolding resume_submission_def by (intro quiet_intros keeps_reconcile keeps_fail keeps_bind; assumption)

lemma keeps_restored_body: "others_keep i p \<Longrightarrow> keeps (quiet i) (restored_body p task)"
  unfolding restored_body_def by (intro quiet_intros; assumption)

lemma keeps_submitted: "others_keep i p \<Longrightarrow> keeps (quiet i) (submitted p task baseline answer)"
  unfolding submitted_def by (intro quiet_intros keeps_reconcile keeps_fail; assumption)

lemma keeps_wait: "keeps (quiet i) (wait p)"
  unfolding wait_def by (intro quiet_intros)

lemma keeps_poll_once: "others_keep i p \<Longrightarrow> keeps (quiet i) (poll_once p task u)"
  unfolding poll_once_def settle_official_def Let_def by (intro quiet_intros keeps_wait keeps_fail; assumption)

text \<open>The loop of the worker, as a fixed point: what every turn keeps, it keeps.\<close>

lemma poll_rule:
  assumes "poll p task u s = Some (er, s')"
    and last: "\<And>s er s'. poll_once p task u s = (Inl er, s') \<Longrightarrow> P s er s'"
    and more: "\<And>s s1 er s'. poll_once p task u s = (Inr (), s1) \<Longrightarrow> P s1 er s' \<Longrightarrow> P s er s'"
  shows "P s er s'"
proof -
  let ?P = "\<lambda>p' task' u' s y. p' = p \<and> task' = task \<and> u' = u \<longrightarrow> P s (fst y) (snd y)"
  have "?P p task u s (er, s')"
    by (rule poll.raw_induct [of ?P, OF _ assms(1)]) (auto split: prod.splits sum.splits intro: last more)
  then show ?thesis by simp
qed

lemma poll_quiet: "others_keep i p \<Longrightarrow> poll p task u s = Some (er, s') \<Longrightarrow> quiet i s s'"
  by (erule poll_rule) (blast dest: keepsD [OF keeps_poll_once] intro: quietly.trans)+

text \<open>What a pass may do to the log, and what the database then says.\<close>

definition may_send :: "string \<Rightarrow> official_state \<Rightarrow> official_state \<Rightarrow> bool" where
  "may_send i s s' \<longleftrightarrow> flag_kept i (os_db s) (os_db s')
     \<and> (os_sent s' = os_sent s \<or> (\<exists>q. os_sent s' = os_sent s @ [(i, q)]) \<and> (tasks_keyed (os_db s) \<longrightarrow> task_saved i (os_db s')))"

lemma may_send_quiet: "quiet i s s' \<Longrightarrow> may_send i s s'"
  by (simp add: quiet_def may_send_def)

lemma quiet_may_send: "quiet i s s1 \<Longrightarrow> may_send i s1 s' \<Longrightarrow> may_send i s s'"
  by (auto simp: quiet_def may_send_def flag_kept_def)

lemma may_send_then: "may_send i s s1 \<Longrightarrow> quiet i s1 s' \<Longrightarrow> may_send i s s'"
  by (auto simp: quiet_def may_send_def flag_kept_def)

lemma Save_saves:
  assumes "SaveOfficialSubmissionBaseline e i n ids d = (Inr u, d')" and "tasks_keyed d"
  shows "task_saved i d'"
proof -
  let ?p = "official_task i n {StatusDispatching}"
  let ?f = "\<lambda>t. (touched (nowUnix e) t)\<lparr>vt_upstream_jobs_before := Some ids, vt_official_submission_baseline_saved := True\<rparr>"
  from assms(1) have one: "affected ?p (video_tasks d) = 1" and d': "d' = video_tasks_update (update_where ?p ?f) d"
    by (auto simp: SaveOfficialSubmissionBaseline_def exec_one_success_iff)
  from affected_one_ex [OF one] obtain t where t: "t \<in> set (video_tasks d)" "?p t" by blast
  have "?p x" if "x \<in> set (video_tasks d)" "vt_task_id x = i" for x
    using key_unique [of vt_task_id, OF _ that(1) t(1)] that t assms(2) by (auto simp: tasks_keyed_def official_task_def)
  then show ?thesis by (auto simp: d' task_saved_def list_all_iff set_update_where touched_def)
qed

lemma store_call_success:
  "store_call p f s = (Inr x, s') \<Longrightarrow> \<not> op_done p (os_calls s) \<and> (\<exists>d. f (op_env p (os_calls s)) (op_others p (os_calls s) (os_db s)) = (Inr x, d) \<and> os_db s' = d)
     \<and> os_sent s' = os_sent s"
  by (auto simp: store_call_def store_outcome_def Let_def tx_inv split: if_splits prod.splits sum.splits)

lemma saved_call:
  assumes "store_call p (\<lambda>e. SaveOfficialSubmissionBaseline e i n ids) s = (Inr u, s')" and "others_keep i p" and "tasks_keyed (os_db s)"
  shows "task_saved i (os_db s')"
  using store_call_success [OF assms(1)] assms(2,3) Save_saves by (auto simp: others_keep_def flag_kept_def)

lemma Submit_sends: "Submit p i body s = (r, s') \<Longrightarrow> os_db s' = os_db s \<and> (os_sent s' = os_sent s \<or> (\<exists>q. os_sent s' = os_sent s @ [(i, q)]))"
  by (auto simp: Submit_def Let_def split: option.splits if_splits)

lemma saved_submit:
  assumes o: "others_keep i p" and i: "i = vt_task_id (tk_row task)"
    and run: "and_then (store_call p (\<lambda>e. SaveOfficialSubmissionBaseline e (vt_task_id (tk_row task)) n ids)) (\<lambda>_. and_then (Submit p (vt_task_id (tk_row task)) body) (\<lambda>answer. and_then (submitted p task known answer) (bind_task p task))) s = (r, s')"
  shows "may_send i s s'"
proof -
  have save: "keeps (quiet i) (store_call p (\<lambda>e. SaveOfficialSubmissionBaseline e (vt_task_id (tk_row task)) n ids))"
    by (intro quiet_intros o)
  from run show ?thesis
  proof (cases rule: and_then_cases)
    case (stopped e)
    then show ?thesis by (blast intro: may_send_quiet keepsD [OF save])
  next
    case (went u s1)
    note q = keepsD [OF save went(1)]
    have saved: "tasks_keyed (os_db s) \<Longrightarrow> task_saved i (os_db s1)" using saved_call [OF went(1)] o i by simp
    obtain answer s2 where sub: "Submit p (vt_task_id (tk_row task)) body s1 = (answer, s2)" by (cases "Submit p (vt_task_id (tk_row task)) body s1")
    have "may_send i s s2" using Submit_sends [OF sub] q saved i by (auto simp: quiet_def may_send_def flag_kept_def)
    moreover have "quiet i s2 s'"
    proof -
      have "keeps (quiet i) (\<lambda>s. and_then (submitted p task known a) (bind_task p task) s)" for a
        by (intro quiet_intros keeps_submitted keeps_bind o)
      with went(2) sub show ?thesis by (cases answer) (auto simp: quietly.refl dest: keepsD)
    qed
    ultimately show ?thesis by (rule may_send_then)
  qed
qed

lemma first_submission_sends:
  assumes o: "others_keep i p" and i: "i = vt_task_id (tk_row task)" and run: "first_submission p task known s = (r, s')"
  shows "may_send i s s'"
  using run unfolding first_submission_def
proof (cases rule: and_then_cases)
  case (stopped e)
  then show ?thesis by (blast intro: may_send_quiet keepsD [OF keeps_restored_body [OF o]])
next
  case (went body s1)
  note q1 = keepsD [OF keeps_restored_body [OF o] went(1)]
  from went(2) show ?thesis
  proof (cases rule: and_then_cases)
    case (stopped e)
    then show ?thesis by (blast intro: quietly.trans [OF q1] may_send_quiet keepsD [OF keeps_asks])
  next
    case (went listed s2)
    note q = quietly.trans [OF q1 keepsD [OF keeps_asks went(1)]]
    show ?thesis
    proof (cases listed)
      case (Inl f)
      with went(2) show ?thesis by (auto intro!: may_send_quiet quietly.trans [OF q] dest: keepsD [OF keeps_fail(2) [OF o]])
    next
      case (Inr items)
      with went(2) show ?thesis by (intro quiet_may_send [OF q] saved_submit [OF o i]) (simp add: Let_def)
    qed
  qed
qed

lemma may_send_refl: "may_send i s s"
  by (rule may_send_quiet) (rule quietly.refl)

text \<open>The calls that return do not go on.\<close>

lemma store_return_stops [simp]: "store_return p f s \<noteq> (Inr x, s')"
  by (auto simp: store_return_def tx_inv)

lemma fail_stops [simp]: "failUnlessStopping p task code cause s \<noteq> (Inr x, s')"
  by (auto simp: failUnlessStopping_def failUnlessStoppingWithFeedback_def tx_inv Let_def split: if_splits)

text \<open>An adopted task is past dispatching, so that a second baseline is refused and nothing is sent for it.\<close>

lemma Bind_past:
  assumes "BindOfficialTask e i n u d = (Inr x, d')" and "tasks_keyed d"
  shows "task_past i d'"
proof -
  let ?p = "official_task i n {StatusDispatching}"
  let ?f = "\<lambda>t. (touched (nowUnix e) t)\<lparr>vt_upstream_job_id := Some u, vt_status := StatusRunning\<rparr>"
  from assms(1) have one: "affected ?p (video_tasks d) = 1" and d': "d' = video_tasks_update (update_where ?p ?f) d"
    by (auto simp: BindOfficialTask_def exec_one_success_iff)
  from affected_one_ex [OF one] obtain t where t: "t \<in> set (video_tasks d)" "?p t" by blast
  have "?p x" if "x \<in> set (video_tasks d)" "vt_task_id x = i" for x
    using key_unique [of vt_task_id, OF _ that(1) t(1)] that t assms(2) by (auto simp: tasks_keyed_def official_task_def)
  then show ?thesis by (auto simp: d' task_past_def list_all_iff set_update_where touched_def past_dispatch_def)
qed

lemma Save_past: "task_past i d \<Longrightarrow> \<exists>er d'. SaveOfficialSubmissionBaseline e i n ids d = (Inl er, d')"
proof -
  assume "task_past i d"
  then have none: "\<not> official_task i n {StatusDispatching} t" if "t \<in> set (video_tasks d)" for t
    using that by (auto simp: task_past_def list_all_iff past_dispatch_def official_task_def)
  then have "affected (official_task i n {StatusDispatching}) (video_tasks d) = 0" by (auto simp: affected_def filter_empty_conv)
  then show ?thesis by (auto simp: SaveOfficialSubmissionBaseline_def exec_one_apply)
qed

lemma saved_call_past:
  assumes "others_keep i p" and "task_past i (os_db s)"
  shows "\<exists>e s'. store_call p (\<lambda>e. SaveOfficialSubmissionBaseline e i n ids) s = (Inl e, s')"
proof -
  have "task_past i (op_others p (os_calls s) (os_db s))" using assms by (auto simp: others_keep_def flag_kept_def)
  from Save_past [OF this] obtain er d' where
    "SaveOfficialSubmissionBaseline (op_env p (os_calls s)) i n ids (op_others p (os_calls s) (os_db s)) = (Inl er, d')" by blast
  then show ?thesis by (simp add: store_call_def store_outcome_def and_then_def Let_def)
qed

lemma bind_call_past:
  assumes "bind_task p task u s = (Inr v, s')" and "others_keep i p" and "i = vt_task_id (tk_row task)" and "tasks_keyed (os_db s)"
  shows "task_past i (os_db s')"
  using assms by (auto simp: bind_task_def tx_inv dest!: store_call_success intro: Bind_past simp: others_keep_def flag_kept_def)

lemma resume_result:
  assumes "resume_submission p task s = (Inr u, s')"
  obtains b s1 where "vt_upstream_jobs_before (tk_row task) = Some b" "reconcile_attempts p task b 3 s = (Inr (Inr (Some u)), s1)" "bind_task p task u s1 = (Inr u, s')"
proof -
  from assms obtain b where b: "vt_upstream_jobs_before (tk_row task) = Some b" by (cases "vt_upstream_jobs_before (tk_row task)") (auto simp: resume_submission_def)
  from assms obtain r s1 where r: "reconcile_attempts p task b 3 s = (Inr r, s1)"
    and cont: "(case r of Inl f \<Rightarrow> failUnlessStopping p task ''official_reconcile_failed'' f | Inr (Some i) \<Rightarrow> bind_task p task i
       | Inr None \<Rightarrow> store_return p (mark_failed p task ''official_submit_uncertain'' ''submit uncertain'' None)) s1 = (Inr u, s')"
    unfolding resume_submission_def reconcileSubmissionWithRetry_def b option.case and_then_success_iff by blast
  from cont have "r = Inr (Some u)" and "bind_task p task u s1 = (Inr u, s')"
    by (auto simp: bind_task_def tx_inv split: sum.splits option.splits)
  with that b r show ?thesis by blast
qed

lemma resumed_past:
  assumes run: "resume_submission p task s = (Inr u, s')" and o: "others_keep i p" and i: "i = vt_task_id (tk_row task)" and k: "tasks_keyed (os_db s)"
  shows "task_past i (os_db s')"
proof -
  obtain b s1 where r: "reconcile_attempts p task b 3 s = (Inr (Inr (Some u)), s1)" and bind: "bind_task p task u s1 = (Inr u, s')"
    using resume_result [OF run] by blast
  from keepsD [OF keeps_reconcile_attempts r] k have "tasks_keyed (os_db s1)" by (auto simp: quiet_def flag_kept_def)
  from bind_call_past [OF bind o i this] show ?thesis .
qed

lemma first_submission_past:
  assumes o: "others_keep i p" and i: "i = vt_task_id (tk_row task)" and past: "task_past i (os_db s)" and run: "first_submission p task known s = (r, s')"
  shows "quiet i s s' \<and> (\<exists>e. r = Inl e)"
  using run unfolding first_submission_def
proof (cases rule: and_then_cases)
  case (stopped e)
  then show ?thesis by (blast intro: keepsD [OF keeps_restored_body [OF o]])
next
  case (went body s1)
  note q1 = keepsD [OF keeps_restored_body [OF o] went(1)]
  from went(2) show ?thesis
  proof (cases rule: and_then_cases)
    case (stopped e)
    then show ?thesis by (blast intro: quietly.trans [OF q1] keepsD [OF keeps_asks])
  next
    case (went listed s2)
    note q = quietly.trans [OF q1 keepsD [OF keeps_asks went(1)]]
    have past2: "task_past i (os_db s2)" using q past by (simp add: quiet_def flag_kept_def)
    show ?thesis
    proof (cases listed)
      case (Inl f)
      then have run2: "failUnlessStopping p task ''official_baseline_failed'' f s2 = (r, s')" using went(2) by simp
      then show ?thesis using quietly.trans [OF q keepsD [OF keeps_fail(2) [OF o] run2]] by (cases r) auto
    next
      case (Inr items)
      let ?save = "store_call p (\<lambda>e. SaveOfficialSubmissionBaseline e (vt_task_id (tk_row task)) (op_NodeID p) (map ot_ID items))"
      have save: "keeps (quiet i) ?save" by (intro quiet_intros o)
      obtain e s3 where s3: "?save s2 = (Inl e, s3)" using saved_call_past [OF o past2] i by blast
      with went(2) Inr have "r = Inl e" "s' = s3" by (auto simp: and_then_def Let_def)
      with quietly.trans [OF q keepsD [OF save s3]] show ?thesis by blast
    qed
  qed
qed

lemma upstream_id_sends:
  assumes o: "others_keep i p" and i: "i = vt_task_id (tk_row task)" and run: "upstream_id p task s = (r, s')"
  shows "may_send i s s'"
proof -
  let ?t = "tk_row task"
  consider "s' = s" | "first_submission p task [] s = (r, s')"
    | "and_then (resume_submission p task) (\<lambda>u. if u \<noteq> [] then ret u else first_submission p task (coalesce (vt_upstream_jobs_before ?t) [])) s = (r, s')"
    using run by (auto simp: upstream_id_def Let_def split: if_splits)
  then show ?thesis
  proof cases
    case 3
    then show ?thesis
    proof (cases rule: and_then_cases)
      case (stopped e)
      then show ?thesis by (blast intro: may_send_quiet keepsD [OF keeps_resume [OF o]])
    next
      case (went u s1)
      note q = keepsD [OF keeps_resume [OF o] went(1)]
      from went(2) have "may_send i s1 s'" by (auto intro: may_send_refl first_submission_sends [OF o i] split: if_splits)
      with q show ?thesis by (rule quiet_may_send)
    qed
  qed (simp add: may_send_refl, rule first_submission_sends [OF o i])
qed

lemma resumed_id:
  assumes o: "others_keep i p" and i: "i = vt_task_id (tk_row task)" and k: "tasks_keyed (os_db s)"
    and saved: "vt_official_submission_baseline_saved (tk_row task)" and run: "upstream_id p task s = (r, s')"
  shows "quiet i s s'"
    and "coalesce (vt_upstream_job_id (tk_row task)) [] = [] \<Longrightarrow> r = Inr u \<Longrightarrow> u \<noteq> [] \<and> resume_submission p task s = (Inr u, s')"
proof -
  let ?first = "first_submission p task (coalesce (vt_upstream_jobs_before (tk_row task)) [])"
  have main: "quiet i s s' \<and> (\<forall>u. r = Inr u \<longrightarrow> u \<noteq> [] \<and> resume_submission p task s = (Inr u, s'))"
    if "and_then (resume_submission p task) (\<lambda>u. if u \<noteq> [] then ret u else ?first) s = (r, s')"
    using that
  proof (cases rule: and_then_cases)
    case (stopped e)
    then show ?thesis by (auto intro: keepsD [OF keeps_resume [OF o]])
  next
    case (went u s1)
    note q = keepsD [OF keeps_resume [OF o] went(1)]
    show ?thesis
    proof (cases "u = []")
      case True
      with went(2) have "?first s1 = (r, s')" by simp
      from first_submission_past [OF o i resumed_past [OF went(1) o i k] this] q show ?thesis by (auto intro: quietly.trans)
    next
      case False
      with went q show ?thesis by (auto simp: ret_def)
    qed
  qed
  have two: "upstream_id p task = (if coalesce (vt_upstream_job_id (tk_row task)) [] \<noteq> [] then ret (coalesce (vt_upstream_job_id (tk_row task)) [])
      else and_then (resume_submission p task) (\<lambda>u. if u \<noteq> [] then ret u else ?first))"
    by (simp only: upstream_id_def Let_def saved if_True)
  show "quiet i s s'"
  proof (cases "coalesce (vt_upstream_job_id (tk_row task)) [] = []")
    case True
    from main run show ?thesis unfolding two by (simp only: True if_False if_True not_True_eq_False simp_thms)
  next
    case False
    from run show ?thesis unfolding two by (simp add: False quietly.refl)
  qed
  show "coalesce (vt_upstream_job_id (tk_row task)) [] = [] \<Longrightarrow> r = Inr u \<Longrightarrow> u \<noteq> [] \<and> resume_submission p task s = (Inr u, s')"
    using main run unfolding two by (simp only: if_False simp_thms)
qed

lemma start_pass_sends:
  assumes o: "others_keep i p" and i: "i = vt_task_id (tk_row task)" and run: "start_pass p task s = (r, s')"
  shows "may_send i s s'" and "vt_official_submission_baseline_saved (tk_row task) \<Longrightarrow> tasks_keyed (os_db s) \<Longrightarrow> quiet i s s'"
proof -
  let ?s = "s\<lparr>os_calls := Suc (os_calls s)\<rparr>"
  have q: "quiet i s ?s" by (simp add: quiet_def flags.refl)
  have c: "s' = ?s \<or> upstream_id p task ?s = (r, s')"
    using run by (auto simp: start_pass_def asks_def and_then_def Let_def split: if_splits)
  then have "may_send i ?s s'" using upstream_id_sends [OF o i] may_send_refl by auto
  with q show "may_send i s s'" by (rule quiet_may_send)
  assume "vt_official_submission_baseline_saved (tk_row task)" and "tasks_keyed (os_db s)"
  then have "quiet i ?s s'" using c resumed_id(1) [OF o i] by (auto simp: quietly.refl)
  with q show "quiet i s s'" by (rule quietly.trans)
qed

lemma ProcessTask_sends:
  assumes o: "others_keep i p" and i: "i = vt_task_id (tk_row task)" and run: "official_ProcessTask p task s = Some (er, s')"
  shows "may_send i s s'" and "vt_official_submission_baseline_saved (tk_row task) \<Longrightarrow> tasks_keyed (os_db s) \<Longrightarrow> quiet i s s'"
proof -
  obtain r s1 where st: "start_pass p task s = (r, s1)" by (cases "start_pass p task s")
  have "quiet i s1 s'" using run st poll_quiet [OF o]
    by (auto simp: official_ProcessTask_def quietly.refl split: sum.splits)
  with start_pass_sends [OF o i st] show "may_send i s s'" "vt_official_submission_baseline_saved (tk_row task) \<Longrightarrow> tasks_keyed (os_db s) \<Longrightarrow> quiet i s s'"
    by (blast intro: may_send_then quietly.trans)+
qed

text \<open>
  The passes over one task: each starts from the row the database has, whoever runs it, and others may change the database in between.
  A crash is a pass whose context is done from some call on.
\<close>

inductive official_passes :: "string \<Rightarrow> official_state \<Rightarrow> official_state \<Rightarrow> bool" for i where
  none_yet: "official_passes i s s"
| pass: "official_passes i s s1 \<Longrightarrow> t \<in> set (video_tasks (os_db s1)) \<Longrightarrow> vt_task_id t = i \<Longrightarrow> others_keep i p \<Longrightarrow>
    official_ProcessTask p (scanTask (os_db s1) t) s1 = Some (er, s2) \<Longrightarrow> official_passes i s s2"
| idle: "official_passes i s s1 \<Longrightarrow> quiet i s1 s2 \<Longrightarrow> official_passes i s s2"

definition sent_for :: "string \<Rightarrow> official_state \<Rightarrow> GenerationRequest list" where
  "sent_for i s = map snd (filter (\<lambda>x. fst x = i) (os_sent s))"

lemma scan_row: "tk_row (scanTask d t) = t"
  by (simp add: scanTask_def Let_def)

text \<open>C3: However often a task is taken up, by whatever workers one after another, and at whatever call a pass was cut off, the passes send the API at most one
  request for it, and once one was sent, the database says that it may have been. This is as long as nobody requeues the task, which resets its submission mark, or
  puts it back to dispatching, and the passes over one task do not overlap.\<close>

theorem official_submits_once:
  assumes "official_passes i s s'" and "tasks_keyed (os_db s)" and "sent_for i s = []"
  shows "length (sent_for i s') \<le> 1 \<and> (sent_for i s' \<noteq> [] \<longrightarrow> task_saved i (os_db s'))"
proof -
  have "tasks_keyed (os_db s') \<and> length (sent_for i s') \<le> 1 \<and> (sent_for i s' \<noteq> [] \<longrightarrow> task_saved i (os_db s'))"
    using assms
  proof (induction rule: official_passes.induct)
    case (pass s s1 t p er s2)
    let ?task = "scanTask (os_db s1) t"
    have i: "i = vt_task_id (tk_row ?task)" using pass.hyps(3) by (simp add: scan_row)
    note c = ProcessTask_sends [OF pass.hyps(4) i pass.hyps(5)]
    show ?case
    proof (cases "sent_for i s1 = []")
      case True
      with pass c(1) show ?thesis by (auto simp: may_send_def flag_kept_def sent_for_def)
    next
      case False
      with pass have "vt_official_submission_baseline_saved (tk_row ?task)" by (auto simp: task_saved_def list_all_iff scan_row)
      with c(2) pass False have "quiet i s1 s2" by blast
      with pass show ?thesis by (auto simp: quiet_def flag_kept_def sent_for_def)
    qed
  qed (auto simp: quiet_def flag_kept_def sent_for_def)
  then show ?thesis by blast
qed

section \<open>The end of a pass\<close>

definition task_settled :: "string \<Rightarrow> db \<Rightarrow> bool" where
  "task_settled i d \<longleftrightarrow> list_ex (\<lambda>t. vt_task_id t = i \<and> \<not> vt_upstream_slot_active t \<and> vt_status t \<in> {StatusSucceeded, StatusReconciling, StatusFailed}) (video_tasks d)"

text \<open>A sequence that returns without an error has settled the task.\<close>

definition settles :: "string \<Rightarrow> 'a opass \<Rightarrow> bool" where
  "settles i m \<longleftrightarrow> (\<forall>s s'. m s = (Inl None, s') \<longrightarrow> task_settled i (os_db s'))"

lemma settles_intros:
  "settles i (ret x)" "settles i (raise (Some er))" "settles i (asks f)"
  "settles i m \<Longrightarrow> (\<And>x. settles i (k x)) \<Longrightarrow> settles i (and_then m k)"
  "settles i m \<Longrightarrow> settles i m' \<Longrightarrow> settles i (if b then m else m')"
  by (auto simp: settles_def asks_def and_then_def split: prod.splits sum.splits)

lemma settles_cases:
  "(\<And>x. settles i (f x)) \<Longrightarrow> (\<And>y. settles i (g y)) \<Longrightarrow> settles i (case v of Inl x \<Rightarrow> f x | Inr y \<Rightarrow> g y)"
  "settles i m \<Longrightarrow> (\<And>x. settles i (h x)) \<Longrightarrow> settles i (case w of None \<Rightarrow> m | Some x \<Rightarrow> h x)"
  "settles i (F x) \<Longrightarrow> settles i (Let x F)"
  by (auto split: sum.split option.split)

lemma settles_store_result: "settles i (store_outcome p f)"
  by (auto simp: settles_def store_outcome_def Let_def split: if_splits prod.splits)

lemma settles_store_call: "settles i (store_call p f)"
  unfolding store_call_def by (intro settles_intros settles_cases settles_store_result)

lemma updated_settled:
  assumes "affected (official_task i n S) (video_tasks d) = 1"
    and "\<And>t. vt_task_id (f t) = vt_task_id t \<and> \<not> vt_upstream_slot_active (f t) \<and> vt_status (f t) \<in> {StatusSucceeded, StatusReconciling, StatusFailed}"
    and "video_tasks d' = update_where (official_task i n S) f (video_tasks d)"
  shows "task_settled i d'"
proof -
  from affected_one_ex [OF assms(1)] obtain t where "t \<in> set (video_tasks d)" "official_task i n S t" by blast
  then have "f t \<in> set (video_tasks d')" "vt_task_id (f t) = i" using assms(2) by (auto simp: assms(3) set_update_where official_task_def)
  with assms(2) show ?thesis unfolding task_settled_def list_ex_iff by blast
qed

lemma MarkOfficialFailed_settles: "MarkOfficialFailed e i n code message fb d = (Inr u, d') \<Longrightarrow> task_settled i d'"
  unfolding MarkOfficialFailed_def Let_def
  by (auto simp: tx_inv dest!: callback_frame intro!: updated_settled [of i n "{StatusDispatching, StatusRunning}" d "official_failed_row e code message fb"]
      simp: official_failed_row_def touched_def)

lemma MarkOfficialGenerated_settles: "MarkOfficialGenerated e i n url ratio job d = (Inr u, d') \<Longrightarrow> task_settled i d'"
  unfolding MarkOfficialGenerated_def Let_def
  by (auto simp: tx_inv insert_upload_def dest!: callback_frame intro!: updated_settled [of i n "{StatusDispatching, StatusRunning}" d "generated_row e url ratio (job \<noteq> None)"]
      simp: generated_row_def touched_def split: option.splits)

lemma settles_store_return: "(\<And>e d u d'. f e d = (Inr u, d') \<Longrightarrow> task_settled i d') \<Longrightarrow> settles i (store_return p f)"
  by (auto simp: settles_def store_return_def store_outcome_def Let_def and_then_def split: if_splits prod.splits sum.splits)

lemma settles_mark_failed: "i = vt_task_id (tk_row task) \<Longrightarrow> settles i (store_return p (mark_failed p task code message fb))"
  by (rule settles_store_return) (auto simp: mark_failed_def dest: MarkOfficialFailed_settles)

lemma settles_fail:
  "i = vt_task_id (tk_row task) \<Longrightarrow> settles i (failUnlessStoppingWithFeedback p task code feedback)"
  "i = vt_task_id (tk_row task) \<Longrightarrow> settles i (failUnlessStopping p task code cause)"
  unfolding failUnlessStopping_def failUnlessStoppingWithFeedback_def by (intro settles_intros settles_cases settles_mark_failed; assumption)+

lemma settles_reconcile: "settles i (reconcile_attempts p task baseline k)"
  by (induction k) (simp_all only: reconcile_attempts.simps, (intro settles_intros; assumption?)+)

lemma settles_bind: "settles i (bind_task p task u)"
  unfolding bind_task_def by (intro settles_intros settles_store_call)

lemma settles_Submit: "settles i (Submit p j body)"
  by (auto simp: settles_def Submit_def Let_def split: option.splits if_splits)

lemma settles_start: "i = vt_task_id (tk_row task) \<Longrightarrow> settles i (start_pass p task)"
  unfolding start_pass_def upstream_id_def resume_submission_def first_submission_def restored_body_def submitted_def reconcileSubmissionWithRetry_def
  by (intro settles_intros settles_cases settles_mark_failed settles_fail settles_reconcile settles_bind settles_store_call settles_store_result settles_Submit; assumption)

lemma settles_poll_once: "i = vt_task_id (tk_row task) \<Longrightarrow> settles i (poll_once p task u)"
  unfolding poll_once_def settle_official_def wait_def
  by (intro settles_intros settles_cases settles_mark_failed settles_fail; (assumption | rule settles_store_return)?)
    (auto dest: MarkOfficialGenerated_settles)

lemma poll_settles: "i = vt_task_id (tk_row task) \<Longrightarrow> poll p task u s = Some (er, s') \<Longrightarrow> er = None \<longrightarrow> task_settled i (os_db s')"
  by (erule poll_rule) (use settles_poll_once [of i task p u] in \<open>auto simp: settles_def\<close>)

text \<open>C39: A pass that returns without an error leaves its task finished, or generated and waiting for its upload, with the slot free.\<close>

theorem official_pass_settles:
  assumes "official_ProcessTask p task s = Some (None, s')"
  shows "task_settled (vt_task_id (tk_row task)) (os_db s')"
proof -
  obtain r s1 where st: "start_pass p task s = (r, s1)" by (cases "start_pass p task s")
  with assms settles_start [OF refl, of task p] poll_settles [OF refl, of p task] show ?thesis
    by (cases r) (auto simp: official_ProcessTask_def settles_def)
qed

text \<open>The loop of a pass ends when the API's answer is final or the context is done.\<close>

definition final_answer :: "OfficialProcessor \<Rightarrow> string \<Rightarrow> nat \<Rightarrow> bool" where
  "final_answer p u n = (case Query p u n of Inl f \<Rightarrow> \<not> retryableQueryError f | Inr t \<Rightarrow> ot_Status t \<noteq> ''queued'' \<and> ot_Status t \<noteq> ''running'')"

lemma wait_continues: "wait p s = (Inr (), s1) \<Longrightarrow> \<not> op_done p (os_calls s) \<and> os_calls s1 = Suc (os_calls s)"
  by (auto simp: wait_def asks_def and_then_def split: if_splits)

lemma settle_official_continues:
  "settle_official p task result s = (Inr (), s1) \<Longrightarrow> (ot_Status result = ''queued'' \<or> ot_Status result = ''running'') \<and> wait p s = (Inr (), s1)"
  by (auto simp: settle_official_def Let_def tx_inv split: if_splits)

lemma poll_continues:
  assumes "poll_once p task u s = (Inr (), s1)"
  shows "\<not> final_answer p u (os_calls s) \<and> \<not> op_done p (Suc (os_calls s)) \<and> os_calls s1 = Suc (Suc (os_calls s))"
proof -
  let ?s = "s\<lparr>os_calls := Suc (os_calls s)\<rparr>"
  have "\<not> final_answer p u (os_calls s) \<and> wait p ?s = (Inr (), s1)"
  proof (cases "Query p u (os_calls s)")
    case (Inl f)
    with assms show ?thesis by (auto simp: poll_once_def asks_def final_answer_def and_then_def split: if_splits)
  next
    case (Inr t)
    with assms have "settle_official p task t ?s = (Inr (), s1)" by (simp add: poll_once_def asks_def and_then_def)
    with Inr settle_official_continues [OF this] show ?thesis by (simp add: final_answer_def)
  qed
  with wait_continues [of p ?s s1] show ?thesis by simp
qed

lemma poll_returns:
  assumes "(\<forall>n \<ge> N. op_done p n) \<or> (\<forall>n \<ge> N. final_answer p u n)"
  shows "\<exists>y. poll p task u s = Some y"
proof (induction "N - os_calls s" arbitrary: s rule: less_induct)
  case less
  obtain r s1 where r: "poll_once p task u s = (r, s1)" by (cases "poll_once p task u s")
  show ?case
  proof (cases r)
    case (Inl er)
    with r show ?thesis by (simp add: poll.simps)
  next
    case (Inr x)
    with poll_continues r have c: "\<not> final_answer p u (os_calls s) \<and> \<not> op_done p (Suc (os_calls s)) \<and> os_calls s1 = Suc (Suc (os_calls s))" by simp
    with assms have "os_calls s < N" by (metis Suc_leD linorder_not_less not_less_eq_eq nle_le)
    with c have "N - os_calls s1 < N - os_calls s" by simp
    from less [OF this] obtain y where "poll p task u s1 = Some y" by blast
    with r Inr show ?thesis by (simp add: poll.simps)
  qed
qed

text \<open>C40: A pass returns once its context is done or the API answers finally about every task.\<close>

theorem official_pass_returns:
  assumes "(\<forall>n \<ge> N. op_done p n) \<or> (\<forall>n \<ge> N. \<forall>u. final_answer p u n)"
  shows "\<exists>er s'. official_ProcessTask p task s = Some (er, s')"
proof -
  obtain r s1 where "start_pass p task s = (r, s1)" by (cases "start_pass p task s")
  moreover have "\<exists>y. poll p task u s1 = Some y" for u using assms by (intro poll_returns [of N]) blast
  ultimately show ?thesis by (cases r) (auto simp: official_ProcessTask_def)
qed

section \<open>Adopted tasks\<close>

lemma reconcile_found:
  "reconcile_attempts p task baseline k s = (Inr (Inr (Some u)), s') \<Longrightarrow>
   \<exists>n items x. os_calls s \<le> n \<and> n < os_calls s' \<and> List_tasks p n = Inr items \<and> filter (is_candidate task baseline) items = [x] \<and> ot_ID x = u"
proof (induction k arbitrary: s)
  case (Suc k)
  let ?r = "reconcileSubmission p task baseline (os_calls s)"
  show ?case
  proof (cases "?r = Inr None")
    case True
    with Suc.prems have "reconcile_attempts p task baseline k (s\<lparr>os_calls := Suc (Suc (os_calls s))\<rparr>) = (Inr (Inr (Some u)), s')"
      by (auto simp: asks_def and_then_def split: if_splits)
    from Suc.IH [OF this] obtain n items x where "Suc (Suc (os_calls s)) \<le> n" "n < os_calls s'" "List_tasks p n = Inr items"
      "filter (is_candidate task baseline) items = [x]" "ot_ID x = u" by auto
    then show ?thesis by (intro exI [of _ n] exI [of _ items] exI [of _ x]) simp
  next
    case False
    with Suc.prems have "?r = Inr (Some u)" and "s' = s\<lparr>os_calls := Suc (os_calls s)\<rparr>" by (auto simp: asks_def and_then_def)
    then show ?thesis
      by (auto simp: reconcileSubmission_def firstCandidate_def split: sum.splits list.splits)
  qed
qed simp

lemma Bind_binds:
  assumes "BindOfficialTask e i n u d = (Inr x, d')"
  shows "list_ex (\<lambda>t. vt_task_id t = i \<and> vt_upstream_job_id t = Some u \<and> vt_status t = StatusRunning) (video_tasks d')"
proof -
  let ?p = "official_task i n {StatusDispatching}" and ?f = "\<lambda>t. (touched (nowUnix e) t)\<lparr>vt_upstream_job_id := Some u, vt_status := StatusRunning\<rparr>"
  from assms have one: "affected ?p (video_tasks d) = 1" and d': "d' = video_tasks_update (update_where ?p ?f) d"
    by (auto simp: BindOfficialTask_def exec_one_success_iff)
  from affected_one_ex [OF one] obtain t where "t \<in> set (video_tasks d)" "?p t" by blast
  then have "?f t \<in> set (video_tasks d')" "vt_task_id (?f t) = i" by (auto simp: d' set_update_where official_task_def touched_def)
  then show ?thesis unfolding list_ex_iff by (intro bexI [of _ "?f t"]) auto
qed

text \<open>C38: A task that may have been submitted before is bound, by a pass that goes on with it, to the only task of a list of the API that fits it and was not listed
  before the submission; that task has an id, nothing was sent, and the database has the task running under that id (as long as nobody requeues it or puts it back
  to dispatching meanwhile).\<close>

theorem adopted_task_unique:
  assumes run: "start_pass p task s = (Inr u, s')" and saved: "vt_official_submission_baseline_saved (tk_row task)"
    and none: "coalesce (vt_upstream_job_id (tk_row task)) [] = []" and o: "others_keep (vt_task_id (tk_row task)) p" and k: "tasks_keyed (os_db s)"
  shows "u \<noteq> [] \<and> os_sent s' = os_sent s
     \<and> (\<exists>known n items x. vt_upstream_jobs_before (tk_row task) = Some known \<and> u \<notin> set known \<and> os_calls s < n \<and> n < os_calls s'
          \<and> List_tasks p n = Inr items \<and> filter (is_candidate task known) items = [x] \<and> ot_ID x = u)
     \<and> list_ex (\<lambda>t. vt_task_id t = vt_task_id (tk_row task) \<and> vt_upstream_job_id t = Some u \<and> vt_status t = StatusRunning) (video_tasks (os_db s'))"
proof -
  let ?s = "s\<lparr>os_calls := Suc (os_calls s)\<rparr>"
  from run have up: "upstream_id p task ?s = (Inr u, s')" by (auto simp: start_pass_def asks_def and_then_def Let_def split: if_splits)
  have k': "tasks_keyed (os_db ?s)" using k by simp
  note res = resumed_id [OF o refl k' saved up]
  have u: "u \<noteq> []" and resume: "resume_submission p task ?s = (Inr u, s')" using res(2) [OF none refl] by simp_all
  have sent: "os_sent s' = os_sent s" using res(1) by (simp add: quiet_def)
  obtain b s1 where b: "vt_upstream_jobs_before (tk_row task) = Some b" and rec: "reconcile_attempts p task b 3 ?s = (Inr (Inr (Some u)), s1)"
    and bind: "bind_task p task u s1 = (Inr u, s')" using resume_result [OF resume] by blast
  from reconcile_found [OF rec] obtain n items x where x: "os_calls s < n" "n < os_calls s1" "List_tasks p n = Inr items"
    "filter (is_candidate task b) items = [x]" "ot_ID x = u" by (auto simp: Suc_le_eq)
  have "x \<in> set (filter (is_candidate task b) items)" using x(4) by simp
  with x(5) have new: "u \<notin> set b" by (auto simp: is_candidate_def Let_def)
  from bind obtain d where b': "BindOfficialTask (op_env p (os_calls s1)) (vt_task_id (tk_row task)) (op_NodeID p) u d = (Inr (), os_db s')" and later: "os_calls s1 \<le> os_calls s'"
    by (auto simp: bind_task_def store_call_def store_outcome_def Let_def tx_inv split: if_splits prod.splits sum.splits)
  have "\<exists>known n items x. vt_upstream_jobs_before (tk_row task) = Some known \<and> u \<notin> set known \<and> os_calls s < n \<and> n < os_calls s'
          \<and> List_tasks p n = Inr items \<and> filter (is_candidate task known) items = [x] \<and> ot_ID x = u"
    using b new x later by (intro exI [of _ b] exI [of _ n] exI [of _ items] exI [of _ x]) simp
  with u sent Bind_binds [OF b'] show ?thesis by blast
qed

section \<open>Witnesses\<close>

definition sample_official :: "OfficialTask list \<Rightarrow> nat \<Rightarrow> OfficialProcessor" where
  "sample_official items stop =
     \<lparr>op_NodeID = ''n1'', op_NodeVersion = 1, op_Capacity = 1, op_env = (\<lambda>_. sample_env), op_others = (\<lambda>_ d. d), op_done = (\<lambda>n. stop \<le> n),
      op_Inputs = None, op_files = (\<lambda>_ _. None), op_model = [], op_create = (\<lambda>_ _. Inr ''u1''),
      op_query = (\<lambda>_ u. Inr \<lparr>ot_ID = u, ot_Status = ''failed'', ot_URL = [], ot_Resolution = [], ot_Duration = 0, ot_Ratio = [], ot_CreatedAt = 0, ot_Error = None\<rparr>),
      op_list = (\<lambda>_. Inr (Some items)), op_parse_url = (\<lambda>_. None), op_day = (\<lambda>_. ''2026-01-01'')\<rparr>"

definition official_row :: video_task where
  "official_row = (blank_task ''t1'' 1)\<lparr>vt_status := StatusDispatching, vt_upstream_id := Some ''n1'', vt_upstream_slot_active := True,
     vt_protocol_version := Some ProtocolOfficial, vt_route_state := RouteReady,
     vt_request := Some \<lparr>gr_model = ''m'', gr_content = [], gr_resolution = ''768P'', gr_duration = 6, gr_ratio = [], gr_callback_url = None,
       gr_aigc_watermark = None, gr_duration_present = True\<rparr>\<rparr>"

definition official_start :: "video_task \<Rightarrow> official_state" where
  "official_start t = \<lparr>os_db = empty_db\<lparr>video_tasks := [t]\<rparr>, os_calls = 0, os_sent = []\<rparr>"

definition crashed :: official_state where
  "crashed = snd (start_pass (sample_official [] 4) (scanTask (os_db (official_start official_row)) official_row) (official_start official_row))"

lemmas official_eval = sample_official_def official_row_def official_start_def blank_task_def empty_db_def start_pass_def upstream_id_def first_submission_def
  restored_body_def store_call_def store_outcome_def asks_def and_then_def Let_def scan_row coalesce_def

lemma sample_crash: "official_ProcessTask (sample_official [] 4) (scanTask (os_db (official_start official_row)) official_row) (official_start official_row)
   = Some (Some (ErrText ''context''), crashed)"
  "sent_for ''t1'' crashed \<noteq> []"
  by (simp_all add: official_ProcessTask_def crashed_def official_eval List_tasks_def SaveOfficialSubmissionBaseline_def exec_one_apply official_task_def
      protocol_defs Submit_def create_request_def submitted_def bind_task_def sent_for_def touched_def text_eval)

theorem official_submits_once_witness:
  "official_passes ''t1'' (official_start official_row) crashed \<and> length (sent_for ''t1'' crashed) \<le> 1 \<and> task_saved ''t1'' (os_db crashed)"
proof -
  have o: "others_keep ''t1'' (sample_official [] 4)" by (simp add: others_keep_def sample_official_def flags.refl)
  have "official_passes ''t1'' (official_start official_row) crashed"
    by (rule official_passes.pass [OF official_passes.none_yet _ _ o sample_crash(1)]) (simp_all add: official_start_def official_row_def blank_task_def)
  moreover have "tasks_keyed (os_db (official_start official_row))" "sent_for ''t1'' (official_start official_row) = []"
    by (simp_all add: official_start_def tasks_keyed_def sent_for_def)
  ultimately show ?thesis using official_submits_once [of "''t1''" "official_start official_row" crashed] sample_crash(2) by blast
qed

definition bound_row :: video_task where
  "bound_row = official_row\<lparr>vt_upstream_job_id := Some ''u1'', vt_status := StatusRunning\<rparr>"

definition settled_end :: official_state where
  "settled_end = snd (poll_once (sample_official [] 9) (scanTask (os_db (official_start bound_row)) bound_row) ''u1'' ((official_start bound_row)\<lparr>os_calls := 1\<rparr>))"

lemma sample_settled: "official_ProcessTask (sample_official [] 9) (scanTask (os_db (official_start bound_row)) bound_row) (official_start bound_row) = Some (None, settled_end)"
  by (simp add: official_ProcessTask_def settled_end_def poll.simps [of _ _ "''u1''"] poll_once_def official_eval bound_row_def Query_def validTaskID_def settle_official_def
      store_return_def mark_failed_def MarkOfficialFailed_def atomically_def exec_one_apply official_task_def protocol_defs
      failure_feedback_def LocalizeOfficialError_def OfficialErrorCode_def official_codes_def message_tag_def createCallbackDeliveryWithConn_def
      official_failed_row_def touched_def)

theorem official_pass_settles_witness:
  "official_ProcessTask (sample_official [] 9) (scanTask (os_db (official_start bound_row)) bound_row) (official_start bound_row) = Some (None, settled_end)
   \<and> task_settled ''t1'' (os_db settled_end)"
  using official_pass_settles [OF sample_settled] sample_settled by (simp add: scan_row bound_row_def official_row_def blank_task_def)

theorem official_pass_returns_witness:
  "\<exists>er s'. official_ProcessTask (sample_official [] 4) (scanTask (os_db (official_start bound_row)) bound_row) (official_start bound_row) = Some (er, s')"
  by (rule official_pass_returns [of 4]) (simp add: sample_official_def)

definition listed_task :: OfficialTask where
  "listed_task = \<lparr>ot_ID = ''u1'', ot_Status = ''queued'', ot_URL = [], ot_Resolution = [], ot_Duration = 0, ot_Ratio = [], ot_CreatedAt = 0, ot_Error = None\<rparr>"

definition saved_row :: video_task where
  "saved_row = official_row\<lparr>vt_official_submission_baseline_saved := True, vt_upstream_jobs_before := Some [''u0'']\<rparr>"

definition adopted_state :: official_state where
  "adopted_state = snd (start_pass (sample_official [listed_task] 9) (scanTask (os_db (official_start saved_row)) saved_row) (official_start saved_row))"

lemma sample_adopted: "start_pass (sample_official [listed_task] 9) (scanTask (os_db (official_start saved_row)) saved_row) (official_start saved_row) = (Inr ''u1'', adopted_state)"
  by (simp add: adopted_state_def official_eval saved_row_def resume_submission_def reconcileSubmissionWithRetry_def eval_nat_numeral reconcileSubmission_def
      List_tasks_def firstCandidate_def is_candidate_def listed_task_def bind_task_def BindOfficialTask_def exec_one_apply official_task_def protocol_defs)

theorem adopted_task_unique_witness:
  "start_pass (sample_official [listed_task] 9) (scanTask (os_db (official_start saved_row)) saved_row) (official_start saved_row) = (Inr ''u1'', adopted_state)
   \<and> os_sent adopted_state = []
   \<and> list_ex (\<lambda>t. vt_task_id t = ''t1'' \<and> vt_upstream_job_id t = Some ''u1'' \<and> vt_status t = StatusRunning) (video_tasks (os_db adopted_state))"
proof -
  have i: "vt_task_id saved_row = ''t1''" "vt_official_submission_baseline_saved saved_row" "coalesce (vt_upstream_job_id saved_row) [] = []"
    by (simp_all add: saved_row_def official_row_def blank_task_def coalesce_def)
  have o: "others_keep j (sample_official [listed_task] 9)" for j by (simp add: others_keep_def sample_official_def flags.refl)
  have k: "tasks_keyed (os_db (official_start saved_row))" by (simp add: official_start_def tasks_keyed_def)
  from adopted_task_unique [OF sample_adopted, unfolded scan_row, OF i(2,3) o k] sample_adopted show ?thesis
    by (simp add: i official_start_def)
qed

end
