(* ===== verification/ResultDelivery.thy ===== *)
theory ResultDelivery
  imports UploadStore Netguard InputSpool
begin

text \<open>
  \<^verbatim>\<open>internal/resultdelivery\<close>: the worker that downloads a generated video and uploads it to the operator's object storage, and
  the downloader for results with a public address. Between two of its calls others may change the database.
\<close>

section \<open>The downloader\<close>

text \<open>\<open>net.IP\<close> has no zone, and its tests see through IPv4-mapped addresses; nil is \<open>NoAddr\<close>.\<close>

fun without_zone :: "Addr \<Rightarrow> Addr" where
  "without_zone (V6 a z) = V6 a []"
| "without_zone a = a"

definition unsafeIP :: "Addr \<Rightarrow> bool" where
  "unsafeIP a \<longleftrightarrow> (let ip = Unmap (without_zone a) in
     ip = NoAddr \<or> IsLoopback ip \<or> IsPrivate ip \<or> IsLinkLocalUnicast ip \<or> IsLinkLocalMulticast ip \<or> IsUnspecified ip \<or> IsMulticast ip)"

text \<open>
  What the network answers, by the number of the call: the resolver, whether a connection succeeds, and the response to a
  request for a URL: a redirect, a failure, or a status with content type, declared length (\<open>-1\<close>: none), body, and whether it could be read and written whole.
\<close>

record response =
  re_status :: int
  re_content_type :: string
  re_content_length :: int
  re_body :: string
  re_copied :: bool

datatype answer = Redirected ParsedURL | NoAnswer bool | Answered response

text \<open>
  The downloader: an injected client, if any, given by its own check of redirects, and otherwise a client of its own whose transport may go through a proxy of the
  environment; \<open>do_answer\<close> is what the client in use answers.
\<close>

record Downloader =
  do_Client :: "(ParsedURL \<Rightarrow> bool) option option"
  do_proxy :: "nat \<Rightarrow> ParsedURL \<Rightarrow> ParsedURL option"
  do_resolve :: "nat \<Rightarrow> string \<Rightarrow> Addr list option"
  do_dial :: "nat \<Rightarrow> Addr \<Rightarrow> string \<Rightarrow> bool"
  do_answer :: "nat \<Rightarrow> ParsedURL \<Rightarrow> answer"
  do_parse :: url_parser
  do_writable :: bool
  do_MaxBytes :: int

text \<open>What \<open>retryableDownload\<close> finds in the chain of an error.\<close>

record DownloadFailure =
  df_deadline :: bool
  df_incomplete :: bool
  df_node :: "(string \<times> int) option"
  df_download :: "bool option"
  df_timeout :: "bool option"

definition plain_failure :: DownloadFailure where
  "plain_failure = \<lparr>df_deadline = False, df_incomplete = False, df_node = None, df_download = None, df_timeout = None\<rparr>"

definition retryableDownload :: "DownloadFailure \<Rightarrow> bool" where
  "retryableDownload f =
     (if df_deadline f \<or> df_incomplete f then True
      else case df_node f of Some (class, status) \<Rightarrow> class = ''temporary'' \<or> class = ''transport'' \<or> status = 409
      | None \<Rightarrow> (case df_download f of Some r \<Rightarrow> r | None \<Rightarrow> df_timeout f = Some True))"

definition validate_target :: "Downloader \<Rightarrow> nat \<Rightarrow> ParsedURL \<Rightarrow> bool" where
  "validate_target d n u \<longleftrightarrow> u_scheme u = ''https'' \<and> Hostname u \<noteq> [] \<and> \<not> u_has_user u
     \<and> (case do_resolve d n (Hostname u) of None \<Rightarrow> False | Some as \<Rightarrow> as \<noteq> [] \<and> \<not> list_ex unsafeIP as)"

text \<open>The dialer resolves again and tries the addresses in order up to the first unsafe one; with the attempts made.\<close>

fun dial_in_order :: "(Addr \<Rightarrow> bool) \<Rightarrow> Addr list \<Rightarrow> Addr list \<times> bool" where
  "dial_in_order dial [] = ([], False)"
| "dial_in_order dial (a # as) =
     (if unsafeIP a then ([], False) else if dial a then ([a], True) else (let (tried, ok) = dial_in_order dial as in (a # tried, ok)))"

definition default_port :: "string \<Rightarrow> string" where
  "default_port scheme = (if scheme = ''https'' then ''443'' else if has_prefix scheme ''socks5'' then ''1080'' else ''80'')"

definition dial_host :: "Downloader \<Rightarrow> nat \<Rightarrow> ParsedURL \<Rightarrow> Addr list \<times> bool" where
  "dial_host d n u =
     (let t = (case do_proxy d n u of None \<Rightarrow> u | Some p \<Rightarrow> p) in
      case do_resolve d n (Hostname t) of None \<Rightarrow> ([], False)
      | Some as \<Rightarrow> dial_in_order (\<lambda>a. do_dial d n a (if Port t = [] then default_port (u_scheme t) else Port t)) as)"

text \<open>
  A request, its connection and the redirects, of which three are followed; the attempts listed are those of the downloader's own dialer, as an
  injected client makes its own connections.
\<close>

definition connect_to :: "Downloader \<Rightarrow> nat \<Rightarrow> ParsedURL \<Rightarrow> Addr list \<times> bool" where
  "connect_to d n u = (case do_Client d of None \<Rightarrow> dial_host d n u | Some _ \<Rightarrow> ([], True))"

definition redirect_allowed :: "Downloader \<Rightarrow> nat \<Rightarrow> ParsedURL \<Rightarrow> bool" where
  "redirect_allowed d n u \<longleftrightarrow> validate_target d n u \<and> (case do_Client d of Some (Some previousRedirect) \<Rightarrow> previousRedirect u | _ \<Rightarrow> True)"

fun fetch_from :: "Downloader \<Rightarrow> nat \<Rightarrow> nat \<Rightarrow> ParsedURL \<Rightarrow> Addr list \<times> (DownloadFailure + response)" where
  "fetch_from d n left u =
     (let (tried, ok) = connect_to d n u in
      if \<not> ok then (tried, Inl plain_failure)
      else case do_answer d (Suc n) u of
        NoAnswer t \<Rightarrow> (tried, Inl (plain_failure\<lparr>df_timeout := Some t\<rparr>))
      | Answered r \<Rightarrow> (tried, Inr r)
      | Redirected v \<Rightarrow>
          (case left of 0 \<Rightarrow> (tried, Inl plain_failure)
           | Suc k \<Rightarrow>
               if \<not> redirect_allowed d (n + 2) v then (tried, Inl plain_failure)
               else (let (more, r) = fetch_from d (n + 3) k v in (tried @ more, r))))"

declare fetch_from.simps [simp del]

definition DefaultMaxVideoBytes :: int where
  "DefaultMaxVideoBytes = 2 * 2 ^ 30"

definition media_type :: "string \<Rightarrow> string" where
  "media_type header = lower (trim_space (takeWhile (\<lambda>c. c \<noteq> CHR '';'') header))"

text \<open>The file that is written is a prefix of the body, one byte longer than the limit at most.\<close>

definition store_body :: "Downloader \<Rightarrow> response \<Rightarrow> DownloadFailure + string" where
  "store_body d r =
     (let limit = (if do_MaxBytes d \<le> 0 then DefaultMaxVideoBytes else do_MaxBytes d); file = take (nat (limit + 1)) (re_body r); written = int (length file) in
      if re_status r \<noteq> 200 then Inl (plain_failure\<lparr>df_download := Some (re_status r = 429 \<or> re_status r \<ge> 500)\<rparr>)
      else if \<not> has_prefix (media_type (re_content_type r)) ''video/'' then Inl plain_failure
      else if re_content_length r > limit then Inl plain_failure
      else if \<not> do_writable d \<or> \<not> re_copied r then Inl plain_failure
      else if written = 0 \<or> written > limit then Inl plain_failure
      else if re_content_length r \<ge> 0 \<and> written \<noteq> re_content_length r then Inl plain_failure
      else Inr file)"

definition public_Download :: "Downloader \<Rightarrow> nat \<Rightarrow> string \<Rightarrow> Addr list \<times> (DownloadFailure + string)" where
  "public_Download d n rawURL =
     (case do_parse d rawURL of None \<Rightarrow> ([], Inl plain_failure)
      | Some u \<Rightarrow>
          if \<not> validate_target d n u then ([], Inl plain_failure)
          else (let (tried, r) = fetch_from d (Suc n) 3 u in
            (tried, case r of Inl f \<Rightarrow> Inl f | Inr x \<Rightarrow> store_body d x)))"

section \<open>The worker\<close>

record StorageFailure =
  sf_Code :: string
  sf_Message :: string
  sf_Retryable :: bool

text \<open>A file that is downloaded for a task has the content and the count the downloader reports.\<close>

record DeliveryWorker =
  dw_env :: "nat \<Rightarrow> StoreEnv"
  dw_others :: "nat \<Rightarrow> db \<Rightarrow> db"
  dw_done :: "nat \<Rightarrow> bool"
  dw_now :: "nat \<Rightarrow> int"
  dw_LeaseMillis :: int
  dw_lease :: "nat \<Rightarrow> string"
  dw_open :: "nat \<Rightarrow> string \<Rightarrow> string \<Rightarrow> string option"
  dw_factory :: "nat \<Rightarrow> storage_config \<Rightarrow> string \<Rightarrow> string \<Rightarrow> StorageFailure option option"
  dw_temp :: "nat \<Rightarrow> bool"
  dw_task_download :: "(nat \<Rightarrow> string \<Rightarrow> DownloadFailure + string) option"
  dw_download :: "nat \<Rightarrow> string \<Rightarrow> DownloadFailure + string"
  dw_upload :: "nat \<Rightarrow> string \<Rightarrow> string \<Rightarrow> StorageFailure option + string"

text \<open>The objects that were stored are logged: job, key, content and public address.\<close>

record stored_object =
  so_job :: string
  so_key :: string
  so_content :: string
  so_url :: string

record delivery_state =
  dv_db :: db
  dv_calls :: nat
  dv_stored :: "stored_object list"

text \<open>How a pass ends: with a panic or a returned error.\<close>

datatype delivery_end = Panicked | Returned "err option"

type_synonym 'a dpass = "(delivery_end, delivery_state, 'a) tx"

definition asking :: "(nat \<Rightarrow> 'a) \<Rightarrow> 'a dpass" where
  "asking f = (\<lambda>s. (Inr (f (dv_calls s)), s\<lparr>dv_calls := Suc (dv_calls s)\<rparr>))"

definition storing :: "DeliveryWorker \<Rightarrow> (StoreEnv \<Rightarrow> 'a op) \<Rightarrow> (err + 'a) dpass" where
  "storing w f = (\<lambda>s.
     let n = dv_calls s; d = dw_others w n (dv_db s) in
     if dw_done w n then (Inr (Inl (ErrText ''context'')), s\<lparr>dv_db := d, dv_calls := Suc n\<rparr>)
     else let (r, d') = f (dw_env w n) d in (Inr r, s\<lparr>dv_db := d', dv_calls := Suc n\<rparr>))"

text \<open>\<open>backoff[min(attempt-1, 2)]\<close> in milliseconds; a negative index panics.\<close>

definition backoff_at :: "int \<Rightarrow> int option" where
  "backoff_at attempt =
     (let i = min (attempt - 1) 2 in if i < 0 then None else Some ([1000, 5000, 20000] ! nat i))"

definition fail_attempt :: "DeliveryWorker \<Rightarrow> upload_job \<Rightarrow> string \<Rightarrow> string \<Rightarrow> string \<Rightarrow> bool \<Rightarrow> 'a dpass" where
  "fail_attempt w job lease code message retryable =
     and_then (asking (dw_done w)) (\<lambda>stopped.
     if stopped then raise (Returned (Some (ErrText ''cause'')))
     else and_then (asking (dw_now w)) (\<lambda>now.
       case backoff_at (ru_attempt_no job) of None \<Rightarrow> raise Panicked
       | Some b \<Rightarrow>
           and_then (storing w (\<lambda>e. FailResultUploadAttempt e (ru_id job) lease code message retryable (now + b))) (\<lambda>r.
           raise (Returned (case r of Inl er \<Rightarrow> Some er | Inr _ \<Rightarrow> None)))))"

definition failObjectStore :: "DeliveryWorker \<Rightarrow> upload_job \<Rightarrow> string \<Rightarrow> StorageFailure option \<Rightarrow> 'a dpass" where
  "failObjectStore w job lease f =
     (case f of Some x \<Rightarrow> fail_attempt w job lease (sf_Code x) (sf_Message x) (sf_Retryable x)
      | None \<Rightarrow> fail_attempt w job lease ''ucloud_upload_failed'' ''upload failed'' True)"

definition or_fail :: "DeliveryWorker \<Rightarrow> upload_job \<Rightarrow> string \<Rightarrow> string \<Rightarrow> (err + 'a) dpass \<Rightarrow> 'a dpass" where
  "or_fail w job lease code m = and_then m (\<lambda>r. case r of Inl _ \<Rightarrow> fail_attempt w job lease code code False | Inr x \<Rightarrow> ret x)"

definition or_secret_fail :: "DeliveryWorker \<Rightarrow> upload_job \<Rightarrow> string \<Rightarrow> string option dpass \<Rightarrow> string dpass" where
  "or_secret_fail w job lease m =
     and_then m (\<lambda>r. case r of None \<Rightarrow> fail_attempt w job lease ''object_storage_secret_invalid'' ''secret'' False | Some x \<Rightarrow> ret x)"

definition connect_storage :: "DeliveryWorker \<Rightarrow> upload_job \<Rightarrow> string \<Rightarrow> unit dpass" where
  "connect_storage w job lease =
     and_then (or_fail w job lease ''object_storage_not_configured'' (storing w (\<lambda>e. GetObjectStorageConfig))) (\<lambda>config.
     and_then (or_secret_fail w job lease (asking (\<lambda>n. dw_open w n (sc_public_key_nonce config) (sc_public_key_ciphertext config)))) (\<lambda>publicKey.
     and_then (or_secret_fail w job lease (asking (\<lambda>n. dw_open w n (sc_private_key_nonce config) (sc_private_key_ciphertext config)))) (\<lambda>privateKey.
     and_then (asking (\<lambda>n. dw_factory w n config publicKey privateKey)) (\<lambda>r.
     case r of Some f \<Rightarrow> failObjectStore w job lease f | None \<Rightarrow> ret ()))))"

definition download_video :: "DeliveryWorker \<Rightarrow> upload_job \<Rightarrow> string \<Rightarrow> string \<Rightarrow> string dpass" where
  "download_video w job lease source =
     and_then (asking (dw_temp w)) (\<lambda>ok.
     if \<not> ok then fail_attempt w job lease ''temporary_file_failed'' ''temporary file'' True
     else and_then (asking (\<lambda>n. case dw_task_download w of Some f \<Rightarrow> f n (ru_task_id job) | None \<Rightarrow> dw_download w n source)) (\<lambda>r.
       case r of Inl f \<Rightarrow> fail_attempt w job lease ''result_download_failed'' ''download'' (retryableDownload f) | Inr video \<Rightarrow> ret video))"

definition upload_video :: "DeliveryWorker \<Rightarrow> upload_job \<Rightarrow> string \<Rightarrow> string \<Rightarrow> string dpass" where
  "upload_video w job lease video =
     and_then (\<lambda>s. (case dw_upload w (dv_calls s) (ru_object_key job) video of
         Inl f \<Rightarrow> (Inr (Inl f), s\<lparr>dv_calls := Suc (dv_calls s)\<rparr>)
       | Inr u \<Rightarrow> (Inr (Inr u), s\<lparr>dv_calls := Suc (dv_calls s),
             dv_stored := dv_stored s @ [\<lparr>so_job = ru_id job, so_key = ru_object_key job, so_content = video, so_url = u\<rparr>]\<rparr>))) (\<lambda>r.
     case r of Inl f \<Rightarrow> failObjectStore w job lease f | Inr u \<Rightarrow> ret u)"

definition deliver :: "DeliveryWorker \<Rightarrow> upload_job \<Rightarrow> string \<Rightarrow> delivery_end dpass" where
  "deliver w job lease =
     and_then (or_fail w job lease ''result_source_missing'' (storing w (\<lambda>e. GetResultUploadSource (ru_task_id job)))) (\<lambda>source.
     and_then (connect_storage w job lease) (\<lambda>_.
     and_then (download_video w job lease source) (\<lambda>video.
     and_then (upload_video w job lease video) (\<lambda>u.
     and_then (storing w (\<lambda>e. CompleteResultUpload e (ru_id job) lease u (int (length video)))) (\<lambda>r.
     raise (Returned (case r of Inl er \<Rightarrow> Some er | Inr _ \<Rightarrow> None)))))))"

definition delivery_ProcessOne :: "DeliveryWorker \<Rightarrow> delivery_end dpass" where
  "delivery_ProcessOne w =
     and_then (asking (dw_lease w)) (\<lambda>lease.
     let ms = (if dw_LeaseMillis w \<le> 0 then 35 * 60 * 1000 else dw_LeaseMillis w) in
     and_then (storing w (\<lambda>e. ClaimResultUploadJob e lease ms)) (\<lambda>r.
     case r of Inl er \<Rightarrow> raise (Returned (Some er)) | Inr job \<Rightarrow> deliver w job lease))"

section \<open>What is downloaded\<close>

lemma dial_in_order_safe: "a \<in> set (fst (dial_in_order dial as)) \<Longrightarrow> \<not> unsafeIP a"
  by (induction dial as rule: dial_in_order.induct) (auto split: if_splits prod.splits)

lemma dial_host_safe: "a \<in> set (fst (dial_host d n u)) \<Longrightarrow> \<not> unsafeIP a"
  by (auto simp: dial_host_def Let_def dest: dial_in_order_safe split: option.splits)

lemma connect_to_safe: "a \<in> set (fst (connect_to d n u)) \<Longrightarrow> \<not> unsafeIP a"
  by (auto simp: connect_to_def dest: dial_host_safe split: option.splits)

lemma fetch_from_safe:
  "fetch_from d n left u = (tried, r) \<Longrightarrow> (\<forall>a \<in> set tried. \<not> unsafeIP a) \<and> (\<forall>x. r = Inr x \<longrightarrow> (\<exists>k v. do_answer d k v = Answered x \<and> (v = u \<or> u_scheme v = ''https'' \<and> \<not> u_has_user v)))"
proof (induction d n left u arbitrary: tried r rule: fetch_from.induct)
  case (1 d n left u)
  obtain t ok where dial: "connect_to d n u = (t, ok)" by (cases "connect_to d n u")
  have safe: "\<forall>a \<in> set t. \<not> unsafeIP a" using connect_to_safe [of _ d n u] dial by auto
  show ?case
  proof (cases "\<exists>v k. ok \<and> do_answer d (Suc n) u = Redirected v \<and> left = Suc k \<and> redirect_allowed d (n + 2) v")
    case True
    then obtain v k where v: "ok" "do_answer d (Suc n) u = Redirected v" "left = Suc k" "redirect_allowed d (n + 2) v" by blast
    obtain m q where rest: "fetch_from d (n + 3) k v = (m, q)" by (cases "fetch_from d (n + 3) k v")
    from 1(1) [OF dial [symmetric] refl _ v(2,3) _ rest] v(1,4)
    have ih: "(\<forall>a \<in> set m. \<not> unsafeIP a) \<and> (\<forall>x. q = Inr x \<longrightarrow> (\<exists>k w. do_answer d k w = Answered x \<and> (w = v \<or> u_scheme w = ''https'' \<and> \<not> u_has_user w)))"
      by simp
    from 1(2) dial v rest have "tried = t @ m" "r = q" by (auto simp: fetch_from.simps [of d n])
    with ih safe v(4) show ?thesis unfolding redirect_allowed_def validate_target_def by (metis UnE set_append)
  next
    case False
    with 1(2) dial safe show ?thesis
      by (auto simp: fetch_from.simps [of d n] split: if_splits answer.splits nat.splits prod.splits)
  qed
qed

lemma store_body_whole:
  assumes "store_body d r = Inr video"
  shows "video = re_body r \<and> video \<noteq> [] \<and> int (length video) \<le> (if do_MaxBytes d \<le> 0 then DefaultMaxVideoBytes else do_MaxBytes d)
     \<and> re_status r = 200 \<and> (re_content_length r \<ge> 0 \<longrightarrow> int (length video) = re_content_length r)"
proof -
  let ?l = "if do_MaxBytes d \<le> 0 then DefaultMaxVideoBytes else do_MaxBytes d"
  from assms have f: "video = take (nat (?l + 1)) (re_body r)" "int (length video) \<le> ?l" "video \<noteq> []" "re_status r = 200"
    "re_content_length r \<ge> 0 \<longrightarrow> int (length video) = re_content_length r"
    unfolding store_body_def Let_def by (auto split: if_splits simp del: length_take)
  have "video = re_body r"
  proof (cases "length (re_body r) \<le> nat (?l + 1)")
    case False
    with f(1) have "length video = nat (?l + 1)" by simp
    with f(2) show ?thesis by linarith
  qed (simp add: f(1))
  with f show ?thesis by simp
qed

text \<open>C19: Whatever the resolver and the servers answer, on the first request and on every redirect, the downloader only attempts connections to addresses that
  are not private, local or multicast; and a file it accepts is the whole body of an answer 200 over HTTPS, not empty, within the limit and as long as declared.\<close>

theorem Download_safe:
  assumes "public_Download d n url = (tried, r)"
  shows "(\<forall>a \<in> set tried. \<not> unsafeIP a) \<and> (\<forall>video. r = Inr video \<longrightarrow> video \<noteq> []
     \<and> int (length video) \<le> (if do_MaxBytes d \<le> 0 then DefaultMaxVideoBytes else do_MaxBytes d)
     \<and> (\<exists>k v x. do_answer d k v = Answered x \<and> u_scheme v = ''https'' \<and> \<not> u_has_user v \<and> re_status x = 200 \<and> re_body x = video
          \<and> (re_content_length x \<ge> 0 \<longrightarrow> int (length video) = re_content_length x)))"
proof (cases "\<exists>u. do_parse d url = Some u \<and> validate_target d n u")
  case True
  then obtain u where u: "do_parse d url = Some u" "validate_target d n u" by blast
  obtain t q where f: "fetch_from d (Suc n) 3 u = (t, q)" by (cases "fetch_from d (Suc n) 3 u")
  note c = fetch_from_safe [OF f]
  from assms u f have r: "tried = t" "r = (case q of Inl f \<Rightarrow> Inl f | Inr x \<Rightarrow> store_body d x)" by (auto simp: public_Download_def)
  show ?thesis
  proof (intro conjI allI impI)
    show "\<forall>a \<in> set tried. \<not> unsafeIP a" using c r by simp
    fix video assume "r = Inr video"
    with r obtain x where x: "q = Inr x" "store_body d x = Inr video" by (auto split: sum.splits)
    note w = store_body_whole [OF x(2)]
    from c x(1) u(2) obtain k v where v: "do_answer d k v = Answered x" "u_scheme v = ''https''" "\<not> u_has_user v" by (auto simp: validate_target_def)
    show "video \<noteq> []" "int (length video) \<le> (if do_MaxBytes d \<le> 0 then DefaultMaxVideoBytes else do_MaxBytes d)" using w by blast+
    show "\<exists>k v x. do_answer d k v = Answered x \<and> u_scheme v = ''https'' \<and> \<not> u_has_user v \<and> re_status x = 200 \<and> re_body x = video
          \<and> (re_content_length x \<ge> 0 \<longrightarrow> int (length video) = re_content_length x)" using v w by blast
  qed
next
  case False
  with assms show ?thesis by (auto simp: public_Download_def split: option.splits)
qed

section \<open>What a pass does to its job\<close>

definition jobs_kept :: "delivery_state \<Rightarrow> delivery_state \<Rightarrow> bool" where
  "jobs_kept s s' \<longleftrightarrow> jobs_safe (dv_db s) (dv_db s')"

definition others_deliver :: "DeliveryWorker \<Rightarrow> bool" where
  "others_deliver w \<longleftrightarrow> (\<forall>n d. jobs_safe d (dw_others w n d))"

interpretation delivery_jobs: step_contract jobs_kept
  by unfold_locales (auto simp: jobs_kept_def intro: job_safety.refl job_safety.trans)

lemma kept_asking: "keeps jobs_kept (asking f)"
  by (simp add: keeps_def asking_def jobs_kept_def job_safety.refl)

lemma kept_storing:
  assumes w: "others_deliver w" and f: "\<And>e. keeps jobs_safe (f e)"
  shows "keeps jobs_kept (storing w f)"
proof (rule keepsI)
  fix s r s' assume run: "storing w f s = (r, s')"
  let ?n = "dv_calls s"
  have o: "jobs_safe (dv_db s) (dw_others w ?n (dv_db s))" using w by (simp add: others_deliver_def)
  obtain x d where fx: "f (dw_env w ?n) (dw_others w ?n (dv_db s)) = (x, d)" by (cases "f (dw_env w ?n) (dw_others w ?n (dv_db s))")
  from job_safety.trans [OF o keepsD [OF f fx]] run fx o show "jobs_kept s s'"
    by (auto simp: storing_def Let_def jobs_kept_def split: if_splits)
qed

lemma kept_readings: "keeps jobs_safe (GetResultUploadSource i)" "keeps jobs_safe GetObjectStorageConfig"
  by (simp_all add: GetResultUploadSource_def GetObjectStorageConfig_def jobs_reading)

lemma kept_upload: "keeps jobs_kept (upload_video w job lease video)" if "\<And>f. keeps jobs_kept (failObjectStore w job lease f :: string dpass)"
  unfolding upload_video_def
  by (intro delivery_jobs.keeps_and_then keeps_sum that delivery_jobs.keeps_ret)
    (auto simp: keeps_def jobs_kept_def job_safety.refl split: sum.split)

lemmas kept_intros = delivery_jobs.keeps_intros kept_asking keeps_sum kept_storing kept_readings upload_keeps claim_keeps

lemma kept_fail: "others_deliver w \<Longrightarrow> keeps jobs_kept (fail_attempt w job lease code message again)"
  unfolding fail_attempt_def by (intro kept_intros; assumption)

lemma kept_failObjectStore: "others_deliver w \<Longrightarrow> keeps jobs_kept (failObjectStore w job lease f)"
  unfolding failObjectStore_def by (intro kept_intros kept_fail; assumption)

lemma kept_or_fail:
  "others_deliver w \<Longrightarrow> keeps jobs_kept m \<Longrightarrow> keeps jobs_kept (or_fail w job lease code m)"
  "others_deliver w \<Longrightarrow> keeps jobs_kept q \<Longrightarrow> keeps jobs_kept (or_secret_fail w job lease q)"
  unfolding or_fail_def or_secret_fail_def by (intro kept_intros kept_fail; assumption)+

lemma kept_pass: "others_deliver w \<Longrightarrow> keeps jobs_kept (delivery_ProcessOne w)"
  unfolding delivery_ProcessOne_def deliver_def connect_storage_def download_video_def Let_def
  by (intro kept_intros kept_fail kept_failObjectStore kept_or_fail kept_upload; assumption)

text \<open>How a sequence may end.\<close>

definition ends_in :: "(delivery_end \<Rightarrow> delivery_state \<Rightarrow> bool) \<Rightarrow> 'a dpass \<Rightarrow> bool" where
  "ends_in P m \<longleftrightarrow> (\<forall>s e s'. m s = (Inl e, s') \<longrightarrow> P e s')"

lemma ends_intros:
  "ends_in P (ret x)" "ends_in P (asking f)" "ends_in P (storing w g)"
  "ends_in P m \<Longrightarrow> (\<And>x. ends_in P (k x)) \<Longrightarrow> ends_in P (and_then m k)"
  "ends_in P m \<Longrightarrow> ends_in P m' \<Longrightarrow> ends_in P (if b then m else m')"
  "(\<And>x. ends_in P (h x)) \<Longrightarrow> (\<And>y. ends_in P (j y)) \<Longrightarrow> ends_in P (case v of Inl x \<Rightarrow> h x | Inr y \<Rightarrow> j y)"
  "ends_in P m \<Longrightarrow> (\<And>x. ends_in P (i x)) \<Longrightarrow> ends_in P (case o' of None \<Rightarrow> m | Some x \<Rightarrow> i x)"
  by (auto simp: ends_in_def asking_def storing_def Let_def and_then_def split: prod.splits sum.splits if_splits option.splits)

text \<open>A job that a pass dealt with: its lease is given back; either the attempt is recorded as failed, or its task
  has the address of the object that was stored last, for this job.\<close>

definition delivered_with :: "upload_job \<Rightarrow> stored_object \<Rightarrow> db \<Rightarrow> bool" where
  "delivered_with j ob d \<longleftrightarrow> ru_status j = UploadSucceeded \<and> so_job ob = ru_id j \<and> so_url ob = ru_public_url j
     \<and> ru_bytes_uploaded j = int (length (so_content ob))
     \<and> list_ex (\<lambda>t. vt_task_id t = ru_task_id j \<and> vt_status t = StatusSucceeded \<and> vt_result_public_url t = Some (so_url ob)) (video_tasks d)"

definition dealt_with :: "upload_job \<Rightarrow> delivery_state \<Rightarrow> bool" where
  "dealt_with job s \<longleftrightarrow> list_ex (\<lambda>j. ru_id j = ru_id job \<and> ru_lease_token j = None
     \<and> (ru_status j \<in> {UploadRetryWait, UploadFailed} \<or> dv_stored s \<noteq> [] \<and> so_key (last (dv_stored s)) = ru_object_key job \<and> delivered_with j (last (dv_stored s)) (dv_db s)))
     (result_upload_jobs (dv_db s))"

definition good_end :: "upload_job \<Rightarrow> delivery_end \<Rightarrow> delivery_state \<Rightarrow> bool" where
  "good_end job e s \<longleftrightarrow> e \<noteq> Panicked \<and> (e = Returned None \<longrightarrow> dealt_with job s)"

lemma failDeliveredTask_jobs: "failDeliveredTask e i m now d = (r, d') \<Longrightarrow> result_upload_jobs d' = result_upload_jobs d"
  by (auto simp: failDeliveredTask_def and_then_def split: if_splits dest!: callback_frame)

lemma FailResultUploadAttempt_records:
  assumes "FailResultUploadAttempt e i tok code m rt later d = (Inr u, d')"
  shows "list_ex (\<lambda>j. ru_id j = i \<and> ru_lease_token j = None \<and> ru_status j \<in> {UploadRetryWait, UploadFailed}) (result_upload_jobs d')"
proof -
  from assms obtain j again where j: "leased_row i tok d = Some j"
    and rows: "result_upload_jobs d' = update_where (\<lambda>x. ru_id x = i) (failed_job e again later code m) (result_upload_jobs d)"
    unfolding FailResultUploadAttempt_def Let_def
    by (auto simp: tx_success leased_job_success split: if_splits dest!: failDeliveredTask_jobs)
  note l = leased_rowD [OF j]
  have "failed_job e again later code m j \<in> set (result_upload_jobs d')" using l(1,2) by (auto simp: rows set_update_where)
  with l(2) show ?thesis unfolding list_ex_iff by (intro bexI [of _ "failed_job e again later code m j"]) (auto simp: failed_job_def)
qed

lemma fail_ends:
  assumes "ru_attempt_no job \<ge> 1"
  shows "ends_in (good_end job) (fail_attempt w job lease code message again)"
proof -
  have "\<not> min (ru_attempt_no job - 1) 2 < 0" using assms by simp
  then obtain b where b: "backoff_at (ru_attempt_no job) = Some b" by (auto simp: backoff_at_def)
  have rec: "ends_in (good_end job) (and_then (storing w (\<lambda>e. FailResultUploadAttempt e (ru_id job) lease code message again later))
      (\<lambda>r. raise (Returned (case r of Inl er \<Rightarrow> Some er | Inr _ \<Rightarrow> None))))" for later
    by (auto simp: ends_in_def good_end_def dealt_with_def list_ex_iff storing_def Let_def and_then_def split: if_splits prod.splits sum.splits
        dest!: FailResultUploadAttempt_records)
  have stop: "ends_in (good_end job) (raise (Returned (Some er)))" for er by (simp add: ends_in_def good_end_def)
  show ?thesis unfolding fail_attempt_def b option.case
    by (intro ends_intros(4) [OF ends_intros(2)] ends_intros(5) stop rec)
qed

lemma failObjectStore_ends: "ru_attempt_no job \<ge> 1 \<Longrightarrow> ends_in (good_end job) (failObjectStore w job lease f)"
  unfolding failObjectStore_def by (intro ends_intros fail_ends; assumption)

lemma complete_ends:
  assumes "dv_stored s \<noteq> []" and ob: "last (dv_stored s) = \<lparr>so_job = ru_id job, so_key = ru_object_key job, so_content = video, so_url = u\<rparr>"
    and "and_then (storing w (\<lambda>e. CompleteResultUpload e (ru_id job) lease u (int (length video)))) (\<lambda>r. raise (Returned (case r of Inl er \<Rightarrow> Some er | Inr _ \<Rightarrow> None))) s = (Inl e, s')"
  shows "good_end job e s'"
proof (cases "e = Returned None")
  case True
  with assms(3) obtain env d where run: "CompleteResultUpload env (ru_id job) lease u (int (length video)) d = (Inr (), dv_db s')" and kept: "dv_stored s' = dv_stored s"
    by (auto simp: storing_def Let_def and_then_def split: if_splits prod.splits sum.splits)
  from run obtain j where j: "leased_row (ru_id job) lease d = Some j"
    and one: "affected (\<lambda>t. vt_task_id t = ru_task_id j \<and> vt_status t = StatusReconciling \<and> vt_result_internal_url t \<noteq> None) (video_tasks d) = 1"
    and tasks: "video_tasks (dv_db s') = update_where (\<lambda>t. vt_task_id t = ru_task_id j \<and> vt_status t = StatusReconciling \<and> vt_result_internal_url t \<noteq> None)
       (delivered_row env u) (video_tasks d)"
    and jobs: "result_upload_jobs (dv_db s') = update_where (\<lambda>x. ru_id x = ru_id job) (uploaded_job env u (int (length video))) (result_upload_jobs d)"
    by (rule CompleteResultUpload_success)
  note l = leased_rowD [OF j]
  let ?j = "uploaded_job env u (int (length video)) j"
  have mem: "?j \<in> set (result_upload_jobs (dv_db s'))" using l(1,2) by (auto simp: jobs set_update_where)
  from affected_one_ex [OF one] obtain t where t: "t \<in> set (video_tasks d)" "vt_task_id t = ru_task_id j" "vt_status t = StatusReconciling" "vt_result_internal_url t \<noteq> None" by blast
  have "delivered_row env u t \<in> set (video_tasks (dv_db s'))" using t by (auto simp: tasks set_update_where)
  then have "list_ex (\<lambda>t. vt_task_id t = ru_task_id j \<and> vt_status t = StatusSucceeded \<and> vt_result_public_url t = Some u) (video_tasks (dv_db s'))"
    unfolding list_ex_iff by (intro bexI [of _ "delivered_row env u t"]) (auto simp: delivered_row_def touched_def t(2))
  then have "delivered_with ?j (last (dv_stored s')) (dv_db s')" using ob kept l(2) by (simp add: delivered_with_def uploaded_job_def)
  then have "dealt_with job s'" unfolding dealt_with_def list_ex_iff
    using mem l(2) ob kept assms(1) by (intro bexI [OF _ mem]) (auto simp: uploaded_job_def)
  with True show ?thesis by (simp add: good_end_def)
next
  case False
  with assms(3) show ?thesis by (auto simp: good_end_def storing_def Let_def and_then_def split: if_splits prod.splits)
qed

lemma upload_ends:
  assumes "ru_attempt_no job \<ge> 1"
  shows "ends_in (good_end job) (and_then (upload_video w job lease video) (\<lambda>u.
     and_then (storing w (\<lambda>e. CompleteResultUpload e (ru_id job) lease u (int (length video)))) (\<lambda>r. raise (Returned (case r of Inl er \<Rightarrow> Some er | Inr _ \<Rightarrow> None)))))"
  unfolding ends_in_def
proof (intro allI impI)
  fix s e s' assume run: "and_then (upload_video w job lease video) (\<lambda>u.
     and_then (storing w (\<lambda>e. CompleteResultUpload e (ru_id job) lease u (int (length video)))) (\<lambda>r. raise (Returned (case r of Inl er \<Rightarrow> Some er | Inr _ \<Rightarrow> None)))) s = (Inl e, s')"
  show "good_end job e s'"
  proof (cases "dw_upload w (dv_calls s) (ru_object_key job) video")
    case (Inl f)
    let ?fail = "failObjectStore w job lease f :: string dpass"
    obtain e' s2 where f: "?fail (s\<lparr>dv_calls := Suc (dv_calls s)\<rparr>) = (e', s2)" by (cases "?fail (s\<lparr>dv_calls := Suc (dv_calls s)\<rparr>)")
    have "failObjectStore w job lease f t \<noteq> (Inr x, t')" for t and x :: string and t'
      by (auto simp: failObjectStore_def fail_attempt_def tx_inv split: option.splits if_splits)
    with f obtain e1 where e1: "e' = Inl e1" by (cases e') auto
    with run Inl f have "e1 = e" "s2 = s'" by (auto simp: upload_video_def and_then_def)
    with failObjectStore_ends [OF assms, of w lease f] f e1 show ?thesis by (auto simp: ends_in_def)
  next
    case (Inr u)
    let ?s = "s\<lparr>dv_calls := Suc (dv_calls s), dv_stored := dv_stored s @ [\<lparr>so_job = ru_id job, so_key = ru_object_key job, so_content = video, so_url = u\<rparr>]\<rparr>"
    have "upload_video w job lease video s = (Inr u, ?s)" using Inr by (simp add: upload_video_def and_then_def)
    with run show ?thesis by (intro complete_ends [of ?s job video u w lease]) (simp_all only: and_then_Inr, simp_all)
  qed
qed

lemma deliver_ends: "ru_attempt_no job \<ge> 1 \<Longrightarrow> ends_in (good_end job) (deliver w job lease)"
  unfolding deliver_def connect_storage_def download_video_def or_fail_def or_secret_fail_def
  by (intro ends_intros fail_ends failObjectStore_ends upload_ends; assumption)

lemma storing_total: obtains r s1 where "storing w f s = (Inr r, s1)"
proof -
  have "\<exists>r s1. storing w f s = (Inr r, s1)" by (simp add: storing_def Let_def split: prod.split)
  then show thesis using that by blast
qed

lemma storing_success: "storing w f s = (Inr (Inr x), s1) \<Longrightarrow> f (dw_env w (dv_calls s)) (dw_others w (dv_calls s) (dv_db s)) = (Inr x, dv_db s1)"
  by (auto simp: storing_def Let_def split: if_splits prod.splits)

definition lease_millis :: "DeliveryWorker \<Rightarrow> int" where
  "lease_millis w = (if dw_LeaseMillis w \<le> 0 then 35 * 60 * 1000 else dw_LeaseMillis w)"

lemma deliver_stops: "deliver w job lease s = (e, s') \<Longrightarrow> \<exists>x. e = Inl x"
  by (cases e) (auto simp: deliver_def tx_inv)

lemma claimed_attempt:
  assumes "ClaimResultUploadJob e tok ms d = (Inr job, d')" and "jobs_inv d"
  shows "ru_attempt_no job \<ge> 1"
  using assms
proof (rule ClaimResultUploadJob_success)
  fix d1 j assume "jobs_inv d1" "j \<in> set (result_upload_jobs d1)" "job = claimed_job e tok ms j"
  then show ?thesis by (auto simp: claimed_job_def jobs_inv_def list_all_iff job_ok_def)
qed

text \<open>C18: A pass of the worker keeps the invariant of the upload jobs and never panics, and when it returns without an error it claimed a job, of which the database then says
  that it is no longer leased: its failed attempt is recorded, or it succeeded with the address, key and size of the object stored last, for this job, and its task has that address.\<close>

theorem delivery_pass_sound:
  assumes others: "others_deliver w" and inv: "jobs_inv (dv_db s)" and run: "delivery_ProcessOne w s = (e, s')"
  shows "jobs_inv (dv_db s') \<and> (\<exists>r. e = Inl (Returned r) \<and> (r = None \<longrightarrow>
     (\<exists>job d. ClaimResultUploadJob (dw_env w (Suc (dv_calls s))) (dw_lease w (dv_calls s)) (lease_millis w) (dw_others w (Suc (dv_calls s)) (dv_db s)) = (Inr job, d)
        \<and> dealt_with job s')))"
proof -
  let ?s1 = "s\<lparr>dv_calls := Suc (dv_calls s)\<rparr>" and ?lease = "dw_lease w (dv_calls s)"
  have kept: "jobs_inv (dv_db s')" using keepsD [OF kept_pass [OF others] run] inv by (simp add: jobs_kept_def jobs_safe_def)
  obtain r s2 where claim: "storing w (\<lambda>e. ClaimResultUploadJob e ?lease (lease_millis w)) ?s1 = (Inr r, s2)" by (rule storing_total)
  with run have cont: "(case r of Inl er \<Rightarrow> raise (Returned (Some er)) | Inr job \<Rightarrow> deliver w job ?lease) s2 = (e, s')"
    by (simp add: delivery_ProcessOne_def asking_def and_then_def Let_def lease_millis_def)
  show ?thesis
  proof (cases r)
    case (Inl er)
    with cont kept show ?thesis by auto
  next
    case (Inr job)
    note c = storing_success [OF claim [unfolded Inr]]
    have d: "jobs_inv (dw_others w (dv_calls ?s1) (dv_db ?s1))" using others inv by (simp add: others_deliver_def jobs_safe_def)
    note ends = deliver_ends [OF claimed_attempt [OF c d], of w ?lease]
    from cont Inr have run2: "deliver w job ?lease s2 = (e, s')" by simp
    from deliver_stops [OF run2] obtain x where x: "e = Inl x" by blast
    from ends run2 x have good: "good_end job x s'" by (auto simp: ends_in_def)
    then obtain r where "x = Returned r" by (cases x) (auto simp: good_end_def)
    with good kept x c show ?thesis by (auto simp: good_end_def)
  qed
qed

section \<open>Witnesses\<close>

definition cdn_url :: ParsedURL where
  "cdn_url = \<lparr>u_scheme = ''https'', u_host = ''cdn'', u_has_user = False, u_fragment = [], u_opaque = [], u_path = ''/v'', u_raw_path = [], u_raw_query = []\<rparr>"

definition sample_response :: response where
  "sample_response = \<lparr>re_status = 200, re_content_type = ''Video/mp4; q=1'', re_content_length = 3, re_body = ''mp4'', re_copied = True\<rparr>"

definition sample_downloader :: Downloader where
  "sample_downloader = \<lparr>do_Client = None, do_proxy = (\<lambda>_ _. None), do_resolve = (\<lambda>_ _. Some [V4 0x5DB8D822]), do_dial = (\<lambda>_ _ _. True),
     do_answer = (\<lambda>n u. if n = 2 then Redirected cdn_url else Answered sample_response), do_parse = (\<lambda>_. Some cdn_url), do_writable = True, do_MaxBytes = 0\<rparr>"

lemma sample_download: "public_Download sample_downloader 0 ''https://cdn/v'' = ([V4 0x5DB8D822, V4 0x5DB8D822], Inr ''mp4'')"
proof -
  have safe: "\<not> unsafeIP (V4 0x5DB8D822)" by (simp add: unsafeIP_def address_defs octet_def Let_def)
  have "Hostname cdn_url = ''cdn''" by code_simp
  then have ok: "validate_target sample_downloader n cdn_url" for n
    using safe by (simp add: validate_target_def sample_downloader_def cdn_url_def)
  have dials: "connect_to sample_downloader n cdn_url = ([V4 0x5DB8D822], True)" for n
    using safe by (simp add: connect_to_def dial_host_def sample_downloader_def)
  have goes_on: "redirect_allowed sample_downloader n cdn_url" for n
    using ok by (simp add: redirect_allowed_def sample_downloader_def)
  have ct: "has_prefix (media_type ''Video/mp4; q=1'') ''video/''" by code_simp
  have "fetch_from sample_downloader 1 3 cdn_url = ([V4 0x5DB8D822, V4 0x5DB8D822], Inr sample_response)"
    using goes_on dials by (simp add: fetch_from.simps sample_downloader_def numeral_3_eq_3)
  moreover have "store_body sample_downloader sample_response = Inr ''mp4''"
    using ct by (simp add: store_body_def sample_downloader_def sample_response_def DefaultMaxVideoBytes_def Let_def)
  moreover have "do_parse sample_downloader u = Some cdn_url" for u by (simp add: sample_downloader_def)
  ultimately show ?thesis using ok by (simp add: public_Download_def)
qed

theorem Download_safe_witness:
  "public_Download sample_downloader 0 ''https://cdn/v'' = ([V4 0x5DB8D822, V4 0x5DB8D822], Inr ''mp4'') \<and> \<not> unsafeIP (V4 0x5DB8D822) \<and> unsafeIP (V4 0x7F000001)"
proof -
  have "unsafeIP (V4 0x7F000001)" by (simp add: unsafeIP_def address_defs octet_def Let_def)
  with Download_safe [OF sample_download] sample_download show ?thesis by simp
qed

definition sample_storage :: storage_config where
  "sample_storage = \<lparr>sc_provider = ''ucloud-us3'', sc_bucket_name = ''b'', sc_file_host = ''h'', sc_public_base_url = ''https://b'', sc_upload_base64_inputs = False,
     sc_public_key_ciphertext = ''c'', sc_public_key_nonce = ''n'', sc_public_key_fingerprint = [], sc_private_key_ciphertext = ''d'', sc_private_key_nonce = ''m'',
     sc_private_key_fingerprint = [], sc_request_timeout_ms = 1000, sc_last_test_status = ''passed'', sc_last_tested_at = None, sc_version = 1, sc_created_at = 0, sc_updated_at = 0\<rparr>"

definition sample_worker :: DeliveryWorker where
  "sample_worker = \<lparr>dw_env = (\<lambda>_. sample_env), dw_others = (\<lambda>_ d. d), dw_done = (\<lambda>_. False), dw_now = (\<lambda>_. 0), dw_LeaseMillis = 0, dw_lease = (\<lambda>_. ''upload-1''),
     dw_open = (\<lambda>_ _ c. Some c), dw_factory = (\<lambda>_ _ _ _. None), dw_temp = (\<lambda>_. True), dw_task_download = None,
     dw_download = (\<lambda>n url. snd (public_Download sample_downloader 0 ''https://cdn/v'')), dw_upload = (\<lambda>_ key _. Inr (''https://b/'' @ key))\<rparr>"

definition delivery_start :: delivery_state where
  "delivery_start = \<lparr>dv_db = sample_upload_db\<lparr>result_upload_jobs := [new_upload ''j'' ''a'' ''key'' 0], object_storage_configs := [sample_storage]\<rparr>, dv_calls = 0, dv_stored = []\<rparr>"

definition delivery_final :: delivery_state where
  "delivery_final = snd (delivery_ProcessOne sample_worker delivery_start)"

lemma sample_delivery_run: "delivery_ProcessOne sample_worker delivery_start = (Inl (Returned None), delivery_final)"
  by (simp add: delivery_final_def delivery_ProcessOne_def asking_def storing_def and_then_def sample_worker_def delivery_start_def Let_def
      ClaimResultUploadJob_def recoverExhaustedResultUploads_def atomically_def oldest_jobs_def upload_exhausted_def next_upload_def upload_claimable_def claimed_job_def read_job_def
      deliver_def or_fail_def or_secret_fail_def connect_storage_def download_video_def upload_video_def GetResultUploadSource_def GetObjectStorageConfig_def
      sample_download CompleteResultUpload_def leased_job_def leased_row_def createCallbackDeliveryWithConn_def exec_one_apply delivered_row_def touched_def coalesce_def sample_upload_defs)

theorem delivery_pass_sound_witness:
  "delivery_ProcessOne sample_worker delivery_start = (Inl (Returned None), delivery_final)
   \<and> (\<exists>job d. ClaimResultUploadJob sample_env ''upload-1'' 2100000 (dv_db delivery_start) = (Inr job, d) \<and> dealt_with job delivery_final)"
proof -
  have o: "others_deliver sample_worker" by (simp add: others_deliver_def sample_worker_def job_safety.refl)
  have i: "jobs_inv (dv_db delivery_start)" by (simp add: delivery_start_def jobs_inv_def job_ok_def new_upload_def)
  from delivery_pass_sound [OF o i sample_delivery_run] sample_delivery_run show ?thesis
    by (simp add: lease_millis_def sample_worker_def)
qed

end
