(* ===== verification/ApiKeys.thy ===== *)
theory ApiKeys
  imports TaskStore "HOL-Library.Product_Lexorder"
begin

text \<open>
  \<^verbatim>\<open>external_api_key.go\<close> and \<^verbatim>\<open>internal/authkey\<close>: the API keys of the clients, the service that manages them, and the
  authenticator that answers from a snapshot of them. Digests are strings of 32 bytes. Unicode's case folding (what \<open>strings.EqualFold\<close> compares by,
  as a representative of each class) and SHA-256 are parameters.
\<close>

record KeyLibs =
  kl_fold :: "rune \<Rightarrow> rune"
  kl_sha256 :: "string \<Rightarrow> string"

definition fold_name :: "KeyLibs \<Rightarrow> string \<Rightarrow> rune list" where
  "fold_name l s = map (kl_fold l) (runes s)"

definition EqualFold :: "KeyLibs \<Rightarrow> string \<Rightarrow> string \<Rightarrow> bool" where
  "EqualFold l s t \<longleftrightarrow> fold_name l s = fold_name l t"

record ExternalAPIKeyInput =
  ki_ID :: string
  ki_Name :: string
  ki_Key :: string
  ki_KeyDigest :: string
  ki_KeyPrefix :: string
  ki_KeySuffix :: string
  ki_Enabled :: bool

record ExternalAPIKeyUpdate =
  ku_Name :: string
  ku_Enabled :: bool

section \<open>The table\<close>

text \<open>SQLite's \<open>lower\<close> and \<open>trim\<close> know ASCII letters and spaces only.\<close>

definition lower_name :: "string \<Rightarrow> string" where
  "lower_name s = map (\<lambda>c. if 65 \<le> byte c \<and> byte c \<le> 90 then char_of (byte c + 32) else c) s"

definition sql_trim :: "string \<Rightarrow> string" where
  "sql_trim s = (let sp = (\<lambda>c. c = CHR '' '') in rev (dropWhile sp (rev (dropWhile sp s))))"

definition name_ok :: "string \<Rightarrow> bool" where
  "name_ok s \<longleftrightarrow> 1 \<le> rune_count (sql_trim s) \<and> rune_count (sql_trim s) \<le> 128"

definition key_row_ok :: "external_api_key \<Rightarrow> bool" where
  "key_row_ok x \<longleftrightarrow> name_ok (ek_name x) \<and> length (ek_key_digest x) = 32
     \<and> 4 \<le> rune_count (ek_key_prefix x) \<and> rune_count (ek_key_prefix x) \<le> 16
     \<and> 4 \<le> rune_count (ek_key_suffix x) \<and> rune_count (ek_key_suffix x) \<le> 16 \<and> ek_version x \<ge> 1"

text \<open>The error for a violated constraint, by what SQLite's message names.\<close>

definition classifyExternalAPIKeyConstraint :: "string \<Rightarrow> err" where
  "classifyExternalAPIKeyConstraint message =
     (let m = lower_name message in
      if contains m ''uq_external_api_keys_name_ci'' \<or> contains m ''external_api_keys.name'' then ErrAPIKeyNameConflict
      else if contains m ''uq_external_api_keys_digest'' \<or> contains m ''external_api_keys.key_digest'' then ErrAPIKeyDigestConflict
      else ErrSQL message)"

definition scanExternalAPIKey :: "external_api_key \<Rightarrow> err + external_api_key" where
  "scanExternalAPIKey x =
     (if length (ek_key_digest x) \<noteq> 32 then Inl (ErrText ''digest length'') else Inr (x\<lparr>ek_key_plaintext := Some (coalesce (ek_key_plaintext x) [])\<rparr>))"

definition key_by_id :: "string \<Rightarrow> external_api_key op" where
  "key_by_id i = reading (\<lambda>d. case select_where (\<lambda>x. ek_id x = i) (external_api_keys d) of None \<Rightarrow> Inl ErrAPIKeyNotFound | Some x \<Rightarrow> scanExternalAPIKey x)"

definition GetExternalAPIKey :: "string \<Rightarrow> external_api_key op" where
  "GetExternalAPIKey i = key_by_id i"

fun scan_all :: "('a \<Rightarrow> 'e + 'b) \<Rightarrow> 'a list \<Rightarrow> 'e + 'b list" where
  "scan_all f [] = Inr []"
| "scan_all f (x # xs) = (case f x of Inl e \<Rightarrow> Inl e | Inr y \<Rightarrow> (case scan_all f xs of Inl e \<Rightarrow> Inl e | Inr ys \<Rightarrow> Inr (y # ys)))"

definition ListExternalAPIKeys :: "external_api_key list op" where
  "ListExternalAPIKeys = reading (\<lambda>d. scan_all scanExternalAPIKey (sort_key (\<lambda>x. (- ek_created_at x, ek_id x)) (external_api_keys d)))"

definition ensureExternalAPIKeyUnique :: "KeyLibs \<Rightarrow> string \<Rightarrow> string option \<Rightarrow> string \<Rightarrow> unit op" where
  "ensureExternalAPIKeyUnique l name digest excludedID =
     and_then (ensuring (\<lambda>d. \<not> exists_where (\<lambda>x. ek_id x \<noteq> excludedID \<and> EqualFold l (ek_name x) name) (external_api_keys d)) ErrAPIKeyNameConflict) (\<lambda>_.
     case digest of None \<Rightarrow> ret ()
     | Some dg \<Rightarrow> ensuring (\<lambda>d. \<not> exists_where (\<lambda>x. ek_key_digest x = dg) (external_api_keys d)) ErrAPIKeyDigestConflict)"

definition new_key :: "int \<Rightarrow> ExternalAPIKeyInput \<Rightarrow> external_api_key" where
  "new_key now k =
     \<lparr>ek_id = ki_ID k, ek_name = trim_space (ki_Name k), ek_key_plaintext = Some (ki_Key k), ek_key_digest = ki_KeyDigest k, ek_key_prefix = ki_KeyPrefix k,
      ek_key_suffix = ki_KeySuffix k, ek_enabled = ki_Enabled k, ek_version = 1, ek_created_at = now, ek_updated_at = now\<rparr>"

definition insert_key :: "external_api_key \<Rightarrow> unit op" where
  "insert_key x =
     and_then (ensure (key_row_ok x) (classifyExternalAPIKeyConstraint ''CHECK constraint failed'')) (\<lambda>_.
     and_then (ensuring (\<lambda>d. \<not> exists_where (\<lambda>y. ek_id y = ek_id x) (external_api_keys d)) (classifyExternalAPIKeyConstraint ''UNIQUE constraint failed: external_api_keys.id'')) (\<lambda>_.
     and_then (ensuring (\<lambda>d. \<not> exists_where (\<lambda>y. lower_name (ek_name y) = lower_name (ek_name x)) (external_api_keys d))
        (classifyExternalAPIKeyConstraint ''UNIQUE constraint failed: index uq_external_api_keys_name_ci'')) (\<lambda>_.
     and_then (ensuring (\<lambda>d. \<not> exists_where (\<lambda>y. ek_key_digest y = ek_key_digest x) (external_api_keys d))
        (classifyExternalAPIKeyConstraint ''UNIQUE constraint failed: external_api_keys.key_digest'')) (\<lambda>_.
     exec_insert external_api_keys_update x))))"

definition CreateExternalAPIKey :: "KeyLibs \<Rightarrow> StoreEnv \<Rightarrow> ExternalAPIKeyInput \<Rightarrow> external_api_key op" where
  "CreateExternalAPIKey l e k = atomically
     (and_then (ensureExternalAPIKeyUnique l (trim_space (ki_Name k)) (Some (ki_KeyDigest k)) []) (\<lambda>_.
      and_then (insert_key (new_key (nowMillis e) k)) (\<lambda>_. key_by_id (ki_ID k))))"

definition key_version :: "string \<Rightarrow> int op" where
  "key_version i = reading (\<lambda>d. case select_where (\<lambda>x. ek_id x = i) (external_api_keys d) of None \<Rightarrow> Inl ErrAPIKeyNotFound | Some x \<Rightarrow> Inr (ek_version x))"

definition renamed_key :: "StoreEnv \<Rightarrow> ExternalAPIKeyUpdate \<Rightarrow> external_api_key \<Rightarrow> external_api_key" where
  "renamed_key e u x = x\<lparr>ek_name := trim_space (ku_Name u), ek_enabled := ku_Enabled u, ek_version := ek_version x + 1, ek_updated_at := nowMillis e\<rparr>"

definition UpdateExternalAPIKey :: "KeyLibs \<Rightarrow> StoreEnv \<Rightarrow> string \<Rightarrow> int \<Rightarrow> ExternalAPIKeyUpdate \<Rightarrow> external_api_key op" where
  "UpdateExternalAPIKey l e i expectedVersion u = atomically
     (and_then (key_version i) (\<lambda>v.
      and_then (ensure (v = expectedVersion) ErrAPIKeyVersionConflict) (\<lambda>_.
      and_then (ensureExternalAPIKeyUnique l (trim_space (ku_Name u)) None i) (\<lambda>_.
      and_then (ensure (name_ok (trim_space (ku_Name u))) (classifyExternalAPIKeyConstraint ''CHECK constraint failed'')) (\<lambda>_.
      and_then (ensuring (\<lambda>d. \<not> exists_where (\<lambda>y. ek_id y \<noteq> i \<and> lower_name (ek_name y) = lower_name (trim_space (ku_Name u))) (external_api_keys d))
         (classifyExternalAPIKeyConstraint ''UNIQUE constraint failed: index uq_external_api_keys_name_ci'')) (\<lambda>_.
      and_then (exec_one external_api_keys external_api_keys_update ErrAPIKeyVersionConflict (\<lambda>x. ek_id x = i \<and> ek_version x = expectedVersion) (renamed_key e u)) (\<lambda>_.
      key_by_id i)))))))"

definition key_references :: "string \<Rightarrow> db \<Rightarrow> nat" where
  "key_references i d = affected (\<lambda>t. vt_api_key_id t = i) (video_tasks d) + affected (\<lambda>k. ik_api_key_id k = i) (idempotency_keys d)"

definition DeleteExternalAPIKey :: "string \<Rightarrow> int \<Rightarrow> unit op" where
  "DeleteExternalAPIKey i expectedVersion = atomically
     (and_then (key_version i) (\<lambda>v.
      and_then (ensure (v = expectedVersion) ErrAPIKeyVersionConflict) (\<lambda>_.
      and_then (ensuring (\<lambda>d. key_references i d = 0) ErrAPIKeyInUse) (\<lambda>_.
      and_then (ensuring (\<lambda>d. affected (\<lambda>x. ek_id x = i \<and> ek_version x = expectedVersion) (external_api_keys d) = 1) ErrAPIKeyVersionConflict) (\<lambda>_.
      exec_delete external_api_keys_update (\<lambda>x. ek_id x = i \<and> ek_version x = expectedVersion))))))"

record ExternalAPIKeyCredential =
  kc_ID :: string
  kc_KeyDigest :: string
  kc_Enabled :: bool

definition scan_credential :: "external_api_key \<Rightarrow> err + ExternalAPIKeyCredential" where
  "scan_credential x = (if length (ek_key_digest x) \<noteq> 32 then Inl (ErrText ''digest length'')
     else Inr \<lparr>kc_ID = ek_id x, kc_KeyDigest = ek_key_digest x, kc_Enabled = ek_enabled x\<rparr>)"

definition ListExternalAPIKeyCredentials :: "ExternalAPIKeyCredential list op" where
  "ListExternalAPIKeyCredentials = reading (\<lambda>d. scan_all scan_credential (sort_key ek_id (external_api_keys d)))"

definition APIKeyBootstrapPending :: "bool op" where
  "APIKeyBootstrapPending = gets (\<lambda>d. api_key_config_bootstrap d = None)"

text \<open>Every statement of the backfill is a transaction of its own.\<close>

definition backfill_one :: "ExternalAPIKeyInput \<Rightarrow> unit op" where
  "backfill_one k =
     (if ki_Key k = [] then ret ()
      else and_then (exec_update external_api_keys external_api_keys_update
          (\<lambda>x. ek_id x = ki_ID k \<and> ek_key_digest x = ki_KeyDigest k \<and> coalesce (ek_key_plaintext x) [] = []) (\<lambda>x. x\<lparr>ek_key_plaintext := Some (ki_Key k)\<rparr>)) (\<lambda>n.
        ensure (n \<le> 1) (ErrText ''backfill'')))"

definition BackfillExternalAPIKeyPlaintexts :: "ExternalAPIKeyInput list \<Rightarrow> unit op" where
  "BackfillExternalAPIKeyPlaintexts ks = for_each backfill_one ks"

definition legacy_error :: "KeyLibs \<Rightarrow> string list \<Rightarrow> string list \<Rightarrow> ExternalAPIKeyInput \<Rightarrow> err option" where
  "legacy_error l names digests k =
     (let name = trim_space (ki_Name k) in
      if ki_ID k = [] \<or> rune_count (ki_ID k) > 128 \<or> name = [] \<or> rune_count name > 128 then Some (ErrText ''legacy key'')
      else if length (ki_KeyPrefix k) < 4 \<or> length (ki_KeyPrefix k) > 16 \<or> length (ki_KeySuffix k) < 4 \<or> length (ki_KeySuffix k) > 16 then Some (ErrText ''legacy mask'')
      else if list_ex (\<lambda>n. EqualFold l n name) names then Some ErrAPIKeyNameConflict
      else if ki_KeyDigest k \<in> set digests then Some ErrAPIKeyDigestConflict else None)"

fun validate_legacy :: "KeyLibs \<Rightarrow> string list \<Rightarrow> string list \<Rightarrow> ExternalAPIKeyInput list \<Rightarrow> err option" where
  "validate_legacy l names digests [] = None"
| "validate_legacy l names digests (k # ks) =
     (case legacy_error l names digests k of Some er \<Rightarrow> Some er
      | None \<Rightarrow> validate_legacy l (trim_space (ki_Name k) # names) (ki_KeyDigest k # digests) ks)"

definition validateLegacyAPIKeys :: "KeyLibs \<Rightarrow> ExternalAPIKeyInput list \<Rightarrow> err option" where
  "validateLegacyAPIKeys l ks = validate_legacy l [] [] ks"

definition import_keys :: "KeyLibs \<Rightarrow> StoreEnv \<Rightarrow> ExternalAPIKeyInput list \<Rightarrow> unit op" where
  "import_keys l e ks =
     (case validateLegacyAPIKeys l ks of Some er \<Rightarrow> raise er
      | None \<Rightarrow> for_each (\<lambda>k. insert_key (new_key (nowMillis e) k)) (sort_key ki_ID ks))"

definition ImportLegacyAPIKeys :: "KeyLibs \<Rightarrow> StoreEnv \<Rightarrow> ExternalAPIKeyInput list \<Rightarrow> (nat \<times> bool) op" where
  "ImportLegacyAPIKeys l e ks = atomically
     (and_then (gets api_key_config_bootstrap) (\<lambda>b.
      case b of Some n \<Rightarrow> ret (nat n, False)
      | None \<Rightarrow>
          and_then (gets (\<lambda>d. external_api_keys d = [])) (\<lambda>fresh.
          and_then (if fresh then import_keys l e ks else ret ()) (\<lambda>_.
          and_then (modify (api_key_config_bootstrap_update (\<lambda>_. Some (if fresh then int (length ks) else 0)))) (\<lambda>_.
          ret (if fresh then length ks else 0, fresh))))))"

section \<open>The authenticator\<close>

record key_state =
  ks_db :: db
  ks_owners :: "string \<rightharpoonup> string"

definition on_keys :: "'a op \<Rightarrow> (err, key_state, 'a) tx" where
  "on_keys m = (\<lambda>s. let (r, d) = m (ks_db s) in (r, s\<lparr>ks_db := d\<rparr>))"

definition Digest :: "KeyLibs \<Rightarrow> string \<Rightarrow> string" where
  "Digest l token = kl_sha256 l token"

definition hex_encode :: "string \<Rightarrow> string" where
  "hex_encode s = concat (map (\<lambda>c. [hex_digit (byte c div 16), hex_digit (byte c mod 16)]) s)"

text \<open>\<open>random\<close> is what the source of random bytes will give; a short read is an error.\<close>

definition Generate :: "string \<Rightarrow> err + string" where
  "Generate random = (if length random < 32 then Inl (ErrText ''random'') else Inr (''mmx_'' @ hex_encode (take 32 random)))"

definition Authenticate :: "KeyLibs \<Rightarrow> key_state \<Rightarrow> string \<Rightarrow> string option" where
  "Authenticate l s token = (if token = [] then None else ks_owners s (Digest l token))"

definition owners_of :: "ExternalAPIKeyCredential list \<Rightarrow> string \<rightharpoonup> string" where
  "owners_of cs = foldl (\<lambda>m c. if kc_Enabled c then m(kc_KeyDigest c \<mapsto> kc_ID c) else m) Map.empty cs"

text \<open>A reload reads the store, which may be unreachable (\<open>up\<close>); then the old snapshot stays.\<close>

definition Reload :: "bool \<Rightarrow> (err, key_state, unit) tx" where
  "Reload up = and_then (ensure up (ErrText ''load'')) (\<lambda>_.
     and_then (on_keys ListExternalAPIKeyCredentials) (\<lambda>cs. modify (ks_owners_update (\<lambda>_. owners_of cs))))"

text \<open>The error of a reload comes with the result: the change is committed.\<close>

definition reloading :: "bool \<Rightarrow> 'a \<Rightarrow> (err, key_state, 'a \<times> err option) tx" where
  "reloading up x = (\<lambda>s. case Reload up s of (Inl er, s') \<Rightarrow> (Inr (x, Some ErrCacheRefresh), s') | (Inr _, s') \<Rightarrow> (Inr (x, None), s'))"

definition Run_tick :: "bool \<Rightarrow> (err, key_state, unit) tx" where
  "Run_tick up = (\<lambda>s. (Inr (), snd (Reload up s)))"

definition Service_List :: "(err, key_state, external_api_key list) tx" where
  "Service_List = on_keys ListExternalAPIKeys"

definition new_input :: "KeyLibs \<Rightarrow> string \<Rightarrow> string \<Rightarrow> string \<Rightarrow> ExternalAPIKeyInput" where
  "new_input l name key idBytes =
     \<lparr>ki_ID = ''key_'' @ hex_encode idBytes, ki_Name = trim_space name, ki_Key = key, ki_KeyDigest = Digest l key, ki_KeyPrefix = take 8 key,
      ki_KeySuffix = drop (length key - 4) key, ki_Enabled = True\<rparr>"

definition Service_Create :: "bool \<Rightarrow> KeyLibs \<Rightarrow> StoreEnv \<Rightarrow> string \<Rightarrow> string \<Rightarrow> (err, key_state, (external_api_key \<times> string) \<times> err option) tx" where
  "Service_Create up l e random name =
     (case Generate random of Inl er \<Rightarrow> raise er
      | Inr key \<Rightarrow>
          if length (drop 32 random) < 16 then raise (ErrText ''random'')
          else and_then (on_keys (CreateExternalAPIKey l e (new_input l name key (take 16 (drop 32 random))))) (\<lambda>x. reloading up (x, key)))"

definition Service_Update :: "bool \<Rightarrow> KeyLibs \<Rightarrow> StoreEnv \<Rightarrow> string \<Rightarrow> int \<Rightarrow> ExternalAPIKeyUpdate \<Rightarrow> (err, key_state, external_api_key \<times> err option) tx" where
  "Service_Update up l e i version u = and_then (on_keys (UpdateExternalAPIKey l e i version (u\<lparr>ku_Name := trim_space (ku_Name u)\<rparr>))) (reloading up)"

definition Service_Delete :: "bool \<Rightarrow> string \<Rightarrow> int \<Rightarrow> (err, key_state, unit \<times> err option) tx" where
  "Service_Delete up i version = and_then (on_keys (DeleteExternalAPIKey i version)) (reloading up)"

section \<open>The invariant of the table\<close>

definition keys_inv :: "KeyLibs \<Rightarrow> db \<Rightarrow> bool" where
  "keys_inv l d \<longleftrightarrow> distinct (map ek_id (external_api_keys d)) \<and> list_all (\<lambda>x. ek_id x \<noteq> [] \<and> key_row_ok x) (external_api_keys d)
     \<and> distinct (map (\<lambda>x. fold_name l (ek_name x)) (external_api_keys d)) \<and> distinct (map ek_key_digest (external_api_keys d))"

inductive key_step :: "KeyLibs \<Rightarrow> db \<Rightarrow> db \<Rightarrow> bool" for l where
  creating: "CreateExternalAPIKey l e k d = (r, d') \<Longrightarrow> ki_ID k \<noteq> [] \<Longrightarrow> key_step l d d'"
| updating: "UpdateExternalAPIKey l e i v u d = (r, d') \<Longrightarrow> key_step l d d'"
| deleting: "DeleteExternalAPIKey i v d = (r, d') \<Longrightarrow> key_step l d d'"
| backfilling: "BackfillExternalAPIKeyPlaintexts ks d = (r, d') \<Longrightarrow> key_step l d d'"
| importing: "ImportLegacyAPIKeys l e ks d = (r, d') \<Longrightarrow> key_step l d d'"

lemma distinct_update_key:
  assumes "distinct (map k rows)" and "distinct (map i rows)" and "\<And>r. p r \<Longrightarrow> i r = v" and "\<And>r. r \<in> set rows \<Longrightarrow> p r \<Longrightarrow> k (f r) = w"
    and "\<And>r. r \<in> set rows \<Longrightarrow> i r \<noteq> v \<Longrightarrow> k r \<noteq> w"
  shows "distinct (map k (update_where p f rows))"
  using assms
proof (induction rows)
  case (Cons r rows)
  have rest: "update_where p f rows = rows" if "i r = v"
    using that Cons.prems(2,3) by (intro update_where_id) (auto simp: image_iff)
  show ?case
  proof (cases "i r = v")
    case True
    have "k x \<noteq> w" if "x \<in> set rows" for x
    proof -
      from that True Cons.prems(2) have "i x \<noteq> v" by (auto simp: image_iff)
      with that Cons.prems(5) show ?thesis by auto
    qed
    with rest [OF True] Cons.prems(1,4) show ?thesis by auto
  next
    case False
    have "distinct (map k (update_where p f rows))" using Cons.prems by (intro Cons.IH) auto
    moreover have "k x \<noteq> k r" if "x \<in> set (update_where p f rows)" for x
      using that Cons.prems(1,4,5) False by (auto simp: set_update_where image_iff) (metis list.set_intros(1))+
    then have "k r \<notin> k ` set (update_where p f rows)" by force
    ultimately show ?thesis using False Cons.prems(3) by auto
  qed
qed simp


lemma insert_key_keeps:
  assumes "insert_key x d = (Inr u, d')" and inv: "keys_inv l d" and "ek_id x \<noteq> []"
    and names: "\<And>y. y \<in> set (external_api_keys d) \<Longrightarrow> fold_name l (ek_name y) \<noteq> fold_name l (ek_name x)"
  shows "keys_inv l d'" and "external_api_keys d' = external_api_keys d @ [x]"
proof -
  from assms(1) have x: "key_row_ok x" "ek_id x \<notin> ek_id ` set (external_api_keys d)" "ek_key_digest x \<notin> ek_key_digest ` set (external_api_keys d)"
    and d': "external_api_keys d' = external_api_keys d @ [x]"
    by (auto simp: insert_key_def tx_inv)
  have "fold_name l (ek_name x) \<notin> (\<lambda>y. fold_name l (ek_name y)) ` set (external_api_keys d)" using names by force
  with x d' inv assms(3) show "keys_inv l d'" by (simp add: keys_inv_def)
  show "external_api_keys d' = external_api_keys d @ [x]" by (rule d')
qed

lemma ensure_unique_inv:
  "ensureExternalAPIKeyUnique l name dg i d = (Inr u, d1) \<Longrightarrow>
   d1 = d \<and> (\<forall>y \<in> set (external_api_keys d). ek_id y \<noteq> i \<longrightarrow> fold_name l (ek_name y) \<noteq> fold_name l name)"
  by (auto simp: ensureExternalAPIKeyUnique_def EqualFold_def tx_inv split: option.splits)

lemma key_by_id_keeps: "key_by_id i d = (r, d') \<Longrightarrow> d' = d"
  by (auto simp: key_by_id_def)

lemma Create_effect:
  assumes "CreateExternalAPIKey l e k d = (Inr y, d')" and inv: "keys_inv l d" and "ki_ID k \<noteq> []"
  shows "keys_inv l d'" and "external_api_keys d' = external_api_keys d @ [new_key (nowMillis e) k]" and "ek_id y = ki_ID k"
    and "ek_key_digest y = ki_KeyDigest k"
proof -
  let ?x = "new_key (nowMillis e) k"
  from assms(1) obtain u d1 u2 where u: "ensureExternalAPIKeyUnique l (trim_space (ki_Name k)) (Some (ki_KeyDigest k)) [] d = (Inr u, d1)"
    and ins: "insert_key ?x d1 = (Inr u2, d')" and y: "key_by_id (ki_ID k) d' = (Inr y, d')"
    by (auto simp: CreateExternalAPIKey_def tx_inv dest: key_by_id_keeps)
  from ensure_unique_inv [OF u] have d1: "d1 = d" and names: "\<And>r. r \<in> set (external_api_keys d) \<Longrightarrow> ek_id r \<noteq> [] \<Longrightarrow> fold_name l (ek_name r) \<noteq> fold_name l (trim_space (ki_Name k))"
    by auto
  have "\<And>r. r \<in> set (external_api_keys d) \<Longrightarrow> fold_name l (ek_name r) \<noteq> fold_name l (ek_name ?x)"
    using names inv by (auto simp: new_key_def keys_inv_def list_all_iff)
  note kept = insert_key_keeps [OF ins [unfolded d1] inv _ this]
  show "keys_inv l d'" by (rule kept(1)) (use assms(3) in \<open>auto simp: new_key_def\<close>)
  show rows: "external_api_keys d' = external_api_keys d @ [?x]" by (rule kept(2)) (use assms(3) in \<open>auto simp: new_key_def\<close>)
  have "select_where (\<lambda>x. ek_id x = ki_ID k) (external_api_keys d') = Some ?x"
    by (rule select_where_key [of ek_id]) (use \<open>keys_inv l d'\<close> rows in \<open>auto simp: keys_inv_def new_key_def\<close>)
  with y show "ek_id y = ki_ID k" "ek_key_digest y = ki_KeyDigest k"
    by (auto simp: key_by_id_def scanExternalAPIKey_def new_key_def split: if_splits)
qed

lemma Update_effect:
  assumes "UpdateExternalAPIKey l e i v u d = (Inr y, d')" and inv: "keys_inv l d"
  shows "keys_inv l d'" and "external_api_keys d' = update_where (\<lambda>x. ek_id x = i \<and> ek_version x = v) (renamed_key e u) (external_api_keys d)"
    and "\<exists>x \<in> set (external_api_keys d). ek_id x = i \<and> ek_version x = v \<and> ek_key_digest y = ek_key_digest x" and "ek_id y = i"
    and "ek_enabled y = ku_Enabled u" and "ek_version y = v + 1"
proof -
  let ?p = "\<lambda>x. ek_id x = i \<and> ek_version x = v" and ?rows = "external_api_keys d"
  from assms(1) obtain w d1 where u: "ensureExternalAPIKeyUnique l (trim_space (ku_Name u)) None i d = (Inr w, d1)"
    and ok: "name_ok (trim_space (ku_Name u))" and one: "affected ?p (external_api_keys d1) = 1"
    and d': "d' = external_api_keys_update (update_where ?p (renamed_key e u)) d1" and y: "key_by_id i d' = (Inr y, d')"
    by (auto simp: UpdateExternalAPIKey_def key_version_def tx_inv dest: key_by_id_keeps)
  from ensure_unique_inv [OF u] have d1: "d1 = d" and names: "\<And>r. r \<in> set ?rows \<Longrightarrow> ek_id r \<noteq> i \<Longrightarrow> fold_name l (ek_name r) \<noteq> fold_name l (trim_space (ku_Name u))"
    by auto
  show rows: "external_api_keys d' = update_where ?p (renamed_key e u) ?rows" using d' d1 by simp
  from inv have keys: "distinct (map ek_id ?rows)" "distinct (map (\<lambda>x. fold_name l (ek_name x)) ?rows)" "distinct (map ek_key_digest ?rows)"
    "list_all (\<lambda>x. ek_id x \<noteq> [] \<and> key_row_ok x) ?rows" by (auto simp: keys_inv_def)
  have "distinct (map (\<lambda>x. fold_name l (ek_name x)) (update_where ?p (renamed_key e u) ?rows))"
    by (rule distinct_update_key [OF keys(2,1), where v = i and w = "fold_name l (trim_space (ku_Name u))"]) (use names in \<open>auto simp: renamed_key_def\<close>)
  moreover have "distinct (map ek_id (external_api_keys d'))" "distinct (map ek_key_digest (external_api_keys d'))"
    using keys unfolding rows by (subst distinct_update_where; simp add: renamed_key_def)+
  moreover have "list_all (\<lambda>x. ek_id x \<noteq> [] \<and> key_row_ok x) (external_api_keys d')"
    using keys(4) ok unfolding rows by (auto simp: list_all_iff set_update_where renamed_key_def key_row_ok_def)
  ultimately show inv': "keys_inv l d'" by (simp add: keys_inv_def rows)
  from affected_one_ex [OF one] obtain x where x: "x \<in> set ?rows" "ek_id x = i" "ek_version x = v" unfolding d1 by blast
  have "select_where (\<lambda>x. ek_id x = i) (external_api_keys d') = Some (renamed_key e u x)"
    by (rule select_where_key [of ek_id]) (use inv' x in \<open>auto simp: keys_inv_def rows set_update_where renamed_key_def\<close>)
  with y have "y = (renamed_key e u x)\<lparr>ek_key_plaintext := Some (coalesce (ek_key_plaintext x) [])\<rparr>"
    by (auto simp: key_by_id_def scanExternalAPIKey_def renamed_key_def split: if_splits)
  with x show "\<exists>x \<in> set ?rows. ek_id x = i \<and> ek_version x = v \<and> ek_key_digest y = ek_key_digest x" "ek_id y = i" "ek_enabled y = ku_Enabled u" "ek_version y = v + 1"
    by (auto simp: renamed_key_def)
qed

lemma Delete_effect:
  assumes "DeleteExternalAPIKey i v d = (Inr u, d')" and inv: "keys_inv l d"
  shows "keys_inv l d'" and "external_api_keys d' = delete_where (\<lambda>x. ek_id x = i) (external_api_keys d)"
proof -
  let ?p = "\<lambda>x. ek_id x = i \<and> ek_version x = v"
  from assms(1) have one: "affected ?p (external_api_keys d) = 1" and rows: "external_api_keys d' = delete_where ?p (external_api_keys d)"
    by (auto simp: DeleteExternalAPIKey_def key_version_def tx_inv)
  show "keys_inv l d'" using inv by (auto simp: keys_inv_def rows distinct_delete_where list_all_iff)
  from affected_one_ex [OF one] obtain x where x: "x \<in> set (external_api_keys d)" "ek_id x = i" "ek_version x = v" by blast
  have "?p y = (ek_id y = i)" if "y \<in> set (external_api_keys d)" for y
    using key_unique [of ek_id, OF _ that x(1)] x inv by (auto simp: keys_inv_def)
  with rows show "external_api_keys d' = delete_where (\<lambda>x. ek_id x = i) (external_api_keys d)"
    by (simp add: delete_where_def cong: filter_cong)
qed

lemma keys_inv_cong: "external_api_keys d' = external_api_keys d \<Longrightarrow> keys_inv l d' = keys_inv l d"
  by (simp add: keys_inv_def)

lemma backfill_one_keeps:
  assumes inv: "keys_inv l d" and run: "backfill_one k d = (r, d')"
  shows "keys_inv l d'"
proof (cases "ki_Key k = []")
  case True
  with run inv show ?thesis by (simp add: backfill_one_def)
next
  case False
  let ?f = "\<lambda>x. x\<lparr>ek_key_plaintext := Some (ki_Key k)\<rparr>"
    and ?p = "\<lambda>x. ek_id x = ki_ID k \<and> ek_key_digest x = ki_KeyDigest k \<and> coalesce (ek_key_plaintext x) [] = []"
  from run False have rows: "external_api_keys d' = update_where ?p ?f (external_api_keys d)"
    by (auto simp: backfill_one_def and_then_def)
  have "map ek_id (external_api_keys d') = map ek_id (external_api_keys d)" "map ek_key_digest (external_api_keys d') = map ek_key_digest (external_api_keys d)"
    "map (\<lambda>x. fold_name l (ek_name x)) (external_api_keys d') = map (\<lambda>x. fold_name l (ek_name x)) (external_api_keys d)"
    unfolding rows by (rule map_update_where; simp)+
  moreover have "list_all (\<lambda>x. ek_id x \<noteq> [] \<and> key_row_ok x) (external_api_keys d')"
    using inv unfolding rows keys_inv_def by (fastforce simp: list_all_iff set_update_where key_row_ok_def)
  ultimately show ?thesis using inv by (simp add: keys_inv_def)
qed

lemma backfill_keeps: "keys_inv l d \<Longrightarrow> BackfillExternalAPIKeyPlaintexts ks d = (r, d') \<Longrightarrow> keys_inv l d'"
proof (unfold BackfillExternalAPIKeyPlaintexts_def, induction ks arbitrary: d)
  case (Cons k ks)
  obtain r1 d1 where one: "backfill_one k d = (r1, d1)" by (cases "backfill_one k d")
  note kept = backfill_one_keeps [OF Cons.prems(1) one]
  with Cons.prems(2) one Cons.IH [OF kept] show ?case by (cases r1) auto
qed simp

lemma validate_legacy_sound:
  "validate_legacy l names digests ks = None \<Longrightarrow>
   list_all (\<lambda>k. ki_ID k \<noteq> [] \<and> fold_name l (trim_space (ki_Name k)) \<notin> fold_name l ` set names) ks
   \<and> distinct (map (\<lambda>k. fold_name l (trim_space (ki_Name k))) ks)"
proof (induction ks arbitrary: names digests)
  case (Cons k ks)
  from Cons.prems have this_key: "legacy_error l names digests k = None"
    and rest: "validate_legacy l (trim_space (ki_Name k) # names) (ki_KeyDigest k # digests) ks = None"
    by (auto split: option.splits)
  from this_key have "ki_ID k \<noteq> []" "fold_name l (trim_space (ki_Name k)) \<notin> fold_name l ` set names"
    by (auto simp: legacy_error_def Let_def EqualFold_def list_ex_iff split: if_splits)
  with Cons.IH [OF rest] show ?case by (auto simp: list_all_iff)
qed simp

lemma import_loop:
  "for_each (\<lambda>k. insert_key (new_key now k)) ks d = (Inr u, d') \<Longrightarrow> keys_inv l d \<Longrightarrow> \<forall>k \<in> set ks. ki_ID k \<noteq> [] \<Longrightarrow>
   distinct (map (\<lambda>x. fold_name l (ek_name x)) (external_api_keys d) @ map (\<lambda>k. fold_name l (trim_space (ki_Name k))) ks) \<Longrightarrow>
   keys_inv l d' \<and> external_api_keys d' = external_api_keys d @ map (new_key now) ks"
proof (induction ks arbitrary: d)
  case (Cons k ks)
  from Cons.prems(1) obtain u1 d1 where one: "insert_key (new_key now k) d = (Inr u1, d1)"
    and rest: "for_each (\<lambda>k. insert_key (new_key now k)) ks d1 = (Inr u, d')" by (auto simp: tx_inv)
  have "\<And>y. y \<in> set (external_api_keys d) \<Longrightarrow> fold_name l (ek_name y) \<noteq> fold_name l (ek_name (new_key now k))"
    using Cons.prems(4) by (force simp: new_key_def)
  note kept = insert_key_keeps [OF one Cons.prems(2) _ this]
  have k: "ek_id (new_key now k) \<noteq> []" using Cons.prems(3) by (simp add: new_key_def)
  have "keys_inv l d' \<and> external_api_keys d' = external_api_keys d1 @ map (new_key now) ks"
    by (rule Cons.IH [OF rest kept(1) [OF k]]) (use Cons.prems(3,4) kept(2) [OF k] in \<open>auto simp: new_key_def\<close>)
  with kept(2) [OF k] show ?case by simp
qed simp

lemma import_keys_keeps:
  assumes "import_keys l e ks d = (Inr u, d')" and "external_api_keys d = []"
  shows "keys_inv l d' \<and> external_api_keys d' = map (new_key (nowMillis e)) (sort_key ki_ID ks)"
proof -
  from assms(1) have v: "validateLegacyAPIKeys l ks = None"
    and run: "for_each (\<lambda>k. insert_key (new_key (nowMillis e) k)) (sort_key ki_ID ks) d = (Inr u, d')"
    by (auto simp: import_keys_def split: option.splits)
  note legacy = validate_legacy_sound [OF v [unfolded validateLegacyAPIKeys_def]]
  have "distinct (map (\<lambda>k. fold_name l (trim_space (ki_Name k))) (sort_key ki_ID ks))"
    using legacy by (simp add: distinct_map)
  moreover have "keys_inv l d" using assms(2) by (simp add: keys_inv_def)
  ultimately show ?thesis using legacy assms(2) import_loop [OF run, of l] by (simp add: list_all_iff)
qed

lemma import_keeps:
  assumes "ImportLegacyAPIKeys l e ks d = (Inr x, d')" and "keys_inv l d"
  shows "keys_inv l d'"
proof (cases "api_key_config_bootstrap d = None \<and> external_api_keys d = []")
  case True
  with assms(1) obtain u d1 where "import_keys l e ks d = (Inr u, d1)" and "external_api_keys d' = external_api_keys d1"
    by (auto simp: ImportLegacyAPIKeys_def tx_inv)
  with import_keys_keeps [of l e ks d u d1] True show ?thesis by (simp only: keys_inv_cong [of d' d1])
next
  case False
  with assms show ?thesis by (auto simp: ImportLegacyAPIKeys_def keys_inv_def tx_inv split: option.splits if_splits)
qed

lemma key_writes_atomic:
  "CreateExternalAPIKey l e k d = (Inl er, d') \<Longrightarrow> d' = d" "UpdateExternalAPIKey l e i v u d = (Inl er, d') \<Longrightarrow> d' = d"
  "DeleteExternalAPIKey i v d = (Inl er, d') \<Longrightarrow> d' = d" "ImportLegacyAPIKeys l e ks d = (Inl er, d') \<Longrightarrow> d' = d"
  unfolding CreateExternalAPIKey_def UpdateExternalAPIKey_def DeleteExternalAPIKey_def ImportLegacyAPIKeys_def
  by (erule atomically_failure)+

lemma key_step_keeps: "key_step l d d' \<Longrightarrow> keys_inv l d \<Longrightarrow> keys_inv l d'"
proof (induction rule: key_step.induct)
  case (creating e k d r d')
  then show ?case using Create_effect(1) key_writes_atomic(1) by (cases r) blast+
next
  case (updating e i v u d r d')
  then show ?case using Update_effect(1) key_writes_atomic(2) by (cases r) blast+
next
  case (deleting i v d r d')
  then show ?case using Delete_effect(1) key_writes_atomic(3) by (cases r) blast+
next
  case (backfilling ks d r d')
  then show ?case by (blast intro: backfill_keeps)
next
  case (importing e ks d r d')
  then show ?case using import_keeps key_writes_atomic(4) by (cases r) blast+
qed

section \<open>Authentication\<close>

lemma owners_fold:
  "foldl (\<lambda>m c. if kc_Enabled c then m(kc_KeyDigest c \<mapsto> kc_ID c) else m) m cs g = Some owner \<Longrightarrow>
   m g = Some owner \<or> (\<exists>c \<in> set cs. kc_Enabled c \<and> kc_KeyDigest c = g \<and> kc_ID c = owner)"
proof (induction cs arbitrary: m)
  case (Cons c cs)
  from Cons.IH [OF Cons.prems [unfolded foldl.simps]] show ?case by (auto split: if_splits)
qed simp

lemma owners_fold_notin:
  "\<forall>c \<in> set cs. kc_Enabled c \<longrightarrow> kc_KeyDigest c \<noteq> g \<Longrightarrow>
   foldl (\<lambda>m c. if kc_Enabled c then m(kc_KeyDigest c \<mapsto> kc_ID c) else m) m cs g = m g"
  by (induction cs arbitrary: m) auto

lemma owners_of_iff:
  assumes "distinct (map kc_KeyDigest cs)"
  shows "owners_of cs g = Some owner \<longleftrightarrow> (\<exists>c \<in> set cs. kc_Enabled c \<and> kc_KeyDigest c = g \<and> kc_ID c = owner)"
proof
  assume "owners_of cs g = Some owner"
  then show "\<exists>c \<in> set cs. kc_Enabled c \<and> kc_KeyDigest c = g \<and> kc_ID c = owner" using owners_fold by (fastforce simp: owners_of_def)
next
  assume "\<exists>c \<in> set cs. kc_Enabled c \<and> kc_KeyDigest c = g \<and> kc_ID c = owner"
  then obtain c us vs where cs: "cs = us @ c # vs" and c: "kc_Enabled c" "kc_KeyDigest c = g" "kc_ID c = owner" by (meson split_list)
  have "\<forall>x \<in> set vs. kc_Enabled x \<longrightarrow> kc_KeyDigest x \<noteq> g" using assms c unfolding cs by (auto simp: image_iff)
  from owners_fold_notin [OF this] c show "owners_of cs g = Some owner" by (simp add: owners_of_def cs)
qed

definition credential :: "external_api_key \<Rightarrow> ExternalAPIKeyCredential" where
  "credential x = \<lparr>kc_ID = ek_id x, kc_KeyDigest = ek_key_digest x, kc_Enabled = ek_enabled x\<rparr>"

lemma scan_all_map: "(\<And>x. x \<in> set xs \<Longrightarrow> f x = Inr (g x)) \<Longrightarrow> scan_all f xs = Inr (map g xs)"
  by (induction xs) auto

lemma credentials_listed:
  assumes "keys_inv l d"
  shows "ListExternalAPIKeyCredentials d = (Inr (map credential (sort_key ek_id (external_api_keys d))), d)"
proof -
  have "scan_all scan_credential (sort_key ek_id (external_api_keys d)) = Inr (map credential (sort_key ek_id (external_api_keys d)))"
    by (rule scan_all_map) (use assms in \<open>auto simp: keys_inv_def list_all_iff key_row_ok_def scan_credential_def credential_def\<close>)
  then show ?thesis by (simp add: ListExternalAPIKeyCredentials_def)
qed

definition authentic :: "KeyLibs \<Rightarrow> db \<Rightarrow> string \<Rightarrow> string \<Rightarrow> bool" where
  "authentic l d token owner \<longleftrightarrow> token \<noteq> [] \<and> list_ex (\<lambda>x. ek_enabled x \<and> ek_key_digest x = Digest l token \<and> ek_id x = owner) (external_api_keys d)"

lemma owners_exact:
  assumes "keys_inv l d"
  shows "owners_of (map credential (sort_key ek_id (external_api_keys d))) g = Some owner
     \<longleftrightarrow> list_ex (\<lambda>x. ek_enabled x \<and> ek_key_digest x = g \<and> ek_id x = owner) (external_api_keys d)"
proof -
  have "distinct (map ek_key_digest (sort_key ek_id (external_api_keys d)))" using assms by (simp add: keys_inv_def distinct_map)
  then have "distinct (map kc_KeyDigest (map credential (sort_key ek_id (external_api_keys d))))"
    by (simp add: credential_def comp_def)
  from owners_of_iff [OF this] show ?thesis by (auto simp: credential_def list_ex_iff)
qed

lemma Reload_up:
  assumes "keys_inv l (ks_db s)"
  shows "Reload True s = (Inr (), s\<lparr>ks_owners := owners_of (map credential (sort_key ek_id (external_api_keys (ks_db s))))\<rparr>)"
  by (simp add: Reload_def on_keys_def and_then_def credentials_listed [OF assms])

lemma Reload_exact:
  assumes "keys_inv l (ks_db s)" and "Reload up s = (Inr u, s')"
  shows "ks_db s' = ks_db s" and "Authenticate l s' token = Some owner \<longleftrightarrow> authentic l (ks_db s) token owner"
proof -
  from assms(2) have up: up by (auto simp: Reload_def tx_inv)
  from assms Reload_up [OF assms(1)] up have s': "s' = s\<lparr>ks_owners := owners_of (map credential (sort_key ek_id (external_api_keys (ks_db s))))\<rparr>"
    by simp
  then show "ks_db s' = ks_db s" by simp
  show "Authenticate l s' token = Some owner \<longleftrightarrow> authentic l (ks_db s) token owner"
    by (simp add: s' Authenticate_def authentic_def owners_exact [OF assms(1)])
qed

lemma Reload_failure: "Reload up s = (Inl er, s') \<Longrightarrow> s' = s"
  by (auto simp: Reload_def and_then_def on_keys_def ListExternalAPIKeyCredentials_def split: if_splits sum.splits prod.splits)

lemma on_keys_success: "on_keys m s = (Inr x, s') \<longleftrightarrow> (\<exists>d'. m (ks_db s) = (Inr x, d') \<and> s' = s\<lparr>ks_db := d'\<rparr>)"
  by (auto simp: on_keys_def split: prod.splits)

lemma reloading_result: "reloading up x s = (Inr (y, er), s') \<Longrightarrow> y = x"
  by (auto simp: reloading_def split: prod.splits sum.splits)

lemma reloading_inv:
  assumes "reloading up x s = (Inr (y, er), s')" and "keys_inv l (ks_db s)"
  shows "ks_db s' = ks_db s" and "er = (if up then None else Some ErrCacheRefresh)"
    and "up \<Longrightarrow> Authenticate l s' token = Some owner \<longleftrightarrow> authentic l (ks_db s) token owner" and "\<not> up \<Longrightarrow> s' = s"
proof -
  show "er = (if up then None else Some ErrCacheRefresh)" "\<not> up \<Longrightarrow> s' = s" "ks_db s' = ks_db s"
    using assms(1) Reload_up [OF assms(2)] by (cases up; auto simp: reloading_def Reload_def split: prod.splits sum.splits)+
  show "up \<Longrightarrow> Authenticate l s' token = Some owner \<longleftrightarrow> authentic l (ks_db s) token owner"
    using assms Reload_exact(2) [of l s up "()" s'] Reload_up [OF assms(2)] by (auto simp: reloading_def)
qed

text \<open>C20: Whatever operations ran on the keys, the table is well formed: ids are unique and not empty, digests are unique and 32 bytes long, names
  are unique up to case and of a legal length, prefixes and suffixes too, and versions are positive. So a token has at most one owner.\<close>

theorem api_keys_well_formed:
  assumes "external_api_keys d = []" and "(key_step l)\<^sup>*\<^sup>* d d'"
  shows "keys_inv l d'"
  using assms(2)
proof (induction rule: rtranclp_induct)
  case base
  from assms(1) show ?case by (simp add: keys_inv_def)
next
  case (step d1 d2)
  then show ?case by (blast intro: key_step_keeps)
qed

text \<open>C37: Once the service has created a key and reloaded, the token it hands out authenticates as the new key, and every token with another digest
  exactly as the enabled keys of the table before say.\<close>

theorem created_key_authenticates:
  assumes inv: "keys_inv l (ks_db s)" and run: "Service_Create up l e random name s = (Inr ((x, key), None), s')"
  shows "keys_inv l (ks_db s') \<and> Authenticate l s' key = Some (ek_id x)
     \<and> (\<forall>token owner. Digest l token \<noteq> Digest l key \<longrightarrow> (Authenticate l s' token = Some owner \<longleftrightarrow> authentic l (ks_db s) token owner))"
proof -
  from run obtain bs rs d1 where key: "key = ''mmx_'' @ hex_encode rs" and cr: "CreateExternalAPIKey l e (new_input l name key bs) (ks_db s) = (Inr x, d1)"
    and re: "reloading up (x, key) (s\<lparr>ks_db := d1\<rparr>) = (Inr ((x, key), None), s')"
    by (auto simp: Service_Create_def Generate_def tx_inv on_keys_success dest: reloading_result split: if_splits)
  let ?k = "new_input l name key bs"
  have "ki_ID ?k \<noteq> []" by (simp add: new_input_def)
  note c = Create_effect [OF cr inv this]
  note r = reloading_inv [OF re, of l]
  have up: up using r(2) c(1) by (auto split: if_splits)
  have auth: "Authenticate l s' token = Some owner \<longleftrightarrow> authentic l d1 token owner" for token owner
    using r(3) [OF _ up] c(1) by simp
  have rows: "authentic l d1 token owner \<longleftrightarrow> authentic l (ks_db s) token owner \<or> token \<noteq> [] \<and> Digest l token = Digest l key \<and> owner = ek_id x"
    for token owner using c(2,3) by (auto simp: authentic_def new_key_def new_input_def)
  have "key \<noteq> []" by (simp add: key)
  with auth rows r(1) c(1) show ?thesis by auto
qed

lemma Service_Update_effect:
  assumes inv: "keys_inv l (ks_db s)" and run: "Service_Update up l e i v u s = (Inr (y, er), s')"
  shows "keys_inv l (ks_db s')" and "list_ex (\<lambda>x. ek_id x = i \<and> ek_enabled x = ku_Enabled u) (external_api_keys (ks_db s'))"
    and "er = (if up then None else Some ErrCacheRefresh)" and "\<not> up \<Longrightarrow> ks_owners s' = ks_owners s"
    and "up \<Longrightarrow> Authenticate l s' token = Some owner \<longleftrightarrow>
       (if owner = i then ku_Enabled u \<and> token \<noteq> [] \<and> Digest l token = ek_key_digest y else authentic l (ks_db s) token owner)"
proof -
  let ?u = "u\<lparr>ku_Name := trim_space (ku_Name u)\<rparr>"
  from run obtain d1 where ur: "UpdateExternalAPIKey l e i v ?u (ks_db s) = (Inr y, d1)" and re: "reloading up y (s\<lparr>ks_db := d1\<rparr>) = (Inr (y, er), s')"
    by (auto simp: Service_Update_def tx_inv on_keys_success dest: reloading_result)
  note c = Update_effect [OF ur inv]
  note r = reloading_inv [OF re, of l]
  from c(3) obtain x where x: "x \<in> set (external_api_keys (ks_db s))" "ek_id x = i" "ek_version x = v" "ek_key_digest y = ek_key_digest x" by blast
  let ?x = "renamed_key e ?u x"
  have mem: "?x \<in> set (external_api_keys d1)" and xi: "ek_id ?x = i" using x by (auto simp: c(2) set_update_where renamed_key_def)
  have "z = ?x" if "z \<in> set (external_api_keys d1)" "ek_id z = i" for z
    using key_unique [of ek_id, OF _ that(1) mem] that(2) xi c(1) by (simp add: keys_inv_def)
  then have self: "authentic l d1 token i \<longleftrightarrow> token \<noteq> [] \<and> ek_enabled ?x \<and> ek_key_digest ?x = Digest l token"
    using mem xi unfolding authentic_def list_ex_iff by blast
  have others: "authentic l d1 token owner \<longleftrightarrow> authentic l (ks_db s) token owner" if "owner \<noteq> i"
    using that by (auto simp: authentic_def list_ex_iff c(2) set_update_where renamed_key_def)
  show "Authenticate l s' token = Some owner \<longleftrightarrow>
       (if owner = i then ku_Enabled u \<and> token \<noteq> [] \<and> Digest l token = ek_key_digest y else authentic l (ks_db s) token owner)" if up
    using r(3) [OF _ that, of token owner] c(1) x(4) self others by (auto simp: renamed_key_def)
  show "er = (if up then None else Some ErrCacheRefresh)" "\<not> up \<Longrightarrow> ks_owners s' = ks_owners s" using r(2,4) c(1) by auto
  show "keys_inv l (ks_db s')" using r(1) c(1) by simp
  show "list_ex (\<lambda>x. ek_id x = i \<and> ek_enabled x = ku_Enabled u) (external_api_keys (ks_db s'))"
    using mem xi r(1) c(1) unfolding list_ex_iff by (intro bexI [of _ ?x]) (simp_all add: renamed_key_def)
qed

lemma Service_Delete_effect:
  assumes inv: "keys_inv l (ks_db s)" and run: "Service_Delete up i v s = (Inr (x, er), s')"
  shows "keys_inv l (ks_db s')" and "\<not> list_ex (\<lambda>x. ek_id x = i) (external_api_keys (ks_db s'))" and "key_references i (ks_db s) = 0"
    and "er = (if up then None else Some ErrCacheRefresh)" and "\<not> up \<Longrightarrow> ks_owners s' = ks_owners s"
    and "up \<Longrightarrow> Authenticate l s' token = Some owner \<longleftrightarrow> owner \<noteq> i \<and> authentic l (ks_db s) token owner"
proof -
  from run obtain d1 where dr: "DeleteExternalAPIKey i v (ks_db s) = (Inr (), d1)" and re: "reloading up () (s\<lparr>ks_db := d1\<rparr>) = (Inr ((), er), s')"
    by (auto simp: Service_Delete_def tx_inv on_keys_success)
  note c = Delete_effect [OF dr inv]
  note r = reloading_inv [OF re, of l]
  show "key_references i (ks_db s) = 0" using dr by (auto simp: DeleteExternalAPIKey_def key_version_def tx_inv)
  show "keys_inv l (ks_db s')" "\<not> list_ex (\<lambda>x. ek_id x = i) (external_api_keys (ks_db s'))" using r(1) c by (auto simp: keys_inv_def list_ex_iff)
  show "er = (if up then None else Some ErrCacheRefresh)" "\<not> up \<Longrightarrow> ks_owners s' = ks_owners s" using r(2,4) c(1) by auto
  show "Authenticate l s' token = Some owner \<longleftrightarrow> owner \<noteq> i \<and> authentic l (ks_db s) token owner" if up
    using r(3) [OF _ that] c by (auto simp: authentic_def list_ex_iff)
qed

text \<open>C21: A change of a key is committed, and takes effect with the reload after it: an updated key then authenticates, with its own digest, exactly when
  it is enabled, a deleted one never, and every other key as the table said before. Only a key no task and no idempotency record refers to is deleted.
  When the reload after an update or a deletion fails, the error says so, the row is changed or gone all the same, and every token is answered as before.\<close>

theorem revocation_takes_effect:
  assumes "keys_inv l (ks_db s)"
  shows "(Service_Update up l e i v u s = (Inr (y, er), s') \<longrightarrow>
       list_ex (\<lambda>x. ek_id x = i \<and> ek_enabled x = ku_Enabled u) (external_api_keys (ks_db s'))
       \<and> (if up then er = None \<and> (Authenticate l s' token = Some owner \<longleftrightarrow>
              (if owner = i then ku_Enabled u \<and> token \<noteq> [] \<and> Digest l token = ek_key_digest y else authentic l (ks_db s) token owner))
          else er = Some ErrCacheRefresh \<and> Authenticate l s' token = Authenticate l s token))
     \<and> (Service_Delete up i v s = (Inr (x, er), s') \<longrightarrow>
       key_references i (ks_db s) = 0 \<and> \<not> list_ex (\<lambda>x. ek_id x = i) (external_api_keys (ks_db s'))
       \<and> (if up then er = None \<and> (Authenticate l s' token = Some owner \<longleftrightarrow> owner \<noteq> i \<and> authentic l (ks_db s) token owner)
          else er = Some ErrCacheRefresh \<and> Authenticate l s' token = Authenticate l s token))"
proof (intro conjI impI)
  assume run: "Service_Update up l e i v u s = (Inr (y, er), s')"
  note c = Service_Update_effect [OF assms run]
  show "list_ex (\<lambda>x. ek_id x = i \<and> ek_enabled x = ku_Enabled u) (external_api_keys (ks_db s'))" by (rule c(2))
  show "if up then er = None \<and> (Authenticate l s' token = Some owner \<longleftrightarrow>
              (if owner = i then ku_Enabled u \<and> token \<noteq> [] \<and> Digest l token = ek_key_digest y else authentic l (ks_db s) token owner))
        else er = Some ErrCacheRefresh \<and> Authenticate l s' token = Authenticate l s token"
    using c(3-5) by (auto simp: Authenticate_def)
next
  assume run: "Service_Delete up i v s = (Inr (x, er), s')"
  note c = Service_Delete_effect [OF assms run]
  show "key_references i (ks_db s) = 0" "\<not> list_ex (\<lambda>x. ek_id x = i) (external_api_keys (ks_db s'))" by (rule c(3), rule c(2))
  show "if up then er = None \<and> (Authenticate l s' token = Some owner \<longleftrightarrow> owner \<noteq> i \<and> authentic l (ks_db s) token owner)
        else er = Some ErrCacheRefresh \<and> Authenticate l s' token = Authenticate l s token"
    using c(4,5,6) by (auto simp: Authenticate_def)
qed

section \<open>A concrete run\<close>

definition sample_key_libs :: KeyLibs where
  "sample_key_libs = \<lparr>kl_fold = lower_rune, kl_sha256 = take 32\<rparr>"

definition sample_token :: string where
  "sample_token = ''mmx_'' @ concat (replicate 32 ''41'')"

definition sample_key :: external_api_key where
  "sample_key = \<lparr>ek_id = ''key_'' @ concat (replicate 16 ''41''), ek_name = ''Ann'', ek_key_plaintext = Some sample_token, ek_key_digest = take 32 sample_token,
     ek_key_prefix = ''mmx_4141'', ek_key_suffix = ''4141'', ek_enabled = True, ek_version = 1, ek_created_at = 1000000, ek_updated_at = 1000000\<rparr>"

definition no_keys :: key_state where
  "no_keys = \<lparr>ks_db = empty_db, ks_owners = Map.empty\<rparr>"

definition one_key :: key_state where
  "one_key = \<lparr>ks_db = empty_db\<lparr>external_api_keys := [sample_key]\<rparr>, ks_owners = [take 32 sample_token \<mapsto> ek_id sample_key]\<rparr>"

lemmas key_eval = sample_key_libs_def sample_key_def no_keys_def one_key_def empty_db_def sample_env_def

lemma sample_random: "Generate (replicate 48 (CHR ''A'')) = Inr sample_token" "\<not> length (drop 32 (replicate 48 (CHR ''A''))) < 16"
  "take 16 (drop 32 (replicate 48 (CHR ''A''))) = replicate 16 (CHR ''A'')"
  by code_simp+

lemma sample_input: "new_input sample_key_libs '' Ann'' sample_token (replicate 16 (CHR ''A'')) =
  \<lparr>ki_ID = ek_id sample_key, ki_Name = ''Ann'', ki_Key = sample_token, ki_KeyDigest = take 32 sample_token, ki_KeyPrefix = ''mmx_4141'', ki_KeySuffix = ''4141'', ki_Enabled = True\<rparr>"
  by code_simp

lemma sample_digest: "length sample_token = 68" "sample_token \<noteq> []" by code_simp+

lemma sample_names: "trim_space ''Ann'' = ''Ann''" "name_ok ''Ann''" "rune_count ''mmx_4141'' = 8" "rune_count ''4141'' = 4"
  by code_simp+

lemma sample_created: "CreateExternalAPIKey sample_key_libs sample_env (new_input sample_key_libs '' Ann'' sample_token (replicate 16 (CHR ''A''))) empty_db
  = (Inr sample_key, empty_db\<lparr>external_api_keys := [sample_key]\<rparr>)"
  unfolding sample_input
  by (simp add: CreateExternalAPIKey_def atomically_def and_then_def ensureExternalAPIKeyUnique_def insert_key_def key_row_ok_def
      new_key_def key_by_id_def scanExternalAPIKey_def key_eval sample_digest sample_names)

lemma one_key_inv: "keys_inv sample_key_libs (ks_db one_key)"
  by (simp add: keys_inv_def key_row_ok_def one_key_def sample_key_def sample_digest sample_names)

lemma sample_create_run: "Service_Create True sample_key_libs sample_env (replicate 48 (CHR ''A'')) '' Ann'' no_keys = (Inr ((sample_key, sample_token), None), one_key)"
proof -
  let ?s = "no_keys\<lparr>ks_db := empty_db\<lparr>external_api_keys := [sample_key]\<rparr>\<rparr>"
  have inv: "keys_inv sample_key_libs (ks_db ?s)" using one_key_inv by (simp add: one_key_def)
  have "owners_of (map credential (sort_key ek_id (external_api_keys (ks_db ?s)))) = [take 32 sample_token \<mapsto> ek_id sample_key]"
    by (simp add: owners_of_def credential_def sample_key_def)
  with Reload_up [OF inv] have "reloading True (sample_key, sample_token) ?s = (Inr ((sample_key, sample_token), None), one_key)"
    by (simp add: reloading_def no_keys_def one_key_def)
  moreover have "on_keys (CreateExternalAPIKey sample_key_libs sample_env (new_input sample_key_libs '' Ann'' sample_token (replicate 16 (CHR ''A'')))) no_keys = (Inr sample_key, ?s)"
    using sample_created by (simp add: on_keys_def no_keys_def)
  ultimately show ?thesis using sample_random by (simp add: Service_Create_def and_then_def)
qed

lemma sample_delete_run: "Service_Delete True (ek_id sample_key) 1 one_key = (Inr ((), None), no_keys)"
proof -
  have "DeleteExternalAPIKey (ek_id sample_key) 1 (ks_db one_key) = (Inr (), empty_db)"
    by (simp add: DeleteExternalAPIKey_def key_version_def key_references_def atomically_def and_then_def key_eval)
  moreover have "keys_inv sample_key_libs empty_db" by (simp add: keys_inv_def empty_db_def)
  ultimately show ?thesis using Reload_up [of sample_key_libs "one_key\<lparr>ks_db := empty_db\<rparr>"]
    by (simp add: Service_Delete_def on_keys_def and_then_def reloading_def owners_of_def one_key_def no_keys_def empty_db_def)
qed

theorem api_keys_well_formed_witness:
  "(key_step sample_key_libs)\<^sup>*\<^sup>* empty_db (ks_db one_key) \<and> keys_inv sample_key_libs (ks_db one_key)"
proof -
  have "key_step sample_key_libs empty_db (ks_db one_key)"
    using key_step.creating [OF sample_created] by (simp add: one_key_def new_input_def)
  then have "(key_step sample_key_libs)\<^sup>*\<^sup>* empty_db (ks_db one_key)" by (rule r_into_rtranclp)
  with api_keys_well_formed [OF _ this] show ?thesis by (simp add: empty_db_def)
qed

theorem created_key_authenticates_witness:
  "Service_Create True sample_key_libs sample_env (replicate 48 (CHR ''A'')) '' Ann'' no_keys = (Inr ((sample_key, sample_token), None), one_key)
   \<and> Authenticate sample_key_libs one_key sample_token = Some (ek_id sample_key) \<and> Authenticate sample_key_libs one_key ''mmx_4242'' = None"
proof -
  have inv: "keys_inv sample_key_libs (ks_db no_keys)" by (simp add: keys_inv_def key_eval)
  note c = created_key_authenticates [OF inv sample_create_run]
  have "Digest sample_key_libs ''mmx_4242'' \<noteq> Digest sample_key_libs sample_token" by code_simp
  with c have "Authenticate sample_key_libs one_key ''mmx_4242'' = Some w \<longleftrightarrow> authentic sample_key_libs (ks_db no_keys) ''mmx_4242'' w" for w by blast
  then have "Authenticate sample_key_libs one_key ''mmx_4242'' = None" by (simp add: authentic_def key_eval not_Some_eq [symmetric] del: not_Some_eq)
  with c sample_create_run show ?thesis by blast
qed

theorem revocation_takes_effect_witness:
  "Service_Delete True (ek_id sample_key) 1 one_key = (Inr ((), None), no_keys) \<and> Authenticate sample_key_libs one_key sample_token = Some (ek_id sample_key)
   \<and> Authenticate sample_key_libs no_keys sample_token \<noteq> Some (ek_id sample_key)"
proof -
  note d = revocation_takes_effect [OF one_key_inv, of True sample_env "ek_id sample_key" 1 "\<lparr>ku_Name = ''Ann'', ku_Enabled = False\<rparr>" sample_key None no_keys sample_token "ek_id sample_key" "()"]
  have "Authenticate sample_key_libs one_key sample_token = Some (ek_id sample_key)"
    by (simp add: Authenticate_def Digest_def one_key_def sample_key_libs_def sample_digest)
  with d sample_delete_run show ?thesis by simp
qed

end
