(* ===== verification/Spec2Isabelle.thy ===== *)
theory Spec2Isabelle
  imports Callbacks Cleanups TaskEnds RemoteWorker OfficialWorker ResultDelivery ApiKeys
begin

text \<open>
  \<^bold>\<open>A verification development for the MiniMax proxy.\<close>

  The program accepts video generation requests over HTTP, keeps them as tasks in an SQLite
  database, hands them to inference nodes (a staged H3 protocol, a direct "official" protocol and
  the remote TK2SD protocol), delivers the results and notifies clients. Its core is the store
  (\<^verbatim>\<open>internal/store/sqlite\<close>): every component changes the state of the program through one of its
  operations, each of them one transaction or one statement, and the workers call them concurrently. This
  development models the store's operations as state transformers on one database record, the
  protocol layer that decides which requests reach it, and the workers' own decisions where they are
  made outside the store.

  \<^bold>\<open>Theories.\<close>

  \<^item> \<^verbatim>\<open>Prelude\<close>: transactions as functions from the database to an outcome and the database left behind,
    SQL statements on tables of rows, and the contracts the components share as locales:
    \<open>step_contract\<close> (a relation between the states before and after that composes, lifted over
    sequences, loops, transactions and reachability), \<open>leased_op\<close> and \<open>atomic_leased_op\<close> (an
    operation only the holder of a lease can perform).
  \<^item> \<^verbatim>\<open>GoText\<close>, \<^verbatim>\<open>GoJSON\<close>, \<^verbatim>\<open>JsonText\<close>: the parts of Go's \<open>strings\<close>, \<open>unicode/utf8\<close>, \<open>encoding/base64\<close> and
    \<open>encoding/json\<close> the program calls, on byte strings, and the validity of the JSON texts it builds.
  \<^item> \<^verbatim>\<open>Domain\<close> (\<^verbatim>\<open>internal/domain\<close>): statuses, requests, capabilities, errors.
  \<^item> \<^verbatim>\<open>Protocols\<close> (\<^verbatim>\<open>internal/protocol\<close>): the registry and the validation and normalisation of requests.
  \<^item> \<^verbatim>\<open>Schema\<close> (\<^verbatim>\<open>migrations/*.sql\<close>): one record per table row, the database, and the store's options, clock
    and libraries (\<open>StoreEnv\<close>); the locale \<open>keyed_table\<close> is interpreted for every table.
  \<^item> \<^verbatim>\<open>NodeStore\<close> (\<^verbatim>\<open>model_catalog_store.go\<close>, \<^verbatim>\<open>model_route_store.go\<close>, \<^verbatim>\<open>model_node.go\<close>): nodes, catalogs and routes.
  \<^item> \<^verbatim>\<open>TaskQueue\<close>, \<^verbatim>\<open>TaskStore\<close> (\<^verbatim>\<open>store.go\<close>, \<^verbatim>\<open>task_routing_store.go\<close>, \<^verbatim>\<open>task_status.go\<close>, \<^verbatim>\<open>input_spool_store.go\<close>): the
    queue, creation with idempotency and limits, claims, transitions and listings.
  \<^item> \<^verbatim>\<open>Barriers\<close>, \<^verbatim>\<open>StageStore\<close> (\<^verbatim>\<open>dispatch_barrier.go\<close>, \<^verbatim>\<open>stage_store.go\<close>): the stages of an H3 task.
  \<^item> \<^verbatim>\<open>RemoteStore\<close> (\<^verbatim>\<open>remote_task_store.go\<close>): runs on TK2SD nodes, refined to an abstract submission protocol.
  \<^item> \<^verbatim>\<open>OfficialStore\<close> (\<^verbatim>\<open>official_task_store.go\<close>): direct tasks; node capacity for both kinds of task.
  \<^item> \<^verbatim>\<open>UploadStore\<close> (\<^verbatim>\<open>result_delivery_store.go\<close>): uploads of results to object storage.
  \<^item> \<^verbatim>\<open>Deletions\<close>, \<^verbatim>\<open>Cleanups\<close> (\<^verbatim>\<open>deletion_store.go\<close>, \<^verbatim>\<open>cleanup_store.go\<close>, \<^verbatim>\<open>internal/cleanup/worker.go\<close>): deletion jobs
    and their items, cleanups by age, and the worker's treatment of a claimed item.
  \<^item> \<^verbatim>\<open>TaskEnds\<close> (\<^verbatim>\<open>store.go\<close>, \<^verbatim>\<open>task_purge_store.go\<close>): cancellation, purging and expiry.
  \<^item> \<^verbatim>\<open>Callbacks\<close> (\<^verbatim>\<open>callback_store.go\<close>, \<^verbatim>\<open>internal/callback\<close>): the delivery queue, the signed request, the worker.
  \<^item> \<^verbatim>\<open>Netguard\<close> (\<^verbatim>\<open>internal/netguard\<close>): the guard that keeps the program from connecting to protected addresses.
  \<^item> \<^verbatim>\<open>InputSpool\<close> (\<^verbatim>\<open>internal/inputspool\<close>, \<^verbatim>\<open>input_spool_store.go\<close>): inline media on their way into files and back.
  \<^item> \<^verbatim>\<open>RemoteInputs\<close>, \<^verbatim>\<open>RemoteResults\<close>, \<^verbatim>\<open>RemoteWorker\<close> (\<^verbatim>\<open>internal/remote\<close>): the worker of TK2SD nodes on top of the
    remote store: the materialisation of inputs, the treatment of results, and the pass over a task.
  \<^item> \<^verbatim>\<open>OfficialWorker\<close> (\<^verbatim>\<open>internal/official\<close>, \<^verbatim>\<open>minimaxv2/client.go\<close>): the worker of the official API.
  \<^item> \<^verbatim>\<open>ResultDelivery\<close> (\<^verbatim>\<open>internal/resultdelivery\<close>): the worker that moves results to object storage, and its downloader.
  \<^item> \<^verbatim>\<open>ApiKeys\<close> (\<^verbatim>\<open>internal/authkey\<close>, \<^verbatim>\<open>external_api_key.go\<close>): the clients' keys, their service and their authentication.

  \<^bold>\<open>What the lemmas show.\<close> Requests are normalised soundly and idempotently. Creating a task is idempotent and
  stays within the quotas; the queue serves the longest-waiting task a node may run and protects its
  front. Stages run in order, under one lease per task, within their attempts, and an old lease is
  refused everywhere; a barrier keeps its node idle. Every sequence of remote operations implements
  the abstract submission protocol (one body per key, submitted at least once, completed once), and no
  interleaving of claims exceeds a node's capacity. Uploads and callbacks respect their attempt limits
  and their final states. The books of the deletion jobs balance with their items, and only the holder
  of an item's lease reports on it. A cancellation leaves no active attempt, a purge no trace of the task and every other row as it was. A guarded client only connects
  outside the protected ranges (with a zone: outside the loopback, private, link-local and multicast ones), whatever the name servers answer. Inline media the detector knows, sent with a role,
  come back from the spool with the same bytes. A remote worker
  uploads each medium whole, prepares the same body whenever it prepares, and, on top of the submission
  protocol, never sends two different requests for one task, whoever else works on it at the same time. The official API, which knows no
  idempotency keys, gets at most one request per task through all passes and crashes that follow one another, as long as nobody requeues it; a pass that returns without an error has settled its task, and it returns once
  the API answers finally. A delivery pass never panics and gives its lease back with the attempt recorded or the stored object published; its downloader
  only dials public addresses and accepts whole files. The table of keys stays well formed, and a key authenticates from its creation to its revocation. Several lemmas record behaviour that surprises: an expired head blocks
  the queue, a page number can overflow, a refused binding commits half of its changes, an upload
  job keeps its task from being purged, a cancellation during an upload strands the task, an IPv6 zone defeats the guard.

  \<^bold>\<open>Conventions.\<close> An operation returns \<open>Inl\<close> of the Go error or \<open>Inr\<close> of its result with the database it leaves;
  \<open>atomically\<close> rolls back on an error, \<open>committing\<close> models the functions whose deferred
  \<open>completeTransaction\<close> sees a shadowed \<open>err\<close> and commits. Errors without a sentinel are
  \<open>ErrText\<close> with a tag for their text, violated CHECK, UNIQUE and FOREIGN KEY constraints are \<open>ErrSQL\<close>.
  JSON columns hold the value they decode to (\<open>None\<close> for the saved baseline of an official task when it does not decode); NULL is \<open>None\<close>. Timestamps are integers in the unit of their column,
  read once per call from \<open>StoreEnv\<close>; retention and idempotency TTL are whole seconds, node
  durations nanoseconds, stage leases milliseconds, remote leases and the callback worker's durations
  nanoseconds. Integers that can overflow are wrapped explicitly (\<open>wrap64\<close>). \<open>url.Parse\<close>, SHA-256,
  HMAC, UUIDs, ciphers, key derivation and HTTP clients are parameters. The page-by-page queue search
  is a terminating recursion on the remaining rows, and the JSON scanner's fuel \<open>2 * length + 2\<close> is
  proved sufficient. The byte sums of a cleanup summary wrap as Go's, those SQLite adds are integers. The expiry pass
  takes one environment per nested operation, for their clocks and UUIDs. Foreign keys without
  a cascade are checked where rows are deleted (\<open>delete_unreferenced\<close>). The callback backoff is stated for attempts from 1 on (Go panics on a negative shift).
 A remote worker runs in a world
  (\<open>RemoteWorld\<close>) whose clock, files, downloads, node and other workers answer by the number of the call; an
  orderly world's other workers only run operations of the remote store between two calls. A caller that joins the refresh of a result another
  caller has in flight gets what that one computes from its own starting point. Durations of media are float64: their sums
  (at most 30) are rounded to 53 bits. The official worker and the delivery worker run in worlds of the same kind, with the log of what they sent or stored; the
  polling loop of the official worker is a \<open>partial_function\<close> whose value is \<open>None\<close> when it does not return. The file system is a map from clean paths to contents.

  \<^bold>\<open>Not modelled.\<close> The HTTP handlers (\<^verbatim>\<open>internal/httpapi\<close>), the clients of the nodes (\<^verbatim>\<open>internal/upstream\<close>), configuration,
  migrations and database set-up, logging, and the goroutine loops around the workers are input and
  output around this core. \<open>created_at\<close> and \<open>updated_at\<close> of the catalog and route tables are write-only and left
  out; the triggers of the route tables are not modelled, the one on \<open>result_internal_url\<close> is.
\<close>

end
